(* ===== verification/Go_Prelude.thy ===== *)
theory Go_Prelude
  imports Main
begin

text \<open>
  The part of the Go language and its standard library that the components share.
  A Go string is a sequence of bytes and is modelled by the type \<open>string\<close> of 8-bit characters,
  so \<open>length\<close> is Go's \<open>len\<close>. Runes are decoded from the bytes the way package \<open>unicode/utf8\<close>
  does, an invalid byte giving the replacement rune of width 1. Instants are nanoseconds since
  Go's zero time, durations are nanoseconds, and \<open>int\<close>, \<open>int64\<close> arithmetic that can overflow
  goes through \<open>wrap64\<close>. The theory also holds the list lemmas for tables of rows.
\<close>

named_theorems go_simps \<open>unfolding rules of the library functions of Go\<close>
named_theorems table_simps \<open>rules for the rows of a table\<close>

section \<open>Runes\<close>

definition rune_error :: nat where
  "rune_error = 65533"

definition byte_in :: "nat \<Rightarrow> nat \<Rightarrow> char \<Rightarrow> bool" where
  "byte_in lo hi c \<longleftrightarrow> lo \<le> of_char c \<and> of_char c \<le> hi"

text \<open>
  \<open>utf8.DecodeRuneInString\<close>: the first rune and its width in bytes. The well-formed sequences
  of two, three and four bytes, with the second-byte ranges that exclude overlong forms and
  surrogates; any other lead byte is the replacement rune of width 1.
\<close>

definition seq2 :: "string \<Rightarrow> bool" where
  "seq2 s \<longleftrightarrow> 2 \<le> length s \<and> byte_in 194 223 (s ! 0) \<and> byte_in 128 191 (s ! 1)"

definition seq3 :: "string \<Rightarrow> bool" where
  "seq3 s \<longleftrightarrow> 3 \<le> length s \<and> byte_in 224 239 (s ! 0)
     \<and> byte_in (if (of_char (s ! 0) :: nat) = 224 then 160 else 128)
               (if (of_char (s ! 0) :: nat) = 237 then 159 else 191) (s ! 1)
     \<and> byte_in 128 191 (s ! 2)"

definition seq4 :: "string \<Rightarrow> bool" where
  "seq4 s \<longleftrightarrow> 4 \<le> length s \<and> byte_in 240 244 (s ! 0)
     \<and> byte_in (if (of_char (s ! 0) :: nat) = 240 then 144 else 128)
               (if (of_char (s ! 0) :: nat) = 244 then 143 else 191) (s ! 1)
     \<and> byte_in 128 191 (s ! 2) \<and> byte_in 128 191 (s ! 3)"

definition decode_rune :: "string \<Rightarrow> nat \<times> nat" where
  "decode_rune s =
     (if s = [] then (rune_error, 0)
      else if (of_char (s ! 0) :: nat) < 128 then (of_char (s ! 0), 1)
      else if seq2 s then ((of_char (s ! 0) - 192) * 64 + (of_char (s ! 1) - 128), 2)
      else if seq3 s then ((of_char (s ! 0) - 224) * 4096 + (of_char (s ! 1) - 128) * 64
                             + (of_char (s ! 2) - 128), 3)
      else if seq4 s then ((of_char (s ! 0) - 240) * 262144 + (of_char (s ! 1) - 128) * 4096
                             + (of_char (s ! 2) - 128) * 64 + (of_char (s ! 3) - 128), 4)
      else (rune_error, 1))"

lemma decode_rune_Nil [simp]: "decode_rune [] = (rune_error, 0)"
  by (simp add: decode_rune_def)

lemma decode_rune_ascii [simp]:
  "(of_char c :: nat) < 128 \<Longrightarrow> decode_rune (c # cs) = (of_char c, 1)"
  by (simp add: decode_rune_def)

lemma decode_rune_width:
  "s \<noteq> [] \<Longrightarrow> 1 \<le> snd (decode_rune s) \<and> snd (decode_rune s) \<le> length s"
  by (cases s) (simp_all add: decode_rune_def seq2_def seq3_def seq4_def)

lemma seq_take:
  "seq2 (take n s) \<longleftrightarrow> 2 \<le> n \<and> seq2 s"
  "seq3 (take n s) \<longleftrightarrow> 3 \<le> n \<and> seq3 s"
  "seq4 (take n s) \<longleftrightarrow> 4 \<le> n \<and> seq4 s"
  by (auto simp: seq2_def seq3_def seq4_def)

lemma decode_rune_take:
  assumes "snd (decode_rune s) \<le> n"
  shows "decode_rune (take n s) = decode_rune s"
proof (cases "s = []")
  case False
  then have "1 \<le> n" using assms decode_rune_width [of s] by auto
  then show ?thesis using False assms
    by (simp add: decode_rune_def seq_take split: if_splits)
qed simp

text \<open>The runes of a string, each with the bytes it was decoded from (\<open>for i, r := range s\<close>).\<close>

function runes :: "string \<Rightarrow> (nat \<times> string) list" where
  "runes s = (if s = [] then []
     else let w = snd (decode_rune s)
          in (fst (decode_rune s), take w s) # runes (drop w s))"
  by pat_completeness auto
termination
  by (relation "measure length") (use decode_rune_width in \<open>auto simp: Suc_le_eq\<close>)

declare runes.simps [simp del]

lemma runes_Nil [simp]: "runes [] = []"
  by (subst runes.simps) simp

lemma runes_nonempty:
  "s \<noteq> [] \<Longrightarrow> runes s =
     (fst (decode_rune s), take (snd (decode_rune s)) s) # runes (drop (snd (decode_rune s)) s)"
  by (subst runes.simps) (simp add: Let_def)

lemma runes_ascii [simp]:
  "(of_char c :: nat) < 128 \<Longrightarrow> runes (c # cs) = (of_char c, [c]) # runes cs"
  by (simp add: runes_nonempty)

lemma runes_bytes [simp]: "concat (map snd (runes s)) = s"
proof (induction s rule: runes.induct)
  case (1 s)
  then show ?case by (cases "s = []") (simp_all add: runes_nonempty)
qed

lemma runes_eq_Nil [simp]: "runes s = [] \<longleftrightarrow> s = []"
  by (cases "s = []") (simp_all add: runes_nonempty)

lemma length_runes_le: "length (runes s) \<le> length s"
proof (induction s rule: runes.induct)
  case (1 s)
  show ?case
  proof (cases "s = []")
    case False
    then have "1 \<le> snd (decode_rune s)" "snd (decode_rune s) \<le> length s"
      using decode_rune_width by auto
    moreover have "length (runes (drop (snd (decode_rune s)) s)) \<le> length s - snd (decode_rune s)"
      using "1.IH" [OF False refl] by simp
    ultimately show ?thesis using False by (simp add: runes_nonempty)
  qed simp
qed

text \<open>Decoding is compositional: dropping or taking whole runes keeps the other runes.\<close>

lemma runes_drop: "runes (concat (map snd (drop n (runes s)))) = drop n (runes s)"
proof (induction s arbitrary: n rule: runes.induct)
  case (1 s)
  then show ?case by (cases "s = []"; cases n) (simp_all add: runes_nonempty)
qed

lemma decode_rune_prefix_runes:
  assumes "s \<noteq> []"
  shows "decode_rune (concat (map snd (take (Suc n) (runes s)))) = decode_rune s"
proof -
  let ?w = "snd (decode_rune s)"
  have "concat (map snd (take (Suc n) (runes s)))
        = take (length (concat (map snd (take (Suc n) (runes s))))) s"
    by (metis append_eq_conv_conj append_take_drop_id concat_append map_append runes_bytes)
  moreover have "?w \<le> length (concat (map snd (take (Suc n) (runes s))))"
    using decode_rune_width [OF assms] by (simp add: runes_nonempty [OF assms])
  ultimately show ?thesis by (metis decode_rune_take)
qed

lemma runes_take: "runes (concat (map snd (take n (runes s)))) = take n (runes s)"
proof (induction s arbitrary: n rule: runes.induct)
  case (1 s)
  show ?case
  proof (cases "s = [] \<or> n = 0")
    case False
    then obtain m where n: "n = Suc m" and s: "s \<noteq> []" by (cases n) auto
    let ?w = "snd (decode_rune s)"
    let ?p = "concat (map snd (take n (runes s)))"
    have p: "?p = take ?w s @ concat (map snd (take m (runes (drop ?w s))))"
      using s n by (simp add: runes_nonempty)
    have w: "1 \<le> ?w" "?w \<le> length s" using decode_rune_width [OF s] by auto
    then have "?p \<noteq> []" using p s by auto
    moreover have "decode_rune ?p = decode_rune s"
      using decode_rune_prefix_runes [OF s, of m] n by simp
    moreover have "take ?w ?p = take ?w s" and "drop ?w ?p = concat (map snd (take m (runes (drop ?w s))))"
      using w unfolding p by simp_all
    ultimately show ?thesis
      using "1.IH" [OF s refl, of m] s n runes_nonempty [of ?p] runes_nonempty [OF s] by simp
  qed auto
qed

definition RuneCountInString :: "string \<Rightarrow> nat" where
  "RuneCountInString s = length (runes s)"

definition ValidString :: "string \<Rightarrow> bool" where
  "ValidString s \<longleftrightarrow> list_all (\<lambda>(r, b). \<not> (r = rune_error \<and> length b = 1)) (runes s)"

text \<open>Runes of valid texts: decoding the parts of a valid text one after the other.\<close>

lemma ValidString_Nil [simp]: "ValidString []"
  by (simp add: ValidString_def)

lemma ValidString_runes:
  "ValidString s \<longleftrightarrow> (\<forall>(r, b) \<in> set (runes s). \<not> (r = rune_error \<and> length b = 1))"
  by (simp add: ValidString_def list_all_iff)

lemma seq_append:
  "seq2 a \<Longrightarrow> seq2 (a @ b)" "seq3 a \<Longrightarrow> seq3 (a @ b)" "seq4 a \<Longrightarrow> seq4 (a @ b)"
  using seq_take [of "length a" "a @ b"] by simp_all

lemma seq_disjoint:
  "seq3 s \<Longrightarrow> \<not> seq2 s" "seq4 s \<Longrightarrow> \<not> seq2 s" "seq4 s \<Longrightarrow> \<not> seq3 s"
  "seq2 s \<or> seq3 s \<or> seq4 s \<Longrightarrow> \<not> (of_char (s ! 0) :: nat) < 128"
  by (auto simp: seq2_def seq3_def seq4_def byte_in_def)

text \<open>The five shapes of the first rune of a text, each with its value and width.\<close>

lemma decode_rune_cases:
  assumes "s \<noteq> []"
  obtains (ascii) "(of_char (s ! 0) :: nat) < 128" "decode_rune s = (of_char (s ! 0), 1)"
  | (two) "seq2 s" "decode_rune s = ((of_char (s ! 0) - 192) * 64 + (of_char (s ! 1) - 128), 2)"
  | (three) "seq3 s" "decode_rune s = ((of_char (s ! 0) - 224) * 4096 + (of_char (s ! 1) - 128) * 64
                             + (of_char (s ! 2) - 128), 3)"
  | (four) "seq4 s" "decode_rune s = ((of_char (s ! 0) - 240) * 262144 + (of_char (s ! 1) - 128) * 4096
                             + (of_char (s ! 2) - 128) * 64 + (of_char (s ! 3) - 128), 4)"
  | (invalid) "decode_rune s = (rune_error, 1)"
  using assms
  by (cases "(of_char (s ! 0) :: nat) < 128"; cases "seq2 s"; cases "seq3 s"; cases "seq4 s")
    (simp_all add: decode_rune_def del: One_nat_def)

lemma decode_rune_append:
  assumes "a \<noteq> []" "decode_rune a \<noteq> (rune_error, 1)"
  shows "decode_rune (a @ b) = decode_rune a"
  using assms(1)
proof (cases rule: decode_rune_cases)
  case ascii
  then show ?thesis using assms(1) by (simp add: decode_rune_def nth_append)
next
  case two
  moreover from two have "1 < length a" by (simp add: seq2_def)
  ultimately show ?thesis
    using assms(1) seq_append(1) [of a b] seq_disjoint(4) [of "a @ b"]
    by (simp add: decode_rune_def [of "a @ b"] nth_append)
next
  case three
  moreover from three have "2 < length a" by (simp add: seq3_def)
  ultimately show ?thesis
    using assms(1) seq_append(2) [of a b] seq_disjoint(1,4) [of "a @ b"]
    by (simp add: decode_rune_def [of "a @ b"] nth_append)
next
  case four
  moreover from four have "3 < length a" by (simp add: seq4_def)
  ultimately show ?thesis
    using assms(1) seq_append(3) [of a b] seq_disjoint(2-4) [of "a @ b"]
    by (simp add: decode_rune_def [of "a @ b"] nth_append)
qed (use assms(2) in simp)

lemma ValidString_nonempty:
  assumes "s \<noteq> []"
  shows "ValidString s \<longleftrightarrow> decode_rune s \<noteq> (rune_error, 1) \<and> ValidString (drop (snd (decode_rune s)) s)"
proof -
  have "min (length s) (snd (decode_rune s)) = snd (decode_rune s)"
    using decode_rune_width [OF assms] by simp
  then show ?thesis by (auto simp: ValidString_runes runes_nonempty [OF assms] prod_eq_iff)
qed

lemma runes_append_valid: "ValidString a \<Longrightarrow> runes (a @ b) = runes a @ runes b"
proof (induction a rule: runes.induct)
  case (1 a)
  show ?case
  proof (cases "a = []")
    case False
    let ?w = "snd (decode_rune a)"
    have "decode_rune a \<noteq> (rune_error, 1)" and v: "ValidString (drop ?w a)"
      using "1.prems" ValidString_nonempty [OF False] by auto
    then have "decode_rune (a @ b) = decode_rune a" using False by (simp add: decode_rune_append)
    moreover have "?w \<le> length a" using decode_rune_width [OF False] by simp
    ultimately show ?thesis
      using False "1.IH" [OF False refl v] by (simp add: runes_nonempty)
  qed simp
qed

lemma ValidString_append: "ValidString a \<Longrightarrow> ValidString (a @ b) \<longleftrightarrow> ValidString b"
  by (auto simp: ValidString_runes runes_append_valid)

text \<open>Cutting a string after \<open>n\<close> of its runes.\<close>

definition rune_prefix :: "nat \<Rightarrow> string \<Rightarrow> nat" where
  "rune_prefix n s = length (concat (map snd (take n (runes s))))"

lemma take_rune_prefix: "take (rune_prefix n s) s = concat (map snd (take n (runes s)))"
  and drop_rune_prefix: "drop (rune_prefix n s) s = concat (map snd (drop n (runes s)))"
proof -
  have "s = concat (map snd (take n (runes s))) @ concat (map snd (drop n (runes s)))"
    by (metis append_take_drop_id concat_append map_append runes_bytes)
  then show "take (rune_prefix n s) s = concat (map snd (take n (runes s)))"
    and "drop (rune_prefix n s) s = concat (map snd (drop n (runes s)))"
    unfolding rune_prefix_def by (metis append_eq_conv_conj)+
qed

lemma runes_cut:
  "runes (take (rune_prefix n s) s) = take n (runes s)"
  "runes (drop (rune_prefix n s) s) = drop n (runes s)"
  by (simp_all add: take_rune_prefix drop_rune_prefix runes_take runes_drop)

lemma ValidString_cut:
  assumes "ValidString s"
  shows "ValidString (take (rune_prefix n s) s)" "ValidString (drop (rune_prefix n s) s)"
  using assms by (auto simp: ValidString_runes runes_cut dest: in_set_takeD in_set_dropD)

section \<open>Strings\<close>

text \<open>\<open>unicode.IsSpace\<close> and \<open>unicode.IsControl\<close>.\<close>

definition IsSpace :: "nat \<Rightarrow> bool" where
  "IsSpace r \<longleftrightarrow> r \<in> {9, 10, 11, 12, 13, 32, 133, 160, 5760, 8232, 8233, 8239, 8287, 12288}
     \<or> (8192 \<le> r \<and> r \<le> 8202)"

definition IsControl :: "nat \<Rightarrow> bool" where
  "IsControl r \<longleftrightarrow> r < 32 \<or> (127 \<le> r \<and> r < 160)"

definition trim_by :: "('a \<Rightarrow> bool) \<Rightarrow> 'a list \<Rightarrow> 'a list" where
  "trim_by P xs = rev (dropWhile P (rev (dropWhile P xs)))"

definition TrimSpace :: "string \<Rightarrow> string" where
  "TrimSpace s = concat (map snd (trim_by (\<lambda>rb. IsSpace (fst rb)) (runes s)))"

lemma trim_by_Nil [simp]: "trim_by P [] = []"
  by (simp add: trim_by_def)

lemma trim_by_take_drop:
  "\<exists>m n. trim_by P xs = take m (drop n xs)"
proof -
  let ?d = "dropWhile P xs"
  have "trim_by P xs = take (length ?d - length (takeWhile P (rev ?d))) ?d"
    by (simp only: trim_by_def dropWhile_eq_drop [of P "rev ?d"] rev_drop rev_rev_ident length_rev)
  then show ?thesis by (metis dropWhile_eq_drop)
qed

lemma dropWhile_hd: "xs = [] \<or> \<not> P (hd xs) \<Longrightarrow> dropWhile P xs = xs"
  by (cases xs) auto

lemma trim_by_id: "xs = [] \<or> (\<not> P (hd xs) \<and> \<not> P (last xs)) \<Longrightarrow> trim_by P xs = xs"
  using dropWhile_hd [of xs P] dropWhile_hd [of "rev xs" P] by (auto simp: trim_by_def hd_rev)

lemma trim_by_ends: "trim_by P xs \<noteq> [] \<Longrightarrow> \<not> P (hd (trim_by P xs)) \<and> \<not> P (last (trim_by P xs))"
proof -
  let ?d = "dropWhile P xs"
  assume ne: "trim_by P xs \<noteq> []"
  then have r: "dropWhile P (rev ?d) \<noteq> []" by (simp add: trim_by_def)
  then have l: "\<not> P (last (trim_by P xs))"
    using hd_dropWhile [of P "rev ?d"] by (auto simp: trim_by_def last_rev)
  obtain ys where "rev ?d = ys @ dropWhile P (rev ?d)"
    by (metis takeWhile_dropWhile_id)
  then have "?d = trim_by P xs @ rev ys"
    by (metis rev_append rev_rev_ident trim_by_def)
  then have "hd ?d = hd (trim_by P xs)" and "?d \<noteq> []" using ne by (metis hd_append2, simp)
  then show ?thesis using l hd_dropWhile [of P xs] by metis
qed

lemma trim_by_idem [simp]: "trim_by P (trim_by P xs) = trim_by P xs"
  by (rule trim_by_id) (use trim_by_ends in blast)

lemma runes_trim: "runes (TrimSpace s) = trim_by (\<lambda>rb. IsSpace (fst rb)) (runes s)"
proof -
  obtain m n where t: "trim_by (\<lambda>rb. IsSpace (fst rb)) (runes s) = take m (drop n (runes s))"
    using trim_by_take_drop by blast
  let ?s = "concat (map snd (drop n (runes s)))"
  have "runes (concat (map snd (take m (runes ?s)))) = take m (runes ?s)" by (rule runes_take)
  then show ?thesis by (simp add: TrimSpace_def t runes_drop)
qed

lemma TrimSpace_Nil [simp]: "TrimSpace [] = []"
  by (simp add: TrimSpace_def)

lemma TrimSpace_idem [simp]: "TrimSpace (TrimSpace s) = TrimSpace s"
  by (subst TrimSpace_def) (simp add: runes_trim TrimSpace_def [symmetric])

lemma length_TrimSpace_le: "length (TrimSpace s) \<le> length s"
proof -
  obtain m n where "trim_by (\<lambda>rb. IsSpace (fst rb)) (runes s) = take m (drop n (runes s))"
    using trim_by_take_drop by blast
  then have "TrimSpace s = concat (map snd (take m (drop n (runes s))))"
    by (simp add: TrimSpace_def)
  moreover have "runes s = take n (runes s) @ take m (drop n (runes s)) @ drop m (drop n (runes s))"
    by (simp only: append_take_drop_id)
  ultimately have "s = concat (map snd (take n (runes s))) @ TrimSpace s
      @ concat (map snd (drop m (drop n (runes s))))"
    by (metis concat_append map_append runes_bytes)
  then have "length s = length (concat (map snd (take n (runes s)))) + (length (TrimSpace s)
      + length (concat (map snd (drop m (drop n (runes s))))))"
    by (metis length_append)
  then show ?thesis by linarith
qed

text \<open>A string of printable ASCII characters without blanks is its own trimming.\<close>

definition graphic :: "string \<Rightarrow> bool" where
  "graphic s \<longleftrightarrow> list_all (\<lambda>c. 32 < (of_char c :: nat) \<and> (of_char c :: nat) < 127) s"

lemma graphic_Nil [simp]: "graphic []"
  by (simp add: graphic_def)

lemma graphic_append [simp]: "graphic (s @ t) \<longleftrightarrow> graphic s \<and> graphic t"
  by (simp add: graphic_def)

lemma runes_graphic: "graphic s \<Longrightarrow> runes s = map (\<lambda>c. (of_char c, [c])) s"
  by (induction s) (simp_all add: graphic_def)

lemma not_IsSpace_graphic: "32 < r \<Longrightarrow> r < 127 \<Longrightarrow> \<not> IsSpace r"
  by (auto simp: IsSpace_def)

lemma TrimSpace_graphic [simp]: "graphic s \<Longrightarrow> TrimSpace s = s"
proof -
  assume g: "graphic s"
  have "trim_by (\<lambda>rb. IsSpace (fst rb)) (runes s) = runes s"
  proof (rule trim_by_id)
    show "runes s = [] \<or> \<not> IsSpace (fst (hd (runes s))) \<and> \<not> IsSpace (fst (last (runes s)))"
      using g by (cases "s = []")
        (simp_all add: runes_graphic graphic_def list_all_iff hd_map last_map not_IsSpace_graphic)
  qed
  then show ?thesis by (simp add: TrimSpace_def)
qed

text \<open>ASCII case folding, \<open>strings.ToLower\<close> on the hexadecimal digests it is applied to.\<close>

definition lower_byte :: "char \<Rightarrow> char" where
  "lower_byte c = (if byte_in 65 90 c then char_of ((of_char c :: nat) + 32) else c)"

definition ToLower :: "string \<Rightarrow> string" where
  "ToLower s = map lower_byte s"

lemma of_char_lower_byte:
  "(of_char (lower_byte c) :: nat) = (if byte_in 65 90 c then of_char c + 32 else of_char c)"
  by (simp add: lower_byte_def byte_in_def of_char_of)

lemma lower_byte_idem [simp]: "lower_byte (lower_byte c) = lower_byte c"
proof -
  have "\<not> byte_in 65 90 (lower_byte c)"
    by (auto simp: byte_in_def of_char_lower_byte)
  then show ?thesis by (simp add: lower_byte_def [of "lower_byte c"])
qed

lemma ToLower_idem [simp]: "ToLower (ToLower s) = ToLower s"
  by (simp add: ToLower_def)

lemma length_ToLower [simp]: "length (ToLower s) = length s"
  by (simp add: ToLower_def)

definition hex_digit :: "char \<Rightarrow> bool" where
  "hex_digit c \<longleftrightarrow> byte_in 48 57 c \<or> byte_in 97 102 c \<or> byte_in 65 70 c"

text \<open>\<open>hex.DecodeString\<close> succeeds.\<close>

definition hex_decodes :: "string \<Rightarrow> bool" where
  "hex_decodes s \<longleftrightarrow> even (length s) \<and> list_all hex_digit s"

text \<open>Go compares strings byte by byte.\<close>

fun string_less :: "string \<Rightarrow> string \<Rightarrow> bool" where
  "string_less _ [] = False"
| "string_less [] (_ # _) = True"
| "string_less (a # as) (b # bs) =
     ((of_char a :: nat) < of_char b \<or> (a = b \<and> string_less as bs))"

lemma string_less_irrefl [simp]: "\<not> string_less s s"
  by (induction s) auto

lemma string_less_asym: "string_less s t \<Longrightarrow> \<not> string_less t s"
  by (induction s t rule: string_less.induct) auto

lemma string_less_trans: "string_less s t \<Longrightarrow> string_less t u \<Longrightarrow> string_less s u"
proof (induction s arbitrary: t u)
  case Nil
  then show ?case by (cases t; cases u) auto
next
  case (Cons a s)
  then show ?case by (cases t; cases u) auto
qed

lemma string_less_total: "string_less s t \<or> s = t \<or> string_less t s"
proof (induction s t rule: string_less.induct)
  case (3 a as b bs)
  have "(of_char a :: nat) = of_char b \<Longrightarrow> a = b"
    by (metis char_of_char)
  with 3 show ?case by (auto dest: linorder_neqE_nat)
next
  case (1 s)
  then show ?case by (cases s) auto
qed auto

section \<open>Integers\<close>

text \<open>Two's complement wrap-around of Go's 64-bit \<open>int\<close> and \<open>int64\<close>.\<close>

definition int64_min :: int where "int64_min = - (2 ^ 63)"
definition int64_max :: int where "int64_max = 2 ^ 63 - 1"

definition in_int64 :: "int \<Rightarrow> bool" where
  "in_int64 x \<longleftrightarrow> int64_min \<le> x \<and> x \<le> int64_max"

definition wrap64 :: "int \<Rightarrow> int" where
  "wrap64 x = (x + 2 ^ 63) mod 2 ^ 64 - 2 ^ 63"

lemma wrap64_in_int64 [simp]: "in_int64 (wrap64 x)"
proof -
  have "0 \<le> (x + 2 ^ 63) mod 2 ^ 64" and "(x + 2 ^ 63) mod 2 ^ 64 < 2 ^ 64" by simp_all
  then show ?thesis by (simp add: wrap64_def in_int64_def int64_min_def int64_max_def)
qed

lemma wrap64_id: "in_int64 x \<Longrightarrow> wrap64 x = x"
  by (simp add: wrap64_def in_int64_def int64_min_def int64_max_def)

text \<open>Go's integer division truncates towards zero.\<close>

definition quot :: "int \<Rightarrow> int \<Rightarrow> int" where
  "quot a b = sgn a * sgn b * (\<bar>a\<bar> div \<bar>b\<bar>)"

section \<open>Time\<close>

type_synonym time = int
type_synonym duration = int

definition Millisecond :: duration where "Millisecond = 1000000"
definition Second :: duration where "Second = 1000000000"
definition Minute :: duration where "Minute = 60000000000"

definition IsZero :: "time \<Rightarrow> bool" where "IsZero t \<longleftrightarrow> t = 0"
definition After :: "time \<Rightarrow> time \<Rightarrow> bool" where "After t u \<longleftrightarrow> u < t"
definition Before :: "time \<Rightarrow> time \<Rightarrow> bool" where "Before t u \<longleftrightarrow> t < u"

text \<open>\<open>Time.Sub\<close> saturates at the ends of the range of a duration.\<close>

definition Sub :: "time \<Rightarrow> time \<Rightarrow> duration" where
  "Sub t u = max int64_min (min int64_max (t - u))"

definition Add :: "time \<Rightarrow> duration \<Rightarrow> time" where "Add t d = t + d"

lemmas time_defs [go_simps] = IsZero_def After_def Before_def Add_def

text \<open>A PostgreSQL \<open>timestamptz\<close> keeps microseconds; the driver drops the rest.\<close>

definition pg_ts :: "time \<Rightarrow> time" where "pg_ts t = t div 1000 * 1000"

lemma pg_ts_le: "pg_ts t \<le> t"
  by (simp add: pg_ts_def minus_mod_eq_div_mult [symmetric])

lemma pg_ts_gt: "t < pg_ts t + 1000"
  unfolding pg_ts_def using pos_mod_bound [of 1000 t] div_mult_mod_eq [of t 1000] by linarith

lemma pg_ts_mono: "t \<le> u \<Longrightarrow> pg_ts t \<le> pg_ts u"
  by (simp add: pg_ts_def zdiv_mono1)

lemma pg_ts_idem [simp]: "pg_ts (pg_ts t) = pg_ts t"
  by (simp add: pg_ts_def)

section \<open>Rows\<close>

text \<open>\<open>UPDATE t SET g WHERE P\<close> and the uniqueness of a key column.\<close>

definition update_where :: "('r \<Rightarrow> bool) \<Rightarrow> ('r \<Rightarrow> 'r) \<Rightarrow> 'r list \<Rightarrow> 'r list" where
  "update_where P g rows = map (\<lambda>r. if P r then g r else r) rows"

definition unique_key :: "('r \<Rightarrow> 'k) \<Rightarrow> 'r list \<Rightarrow> bool" where
  "unique_key k rows \<longleftrightarrow> distinct (map k rows)"

definition rows_affected :: "('r \<Rightarrow> bool) \<Rightarrow> 'r list \<Rightarrow> nat" where
  "rows_affected P rows = length (filter P rows)"

lemma update_where_Nil [simp]: "update_where P g [] = []"
  by (simp add: update_where_def)

lemma in_set_update_where [table_simps]:
  "r \<in> set (update_where P g rows) \<longleftrightarrow>
     (\<exists>r0 \<in> set rows. r = (if P r0 then g r0 else r0))"
  unfolding update_where_def by fastforce

lemma list_all_update_where [table_simps]:
  "list_all Q (update_where P g rows) \<longleftrightarrow> (\<forall>r \<in> set rows. if P r then Q (g r) else Q r)"
  by (induction rows) (auto simp: update_where_def)

lemma length_update_where [simp]: "length (update_where P g rows) = length rows"
  by (simp add: update_where_def)

lemma map_update_where [table_simps]:
  "(\<And>r. P r \<Longrightarrow> k (g r) = k r) \<Longrightarrow> map k (update_where P g rows) = map k rows"
  by (simp add: update_where_def)

lemma unique_key_update_where [table_simps]:
  "(\<And>r. P r \<Longrightarrow> k (g r) = k r) \<Longrightarrow> unique_key k (update_where P g rows) = unique_key k rows"
  by (simp add: unique_key_def map_update_where)

lemma update_where_none: "(\<And>r. r \<in> set rows \<Longrightarrow> \<not> P r) \<Longrightarrow> update_where P g rows = rows"
  by (induction rows) (auto simp: update_where_def)

lemma rows_affected_zero [table_simps]:
  "rows_affected P rows = 0 \<longleftrightarrow> (\<forall>r \<in> set rows. \<not> P r)"
  by (simp add: rows_affected_def filter_empty_conv)

lemma unique_key_append [table_simps]:
  "unique_key k (rows @ [r]) \<longleftrightarrow> unique_key k rows \<and> k r \<notin> k ` set rows"
  by (auto simp: unique_key_def)

lemma unique_keyD:
  "unique_key k rows \<Longrightarrow> r \<in> set rows \<Longrightarrow> r' \<in> set rows \<Longrightarrow> k r = k r' \<Longrightarrow> r = r'"
  by (auto simp: unique_key_def distinct_map dest: inj_onD)

lemma find_Some_in_set: "find P xs = Some x \<Longrightarrow> x \<in> set xs \<and> P x"
  by (auto simp: find_Some_iff)

lemma find_append: "find P (xs @ ys) = (case find P xs of None \<Rightarrow> find P ys | Some x \<Rightarrow> Some x)"
  by (induction xs) auto

lemma find_key_unique:
  "unique_key k rows \<Longrightarrow> r \<in> set rows \<Longrightarrow> Q r \<Longrightarrow>
     find (\<lambda>x. k x = k r \<and> Q x) rows = Some r"
proof (induction rows)
  case (Cons a rows)
  show ?case
  proof (cases "a = r")
    case False
    then have "r \<in> set rows" using Cons.prems by auto
    moreover then have "k a \<noteq> k r" using Cons.prems by (auto simp: unique_key_def)
    ultimately show ?thesis using Cons by (auto simp: unique_key_def)
  qed (use Cons.prems in auto)
qed simp

lemma find_update_where:
  assumes "\<And>r. P r \<Longrightarrow> Q (g r) = Q r"
  shows "find Q (update_where P g rows) = map_option (\<lambda>r. if P r then g r else r) (find Q rows)"
  using assms by (induction rows) (auto simp: update_where_def)

lemma set_update_by_key:
  "unique_key k rows \<Longrightarrow> r \<in> set rows \<Longrightarrow>
     set (update_where (\<lambda>x. k x = k r) g rows) = insert (g r) (set rows - {r})"
proof (intro set_eqI iffI)
  fix x
  assume u: "unique_key k rows" "r \<in> set rows"
  show "x \<in> insert (g r) (set rows - {r})" if "x \<in> set (update_where (\<lambda>x. k x = k r) g rows)"
    using that u unique_keyD [OF u(1)] by (force simp: update_where_def)
  show "x \<in> set (update_where (\<lambda>x. k x = k r) g rows)" if "x \<in> insert (g r) (set rows - {r})"
    using that u unique_keyD [OF u(1) _ u(2)] by (fastforce simp: update_where_def image_iff)
qed

lemma update_where_twice:
  "(\<And>r. P r \<Longrightarrow> P (h r)) \<Longrightarrow> update_where P g (update_where P h rows) = update_where P (g \<circ> h) rows"
  by (auto simp: update_where_def)

lemma update_where_cong:
  "(\<And>r. r \<in> set rows \<Longrightarrow> P r \<Longrightarrow> g r = h r) \<Longrightarrow> update_where P g rows = update_where P h rows"
  by (auto simp: update_where_def)

text \<open>\<open>ORDER BY\<close> as a stable insertion sort by a comparison.\<close>

fun insert_by :: "('r \<Rightarrow> 'r \<Rightarrow> bool) \<Rightarrow> 'r \<Rightarrow> 'r list \<Rightarrow> 'r list" where
  "insert_by le x [] = [x]"
| "insert_by le x (y # ys) = (if le x y then x # y # ys else y # insert_by le x ys)"

definition order_by :: "('r \<Rightarrow> 'r \<Rightarrow> bool) \<Rightarrow> 'r list \<Rightarrow> 'r list" where
  "order_by le rows = foldr (insert_by le) rows []"

lemma set_insert_by [simp]: "set (insert_by le x ys) = insert x (set ys)"
  by (induction ys) auto

lemma set_order_by [simp]: "set (order_by le rows) = set rows"
  by (induction rows) (simp_all add: order_by_def)

lemma length_insert_by [simp]: "length (insert_by le x ys) = Suc (length ys)"
  by (induction ys) auto

lemma length_order_by [simp]: "length (order_by le rows) = length rows"
  by (induction rows) (simp_all add: order_by_def)

lemma distinct_order_by: "distinct rows \<Longrightarrow> distinct (order_by le rows)"
  by (metis card_distinct distinct_card length_order_by set_order_by)

section \<open>Decimal numbers\<close>

text \<open>\<open>strconv.FormatInt(n, 10)\<close>.\<close>

fun decimal :: "nat \<Rightarrow> string" where
  "decimal n = (if n < 10 then [char_of (48 + n)] else decimal (n div 10) @ [char_of (48 + n mod 10)])"

declare decimal.simps [simp del]

definition FormatInt :: "int \<Rightarrow> string" where
  "FormatInt n = (if n < 0 then CHR ''-'' # decimal (nat (- n)) else decimal (nat n))"

text \<open>The instant of the Unix epoch, and \<open>Time.UnixNano\<close>, which wraps outside the range of an \<open>int64\<close>.\<close>

definition unix_epoch :: time where "unix_epoch = 62135596800 * Second"

definition UnixNano :: "time \<Rightarrow> int" where "UnixNano t = wrap64 (t - unix_epoch)"

section \<open>Chains of checks\<close>

text \<open>\<open>if err := a; err != nil { return err }; return b\<close>\<close>

definition and_then :: "'e option \<Rightarrow> 'e option \<Rightarrow> 'e option" where
  "and_then a b = (case a of Some e \<Rightarrow> Some e | None \<Rightarrow> b)"

lemma and_then_None [simp]: "and_then a b = None \<longleftrightarrow> a = None \<and> b = None"
  by (cases a) (simp_all add: and_then_def)

end
