(* ===== verification/Pg_Tx.thy ===== *)
theory Pg_Tx
  imports Go_Prelude
begin

text \<open>
  The database boundary of \<open>backend/internal/pgstore\<close>: statements and transactions on the tables
  of the PostgreSQL store. A statement may fail for reasons outside the program (a lost
  connection, a constraint). The schedule \<open>faults\<close> says which of the coming calls fail, so that a
  lemma proved for every schedule holds wherever the failures fall. A transaction that does not
  reach its commit leaves the tables as they were (\<open>defer tx.Rollback(ctx)\<close>).
\<close>

section \<open>Failures and statements\<close>

text \<open>
  \<open>DBFault\<close> is an error of the driver, \<open>Conflict\<close> the idempotency conflict with its operation and
  key, \<open>Invalid\<close> an error made by \<open>fmt.Errorf\<close> or \<open>errors.New\<close>, and \<open>App\<close> a sentinel error of
  the component.
\<close>

datatype 'e failure = DBFault | Conflict string string | Invalid string | App 'e

record 's db =
  tables :: 's
  faults :: "bool list"

type_synonym ('s, 'e, 'a) tx = "'s db \<Rightarrow> ('e failure + 'a) \<times> 's db"

definition tx_return :: "'a \<Rightarrow> ('s, 'e, 'a) tx" where
  "tx_return x = (\<lambda>d. (Inr x, d))"

definition tx_fail :: "'e failure \<Rightarrow> ('s, 'e, 'a) tx" where
  "tx_fail e = (\<lambda>d. (Inl e, d))"

definition tx_bind :: "('s, 'e, 'a) tx \<Rightarrow> ('a \<Rightarrow> ('s, 'e, 'b) tx) \<Rightarrow> ('s, 'e, 'b) tx" where
  "tx_bind m f = (\<lambda>d. case m d of (Inl e, d') \<Rightarrow> (Inl e, d') | (Inr x, d') \<Rightarrow> f x d')"

text \<open>One statement: the next fault, a violated constraint (\<open>None\<close>), or a result and new tables.\<close>

definition up :: "'s db \<Rightarrow> bool" where
  "up d \<longleftrightarrow> (case faults d of [] \<Rightarrow> True | b # _ \<Rightarrow> \<not> b)"

definition next_call :: "'s db \<Rightarrow> 's db" where
  "next_call d = d\<lparr>faults := tl (faults d)\<rparr>"

definition stmt :: "('s \<Rightarrow> ('a \<times> 's) option) \<Rightarrow> ('s, 'e, 'a) tx" where
  "stmt f d =
     (if \<not> up d then (Inl DBFault, next_call d)
      else case f (tables d) of
             None \<Rightarrow> (Inl DBFault, next_call d)
           | Some (x, t) \<Rightarrow> (Inr x, (next_call d)\<lparr>tables := t\<rparr>))"

definition query :: "('s \<Rightarrow> 'a) \<Rightarrow> ('s, 'e, 'a) tx" where
  "query q = stmt (\<lambda>t. Some (q t, t))"

definition exec :: "('s \<Rightarrow> 's) \<Rightarrow> ('s, 'e, unit) tx" where
  "exec u = stmt (\<lambda>t. Some ((), u t))"

text \<open>
  \<open>BeginTx\<close>, the body, and the end of the transaction: the body either commits its value or
  returns it early, and then the deferred rollback undoes its writes, as it does after an error.
  Begin and commit are calls of the driver that may fail.
\<close>

datatype 'a finish = Commit 'a | Return 'a

definition rollback_to :: "'s db \<Rightarrow> 's db \<Rightarrow> 's db" where
  "rollback_to d d' = d'\<lparr>tables := tables d\<rparr>"

definition in_tx :: "('s, 'e, 'a finish) tx \<Rightarrow> ('s, 'e, 'a) tx" where
  "in_tx m d =
     (case tx_bind (query (\<lambda>_. ())) (\<lambda>_. m) d of
        (Inl e, d') \<Rightarrow> (Inl e, rollback_to d d')
      | (Inr (Return x), d') \<Rightarrow> (Inr x, rollback_to d d')
      | (Inr (Commit x), d') \<Rightarrow>
          (case query (\<lambda>_. ()) d' of
             (Inl e, d'') \<Rightarrow> (Inl e, rollback_to d d'')
           | (Inr _, d'') \<Rightarrow> (Inr x, d'')))"

section \<open>Stepping through a transaction\<close>

lemma tables_next_call [simp]: "tables (next_call d) = tables d"
  by (simp add: next_call_def)

lemma tables_rollback_to [simp]: "tables (rollback_to d d') = tables d"
  by (simp add: rollback_to_def)

lemma tx_bind_Inr:
  "tx_bind m f d = (Inr y, d') \<longleftrightarrow> (\<exists>x d1. m d = (Inr x, d1) \<and> f x d1 = (Inr y, d'))"
  by (auto simp: tx_bind_def split: prod.splits sum.splits)

lemma tx_return_Inr: "tx_return x d = (Inr y, d') \<longleftrightarrow> y = x \<and> d' = d"
  by (auto simp: tx_return_def)

lemma tx_fail_Inr: "tx_fail e d = (Inr y, d') \<longleftrightarrow> False"
  by (simp add: tx_fail_def)

lemma stmt_Inr:
  "stmt f d = (Inr x, d') \<longleftrightarrow>
     up d \<and> (\<exists>t. f (tables d) = Some (x, t) \<and> d' = (next_call d)\<lparr>tables := t\<rparr>)"
  by (auto simp: stmt_def split: option.splits)

lemma next_call_tables_id [simp]: "(next_call d)\<lparr>tables := tables d\<rparr> = next_call d"
  by (simp add: next_call_def)

lemma query_Inr: "query q d = (Inr x, d') \<longleftrightarrow> up d \<and> x = q (tables d) \<and> d' = next_call d"
  by (auto simp: query_def stmt_Inr)

lemma exec_Inr:
  "exec u d = (Inr x, d') \<longleftrightarrow> up d \<and> d' = (next_call d)\<lparr>tables := u (tables d)\<rparr>"
  by (auto simp: exec_def stmt_Inr)

lemmas tx_Inr = tx_bind_Inr tx_return_Inr tx_fail_Inr stmt_Inr query_Inr exec_Inr

lemma in_tx_Inr:
  assumes "in_tx m d = (Inr x, d')"
  obtains (commit) d2 where "m (next_call d) = (Inr (Commit x), d2)" "tables d' = tables d2"
    | (early) d2 where "m (next_call d) = (Inr (Return x), d2)" "tables d' = tables d"
proof -
  from assms have "(\<exists>d2. m (next_call d) = (Inr (Commit x), d2) \<and> tables d' = tables d2)
    \<or> (\<exists>d2. m (next_call d) = (Inr (Return x), d2) \<and> tables d' = tables d)"
    by (auto simp: in_tx_def tx_bind_def query_def stmt_def
             split: prod.splits sum.splits finish.splits if_splits)
  then show thesis using commit early by blast
qed

lemma in_tx_Inl: "in_tx m d = (Inl e, d') \<Longrightarrow> tables d' = tables d"
  by (auto simp: in_tx_def split: prod.splits sum.splits finish.splits)

section \<open>Runs without faults\<close>

text \<open>Evaluation of a transaction when no call fails; the witnesses run the model this way.\<close>

lemma up_ok [simp]: "faults d = [] \<Longrightarrow> up d"
  by (simp add: up_def)

lemma next_call_ok [simp]: "faults d = [] \<Longrightarrow> next_call d = d"
  by (simp add: next_call_def)

lemma stmt_ok [simp]:
  "faults d = [] \<Longrightarrow> stmt f d =
     (case f (tables d) of None \<Rightarrow> (Inl DBFault, d) | Some (x, t) \<Rightarrow> (Inr x, d\<lparr>tables := t\<rparr>))"
  by (simp add: stmt_def split: option.splits)

lemma query_ok [simp]: "faults d = [] \<Longrightarrow> query q d = (Inr (q (tables d)), d)"
  by (simp add: query_def)

lemma exec_ok [simp]: "faults d = [] \<Longrightarrow> exec u d = (Inr (), d\<lparr>tables := u (tables d)\<rparr>)"
  by (simp add: exec_def)

lemma tx_bind_eval [simp]:
  "m d = (Inl e, d') \<Longrightarrow> tx_bind m f d = (Inl e, d')"
  "m d = (Inr x, d') \<Longrightarrow> tx_bind m f d = f x d'"
  by (simp_all add: tx_bind_def)

lemma tx_return_eval [simp]: "tx_return x d = (Inr x, d)"
  by (simp add: tx_return_def)

lemma tx_fail_eval [simp]: "tx_fail e d = (Inl e, d)"
  by (simp add: tx_fail_def)

lemma in_tx_ok:
  assumes "faults d = []"
  shows "m d = (Inr (Commit x), d') \<Longrightarrow> faults d' = [] \<Longrightarrow> in_tx m d = (Inr x, d')"
    and "m d = (Inr (Return x), d') \<Longrightarrow> in_tx m d = (Inr x, rollback_to d d')"
    and "m d = (Inl e, d') \<Longrightarrow> in_tx m d = (Inl e, rollback_to d d')"
  using assms by (simp_all add: in_tx_def)

section \<open>Invariants of the tables\<close>

text \<open>
  A property of the tables that the body of every transaction keeps is kept by every
  transaction, whatever fails: the contract between the store and the components.
\<close>

definition keeps :: "('s \<Rightarrow> bool) \<Rightarrow> ('s, 'e, 'a) tx \<Rightarrow> bool" where
  "keeps I m \<longleftrightarrow> (\<forall>d x d'. m d = (Inr x, d') \<longrightarrow> I (tables d) \<longrightarrow> I (tables d'))"

lemma keepsI: "(\<And>d x d'. m d = (Inr x, d') \<Longrightarrow> I (tables d) \<Longrightarrow> I (tables d')) \<Longrightarrow> keeps I m"
  by (auto simp: keeps_def)

lemma keepsD: "keeps I m \<Longrightarrow> m d = (Inr x, d') \<Longrightarrow> I (tables d) \<Longrightarrow> I (tables d')"
  by (auto simp: keeps_def)

lemma keeps_return [intro]: "keeps I (tx_return x)"
  by (auto simp: keeps_def tx_Inr)

lemma keeps_fail [intro]: "keeps I (tx_fail e)"
  by (auto simp: keeps_def tx_Inr)

lemma keeps_query [intro]: "keeps I (query q)"
  by (auto simp: keeps_def tx_Inr)

lemma keeps_exec [intro]: "(\<And>t. I t \<Longrightarrow> I (u t)) \<Longrightarrow> keeps I (exec u)"
  by (auto simp: keeps_def tx_Inr)

lemma keeps_stmt [intro]: "(\<And>t x t'. I t \<Longrightarrow> f t = Some (x, t') \<Longrightarrow> I t') \<Longrightarrow> keeps I (stmt f)"
  by (auto simp: keeps_def tx_Inr)

lemma keeps_bind [intro]: "keeps I m \<Longrightarrow> (\<And>x. keeps I (f x)) \<Longrightarrow> keeps I (tx_bind m f)"
  unfolding keeps_def tx_bind_Inr by blast

lemma keeps_in_tx [intro]: "keeps I m \<Longrightarrow> keeps I (in_tx m)"
  unfolding keeps_def by (metis in_tx_Inr tables_next_call)

lemma keeps_option [intro]:
  "keeps I m \<Longrightarrow> (\<And>x. keeps I (f x)) \<Longrightarrow> keeps I (case_option m f v)"
  by (cases v) auto

section \<open>Effects of whole operations\<close>

text \<open>
  An operation run to its end, with success or with an error, relates the tables before and
  after. Outside a transaction a statement takes effect at once, so an operation may change the
  tables and still fail.
\<close>

definition changes :: "('s \<Rightarrow> bool) \<Rightarrow> ('s \<Rightarrow> 's \<Rightarrow> bool) \<Rightarrow> ('s, 'e, 'a) tx \<Rightarrow> bool" where
  "changes I R m \<longleftrightarrow> (\<forall>d res d'. m d = (res, d') \<longrightarrow> I (tables d) \<longrightarrow> R (tables d) (tables d'))"

definition readonly :: "('s, 'e, 'a) tx \<Rightarrow> bool" where
  "readonly m \<longleftrightarrow> (\<forall>d. tables (snd (m d)) = tables d)"

lemma changesI:
  "(\<And>d res d'. m d = (res, d') \<Longrightarrow> I (tables d) \<Longrightarrow> R (tables d) (tables d')) \<Longrightarrow> changes I R m"
  by (auto simp: changes_def)

lemma changesD: "changes I R m \<Longrightarrow> m d = (res, d') \<Longrightarrow> I (tables d) \<Longrightarrow> R (tables d) (tables d')"
  by (auto simp: changes_def)

lemma readonlyD: "readonly m \<Longrightarrow> m d = (res, d') \<Longrightarrow> tables d' = tables d"
  by (metis readonly_def snd_conv)

lemma readonly_return [intro]: "readonly (tx_return x)"
  by (simp add: readonly_def)

lemma readonly_fail [intro]: "readonly (tx_fail e)"
  by (simp add: readonly_def)

lemma readonly_query [intro]: "readonly (query q)"
  by (auto simp: readonly_def query_def stmt_def)

lemma readonly_bind [intro]: "readonly m \<Longrightarrow> (\<And>x. readonly (f x)) \<Longrightarrow> readonly (tx_bind m f)"
  unfolding readonly_def tx_bind_def by (auto split: prod.splits sum.splits) (metis snd_conv)+

lemma readonly_option [intro]:
  "readonly m \<Longrightarrow> (\<And>x. readonly (f x)) \<Longrightarrow> readonly (case_option m f v)"
  by (cases v) auto

lemma changes_readonly:
  "readonly m \<Longrightarrow> (\<And>t. I t \<Longrightarrow> R t t) \<Longrightarrow> changes I R m"
  by (rule changesI) (auto dest: readonlyD)

lemma readonly_if: "readonly m \<Longrightarrow> readonly m' \<Longrightarrow> readonly (if b then m else m')"
  by simp

lemma changes_if: "changes I R m \<Longrightarrow> changes I R m' \<Longrightarrow> changes I R (if b then m else m')"
  by simp

lemma changes_fail: "(\<And>t. I t \<Longrightarrow> R t t) \<Longrightarrow> changes I R (tx_fail e)"
  by (rule changes_readonly) auto

lemma changes_stmt:
  "(\<And>t. I t \<Longrightarrow> R t t) \<Longrightarrow> (\<And>t x t'. I t \<Longrightarrow> f t = Some (x, t') \<Longrightarrow> R t t') \<Longrightarrow> changes I R (stmt f)"
  by (rule changesI) (auto simp: stmt_def split: if_splits option.splits)

lemma changes_bind_first:
  "changes I R m \<Longrightarrow> (\<And>x. readonly (f x)) \<Longrightarrow> changes I R (tx_bind m f)"
  by (rule changesI) (auto simp: tx_bind_def split: prod.splits sum.splits dest: changesD,
      metis changesD readonlyD)

lemma changes_bind_last:
  assumes "readonly m" "\<And>t. I t \<Longrightarrow> R t t" "\<And>x. changes I R (f x)"
  shows "changes I R (tx_bind m f)"
proof (rule changesI)
  fix d res d'
  assume run: "tx_bind m f d = (res, d')" and I: "I (tables d)"
  obtain r d1 where m: "m d = (r, d1)" by force
  then have "tables d1 = tables d" using readonlyD [OF assms(1)] by blast
  with run m I assms(2,3) show "R (tables d) (tables d')"
    by (cases r) (auto simp: tx_bind_def, metis changesD)
qed

lemma changes_in_tx:
  assumes "\<And>t. I t \<Longrightarrow> R t t"
    and "\<And>d x d'. m d = (Inr (Commit x), d') \<Longrightarrow> I (tables d) \<Longrightarrow> R (tables d) (tables d')"
  shows "changes I R (in_tx m)"
proof (rule changesI)
  fix d res d'
  assume run: "in_tx m d = (res, d')" and I: "I (tables d)"
  show "R (tables d) (tables d')"
  proof (cases res)
    case (Inl e)
    then show ?thesis using run I assms(1) in_tx_Inl by fastforce
  next
    case (Inr x)
    with run have "in_tx m d = (Inr x, d')" by simp
    then show ?thesis
      by (cases rule: in_tx_Inr) (use I assms in \<open>auto, metis tables_next_call\<close>)
  qed
qed

section \<open>Invariants of whole operations\<close>

text \<open>An error that the program looks at and passes over.\<close>

definition tx_try :: "('s, 'e, 'a) tx \<Rightarrow> ('s, 'e, 'a option) tx" where
  "tx_try m d = (case m d of (Inl _, d') \<Rightarrow> (Inr None, d') | (Inr x, d') \<Rightarrow> (Inr (Some x), d'))"

text \<open>An invariant that an operation keeps whether it succeeds or fails.\<close>

definition preserves :: "('s \<Rightarrow> bool) \<Rightarrow> ('s, 'e, 'a) tx \<Rightarrow> bool" where
  "preserves I m \<longleftrightarrow> (\<forall>d. I (tables d) \<longrightarrow> I (tables (snd (m d))))"

lemma preservesD: "preserves I m \<Longrightarrow> m d = (res, d') \<Longrightarrow> I (tables d) \<Longrightarrow> I (tables d')"
  by (metis preserves_def snd_conv)

lemma preserves_readonly: "readonly m \<Longrightarrow> preserves I m"
  by (simp add: preserves_def readonly_def)

lemma preserves_return [intro]: "preserves I (tx_return x)"
  by (simp add: preserves_def)

lemma preserves_fail [intro]: "preserves I (tx_fail e)"
  by (simp add: preserves_def)

lemma preserves_query [intro]: "preserves I (query q)"
  by (rule preserves_readonly) auto

lemma preserves_stmt [intro]:
  "(\<And>t x t'. I t \<Longrightarrow> f t = Some (x, t') \<Longrightarrow> I t') \<Longrightarrow> preserves I (stmt f)"
  by (auto simp: preserves_def stmt_def split: option.splits)

lemma preserves_exec [intro]: "(\<And>t. I t \<Longrightarrow> I (u t)) \<Longrightarrow> preserves I (exec u)"
  unfolding exec_def by (rule preserves_stmt) auto

lemma preserves_bind [intro]: "preserves I m \<Longrightarrow> (\<And>x. preserves I (f x)) \<Longrightarrow> preserves I (tx_bind m f)"
  unfolding preserves_def tx_bind_def by (auto split: prod.splits sum.splits)

lemma preserves_if [intro]: "preserves I m \<Longrightarrow> preserves I m' \<Longrightarrow> preserves I (if b then m else m')"
  by simp

lemma preserves_option [intro]: "preserves I m \<Longrightarrow> (\<And>x. preserves I (f x)) \<Longrightarrow> preserves I (case_option m f v)"
  by (cases v) auto

lemma preserves_sum [intro]: "(\<And>x. preserves I (f x)) \<Longrightarrow> (\<And>x. preserves I (g x)) \<Longrightarrow> preserves I (case_sum f g v)"
  by (cases v) auto

lemma preserves_try [intro]: "preserves I m \<Longrightarrow> preserves I (tx_try m)"
  unfolding preserves_def tx_try_def by (auto split: prod.splits sum.splits)

text \<open>Within a transaction it is enough that the runs which commit keep the invariant.\<close>

lemma preserves_in_tx [intro]:
  assumes "\<And>d x d'. m d = (Inr (Commit x), d') \<Longrightarrow> I (tables d) \<Longrightarrow> I (tables d')"
  shows "preserves I (in_tx m)"
  unfolding preserves_def
proof (intro allI impI)
  fix d :: "'a db"
  assume I: "I (tables d)"
  obtain res d' where run: "in_tx m d = (res, d')" by force
  have "I (tables d')" by (rule changesD [OF changes_in_tx [where I = I and R = "\<lambda>_ t'. I t'"] run I]) (use assms in auto)
  then show "I (tables (snd (in_tx m d)))" using run by simp
qed

end
