(* ===== verification/Idempotency.thy ===== *)
theory Idempotency
  imports Pg_Tx
begin

text \<open>
  Durable idempotency: \<open>internal/idempotency/idempotency.go\<close> (the identity of a retriable mutation
  and its validation) and \<open>internal/pgstore/idempotency.go\<close> (\<open>RunIdempotent\<close>, which runs a mutation
  and records its outcome in one transaction). The lemmas show atomicity under every fault
  schedule, the replay of a committed outcome, the rejection of a key reused with a different
  request, and that records are never changed once written.
\<close>

section \<open>Requests\<close>

record Request =
  Actor :: string
  Operation :: string
  Key :: string
  RequestHash :: string

definition sha256_hex_len :: nat where "sha256_hex_len = 64"

definition Request_Validate :: "Request \<Rightarrow> string option" where
  "Request_Validate r =
     (if TrimSpace (Actor r) = [] then Some ''idempotency actor is required''
      else if TrimSpace (Operation r) = [] then Some ''idempotency operation is required''
      else if TrimSpace (Key r) = [] then Some ''idempotency key is required''
      else if length (RequestHash r) \<noteq> sha256_hex_len
        then Some ''idempotency request hash must be sha256 hex''
      else if \<not> hex_decodes (RequestHash r)
        then Some ''idempotency request hash must be sha256 hex''
      else None)"

text \<open>The check of the recorded mutations of \<open>pgstore/domain_mutations.go\<close>.\<close>

definition requireMutationOperation :: "Request \<Rightarrow> string \<Rightarrow> string option" where
  "requireMutationOperation request operation =
     (if TrimSpace (Operation request) \<noteq> operation then Some ''idempotency operation mismatch''
      else Request_Validate request)"

definition EqualHash :: "string \<Rightarrow> string \<Rightarrow> bool" where
  "EqualHash a b =
     (let a = ToLower a; b = ToLower b
      in if length a \<noteq> length b then False else a = b)"

lemma EqualHash_iff: "EqualHash a b \<longleftrightarrow> ToLower a = ToLower b"
  by (auto simp: EqualHash_def Let_def dest: arg_cong [where f = length])

lemma EqualHash_refl [simp]: "EqualHash a a"
  by (simp add: EqualHash_iff)

lemma EqualHash_ToLower [simp]: "EqualHash (ToLower a) b \<longleftrightarrow> EqualHash a b"
  by (simp add: EqualHash_iff)

text \<open>The identity the ledger is keyed by: \<open>RunIdempotent\<close> trims each part first.\<close>

definition request_trim :: "Request \<Rightarrow> Request" where
  "request_trim r = r\<lparr>Actor := TrimSpace (Actor r), Operation := TrimSpace (Operation r),
     Key := TrimSpace (Key r)\<rparr>"

type_synonym identity = "string \<times> string \<times> string"

definition request_id :: "Request \<Rightarrow> identity" where
  "request_id r = (Actor (request_trim r), Operation (request_trim r), Key (request_trim r))"

section \<open>The ledger\<close>

record 'o idem_record =
  rec_id :: identity
  rec_hash :: string
  rec_outcome :: 'o
  rec_created_at :: time

record 'o idem_tables =
  idempotency_records :: "'o idem_record list"
  legacy_idempotency_reservations :: "(string \<times> string) list"

record 'o IdempotentOutcome =
  outcome :: 'o
  Replayed :: bool

definition find_record :: "identity \<Rightarrow> ('o, 'z) idem_tables_scheme \<Rightarrow> 'o idem_record option" where
  "find_record i t = find (\<lambda>r. rec_id r = i) (idempotency_records t)"

text \<open>The insertion fails when the primary key is taken.\<close>

definition insert_record ::
    "'o idem_record \<Rightarrow> ('o, 'z) idem_tables_scheme \<Rightarrow> (unit \<times> ('o, 'z) idem_tables_scheme) option" where
  "insert_record rec t =
     (if rec_id rec \<in> rec_id ` set (idempotency_records t) then None
      else Some ((), t\<lparr>idempotency_records := idempotency_records t @ [rec]\<rparr>))"

text \<open>
  \<open>RunIdempotent\<close>. The argument \<open>enc\<close> is what the JSON encoding keeps of the value of the
  mutation (fields tagged \<open>json:"-"\<close> are lost), \<open>created\<close> the time of the record. The advisory
  lock is a call that may fail; holding it makes the transaction of one identity atomic with
  respect to the others of that identity. The replay and conflict branches return before the
  commit.
\<close>

definition idem_body ::
    "Request \<Rightarrow> ('v \<Rightarrow> 'o) \<Rightarrow> time \<Rightarrow> (('o, 'z) idem_tables_scheme, 'e, 'v) tx
      \<Rightarrow> (('o, 'z) idem_tables_scheme, 'e, 'o IdempotentOutcome finish) tx" where
  "idem_body r enc created mutate =
     tx_bind (query (\<lambda>_. ())) (\<lambda>_. \<comment> \<open>the advisory lock of the identity\<close>
     tx_bind (query (find_record (request_id r))) (\<lambda>found.
       case found of
         Some rec \<Rightarrow>
           if \<not> EqualHash (rec_hash rec) (RequestHash r)
           then tx_fail (Conflict (Operation r) (Key r))
           else tx_return (Return \<lparr>outcome = rec_outcome rec, Replayed = True\<rparr>)
       | None \<Rightarrow>
         tx_bind (query (\<lambda>t. (Operation r, Key r) \<in> set (legacy_idempotency_reservations t)))
         (\<lambda>reserved.
         if reserved then tx_fail (Conflict (Operation r) (Key r))
         else
         tx_bind mutate (\<lambda>value.
         tx_bind (stmt (insert_record \<lparr>rec_id = request_id r, rec_hash = ToLower (RequestHash r),
                                        rec_outcome = enc value, rec_created_at = pg_ts created\<rparr>)) (\<lambda>_.
         tx_return (Commit \<lparr>outcome = enc value, Replayed = False\<rparr>))))))"

definition RunIdempotent ::
    "Request \<Rightarrow> ('v \<Rightarrow> 'o) \<Rightarrow> time \<Rightarrow> (('o, 'z) idem_tables_scheme, 'e, 'v) tx
      \<Rightarrow> (('o, 'z) idem_tables_scheme, 'e, 'o IdempotentOutcome) tx" where
  "RunIdempotent request enc created mutate =
     (let r = request_trim request
      in case Request_Validate r of
           Some msg \<Rightarrow> tx_fail (Invalid msg)
         | None \<Rightarrow> in_tx (idem_body r enc created mutate))"

section \<open>Outcomes of a run\<close>

lemma request_trim_idem [simp]: "request_trim (request_trim r) = request_trim r"
  by (simp add: request_trim_def)

lemma request_id_trim [simp]: "request_id (request_trim r) = request_id r"
  by (simp add: request_id_def)

lemma request_trim_RequestHash [simp]: "RequestHash (request_trim r) = RequestHash r"
  by (simp add: request_trim_def)

lemma RunIdempotent_Inl_tables:
  "RunIdempotent r enc c m d = (Inl e, d') \<Longrightarrow> tables d' = tables d"
  by (auto simp: RunIdempotent_def Let_def tx_fail_def split: option.splits dest: in_tx_Inl)

lemma idem_body_Commit:
  "idem_body r enc c m d = (Inr (Commit out), d') \<Longrightarrow>
     \<exists>v d1 d2. find_record (request_id r) (tables d) = None \<and> tables d1 = tables d
       \<and> m d1 = (Inr v, d2)
       \<and> insert_record \<lparr>rec_id = request_id r, rec_hash = ToLower (RequestHash r),
            rec_outcome = enc v, rec_created_at = pg_ts c\<rparr> (tables d2) = Some ((), tables d')
       \<and> out = \<lparr>outcome = enc v, Replayed = False\<rparr>"
  by (auto simp: idem_body_def tx_Inr split: option.splits if_splits) (metis tables_next_call)

lemma RunIdempotent_Inr:
  assumes "RunIdempotent r enc c m d = (Inr out, d')"
  obtains (replay) rec where
      "find_record (request_id r) (tables d) = Some rec" "EqualHash (rec_hash rec) (RequestHash r)"
      "out = \<lparr>outcome = rec_outcome rec, Replayed = True\<rparr>" "tables d' = tables d"
    | (fresh) v d1 d2 where
      "find_record (request_id r) (tables d) = None" "tables d1 = tables d" "m d1 = (Inr v, d2)"
      "insert_record \<lparr>rec_id = request_id r, rec_hash = ToLower (RequestHash r),
          rec_outcome = enc v, rec_created_at = pg_ts c\<rparr> (tables d2) = Some ((), tables d')"
      "out = \<lparr>outcome = enc v, Replayed = False\<rparr>"
proof -
  let ?b = "idem_body (request_trim r) enc c m"
  from assms have "in_tx ?b d = (Inr out, d')"
    by (auto simp: RunIdempotent_def Let_def tx_fail_def split: option.splits)
  then show thesis
  proof (cases rule: in_tx_Inr)
    case (commit d2)
    from idem_body_Commit [OF commit(1)] obtain v d0 d1
      where "find_record (request_id r) (tables d) = None" "tables d0 = tables d"
        "m d0 = (Inr v, d1)"
        "insert_record \<lparr>rec_id = request_id r, rec_hash = ToLower (RequestHash r),
          rec_outcome = enc v, rec_created_at = pg_ts c\<rparr> (tables d1) = Some ((), tables d2)"
        "out = \<lparr>outcome = enc v, Replayed = False\<rparr>"
      by auto
    then show thesis using fresh commit(2) by simp
  next
    case (early d2)
    from early(1) show thesis
      by (auto simp: idem_body_def tx_Inr early(2) split: option.splits if_splits
               intro: replay)
  qed
qed

lemma RunIdempotent_conflict:
  assumes "find_record (request_id r) (tables d) = Some rec"
    and "\<not> EqualHash (rec_hash rec) (RequestHash r)"
  shows "\<exists>e d'. RunIdempotent r enc c m d = (Inl e, d') \<and> tables d' = tables d"
proof (cases "RunIdempotent r enc c m d")
  case (Pair res d')
  show ?thesis
  proof (cases res)
    case (Inl e)
    then show ?thesis using Pair RunIdempotent_Inl_tables by fastforce
  next
    case (Inr out)
    with Pair have "RunIdempotent r enc c m d = (Inr out, d')" by simp
    then have False using assms by (cases rule: RunIdempotent_Inr) auto
    then show ?thesis ..
  qed
qed

lemma RunIdempotent_keeps:
  assumes "keeps I m"
    and "\<And>t rec t'. I t \<Longrightarrow> insert_record rec t = Some ((), t') \<Longrightarrow> I t'"
  shows "keeps I (RunIdempotent r enc c m)"
proof (rule keepsI)
  fix d out d'
  assume run: "RunIdempotent r enc c m d = (Inr out, d')" and I: "I (tables d)"
  from run show "I (tables d')"
  proof (cases rule: RunIdempotent_Inr)
    case replay
    with I show ?thesis by simp
  next
    case (fresh v d1 d2)
    with I assms show ?thesis by (metis keepsD)
  qed
qed

lemma RunIdempotent_changes:
  assumes refl: "\<And>t. I t \<Longrightarrow> R t t"
    and m: "\<And>d v d' rec t'. m d = (Inr v, d') \<Longrightarrow> I (tables d) \<Longrightarrow>
      insert_record rec (tables d') = Some ((), t') \<Longrightarrow> R (tables d) t'"
  shows "changes I R (RunIdempotent r enc c m)"
proof (rule changesI)
  fix d res d'
  assume run: "RunIdempotent r enc c m d = (res, d')" and I: "I (tables d)"
  show "R (tables d) (tables d')"
  proof (cases res)
    case (Inl e)
    then show ?thesis using run I refl RunIdempotent_Inl_tables by fastforce
  next
    case (Inr out)
    with run have "RunIdempotent r enc c m d = (Inr out, d')" by simp
    then show ?thesis
    proof (cases rule: RunIdempotent_Inr)
      case replay
      with I refl show ?thesis by simp
    next
      case (fresh v d1 d2)
      with I m [OF fresh(3)] show ?thesis by simp
    qed
  qed
qed

text \<open>Without faults a first attempt succeeds when its mutation does.\<close>

lemma RunIdempotent_fresh_ok:
  assumes "faults d = []" "Request_Validate (request_trim r) = None"
    and "find_record (request_id r) (tables d) = None"
    and "(Operation (request_trim r), Key (request_trim r)) \<notin> set (legacy_idempotency_reservations (tables d))"
    and "m d = (Inr v, d2)" "faults d2 = []"
    and "insert_record \<lparr>rec_id = request_id r, rec_hash = ToLower (RequestHash r),
          rec_outcome = enc v, rec_created_at = pg_ts c\<rparr> (tables d2) = Some ((), t')"
  shows "RunIdempotent r enc c m d = (Inr \<lparr>outcome = enc v, Replayed = False\<rparr>, d2\<lparr>tables := t'\<rparr>)"
  using assms by (simp add: RunIdempotent_def Let_def idem_body_def in_tx_ok)

lemma RunIdempotent_replay_ok:
  assumes "faults d = []" "Request_Validate (request_trim r) = None"
    and "find_record (request_id r) (tables d) = Some rec" "EqualHash (rec_hash rec) (RequestHash r)"
  shows "RunIdempotent r enc c m d = (Inr \<lparr>outcome = rec_outcome rec, Replayed = True\<rparr>, d)"
  using assms by (simp add: RunIdempotent_def Let_def idem_body_def in_tx_ok rollback_to_def)

section \<open>Replays\<close>

text \<open>The ledger only grows: what is found stays found.\<close>

definition ledger_extends ::
    "('o, 'z) idem_tables_scheme \<Rightarrow> ('o, 'z) idem_tables_scheme \<Rightarrow> bool" where
  "ledger_extends t t' \<longleftrightarrow> (\<exists>recs. idempotency_records t' = idempotency_records t @ recs)"

lemma ledger_extends_refl [simp]: "ledger_extends t t"
  by (simp add: ledger_extends_def)

lemma ledger_extends_trans: "ledger_extends t u \<Longrightarrow> ledger_extends u v \<Longrightarrow> ledger_extends t v"
  by (auto simp: ledger_extends_def)

lemma find_record_extends:
  "ledger_extends t t' \<Longrightarrow> find_record i t = Some rec \<Longrightarrow> find_record i t' = Some rec"
  by (auto simp: ledger_extends_def find_record_def find_append)

lemma find_record_insert:
  "insert_record rec t = Some ((), t') \<Longrightarrow> find_record (rec_id rec) t' = Some rec"
proof -
  assume "insert_record rec t = Some ((), t')"
  then have t': "idempotency_records t' = idempotency_records t @ [rec]"
    and new: "rec_id rec \<notin> rec_id ` set (idempotency_records t)"
    by (auto simp: insert_record_def split: if_splits)
  have "find (\<lambda>x. rec_id x = rec_id rec) (idempotency_records t) = None"
    using new unfolding find_None_iff by (metis image_eqI)
  then show ?thesis by (simp add: find_record_def t' find_append)
qed

text \<open>
  The contract of a mutation that may be run under \<open>RunIdempotent\<close>: it leaves the ledger to the
  runner. The components' mutations are instances of it.
\<close>

locale idempotent_op =
  fixes mutate :: "(('o, 'z) idem_tables_scheme, 'e, 'v) tx"
  assumes ledger_frame:
    "mutate d = (Inr v, d') \<Longrightarrow> idempotency_records (tables d') = idempotency_records (tables d)"
begin

lemma run_extends:
  assumes "RunIdempotent r enc c mutate d = (res, d')"
  shows "ledger_extends (tables d) (tables d')"
proof (cases res)
  case (Inl e)
  then show ?thesis using assms RunIdempotent_Inl_tables by fastforce
next
  case (Inr out)
  with assms have "RunIdempotent r enc c mutate d = (Inr out, d')" by simp
  then show ?thesis
  proof (cases rule: RunIdempotent_Inr)
    case (fresh v d1 d2)
    then have "idempotency_records (tables d2) = idempotency_records (tables d)"
      using ledger_frame by metis
    then have "idempotency_records (tables d') = idempotency_records (tables d) @
        [\<lparr>rec_id = request_id r, rec_hash = ToLower (RequestHash r),
          rec_outcome = enc v, rec_created_at = pg_ts c\<rparr>]"
      using fresh(4) by (auto simp: insert_record_def split: if_splits dest: sym)
    then show ?thesis by (simp add: ledger_extends_def)
  qed simp
qed

lemma run_records:
  assumes "RunIdempotent r enc c mutate d = (Inr out, d')"
  shows "\<exists>rec. find_record (request_id r) (tables d') = Some rec
            \<and> rec_outcome rec = outcome out \<and> EqualHash (rec_hash rec) (RequestHash r)"
  using assms
proof (cases rule: RunIdempotent_Inr)
  case (replay rec)
  then show ?thesis by auto
next
  case (fresh v d1 d2)
  from find_record_insert [OF fresh(4)] fresh(5) show ?thesis by auto
qed

text \<open>
  After a success, any later attempt with the same identity and the same request, on tables in
  which the ledger has only grown, either fails or replays the outcome without touching a table.
\<close>

lemma replay_after_success:
  assumes first: "RunIdempotent r enc c mutate d = (Inr out, d1)"
    and later: "ledger_extends (tables d1) (tables d2)"
    and same: "request_id r' = request_id r" "EqualHash (RequestHash r) (RequestHash r')"
    and again: "RunIdempotent r' enc' c' m' d2 = (Inr out', d3)"
  shows "outcome out' = outcome out \<and> Replayed out' \<and> tables d3 = tables d2"
proof -
  obtain rec where rec: "find_record (request_id r) (tables d2) = Some rec"
      "rec_outcome rec = outcome out"
    using run_records [OF first] find_record_extends [OF later] by blast
  from again show ?thesis
  proof (cases rule: RunIdempotent_Inr)
    case (replay rec')
    with rec same show ?thesis by simp
  next
    case fresh
    with rec same show ?thesis by simp
  qed
qed

text \<open>A key reused with another request is refused and changes nothing.\<close>

lemma conflict_after_success:
  assumes first: "RunIdempotent r enc c mutate d = (Inr out, d1)"
    and later: "ledger_extends (tables d1) (tables d2)"
    and other: "request_id r' = request_id r" "\<not> EqualHash (RequestHash r) (RequestHash r')"
  shows "\<exists>e d3. RunIdempotent r' enc' c' m' d2 = (Inl e, d3) \<and> tables d3 = tables d2"
proof -
  obtain rec where rec: "find_record (request_id r) (tables d2) = Some rec"
      and h: "EqualHash (rec_hash rec) (RequestHash r)"
    using run_records [OF first] find_record_extends [OF later] by blast
  have "\<not> EqualHash (rec_hash rec) (RequestHash r')"
    using h other(2) by (simp add: EqualHash_iff)
  then show ?thesis using rec other(1) by (intro RunIdempotent_conflict) auto
qed

end

end
