(* ===== verification/Store_Tables.thy ===== *)
theory Store_Tables
  imports Idempotency
begin

text \<open>
  The rows of the PostgreSQL store that the pairing, voice-mail and outbox components share: the
  structs of \<open>internal/pairing\<close>, \<open>internal/voicemail\<close> and \<open>internal/events\<close>, the tables they are
  kept in, and the helpers of \<open>internal/pgstore/store.go\<close>. The columns that no query of the
  modelled code reads (creation and update stamps of some tables) are left out.
\<close>

section \<open>Pairing rows\<close>

record Participant =
  UserID :: string
  DeviceID :: string

datatype session_state = SPending | SPaired | SCancelled | SExpired

record Session =
  ss_ID :: string
  Initiator :: Participant
  Peer :: Participant
  ProximityEvidenceID :: string
  InitiatorNonce :: string
  PeerNonce :: string
  InitiatorConfirmedAt :: "time option"
  PeerConfirmedAt :: "time option"
  ss_ExpiresAt :: time
  ss_RelationshipID :: string
  ss_State :: session_state

record ConfirmationOutcome =
  co_Session :: Session
  Completed :: bool
  co_RelationshipID :: string
  co_Replayed :: bool

record Relationship =
  rel_ID :: string
  DeviceAID :: string
  DeviceBID :: string
  UserAID :: string
  UserBID :: string
  rel_CreatedAt :: time
  RevokedAt :: "time option"

record Credential =
  cred_DeviceID :: string
  cred_UserID :: string
  cred_active :: bool

section \<open>Voice-mail rows\<close>

datatype Policy = Disabled | Ephemeral | Retained

datatype ItemState =
  PendingUpload | Unread | Claimed | Consumed | DeletePending | Deleted | Expired | Rejected

record Item =
  it_ID :: string
  it_RelationshipID :: string
  SenderUserID :: string
  SenderDeviceID :: string
  RecipientUserID :: string
  RecipientDeviceID :: string
  ObjectKey :: string
  MediaFormat :: string
  DurationMS :: int
  SizeBytes :: int
  ChecksumSHA256 :: string
  it_Policy :: Policy
  it_State :: ItemState
  PlaybackID :: string
  LeaseExpiresAt :: "time option"
  it_ExpiresAt :: time
  it_CreatedAt :: time
  it_UpdatedAt :: time

section \<open>Outbox rows\<close>

datatype jval = JStr string | JInt int | JTime time

record Event =
  ev_ID :: string
  ev_Source :: string
  ev_Type :: string
  ev_Subject :: string
  ev_UserID :: string
  ev_Data :: "(string \<times> jval) list"
  ev_Time :: time

datatype outbox_status = OPending | ODispatching | OSent

record OutboxRow =
  ob_ID :: nat
  ob_Event :: Event
  ob_Status :: outbox_status
  ob_Attempts :: int
  ob_NextAttempt :: time
  ob_LastError :: string

section \<open>The tables\<close>

text \<open>The outcomes that the mutations of these components record in the idempotency ledger.\<close>

datatype mutation_outcome = OSession Session | OConfirm ConfirmationOutcome | OItem Item

record store = "mutation_outcome idem_tables" +
  device_credentials :: "Credential list"
  pairing_sessions :: "Session list"
  device_relationships :: "Relationship list"
  voice_mail_policies :: "(string \<times> Policy) list"
  voice_mail_items :: "Item list"
  outbox :: "OutboxRow list"
  outbox_next_id :: nat

definition empty_store :: store where
  "empty_store = \<lparr>idempotency_records = [], legacy_idempotency_reservations = [],
     device_credentials = [], pairing_sessions = [], device_relationships = [],
     voice_mail_policies = [], voice_mail_items = [], outbox = [], outbox_next_id = 1\<rparr>"

text \<open>
  What the database server supplies to a transaction: the text order of its collation, fresh
  identifiers (a statement draws two at most), the time of the start of the transaction and the time of the statement; and the
  clock of the program when it writes the record of the mutation.
\<close>

record pg_env =
  pg_less :: "string \<Rightarrow> string \<Rightarrow> bool"
  gen_random_uuid :: string
  gen_random_uuid2 :: string
  tx_now :: time
  clock_timestamp :: time
  go_now :: time

definition owner :: "string \<Rightarrow> string" where
  "owner value = (let v = TrimSpace value in if v = [] then ''default'' else v)"

definition maxListLimit :: int where "maxListLimit = 100"

definition boundedLimit :: "int \<Rightarrow> int" where
  "boundedLimit limit = (if limit \<le> 0 \<or> limit > maxListLimit then maxListLimit else limit)"

lemma boundedLimit_range: "1 \<le> boundedLimit l \<and> boundedLimit l \<le> 100"
  by (simp add: boundedLimit_def maxListLimit_def)

lemma owner_idem [simp]: "owner (owner v) = owner v"
proof -
  have "graphic ''default''" by (simp add: graphic_def)
  then have "TrimSpace ''default'' = ''default''" by simp
  then show ?thesis by (simp add: owner_def Let_def)
qed

lemma owner_nonempty [simp]: "owner v \<noteq> []"
  by (simp add: owner_def Let_def)

text \<open>
  Insertion into the outbox with a fresh row identity. The column \<open>event_id\<close> is unique: the plain
  insertion fails on a taken identifier, the one with \<open>ON CONFLICT(event_id) DO NOTHING\<close> skips it.
\<close>

definition outbox_row :: "Event \<Rightarrow> store \<Rightarrow> OutboxRow" where
  "outbox_row ev t = \<lparr>ob_ID = outbox_next_id t, ob_Event = ev, ob_Status = OPending,
     ob_Attempts = 0, ob_NextAttempt = pg_ts (ev_Time ev), ob_LastError = []\<rparr>"

definition outbox_add :: "Event \<Rightarrow> store \<Rightarrow> store" where
  "outbox_add ev t =
     t\<lparr>outbox := outbox t @ [outbox_row ev t], outbox_next_id := outbox_next_id t + 1\<rparr>"

definition outbox_has :: "string \<Rightarrow> store \<Rightarrow> bool" where
  "outbox_has i t \<longleftrightarrow> i \<in> (\<lambda>r. ev_ID (ob_Event r)) ` set (outbox t)"

definition outbox_insert :: "Event \<Rightarrow> store \<Rightarrow> (unit \<times> store) option" where
  "outbox_insert ev t = (if outbox_has (ev_ID ev) t then None else Some ((), outbox_add ev t))"

definition outbox_insert_ignore :: "Event \<Rightarrow> store \<Rightarrow> store" where
  "outbox_insert_ignore ev t = (if outbox_has (ev_ID ev) t then t else outbox_add ev t)"

end
