(* ===== verification/Pairing.thy ===== *)
theory Pairing
  imports Store_Tables
begin

text \<open>
  Device pairing: the service \<open>internal/pairing/service.go\<close>, its PostgreSQL repository
  \<open>internal/pgstore/pairing.go\<close>, and the abstract state machine \<open>NextPairingState\<close> of
  \<open>internal/protocol/interaction.go\<close>. The repository operations run as transactions with arbitrary
  faults. Two parameters stand for code outside the repository: \<open>pg_less\<close>, the text order of the
  database collation, and \<open>HashValue\<close>, the SHA-256 of the canonical JSON of a request.
\<close>

section \<open>The protocol state machine\<close>

datatype PairingState =
  PairingAwaitingConfirmation | PairingInitiatorConfirmed | PairingPeerConfirmed
| PairingSucceededState | PairingRejectedState | PairingExpiredState

datatype PairingEvent =
  PairingConfirmInitiatorEvent | PairingConfirmPeerEvent | PairingRejectEvent | PairingExpireEvent

definition NextPairingState :: "PairingState \<Rightarrow> PairingEvent \<Rightarrow> string + PairingState" where
  "NextPairingState state event =
     (if state \<in> {PairingSucceededState, PairingRejectedState, PairingExpiredState}
        then Inl ''pairing state is terminal''
      else if state = PairingAwaitingConfirmation \<and> event = PairingConfirmInitiatorEvent
        then Inr PairingInitiatorConfirmed
      else if state = PairingAwaitingConfirmation \<and> event = PairingConfirmPeerEvent
        then Inr PairingPeerConfirmed
      else if state = PairingInitiatorConfirmed \<and> event = PairingConfirmPeerEvent
        then Inr PairingSucceededState
      else if state = PairingInitiatorConfirmed \<and> event = PairingConfirmInitiatorEvent
        then Inl ''duplicate initiator confirmation''
      else if state = PairingPeerConfirmed \<and> event = PairingConfirmInitiatorEvent
        then Inr PairingSucceededState
      else if state = PairingPeerConfirmed \<and> event = PairingConfirmPeerEvent
        then Inl ''duplicate peer confirmation''
      else if event = PairingRejectEvent then Inr PairingRejectedState
      else if event = PairingExpireEvent then Inr PairingExpiredState
      else Inl ''pairing event is invalid'')"

section \<open>Repository\<close>

datatype pairing_error =
  ErrUnauthorized | ErrDeviceUnavailable | ErrSessionExpired | ErrSessionClosed
| ErrInvalidConfirmation | ErrRelationshipNotFound | ErrRelationshipRevoked

type_synonym 'a pairing_tx = "(store, pairing_error, 'a) tx"

record CreateMutation =
  cm_Session :: Session
  cm_IdempotencyKey :: string
  cm_RequestHash :: string

record ConfirmMutation =
  fm_SessionID :: string
  fm_Participant :: Participant
  fm_Nonce :: string
  fm_ConfirmedAt :: time
  fm_IdempotencyKey :: string
  fm_RequestHash :: string
  fm_RelationshipID :: string

record RejectMutation =
  rm_SessionID :: string
  rm_Participant :: Participant
  rm_RejectedAt :: time
  rm_IdempotencyKey :: string
  rm_RequestHash :: string

definition pairingActor :: "string \<Rightarrow> string \<Rightarrow> string" where
  "pairingActor userID deviceID = TrimSpace userID @ '':device:'' @ TrimSpace deviceID"

text \<open>The confirmation nonces are tagged \<open>json:"-"\<close>: the ledger keeps a session without them.\<close>

definition json_session :: "Session \<Rightarrow> Session" where
  "json_session s = s\<lparr>InitiatorNonce := [], PeerNonce := []\<rparr>"

definition json_confirmation :: "ConfirmationOutcome \<Rightarrow> ConfirmationOutcome" where
  "json_confirmation c = c\<lparr>co_Session := json_session (co_Session c)\<rparr>"

subsection \<open>Creating a session\<close>

definition active_owner :: "string \<Rightarrow> store \<Rightarrow> string option" where
  "active_owner device t =
     map_option cred_UserID
       (find (\<lambda>c. cred_DeviceID c = device \<and> cred_active c) (device_credentials t))"

definition insert_session :: "Session \<Rightarrow> store \<Rightarrow> (unit \<times> store) option" where
  "insert_session s t =
     (if ss_ID s \<in> ss_ID ` set (pairing_sessions t)
         \<or> DeviceID (Initiator s) = DeviceID (Peer s) then None
      else Some ((), t\<lparr>pairing_sessions := pairing_sessions t @
             [s\<lparr>ss_ExpiresAt := pg_ts (ss_ExpiresAt s), InitiatorConfirmedAt := None,
                PeerConfirmedAt := None, ss_RelationshipID := [], ss_State := SPending\<rparr>]\<rparr>))"

definition create_body :: "CreateMutation \<Rightarrow> Session pairing_tx" where
  "create_body mutation =
     (let s = cm_Session mutation in
      tx_bind (query (active_owner (DeviceID (Initiator s)))) (\<lambda>initiatorOwner.
      case initiatorOwner of
        None \<Rightarrow> tx_fail (App ErrUnauthorized)
      | Some o1 \<Rightarrow>
        if o1 \<noteq> UserID (Initiator s) then tx_fail (App ErrUnauthorized)
        else
        tx_bind (query (active_owner (DeviceID (Peer s)))) (\<lambda>peerOwner.
        case peerOwner of
          None \<Rightarrow> tx_fail (App ErrDeviceUnavailable)
        | Some o2 \<Rightarrow>
          (let s' = s\<lparr>Peer := (Peer s)\<lparr>UserID := o2\<rparr>\<rparr> in
           tx_bind (stmt (insert_session s')) (\<lambda>_. tx_return s')))))"

definition create_request :: "CreateMutation \<Rightarrow> Request" where
  "create_request m =
     \<lparr>Actor = pairingActor (UserID (Initiator (cm_Session m))) (DeviceID (Initiator (cm_Session m))),
      Operation = ''pairing.session.create'', Key = cm_IdempotencyKey m,
      RequestHash = cm_RequestHash m\<rparr>"

definition find_session :: "string \<Rightarrow> store \<Rightarrow> Session option" where
  "find_session i t = find (\<lambda>s. ss_ID s = i) (pairing_sessions t)"

definition CreatePairingSession ::
    "CreateMutation \<Rightarrow> time \<Rightarrow> (Session \<times> bool) pairing_tx" where
  "CreatePairingSession mutation created =
     tx_bind (RunIdempotent (create_request mutation) (OSession \<circ> json_session) created
                (create_body mutation)) (\<lambda>res.
     case outcome res of
       OSession s \<Rightarrow>
         tx_bind (query (find_session (ss_ID s))) (\<lambda>row.
         case row of
           None \<Rightarrow> tx_fail (Invalid ''rehydrate pairing confirmation nonces'')
         | Some r \<Rightarrow> tx_return (s\<lparr>InitiatorNonce := InitiatorNonce r, PeerNonce := PeerNonce r\<rparr>,
                               Replayed res))
     | _ \<Rightarrow> tx_fail (Invalid ''decode pairing create outcome''))"

subsection \<open>Confirming a session\<close>

definition load_session :: "string \<Rightarrow> Session pairing_tx" where
  "load_session sessionID =
     tx_bind (query (find_session sessionID)) (\<lambda>row.
     case row of None \<Rightarrow> tx_fail (App ErrInvalidConfirmation) | Some s \<Rightarrow> tx_return s)"

definition update_session :: "string \<Rightarrow> (Session \<Rightarrow> Session) \<Rightarrow> store \<Rightarrow> store" where
  "update_session i g t = t\<lparr>pairing_sessions := update_where (\<lambda>s. ss_ID s = i) g (pairing_sessions t)\<rparr>"

definition active_pair :: "string \<Rightarrow> string \<Rightarrow> Relationship \<Rightarrow> bool" where
  "active_pair a b r \<longleftrightarrow> DeviceAID r = a \<and> DeviceBID r = b \<and> RevokedAt r = None"

text \<open>
  \<open>INSERT ... ON CONFLICT(device_a_id,device_b_id) WHERE revoked_at IS NULL DO NOTHING RETURNING\<close>:
  the check \<open>device_a_id < device_b_id\<close> uses the collation of the database, an active pair gives
  no row, a taken identifier is an error.
\<close>

definition insert_relationship ::
    "(string \<Rightarrow> string \<Rightarrow> bool) \<Rightarrow> Relationship \<Rightarrow> store \<Rightarrow> (string option \<times> store) option" where
  "insert_relationship lt r t =
     (if \<not> lt (DeviceAID r) (DeviceBID r) then None
      else if \<exists>x \<in> set (device_relationships t). active_pair (DeviceAID r) (DeviceBID r) x
        then Some (None, t)
      else if rel_ID r \<in> rel_ID ` set (device_relationships t) then None
      else Some (Some (rel_ID r), t\<lparr>device_relationships := device_relationships t @ [r]\<rparr>))"

definition relationship_event :: "pg_env \<Rightarrow> Relationship \<Rightarrow> Event" where
  "relationship_event env r =
     \<lparr>ev_ID = gen_random_uuid env, ev_Source = ''/companion/relationship'',
      ev_Type = ''pairing.relationship.created'', ev_Subject = ''relationship/'' @ rel_ID r,
      ev_UserID = UserAID r,
      ev_Data = [(''device_a_id'', JStr (DeviceAID r)), (''device_b_id'', JStr (DeviceBID r)),
                 (''relationship_id'', JStr (rel_ID r))],
      ev_Time = clock_timestamp env\<rparr>"

text \<open>The two devices in byte order, each with its user.\<close>

definition ordered_pair :: "Session \<Rightarrow> (string \<times> string) \<times> (string \<times> string)" where
  "ordered_pair s =
     (let a = (DeviceID (Initiator s), UserID (Initiator s));
          b = (DeviceID (Peer s), UserID (Peer s))
      in if string_less (fst b) (fst a) then (b, a) else (a, b))"

definition new_relationship :: "Session \<Rightarrow> string \<Rightarrow> time \<Rightarrow> Relationship" where
  "new_relationship s i dbnow =
     (case ordered_pair s of ((da, ua), (db, ub)) \<Rightarrow>
        \<lparr>rel_ID = i, DeviceAID = da, DeviceBID = db, UserAID = ua, UserBID = ub,
         rel_CreatedAt = dbnow, RevokedAt = None\<rparr>)"

text \<open>
  The last part of the transaction, once both sides have confirmed: the identifier of the inserted
  relationship or of the active one, the update of the session, and the event of an insertion.
\<close>

definition paired :: "string \<Rightarrow> Session \<Rightarrow> Session" where
  "paired i x = x\<lparr>ss_State := SPaired, ss_RelationshipID := i\<rparr>"

definition relationship_id :: "Relationship \<Rightarrow> string option \<Rightarrow> string pairing_tx" where
  "relationship_id r inserted =
     (case inserted of
        Some i \<Rightarrow> tx_return i
      | None \<Rightarrow>
        tx_bind (query (\<lambda>t. find (active_pair (DeviceAID r) (DeviceBID r)) (device_relationships t)))
        (\<lambda>row. case row of None \<Rightarrow> tx_fail (Invalid ''load existing device relationship'')
                         | Some x \<Rightarrow> tx_return (rel_ID x)))"

definition relationship_created :: "pg_env \<Rightarrow> Relationship \<Rightarrow> string option \<Rightarrow> unit pairing_tx" where
  "relationship_created env r inserted =
     (case inserted of
        Some _ \<Rightarrow> stmt (outbox_insert (relationship_event env r))
      | None \<Rightarrow> tx_return ())"

definition complete_pairing ::
    "pg_env \<Rightarrow> string \<Rightarrow> Session \<Rightarrow> ConfirmationOutcome pairing_tx" where
  "complete_pairing env relID s =
     (let r = new_relationship s relID (tx_now env) in
      tx_bind (stmt (insert_relationship (pg_less env) r)) (\<lambda>inserted.
      tx_bind (relationship_id r inserted) (\<lambda>relationshipID.
      tx_bind (exec (update_session (ss_ID s) (paired relationshipID))) (\<lambda>_.
      tx_bind (relationship_created env r inserted) (\<lambda>_.
      tx_return \<lparr>co_Session = paired relationshipID s, Completed = True,
                 co_RelationshipID = relationshipID, co_Replayed = False\<rparr>)))))"

definition not_completed :: "Session \<Rightarrow> ConfirmationOutcome" where
  "not_completed s = \<lparr>co_Session = s, Completed = False, co_RelationshipID = [], co_Replayed = False\<rparr>"

definition confirm_side :: "bool \<Rightarrow> time \<Rightarrow> Session \<Rightarrow> Session" where
  "confirm_side isInitiator c s =
     (if isInitiator then s\<lparr>InitiatorConfirmedAt := Some c\<rparr> else s\<lparr>PeerConfirmedAt := Some c\<rparr>)"

definition confirm_body ::
    "pg_env \<Rightarrow> ConfirmMutation \<Rightarrow> ConfirmationOutcome pairing_tx" where
  "confirm_body env mutation =
     tx_bind (load_session (fm_SessionID mutation)) (\<lambda>s.
     let isInitiator = (fm_Participant mutation = Initiator s);
         isPeer = (fm_Participant mutation = Peer s)
     in
     if \<not> isInitiator \<and> \<not> isPeer then tx_fail (App ErrUnauthorized)
     else if ss_State s = SExpired then tx_return (not_completed s)
     else if ss_State s \<noteq> SPending then tx_fail (App ErrSessionClosed)
     else if \<not> After (ss_ExpiresAt s) (fm_ConfirmedAt mutation) then
       tx_bind (exec (update_session (ss_ID s) (\<lambda>x. x\<lparr>ss_State := SExpired\<rparr>))) (\<lambda>_.
       tx_return (not_completed (s\<lparr>ss_State := SExpired\<rparr>)))
     else if (isInitiator \<and> fm_Nonce mutation \<noteq> InitiatorNonce s)
             \<or> (isPeer \<and> fm_Nonce mutation \<noteq> PeerNonce s)
       then tx_fail (App ErrInvalidConfirmation)
     else if (isInitiator \<and> InitiatorConfirmedAt s \<noteq> None)
             \<or> (isPeer \<and> PeerConfirmedAt s \<noteq> None)
       then tx_fail (App ErrInvalidConfirmation)
     else
     tx_bind (exec (update_session (ss_ID s)
                (confirm_side isInitiator (pg_ts (fm_ConfirmedAt mutation))))) (\<lambda>_.
     let s' = confirm_side isInitiator (fm_ConfirmedAt mutation) s
     in if InitiatorConfirmedAt s' = None \<or> PeerConfirmedAt s' = None
        then tx_return (not_completed s')
        else complete_pairing env (fm_RelationshipID mutation) s'))"

definition confirm_request :: "ConfirmMutation \<Rightarrow> Request" where
  "confirm_request m =
     \<lparr>Actor = pairingActor (UserID (fm_Participant m)) (DeviceID (fm_Participant m)),
      Operation = ''pairing.session.confirm'', Key = fm_IdempotencyKey m,
      RequestHash = fm_RequestHash m\<rparr>"

definition ConfirmPairingSession ::
    "pg_env \<Rightarrow> ConfirmMutation \<Rightarrow> ConfirmationOutcome pairing_tx" where
  "ConfirmPairingSession env mutation =
     tx_bind (RunIdempotent (confirm_request mutation) (OConfirm \<circ> json_confirmation) (go_now env)
                (confirm_body env mutation)) (\<lambda>res.
     case outcome res of
       OConfirm c \<Rightarrow> tx_return (c\<lparr>co_Replayed := Replayed res\<rparr>)
     | _ \<Rightarrow> tx_fail (Invalid ''decode pairing confirmation outcome''))"

subsection \<open>Rejecting a session\<close>

definition reject_body :: "RejectMutation \<Rightarrow> Session pairing_tx" where
  "reject_body mutation =
     tx_bind (load_session (rm_SessionID mutation)) (\<lambda>s.
     if rm_Participant mutation \<noteq> Initiator s \<and> rm_Participant mutation \<noteq> Peer s
       then tx_fail (App ErrUnauthorized)
     else if ss_State s = SExpired then tx_return s
     else if ss_State s \<noteq> SPending then tx_fail (App ErrSessionClosed)
     else if \<not> After (ss_ExpiresAt s) (rm_RejectedAt mutation) then
       tx_bind (exec (update_session (ss_ID s) (\<lambda>x. x\<lparr>ss_State := SExpired\<rparr>))) (\<lambda>_.
       tx_return (s\<lparr>ss_State := SExpired\<rparr>))
     else
       tx_bind (exec (update_session (ss_ID s) (\<lambda>x. x\<lparr>ss_State := SCancelled\<rparr>))) (\<lambda>_.
       tx_return (s\<lparr>ss_State := SCancelled\<rparr>)))"

definition reject_request :: "RejectMutation \<Rightarrow> Request" where
  "reject_request m =
     \<lparr>Actor = pairingActor (UserID (rm_Participant m)) (DeviceID (rm_Participant m)),
      Operation = ''pairing.session.reject'', Key = rm_IdempotencyKey m,
      RequestHash = rm_RequestHash m\<rparr>"

definition RejectPairingSession :: "RejectMutation \<Rightarrow> time \<Rightarrow> (Session \<times> bool) pairing_tx" where
  "RejectPairingSession mutation created =
     tx_bind (RunIdempotent (reject_request mutation) (OSession \<circ> json_session) created
                (reject_body mutation)) (\<lambda>res.
     case outcome res of
       OSession s \<Rightarrow> tx_return (s, Replayed res)
     | _ \<Rightarrow> tx_fail (Invalid ''decode pairing rejection outcome''))"

subsection \<open>Relationships\<close>

record RecipientDescriptor =
  rd_RelationshipID :: string
  PeerDeviceID :: string
  rd_CreatedAt :: time

definition is_participant :: "string \<Rightarrow> string \<Rightarrow> Relationship \<Rightarrow> bool" where
  "is_participant user device r \<longleftrightarrow>
     (UserAID r = user \<and> DeviceAID r = device) \<or> (UserBID r = user \<and> DeviceBID r = device)"

text \<open>\<open>ORDER BY created_at DESC\<close>; the order of rows with equal stamps is left to the database.\<close>

definition ListAuthorizedRecipients :: "Participant \<Rightarrow> RecipientDescriptor list pairing_tx" where
  "ListAuthorizedRecipients participant =
     query (\<lambda>t.
       map (\<lambda>r. \<lparr>rd_RelationshipID = rel_ID r,
                 PeerDeviceID = (if DeviceBID r = DeviceID participant then DeviceAID r else DeviceBID r),
                 rd_CreatedAt = rel_CreatedAt r\<rparr>)
         (sort_key (\<lambda>r. - rel_CreatedAt r)
           (filter (\<lambda>r. is_participant (owner (UserID participant)) (TrimSpace (DeviceID participant)) r
                        \<and> RevokedAt r = None) (device_relationships t))))"

definition revocable :: "Participant \<Rightarrow> string \<Rightarrow> Relationship \<Rightarrow> bool" where
  "revocable participant relationshipID r \<longleftrightarrow> rel_ID r = relationshipID
     \<and> is_participant (owner (UserID participant)) (TrimSpace (DeviceID participant)) r
     \<and> RevokedAt r = None"

definition revoke_rows :: "Participant \<Rightarrow> string \<Rightarrow> time \<Rightarrow> store \<Rightarrow> store" where
  "revoke_rows participant relationshipID now t =
     t\<lparr>device_relationships := update_where (revocable participant relationshipID)
         (\<lambda>r. r\<lparr>RevokedAt := Some (pg_ts now)\<rparr>) (device_relationships t)\<rparr>"

definition RevokeRelationship :: "Participant \<Rightarrow> string \<Rightarrow> time \<Rightarrow> unit pairing_tx" where
  "RevokeRelationship participant relationshipID now =
     tx_bind (stmt (\<lambda>t. Some (rows_affected (revocable participant relationshipID) (device_relationships t),
                             revoke_rows participant relationshipID now t)))
     (\<lambda>n. if n = 0 then tx_fail (App ErrRelationshipNotFound) else tx_return ())"

section \<open>The invariant\<close>

text \<open>
  A session joins two different devices; it is paired only when both sides have confirmed, and
  then names a relationship between its devices. A relationship lists its devices in byte order
  and stems from a paired session of exactly its two participants. A pair of devices has at most
  one active relationship, and each relationship has exactly one creation event in the outbox.
\<close>

definition pair_devices :: "Session \<Rightarrow> string \<times> string" where
  "pair_devices s = (fst (fst (ordered_pair s)), fst (snd (ordered_pair s)))"

definition both_confirmed :: "Session \<Rightarrow> bool" where
  "both_confirmed s \<longleftrightarrow> InitiatorConfirmedAt s \<noteq> None \<and> PeerConfirmedAt s \<noteq> None"

definition session_ok :: "Relationship list \<Rightarrow> Session \<Rightarrow> bool" where
  "session_ok rels s \<longleftrightarrow>
     DeviceID (Initiator s) \<noteq> DeviceID (Peer s)
     \<and> (ss_State s = SPending \<longrightarrow> \<not> both_confirmed s)
     \<and> (ss_State s = SPaired \<longrightarrow> both_confirmed s \<and>
          (\<exists>r \<in> set rels. rel_ID r = ss_RelationshipID s \<and> (DeviceAID r, DeviceBID r) = pair_devices s))"

definition founded_by :: "Session \<Rightarrow> Relationship \<Rightarrow> bool" where
  "founded_by s r \<longleftrightarrow> ss_State s = SPaired \<and> both_confirmed s \<and> ss_RelationshipID s = rel_ID r
     \<and> ordered_pair s = ((DeviceAID r, UserAID r), (DeviceBID r, UserBID r))"

definition relationship_ok :: "Session list \<Rightarrow> Relationship \<Rightarrow> bool" where
  "relationship_ok sessions r \<longleftrightarrow>
     string_less (DeviceAID r) (DeviceBID r) \<and> (\<exists>s \<in> set sessions. founded_by s r)"

definition active_unique :: "Relationship list \<Rightarrow> bool" where
  "active_unique rels \<longleftrightarrow>
     (\<forall>r \<in> set rels. \<forall>r' \<in> set rels. RevokedAt r = None \<longrightarrow> RevokedAt r' = None \<longrightarrow>
        DeviceAID r = DeviceAID r' \<longrightarrow> DeviceBID r = DeviceBID r' \<longrightarrow> r = r')"

definition created_events :: "OutboxRow list \<Rightarrow> string list" where
  "created_events rows = map (\<lambda>e. ev_Subject (ob_Event e))
     (filter (\<lambda>e. ev_Type (ob_Event e) = ''pairing.relationship.created'') rows)"

definition pairing_inv :: "store \<Rightarrow> bool" where
  "pairing_inv t \<longleftrightarrow>
     unique_key ss_ID (pairing_sessions t)
     \<and> unique_key rel_ID (device_relationships t)
     \<and> list_all (session_ok (device_relationships t)) (pairing_sessions t)
     \<and> list_all (relationship_ok (pairing_sessions t)) (device_relationships t)
     \<and> active_unique (device_relationships t)
     \<and> created_events (outbox t) =
         map (\<lambda>r. ''relationship/'' @ rel_ID r) (device_relationships t)"

lemma pairing_inv_empty: "pairing_inv empty_store"
  by (simp add: pairing_inv_def empty_store_def unique_key_def active_unique_def created_events_def)

text \<open>The invariant depends on four tables only.\<close>

lemma pairing_inv_cong:
  assumes "pairing_sessions t' = pairing_sessions t" "device_relationships t' = device_relationships t"
    "created_events (outbox t') = created_events (outbox t)"
  shows "pairing_inv t' = pairing_inv t"
  using assms by (simp add: pairing_inv_def)

lemma pairing_inv_insert_record:
  "insert_record rec t = Some ((), t') \<Longrightarrow> pairing_inv t' = pairing_inv t"
  by (rule pairing_inv_cong) (auto simp: insert_record_def split: if_splits)

lemma ordered_pair_less:
  "DeviceID (Initiator s) \<noteq> DeviceID (Peer s) \<Longrightarrow>
     string_less (fst (fst (ordered_pair s))) (fst (snd (ordered_pair s)))"
  using string_less_total by (auto simp: ordered_pair_def Let_def)

lemma ordered_pair_cong:
  "Initiator s' = Initiator s \<Longrightarrow> Peer s' = Peer s \<Longrightarrow> ordered_pair s' = ordered_pair s"
  by (simp add: ordered_pair_def)

lemma session_ok_mono: "session_ok rels s \<Longrightarrow> set rels \<subseteq> set rels' \<Longrightarrow> session_ok rels' s"
  by (auto simp: session_ok_def)

text \<open>
  Replacing a pending session and possibly adding the relationship it founds: the one lemma that
  every change of a session goes through.
\<close>

lemma pairing_inv_replace:
  assumes inv: "pairing_inv t" and s: "s \<in> set (pairing_sessions t)" "ss_State s = SPending"
    and g: "\<And>x. ss_ID (g x) = ss_ID x"
    and t': "pairing_sessions t' = update_where (\<lambda>x. ss_ID x = ss_ID s) g (pairing_sessions t)"
      "device_relationships t' = device_relationships t @ new"
      "created_events (outbox t') = created_events (outbox t) @ map (\<lambda>r. ''relationship/'' @ rel_ID r) new"
    and ok: "session_ok (device_relationships t') (g s)"
    and new: "list_all (\<lambda>r. string_less (DeviceAID r) (DeviceBID r) \<and> founded_by (g s) r) new"
      "unique_key rel_ID (device_relationships t')" "active_unique (device_relationships t')"
  shows "pairing_inv t'"
proof -
  have uk: "unique_key ss_ID (pairing_sessions t)" using inv by (simp add: pairing_inv_def)
  have S: "set (pairing_sessions t') = insert (g s) (set (pairing_sessions t) - {s})"
    unfolding t' by (rule set_update_by_key [OF uk s(1)])
  have "list_all (session_ok (device_relationships t')) (pairing_sessions t')"
    using inv ok unfolding list_all_iff S t'(2)
    by (auto simp: pairing_inv_def list_all_iff intro: session_ok_mono)
  moreover have "list_all (relationship_ok (pairing_sessions t')) (device_relationships t')"
    unfolding list_all_iff
  proof
    fix r
    assume "r \<in> set (device_relationships t')"
    then consider "r \<in> set (device_relationships t)" | "r \<in> set new" using t'(2) by auto
    then show "relationship_ok (pairing_sessions t') r"
    proof cases
      case 1
      then obtain s0 where "s0 \<in> set (pairing_sessions t)" "founded_by s0 r"
          "string_less (DeviceAID r) (DeviceBID r)"
        using inv by (auto simp: pairing_inv_def relationship_ok_def list_all_iff)
      moreover then have "s0 \<noteq> s" using s(2) by (auto simp: founded_by_def)
      ultimately show ?thesis unfolding relationship_ok_def S by blast
    next
      case 2
      with new(1) show ?thesis by (auto simp: relationship_ok_def S list_all_iff)
    qed
  qed
  moreover have "unique_key ss_ID (pairing_sessions t')"
    unfolding t'(1) using uk g by (simp add: unique_key_update_where)
  ultimately show ?thesis
    using inv new(2,3) t'(2,3) by (simp add: pairing_inv_def)
qed

text \<open>Closing a pending session, and recording one side of its confirmation.\<close>

lemma pairing_inv_close:
  assumes "pairing_inv t" "s \<in> set (pairing_sessions t)" "ss_State s = SPending"
    and "st = SExpired \<or> st = SCancelled"
  shows "pairing_inv (update_session (ss_ID s) (\<lambda>x. x\<lparr>ss_State := st\<rparr>) t)"
proof (rule pairing_inv_replace [OF assms(1-3), where new = "[]"])
  show "session_ok (device_relationships (update_session (ss_ID s) (\<lambda>x. x\<lparr>ss_State := st\<rparr>) t))
      (s\<lparr>ss_State := st\<rparr>)"
    using assms by (auto simp: update_session_def pairing_inv_def session_ok_def list_all_iff)
qed (use assms in \<open>auto simp: update_session_def pairing_inv_def\<close>)

lemma pairing_inv_confirm:
  assumes "pairing_inv t" "s \<in> set (pairing_sessions t)" "ss_State s = SPending"
    and g: "\<And>x. ss_ID (g x) = ss_ID x" and "ss_State (g s) = SPending" "\<not> both_confirmed (g s)"
      "Initiator (g s) = Initiator s" "Peer (g s) = Peer s"
  shows "pairing_inv (update_session (ss_ID s) g t)"
proof (rule pairing_inv_replace [OF assms(1-3) g, where new = "[]"])
  show "session_ok (device_relationships (update_session (ss_ID s) g t)) (g s)"
    using assms by (auto simp: update_session_def pairing_inv_def session_ok_def list_all_iff)
qed (use assms in \<open>auto simp: update_session_def pairing_inv_def\<close>)

section \<open>Effects of the operations\<close>

lemma load_session_Inr:
  "load_session i d = (Inr s, d') \<Longrightarrow> find_session i (tables d) = Some s \<and> tables d' = tables d"
  by (auto simp: load_session_def tx_Inr split: option.splits)

lemma find_session_SomeD:
  "find_session i t = Some s \<Longrightarrow> s \<in> set (pairing_sessions t) \<and> ss_ID s = i"
  by (auto simp: find_session_def dest: find_Some_in_set)

text \<open>Once both sides are recorded, the transaction inserts a relationship or reuses the active one.\<close>

lemma complete_pairing_Inr:
  assumes "complete_pairing env relID s d = (Inr c, d')"
  obtains (inserted) "c = \<lparr>co_Session = paired relID s, Completed = True, co_RelationshipID = relID, co_Replayed = False\<rparr>"
      "\<not> (\<exists>x \<in> set (device_relationships (tables d)).
            active_pair (DeviceAID (new_relationship s relID (tx_now env))) (DeviceBID (new_relationship s relID (tx_now env))) x)"
      "relID \<notin> rel_ID ` set (device_relationships (tables d))"
      "tables d' = outbox_add (relationship_event env (new_relationship s relID (tx_now env)))
         (update_session (ss_ID s) (paired relID)
           ((tables d)\<lparr>device_relationships := device_relationships (tables d) @ [new_relationship s relID (tx_now env)]\<rparr>))"
    | (existing) x where "x \<in> set (device_relationships (tables d))"
      "active_pair (DeviceAID (new_relationship s relID (tx_now env))) (DeviceBID (new_relationship s relID (tx_now env))) x"
      "c = \<lparr>co_Session = paired (rel_ID x) s, Completed = True, co_RelationshipID = rel_ID x, co_Replayed = False\<rparr>"
      "tables d' = update_session (ss_ID s) (paired (rel_ID x)) (tables d)"
proof -
  let ?r = "new_relationship s relID (tx_now env)"
  have rid: "rel_ID ?r = relID"
    by (simp add: new_relationship_def split: prod.splits)
  from assms obtain ins t1 i d3 where ins: "insert_relationship (pg_less env) ?r (tables d) = Some (ins, t1)"
      and rid1: "relationship_id ?r ins ((next_call d)\<lparr>tables := t1\<rparr>) = (Inr i, d3)"
      and ev: "relationship_created env ?r ins
         ((next_call d3)\<lparr>tables := update_session (ss_ID s) (paired i) (tables d3)\<rparr>) = (Inr (), d')"
      and c: "c = \<lparr>co_Session = paired i s, Completed = True, co_RelationshipID = i, co_Replayed = False\<rparr>"
    by (auto simp: complete_pairing_def Let_def tx_Inr)
  show thesis
  proof (cases ins)
    case None
    with ins have "t1 = tables d" by (auto simp: insert_relationship_def split: if_splits)
    with rid1 ev c None show thesis
      by (auto simp: relationship_id_def relationship_created_def tx_Inr split: option.splits
          dest!: find_Some_in_set intro: existing)
  next
    case (Some i)
    with ins have fresh: "i = relID" "relID \<notin> rel_ID ` set (device_relationships (tables d))"
        "\<not> (\<exists>x \<in> set (device_relationships (tables d)). active_pair (DeviceAID ?r) (DeviceBID ?r) x)"
        "t1 = (tables d)\<lparr>device_relationships := device_relationships (tables d) @ [?r]\<rparr>"
      by (auto simp: insert_relationship_def rid split: if_splits)
    with rid1 ev c Some show thesis
      by (intro inserted)
        (auto simp: relationship_id_def relationship_created_def tx_Inr outbox_insert_def split: if_splits)
  qed
qed

lemma created_events_outbox_add:
  "created_events (outbox (outbox_add ev t)) =
     created_events (outbox t) @ (if ev_Type ev = ''pairing.relationship.created'' then [ev_Subject ev] else [])"
  by (simp add: created_events_def outbox_add_def outbox_row_def)

lemma update_session_simps [simp]:
  "pairing_sessions (update_session i g t) = update_where (\<lambda>x. ss_ID x = i) g (pairing_sessions t)"
  "device_relationships (update_session i g t) = device_relationships t"
  "outbox (update_session i g t) = outbox t"
  "idempotency_records (update_session i g t) = idempotency_records t"
  "voice_mail_items (update_session i g t) = voice_mail_items t"
  by (simp_all add: update_session_def)

lemma outbox_add_simps [simp]:
  "pairing_sessions (outbox_add ev t) = pairing_sessions t"
  "device_relationships (outbox_add ev t) = device_relationships t"
  "idempotency_records (outbox_add ev t) = idempotency_records t"
  "voice_mail_items (outbox_add ev t) = voice_mail_items t"
  by (simp_all add: outbox_add_def)

lemma new_relationship_sel:
  "rel_ID (new_relationship s i n) = i" "RevokedAt (new_relationship s i n) = None"
  "(DeviceAID (new_relationship s i n), DeviceBID (new_relationship s i n)) = pair_devices s"
  "((DeviceAID (new_relationship s i n), UserAID (new_relationship s i n)),
    (DeviceBID (new_relationship s i n), UserBID (new_relationship s i n))) = ordered_pair s"
  by (simp_all add: new_relationship_def pair_devices_def split: prod.splits)

text \<open>The second confirmation keeps the invariant.\<close>

lemma pairing_inv_complete:
  assumes inv: "pairing_inv t" and s: "s \<in> set (pairing_sessions t)" "ss_State s = SPending"
    and h: "\<And>x. ss_ID (h x) = ss_ID x" and hs: "Initiator (h s) = Initiator s" "Peer (h s) = Peer s"
      "both_confirmed (h s)" and s': "Initiator s' = Initiator s" "Peer s' = Peer s" "ss_ID s' = ss_ID s"
    and d: "tables d = update_session (ss_ID s) h t"
    and run: "complete_pairing env relID s' d = (Inr c, d')"
  shows "pairing_inv (tables d')"
  using run
proof (cases rule: complete_pairing_Inr)
  case inserted
  let ?r = "new_relationship s' relID (tx_now env)"
  have op: "ordered_pair (h s) = ordered_pair s'" "ordered_pair s' = ordered_pair s"
    using hs s' by (auto intro: ordered_pair_cong)
  have diff: "DeviceID (Initiator s) \<noteq> DeviceID (Peer s)"
    using inv s(1) by (auto simp: pairing_inv_def list_all_iff session_ok_def)
  have f: "founded_by (paired relID (h s)) ?r"
    using hs new_relationship_sel [of s' relID "tx_now env"] op
    by (auto simp: founded_by_def paired_def both_confirmed_def ordered_pair_def)
  show ?thesis
  proof (rule pairing_inv_replace [OF inv s, where g = "paired relID \<circ> h" and new = "[?r]"])
    show "session_ok (device_relationships (tables d')) ((paired relID \<circ> h) s)"
      using inserted(4) d hs diff new_relationship_sel [of s' relID "tx_now env"] op
      by (auto simp: session_ok_def paired_def both_confirmed_def pair_devices_def ordered_pair_def)
    show "list_all (\<lambda>r. string_less (DeviceAID r) (DeviceBID r) \<and> founded_by ((paired relID \<circ> h) s) r) [?r]"
      using f ordered_pair_less [of s'] diff s' new_relationship_sel(3) [of s' relID "tx_now env"]
      by (simp add: pair_devices_def)
    show "unique_key rel_ID (device_relationships (tables d'))"
      using inserted(3,4) d inv
      by (simp add: pairing_inv_def unique_key_append new_relationship_sel)
    show "active_unique (device_relationships (tables d'))"
      using inserted(2,4) d inv
      by (auto simp: pairing_inv_def active_unique_def active_pair_def)
    show "created_events (outbox (tables d')) = created_events (outbox t)
        @ map (\<lambda>r. ''relationship/'' @ rel_ID r) [?r]"
      using inserted(4) d by (simp add: created_events_outbox_add relationship_event_def)
  qed (use inserted(4) d h in \<open>auto simp: paired_def update_where_twice s'\<close>)
next
  case (existing x)
  have op: "pair_devices (paired (rel_ID x) (h s)) = pair_devices s'"
    using hs s' by (simp add: pair_devices_def paired_def ordered_pair_def)
  have diff: "DeviceID (Initiator s) \<noteq> DeviceID (Peer s)"
    using inv s(1) by (auto simp: pairing_inv_def list_all_iff session_ok_def)
  show ?thesis
  proof (rule pairing_inv_replace [OF inv s, where g = "paired (rel_ID x) \<circ> h" and new = "[]"])
    show "session_ok (device_relationships (tables d')) ((paired (rel_ID x) \<circ> h) s)"
      using existing d hs diff new_relationship_sel(3) [of s' relID "tx_now env"] op
      by (auto simp: session_ok_def paired_def both_confirmed_def active_pair_def)
  qed (use existing d h inv in \<open>auto simp: paired_def update_where_twice s' pairing_inv_def\<close>)
qed

subsection \<open>The cases of a confirmation and of a rejection\<close>

lemma update_session_ID: "find_session i t = Some s \<Longrightarrow> update_session i = update_session (ss_ID s)"
  using find_session_SomeD by metis

lemma reject_body_Inr:
  assumes "reject_body m d = (Inr x, d')"
  obtains (closed) s where "find_session (rm_SessionID m) (tables d) = Some s"
      "rm_Participant m = Initiator s \<or> rm_Participant m = Peer s"
      "ss_State s = SExpired" "x = s" "tables d' = tables d"
    | (closes) s st where "find_session (rm_SessionID m) (tables d) = Some s"
      "rm_Participant m = Initiator s \<or> rm_Participant m = Peer s" "ss_State s = SPending"
      "st = (if After (ss_ExpiresAt s) (rm_RejectedAt m) then SCancelled else SExpired)"
      "x = s\<lparr>ss_State := st\<rparr>"
      "tables d' = update_session (ss_ID s) (\<lambda>x. x\<lparr>ss_State := st\<rparr>) (tables d)"
proof -
  from assms obtain s d1 where load: "load_session (rm_SessionID m) d = (Inr s, d1)"
    by (auto simp: reject_body_def tx_bind_Inr)
  with assms load_session_Inr [OF load] show thesis
    by (auto simp: reject_body_def tx_Inr split: if_splits intro: closed closes)
qed

lemma confirm_body_Inr:
  assumes "confirm_body env m d = (Inr x, d')"
  obtains (closed) s where "find_session (fm_SessionID m) (tables d) = Some s"
      "fm_Participant m = Initiator s \<or> fm_Participant m = Peer s"
      "ss_State s = SExpired" "x = not_completed s" "tables d' = tables d"
    | (expires) s where "find_session (fm_SessionID m) (tables d) = Some s"
      "fm_Participant m = Initiator s \<or> fm_Participant m = Peer s" "ss_State s = SPending"
      "ss_ExpiresAt s \<le> fm_ConfirmedAt m" "x = not_completed (s\<lparr>ss_State := SExpired\<rparr>)"
      "tables d' = update_session (ss_ID s) (\<lambda>x. x\<lparr>ss_State := SExpired\<rparr>) (tables d)"
    | (first) s b where "find_session (fm_SessionID m) (tables d) = Some s"
      "fm_Participant m = (if b then Initiator s else Peer s)"
      "fm_Nonce m = (if b then InitiatorNonce s else PeerNonce s)"
      "ss_State s = SPending" "fm_ConfirmedAt m < ss_ExpiresAt s"
      "(if b then InitiatorConfirmedAt s else PeerConfirmedAt s) = None"
      "\<not> both_confirmed (confirm_side b (fm_ConfirmedAt m) s)"
      "x = not_completed (confirm_side b (fm_ConfirmedAt m) s)"
      "tables d' = update_session (ss_ID s) (confirm_side b (pg_ts (fm_ConfirmedAt m))) (tables d)"
    | (second) s b d2 where "find_session (fm_SessionID m) (tables d) = Some s"
      "fm_Participant m = (if b then Initiator s else Peer s)"
      "fm_Nonce m = (if b then InitiatorNonce s else PeerNonce s)"
      "ss_State s = SPending" "fm_ConfirmedAt m < ss_ExpiresAt s"
      "(if b then InitiatorConfirmedAt s else PeerConfirmedAt s) = None"
      "both_confirmed (confirm_side b (fm_ConfirmedAt m) s)"
      "tables d2 = update_session (ss_ID s) (confirm_side b (pg_ts (fm_ConfirmedAt m))) (tables d)"
      "complete_pairing env (fm_RelationshipID m) (confirm_side b (fm_ConfirmedAt m) s) d2 = (Inr x, d')"
proof -
  from assms obtain s d1 where load: "load_session (fm_SessionID m) d = (Inr s, d1)"
    by (auto simp: confirm_body_def tx_bind_Inr)
  note s = load_session_Inr [OF load]
  let ?b = "fm_Participant m = Initiator s" and ?c = "fm_ConfirmedAt m"
  from assms have rest: "?b \<or> fm_Participant m = Peer s" "ss_State s \<in> {SExpired, SPending}"
    by (auto simp: confirm_body_def tx_Inr load Let_def split: if_splits)
  consider "ss_State s = SExpired" | "ss_State s = SPending" "ss_ExpiresAt s \<le> ?c"
    | "ss_State s = SPending" "?c < ss_ExpiresAt s" using rest(2) by fastforce
  then show thesis
  proof cases
    case 1
    with assms s rest show thesis
      by (auto simp: confirm_body_def tx_Inr load Let_def intro: closed split: if_splits)
  next
    case 2
    with assms s rest show thesis
      by (auto simp: confirm_body_def tx_Inr load Let_def After_def intro: expires split: if_splits)
  next
    case 3
    let ?d2 = "(next_call d1)\<lparr>tables := update_session (ss_ID s) (confirm_side ?b (pg_ts ?c)) (tables d1)\<rparr>"
    from assms 3 have nonce: "fm_Nonce m = (if ?b then InitiatorNonce s else PeerNonce s)"
      and unset: "(if ?b then InitiatorConfirmedAt s else PeerConfirmedAt s) = None"
      and last: "(if \<not> both_confirmed (confirm_side ?b ?c s)
         then tx_return (not_completed (confirm_side ?b ?c s))
         else complete_pairing env (fm_RelationshipID m) (confirm_side ?b ?c s)) ?d2 = (Inr x, d')"
      by (auto simp: confirm_body_def tx_bind_Inr exec_Inr tx_fail_Inr load Let_def After_def
          both_confirmed_def split: if_splits)
    have part: "fm_Participant m = (if ?b then Initiator s else Peer s)" using rest(1) by auto
    show thesis
    proof (cases "both_confirmed (confirm_side ?b ?c s)")
      case True
      with last s 3 show thesis
        by (intro second [OF _ part nonce _ _ unset, where ?d2.0 = ?d2]) auto
    next
      case False
      with last s 3 show thesis
        by (intro first [OF _ part nonce _ _ unset]) (auto simp: tx_return_Inr)
    qed
  qed
qed

end
