(* ===== verification/Canonical_Json.thy ===== *)
theory Canonical_Json
  imports Go_Prelude "HOL-Library.Multiset"
begin

text \<open>
  JSON values as \<open>encoding/json\<close> handles them, and the canonical form that
  \<open>internal/idempotency/idempotency.go\<close> hashes: a value is marshalled, decoded into generic maps
  (numbers as their tokens) and marshalled again, which sorts the keys of every object, lets the
  last of several equal keys win and replaces invalid UTF-8. SHA-256 is a parameter. The lemmas show that the
  hash depends on the meaning of an object only and has the form the idempotency ledger accepts.
\<close>

section \<open>Values and their encoding\<close>

datatype json = JNull | JBool bool | JNum string | JString string
  | JArr "json list" | JObj "(string \<times> json) list"

definition nibble :: "nat \<Rightarrow> char" where
  "nibble n = char_of (if n < 10 then 48 + n else 87 + n)"

definition u_escape :: "nat \<Rightarrow> string" where
  "u_escape r = char_of (92::nat) # CHR ''u'' #
     [nibble (r div 4096 mod 16), nibble (r div 256 mod 16), nibble (r div 16 mod 16), nibble (r mod 16)]"

definition escape_rune :: "nat \<times> string \<Rightarrow> string" where
  "escape_rune = (\<lambda>(r, b).
     if r = 34 \<or> r = 92 then char_of (92::nat) # b
     else if r = 8 then char_of (92::nat) # ''b''
     else if r = 12 then char_of (92::nat) # ''f''
     else if r = 10 then char_of (92::nat) # ''n''
     else if r = 13 then char_of (92::nat) # ''r''
     else if r = 9 then char_of (92::nat) # ''t''
     else if r < 32 \<or> r = 38 \<or> r = 60 \<or> r = 62 \<or> r = 8232 \<or> r = 8233 then u_escape r
     else if r = rune_error \<and> length b = 1 then u_escape rune_error
     else b)"

definition quote :: "string \<Rightarrow> string" where
  "quote s = CHR 0x22 # concat (map escape_rune (runes s)) @ [CHR 0x22]"

fun join :: "string \<Rightarrow> string list \<Rightarrow> string" where
  "join sep [] = []"
| "join sep [s] = s"
| "join sep (s # ss) = s @ sep @ join sep ss"

primrec marshal :: "json \<Rightarrow> string" where
  "marshal JNull = ''null''"
| "marshal (JBool b) = (if b then ''true'' else ''false'')"
| "marshal (JNum n) = n"
| "marshal (JString s) = quote s"
| "marshal (JArr js) = ''['' @ join '','' (map marshal js) @ '']''"
| "marshal (JObj kvs) =
     ''{'' @ join '','' (map (\<lambda>(k, s). quote k @ '':'' @ s) (map (map_prod id marshal) kvs)) @ ''}''"

section \<open>The canonical form\<close>

definition valid_utf8 :: "string \<Rightarrow> string" where
  "valid_utf8 s = concat (map (\<lambda>(r, b). if r = rune_error \<and> length b = 1
     then [CHR 0xEF, CHR 0xBF, CHR 0xBD] else b) (runes s))"

fun obj_put :: "string \<Rightarrow> 'v \<Rightarrow> (string \<times> 'v) list \<Rightarrow> (string \<times> 'v) list" where
  "obj_put k v [] = [(k, v)]"
| "obj_put k v ((k1, v1) # m) =
     (if k = k1 then (k, v) # m
      else if string_less k k1 then (k, v) # (k1, v1) # m
      else (k1, v1) # obj_put k v m)"

definition obj_of :: "(string \<times> 'v) list \<Rightarrow> (string \<times> 'v) list" where
  "obj_of kvs = fold (\<lambda>(k, v). obj_put k v) kvs []"

primrec canonical :: "json \<Rightarrow> json" where
  "canonical JNull = JNull"
| "canonical (JBool b) = JBool b"
| "canonical (JNum n) = JNum n"
| "canonical (JString s) = JString (valid_utf8 s)"
| "canonical (JArr js) = JArr (map canonical js)"
| "canonical (JObj kvs) = JObj (obj_of (map (map_prod valid_utf8 canonical) kvs))"

section \<open>Hashing\<close>

definition hex_encode :: "string \<Rightarrow> string" where
  "hex_encode s = concat (map (\<lambda>c. [nibble (of_char c div 16), nibble (of_char c mod 16)]) s)"

definition HashValue :: "(string \<Rightarrow> string) \<Rightarrow> json \<Rightarrow> string" where
  "HashValue sha256 value = hex_encode (sha256 (marshal (canonical value)))"

definition sha256_size :: nat where "sha256_size = 32"

section \<open>Lemmas\<close>

lemma obj_put_commute:
  "k \<noteq> k' \<Longrightarrow> obj_put k v (obj_put k' v' m) = obj_put k' v' (obj_put k v m)"
proof (induction m)
  case Nil
  then show ?case using string_less_total [of k k'] string_less_asym [of k k'] by auto
next
  case (Cons kv m)
  obtain k1 v1 where "kv = (k1, v1)" by force
  then show ?case
    using Cons string_less_total [of k k'] string_less_asym [of k k'] string_less_asym [of k1 k]
      string_less_asym [of k1 k'] string_less_total [of k k1] string_less_total [of k' k1]
      string_less_trans [of k k1 k'] string_less_trans [of k' k1 k]
    by auto
qed

lemma fold_obj_put_mset:
  assumes "distinct (map fst kvs)" "mset kvs = mset kvs'"
  shows "fold (\<lambda>(k, v). obj_put k v) kvs m = fold (\<lambda>(k, v). obj_put k v) kvs' m"
proof -
  have "fold (\<lambda>(k, v). obj_put k v) kvs = fold (\<lambda>(k, v). obj_put k v) kvs'"
  proof (rule fold_multiset_equiv)
    fix x y
    assume "x \<in> set kvs" "y \<in> set kvs"
    then show "(case x of (k, v) \<Rightarrow> obj_put k v) \<circ> (case y of (k, v) \<Rightarrow> obj_put k v)
        = (case y of (k, v) \<Rightarrow> obj_put k v) \<circ> (case x of (k, v) \<Rightarrow> obj_put k v)"
      using assms(1) obj_put_commute
      by (cases "fst x = fst y") (auto simp: fun_eq_iff split: prod.splits dest: eq_key_imp_eq_value)
  qed (fact assms(2))
  then show ?thesis by simp
qed

lemma obj_of_order:
  "distinct (map fst kvs) \<Longrightarrow> mset kvs = mset kvs' \<Longrightarrow> obj_of kvs = obj_of kvs'"
  unfolding obj_of_def by (rule fold_obj_put_mset)

lemma canonical_order:
  assumes "distinct (map (valid_utf8 \<circ> fst) kvs)" "mset kvs = mset kvs'"
  shows "canonical (JObj kvs) = canonical (JObj kvs')"
proof -
  have "distinct (map fst (map (map_prod valid_utf8 canonical) kvs))"
    using assms(1) by (simp add: comp_def)
  moreover have "mset (map (map_prod valid_utf8 canonical) kvs)
      = mset (map (map_prod valid_utf8 canonical) kvs')"
    using assms(2) by simp
  ultimately show ?thesis by (simp add: obj_of_order)
qed

lemma hex_digit_nibble: "n < 16 \<Longrightarrow> hex_digit (nibble n) \<and> lower_byte (nibble n) = nibble n"
  by (auto simp: hex_digit_def nibble_def byte_in_def lower_byte_def of_char_of)

lemma hex_encode_Cons [simp]:
  "hex_encode (c # s) = nibble (of_char c div 16) # nibble (of_char c mod 16) # hex_encode s"
  by (simp add: hex_encode_def)

lemma hex_encode_Nil [simp]: "hex_encode [] = []"
  by (simp add: hex_encode_def)

lemma length_hex_encode [simp]: "length (hex_encode s) = 2 * length s"
  by (induction s) auto

lemma of_char_div16: "(of_char (c :: char) :: nat) div 16 < 16"
  by (rule less_mult_imp_div_less) simp

lemma hex_encode_digits: "list_all hex_digit (hex_encode s) \<and> ToLower (hex_encode s) = hex_encode s"
  by (induction s) (use hex_digit_nibble of_char_div16 in \<open>auto simp: ToLower_def\<close>)

lemma graphic_hex_digits: "list_all hex_digit s \<Longrightarrow> graphic s"
  by (induction s) (auto simp: graphic_def hex_digit_def byte_in_def)

lemma TrimSpace_hex [simp]: "TrimSpace (hex_encode s) = hex_encode s"
  using hex_encode_digits graphic_hex_digits by simp

text \<open>The hash is 64 lower-case hexadecimal digits.\<close>

lemma HashValue_form:
  assumes "\<And>s. length (sha256 s) = sha256_size"
  shows "length (HashValue sha256 v) = 64 \<and> hex_decodes (HashValue sha256 v)
    \<and> ToLower (HashValue sha256 v) = HashValue sha256 v"
  using assms hex_encode_digits by (simp add: HashValue_def hex_decodes_def sha256_size_def)

lemma HashValue_order:
  assumes "distinct (map (valid_utf8 \<circ> fst) kvs)" "mset kvs = mset kvs'"
  shows "HashValue sha256 (JObj kvs) = HashValue sha256 (JObj kvs')"
  using canonical_order [OF assms] by (simp only: HashValue_def)

end
