(* ===== verification/Pairing_Service.thy ===== *)
theory Pairing_Service
  imports Pairing Canonical_Json
begin

text \<open>
  The pairing service \<open>internal/pairing/service.go\<close> over a repository, and the proof that the
  PostgreSQL repository keeps the pairing invariant. The service is verified once against the
  contract \<open>pairing_repository\<close>, which the PostgreSQL operations satisfy. The step relation
  \<open>pairing_step\<close> runs the service operations in any order with any faults; every row of
  \<open>pairing_sessions\<close> follows the protocol state machine \<open>NextPairingState\<close>.
\<close>

section \<open>The service\<close>

definition SessionTTL :: duration where "SessionTTL = 2 * Minute"

record 's Repository =
  repo_create :: "CreateMutation \<Rightarrow> ('s, pairing_error, Session \<times> bool) tx"
  repo_confirm :: "ConfirmMutation \<Rightarrow> ('s, pairing_error, ConfirmationOutcome) tx"
  repo_reject :: "RejectMutation \<Rightarrow> ('s, pairing_error, Session \<times> bool) tx"
  repo_list :: "Participant \<Rightarrow> ('s, pairing_error, RecipientDescriptor list) tx"
  repo_revoke :: "Participant \<Rightarrow> string \<Rightarrow> time \<Rightarrow> ('s, pairing_error, unit) tx"

definition normalizeParticipant :: "Participant \<Rightarrow> Participant" where
  "normalizeParticipant p = p\<lparr>UserID := TrimSpace (UserID p), DeviceID := TrimSpace (DeviceID p)\<rparr>"

definition validateIdempotencyKey :: "string \<Rightarrow> string option" where
  "validateIdempotencyKey value =
     (let v = TrimSpace value
      in if length v < 8 \<or> length v > 128 then Some ''idempotency key must be 8..128 bytes'' else None)"

text \<open>\<open>randomOpaque\<close> draws from the operating system: a draw is a string, or an error (\<open>None\<close>).\<close>

definition random_draw :: "string option \<Rightarrow> ('s, 'e, string) tx" where
  "random_draw r = (case r of None \<Rightarrow> tx_fail (Invalid ''random source failed'') | Some s \<Rightarrow> tx_return s)"

definition check_key :: "string \<Rightarrow> ('s, 'e, unit) tx" where
  "check_key key = (case validateIdempotencyKey key of Some m \<Rightarrow> tx_fail (Invalid m) | None \<Rightarrow> tx_return ())"

definition ListRecipients :: "'s Repository \<Rightarrow> Participant \<Rightarrow> ('s, pairing_error, RecipientDescriptor list) tx" where
  "ListRecipients repo participant0 =
     (let participant = normalizeParticipant participant0
      in if UserID participant = [] \<or> DeviceID participant = [] then tx_fail (App ErrUnauthorized)
         else repo_list repo participant)"

definition Revoke :: "'s Repository \<Rightarrow> time \<Rightarrow> Participant \<Rightarrow> string \<Rightarrow> ('s, pairing_error, unit) tx" where
  "Revoke repo now participant0 relationshipID0 =
     (let participant = normalizeParticipant participant0; relationshipID = TrimSpace relationshipID0
      in if UserID participant = [] \<or> DeviceID participant = [] \<or> relationshipID = []
         then tx_fail (App ErrUnauthorized)
         else repo_revoke repo participant relationshipID now)"

definition Create ::
    "(string \<Rightarrow> string) \<Rightarrow> 's Repository \<Rightarrow> time \<Rightarrow> string option \<times> string option \<times> string option
      \<Rightarrow> Participant \<Rightarrow> string \<Rightarrow> string \<Rightarrow> string \<Rightarrow> ('s, pairing_error, Session \<times> bool) tx" where
  "Create sha256 repo now draws initiator0 candidate0 proximity0 idempotencyKey =
     (let initiator = normalizeParticipant initiator0;
          candidateDeviceID = TrimSpace candidate0;
          proximityEvidenceID = TrimSpace proximity0
      in
      if UserID initiator = [] \<or> DeviceID initiator = [] \<or> candidateDeviceID = []
         \<or> candidateDeviceID = DeviceID initiator \<or> length candidateDeviceID > 128
         \<or> proximityEvidenceID = [] \<or> length proximityEvidenceID > 256
      then tx_fail (App ErrUnauthorized)
      else
      tx_bind (check_key idempotencyKey) (\<lambda>_.
      tx_bind (random_draw (fst draws)) (\<lambda>sessionID.
      tx_bind (random_draw (fst (snd draws))) (\<lambda>initiatorNonce.
      tx_bind (random_draw (snd (snd draws))) (\<lambda>peerNonce.
      let requestHash = HashValue sha256 (JObj
            [(''initiator_device_id'', JString (DeviceID initiator)),
             (''candidate_device_id'', JString candidateDeviceID),
             (''proximity_evidence_id'', JString proximityEvidenceID)])
      in repo_create repo
           \<lparr>cm_Session =
              \<lparr>ss_ID = sessionID, Initiator = initiator,
               Peer = \<lparr>UserID = [], DeviceID = candidateDeviceID\<rparr>,
               ProximityEvidenceID = proximityEvidenceID,
               InitiatorNonce = initiatorNonce, PeerNonce = peerNonce,
               InitiatorConfirmedAt = None, PeerConfirmedAt = None,
               ss_ExpiresAt = Add now SessionTTL, ss_RelationshipID = [], ss_State = SPending\<rparr>,
            cm_IdempotencyKey = TrimSpace idempotencyKey, cm_RequestHash = requestHash\<rparr>)))))"

text \<open>\<open>Confirm\<close> and \<open>Reject\<close> return the outcome together with \<open>ErrSessionExpired\<close> for an expired session.\<close>

definition expired_error :: "Session \<Rightarrow> pairing_error option" where
  "expired_error s = (if ss_State s = SExpired then Some ErrSessionExpired else None)"

definition Confirm ::
    "(string \<Rightarrow> string) \<Rightarrow> 's Repository \<Rightarrow> time \<Rightarrow> string option \<Rightarrow> Participant \<Rightarrow> string \<Rightarrow> string
      \<Rightarrow> string \<Rightarrow> ('s, pairing_error, ConfirmationOutcome \<times> pairing_error option) tx" where
  "Confirm sha256 repo now draw participant0 sessionID0 nonce0 idempotencyKey =
     (let participant = normalizeParticipant participant0;
          sessionID = TrimSpace sessionID0; nonce = TrimSpace nonce0
      in
      if UserID participant = [] \<or> DeviceID participant = [] \<or> sessionID = [] \<or> nonce = []
      then tx_fail (App ErrInvalidConfirmation)
      else
      tx_bind (check_key idempotencyKey) (\<lambda>_.
      let requestHash = HashValue sha256 (JObj
            [(''session_id'', JString sessionID), (''device_id'', JString (DeviceID participant)),
             (''confirmation_nonce'', JString nonce)])
      in
      tx_bind (random_draw draw) (\<lambda>relationshipID.
      tx_bind (repo_confirm repo
           \<lparr>fm_SessionID = sessionID, fm_Participant = participant, fm_Nonce = nonce,
            fm_ConfirmedAt = now, fm_IdempotencyKey = TrimSpace idempotencyKey,
            fm_RequestHash = requestHash, fm_RelationshipID = relationshipID\<rparr>) (\<lambda>out.
      tx_return (out, expired_error (co_Session out))))))"

definition Reject ::
    "(string \<Rightarrow> string) \<Rightarrow> 's Repository \<Rightarrow> time \<Rightarrow> Participant \<Rightarrow> string \<Rightarrow> string \<Rightarrow> string
      \<Rightarrow> ('s, pairing_error, Session \<times> bool \<times> pairing_error option) tx" where
  "Reject sha256 repo now participant0 sessionID0 reason0 idempotencyKey =
     (let participant = normalizeParticipant participant0;
          sessionID = TrimSpace sessionID0; reason = TrimSpace reason0
      in
      if UserID participant = [] \<or> DeviceID participant = [] \<or> sessionID = []
         \<or> reason \<noteq> ''user_declined''
      then tx_fail (App ErrUnauthorized)
      else
      tx_bind (check_key idempotencyKey) (\<lambda>_.
      let requestHash = HashValue sha256 (JObj
            [(''session_id'', JString sessionID), (''device_id'', JString (DeviceID participant)),
             (''reason'', JString reason)])
      in
      tx_bind (repo_reject repo
           \<lparr>rm_SessionID = sessionID, rm_Participant = participant, rm_RejectedAt = now,
            rm_IdempotencyKey = TrimSpace idempotencyKey, rm_RequestHash = requestHash\<rparr>) (\<lambda>(s, replayed).
      tx_return (s, replayed, expired_error s))))"

section \<open>The contract of a repository\<close>

lemma readonly_random_draw [intro]: "readonly (random_draw r)"
  by (auto simp: random_draw_def split: option.splits)

lemma readonly_check_key [intro]: "readonly (check_key k)"
  by (auto simp: check_key_def split: option.splits)

text \<open>
  What a repository promises: each of its operations, successful or not, changes a state that
  satisfies \<open>inv\<close> as \<open>delta\<close> allows. The service adds no writes of its own.
\<close>

locale pairing_repository =
  fixes repo :: "'s Repository" and inv :: "'s \<Rightarrow> bool" and delta :: "'s \<Rightarrow> 's \<Rightarrow> bool"
  assumes delta_refl: "inv t \<Longrightarrow> delta t t"
    and create_changes: "changes inv delta (repo_create repo m)"
    and confirm_changes: "changes inv delta (repo_confirm repo fm)"
    and reject_changes: "changes inv delta (repo_reject repo rm)"
    and list_readonly: "readonly (repo_list repo p)"
    and revoke_changes: "changes inv delta (repo_revoke repo p i now)"
begin

lemma Create_changes: "changes inv delta (Create sha256 repo now draws p c e k)"
  unfolding Create_def Let_def
  by (auto intro!: changes_bind_last create_changes intro: changes_readonly delta_refl)

lemma Confirm_changes: "changes inv delta (Confirm sha256 repo now draw p s n k)"
  unfolding Confirm_def Let_def
  by (auto intro!: changes_bind_last [OF readonly_check_key] changes_bind_last [OF readonly_random_draw]
      changes_bind_first [OF confirm_changes] intro: changes_readonly delta_refl)

lemma Reject_changes: "changes inv delta (Reject sha256 repo now p s r k)"
  unfolding Reject_def Let_def
  by (auto intro!: changes_bind_last [OF readonly_check_key] changes_bind_first [OF reject_changes]
      intro: changes_readonly delta_refl)

lemma Revoke_changes: "changes inv delta (Revoke repo now p i)"
  unfolding Revoke_def Let_def by (auto intro!: revoke_changes intro: changes_readonly delta_refl)

lemma ListRecipients_readonly: "readonly (ListRecipients repo p)"
  unfolding ListRecipients_def Let_def by (auto intro!: list_readonly)

end

section \<open>The PostgreSQL repository\<close>

definition pg_repository :: "pg_env \<Rightarrow> store Repository" where
  "pg_repository env =
     \<lparr>repo_create = (\<lambda>m. CreatePairingSession m (go_now env)),
      repo_confirm = ConfirmPairingSession env,
      repo_reject = (\<lambda>m. RejectPairingSession m (go_now env)),
      repo_list = ListAuthorizedRecipients, repo_revoke = RevokeRelationship\<rparr>"

lemma pairing_inv_insert_session:
  assumes "pairing_inv t" "insert_session s t = Some ((), t')"
  shows "pairing_inv t'"
proof -
  from assms(2) have t': "pairing_sessions t' = pairing_sessions t @
        [s\<lparr>ss_ExpiresAt := pg_ts (ss_ExpiresAt s), InitiatorConfirmedAt := None,
           PeerConfirmedAt := None, ss_RelationshipID := [], ss_State := SPending\<rparr>]"
      and same: "device_relationships t' = device_relationships t" "outbox t' = outbox t"
      and new: "ss_ID s \<notin> ss_ID ` set (pairing_sessions t)" "DeviceID (Initiator s) \<noteq> DeviceID (Peer s)"
    by (auto simp: insert_session_def split: if_splits)
  show ?thesis using assms(1) new unfolding pairing_inv_def t' same
    by (auto simp: unique_key_append session_ok_def both_confirmed_def relationship_ok_def list_all_iff)
qed

lemma create_body_keeps: "keeps pairing_inv (create_body m)"
proof (rule keepsI)
  fix d x d'
  assume "create_body m d = (Inr x, d')" "pairing_inv (tables d)"
  then show "pairing_inv (tables d')"
    by (auto simp: create_body_def Let_def tx_Inr split: option.splits if_splits
        dest: pairing_inv_insert_session)
qed

lemma reject_body_keeps: "keeps pairing_inv (reject_body m)"
proof (rule keepsI)
  fix d x d'
  assume run: "reject_body m d = (Inr x, d')" and inv: "pairing_inv (tables d)"
  from run show "pairing_inv (tables d')"
  proof (cases rule: reject_body_Inr)
    case (closes s st)
    then show ?thesis using find_session_SomeD [OF closes(1)] unfolding closes(6)
      by (intro pairing_inv_close [OF inv]) auto
  qed (use inv in simp)
qed

lemma confirm_side_simps [simp]:
  "ss_ID (confirm_side b c x) = ss_ID x" "ss_State (confirm_side b c x) = ss_State x"
  "Initiator (confirm_side b c x) = Initiator x" "Peer (confirm_side b c x) = Peer x"
  "both_confirmed (confirm_side b c x) \<longleftrightarrow> (if b then PeerConfirmedAt x else InitiatorConfirmedAt x) \<noteq> None"
  by (auto simp: confirm_side_def both_confirmed_def)

lemma confirm_body_keeps: "keeps pairing_inv (confirm_body env m)"
proof (rule keepsI)
  fix d x d'
  assume run: "confirm_body env m d = (Inr x, d')" and inv: "pairing_inv (tables d)"
  from run show "pairing_inv (tables d')"
  proof (cases rule: confirm_body_Inr)
    case (expires s)
    then show ?thesis using find_session_SomeD [OF expires(1)] unfolding expires(6)
      by (intro pairing_inv_close [OF inv]) auto
  next
    case (first s b)
    then show ?thesis using find_session_SomeD [OF first(1)] unfolding first(9)
      by (intro pairing_inv_confirm [OF inv]) auto
  next
    case (second s b d2)
    then show ?thesis using inv find_session_SomeD [OF second(1)]
      by (intro pairing_inv_complete [OF inv _ _ _ _ _ _ _ _ _ second(8,9)]) auto
  qed (use inv in simp)
qed

lemma session_ok_update_where:
  assumes "session_ok rels s"
    and "\<And>r. rel_ID (g r) = rel_ID r \<and> DeviceAID (g r) = DeviceAID r \<and> DeviceBID (g r) = DeviceBID r"
  shows "session_ok (update_where P g rels) s"
proof -
  have "\<exists>r \<in> set (update_where P g rels). rel_ID r = i \<and> (DeviceAID r, DeviceBID r) = p"
    if "r \<in> set rels" "rel_ID r = i" "(DeviceAID r, DeviceBID r) = p" for r i p
    using that assms(2) by (intro bexI [where x = "if P r then g r else r"]) (auto simp: update_where_def)
  with assms(1) show ?thesis unfolding session_ok_def by blast
qed

lemma pairing_inv_revoke:
  assumes inv: "pairing_inv t"
  shows "pairing_inv (revoke_rows p i now t)"
proof -
  let ?P = "revocable p i" and ?g = "\<lambda>r. r\<lparr>RevokedAt := Some (pg_ts now)\<rparr>"
  let ?rels = "update_where ?P ?g (device_relationships t)"
  have "list_all (session_ok ?rels) (pairing_sessions t)"
    using inv by (auto simp: pairing_inv_def list_all_iff intro: session_ok_update_where)
  moreover have "list_all (relationship_ok (pairing_sessions t)) ?rels"
    using inv by (auto simp: pairing_inv_def relationship_ok_def founded_by_def list_all_iff update_where_def)
  moreover have "active_unique ?rels"
    using inv unfolding pairing_inv_def active_unique_def update_where_def by fastforce
  ultimately show ?thesis
    using inv by (simp add: revoke_rows_def pairing_inv_def table_simps)
qed

section \<open>Sessions follow the protocol\<close>

text \<open>The protocol state a row of \<open>pairing_sessions\<close> stands for.\<close>

definition pairing_phase :: "Session \<Rightarrow> PairingState" where
  "pairing_phase s =
     (case ss_State s of
        SPending \<Rightarrow> if InitiatorConfirmedAt s \<noteq> None then PairingInitiatorConfirmed
                    else if PeerConfirmedAt s \<noteq> None then PairingPeerConfirmed
                    else PairingAwaitingConfirmation
      | SPaired \<Rightarrow> PairingSucceededState
      | SCancelled \<Rightarrow> PairingRejectedState
      | SExpired \<Rightarrow> PairingExpiredState)"

text \<open>
  A row keeps its identity, participants, nonces and deadline; it is unchanged or takes one step of
  the protocol.
\<close>

definition session_step :: "Session \<Rightarrow> Session \<Rightarrow> bool" where
  "session_step s s' \<longleftrightarrow>
     s' = s \<or>
     (ss_ID s' = ss_ID s \<and> Initiator s' = Initiator s \<and> Peer s' = Peer s
      \<and> InitiatorNonce s' = InitiatorNonce s \<and> PeerNonce s' = PeerNonce s
      \<and> ss_ExpiresAt s' = ss_ExpiresAt s
      \<and> (\<exists>ev. NextPairingState (pairing_phase s) ev = Inr (pairing_phase s')))"

definition sessions_evolve :: "Session list \<Rightarrow> Session list \<Rightarrow> bool" where
  "sessions_evolve ss ss' \<longleftrightarrow>
     (\<forall>s \<in> set ss. \<exists>s' \<in> set ss'. session_step s s')
     \<and> (\<forall>s' \<in> set ss'. (\<exists>s \<in> set ss. session_step s s') \<or> pairing_phase s' = PairingAwaitingConfirmation)"

definition pairing_delta :: "store \<Rightarrow> store \<Rightarrow> bool" where
  "pairing_delta t t' \<longleftrightarrow> pairing_inv t'
     \<and> sessions_evolve (pairing_sessions t) (pairing_sessions t') \<and> ledger_extends t t'"

lemma session_step_refl [simp]: "session_step s s"
  by (simp add: session_step_def)

lemma sessions_evolve_refl [simp]: "sessions_evolve ss ss"
  unfolding sessions_evolve_def using session_step_refl by blast

lemma sessions_evolve_replace:
  assumes "unique_key ss_ID ss" "s \<in> set ss" "session_step s (g s)"
  shows "sessions_evolve ss (update_where (\<lambda>x. ss_ID x = ss_ID s) g ss)"
proof -
  have "\<exists>x' \<in> insert (g s) (set ss - {s}). session_step x x'" if "x \<in> set ss" for x
    using that assms(3) by (cases "x = s") (auto intro: bexI [where x = x])
  moreover have "\<exists>x \<in> set ss. session_step x x'" if "x' \<in> insert (g s) (set ss - {s})" for x'
    using that assms(2,3) by (cases "x' = g s") (auto intro: bexI [where x = x'])
  ultimately show ?thesis
    unfolding sessions_evolve_def set_update_by_key [OF assms(1,2)] by simp
qed

lemma session_stepI:
  assumes "NextPairingState (pairing_phase s) ev = Inr (pairing_phase s')"
    and "ss_ID s' = ss_ID s" "Initiator s' = Initiator s" "Peer s' = Peer s"
      "InitiatorNonce s' = InitiatorNonce s" "PeerNonce s' = PeerNonce s" "ss_ExpiresAt s' = ss_ExpiresAt s"
  shows "session_step s s'"
  using assms unfolding session_step_def by blast

lemma session_step_close:
  assumes "ss_State s = SPending" "st = SExpired \<or> st = SCancelled"
  shows "session_step s (s\<lparr>ss_State := st\<rparr>)"
  by (rule session_stepI [where ev = "if st = SExpired then PairingExpireEvent else PairingRejectEvent"])
    (use assms in \<open>auto simp: pairing_phase_def NextPairingState_def\<close>)

definition confirm_event :: "bool \<Rightarrow> PairingEvent" where
  "confirm_event b = (if b then PairingConfirmInitiatorEvent else PairingConfirmPeerEvent)"

lemma session_step_first:
  assumes "ss_State s = SPending" "\<not> both_confirmed (confirm_side b c s)"
    "(if b then InitiatorConfirmedAt s else PeerConfirmedAt s) = None"
  shows "session_step s (confirm_side b c s)"
  by (rule session_stepI [where ev = "confirm_event b"])
    (use assms in \<open>auto simp: pairing_phase_def NextPairingState_def confirm_side_def both_confirmed_def
      confirm_event_def split: if_splits\<close>)

lemma session_step_second:
  assumes "ss_State s = SPending" "both_confirmed (confirm_side b c s)"
    "(if b then InitiatorConfirmedAt s else PeerConfirmedAt s) = None"
  shows "session_step s (paired i (confirm_side b c s))"
  by (rule session_stepI [where ev = "confirm_event b"])
    (use assms in \<open>auto simp: pairing_phase_def NextPairingState_def confirm_side_def both_confirmed_def
      confirm_event_def paired_def split: if_splits\<close>)

section \<open>The repository satisfies the contract\<close>

lemma complete_pairing_sessions:
  "complete_pairing env i s d = (Inr c, d') \<Longrightarrow> \<exists>j. pairing_sessions (tables d')
     = update_where (\<lambda>x. ss_ID x = ss_ID s) (paired j) (pairing_sessions (tables d))
     \<and> idempotency_records (tables d') = idempotency_records (tables d)"
  by (erule complete_pairing_Inr) auto

lemma sessions_evolve_found:
  assumes "find_session i t = Some s" "pairing_inv t" "session_step s (g s)"
  shows "sessions_evolve (pairing_sessions t) (update_where (\<lambda>x. ss_ID x = ss_ID s) g (pairing_sessions t))"
  using assms find_session_SomeD [OF assms(1)]
  by (intro sessions_evolve_replace) (simp_all add: pairing_inv_def)

lemma reject_body_evolves:
  assumes run: "reject_body m d = (Inr x, d')" and inv: "pairing_inv (tables d)"
  shows "sessions_evolve (pairing_sessions (tables d)) (pairing_sessions (tables d'))"
  using run
proof (cases rule: reject_body_Inr)
  case (closes s st)
  have "session_step s (s\<lparr>ss_State := st\<rparr>)" using closes(3,4) by (intro session_step_close) auto
  from sessions_evolve_found [OF closes(1) inv, of "\<lambda>x. x\<lparr>ss_State := st\<rparr>", OF this]
  show ?thesis by (simp only: closes(6) update_session_simps)
qed simp

lemma confirm_body_evolves:
  assumes run: "confirm_body env m d = (Inr x, d')" and inv: "pairing_inv (tables d)"
  shows "sessions_evolve (pairing_sessions (tables d)) (pairing_sessions (tables d'))"
  using run
proof (cases rule: confirm_body_Inr)
  case (expires s)
  have "session_step s (s\<lparr>ss_State := SExpired\<rparr>)" using expires(3) by (intro session_step_close) auto
  from sessions_evolve_found [OF expires(1) inv, of "\<lambda>x. x\<lparr>ss_State := SExpired\<rparr>", OF this]
  show ?thesis by (simp only: expires(6) update_session_simps)
next
  case (first s b)
  have "session_step s (confirm_side b (pg_ts (fm_ConfirmedAt m)) s)"
    using first by (intro session_step_first) auto
  from sessions_evolve_found
    [OF first(1) inv, of "confirm_side b (pg_ts (fm_ConfirmedAt m))", OF this]
  show ?thesis by (simp only: first(9) update_session_simps)
next
  case (second s b d2)
  from complete_pairing_sessions [OF second(9)] obtain j where
    j: "pairing_sessions (tables d') = update_where (\<lambda>x. ss_ID x = ss_ID s)
       (paired j \<circ> confirm_side b (pg_ts (fm_ConfirmedAt m))) (pairing_sessions (tables d))"
    by (auto simp: second(8) update_where_twice)
  have "session_step s ((paired j \<circ> confirm_side b (pg_ts (fm_ConfirmedAt m))) s)"
    using second by (simp add: session_step_second)
  from sessions_evolve_found
    [OF second(1) inv, of "paired j \<circ> confirm_side b (pg_ts (fm_ConfirmedAt m))", OF this] show ?thesis by (simp only: j)
qed simp

text \<open>The bodies leave the ledger to the runner.\<close>

interpretation create_op: idempotent_op "create_body m"
  by unfold_locales
    (auto simp: create_body_def Let_def tx_Inr insert_session_def split: option.splits if_splits)

interpretation reject_op: idempotent_op "reject_body m"
  by unfold_locales (erule reject_body_Inr; simp)

interpretation confirm_op: idempotent_op "confirm_body env m"
  by unfold_locales (erule confirm_body_Inr; auto dest: complete_pairing_sessions)

lemma pairing_delta_insert_record:
  assumes "pairing_inv t'" "sessions_evolve (pairing_sessions t) (pairing_sessions t')"
    "idempotency_records t' = idempotency_records t" "insert_record rec t' = Some ((), t'')"
  shows "pairing_delta t t''"
  using assms pairing_inv_insert_record [OF assms(4)]
  by (auto simp: pairing_delta_def ledger_extends_def insert_record_def split: if_splits)

lemma pairing_delta_refl: "pairing_inv t \<Longrightarrow> pairing_delta t t"
  by (simp add: pairing_delta_def)

lemma sessions_evolve_snoc:
  "pairing_phase s = PairingAwaitingConfirmation \<Longrightarrow> sessions_evolve ss (ss @ [s])"
  unfolding sessions_evolve_def using session_step_refl by fastforce

lemma create_body_evolves:
  "create_body m d = (Inr x, d') \<Longrightarrow>
     sessions_evolve (pairing_sessions (tables d)) (pairing_sessions (tables d'))"
  by (auto simp: create_body_def Let_def tx_Inr insert_session_def pairing_phase_def
      split: option.splits if_splits intro: sessions_evolve_snoc)

lemma CreatePairingSession_changes: "changes pairing_inv pairing_delta (CreatePairingSession m c)"
  unfolding CreatePairingSession_def
proof (intro changes_bind_first RunIdempotent_changes pairing_delta_refl)
  fix d :: "store db" and v d' rec t'
  assume *: "create_body m d = (Inr v, d')" "pairing_inv (tables d)"
    "insert_record rec (tables d') = Some ((), t')"
  then show "pairing_delta (tables d) t'"
    by (metis pairing_delta_insert_record keepsD create_body_keeps create_body_evolves
        create_op.ledger_frame)
qed (auto split: mutation_outcome.splits)

lemma ConfirmPairingSession_changes: "changes pairing_inv pairing_delta (ConfirmPairingSession env m)"
  unfolding ConfirmPairingSession_def
proof (intro changes_bind_first RunIdempotent_changes pairing_delta_refl)
  fix d :: "store db" and v d' rec t'
  assume *: "confirm_body env m d = (Inr v, d')" "pairing_inv (tables d)"
    "insert_record rec (tables d') = Some ((), t')"
  then show "pairing_delta (tables d) t'"
    by (metis pairing_delta_insert_record keepsD confirm_body_keeps confirm_body_evolves
        confirm_op.ledger_frame)
qed (auto split: mutation_outcome.splits)

lemma RejectPairingSession_changes: "changes pairing_inv pairing_delta (RejectPairingSession m c)"
  unfolding RejectPairingSession_def
proof (intro changes_bind_first RunIdempotent_changes pairing_delta_refl)
  fix d :: "store db" and v d' rec t'
  assume *: "reject_body m d = (Inr v, d')" "pairing_inv (tables d)"
    "insert_record rec (tables d') = Some ((), t')"
  then show "pairing_delta (tables d) t'"
    by (metis pairing_delta_insert_record keepsD reject_body_keeps reject_body_evolves
        reject_op.ledger_frame)
qed (auto split: mutation_outcome.splits)

lemma RevokeRelationship_changes: "changes pairing_inv pairing_delta (RevokeRelationship p i now)"
  unfolding RevokeRelationship_def
proof (intro changes_bind_first changes_stmt pairing_delta_refl)
  fix t :: store and x t'
  assume "pairing_inv t" "Some (rows_affected (revocable p i) (device_relationships t),
      revoke_rows p i now t) = Some (x, t')"
  then show "pairing_delta t t'"
    using pairing_inv_revoke [of t p i now]
    by (auto simp: pairing_delta_def ledger_extends_def revoke_rows_def)
qed auto

interpretation pgp: pairing_repository "pg_repository env" pairing_inv pairing_delta
  by unfold_locales
    (auto simp: pg_repository_def ListAuthorizedRecipients_def intro: pairing_delta_refl
      CreatePairingSession_changes ConfirmPairingSession_changes RejectPairingSession_changes
      RevokeRelationship_changes)

lemma ConfirmPairingSession_Inr:
  assumes "ConfirmPairingSession env m d = (Inr out, d')"
  obtains res c where "RunIdempotent (confirm_request m) (OConfirm \<circ> json_confirmation) (go_now env)
      (confirm_body env m) d = (Inr res, d')" "outcome res = OConfirm c" "out = c\<lparr>co_Replayed := Replayed res\<rparr>"
proof -
  from assms obtain res d1 where run: "RunIdempotent (confirm_request m) (OConfirm \<circ> json_confirmation)
      (go_now env) (confirm_body env m) d = (Inr res, d1)"
      and rest: "(case outcome res of OConfirm c \<Rightarrow> tx_return (c\<lparr>co_Replayed := Replayed res\<rparr>)
        | _ \<Rightarrow> tx_fail (Invalid ''decode pairing confirmation outcome'')) d1
          = (Inr out :: pairing_error failure + ConfirmationOutcome, d')"
    unfolding ConfirmPairingSession_def tx_bind_Inr by (elim exE conjE) (rule that; assumption)
  from rest show thesis
    by (cases "outcome res") (use run that in \<open>auto simp: tx_Inr\<close>)
qed

section \<open>Runs of the service\<close>

text \<open>
  One step: a call of the service against the PostgreSQL repository, with any arguments, draws,
  clocks and faults and whether it succeeds or fails; or any activity of the rest of the program,
  which leaves the sessions, the relationships and their creation events alone and only adds to
  the ledger.
\<close>

inductive pairing_step :: "(string \<Rightarrow> string) \<Rightarrow> store \<Rightarrow> store \<Rightarrow> bool" for sha256 where
  create: "Create sha256 (pg_repository env) now draws p c e k d = (res, d') \<Longrightarrow>
             pairing_step sha256 (tables d) (tables d')"
| confirm: "Confirm sha256 (pg_repository env) now draw p s n k d = (res, d') \<Longrightarrow>
             pairing_step sha256 (tables d) (tables d')"
| reject: "Reject sha256 (pg_repository env) now p s r k d = (res, d') \<Longrightarrow>
             pairing_step sha256 (tables d) (tables d')"
| revoke: "Revoke (pg_repository env) now p i d = (res, d') \<Longrightarrow> pairing_step sha256 (tables d) (tables d')"
| other: "pairing_sessions t' = pairing_sessions t \<Longrightarrow> device_relationships t' = device_relationships t \<Longrightarrow>
          created_events (outbox t') = created_events (outbox t) \<Longrightarrow> ledger_extends t t' \<Longrightarrow>
          pairing_step sha256 t t'"

inductive pairing_run :: "(string \<Rightarrow> string) \<Rightarrow> store \<Rightarrow> store \<Rightarrow> bool" for sha256 where
  start: "pairing_run sha256 t t"
| step: "pairing_run sha256 t u \<Longrightarrow> pairing_step sha256 u v \<Longrightarrow> pairing_run sha256 t v"

lemma pairing_step_delta:
  assumes "pairing_step sha256 t t'" "pairing_inv t"
  shows "pairing_delta t t'"
  using assms
proof (cases rule: pairing_step.cases)
  case other
  then have "pairing_inv t'" using assms(2) pairing_inv_cong by blast
  with other show ?thesis by (simp add: pairing_delta_def)
qed (use assms in \<open>auto intro: changesD [OF pgp.Create_changes] changesD [OF pgp.Confirm_changes]
      changesD [OF pgp.Reject_changes] changesD [OF pgp.Revoke_changes]\<close>)

lemma pairing_run_inv: "pairing_run sha256 t t' \<Longrightarrow> pairing_inv t \<Longrightarrow> pairing_inv t'"
  by (induction rule: pairing_run.induct) (auto dest: pairing_step_delta simp: pairing_delta_def)

lemma pairing_run_ledger: "pairing_run sha256 t t' \<Longrightarrow> pairing_inv t \<Longrightarrow> ledger_extends t t'"
proof (induction rule: pairing_run.induct)
  case (step t u v)
  then have "pairing_inv u" by (auto dest: pairing_run_inv)
  with step show ?case by (auto dest!: pairing_step_delta simp: pairing_delta_def intro: ledger_extends_trans)
qed simp

definition terminal :: "PairingState \<Rightarrow> bool" where
  "terminal p \<longleftrightarrow> p \<in> {PairingSucceededState, PairingRejectedState, PairingExpiredState}"

lemma session_step_fixed:
  "session_step s s' \<Longrightarrow> ss_ID s' = ss_ID s \<and> Initiator s' = Initiator s \<and> Peer s' = Peer s
     \<and> InitiatorNonce s' = InitiatorNonce s \<and> PeerNonce s' = PeerNonce s \<and> ss_ExpiresAt s' = ss_ExpiresAt s
     \<and> (s' = s \<or> (\<exists>ev. NextPairingState (pairing_phase s) ev = Inr (pairing_phase s')))"
  by (auto simp: session_step_def)

lemma session_step_terminal: "session_step s s' \<Longrightarrow> terminal (pairing_phase s) \<Longrightarrow> s' = s"
  by (auto simp: session_step_def terminal_def NextPairingState_def)

lemma pairing_run_terminal:
  assumes "pairing_run sha256 t t'" "pairing_inv t" "s \<in> set (pairing_sessions t)" "terminal (pairing_phase s)"
  shows "s \<in> set (pairing_sessions t')"
  using assms
proof (induction rule: pairing_run.induct)
  case (step t u v)
  then have "pairing_inv u" "s \<in> set (pairing_sessions u)" by (auto dest: pairing_run_inv)
  with step pairing_step_delta show ?case
    by (metis pairing_delta_def sessions_evolve_def session_step_terminal)
qed simp

end
