(* ===== verification/Pairing_Properties.thy ===== *)
theory Pairing_Properties
  imports Pairing_Service
begin

text \<open>
  The properties of device pairing, over every run of the service with any faults, and the
  scenario of two owners pairing their devices, on which they are exercised.
\<close>

section \<open>A complete run\<close>

text \<open>
  Two owners pair their devices: the scenario that shows the hypotheses of the properties hold,
  run through the service on a store with the two active credentials.
\<close>

definition sha_zero :: "string \<Rightarrow> string" where
  "sha_zero s = replicate 32 (CHR 0x00)"

definition demo_env :: pg_env where
  "demo_env = \<lparr>pg_less = string_less, gen_random_uuid = ''uuid-1'', gen_random_uuid2 = ''uuid-2'', tx_now = 5000, clock_timestamp = 6000,
     go_now = 5000\<rparr>"

definition demo_store :: store where
  "demo_store = empty_store\<lparr>device_credentials :=
     [\<lparr>cred_DeviceID = ''devA'', cred_UserID = ''anna'', cred_active = True\<rparr>,
      \<lparr>cred_DeviceID = ''devB'', cred_UserID = ''bert'', cred_active = True\<rparr>]\<rparr>"

definition demo_db :: "store db" where
  "demo_db = \<lparr>tables = demo_store, faults = []\<rparr>"

abbreviation anna :: Participant where "anna \<equiv> \<lparr>UserID = ''anna'', DeviceID = ''devA''\<rparr>"
abbreviation bert :: Participant where "bert \<equiv> \<lparr>UserID = ''bert'', DeviceID = ''devB''\<rparr>"

definition demo_created :: "(pairing_error failure + Session \<times> bool) \<times> store db" where
  "demo_created = Create sha_zero (pg_repository demo_env) 1000
     (Some ''session-1'', Some ''nonce-a'', Some ''nonce-b'') anna ''devB'' ''tap-1'' ''create-key'' demo_db"

definition demo_first where
  "demo_first = Confirm sha_zero (pg_repository demo_env) 2000 (Some ''rel-1'') anna ''session-1''
     ''nonce-a'' ''confirm-key-a'' (snd demo_created)"

definition demo_second where
  "demo_second = Confirm sha_zero (pg_repository demo_env) 3000 (Some ''rel-2'') bert ''session-1''
     ''nonce-b'' ''confirm-key-b'' (snd demo_first)"


definition demo_hash :: string where "demo_hash = replicate 64 (CHR ''0'')"

lemma hex_encode_replicate: "hex_encode (replicate n (CHR 0x00)) = replicate (2 * n) (CHR ''0'')"
  by (induction n) (simp_all add: nibble_def char_of_def bit_0)

lemma HashValue_zero [simp]: "HashValue sha_zero v = demo_hash"
  by (simp add: HashValue_def sha_zero_def hex_encode_replicate demo_hash_def)

lemma demo_hash_form [simp]: "hex_decodes demo_hash" "length demo_hash = 64" "ToLower demo_hash = demo_hash"
  by (simp_all add: demo_hash_def hex_decodes_def hex_digit_def byte_in_def list_all_iff ToLower_def lower_byte_def)

lemmas demo_eval = Let_def normalizeParticipant_def check_key_def
  validateIdempotencyKey_def random_draw_def graphic_def pg_repository_def demo_env_def
  request_trim_def Request_Validate_def sha256_hex_len_def RunIdempotent_fresh_ok
  find_record_def request_id_def pairingActor_def demo_db_def demo_store_def empty_store_def
  insert_record_def

definition demo_session :: Session where
  "demo_session = \<lparr>ss_ID = ''session-1'', Initiator = anna, Peer = bert, ProximityEvidenceID = ''tap-1'',
     InitiatorNonce = ''nonce-a'', PeerNonce = ''nonce-b'', InitiatorConfirmedAt = None,
     PeerConfirmedAt = None, ss_ExpiresAt = 120000001000, ss_RelationshipID = [], ss_State = SPending\<rparr>"

lemma demo_created_eval:
  "demo_created = (Inr (demo_session, False), \<lparr>tables = demo_store\<lparr>pairing_sessions := [demo_session],
     idempotency_records := [\<lparr>rec_id = (''anna:device:devA'', ''pairing.session.create'', ''create-key''),
       rec_hash = demo_hash, rec_outcome = OSession (json_session demo_session),
       rec_created_at = 5000\<rparr>]\<rparr>, faults = []\<rparr>)"
  unfolding demo_created_def Create_def 
  apply (simp add: demo_eval CreatePairingSession_def create_request_def create_body_def active_owner_def
      insert_session_def json_session_def find_session_def demo_session_def SessionTTL_def Minute_def
      Add_def pg_ts_def)
  done
definition demo_half :: Session where
  "demo_half = demo_session\<lparr>InitiatorConfirmedAt := Some 2000\<rparr>"

lemma demo_first_eval:
  "demo_first = (Inr (not_completed (json_session demo_half), None), \<lparr>tables = demo_store\<lparr>pairing_sessions := [demo_half],
     idempotency_records := [\<lparr>rec_id = (''anna:device:devA'', ''pairing.session.create'', ''create-key''),
       rec_hash = demo_hash, rec_outcome = OSession (json_session demo_session),
       rec_created_at = 5000\<rparr>, \<lparr>rec_id = (''anna:device:devA'', ''pairing.session.confirm'', ''confirm-key-a''),
       rec_hash = demo_hash, rec_outcome = OConfirm (not_completed (json_session demo_half)),
       rec_created_at = 5000\<rparr>]\<rparr>, faults = []\<rparr>)"
  unfolding demo_first_def Confirm_def demo_created_eval
  by (simp add: demo_eval ConfirmPairingSession_def confirm_request_def confirm_body_def
      load_session_def find_session_def json_session_def json_confirmation_def demo_session_def
      After_def confirm_side_def demo_half_def not_completed_def update_session_def update_where_def
      expired_error_def pg_ts_def)

definition demo_done :: Session where
  "demo_done = paired ''rel-2'' (demo_half\<lparr>PeerConfirmedAt := Some 3000\<rparr>)"

definition demo_relationship :: Relationship where
  "demo_relationship = \<lparr>rel_ID = ''rel-2'', DeviceAID = ''devA'', DeviceBID = ''devB'', UserAID = ''anna'',
     UserBID = ''bert'', rel_CreatedAt = 5000, RevokedAt = None\<rparr>"

definition demo_mutation :: ConfirmMutation where
  "demo_mutation = \<lparr>fm_SessionID = ''session-1'', fm_Participant = bert, fm_Nonce = ''nonce-b'',
     fm_ConfirmedAt = 3000, fm_IdempotencyKey = ''confirm-key-b'', fm_RequestHash = demo_hash,
     fm_RelationshipID = ''rel-2''\<rparr>"

definition demo_outcome :: ConfirmationOutcome where
  "demo_outcome = \<lparr>co_Session = json_session demo_done, Completed = True, co_RelationshipID = ''rel-2'',
     co_Replayed = False\<rparr>"

definition demo_final :: "store db" where
  "demo_final = \<lparr>tables = (outbox_add (relationship_event demo_env demo_relationship) demo_store)
     \<lparr>pairing_sessions := [demo_done], device_relationships := [demo_relationship],
     idempotency_records := idempotency_records (tables (snd demo_first)) @
       [\<lparr>rec_id = (''bert:device:devB'', ''pairing.session.confirm'', ''confirm-key-b''),
       rec_hash = demo_hash, rec_outcome = OConfirm demo_outcome, rec_created_at = 5000\<rparr>]\<rparr>,
     faults = []\<rparr>"

lemma demo_confirm_eval: "ConfirmPairingSession demo_env demo_mutation (snd demo_first) = (Inr demo_outcome, demo_final)"
  unfolding demo_first_eval demo_final_def
  by (simp add: demo_eval demo_mutation_def ConfirmPairingSession_def confirm_request_def confirm_body_def
      load_session_def find_session_def json_session_def json_confirmation_def demo_session_def
      After_def confirm_side_def demo_half_def not_completed_def update_session_def update_where_def
      pg_ts_def complete_pairing_def insert_relationship_def new_relationship_def
      ordered_pair_def relationship_id_def relationship_created_def outbox_insert_def outbox_has_def
      outbox_add_def outbox_row_def relationship_event_def paired_def demo_done_def demo_relationship_def
      demo_outcome_def)

lemma demo_second_alt: "demo_second = (Inr (demo_outcome, None), demo_final)"
proof -
  have "Confirm sha_zero (pg_repository demo_env) 3000 (Some ''rel-2'') bert ''session-1''
      ''nonce-b'' ''confirm-key-b'' (snd demo_first)
    = tx_bind (ConfirmPairingSession demo_env demo_mutation)
        (\<lambda>out. tx_return (out, expired_error (co_Session out))) (snd demo_first)"
    by (simp add: Confirm_def demo_eval demo_mutation_def)
  then show ?thesis
    by (simp add: demo_second_def demo_confirm_eval expired_error_def demo_outcome_def demo_done_def
        json_session_def paired_def)
qed

lemma demo_second_eval:
  "pairing_sessions (tables (snd demo_second)) = [demo_done]"
  "device_relationships (tables (snd demo_second)) = [demo_relationship]"
  by (simp_all add: demo_second_alt demo_final_def)

lemma demo_replay_eval:
  "ConfirmPairingSession demo_env demo_mutation demo_final = (Inr (demo_outcome\<lparr>co_Replayed := True\<rparr>), demo_final)"
proof -
  have "RunIdempotent (confirm_request demo_mutation) (OConfirm \<circ> json_confirmation) (go_now demo_env)
      (confirm_body demo_env demo_mutation) demo_final =
      (Inr \<lparr>outcome = OConfirm demo_outcome, Replayed = True\<rparr>, demo_final)"
    by (subst RunIdempotent_replay_ok
        [where rec = "\<lparr>rec_id = (''bert:device:devB'', ''pairing.session.confirm'', ''confirm-key-b''),
          rec_hash = demo_hash, rec_outcome = OConfirm demo_outcome, rec_created_at = 5000\<rparr>"])
      (simp_all add: demo_final_def demo_mutation_def confirm_request_def demo_eval demo_first_eval)
  then show ?thesis by (simp add: ConfirmPairingSession_def)
qed

lemma demo_run_first: "pairing_run sha_zero demo_store (tables (snd demo_first))"
proof -
  have "pairing_step sha_zero demo_store (tables (snd demo_created))"
    using pairing_step.create [of sha_zero demo_env 1000 "(Some ''session-1'', Some ''nonce-a'', Some ''nonce-b'')"
        anna "''devB''" "''tap-1''" "''create-key''" demo_db "fst demo_created" "snd demo_created"]
    by (simp add: demo_created_def demo_db_def)
  moreover have "pairing_step sha_zero (tables (snd demo_created)) (tables (snd demo_first))"
    using pairing_step.confirm [of sha_zero demo_env 2000 "Some ''rel-1''" anna "''session-1''" "''nonce-a''"
        "''confirm-key-a''" "snd demo_created" "fst demo_first" "snd demo_first"]
    by (simp add: demo_first_def)
  ultimately show ?thesis by (blast intro: pairing_run.intros)
qed

lemma demo_step_second: "pairing_step sha_zero (tables (snd demo_first)) (tables (snd demo_second))"
  using pairing_step.confirm [of sha_zero demo_env 3000 "Some ''rel-2''" bert "''session-1''" "''nonce-b''"
      "''confirm-key-b''" "snd demo_first" "fst demo_second" "snd demo_second"]
  by (simp add: demo_second_def)

lemma demo_run: "pairing_run sha_zero demo_store (tables (snd demo_second))"
  using demo_run_first demo_step_second by (rule pairing_run.step)

section \<open>Properties\<close>

definition fresh_store :: "store \<Rightarrow> bool" where
  "fresh_store t \<longleftrightarrow> pairing_sessions t = [] \<and> device_relationships t = [] \<and> created_events (outbox t) = []"

lemma fresh_store_inv: "fresh_store t \<Longrightarrow> pairing_inv t"
  by (simp add: fresh_store_def pairing_inv_def unique_key_def active_unique_def)

lemma fresh_demo: "fresh_store demo_store"
  by (simp add: fresh_store_def demo_store_def empty_store_def created_events_def)

text \<open>
  C1: no relationship without bilateral consent. In every state that the pairing service can reach
  from a store without pairings, by any sequence of calls with any faults, each relationship stems
  from a paired session in which both sides have confirmed, and joins exactly the two
  participants of that session, the devices in byte order.
\<close>

theorem pairing_consent:
  assumes "fresh_store t0" "pairing_run sha256 t0 t" "r \<in> set (device_relationships t)"
  shows "string_less (DeviceAID r) (DeviceBID r) \<and>
    (\<exists>s \<in> set (pairing_sessions t). ss_State s = SPaired \<and> ss_RelationshipID s = rel_ID r
       \<and> InitiatorConfirmedAt s \<noteq> None \<and> PeerConfirmedAt s \<noteq> None
       \<and> {\<lparr>UserID = UserAID r, DeviceID = DeviceAID r\<rparr>, \<lparr>UserID = UserBID r, DeviceID = DeviceBID r\<rparr>}
           = {Initiator s, Peer s})"
proof -
  have "pairing_inv t" using assms(1,2) fresh_store_inv pairing_run_inv by blast
  with assms(3) obtain s where "string_less (DeviceAID r) (DeviceBID r)"
      "s \<in> set (pairing_sessions t)" "founded_by s r"
    by (auto simp: pairing_inv_def relationship_ok_def list_all_iff)
  then show ?thesis
    by (intro conjI bexI [of _ s])
      (auto simp: founded_by_def both_confirmed_def ordered_pair_def Let_def split: if_splits)
qed

theorem pairing_consent_witness:
  "\<exists>s \<in> set (pairing_sessions (tables (snd demo_second))). ss_RelationshipID s = ''rel-2''
     \<and> InitiatorConfirmedAt s \<noteq> None \<and> PeerConfirmedAt s \<noteq> None"
  using pairing_consent [OF fresh_demo demo_run, of demo_relationship]
  by (auto simp: demo_second_eval demo_relationship_def)

text \<open>
  C3: in every reachable state a pair of devices has at most one active relationship, and the outbox
  holds exactly one creation event for each relationship, in the order of creation.
\<close>

theorem pairing_unique_active:
  assumes "fresh_store t0" "pairing_run sha256 t0 t"
  shows "distinct (map rel_ID (device_relationships t))
    \<and> distinct (map (\<lambda>r. (DeviceAID r, DeviceBID r)) (filter (\<lambda>r. RevokedAt r = None) (device_relationships t)))
    \<and> created_events (outbox t) = map (\<lambda>r. ''relationship/'' @ rel_ID r) (device_relationships t)"
proof -
  have inv: "pairing_inv t" using assms fresh_store_inv pairing_run_inv by blast
  then have "inj_on (\<lambda>r. (DeviceAID r, DeviceBID r)) (set (filter (\<lambda>r. RevokedAt r = None) (device_relationships t)))"
    by (auto simp: pairing_inv_def active_unique_def inj_on_def)
  moreover have "distinct (device_relationships t)"
    using inv by (auto simp: pairing_inv_def unique_key_def distinct_map)
  ultimately show ?thesis using inv by (simp add: pairing_inv_def unique_key_def distinct_map)
qed

theorem pairing_unique_active_witness:
  "created_events (outbox (tables (snd demo_second))) = [''relationship/rel-2'']"
  using pairing_unique_active [OF fresh_demo demo_run] by (simp add: demo_second_eval demo_relationship_def)

text \<open>
  C15: the repository refines the protocol. In a step from a reachable state each session row keeps
  its identity, participants, nonces and deadline, and its protocol state either stays or moves as
  \<open>NextPairingState\<close> says for some event; a row that was not there is awaiting confirmation.
\<close>

theorem pairing_refines_protocol:
  assumes "fresh_store t0" "pairing_run sha256 t0 t" "pairing_step sha256 t t'"
  shows "(\<forall>s \<in> set (pairing_sessions t). \<exists>s' \<in> set (pairing_sessions t').
            ss_ID s' = ss_ID s \<and> Initiator s' = Initiator s \<and> Peer s' = Peer s
          \<and> InitiatorNonce s' = InitiatorNonce s \<and> PeerNonce s' = PeerNonce s
          \<and> ss_ExpiresAt s' = ss_ExpiresAt s
          \<and> (s' = s \<or> (\<exists>ev. NextPairingState (pairing_phase s) ev = Inr (pairing_phase s'))))
    \<and> (\<forall>s' \<in> set (pairing_sessions t'). ss_ID s' \<notin> ss_ID ` set (pairing_sessions t)
          \<longrightarrow> pairing_phase s' = PairingAwaitingConfirmation)"
proof -
  have "pairing_inv t" using assms(1,2) fresh_store_inv pairing_run_inv by blast
  then have "sessions_evolve (pairing_sessions t) (pairing_sessions t')"
    using assms(3) pairing_step_delta by (simp add: pairing_delta_def)
  then have old: "\<forall>s \<in> set (pairing_sessions t). \<exists>s' \<in> set (pairing_sessions t'). session_step s s'"
    and new: "\<forall>s' \<in> set (pairing_sessions t'). (\<exists>s \<in> set (pairing_sessions t). session_step s s')
        \<or> pairing_phase s' = PairingAwaitingConfirmation"
    by (simp_all add: sessions_evolve_def)
  show ?thesis
  proof (intro conjI ballI impI)
    fix s' assume "s' \<in> set (pairing_sessions t')" "ss_ID s' \<notin> ss_ID ` set (pairing_sessions t)"
    with new session_step_fixed show "pairing_phase s' = PairingAwaitingConfirmation" by (metis image_eqI)
  qed (use old session_step_fixed in blast)
qed

theorem pairing_refines_protocol_witness:
  "\<exists>s' \<in> set (pairing_sessions (tables (snd demo_second))). ss_ID s' = ss_ID demo_half
     \<and> Initiator s' = anna"
  using pairing_refines_protocol [OF fresh_demo demo_run_first demo_step_second]
  by (auto simp: demo_first_eval demo_half_def demo_session_def)

text \<open>
  C16: the end of a session is final. Once a session is paired, cancelled or expired, its row is never
  changed again, whatever the service is asked to do.
\<close>

theorem pairing_terminal_final:
  assumes "fresh_store t0" "pairing_run sha256 t0 t" "pairing_run sha256 t t'"
    "s \<in> set (pairing_sessions t)" "ss_State s \<noteq> SPending"
  shows "s \<in> set (pairing_sessions t')"
proof -
  have "pairing_inv t" using assms(1,2) fresh_store_inv pairing_run_inv by blast
  moreover have "terminal (pairing_phase s)"
    using assms(5) by (cases "ss_State s") (auto simp: pairing_phase_def terminal_def)
  ultimately show ?thesis using pairing_run_terminal assms(3,4) by blast
qed

definition demo_late :: "(pairing_error failure + Session \<times> bool \<times> pairing_error option) \<times> store db" where
  "demo_late = Reject sha_zero (pg_repository demo_env) 4000 bert ''session-1'' ''user_declined''
     ''reject-key-b'' (snd demo_second)"

theorem pairing_terminal_final_witness: "demo_done \<in> set (pairing_sessions (tables (snd demo_late)))"
proof -
  have "pairing_step sha_zero (tables (snd demo_second)) (tables (snd demo_late))"
    using pairing_step.reject [of sha_zero demo_env 4000 bert "''session-1''" "''user_declined''"
        "''reject-key-b''" "snd demo_second" "fst demo_late" "snd demo_late"] by (simp add: demo_late_def)
  then have "pairing_run sha_zero (tables (snd demo_second)) (tables (snd demo_late))"
    by (blast intro: pairing_run.intros)
  from pairing_terminal_final [OF fresh_demo demo_run this] show ?thesis
    by (simp add: demo_second_eval demo_done_def paired_def)
qed

text \<open>
  C17: replay. After a confirmation has succeeded, any later confirmation with the same identity and
  the same request hash, in any state the service can reach from there, either fails or
  returns the recorded outcome, marked as replayed, and changes no table.
\<close>

theorem confirm_replay:
  assumes "pairing_inv (tables d)" "ConfirmPairingSession env m d = (Inr out, d1)"
    "pairing_run sha256 (tables d1) (tables d2)"
    "request_id (confirm_request m') = request_id (confirm_request m)" "EqualHash (fm_RequestHash m) (fm_RequestHash m')"
    "ConfirmPairingSession env' m' d2 = (Inr out', d3)"
  shows "out' = out\<lparr>co_Replayed := True\<rparr> \<and> tables d3 = tables d2"
proof -
  from assms(2) obtain res c where run: "RunIdempotent (confirm_request m) (OConfirm \<circ> json_confirmation)
      (go_now env) (confirm_body env m) d = (Inr res, d1)"
      and out: "outcome res = OConfirm c" "out = c\<lparr>co_Replayed := Replayed res\<rparr>"
    by (rule ConfirmPairingSession_Inr)
  from assms(6) obtain res' c' where run': "RunIdempotent (confirm_request m') (OConfirm \<circ> json_confirmation)
      (go_now env') (confirm_body env' m') d2 = (Inr res', d3)"
      and out': "outcome res' = OConfirm c'" "out' = c'\<lparr>co_Replayed := Replayed res'\<rparr>"
    by (rule ConfirmPairingSession_Inr)
  have "pairing_inv (tables d1)"
    using changesD [OF ConfirmPairingSession_changes assms(2,1)] by (simp add: pairing_delta_def)
  then have "ledger_extends (tables d1) (tables d2)" using assms(3) pairing_run_ledger by blast
  from confirm_op.replay_after_success [OF run this assms(4) _ run'] assms(5) out out' show ?thesis
    by (auto simp: confirm_request_def)
qed

lemma demo_inv: "pairing_inv (tables (snd demo_first))" "pairing_inv (tables demo_final)"
  using pairing_run_inv [OF demo_run_first fresh_store_inv [OF fresh_demo]]
    pairing_run_inv [OF demo_run fresh_store_inv [OF fresh_demo]] by (simp_all add: demo_second_alt)

theorem confirm_replay_witness:
  "ConfirmPairingSession demo_env demo_mutation demo_final = (Inr (demo_outcome\<lparr>co_Replayed := True\<rparr>), demo_final)"
  using confirm_replay [OF demo_inv(1) demo_confirm_eval pairing_run.start refl EqualHash_refl demo_replay_eval]
    demo_replay_eval by simp

text \<open>
  A key reused for another request is refused. After a confirmation has succeeded, a
  confirmation with the same identity and a different request hash fails in every later
  state and changes no table.
\<close>

theorem confirm_key_conflict:
  assumes "pairing_inv (tables d)" "ConfirmPairingSession env m d = (Inr out, d1)"
    "pairing_run sha256 (tables d1) (tables d2)"
    "request_id (confirm_request m') = request_id (confirm_request m)" "\<not> EqualHash (fm_RequestHash m) (fm_RequestHash m')"
  shows "\<exists>e d3. ConfirmPairingSession env' m' d2 = (Inl e, d3) \<and> tables d3 = tables d2"
proof -
  from assms(2) obtain res c where run: "RunIdempotent (confirm_request m) (OConfirm \<circ> json_confirmation)
      (go_now env) (confirm_body env m) d = (Inr res, d1)"
    by (rule ConfirmPairingSession_Inr)
  have "pairing_inv (tables d1)"
    using changesD [OF ConfirmPairingSession_changes assms(2,1)] by (simp add: pairing_delta_def)
  then have "ledger_extends (tables d1) (tables d2)" using assms(3) pairing_run_ledger by blast
  from confirm_op.conflict_after_success [OF run this assms(4), where enc' = "OConfirm \<circ> json_confirmation"
      and c' = "go_now env'" and m' = "confirm_body env' m'"] assms(5)
  obtain e d3 where "RunIdempotent (confirm_request m') (OConfirm \<circ> json_confirmation) (go_now env')
      (confirm_body env' m') d2 = (Inl e, d3)" "tables d3 = tables d2"
    by (auto simp: confirm_request_def)
  then show ?thesis by (auto simp: ConfirmPairingSession_def)
qed

theorem confirm_key_conflict_witness:
  "\<exists>e d3. ConfirmPairingSession demo_env (demo_mutation\<lparr>fm_RequestHash := replicate 64 (CHR ''1'')\<rparr>) demo_final
      = (Inl e, d3) \<and> tables d3 = tables demo_final"
proof -
  have "ToLower demo_hash \<noteq> ToLower (replicate 64 (CHR ''1''))"
    by (simp add: demo_hash_def ToLower_def lower_byte_def byte_in_def)
  then show ?thesis
    by (intro confirm_key_conflict [OF demo_inv(1) demo_confirm_eval pairing_run.start])
      (simp_all add: demo_mutation_def EqualHash_iff confirm_request_def request_id_def request_trim_def)
qed

text \<open>
  C18: who completes a pairing. A confirmation that completes a pairing for the first time comes from one
  of the two participants of a pending session, carries the nonce of that side, arrives before the
  deadline, and finds the other side confirmed already.
\<close>

theorem confirm_completes_authorized:
  assumes "ConfirmPairingSession env m d = (Inr out, d')" "Completed out" "\<not> co_Replayed out"
  shows "\<exists>s. find_session (fm_SessionID m) (tables d) = Some s \<and> ss_State s = SPending
    \<and> fm_ConfirmedAt m < ss_ExpiresAt s
    \<and> (fm_Participant m = Initiator s \<and> fm_Nonce m = InitiatorNonce s \<and> PeerConfirmedAt s \<noteq> None
       \<or> fm_Participant m = Peer s \<and> fm_Nonce m = PeerNonce s \<and> InitiatorConfirmedAt s \<noteq> None)"
proof -
  from assms(1) obtain res c where run: "RunIdempotent (confirm_request m) (OConfirm \<circ> json_confirmation)
      (go_now env) (confirm_body env m) d = (Inr res, d')"
      and out: "outcome res = OConfirm c" "out = c\<lparr>co_Replayed := Replayed res\<rparr>"
    by (rule ConfirmPairingSession_Inr)
  from run show ?thesis
  proof (cases rule: RunIdempotent_Inr)
    case replay
    with out assms(3) show ?thesis by simp
  next
    case (fresh v d1 d2)
    then have "Completed v" using out assms(2) by (auto simp: json_confirmation_def)
    from fresh(3) show ?thesis
    proof (cases rule: confirm_body_Inr)
      case (second s b d3)
      then show ?thesis using fresh(2) by (cases b) auto
    qed (use \<open>Completed v\<close> in \<open>simp_all add: not_completed_def\<close>)
  qed
qed

theorem confirm_completes_authorized_witness:
  "\<exists>s. find_session ''session-1'' (tables (snd demo_first)) = Some s \<and> PeerNonce s = ''nonce-b''
     \<and> InitiatorConfirmedAt s \<noteq> None"
  using confirm_completes_authorized [OF demo_confirm_eval]
  by (auto simp: demo_outcome_def demo_mutation_def demo_first_eval find_session_def demo_half_def demo_session_def)

text \<open>
  the collation. The table demands \<open>device_a_id < device_b_id\<close> in the order of the database
  collation, the code orders the devices by bytes: where the two disagree on a pair, its pairing
  can never complete, whatever the state of the store.
\<close>

theorem collation_blocks_pairing:
  assumes "\<not> pg_less env (fst (fst (ordered_pair s))) (fst (snd (ordered_pair s)))"
  shows "\<exists>e d'. complete_pairing env relID s d = (Inl e, d')"
proof -
  have "insert_relationship (pg_less env) (new_relationship s relID (tx_now env)) t = None" for t
    using assms new_relationship_sel(3) [of s relID "tx_now env"]
    by (simp add: insert_relationship_def pair_devices_def)
  then show ?thesis by (auto simp: complete_pairing_def Let_def tx_bind_def stmt_def)
qed

text \<open>An order that ignores case, as the usual locale collations do, on two devices.\<close>

theorem collation_blocks_pairing_witness:
  "\<exists>e d'. complete_pairing (demo_env\<lparr>pg_less := (\<lambda>a b. string_less (ToLower a) (ToLower b))\<rparr>) ''rel-3''
     (demo_session\<lparr>Initiator := \<lparr>UserID = ''anna'', DeviceID = ''Zed''\<rparr>,
        Peer := \<lparr>UserID = ''bert'', DeviceID = ''abc''\<rparr>\<rparr>) demo_final = (Inl e, d')"
  by (rule collation_blocks_pairing)
    (simp add: ordered_pair_def demo_session_def Let_def ToLower_def lower_byte_def byte_in_def)

end
