(* ===== verification/Voicemail.thy ===== *)
theory Voicemail
  imports Pairing
begin

text \<open>
  Voice mail in the store: \<open>internal/pgstore/voicemail.go\<close> with the validation of
  \<open>internal/voicemail/voicemail.go\<close>, the runner \<open>runMutationValue\<close> of
  \<open>internal/pgstore/domain_mutations.go\<close> and the protocol states \<open>NextVoiceMailState\<close> of
  \<open>internal/protocol/interaction.go\<close>. The table checks of \<open>voice_mail_items\<close> are part of the
  statements that write it.
\<close>

section \<open>The protocol state machine\<close>

datatype VoiceMailState =
  VoiceMailAvailableState | VoiceMailClaimedState | VoiceMailConsumedState | VoiceMailExpiredState

datatype VoiceMailEvent =
  VoiceMailClaimEvent | VoiceMailPlaybackSucceededEvent | VoiceMailPlaybackFailedEvent
| VoiceMailLeaseExpiredEvent | VoiceMailConsumeEvent | VoiceMailExpireEvent

definition NextVoiceMailState :: "VoiceMailState \<Rightarrow> VoiceMailEvent \<Rightarrow> Policy \<Rightarrow> string + VoiceMailState" where
  "NextVoiceMailState state event policy =
     (if policy \<noteq> Ephemeral \<and> policy \<noteq> Retained
        then Inl ''voice-mail state requires ephemeral or retained policy''
      else case state of
        VoiceMailConsumedState \<Rightarrow> Inl ''voice-mail state is terminal''
      | VoiceMailExpiredState \<Rightarrow> Inl ''voice-mail state is terminal''
      | VoiceMailAvailableState \<Rightarrow>
          (case event of
             VoiceMailClaimEvent \<Rightarrow> Inr VoiceMailClaimedState
           | VoiceMailConsumeEvent \<Rightarrow> Inr VoiceMailConsumedState
           | VoiceMailExpireEvent \<Rightarrow> Inr VoiceMailExpiredState
           | _ \<Rightarrow> Inl ''voice-mail event is invalid'')
      | VoiceMailClaimedState \<Rightarrow>
          (case event of
             VoiceMailPlaybackSucceededEvent \<Rightarrow>
               Inr (if policy = Ephemeral then VoiceMailConsumedState else VoiceMailAvailableState)
           | VoiceMailPlaybackFailedEvent \<Rightarrow> Inr VoiceMailAvailableState
           | VoiceMailLeaseExpiredEvent \<Rightarrow> Inr VoiceMailAvailableState
           | VoiceMailConsumeEvent \<Rightarrow> Inr VoiceMailConsumedState
           | VoiceMailExpireEvent \<Rightarrow> Inr VoiceMailExpiredState
           | _ \<Rightarrow> Inl ''voice-mail event is invalid''))"

section \<open>Validation of an upload\<close>

record Upload =
  up_RelationshipID :: string
  up_SenderUserID :: string
  up_SenderDeviceID :: string
  up_DurationMS :: int
  up_SizeBytes :: int
  up_ChecksumSHA256 :: string
  up_Policy :: Policy
  up_ExpiresAt :: time

definition ogg_opus :: string where "ogg_opus = ''ogg_opus''"
definition MaxSize :: int where "MaxSize = 33554432"
definition MaxDuration :: duration where "MaxDuration = 10 * Minute"

text \<open>\<open>time.Duration(c.DurationMS)*time.Millisecond\<close> is a product of 64-bit integers.\<close>

definition Create_Validate :: "Upload \<Rightarrow> time \<Rightarrow> string option" where
  "Create_Validate c now =
     (if TrimSpace (up_RelationshipID c) = [] then Some ''relationship_id is required''
      else if TrimSpace (up_SenderUserID c) = [] \<or> TrimSpace (up_SenderDeviceID c) = []
        then Some ''sender user and device are required''
      else if up_Policy c = Disabled \<or> (up_Policy c \<noteq> Ephemeral \<and> up_Policy c \<noteq> Retained)
        then Some ''voice mail policy must be ephemeral or retained''
      else if up_DurationMS c \<le> 0 \<or> wrap64 (up_DurationMS c * Millisecond) > MaxDuration
        then Some ''duration_ms must be 1..600000''
      else if up_SizeBytes c \<le> 0 \<or> up_SizeBytes c > MaxSize
        then Some ''size_bytes must be 1..33554432''
      else if length (up_ChecksumSHA256 c) \<noteq> sha256_hex_len then Some ''checksum_sha256 must be sha256 hex''
      else if \<not> hex_decodes (up_ChecksumSHA256 c) then Some ''checksum_sha256 must be sha256 hex''
      else if IsZero (up_ExpiresAt c) \<or> \<not> After (up_ExpiresAt c) now
        then Some ''expires_at must be in the future''
      else None)"

section \<open>The mutation runner\<close>

datatype vm_error = VErrUnauthorized | VErrRelationshipNotFound | VErrRelationshipRevoked
  | VErrItemNotFound | VErrInvalidState

type_synonym 'a vm_tx = "(store, vm_error, 'a) tx"

text \<open>The object key is tagged \<open>json:"-"\<close>: the value returned is the one decoded from the ledger.\<close>

definition json_item :: "Item \<Rightarrow> Item" where
  "json_item i = i\<lparr>ObjectKey := []\<rparr>"

definition runMutationValue :: "Request \<Rightarrow> string \<Rightarrow> time \<Rightarrow> Item vm_tx \<Rightarrow> Item vm_tx" where
  "runMutationValue request operation created mutate =
     (case requireMutationOperation request operation of
        Some msg \<Rightarrow> tx_fail (Invalid msg)
      | None \<Rightarrow>
          tx_bind (RunIdempotent request (OItem \<circ> json_item) created mutate) (\<lambda>out.
          case outcome out of
            OItem i \<Rightarrow> tx_return (json_item i)
          | _ \<Rightarrow> tx_fail (Invalid ''decode committed outcome'')))"

section \<open>Rows\<close>

text \<open>The checks of the table on a row: the ranges, and the claim columns set exactly while claimed.\<close>

definition item_check :: "Item \<Rightarrow> bool" where
  "item_check i \<longleftrightarrow>
     MediaFormat i = ogg_opus \<and> 1 \<le> DurationMS i \<and> DurationMS i \<le> 600000
     \<and> 1 \<le> SizeBytes i \<and> SizeBytes i \<le> 33554432
     \<and> length (ChecksumSHA256 i) = 64 \<and> list_all (\<lambda>c. byte_in 48 57 c \<or> byte_in 97 102 c) (ChecksumSHA256 i)
     \<and> it_Policy i \<in> {Ephemeral, Retained}
     \<and> (it_State i = Claimed \<longleftrightarrow> PlaybackID i \<noteq> [] \<and> LeaseExpiresAt i \<noteq> None)"

definition insert_item :: "Item \<Rightarrow> store \<Rightarrow> (unit \<times> store) option" where
  "insert_item i t =
     (if it_ID i \<in> it_ID ` set (voice_mail_items t) \<or> ObjectKey i \<in> ObjectKey ` set (voice_mail_items t)
         \<or> it_RelationshipID i \<notin> rel_ID ` set (device_relationships t) \<or> \<not> item_check i then None
      else Some ((), t\<lparr>voice_mail_items := voice_mail_items t @ [i]\<rparr>))"

definition update_items :: "(Item \<Rightarrow> bool) \<Rightarrow> (Item \<Rightarrow> Item) \<Rightarrow> store \<Rightarrow> (unit \<times> store) option" where
  "update_items P g t =
     (if list_all (\<lambda>i. P i \<longrightarrow> item_check (g i)) (voice_mail_items t)
      then Some ((), t\<lparr>voice_mail_items := update_where P g (voice_mail_items t)\<rparr>) else None)"

definition find_item :: "(Item \<Rightarrow> bool) \<Rightarrow> store \<Rightarrow> Item option" where
  "find_item P t = find P (voice_mail_items t)"

definition item_order :: "pg_env \<Rightarrow> (Item \<Rightarrow> time) \<Rightarrow> Item \<Rightarrow> Item \<Rightarrow> bool" where
  "item_order env key a b \<longleftrightarrow> key a < key b \<or> (key a = key b \<and> \<not> pg_less env (it_ID b) (it_ID a))"

text \<open>The column is nullable and has no such row for the empty identifier of a missing relationship.\<close>

definition find_relationship :: "string \<Rightarrow> store \<Rightarrow> Relationship option" where
  "find_relationship i t = find (\<lambda>r. rel_ID r = i) (device_relationships t)"

section \<open>Events\<close>

definition policy_string :: "Policy \<Rightarrow> string" where
  "policy_string p = (case p of Disabled \<Rightarrow> ''disabled'' | Ephemeral \<Rightarrow> ''ephemeral'' | Retained \<Rightarrow> ''retained'')"

definition state_string :: "ItemState \<Rightarrow> string" where
  "state_string s = (case s of PendingUpload \<Rightarrow> ''pending_upload'' | Unread \<Rightarrow> ''unread''
     | Claimed \<Rightarrow> ''claimed'' | Consumed \<Rightarrow> ''consumed'' | DeletePending \<Rightarrow> ''delete_pending''
     | Deleted \<Rightarrow> ''deleted'' | Expired \<Rightarrow> ''expired'' | Rejected \<Rightarrow> ''rejected'')"

text \<open>The argument is the part of the event type after \<open>voice_mail.\<close>\<close>

definition voicemail_event :: "Item \<Rightarrow> string \<Rightarrow> time \<Rightarrow> Event" where
  "voicemail_event item suffix now =
     \<lparr>ev_ID = ''voice-mail-'' @ it_ID item @ ''-'' @ suffix @ ''-'' @ FormatInt (UnixNano now),
      ev_Source = ''/companion/voice-mail'', ev_Type = ''voice_mail.'' @ suffix,
      ev_Subject = ''voice-mail/'' @ it_ID item, ev_UserID = RecipientUserID item,
      ev_Data = [(''checksum_sha256'', JStr (ChecksumSHA256 item)), (''duration_ms'', JInt (DurationMS item)),
        (''expires_at'', JTime (it_ExpiresAt item)), (''from_device_id'', JStr (SenderDeviceID item)),
        (''media_format'', JStr (MediaFormat item)), (''policy'', JStr (policy_string (it_Policy item))),
        (''recipient_device_id'', JStr (RecipientDeviceID item)), (''size_bytes'', JInt (SizeBytes item)),
        (''state'', JStr (state_string (it_State item))), (''voice_mail_id'', JStr (it_ID item))],
      ev_Time = now\<rparr>"

definition enqueueVoiceMailEvent :: "Item \<Rightarrow> string \<Rightarrow> time \<Rightarrow> unit vm_tx" where
  "enqueueVoiceMailEvent item suffix now = exec (outbox_insert_ignore (voicemail_event item suffix now))"

section \<open>Repository operations\<close>

definition requireVoiceMailPolicy :: "string \<Rightarrow> Policy \<Rightarrow> unit vm_tx" where
  "requireVoiceMailPolicy userID expected =
     tx_bind (query (\<lambda>t. map_of (voice_mail_policies t) (owner userID))) (\<lambda>row.
     case row of
       None \<Rightarrow> tx_fail (Invalid ''voice mail is disabled'')
     | Some policy \<Rightarrow>
         if policy = Disabled then tx_fail (Invalid ''voice mail is disabled'')
         else if policy \<noteq> expected then tx_fail (Invalid ''voice mail policy does not match recipient policy'')
         else tx_return ())"

definition recipient_of :: "Relationship \<Rightarrow> string \<Rightarrow> string \<Rightarrow> (string \<times> string) option" where
  "recipient_of r senderUser senderDevice =
     (if UserAID r = senderUser \<and> DeviceAID r = senderDevice then Some (UserBID r, DeviceBID r)
      else if UserBID r = senderUser \<and> DeviceBID r = senderDevice then Some (UserAID r, DeviceAID r)
      else None)"

definition create_upload_body :: "pg_env \<Rightarrow> Upload \<Rightarrow> time \<Rightarrow> Item vm_tx" where
  "create_upload_body env create now =
     (let relID = TrimSpace (up_RelationshipID create);
          senderUser = owner (up_SenderUserID create);
          senderDevice = TrimSpace (up_SenderDeviceID create)
      in
      tx_bind (query (\<lambda>t. find (\<lambda>r. rel_ID r = relID \<and> RevokedAt r = None) (device_relationships t))) (\<lambda>row.
      case row of
        None \<Rightarrow> tx_fail (App VErrRelationshipNotFound)
      | Some r \<Rightarrow>
        (case recipient_of r senderUser senderDevice of
           None \<Rightarrow> tx_fail (App VErrUnauthorized)
         | Some (recipientUser, recipientDevice) \<Rightarrow>
           tx_bind (requireVoiceMailPolicy senderUser (up_Policy create)) (\<lambda>_.
           tx_bind (requireVoiceMailPolicy recipientUser (up_Policy create)) (\<lambda>_.
           let item =
             \<lparr>it_ID = gen_random_uuid env, it_RelationshipID = relID,
              SenderUserID = senderUser, SenderDeviceID = senderDevice,
              RecipientUserID = recipientUser, RecipientDeviceID = recipientDevice,
              ObjectKey = gen_random_uuid2 env, MediaFormat = ogg_opus,
              DurationMS = up_DurationMS create, SizeBytes = up_SizeBytes create,
              ChecksumSHA256 = ToLower (up_ChecksumSHA256 create), it_Policy = up_Policy create,
              it_State = PendingUpload, PlaybackID = [], LeaseExpiresAt = None,
              it_ExpiresAt = up_ExpiresAt create, it_CreatedAt = now, it_UpdatedAt = now\<rparr>
           in
           tx_bind (stmt (insert_item (item\<lparr>it_ExpiresAt := pg_ts (up_ExpiresAt create),
                      it_CreatedAt := pg_ts now, it_UpdatedAt := pg_ts now\<rparr>))) (\<lambda>_.
           tx_return item))))))"

definition CreateUpload :: "pg_env \<Rightarrow> Request \<Rightarrow> Upload \<Rightarrow> time \<Rightarrow> Item vm_tx" where
  "CreateUpload env request create now =
     runMutationValue request ''voice_mail.create'' (go_now env) (create_upload_body env create now)"

definition for_sender :: "string \<Rightarrow> string \<Rightarrow> string \<Rightarrow> Item \<Rightarrow> bool" where
  "for_sender user device i item \<longleftrightarrow> it_ID item = i \<and> SenderUserID item = owner user
     \<and> SenderDeviceID item = TrimSpace device"

definition ItemForSender :: "string \<Rightarrow> string \<Rightarrow> string \<Rightarrow> Item option vm_tx" where
  "ItemForSender senderUserID senderDeviceID i =
     query (find_item (for_sender senderUserID senderDeviceID (TrimSpace i)))"

definition set_state :: "ItemState \<Rightarrow> time \<Rightarrow> Item \<Rightarrow> Item" where
  "set_state st now i = i\<lparr>it_State := st, it_UpdatedAt := now\<rparr>"

definition valid_generation :: "Relationship \<Rightarrow> Item \<Rightarrow> string \<Rightarrow> string \<Rightarrow> bool" where
  "valid_generation r item senderUser senderDevice \<longleftrightarrow>
     (UserAID r = senderUser \<and> DeviceAID r = senderDevice \<and> UserBID r = RecipientUserID item
        \<and> DeviceBID r = RecipientDeviceID item)
   \<or> (UserBID r = senderUser \<and> DeviceBID r = senderDevice \<and> UserAID r = RecipientUserID item
        \<and> DeviceAID r = RecipientDeviceID item)"

definition complete_upload_body :: "string \<Rightarrow> string \<Rightarrow> string \<Rightarrow> time \<Rightarrow> Item vm_tx" where
  "complete_upload_body senderUserID senderDeviceID i now =
     tx_bind (query (find_item (for_sender senderUserID senderDeviceID i))) (\<lambda>row.
     case row of
       None \<Rightarrow> tx_fail (App VErrItemNotFound)
     | Some item \<Rightarrow>
       if it_State item \<noteq> PendingUpload then tx_fail (Invalid ''voice mail upload is not pending'')
       else if \<not> After (it_ExpiresAt item) now then tx_fail (Invalid ''voice mail upload expired'')
       else
       tx_bind (query (find_relationship (it_RelationshipID item))) (\<lambda>rel.
       case rel of
         None \<Rightarrow>
           tx_bind (stmt (update_items (\<lambda>x. it_ID x = it_ID item) (set_state Rejected (pg_ts now)))) (\<lambda>_.
           tx_return (set_state Rejected now item))
       | Some r \<Rightarrow>
         if RevokedAt r \<noteq> None then
           tx_bind (stmt (update_items (\<lambda>x. it_ID x = it_ID item) (set_state Rejected (pg_ts now)))) (\<lambda>_.
           tx_return (set_state Rejected now item))
         else if \<not> valid_generation r item (owner senderUserID) (TrimSpace senderDeviceID)
           then tx_fail (App VErrUnauthorized)
         else
           tx_bind (stmt (update_items (\<lambda>x. it_ID x = it_ID item) (set_state Unread (pg_ts now)))) (\<lambda>_.
           tx_bind (enqueueVoiceMailEvent (set_state Unread now item) ''available'' now) (\<lambda>_.
           tx_return (set_state Unread now item)))))"

definition CompleteUpload ::
    "pg_env \<Rightarrow> Request \<Rightarrow> string \<Rightarrow> string \<Rightarrow> string \<Rightarrow> time \<Rightarrow> (Item \<times> vm_error option) vm_tx" where
  "CompleteUpload env request senderUserID senderDeviceID i now =
     tx_bind (runMutationValue request ''voice_mail.complete'' (go_now env)
                (complete_upload_body senderUserID senderDeviceID i now)) (\<lambda>item.
     tx_return (item, if it_State item = Rejected then Some VErrRelationshipRevoked else None))"

definition for_recipient :: "string \<Rightarrow> string \<Rightarrow> Item \<Rightarrow> bool" where
  "for_recipient user device item \<longleftrightarrow> RecipientUserID item = owner user
     \<and> (RecipientDeviceID item = [] \<or> RecipientDeviceID item = TrimSpace device)"

definition ListUnread :: "pg_env \<Rightarrow> string \<Rightarrow> string \<Rightarrow> time \<Rightarrow> int \<Rightarrow> Item list vm_tx" where
  "ListUnread env recipientUserID deviceID now limit =
     query (\<lambda>t. take (nat (boundedLimit limit)) (order_by (item_order env it_CreatedAt)
       (filter (\<lambda>i. for_recipient recipientUserID deviceID i \<and> it_State i = Unread
                  \<and> it_ExpiresAt i > pg_ts now) (voice_mail_items t))))"

text \<open>The row of the claim: the oldest claimable one, or the one asked for.\<close>

definition lease_over :: "time \<Rightarrow> Item \<Rightarrow> bool" where
  "lease_over now i \<longleftrightarrow> (case LeaseExpiresAt i of None \<Rightarrow> False | Some l \<Rightarrow> l \<le> pg_ts now)"

definition claim_row :: "pg_env \<Rightarrow> string \<Rightarrow> string \<Rightarrow> string \<Rightarrow> time \<Rightarrow> store \<Rightarrow> Item option" where
  "claim_row env recipientUserID deviceID i now t =
     (let base = filter (\<lambda>x. for_recipient recipientUserID deviceID x \<and> it_ExpiresAt x > pg_ts now)
                   (voice_mail_items t)
      in if TrimSpace i = []
         then (case order_by (item_order env it_CreatedAt)
                 (filter (\<lambda>x. it_State x = Unread \<or> (it_State x = Claimed \<and> lease_over now x)) base)
               of [] \<Rightarrow> None | x # _ \<Rightarrow> Some x)
         else find (\<lambda>x. it_ID x = i) base)"

definition lease_live :: "time \<Rightarrow> Item \<Rightarrow> bool" where
  "lease_live now i \<longleftrightarrow> (case LeaseExpiresAt i of None \<Rightarrow> False | Some l \<Rightarrow> After l now)"

definition claim_item :: "string \<Rightarrow> time \<Rightarrow> time \<Rightarrow> Item \<Rightarrow> Item" where
  "claim_item playbackID lease now i =
     i\<lparr>it_State := Claimed, PlaybackID := playbackID, LeaseExpiresAt := Some lease, it_UpdatedAt := now\<rparr>"

definition claim_body ::
    "pg_env \<Rightarrow> string \<Rightarrow> string \<Rightarrow> string \<Rightarrow> string \<Rightarrow> time \<Rightarrow> time \<Rightarrow> Item vm_tx" where
  "claim_body env recipientUserID deviceID i playbackID now leaseExpiresAt =
     tx_bind (query (claim_row env recipientUserID deviceID i now)) (\<lambda>row.
     case row of
       None \<Rightarrow> tx_fail (Invalid ''no unread voice mail'')
     | Some item \<Rightarrow>
       if it_State item = Claimed \<and> lease_live now item
         then tx_fail (Invalid ''voice mail is already claimed'')
       else if it_State item \<noteq> Unread \<and> it_State item \<noteq> Claimed
         then tx_fail (Invalid ''voice mail is not unread'')
       else
         tx_bind (stmt (update_items (\<lambda>x. it_ID x = it_ID item)
                    (claim_item playbackID (pg_ts leaseExpiresAt) (pg_ts now)))) (\<lambda>_.
         tx_return (claim_item playbackID leaseExpiresAt now item)))"

definition ClaimVoiceMail ::
    "pg_env \<Rightarrow> Request \<Rightarrow> string \<Rightarrow> string \<Rightarrow> string \<Rightarrow> string \<Rightarrow> time \<Rightarrow> time \<Rightarrow> Item vm_tx" where
  "ClaimVoiceMail env request recipientUserID deviceID i playbackID now leaseExpiresAt =
     (if TrimSpace playbackID = [] then tx_fail (Invalid ''playback_id is required'')
      else runMutationValue request ''voice_mail.claim'' (go_now env)
             (claim_body env recipientUserID deviceID i playbackID now leaseExpiresAt))"

definition release_item :: "ItemState \<Rightarrow> time \<Rightarrow> Item \<Rightarrow> Item" where
  "release_item st now i = i\<lparr>it_State := st, PlaybackID := [], LeaseExpiresAt := None, it_UpdatedAt := now\<rparr>"

definition playback_body ::
    "string \<Rightarrow> string \<Rightarrow> string \<Rightarrow> string \<Rightarrow> bool \<Rightarrow> time \<Rightarrow> Item vm_tx" where
  "playback_body recipientUserID recipientDeviceID i playbackID succeeded now =
     tx_bind (query (find_item (\<lambda>x. it_ID x = i \<and> for_recipient recipientUserID recipientDeviceID x))) (\<lambda>row.
     case row of
       None \<Rightarrow> tx_fail (Invalid ''voice mail not found'')
     | Some item \<Rightarrow>
       if it_State item \<noteq> Claimed \<or> PlaybackID item \<noteq> playbackID \<or> \<not> lease_live now item
         then tx_fail (Invalid ''voice mail claim is invalid or expired'')
       else
       (let st = (if succeeded \<and> it_Policy item = Ephemeral then DeletePending else Unread);
            item' = release_item st now item
        in
        tx_bind (stmt (update_items (\<lambda>x. it_ID x = it_ID item) (release_item st (pg_ts now)))) (\<lambda>_.
        tx_bind (if succeeded
                 then enqueueVoiceMailEvent item' (if st = Unread then ''available'' else ''consumed'') now
                 else tx_return ()) (\<lambda>_.
        tx_return item'))))"

definition CompleteVoiceMailPlayback ::
    "pg_env \<Rightarrow> Request \<Rightarrow> string \<Rightarrow> string \<Rightarrow> string \<Rightarrow> string \<Rightarrow> bool \<Rightarrow> time \<Rightarrow> Item vm_tx" where
  "CompleteVoiceMailPlayback env request recipientUserID recipientDeviceID i playbackID succeeded now =
     runMutationValue request ''voice_mail.playback'' (go_now env)
       (playback_body recipientUserID recipientDeviceID i playbackID succeeded now)"

definition ItemForPlayback :: "string \<Rightarrow> string \<Rightarrow> string \<Rightarrow> string \<Rightarrow> time \<Rightarrow> Item option vm_tx" where
  "ItemForPlayback recipientUserID recipientDeviceID i playbackID now =
     query (find_item (\<lambda>x. it_ID x = i \<and> for_recipient recipientUserID recipientDeviceID x
       \<and> it_State x = Claimed \<and> PlaybackID x = playbackID
       \<and> (case LeaseExpiresAt x of None \<Rightarrow> False | Some l \<Rightarrow> l > pg_ts now)))"

definition delete_body :: "string \<Rightarrow> string \<Rightarrow> time \<Rightarrow> Item vm_tx" where
  "delete_body ownerUserID i now =
     tx_bind (query (find_item (\<lambda>x. it_ID x = i \<and> (SenderUserID x = owner ownerUserID
                                        \<or> RecipientUserID x = owner ownerUserID)))) (\<lambda>row.
     case row of
       None \<Rightarrow> tx_fail (Invalid ''voice mail not found'')
     | Some item \<Rightarrow>
       if it_State item = Deleted then tx_return item
       else
         tx_bind (stmt (update_items (\<lambda>x. it_ID x = it_ID item) (release_item DeletePending (pg_ts now)))) (\<lambda>_.
         tx_return (release_item DeletePending now item)))"

definition RequestDelete :: "pg_env \<Rightarrow> Request \<Rightarrow> string \<Rightarrow> string \<Rightarrow> time \<Rightarrow> Item vm_tx" where
  "RequestDelete env request ownerUserID i now =
     runMutationValue request ''voice_mail.delete'' (go_now env) (delete_body ownerUserID i now)"

definition MarkDeleted :: "string \<Rightarrow> time \<Rightarrow> unit vm_tx" where
  "MarkDeleted i now =
     stmt (update_items (\<lambda>x. it_ID x = i \<and> it_State x \<in> {DeletePending, Deleted, Rejected})
       (set_state Deleted (pg_ts now)))"

text \<open>The rows due for cleanup, each expired with an event when a recipient could still see it.\<close>

definition cleanup_due :: "time \<Rightarrow> Item \<Rightarrow> bool" where
  "cleanup_due now i \<longleftrightarrow> it_State i \<in> {DeletePending, Rejected}
     \<or> (it_State i \<in> {PendingUpload, Unread, Claimed} \<and> it_ExpiresAt i \<le> pg_ts now)"

fun cleanup_rows :: "time \<Rightarrow> Item list \<Rightarrow> Item list vm_tx" where
  "cleanup_rows now [] = tx_return []"
| "cleanup_rows now (i # is) =
     tx_bind (if it_State i = Unread \<or> it_State i = Claimed
              then enqueueVoiceMailEvent i ''expired'' now else tx_return ()) (\<lambda>_.
     tx_bind (stmt (update_items (\<lambda>x. it_ID x = it_ID i) (release_item DeletePending (pg_ts now)))) (\<lambda>_.
     tx_bind (cleanup_rows now is) (\<lambda>rest.
     tx_return (release_item DeletePending now i # rest))))"

definition due_rows :: "pg_env \<Rightarrow> time \<Rightarrow> int \<Rightarrow> store \<Rightarrow> Item list" where
  "due_rows env now limit t = take (nat (boundedLimit limit)) (order_by (item_order env it_ExpiresAt)
     (filter (cleanup_due now) (voice_mail_items t)))"

definition ClaimCleanup :: "pg_env \<Rightarrow> time \<Rightarrow> int \<Rightarrow> Item list vm_tx" where
  "ClaimCleanup env now limit =
     in_tx (tx_bind (query (due_rows env now limit)) (\<lambda>items.
            tx_bind (cleanup_rows now items) (\<lambda>out. tx_return (Commit out))))"

section \<open>The invariant and the life of an item\<close>

text \<open>
  Identifiers and object keys are unique, every row satisfies the checks of the table, and the two
  states \<open>consumed\<close> and \<open>expired\<close> of the type are never written.
\<close>

definition vm_inv :: "store \<Rightarrow> bool" where
  "vm_inv t \<longleftrightarrow> unique_key it_ID (voice_mail_items t) \<and> unique_key ObjectKey (voice_mail_items t)
     \<and> list_all (\<lambda>i. item_check i \<and> it_State i \<notin> {Consumed, Expired}) (voice_mail_items t)"

text \<open>Where an item may be after some steps: the states only move towards deletion.\<close>

fun leads_to :: "ItemState \<Rightarrow> ItemState \<Rightarrow> bool" where
  "leads_to PendingUpload s \<longleftrightarrow> s \<notin> {Consumed, Expired}"
| "leads_to Unread s \<longleftrightarrow> s \<in> {Unread, Claimed, DeletePending, Deleted}"
| "leads_to Claimed s \<longleftrightarrow> s \<in> {Unread, Claimed, DeletePending, Deleted}"
| "leads_to Rejected s \<longleftrightarrow> s \<in> {Rejected, DeletePending, Deleted}"
| "leads_to DeletePending s \<longleftrightarrow> s \<in> {DeletePending, Deleted}"
| "leads_to s s' \<longleftrightarrow> s' = s"

text \<open>The columns an operation may change: the state, the claim and the time of the update.\<close>

definition item_core :: "Item \<Rightarrow> Item" where
  "item_core i = i\<lparr>it_State := PendingUpload, PlaybackID := [], LeaseExpiresAt := None, it_UpdatedAt := 0\<rparr>"

definition item_step :: "Item \<Rightarrow> Item \<Rightarrow> bool" where
  "item_step i i' \<longleftrightarrow> item_core i' = item_core i \<and> leads_to (it_State i) (it_State i')"

definition items_evolve :: "Item list \<Rightarrow> Item list \<Rightarrow> bool" where
  "items_evolve is is' \<longleftrightarrow> (\<forall>i \<in> set is. \<exists>i' \<in> set is'. item_step i i')"

text \<open>What an operation of the repository may do: change items as above and add to the ledger.\<close>

definition vm_delta :: "store \<Rightarrow> store \<Rightarrow> bool" where
  "vm_delta t t' \<longleftrightarrow> vm_inv t' \<and> items_evolve (voice_mail_items t) (voice_mail_items t') \<and> ledger_extends t t'
     \<and> pairing_sessions t' = pairing_sessions t \<and> device_relationships t' = device_relationships t
     \<and> created_events (outbox t') = created_events (outbox t)"

text \<open>No operation but the marking of a deletion makes an item deleted.\<close>

definition no_new_deleted :: "store \<Rightarrow> store \<Rightarrow> bool" where
  "no_new_deleted t t' \<longleftrightarrow> (\<forall>i' \<in> set (voice_mail_items t'). it_State i' = Deleted \<longrightarrow>
     (\<exists>i \<in> set (voice_mail_items t). it_State i = Deleted \<and> item_core i = item_core i'))"

definition vm_local :: "store \<Rightarrow> store \<Rightarrow> bool" where
  "vm_local t t' \<longleftrightarrow> vm_delta t t' \<and> no_new_deleted t t' \<and> idempotency_records t' = idempotency_records t"

definition vm_keep :: "store \<Rightarrow> store \<Rightarrow> bool" where
  "vm_keep t t' \<longleftrightarrow> vm_delta t t' \<and> no_new_deleted t t'"

lemma leads_to_refl [simp]: "leads_to s s"
  by (cases s) auto

lemma leads_to_trans: "leads_to s t \<Longrightarrow> leads_to t u \<Longrightarrow> leads_to s u"
  by (cases s; cases t) auto

lemma leads_to_written: "leads_to s s' \<Longrightarrow> s \<notin> {Consumed, Expired} \<Longrightarrow> s' \<notin> {Consumed, Expired}"
  by (cases s) auto

lemma item_step_refl [simp]: "item_step i i"
  by (simp add: item_step_def)

lemma item_step_trans: "item_step i j \<Longrightarrow> item_step j k \<Longrightarrow> item_step i k"
  by (auto simp: item_step_def intro: leads_to_trans)

lemma item_core_sel:
  "item_core i' = item_core i \<Longrightarrow> it_ID i' = it_ID i \<and> ObjectKey i' = ObjectKey i \<and> MediaFormat i' = MediaFormat i
     \<and> DurationMS i' = DurationMS i \<and> SizeBytes i' = SizeBytes i \<and> ChecksumSHA256 i' = ChecksumSHA256 i
     \<and> it_Policy i' = it_Policy i \<and> it_ExpiresAt i' = it_ExpiresAt i"
proof -
  assume *: "item_core i' = item_core i"
  show ?thesis
    using arg_cong [OF *, of it_ID] arg_cong [OF *, of ObjectKey] arg_cong [OF *, of MediaFormat]
      arg_cong [OF *, of DurationMS] arg_cong [OF *, of SizeBytes] arg_cong [OF *, of ChecksumSHA256]
      arg_cong [OF *, of it_Policy] arg_cong [OF *, of it_ExpiresAt]
    by (simp add: item_core_def)
qed

lemma item_core_updates [simp]:
  "item_core (set_state st now i) = item_core i"
  "item_core (claim_item p l now i) = item_core i"
  "item_core (release_item st now i) = item_core i"
  by (simp_all add: item_core_def set_state_def claim_item_def release_item_def)

lemma it_State_updates [simp]:
  "it_State (set_state st now i) = st" "it_State (claim_item p l now i) = Claimed"
  "it_State (release_item st now i) = st"
  by (simp_all add: set_state_def claim_item_def release_item_def)

lemma it_ID_updates [simp]:
  "it_ID (set_state st now i) = it_ID i" "it_ID (claim_item p l now i) = it_ID i"
  "it_ID (release_item st now i) = it_ID i"
  by (simp_all add: set_state_def claim_item_def release_item_def)

lemma item_step_delete:
  "it_State i \<notin> {Deleted, Consumed, Expired} \<Longrightarrow> item_step i (release_item DeletePending now i)"
  by (cases "it_State i") (simp_all add: item_step_def)

lemma items_evolve_update:
  assumes "\<And>i. i \<in> set is \<Longrightarrow> P i \<Longrightarrow> item_step i (g i)"
  shows "items_evolve is (update_where P g is)"
  unfolding items_evolve_def
proof
  fix i assume "i \<in> set is"
  with assms show "\<exists>i' \<in> set (update_where P g is). item_step i i'"
    by (intro bexI [of _ "if P i then g i else i"]) (auto simp: update_where_def)
qed

lemma items_evolve_mono: "set is \<subseteq> set is' \<Longrightarrow> items_evolve is is'"
  unfolding items_evolve_def using item_step_refl by blast

lemma items_evolve_trans: "items_evolve is js \<Longrightarrow> items_evolve js ks \<Longrightarrow> items_evolve is ks"
  unfolding items_evolve_def by (meson item_step_trans)

lemma no_new_deleted_refl [simp]: "no_new_deleted t t"
  by (auto simp: no_new_deleted_def)

lemma no_new_deleted_trans: "no_new_deleted t u \<Longrightarrow> no_new_deleted u v \<Longrightarrow> no_new_deleted t v"
  unfolding no_new_deleted_def by metis

lemma vm_delta_refl: "vm_inv t \<Longrightarrow> vm_delta t t"
  by (simp add: vm_delta_def items_evolve_mono)

lemma vm_delta_trans: "vm_delta t u \<Longrightarrow> vm_delta u v \<Longrightarrow> vm_delta t v"
  by (auto simp: vm_delta_def intro: items_evolve_trans ledger_extends_trans)

lemma vm_local_refl: "vm_inv t \<Longrightarrow> vm_local t t"
  by (simp add: vm_local_def vm_delta_refl)

lemma vm_local_trans: "vm_local t u \<Longrightarrow> vm_local u v \<Longrightarrow> vm_local t v"
  by (auto simp: vm_local_def intro: vm_delta_trans no_new_deleted_trans)

lemma vm_local_inv: "vm_local t t' \<Longrightarrow> vm_inv t'"
  by (simp add: vm_local_def vm_delta_def)

lemma vm_keep_refl: "vm_inv t \<Longrightarrow> vm_keep t t"
  by (simp add: vm_keep_def vm_delta_refl)

text \<open>The writes: an update of rows that respects the life of an item, an insertion, an event.\<close>

lemma update_items_delta:
  assumes inv: "vm_inv t" and u: "update_items P g t = Some ((), t')"
    and g: "\<And>i. i \<in> set (voice_mail_items t) \<Longrightarrow> P i \<Longrightarrow> item_step i (g i)"
  shows "vm_delta t t'"
proof -
  from u have t': "t' = t\<lparr>voice_mail_items := update_where P g (voice_mail_items t)\<rparr>"
    and ok: "\<And>i. i \<in> set (voice_mail_items t) \<Longrightarrow> P i \<Longrightarrow> item_check (g i)"
    by (auto simp: update_items_def list_all_iff split: if_splits)
  have keys: "it_ID (if P i then g i else i) = it_ID i \<and> ObjectKey (if P i then g i else i) = ObjectKey i"
    if "i \<in> set (voice_mail_items t)" for i
    using g [OF that] item_core_sel [of "g i" i] by (simp add: item_step_def)
  have "it_State (g i) \<notin> {Consumed, Expired}" if "i \<in> set (voice_mail_items t)" "P i" for i
  proof (rule leads_to_written)
    show "leads_to (it_State i) (it_State (g i))" using g [OF that] by (simp add: item_step_def)
    show "it_State i \<notin> {Consumed, Expired}" using inv that(1) by (simp add: vm_inv_def list_all_iff)
  qed
  then have "list_all (\<lambda>i. item_check i \<and> it_State i \<notin> {Consumed, Expired}) (update_where P g (voice_mail_items t))"
    using inv ok unfolding list_all_update_where by (simp add: vm_inv_def list_all_iff)
  moreover have "map it_ID (update_where P g (voice_mail_items t)) = map it_ID (voice_mail_items t)"
    "map ObjectKey (update_where P g (voice_mail_items t)) = map ObjectKey (voice_mail_items t)"
    using keys by (simp_all add: update_where_def)
  ultimately have "vm_inv t'" using inv unfolding vm_inv_def unique_key_def by (simp add: t')
  then show ?thesis using g by (simp add: vm_delta_def ledger_extends_def t' items_evolve_update)
qed

lemma update_item_local:
  assumes "vm_inv t" "item \<in> set (voice_mail_items t)" "item_step item (g item)" "it_State (g item) \<noteq> Deleted"
    and "update_items (\<lambda>x. it_ID x = it_ID item) g t = Some ((), t')"
  shows "vm_local t t'"
proof -
  have only: "i = item" if "i \<in> set (voice_mail_items t)" "it_ID i = it_ID item" for i
    using that assms(1,2) by (auto simp: vm_inv_def dest: unique_keyD)
  have "vm_delta t t'"
    by (rule update_items_delta [OF assms(1,5)]) (use only assms(3) in auto)
  moreover have "voice_mail_items t' = update_where (\<lambda>x. it_ID x = it_ID item) g (voice_mail_items t)"
      "idempotency_records t' = idempotency_records t"
    using assms(5) by (auto simp: update_items_def split: if_splits)
  moreover then have "no_new_deleted t t'"
    unfolding no_new_deleted_def
  proof (intro ballI impI)
    fix i' assume i': "i' \<in> set (voice_mail_items t')" "it_State i' = Deleted"
    then obtain i where i: "i \<in> set (voice_mail_items t)" "i' = (if it_ID i = it_ID item then g i else i)"
      using \<open>voice_mail_items t' = _\<close> by (auto simp: in_set_update_where)
    with only [of i] assms(4) i'(2) have "i' = i" by (cases "it_ID i = it_ID item") auto
    with i(1) i'(2) show "\<exists>i \<in> set (voice_mail_items t). it_State i = Deleted \<and> item_core i = item_core i'"
      by blast
  qed
  ultimately show ?thesis by (simp add: vm_local_def)
qed

lemma insert_item_local:
  assumes "vm_inv t" "it_State i = PendingUpload" "insert_item i t = Some ((), t')"
  shows "vm_local t t'"
  using assms
  by (auto simp: insert_item_def vm_local_def vm_delta_def no_new_deleted_def ledger_extends_def vm_inv_def
      unique_key_append intro!: items_evolve_mono split: if_splits)

lemma outbox_insert_ignore_simps [simp]:
  "pairing_sessions (outbox_insert_ignore ev t) = pairing_sessions t"
  "device_relationships (outbox_insert_ignore ev t) = device_relationships t"
  "idempotency_records (outbox_insert_ignore ev t) = idempotency_records t"
  "voice_mail_items (outbox_insert_ignore ev t) = voice_mail_items t"
  by (simp_all add: outbox_insert_ignore_def)

lemma created_events_insert_ignore:
  "ev_Type ev \<noteq> ''pairing.relationship.created'' \<Longrightarrow>
     created_events (outbox (outbox_insert_ignore ev t)) = created_events (outbox t)"
  by (simp add: outbox_insert_ignore_def created_events_outbox_add)

lemma voicemail_event_type: "ev_Type (voicemail_event i sfx now) \<noteq> ''pairing.relationship.created''"
  by (simp add: voicemail_event_def)

lemma voicemail_event_local:
  "vm_inv t \<Longrightarrow> vm_local t (outbox_insert_ignore (voicemail_event i sfx now) t)"
  by (simp add: vm_local_def vm_delta_def no_new_deleted_def ledger_extends_def vm_inv_def
      created_events_insert_ignore [OF voicemail_event_type] items_evolve_mono) blast

section \<open>Effects of the operations\<close>

lemma find_item_SomeD: "find_item P t = Some i \<Longrightarrow> i \<in> set (voice_mail_items t) \<and> P i"
  by (auto simp: find_item_def dest: find_Some_in_set)

lemma claim_row_SomeD:
  "claim_row env u v i now t = Some x \<Longrightarrow> x \<in> set (voice_mail_items t) \<and> for_recipient u v x
     \<and> it_ExpiresAt x > pg_ts now"
proof -
  assume *: "claim_row env u v i now t = Some x"
  show ?thesis
  proof (cases "TrimSpace i = []")
    case True
    let ?L = "filter (\<lambda>x. it_State x = Unread \<or> (it_State x = Claimed \<and> lease_over now x))
          (filter (\<lambda>x. for_recipient u v x \<and> it_ExpiresAt x > pg_ts now) (voice_mail_items t))"
    from True * have "\<exists>xs. order_by (item_order env it_CreatedAt) ?L = x # xs"
      by (simp add: claim_row_def Let_def split: list.splits)
    then have "x \<in> set (order_by (item_order env it_CreatedAt) ?L)" by (metis list.set_intros(1))
    then show ?thesis by simp
  next
    case False
    with * show ?thesis by (auto simp: claim_row_def Let_def dest: find_Some_in_set)
  qed
qed

lemma requireVoiceMailPolicy_tables:
  "requireVoiceMailPolicy u p d = (Inr x, d') \<Longrightarrow> tables d' = tables d"
  by (auto simp: requireVoiceMailPolicy_def tx_Inr split: option.splits if_splits)

lemma create_upload_body_local:
  assumes "create_upload_body env c now d = (Inr x, d')" "vm_inv (tables d)"
  shows "vm_local (tables d) (tables d')"
  using assms
  by (auto simp: create_upload_body_def Let_def tx_bind_Inr query_Inr stmt_Inr tx_return_Inr tx_fail_Inr
      split: option.splits prod.splits dest!: requireVoiceMailPolicy_tables intro!: insert_item_local)

lemma enqueue_local:
  "enqueueVoiceMailEvent i sfx now d = (Inr x, d') \<Longrightarrow> vm_inv (tables d) \<Longrightarrow> vm_local (tables d) (tables d')"
  by (auto simp: enqueueVoiceMailEvent_def exec_Inr voicemail_event_local)

text \<open>Completing an upload rejects the item or, for an active relationship, makes it unread.\<close>

lemma complete_upload_body_Inr:
  assumes "complete_upload_body u v i now d = (Inr x, d')"
  obtains (rejected) item where "item \<in> set (voice_mail_items (tables d))" "for_sender u v i item"
      "it_State item = PendingUpload" "x = set_state Rejected now item"
      "\<forall>r. find_relationship (it_RelationshipID item) (tables d) = Some r \<longrightarrow> RevokedAt r \<noteq> None"
      "update_items (\<lambda>x. it_ID x = it_ID item) (set_state Rejected (pg_ts now)) (tables d) = Some ((), tables d')"
    | (available) item r t1 where "item \<in> set (voice_mail_items (tables d))" "for_sender u v i item"
      "it_State item = PendingUpload" "x = set_state Unread now item" "now < it_ExpiresAt item"
      "find_relationship (it_RelationshipID item) (tables d) = Some r" "RevokedAt r = None"
      "valid_generation r item (owner u) (TrimSpace v)"
      "update_items (\<lambda>x. it_ID x = it_ID item) (set_state Unread (pg_ts now)) (tables d) = Some ((), t1)"
      "tables d' = outbox_insert_ignore (voicemail_event (set_state Unread now item) ''available'' now) t1"
proof -
  from assms obtain item where item: "find_item (for_sender u v i) (tables d) = Some item"
    by (auto simp: complete_upload_body_def tx_Inr split: option.splits)
  note f = find_item_SomeD [OF item]
  show thesis
  proof (cases "find_relationship (it_RelationshipID item) (tables d)")
    case None
    with assms item f show thesis
      by (auto simp: complete_upload_body_def tx_Inr intro!: rejected split: if_splits)
  next
    case (Some r)
    show thesis
    proof (cases "RevokedAt r")
      case None
      with assms item f Some show thesis
        by (auto simp: complete_upload_body_def tx_Inr enqueueVoiceMailEvent_def After_def
            intro!: available split: if_splits)
    next
      case (Some x)
      with assms item f \<open>find_relationship _ _ = Some r\<close> show thesis
        by (auto simp: complete_upload_body_def tx_Inr intro!: rejected split: if_splits)
    qed
  qed
qed

lemma complete_upload_body_local:
  assumes "complete_upload_body u v i now d = (Inr x, d')" "vm_inv (tables d)"
  shows "vm_local (tables d) (tables d')"
  using assms(1)
proof (cases rule: complete_upload_body_Inr)
  case (rejected item)
  then show ?thesis using assms(2) by (intro update_item_local [OF _ rejected(1) _ _ rejected(6)])
    (simp_all add: item_step_def)
next
  case (available item r t1)
  have "vm_local (tables d) t1" using assms(2) available(3)
    by (intro update_item_local [OF _ available(1) _ _ available(9)]) (simp_all add: item_step_def)
  moreover then have "vm_inv t1" by (rule vm_local_inv)
  ultimately show ?thesis unfolding available(10) by (rule vm_local_trans [OF _ voicemail_event_local])
qed

lemma claim_body_Inr:
  assumes "claim_body env u v i p now lease d = (Inr x, d')"
  obtains item where "claim_row env u v i now (tables d) = Some item"
    "it_State item = Unread \<or> it_State item = Claimed \<and> \<not> lease_live now item"
    "x = claim_item p lease now item"
    "update_items (\<lambda>x. it_ID x = it_ID item) (claim_item p (pg_ts lease) (pg_ts now)) (tables d) = Some ((), tables d')"
proof -
  from assms obtain item where item: "claim_row env u v i now (tables d) = Some item"
    by (auto simp: claim_body_def tx_Inr split: option.splits)
  with assms show thesis
    by (auto simp: claim_body_def tx_Inr intro!: that [OF item] split: if_splits)
qed

lemma claim_body_local:
  assumes "claim_body env u v i p now lease d = (Inr x, d')" "vm_inv (tables d)"
  shows "vm_local (tables d) (tables d')"
  using assms(1)
proof (rule claim_body_Inr)
  fix item
  assume *: "claim_row env u v i now (tables d) = Some item"
    "it_State item = Unread \<or> it_State item = Claimed \<and> \<not> lease_live now item"
    "update_items (\<lambda>x. it_ID x = it_ID item) (claim_item p (pg_ts lease) (pg_ts now)) (tables d) = Some ((), tables d')"
  show ?thesis
    by (rule update_item_local [OF assms(2) _ _ _ *(3)])
      (use claim_row_SomeD [OF *(1)] *(2) in \<open>auto simp: item_step_def\<close>)
qed

lemma playback_body_Inr:
  assumes "playback_body u v i p ok now d = (Inr x, d')"
  obtains item t1 st where "item \<in> set (voice_mail_items (tables d))" "it_ID item = i" "for_recipient u v item"
    "it_State item = Claimed" "PlaybackID item = p" "lease_live now item"
    "st = (if ok \<and> it_Policy item = Ephemeral then DeletePending else Unread)"
    "x = release_item st now item"
    "update_items (\<lambda>x. it_ID x = it_ID item) (release_item st (pg_ts now)) (tables d) = Some ((), t1)"
    "tables d' = (if ok then outbox_insert_ignore (voicemail_event x
        (if st = Unread then ''available'' else ''consumed'') now) t1 else t1)"
proof -
  from assms obtain item where item: "find_item (\<lambda>x. it_ID x = i \<and> for_recipient u v x) (tables d) = Some item"
    by (auto simp: playback_body_def tx_Inr split: option.splits)
  note f = find_item_SomeD [OF item]
  define st where "st = (if ok \<and> it_Policy item = Ephemeral then DeletePending else Unread)"
  from assms item have *: "it_State item = Claimed \<and> PlaybackID item = p \<and> lease_live now item"
    by (auto simp: playback_body_def tx_Inr split: if_splits)
  have "\<exists>t1. x = release_item st now item
      \<and> update_items (\<lambda>x. it_ID x = it_ID item) (release_item st (pg_ts now)) (tables d) = Some ((), t1)
      \<and> tables d' = (if ok then outbox_insert_ignore (voicemail_event x
           (if st = Unread then ''available'' else ''consumed'') now) t1 else t1)"
    using assms item *
    by (cases ok; cases "it_Policy item = Ephemeral")
      (auto simp: playback_body_def tx_Inr Let_def st_def enqueueVoiceMailEvent_def)
  with that [OF _ _ _ _ _ _ st_def] f * show thesis by blast
qed

lemma playback_body_local:
  assumes "playback_body u v i p ok now d = (Inr x, d')" "vm_inv (tables d)"
  shows "vm_local (tables d) (tables d')"
  using assms(1)
proof (rule playback_body_Inr)
  fix item t1 st
  assume *: "item \<in> set (voice_mail_items (tables d))" "it_State item = Claimed"
    "st = (if ok \<and> it_Policy item = Ephemeral then DeletePending else Unread)"
    "update_items (\<lambda>x. it_ID x = it_ID item) (release_item st (pg_ts now)) (tables d) = Some ((), t1)"
    "tables d' = (if ok then outbox_insert_ignore (voicemail_event x
        (if st = Unread then ''available'' else ''consumed'') now) t1 else t1)"
  have l: "vm_local (tables d) t1"
    by (rule update_item_local [OF assms(2) *(1) _ _ *(4)]) (use *(2,3) in \<open>auto simp: item_step_def\<close>)
  moreover then have "vm_inv t1" by (rule vm_local_inv)
  ultimately show ?thesis
    using *(5) vm_local_trans [OF l voicemail_event_local] by (cases ok) simp_all
qed

lemma delete_body_local:
  assumes "delete_body u i now d = (Inr x, d')" "vm_inv (tables d)"
  shows "vm_local (tables d) (tables d')"
proof -
  from assms obtain item where item: "item \<in> set (voice_mail_items (tables d))"
      and "it_State item = Deleted \<and> tables d' = tables d \<or> it_State item \<noteq> Deleted \<and>
        update_items (\<lambda>x. it_ID x = it_ID item) (release_item DeletePending (pg_ts now)) (tables d) = Some ((), tables d')"
    by (auto simp: delete_body_def tx_Inr split: option.splits if_splits dest!: find_item_SomeD)
  moreover have "it_State item \<notin> {Consumed, Expired}" using item assms(2) by (auto simp: vm_inv_def list_all_iff)
  moreover then have "it_State item \<noteq> Deleted \<Longrightarrow> item_step item (release_item DeletePending (pg_ts now) item)"
    by (simp add: item_step_delete)
  ultimately show ?thesis using assms(2) update_item_local [OF assms(2) item] vm_local_refl by auto
qed

lemma update_items_sets:
  assumes "vm_inv t" "update_items (\<lambda>x. it_ID x = it_ID i) g t = Some ((), t')"
    and "j \<in> set (voice_mail_items t)" "it_ID j \<noteq> it_ID i"
  shows "j \<in> set (voice_mail_items t')"
  using assms by (auto simp: update_items_def in_set_update_where split: if_splits intro!: bexI [of _ j])

lemma cleanup_rows_local:
  assumes "cleanup_rows now is d = (Inr out, d')" "vm_inv (tables d)" "distinct (map it_ID is)"
    "\<And>i. i \<in> set is \<Longrightarrow> i \<in> set (voice_mail_items (tables d)) \<and> it_State i \<noteq> Deleted"
  shows "vm_local (tables d) (tables d')"
  using assms
proof (induction "is" arbitrary: d d' out)
  case Nil
  then show ?case by (simp add: tx_Inr vm_local_refl)
next
  case (Cons i "is")
  from Cons.prems(1) obtain d1 t2 rest where
      ev: "(if it_State i = Unread \<or> it_State i = Claimed
        then enqueueVoiceMailEvent i ''expired'' now else tx_return ()) d = (Inr (), d1)"
      and upd: "update_items (\<lambda>x. it_ID x = it_ID i) (release_item DeletePending (pg_ts now)) (tables d1) = Some ((), t2)"
      and rest: "cleanup_rows now is ((next_call d1)\<lparr>tables := t2\<rparr>) = (Inr rest, d')"
    by (auto simp: tx_bind_Inr stmt_Inr tx_return_Inr simp del: if_split_asm)
  define d2 where "d2 = (next_call d1)\<lparr>tables := t2\<rparr>"
  note rest = rest [folded d2_def]
  have d2: "tables d2 = t2" by (simp add: d2_def)
  have l1: "vm_local (tables d) (tables d1)"
    using ev Cons.prems(2) by (auto simp: tx_Inr vm_local_refl dest: enqueue_local split: if_splits)
  have items: "voice_mail_items (tables d1) = voice_mail_items (tables d)"
    using ev by (auto simp: tx_Inr enqueueVoiceMailEvent_def split: if_splits)
  have inv1: "vm_inv (tables d1)" using l1 by (rule vm_local_inv)
  have i: "i \<in> set (voice_mail_items (tables d1))" "it_State i \<noteq> Deleted" using Cons.prems(4) items by auto
  then have "item_step i (release_item DeletePending (pg_ts now) i)"
    using inv1 by (intro item_step_delete) (auto simp: vm_inv_def list_all_iff)
  with update_item_local [OF inv1 i(1) _ _ upd] have l2: "vm_local (tables d1) (tables d2)" by (simp add: d2)
  have "j \<in> set (voice_mail_items (tables d2)) \<and> it_State j \<noteq> Deleted" if "j \<in> set is" for j
  proof -
    have "it_ID j \<noteq> it_ID i" using that Cons.prems(3) by (metis distinct.simps(2) image_eqI list.map(2) list.set_map)
    then show ?thesis using that Cons.prems(4) items update_items_sets [OF inv1 upd] by (simp add: d2)
  qed
  with Cons.IH [OF rest] l2 Cons.prems(3) have "vm_local (tables d2) (tables d')" by (simp add: vm_local_inv)
  with l1 l2 show ?case by (blast intro: vm_local_trans)
qed

section \<open>The contract of the repository\<close>

lemma vm_local_keep: "vm_local t t' \<Longrightarrow> vm_keep t t'"
  by (simp add: vm_local_def vm_keep_def)

lemma vm_local_insert_record:
  "vm_local t t' \<Longrightarrow> insert_record rec t' = Some ((), t'') \<Longrightarrow> vm_keep t t''"
  by (auto simp: vm_local_def vm_delta_def vm_keep_def no_new_deleted_def ledger_extends_def insert_record_def
      vm_inv_def split: if_splits)

text \<open>A voice-mail mutation: its body changes items only, so the runner keeps the contract.\<close>

locale voicemail_op =
  fixes body :: "Item vm_tx"
  assumes body_local: "body d = (Inr x, d') \<Longrightarrow> vm_inv (tables d) \<Longrightarrow> vm_local (tables d) (tables d')"
begin

lemma run_changes: "changes vm_inv vm_keep (runMutationValue request operation created body)"
proof (cases "requireMutationOperation request operation")
  case None
  have "changes vm_inv vm_keep (tx_bind (RunIdempotent request (OItem \<circ> json_item) created body)
      (\<lambda>out. case outcome out of OItem i \<Rightarrow> tx_return (json_item i) | _ \<Rightarrow> tx_fail (Invalid ''decode committed outcome'')))"
  proof (intro changes_bind_first RunIdempotent_changes vm_keep_refl)
    fix d :: "store db" and v d' rec t'
    assume "body d = (Inr v, d')" "vm_inv (tables d)" "insert_record rec (tables d') = Some ((), t')"
    then show "vm_keep (tables d) t'" using body_local vm_local_insert_record by blast
  qed (auto split: mutation_outcome.splits)
  with None show ?thesis by (simp add: runMutationValue_def)
next
  case (Some msg)
  then show ?thesis by (auto simp: runMutationValue_def intro: changes_readonly vm_keep_refl)
qed

end

interpretation vm_create: voicemail_op "create_upload_body env c now"
  by unfold_locales (rule create_upload_body_local)

interpretation vm_complete: voicemail_op "complete_upload_body u v i now"
  by unfold_locales (rule complete_upload_body_local)

interpretation vm_claim: voicemail_op "claim_body env u v i p now lease"
  by unfold_locales (rule claim_body_local)

interpretation vm_playback: voicemail_op "playback_body u v i p ok now"
  by unfold_locales (rule playback_body_local)

interpretation vm_delete: voicemail_op "delete_body u i now"
  by unfold_locales (rule delete_body_local)

lemma MarkDeleted_changes: "changes vm_inv vm_delta (MarkDeleted i now)"
  unfolding MarkDeleted_def
proof (intro changes_stmt vm_delta_refl)
  fix t :: store and x t'
  assume inv: "vm_inv t" and u: "update_items (\<lambda>x. it_ID x = i \<and> it_State x \<in> {DeletePending, Deleted, Rejected})
      (set_state Deleted (pg_ts now)) t = Some (x, t')"
  show "vm_delta t t'"
    by (rule update_items_delta [OF inv, where P = "\<lambda>x. it_ID x = i \<and> it_State x \<in> {DeletePending, Deleted, Rejected}"
          and g = "set_state Deleted (pg_ts now)"]) (use u in \<open>auto simp: item_step_def\<close>)
qed

lemma due_rows_subset:
  "i \<in> set (due_rows env now limit t) \<Longrightarrow> i \<in> set (voice_mail_items t) \<and> cleanup_due now i"
  unfolding due_rows_def by (drule in_set_takeD) simp

lemma due_rows_distinct:
  assumes "vm_inv t"
  shows "distinct (map it_ID (due_rows env now limit t))"
proof -
  have d: "distinct (map it_ID (voice_mail_items t))" using assms by (simp add: vm_inv_def unique_key_def)
  then have "distinct (due_rows env now limit t)" unfolding due_rows_def
    by (intro distinct_take distinct_order_by distinct_filter) (simp add: distinct_map)
  moreover have "inj_on it_ID (set (due_rows env now limit t))"
    using d due_rows_subset by (auto simp: distinct_map intro: inj_on_subset)
  ultimately show ?thesis by (simp add: distinct_map)
qed

lemma ClaimCleanup_changes: "changes vm_inv vm_keep (ClaimCleanup env now limit)"
  unfolding ClaimCleanup_def
proof (rule changes_in_tx)
  fix d x d'
  assume "tx_bind (query (due_rows env now limit)) (\<lambda>items. tx_bind (cleanup_rows now items)
      (\<lambda>out. tx_return (Commit out))) d = (Inr (Commit x), d')" and inv: "vm_inv (tables d)"
  then have run: "cleanup_rows now (due_rows env now limit (tables d)) (next_call d) = (Inr x, d')"
    by (simp add: tx_bind_Inr query_Inr tx_return_Inr)
  have "i \<in> set (voice_mail_items (tables d)) \<and> it_State i \<noteq> Deleted"
    if "i \<in> set (due_rows env now limit (tables d))" for i
    using due_rows_subset [OF that] by (auto simp: cleanup_due_def)
  then have "vm_local (tables d) (tables d')"
    using cleanup_rows_local [OF run] inv due_rows_distinct by simp
  then show "vm_keep (tables d) (tables d')" by (rule vm_local_keep)
qed (rule vm_keep_refl)

section \<open>What is offered to a recipient\<close>

text \<open>
  An item that a recipient can list, claim or play. Only the completion of an upload makes one of an item that
  was none: every other operation leaves the items that are not offered so.
\<close>

definition offered_item :: "Item \<Rightarrow> bool" where
  "offered_item i \<longleftrightarrow> it_State i = Unread \<or> it_State i = Claimed"

definition no_new_offer :: "string set \<Rightarrow> store \<Rightarrow> store \<Rightarrow> bool" where
  "no_new_offer ids t t' \<longleftrightarrow> (\<forall>i' \<in> set (voice_mail_items t'). offered_item i' \<longrightarrow>
     (\<exists>i \<in> set (voice_mail_items t). item_core i = item_core i'
        \<and> (offered_item i \<or> it_State i = PendingUpload \<and> it_ID i \<in> ids)))"

lemma no_new_offer_refl [simp]: "no_new_offer ids t t"
  by (auto simp: no_new_offer_def)

lemma no_new_offer_same: "voice_mail_items t' = voice_mail_items t \<Longrightarrow> no_new_offer ids t t'"
  by (auto simp: no_new_offer_def)

lemma no_new_offer_trans: "no_new_offer {} t u \<Longrightarrow> no_new_offer {} u v \<Longrightarrow> no_new_offer {} t v"
  unfolding no_new_offer_def by (metis empty_iff)

lemma no_new_offer_mono: "no_new_offer A t t' \<Longrightarrow> A \<subseteq> B \<Longrightarrow> no_new_offer B t t'"
  unfolding no_new_offer_def by blast

lemma update_items_offer:
  assumes "update_items P g t = Some ((), t')"
    and "\<And>i. i \<in> set (voice_mail_items t) \<Longrightarrow> P i \<Longrightarrow> item_core (g i) = item_core i
      \<and> (offered_item (g i) \<longrightarrow> offered_item i \<or> it_State i = PendingUpload \<and> it_ID i \<in> ids)"
  shows "no_new_offer ids t t'"
proof -
  have "voice_mail_items t' = update_where P g (voice_mail_items t)"
    using assms(1) by (auto simp: update_items_def split: if_splits)
  then show ?thesis using assms(2) unfolding no_new_offer_def by (fastforce simp: in_set_update_where)
qed

lemma update_item_offer:
  assumes "vm_inv t" "item \<in> set (voice_mail_items t)" "item_core (g item) = item_core item"
    "offered_item (g item) \<Longrightarrow> offered_item item \<or> it_State item = PendingUpload \<and> it_ID item \<in> ids"
    and "update_items (\<lambda>x. it_ID x = it_ID item) g t = Some ((), t')"
  shows "no_new_offer ids t t'"
proof (rule update_items_offer [OF assms(5)])
  fix i assume "i \<in> set (voice_mail_items t)" "it_ID i = it_ID item"
  then have "i = item" using assms(1,2) by (auto simp: vm_inv_def dest: unique_keyD)
  then show "item_core (g i) = item_core i \<and> (offered_item (g i) \<longrightarrow> offered_item i \<or> it_State i = PendingUpload \<and> it_ID i \<in> ids)"
    using assms(3,4) by blast
qed

lemma offered_updates [simp]:
  "offered_item (set_state st now i) \<longleftrightarrow> st = Unread \<or> st = Claimed"
  "offered_item (claim_item p l now i)"
  "offered_item (release_item st now i) \<longleftrightarrow> st = Unread \<or> st = Claimed"
  by (simp_all add: offered_item_def)

lemma create_upload_body_offer:
  assumes "create_upload_body env c now d = (Inr x, d')" "vm_inv (tables d)"
  shows "no_new_offer {} (tables d) (tables d')"
  using assms
  by (auto simp: create_upload_body_def Let_def tx_bind_Inr query_Inr stmt_Inr tx_return_Inr tx_fail_Inr insert_item_def
      no_new_offer_def offered_item_def split: option.splits prod.splits if_splits dest!: requireVoiceMailPolicy_tables)

lemma complete_upload_body_offer:
  assumes "complete_upload_body u v i now d = (Inr x, d')" "vm_inv (tables d)"
  shows "no_new_offer {i} (tables d) (tables d')"
  using assms(1)
proof (cases rule: complete_upload_body_Inr)
  case (rejected item)
  then show ?thesis by (intro update_item_offer [OF assms(2) rejected(1) _ _ rejected(6)]) simp_all
next
  case (available item r t1)
  have "it_ID item = i" using available(2) by (simp add: for_sender_def)
  then have "no_new_offer {i} (tables d) t1"
    using available(3) by (intro update_item_offer [OF assms(2) available(1) _ _ available(9)]) simp_all
  then show ?thesis by (simp add: available(10) no_new_offer_def)
qed

lemma claim_body_offer:
  assumes "claim_body env u v i p now lease d = (Inr x, d')" "vm_inv (tables d)"
  shows "no_new_offer {} (tables d) (tables d')"
  using assms(1)
proof (rule claim_body_Inr)
  fix item
  assume *: "claim_row env u v i now (tables d) = Some item"
    "it_State item = Unread \<or> it_State item = Claimed \<and> \<not> lease_live now item"
    "update_items (\<lambda>x. it_ID x = it_ID item) (claim_item p (pg_ts lease) (pg_ts now)) (tables d) = Some ((), tables d')"
  show ?thesis
    by (rule update_item_offer [OF assms(2) _ _ _ *(3)])
      (use claim_row_SomeD [OF *(1)] *(2) in \<open>auto simp: offered_item_def\<close>)
qed

lemma playback_body_offer:
  assumes "playback_body u v i p ok now d = (Inr x, d')" "vm_inv (tables d)"
  shows "no_new_offer {} (tables d) (tables d')"
  using assms(1)
proof (rule playback_body_Inr)
  fix item t1 st
  assume *: "item \<in> set (voice_mail_items (tables d))" "it_State item = Claimed"
    "update_items (\<lambda>x. it_ID x = it_ID item) (release_item st (pg_ts now)) (tables d) = Some ((), t1)"
    "tables d' = (if ok then outbox_insert_ignore (voicemail_event x
        (if st = Unread then ''available'' else ''consumed'') now) t1 else t1)"
  have "no_new_offer {} (tables d) t1"
    by (rule update_item_offer [OF assms(2) *(1) _ _ *(3)]) (use *(2) in \<open>auto simp: offered_item_def\<close>)
  then show ?thesis using *(4) by (simp add: no_new_offer_def)
qed

lemma delete_body_offer:
  assumes "delete_body u i now d = (Inr x, d')" "vm_inv (tables d)"
  shows "no_new_offer {} (tables d) (tables d')"
proof -
  from assms obtain item where "item \<in> set (voice_mail_items (tables d))"
      and "tables d' = tables d \<or>
        update_items (\<lambda>x. it_ID x = it_ID item) (release_item DeletePending (pg_ts now)) (tables d) = Some ((), tables d')"
    by (auto simp: delete_body_def tx_Inr split: option.splits if_splits dest!: find_item_SomeD)
  then show ?thesis using assms(2) update_items_offer [of "\<lambda>x. it_ID x = it_ID item" "release_item DeletePending (pg_ts now)"]
    by fastforce
qed

lemma cleanup_rows_offer:
  "cleanup_rows now is d = (Inr out, d') \<Longrightarrow> no_new_offer {} (tables d) (tables d')"
proof (induction "is" arbitrary: d d' out)
  case Nil
  then show ?case by (simp add: tx_Inr)
next
  case (Cons i "is")
  from Cons.prems obtain d1 t2 rest where
      ev: "(if it_State i = Unread \<or> it_State i = Claimed
        then enqueueVoiceMailEvent i ''expired'' now else tx_return ()) d = (Inr (), d1)"
      and upd: "update_items (\<lambda>x. it_ID x = it_ID i) (release_item DeletePending (pg_ts now)) (tables d1) = Some ((), t2)"
      and rest: "cleanup_rows now is ((next_call d1)\<lparr>tables := t2\<rparr>) = (Inr rest, d')"
    by (auto simp: tx_bind_Inr stmt_Inr tx_return_Inr simp del: if_split_asm)
  have "no_new_offer {} (tables d) (tables d1)"
    using ev by (intro no_new_offer_same) (auto simp: tx_Inr enqueueVoiceMailEvent_def split: if_splits)
  moreover have "no_new_offer {} (tables d1) t2" by (rule update_items_offer [OF upd]) simp
  moreover have "no_new_offer {} t2 (tables d')" using Cons.IH [OF rest] by simp
  ultimately show ?case by (blast intro: no_new_offer_trans)
qed

locale voicemail_offer =
  fixes body :: "Item vm_tx" and ids :: "string set"
  assumes body_offer: "body d = (Inr x, d') \<Longrightarrow> vm_inv (tables d) \<Longrightarrow> no_new_offer ids (tables d) (tables d')"
begin

lemma run_offer: "changes vm_inv (no_new_offer ids) (runMutationValue request operation created body)"
proof (cases "requireMutationOperation request operation")
  case None
  have "changes vm_inv (no_new_offer ids) (tx_bind (RunIdempotent request (OItem \<circ> json_item) created body)
      (\<lambda>out. case outcome out of OItem i \<Rightarrow> tx_return (json_item i) | _ \<Rightarrow> tx_fail (Invalid ''decode committed outcome'')))"
  proof (intro changes_bind_first RunIdempotent_changes no_new_offer_refl)
    fix d :: "store db" and v d' rec t'
    assume "body d = (Inr v, d')" "vm_inv (tables d)" "insert_record rec (tables d') = Some ((), t')"
    then show "no_new_offer ids (tables d) t'"
      using body_offer by (fastforce simp: no_new_offer_def insert_record_def split: if_splits)
  qed (auto split: mutation_outcome.splits)
  with None show ?thesis by (simp add: runMutationValue_def)
next
  case (Some msg)
  then show ?thesis by (auto simp: runMutationValue_def intro: changes_readonly)
qed

end

interpretation vm_create_offer: voicemail_offer "create_upload_body env c now" "{}"
  by unfold_locales (rule create_upload_body_offer)

interpretation vm_complete_offer: voicemail_offer "complete_upload_body u v i now" "{i}"
  by unfold_locales (rule complete_upload_body_offer)

interpretation vm_claim_offer: voicemail_offer "claim_body env u v i p now lease" "{}"
  by unfold_locales (rule claim_body_offer)

interpretation vm_playback_offer: voicemail_offer "playback_body u v i p ok now" "{}"
  by unfold_locales (rule playback_body_offer)

interpretation vm_delete_offer: voicemail_offer "delete_body u i now" "{}"
  by unfold_locales (rule delete_body_offer)

lemma MarkDeleted_offer: "changes vm_inv (no_new_offer {}) (MarkDeleted i now)"
  unfolding MarkDeleted_def
  by (rule changes_stmt) (auto intro!: update_items_offer)

lemma ClaimCleanup_offer: "changes vm_inv (no_new_offer {}) (ClaimCleanup env now limit)"
  unfolding ClaimCleanup_def
proof (rule changes_in_tx)
  fix d x d'
  assume "tx_bind (query (due_rows env now limit)) (\<lambda>items. tx_bind (cleanup_rows now items)
      (\<lambda>out. tx_return (Commit out))) d = (Inr (Commit x), d')"
  then show "no_new_offer {} (tables d) (tables d')"
    by (auto simp: tx_bind_Inr query_Inr tx_return_Inr dest!: cleanup_rows_offer)
qed simp

end
