(* ===== verification/Voicemail_Service.thy ===== *)
theory Voicemail_Service
  imports Voicemail Canonical_Json
begin

text \<open>
  The voice-mail service \<open>internal/voicemail/voicemail.go\<close> over the repository and the file-system
  blob store \<open>internal/voicemail/filesystem.go\<close>. The world of the service is the database and the
  blobs, each with its own schedule of faults. SHA-256 is a parameter. The definitions give what a call does
  when nothing else happens in between; \<open>Voicemail_Runs\<close> cuts the calls where other calls can interleave.
\<close>

section \<open>The blob store\<close>

record vm_world =
  vw_db :: "store db"
  vw_blobs :: "string \<Rightarrow> string option"
  vw_io :: "bool list"

type_synonym 'a vm_act = "vm_world \<Rightarrow> (vm_error failure + 'a) \<times> vm_world"

definition act_return :: "'a \<Rightarrow> 'a vm_act" where "act_return x w = (Inr x, w)"
definition act_fail :: "vm_error failure \<Rightarrow> 'a vm_act" where "act_fail e w = (Inl e, w)"

definition act_bind :: "'a vm_act \<Rightarrow> ('a \<Rightarrow> 'b vm_act) \<Rightarrow> 'b vm_act" where
  "act_bind m f w = (case m w of (Inl e, w') \<Rightarrow> (Inl e, w') | (Inr x, w') \<Rightarrow> f x w')"

text \<open>The result of a call, error included, for code that goes on after an error.\<close>

definition act_try :: "'a vm_act \<Rightarrow> (vm_error failure + 'a) vm_act" where
  "act_try m w = (case m w of (r, w') \<Rightarrow> (Inr r, w'))"

definition on_db :: "'a vm_tx \<Rightarrow> 'a vm_act" where
  "on_db m w = (case m (vw_db w) of (r, d) \<Rightarrow> (r, w\<lparr>vw_db := d\<rparr>))"

text \<open>A call of the file system: the next fault, or its effect on the blobs.\<close>

definition on_disk :: "((string \<Rightarrow> string option) \<Rightarrow> 'a \<times> (string \<Rightarrow> string option)) \<Rightarrow> 'a vm_act" where
  "on_disk f w =
     (if (case vw_io w of [] \<Rightarrow> False | b # _ \<Rightarrow> b) then (Inl (Invalid ''i/o error''), w\<lparr>vw_io := tl (vw_io w)\<rparr>)
      else case f (vw_blobs w) of (x, bs) \<Rightarrow> (Inr x, w\<lparr>vw_blobs := bs, vw_io := tl (vw_io w)\<rparr>))"

definition Base :: "string \<Rightarrow> string" where
  "Base p =
     (if p = [] then ''.''
      else let q = rev (dropWhile (\<lambda>c. c = CHR ''/'') (rev p));
               r = rev (takeWhile (\<lambda>c. c \<noteq> CHR ''/'') (rev q))
           in if r = [] then ''/'' else r)"

definition backslash :: char where "backslash = CHR 0x5C"

definition blob_path :: "string \<Rightarrow> string \<Rightarrow> string option" where
  "blob_path root key =
     (if key = [] \<or> CHR ''/'' \<in> set key \<or> backslash \<in> set key \<or> Base key \<noteq> key then None
      else Some (root @ ''/'' @ key @ ''.ogg''))"

definition check_path :: "string \<Rightarrow> unit vm_act" where
  "check_path key =
     (case blob_path [] key of None \<Rightarrow> act_fail (Invalid ''invalid opaque blob key'') | Some _ \<Rightarrow> act_return ())"

text \<open>
  \<open>FileSystem.Put\<close> copies at most one byte more than expected, compares size and checksum, and
  renames the temporary file into place; on every error nothing is left behind.
\<close>

definition blob_put :: "(string \<Rightarrow> string) \<Rightarrow> string \<Rightarrow> string \<Rightarrow> int \<Rightarrow> string \<Rightarrow> unit vm_act" where
  "blob_put sha256 key body expectedSize expectedChecksum =
     act_bind (check_path key) (\<lambda>_.
     (let copied = take (nat (expectedSize + 1)) body in
      if int (length copied) \<noteq> expectedSize then act_fail (Invalid ''voice mail size mismatch'')
      else if ToLower (hex_encode (sha256 copied)) \<noteq> ToLower expectedChecksum
        then act_fail (Invalid ''voice mail checksum mismatch'')
      else on_disk (\<lambda>bs. ((), bs(key \<mapsto> copied)))))"

definition blob_open :: "string \<Rightarrow> string vm_act" where
  "blob_open key =
     act_bind (check_path key) (\<lambda>_.
     act_bind (on_disk (\<lambda>bs. (bs key, bs))) (\<lambda>found.
     case found of None \<Rightarrow> act_fail (Invalid ''no such file'') | Some body \<Rightarrow> act_return body))"

definition blob_delete :: "string \<Rightarrow> unit vm_act" where
  "blob_delete key = act_bind (check_path key) (\<lambda>_. on_disk (\<lambda>bs. ((), bs(key := None))))"

section \<open>The service\<close>

definition lease :: duration where "lease = 2 * Minute"

definition ListRecipients_vm :: "string \<Rightarrow> string \<Rightarrow> RecipientDescriptor list vm_act" where
  "ListRecipients_vm senderUserID senderDeviceID w =
     (if TrimSpace senderUserID = [] \<or> TrimSpace senderDeviceID = []
      then (Inl (Invalid ''sender user and device are required''), w)
      else case ListAuthorizedRecipients \<lparr>UserID = senderUserID, DeviceID = senderDeviceID\<rparr> (vw_db w) of
             (Inl _, d) \<Rightarrow> (Inl DBFault, w\<lparr>vw_db := d\<rparr>)
           | (Inr rs, d) \<Rightarrow> (Inr rs, w\<lparr>vw_db := d\<rparr>))"

definition Service_CreateUpload :: "pg_env \<Rightarrow> time \<Rightarrow> Request \<Rightarrow> Upload \<Rightarrow> Item vm_act" where
  "Service_CreateUpload env now request create =
     (case Create_Validate create now of
        Some msg \<Rightarrow> act_fail (Invalid msg)
      | None \<Rightarrow> on_db (CreateUpload env request create now))"

definition PutMedia :: "(string \<Rightarrow> string) \<Rightarrow> string \<Rightarrow> string \<Rightarrow> string \<Rightarrow> string \<Rightarrow> unit vm_act" where
  "PutMedia sha256 senderUserID senderDeviceID i body =
     act_bind (on_db (ItemForSender senderUserID senderDeviceID i)) (\<lambda>row.
     case row of
       None \<Rightarrow> act_fail (Invalid ''voice mail not found'')
     | Some item \<Rightarrow>
       if it_State item \<noteq> PendingUpload then act_fail (Invalid ''voice mail upload is not pending'')
       else blob_put sha256 (ObjectKey item) body (SizeBytes item) (ChecksumSHA256 item))"

definition verify_media :: "(string \<Rightarrow> string) \<Rightarrow> Item \<Rightarrow> unit vm_act" where
  "verify_media sha256 item =
     act_bind (blob_open (ObjectKey item)) (\<lambda>body.
     (let copied = take (nat (SizeBytes item + 1)) body in
      if int (length copied) \<noteq> SizeBytes item
         \<or> ToLower (hex_encode (sha256 copied)) \<noteq> ToLower (ChecksumSHA256 item)
      then act_fail (Invalid ''voice mail media verification failed'')
      else act_return ()))"

definition Service_CompleteUpload ::
    "(string \<Rightarrow> string) \<Rightarrow> pg_env \<Rightarrow> time \<Rightarrow> Request \<Rightarrow> string \<Rightarrow> string \<Rightarrow> string \<Rightarrow> (Item \<times> vm_error option) vm_act" where
  "Service_CompleteUpload sha256 env now request senderUserID senderDeviceID i =
     act_bind (on_db (ItemForSender senderUserID senderDeviceID i)) (\<lambda>row.
     case row of
       None \<Rightarrow> act_fail (Invalid ''voice mail not found'')
     | Some item \<Rightarrow>
       act_bind (if it_State item = PendingUpload then verify_media sha256 item else act_return ()) (\<lambda>_.
       on_db (CompleteUpload env request senderUserID senderDeviceID i now)))"

definition Service_Claim ::
    "pg_env \<Rightarrow> time \<Rightarrow> Request \<Rightarrow> string \<Rightarrow> string \<Rightarrow> string \<Rightarrow> string \<Rightarrow> Item vm_act" where
  "Service_Claim env now request recipientUserID deviceID i playbackID =
     on_db (ClaimVoiceMail env request recipientUserID deviceID i playbackID now (Add now lease))"

definition OpenMedia :: "time \<Rightarrow> string \<Rightarrow> string \<Rightarrow> string \<Rightarrow> string \<Rightarrow> string vm_act" where
  "OpenMedia now recipientUserID recipientDeviceID i playbackID =
     act_bind (on_db (ItemForPlayback recipientUserID recipientDeviceID i playbackID now)) (\<lambda>row.
     case row of
       None \<Rightarrow> act_fail (Invalid ''voice mail is not claimed'')
     | Some item \<Rightarrow> blob_open (ObjectKey item))"

text \<open>
  The immediate deletion shared by \<open>Playback\<close> and \<open>Delete\<close>: a blob that cannot be deleted leaves the
  item to the cleanup; an error of \<open>MarkDeleted\<close> is returned with the item.
\<close>

definition delete_now :: "time \<Rightarrow> Item \<Rightarrow> (Item \<times> vm_error failure option) vm_act" where
  "delete_now now item =
     act_bind (act_try (blob_delete (ObjectKey item))) (\<lambda>gone.
     case gone of
       Inl _ \<Rightarrow> act_return (item, None)
     | Inr _ \<Rightarrow>
       act_bind (act_try (on_db (MarkDeleted (it_ID item) now))) (\<lambda>marked.
       case marked of
         Inl e \<Rightarrow> act_return (item, Some e)
       | Inr _ \<Rightarrow> act_return (item\<lparr>it_State := Deleted\<rparr>, None)))"

definition Playback ::
    "pg_env \<Rightarrow> time \<Rightarrow> time \<Rightarrow> Request \<Rightarrow> string \<Rightarrow> string \<Rightarrow> string \<Rightarrow> string \<Rightarrow> bool
      \<Rightarrow> (Item \<times> vm_error failure option) vm_act" where
  "Playback env now now2 request recipientUserID recipientDeviceID i playbackID succeeded =
     act_bind (on_db (CompleteVoiceMailPlayback env request recipientUserID recipientDeviceID i playbackID
                        succeeded now)) (\<lambda>item.
     if it_State item = DeletePending then delete_now now2 item else act_return (item, None))"

definition Delete ::
    "pg_env \<Rightarrow> time \<Rightarrow> time \<Rightarrow> Request \<Rightarrow> string \<Rightarrow> string \<Rightarrow> (Item \<times> vm_error failure option) vm_act" where
  "Delete env now now2 request ownerUserID i =
     act_bind (on_db (RequestDelete env request ownerUserID i now)) (\<lambda>item. delete_now now2 item)"

text \<open>
  The cleanup loop. \<open>ctx_done n\<close> tells whether the context is cancelled before item \<open>n\<close>, \<open>clock n\<close>
  is the time then. The result is the number of deleted items and the error, if any.
\<close>

fun cleanup_loop ::
    "(nat \<Rightarrow> bool) \<Rightarrow> (nat \<Rightarrow> time) \<Rightarrow> nat \<Rightarrow> Item list \<Rightarrow> nat \<Rightarrow> nat \<Rightarrow> (nat \<times> vm_error failure option) vm_act" where
  "cleanup_loop ctx_done clock n [] deleted failed =
     act_return (deleted, if failed \<noteq> 0 then Some (Invalid ''delete voice mail blobs'') else None)"
| "cleanup_loop ctx_done clock n (item # items) deleted failed =
     (if ctx_done n then act_return (deleted, Some (Invalid ''context canceled''))
      else
      act_bind (act_try (blob_delete (ObjectKey item))) (\<lambda>gone.
      case gone of
        Inl _ \<Rightarrow> cleanup_loop ctx_done clock (Suc n) items deleted (Suc failed)
      | Inr _ \<Rightarrow>
        act_bind (act_try (on_db (MarkDeleted (it_ID item) (clock n)))) (\<lambda>marked.
        case marked of
          Inl e \<Rightarrow> act_return (deleted, Some e)
        | Inr _ \<Rightarrow> cleanup_loop ctx_done clock (Suc n) items (Suc deleted) failed)))"

definition Cleanup ::
    "pg_env \<Rightarrow> time \<Rightarrow> (nat \<Rightarrow> bool) \<Rightarrow> (nat \<Rightarrow> time) \<Rightarrow> int \<Rightarrow> (nat \<times> vm_error failure option) vm_act" where
  "Cleanup env now ctx_done clock limit =
     act_bind (on_db (ClaimCleanup env now limit)) (\<lambda>items. cleanup_loop ctx_done clock 0 items 0 0)"

section \<open>Deletion without interference\<close>

abbreviation vw_store :: "vm_world \<Rightarrow> store" where "vw_store w \<equiv> tables (vw_db w)"

text \<open>
  What a call keeps while no other call runs: the constraints of the table, and for a set of identifiers that
  their deleted items have no blob. Calls that overlap are the subject of \<open>Voicemail_Runs\<close>.
\<close>

definition world_inv :: "string set \<Rightarrow> vm_world \<Rightarrow> bool" where
  "world_inv S w \<longleftrightarrow> vm_inv (vw_store w) \<and>
     (\<forall>i \<in> set (voice_mail_items (vw_store w)). it_ID i \<in> S \<longrightarrow> it_State i = Deleted \<longrightarrow> vw_blobs w (ObjectKey i) = None)"

text \<open>An action is safe when, whatever fails in it, it keeps the invariant and moves items forward only.\<close>

definition safe :: "string set \<Rightarrow> 'a vm_act \<Rightarrow> bool" where
  "safe S m \<longleftrightarrow> (\<forall>w r w'. m w = (r, w') \<longrightarrow> world_inv S w \<longrightarrow> world_inv S w' \<and> vm_delta (vw_store w) (vw_store w'))"

lemma safeI:
  "(\<And>w r w'. m w = (r, w') \<Longrightarrow> world_inv S w \<Longrightarrow> world_inv S w' \<and> vm_delta (vw_store w) (vw_store w')) \<Longrightarrow> safe S m"
  by (simp add: safe_def)

lemma world_inv_vm: "world_inv S w \<Longrightarrow> vm_inv (vw_store w)"
  by (simp add: world_inv_def)

lemma safe_return: "safe S (act_return x)"
  by (auto simp: safe_def act_return_def vm_delta_refl world_inv_vm)

lemma safe_fail: "safe S (act_fail e)"
  by (auto simp: safe_def act_fail_def vm_delta_refl world_inv_vm)

lemma safe_try: "safe S m \<Longrightarrow> safe S (act_try m)"
  unfolding safe_def act_try_def by (auto split: prod.splits)

lemma safe_bind: "safe S m \<Longrightarrow> (\<And>x. safe S (f x)) \<Longrightarrow> safe S (act_bind m f)"
proof (rule safeI)
  fix w r w'
  assume m: "safe S m" and f: "\<And>x. safe S (f x)" and run: "act_bind m f w = (r, w')" and inv: "world_inv S w"
  obtain r1 w1 where m1: "m w = (r1, w1)" by force
  with m inv have 1: "world_inv S w1" "vm_delta (vw_store w) (vw_store w1)" unfolding safe_def by blast+
  show "world_inv S w' \<and> vm_delta (vw_store w) (vw_store w')"
  proof (cases r1)
    case (Inl e)
    with run m1 1 show ?thesis by (simp add: act_bind_def)
  next
    case (Inr x)
    with run m1 have "f x w1 = (r, w')" by (simp add: act_bind_def)
    with f 1(1) have "world_inv S w'" "vm_delta (vw_store w1) (vw_store w')" unfolding safe_def by blast+
    with 1(2) show ?thesis by (blast intro: vm_delta_trans)
  qed
qed

lemma world_inv_keep:
  assumes "world_inv S w" "vm_keep (vw_store w) t" "vw_blobs w' = vw_blobs w" "vw_store w' = t"
  shows "world_inv S w' \<and> vm_delta (vw_store w) (vw_store w')"
proof -
  have "vw_blobs w' (ObjectKey i') = None" if i': "i' \<in> set (voice_mail_items t)" "it_State i' = Deleted" "it_ID i' \<in> S" for i'
  proof -
    from assms(2) i' obtain i where "i \<in> set (voice_mail_items (vw_store w))" "it_State i = Deleted"
        "item_core i = item_core i'"
      by (auto simp: vm_keep_def no_new_deleted_def)
    then show ?thesis using assms(1,3) i'(3) item_core_sel [of i i'] by (auto simp: world_inv_def)
  qed
  with assms show ?thesis by (auto simp: world_inv_def vm_keep_def vm_delta_def)
qed

lemma safe_db: "changes vm_inv vm_keep m \<Longrightarrow> safe S (on_db m)"
proof (rule safeI)
  fix w r w'
  assume m: "changes vm_inv vm_keep m" and run: "on_db m w = (r, w')" and inv: "world_inv S w"
  from run obtain d where d: "m (vw_db w) = (r, d)" "w' = w\<lparr>vw_db := d\<rparr>"
    by (auto simp: on_db_def split: prod.splits)
  with changesD [OF m d(1)] inv world_inv_vm have "vm_keep (vw_store w) (tables d)" by blast
  then show "world_inv S w' \<and> vm_delta (vw_store w) (vw_store w')"
    by (rule world_inv_keep [OF inv]) (simp_all add: d(2))
qed

lemma safe_db_readonly: "readonly m \<Longrightarrow> safe S (on_db m)"
  by (rule safe_db) (auto intro: changes_readonly vm_keep_refl)

lemma safe_check_path: "safe S (check_path key)"
  unfolding check_path_def by (auto split: option.splits intro: safe_return safe_fail)

lemma safe_disk_read: "safe S (on_disk (\<lambda>bs. (f bs, bs)))"
  by (rule safeI) (auto simp: on_disk_def world_inv_def vm_delta_refl split: if_splits)

lemma safe_blob_delete: "safe S (blob_delete key)"
  unfolding blob_delete_def
proof (intro safe_bind safe_check_path safeI)
  fix w r w'
  assume "on_disk (\<lambda>bs. ((), bs(key := None))) w = (r, w')" "world_inv S w"
  then show "world_inv S w' \<and> vm_delta (vw_store w) (vw_store w')"
    by (auto simp: on_disk_def world_inv_def vm_delta_refl split: if_splits)
qed

lemma safe_blob_open: "safe S (blob_open key)"
  unfolding blob_open_def
  by (auto intro!: safe_bind safe_check_path safe_disk_read split: option.splits intro: safe_return safe_fail)

lemmas safe_intros = safe_bind safe_check_path safe_disk_read safe_return safe_fail safe_try safe_db
  safe_db_readonly safe_blob_delete safe_blob_open

lemma check_path_cases: "check_path key w = (Inr x, w') \<Longrightarrow> w' = w"
  by (auto simp: check_path_def act_return_def act_fail_def split: option.splits)

subsection \<open>Deletion\<close>

text \<open>
  The item that \<open>Playback\<close> and \<open>Delete\<close> hand to the blob store was decoded from JSON and has lost its
  object key, so the immediate deletion always stops at the check of the key.
\<close>

lemma runMutationValue_keyless:
  "runMutationValue r oper c body d = (Inr item, d') \<Longrightarrow> ObjectKey item = []"
proof -
  assume "runMutationValue r oper c body d = (Inr item, d')"
  then obtain res :: "mutation_outcome IdempotentOutcome" and d1 where "(case outcome res of OItem i \<Rightarrow> tx_return (json_item i)
      | _ \<Rightarrow> tx_fail (Invalid ''decode committed outcome'')) d1
        = (Inr item :: vm_error failure + Item, d' :: store db)"
    by (auto simp: runMutationValue_def tx_bind_Inr tx_fail_Inr split: option.splits)
  then show ?thesis by (cases "outcome res") (auto simp: tx_Inr json_item_def)
qed

lemma delete_now_keyless: "ObjectKey item = [] \<Longrightarrow> delete_now now item = act_return (item, None)"
  by (simp add: fun_eq_iff delete_now_def blob_delete_def check_path_def blob_path_def act_bind_def act_try_def
      act_fail_def)

lemma act_bind_cong_Inr:
  "(\<And>x w'. m w = (Inr x, w') \<Longrightarrow> f x w' = g x w') \<Longrightarrow> act_bind m f w = act_bind m g w"
  by (auto simp: act_bind_def split: prod.splits sum.splits)

lemma on_db_Inr: "on_db m w = (Inr x, w') \<Longrightarrow> \<exists>d. m (vw_db w) = (Inr x, d) \<and> w' = w\<lparr>vw_db := d\<rparr>"
  by (auto simp: on_db_def split: prod.splits)

lemma Playback_alt:
  "Playback env now now2 request u v i p ok =
     act_bind (on_db (CompleteVoiceMailPlayback env request u v i p ok now)) (\<lambda>item. act_return (item, None))"
  unfolding Playback_def
  by (rule ext, rule act_bind_cong_Inr)
    (auto dest!: on_db_Inr runMutationValue_keyless simp: CompleteVoiceMailPlayback_def delete_now_keyless)

lemma Delete_alt:
  "Delete env now now2 request u i =
     act_bind (on_db (RequestDelete env request u i now)) (\<lambda>item. act_return (item, None))"
  unfolding Delete_def
  by (rule ext, rule act_bind_cong_Inr)
    (auto dest!: on_db_Inr runMutationValue_keyless simp: RequestDelete_def delete_now_keyless)

subsection \<open>Cleanup\<close>

text \<open>A blob is deleted before its item is marked; marking then keeps the invariant.\<close>

lemma safe_mark:
  assumes "world_inv S w" "on_db (MarkDeleted (it_ID item) now) w = (r, w')" "vw_blobs w (ObjectKey item) = None"
    "\<forall>i \<in> set (voice_mail_items (vw_store w)). it_ID i = it_ID item \<longrightarrow> ObjectKey i = ObjectKey item"
  shows "world_inv S w' \<and> vm_delta (vw_store w) (vw_store w')"
proof -
  from assms(2) obtain d where d: "MarkDeleted (it_ID item) now (vw_db w) = (r, d)" "w' = w\<lparr>vw_db := d\<rparr>"
    by (auto simp: on_db_def split: prod.splits)
  have delta: "vm_delta (vw_store w) (tables d)"
    using changesD [OF MarkDeleted_changes d(1)] assms(1) world_inv_vm by blast
  have "vw_blobs w (ObjectKey j) = None" if j: "j \<in> set (voice_mail_items (tables d))" "it_State j = Deleted" "it_ID j \<in> S" for j
  proof -
    from d(1) have "tables d = vw_store w \<or> voice_mail_items (tables d) =
        update_where (\<lambda>x. it_ID x = it_ID item \<and> it_State x \<in> {DeletePending, Deleted, Rejected})
          (set_state Deleted (pg_ts now)) (voice_mail_items (vw_store w))"
      by (auto simp: MarkDeleted_def stmt_def update_items_def split: if_splits option.splits)
    with j consider "j \<in> set (voice_mail_items (vw_store w))"
      | i where "i \<in> set (voice_mail_items (vw_store w))" "it_ID i = it_ID item" "j = set_state Deleted (pg_ts now) i"
      by (auto simp: in_set_update_where split: if_splits)
    then show ?thesis
    proof cases
      case 1
      then show ?thesis using assms(1) j(2,3) by (simp add: world_inv_def)
    next
      case 2
      then show ?thesis using assms(3,4) by (simp add: set_state_def)
    qed
  qed
  with delta d(2) show ?thesis by (simp add: world_inv_def vm_delta_def)
qed

text \<open>The keys of the items to clean are those of the rows, and stay so.\<close>

definition keyed :: "Item list \<Rightarrow> store \<Rightarrow> bool" where
  "keyed items t \<longleftrightarrow> (\<forall>item \<in> set items. \<forall>i \<in> set (voice_mail_items t). it_ID i = it_ID item \<longrightarrow>
     ObjectKey i = ObjectKey item) \<and> (\<forall>item \<in> set items. \<exists>i \<in> set (voice_mail_items t). it_ID i = it_ID item)"

lemma keyed_delta:
  assumes "keyed items t" "vm_delta t t'"
  shows "keyed items t'"
proof -
  have "(\<forall>i' \<in> set (voice_mail_items t'). it_ID i' = it_ID item \<longrightarrow> ObjectKey i' = ObjectKey item)
      \<and> (\<exists>i' \<in> set (voice_mail_items t'). it_ID i' = it_ID item)" if "item \<in> set items" for item
  proof -
    from assms(1) that obtain i where i: "i \<in> set (voice_mail_items t)" "it_ID i = it_ID item"
        "ObjectKey i = ObjectKey item" unfolding keyed_def by blast
    from assms(2) i(1) obtain j where j: "j \<in> set (voice_mail_items t')" "item_step i j"
      unfolding vm_delta_def items_evolve_def by blast
    then have eq: "it_ID j = it_ID i \<and> ObjectKey j = ObjectKey i"
      using item_core_sel [of j i] by (simp add: item_step_def)
    have "i' = j" if "i' \<in> set (voice_mail_items t')" "it_ID i' = it_ID item" for i'
      using that assms(2) i j eq unique_keyD [of it_ID "voice_mail_items t'" i' j]
      by (simp add: vm_delta_def vm_inv_def)
    with i j(1) eq show ?thesis by metis
  qed
  then show ?thesis unfolding keyed_def by blast
qed

lemma blob_delete_Inr:
  "blob_delete key w = (Inr x, w') \<Longrightarrow> vw_blobs w' key = None \<and> vw_db w' = vw_db w"
  by (auto simp: blob_delete_def act_bind_def check_path_def act_fail_def act_return_def on_disk_def
      split: option.splits if_splits)

lemma act_bind_try:
  "act_bind (act_try m) f w = (r, w') \<longleftrightarrow> (\<exists>x w1. m w = (x, w1) \<and> f x w1 = (r, w'))"
  by (auto simp: act_bind_def act_try_def split: prod.splits)

lemma cleanup_loop_safe:
  assumes "cleanup_loop cd clk n items del fl w = (r, w')" "world_inv S w" "keyed items (vw_store w)"
  shows "world_inv S w' \<and> vm_delta (vw_store w) (vw_store w')"
  using assms
proof (induction items arbitrary: n del fl w)
  case Nil
  then show ?case by (auto simp: act_return_def vm_delta_refl world_inv_vm)
next
  case (Cons item items)
  show ?case
  proof (cases "cd n")
    case True
    with Cons.prems show ?thesis by (auto simp: act_return_def vm_delta_refl world_inv_vm)
  next
    case False
    obtain g w1 where b: "blob_delete (ObjectKey item) w = (g, w1)" by force
    with safe_blob_delete Cons.prems(2) have 1: "world_inv S w1" "vm_delta (vw_store w) (vw_store w1)"
      unfolding safe_def by blast+
    have k1: "keyed (item # items) (vw_store w1)" using keyed_delta Cons.prems(3) 1(2) by blast
    then have k1': "keyed items (vw_store w1)" by (auto simp: keyed_def)
    show ?thesis
    proof (cases g)
      case (Inl e)
      with Cons.prems(1) False b have "cleanup_loop cd clk (Suc n) items del (Suc fl) w1 = (r, w')"
        by (auto simp: act_bind_try)
      from Cons.IH [OF this 1(1) k1'] 1(2) show ?thesis by (blast intro: vm_delta_trans)
    next
      case (Inr x)
      note gone = blob_delete_Inr [OF b [unfolded Inr]]
      obtain m w2 where m: "on_db (MarkDeleted (it_ID item) (clk n)) w1 = (m, w2)" by force
      have 2: "world_inv S w2" "vm_delta (vw_store w1) (vw_store w2)"
        using safe_mark [OF 1(1) m] gone k1 by (auto simp: keyed_def)
      have k2: "keyed items (vw_store w2)" using keyed_delta k1' 2(2) by blast
      have d2: "vm_delta (vw_store w) (vw_store w2)" using 1(2) 2(2) by (rule vm_delta_trans)
      show ?thesis
      proof (cases m)
        case (Inl e)
        with Cons.prems(1) False b Inr m have "w' = w2" by (auto simp: act_bind_try act_return_def)
        with 2 d2 show ?thesis by simp
      next
        case (Inr y)
        with Cons.prems(1) False b \<open>g = _\<close> m have "cleanup_loop cd clk (Suc n) items (Suc del) fl w2 = (r, w')"
          by (auto simp: act_bind_try)
        from Cons.IH [OF this 2(1) k2] d2 vm_delta_trans show ?thesis by blast
      qed
    qed
  qed
qed

lemma cleanup_rows_out:
  "cleanup_rows now is d = (Inr out, d') \<Longrightarrow> out = map (release_item DeletePending now) is"
  by (induction "is" arbitrary: d d' out) (auto simp: tx_bind_Inr tx_return_Inr)

lemma ClaimCleanup_Inr:
  assumes "ClaimCleanup env now limit d = (Inr items, d')"
  shows "items = map (release_item DeletePending now) (due_rows env now limit (tables d))"
proof -
  from assms show ?thesis unfolding ClaimCleanup_def
    by (cases rule: in_tx_Inr) (auto simp: tx_bind_Inr query_Inr tx_return_Inr dest: cleanup_rows_out)
qed

lemma ClaimCleanup_keyed:
  assumes "ClaimCleanup env now limit d = (Inr items, d')" "vm_inv (tables d)"
  shows "keyed items (tables d')"
proof -
  have "keyed items (tables d)"
    unfolding keyed_def
  proof (intro conjI ballI impI)
    fix item i
    assume "item \<in> set items" and i: "i \<in> set (voice_mail_items (tables d))" "it_ID i = it_ID item"
    then obtain j where j: "j \<in> set (voice_mail_items (tables d))" "item = release_item DeletePending now j"
      by (auto simp: ClaimCleanup_Inr [OF assms(1)] dest: due_rows_subset)
    with i have "i = j" using assms(2) unique_keyD [of it_ID "voice_mail_items (tables d)" i j]
      by (simp add: vm_inv_def)
    with j show "ObjectKey i = ObjectKey item" by (simp add: release_item_def)
  next
    fix item
    assume "item \<in> set items"
    then show "\<exists>i \<in> set (voice_mail_items (tables d)). it_ID i = it_ID item"
      using due_rows_subset by (fastforce simp: ClaimCleanup_Inr [OF assms(1)])
  qed
  moreover have "vm_delta (tables d) (tables d')"
    using changesD [OF ClaimCleanup_changes assms] by (simp add: vm_keep_def)
  ultimately show ?thesis by (rule keyed_delta)
qed

subsection \<open>The states of rows\<close>

definition rows_in :: "ItemState set \<Rightarrow> string set \<Rightarrow> store \<Rightarrow> bool" where
  "rows_in S ids t \<longleftrightarrow> (\<forall>i \<in> set (voice_mail_items t). it_ID i \<in> ids \<longrightarrow> it_State i \<in> S)"

lemma rows_in_delta:
  assumes "vm_delta t t'" "rows_in S ids t" "\<And>s s'. s \<in> S \<Longrightarrow> leads_to s s' \<Longrightarrow> s' \<in> S"
    "ids \<subseteq> it_ID ` set (voice_mail_items t)"
  shows "rows_in S ids t' \<and> ids \<subseteq> it_ID ` set (voice_mail_items t')"
proof -
  have "\<exists>i' \<in> set (voice_mail_items t'). it_ID i' = x \<and> it_State i' \<in> S" if x: "x \<in> ids" for x
  proof -
    from assms(4) x obtain i where i: "i \<in> set (voice_mail_items t)" "it_ID i = x" by auto
    then obtain i' where "i' \<in> set (voice_mail_items t')" "item_step i i'"
      using assms(1) by (auto simp: vm_delta_def items_evolve_def)
    with i assms(2,3) x item_core_sel [of i' i] show ?thesis by (auto simp: rows_in_def item_step_def)
  qed
  moreover have "i' = j" if "i' \<in> set (voice_mail_items t')" "j \<in> set (voice_mail_items t')" "it_ID i' = it_ID j" for i' j
    using that assms(1) unique_keyD [of it_ID] by (auto simp: vm_delta_def vm_inv_def)
  ultimately show ?thesis unfolding rows_in_def by (metis image_iff subsetI)
qed

lemma leads_to_deletion:
  "s \<in> {DeletePending, Deleted} \<Longrightarrow> leads_to s s' \<Longrightarrow> s' \<in> {DeletePending, Deleted}"
  "s \<in> {Deleted} \<Longrightarrow> leads_to s s' \<Longrightarrow> s' \<in> {Deleted}"
  by auto

lemma rows_in_mono: "rows_in S ids t \<Longrightarrow> ids' \<subseteq> ids \<Longrightarrow> rows_in S ids' t"
  unfolding rows_in_def by blast

lemma rows_in_insert: "rows_in S {i} t \<Longrightarrow> rows_in S ids t \<Longrightarrow> rows_in S (insert i ids) t"
  unfolding rows_in_def by blast

text \<open>After its first transaction the cleanup has every row it took on the way to deletion.\<close>

lemma cleanup_rows_state:
  assumes "cleanup_rows now is d = (Inr out, d')" "vm_inv (tables d)" "distinct (map it_ID is)"
    "\<And>i. i \<in> set is \<Longrightarrow> i \<in> set (voice_mail_items (tables d)) \<and> it_State i \<noteq> Deleted"
  shows "rows_in {DeletePending, Deleted} (it_ID ` set is) (tables d')"
  using assms
proof (induction "is" arbitrary: d out)
  case Nil
  then show ?case by (simp add: rows_in_def)
next
  case (Cons i "is")
  from Cons.prems(1) obtain d1 t2 rest where
      ev: "(if it_State i = Unread \<or> it_State i = Claimed
        then enqueueVoiceMailEvent i ''expired'' now else tx_return ()) d = (Inr (), d1)"
      and upd: "update_items (\<lambda>x. it_ID x = it_ID i) (release_item DeletePending (pg_ts now)) (tables d1) = Some ((), t2)"
      and rest: "cleanup_rows now is ((next_call d1)\<lparr>tables := t2\<rparr>) = (Inr rest, d')"
    by (auto simp: tx_bind_Inr stmt_Inr tx_return_Inr simp del: if_split_asm)
  define d2 where "d2 = (next_call d1)\<lparr>tables := t2\<rparr>"
  note rest = rest [folded d2_def]
  have one: "cleanup_rows now [i] d = (Inr [release_item DeletePending now i], d2)"
    using ev upd Cons.prems(1) by (auto simp: tx_bind_Inr stmt_Inr tx_return_Inr d2_def)
  have l: "vm_local (tables d) (tables d2)"
    by (rule cleanup_rows_local [OF one Cons.prems(2)]) (use Cons.prems(4) in auto)
  have items: "voice_mail_items (tables d1) = voice_mail_items (tables d)"
    using ev by (auto simp: tx_Inr enqueueVoiceMailEvent_def split: if_splits)
  have inv1: "vm_inv (tables d1)" using items Cons.prems(2) by (simp add: vm_inv_def)
  have sub: "j \<in> set (voice_mail_items (tables d2)) \<and> it_State j \<noteq> Deleted" if "j \<in> set is" for j
  proof -
    have "it_ID j \<noteq> it_ID i" using that Cons.prems(3) by (metis distinct.simps(2) image_eqI list.map(2) list.set_map)
    then show ?thesis using that Cons.prems(4) items update_items_sets [OF inv1 upd] by (simp add: d2_def)
  qed
  have "rows_in {DeletePending, Deleted} (it_ID ` set is) (tables d')"
    using Cons.IH [OF rest vm_local_inv [OF l] _ sub] Cons.prems(3) by simp
  moreover have "rows_in {DeletePending, Deleted} {it_ID i} (tables d2)"
    using upd unfolding rows_in_def list_all_iff [symmetric] d2_def
    by (auto simp: update_items_def list_all_update_where split: if_splits)
  moreover have "vm_delta (tables d2) (tables d')"
    using cleanup_rows_local [OF rest vm_local_inv [OF l] _ sub] Cons.prems(3) by (simp add: vm_local_def)
  moreover have "{it_ID i} \<subseteq> it_ID ` set (voice_mail_items (tables d2))"
  proof -
    obtain i' where "i' \<in> set (voice_mail_items (tables d2))" "item_step i i'"
      using l Cons.prems(4) [of i] by (auto simp: vm_local_def vm_delta_def items_evolve_def)
    then show ?thesis using item_core_sel [of i' i] by (simp add: item_step_def) (metis image_eqI)
  qed
  ultimately show ?case
    using rows_in_delta [of "tables d2" "tables d'" "{DeletePending, Deleted}" "{it_ID i}"] leads_to_deletion(1)
    by (simp add: rows_in_insert)
qed

end
