(* ===== verification/Voicemail_Runs.thy ===== *)
theory Voicemail_Runs
  imports Voicemail_Service
begin

text \<open>
  The voice-mail service with calls that overlap. A call is cut where other calls can come in between: at each
  transaction of the repository and at each operation of the blob store. \<open>PutMedia\<close> reads the row, then streams
  and renames the file; \<open>CompleteUpload\<close> reads the row, reads the file, then changes the row; \<open>Cleanup\<close> takes its
  rows in one transaction, then deletes one file and marks one row at a time; \<open>OpenMedia\<close> reads the row, then the
  file. The calls in flight are part of the state.
\<close>

section \<open>Steps\<close>

text \<open>
  The world and what the calls in flight know: the items whose row an upload has found pending, the items whose
  media a completion is about to verify (with the identifier the caller gave), the identifiers whose completion
  may go on to its transaction, the items a cleanup has taken, and those whose blob it has deleted. A call stays
  in its set when it goes on, so a run may repeat its next part, which only adds to the runs. The last component is a
  record of the run: the object keys stored by an upload whose row was no longer pending at that moment.
\<close>

record vm_conc =
  vc_world :: vm_world
  vc_uploads :: "Item set"
  vc_reading :: "(string \<times> Item) set"
  vc_ready :: "string set"
  vc_taken :: "Item set"
  vc_gone :: "Item set"
  vc_late :: "string set"

definition vm_idle :: "vm_world \<Rightarrow> vm_conc" where
  "vm_idle w = \<lparr>vc_world = w, vc_uploads = {}, vc_reading = {}, vc_ready = {}, vc_taken = {}, vc_gone = {}, vc_late = {}\<rparr>"

definition still_pending :: "Item \<Rightarrow> store \<Rightarrow> bool" where
  "still_pending item t \<longleftrightarrow> list_all (\<lambda>i. ObjectKey i = ObjectKey item \<longrightarrow> it_State i = PendingUpload) (voice_mail_items t)"

text \<open>
  \<open>Playback\<close> and \<open>Delete\<close> are one transaction: their deletion of the blob stops at the empty key
  (\<open>Playback_alt\<close>, \<open>Delete_alt\<close>). The step \<open>other\<close> is whatever leaves the items and the blobs alone: reads of the
  service, calls that fail before they change anything, and the rest of the program.
\<close>

inductive vm_step :: "(string \<Rightarrow> string) \<Rightarrow> vm_conc \<Rightarrow> vm_conc \<Rightarrow> bool" for sha256 where
  create: "Service_CreateUpload env now request u (vc_world c) = (r, w) \<Longrightarrow> vm_step sha256 c (c\<lparr>vc_world := w\<rparr>)"
| put_check: "on_db (ItemForSender u v i) (vc_world c) = (Inr (Some item), w) \<Longrightarrow> it_State item = PendingUpload \<Longrightarrow>
    vm_step sha256 c (c\<lparr>vc_world := w, vc_uploads := insert item (vc_uploads c)\<rparr>)"
| put_store: "item \<in> vc_uploads c \<Longrightarrow>
    blob_put sha256 (ObjectKey item) body (SizeBytes item) (ChecksumSHA256 item) (vc_world c) = (r, w) \<Longrightarrow>
    vm_step sha256 c (c\<lparr>vc_world := w, vc_late :=
      (if r = Inr () \<and> \<not> still_pending item (vw_store w) then insert (ObjectKey item) (vc_late c) else vc_late c)\<rparr>)"
| complete_done: "on_db (ItemForSender u v i) (vc_world c) = (Inr (Some item), w) \<Longrightarrow> it_State item \<noteq> PendingUpload \<Longrightarrow>
    vm_step sha256 c (c\<lparr>vc_world := w, vc_ready := insert i (vc_ready c)\<rparr>)"
| complete_read: "on_db (ItemForSender u v i) (vc_world c) = (Inr (Some item), w) \<Longrightarrow> it_State item = PendingUpload \<Longrightarrow>
    vm_step sha256 c (c\<lparr>vc_world := w, vc_reading := insert (i, item) (vc_reading c)\<rparr>)"
| complete_verify: "(i, item) \<in> vc_reading c \<Longrightarrow> verify_media sha256 item (vc_world c) = (Inr (), w) \<Longrightarrow>
    vm_step sha256 c (c\<lparr>vc_world := w, vc_ready := insert i (vc_ready c)\<rparr>)"
| complete: "i \<in> vc_ready c \<Longrightarrow> on_db (CompleteUpload env request u v i now) (vc_world c) = (r, w) \<Longrightarrow>
    vm_step sha256 c (c\<lparr>vc_world := w\<rparr>)"
| claim: "Service_Claim env now request u v i p (vc_world c) = (r, w) \<Longrightarrow> vm_step sha256 c (c\<lparr>vc_world := w\<rparr>)"
| playback: "Playback env now now2 request u v i p ok (vc_world c) = (r', w) \<Longrightarrow> vm_step sha256 c (c\<lparr>vc_world := w\<rparr>)"
| delete: "Delete env now now2 request u i (vc_world c) = (r', w) \<Longrightarrow> vm_step sha256 c (c\<lparr>vc_world := w\<rparr>)"
| cleanup_take: "on_db (ClaimCleanup env now limit) (vc_world c) = (Inr items, w) \<Longrightarrow>
    vm_step sha256 c (c\<lparr>vc_world := w, vc_taken := set items \<union> vc_taken c\<rparr>)"
| cleanup_delete: "item \<in> vc_taken c \<Longrightarrow> blob_delete (ObjectKey item) (vc_world c) = (r', w) \<Longrightarrow>
    vm_step sha256 c (c\<lparr>vc_world := w, vc_gone := (if r' = Inr () then insert item (vc_gone c) else vc_gone c)\<rparr>)"
| cleanup_mark: "item \<in> vc_gone c \<Longrightarrow> on_db (MarkDeleted (it_ID item) now) (vc_world c) = (r', w) \<Longrightarrow>
    vm_step sha256 c (c\<lparr>vc_world := w\<rparr>)"
| other: "voice_mail_items (vw_store w) = voice_mail_items (vw_store (vc_world c)) \<Longrightarrow>
    vw_blobs w = vw_blobs (vc_world c) \<Longrightarrow> vm_step sha256 c (c\<lparr>vc_world := w\<rparr>)"

inductive vm_steps :: "(string \<Rightarrow> string) \<Rightarrow> vm_conc \<Rightarrow> vm_conc \<Rightarrow> bool" for sha256 where
  start: "vm_steps sha256 c c"
| step: "vm_steps sha256 c c1 \<Longrightarrow> vm_step sha256 c1 c2 \<Longrightarrow> vm_steps sha256 c c2"

text \<open>A run between two worlds, from a moment when no call is in flight.\<close>

definition vm_run :: "(string \<Rightarrow> string) \<Rightarrow> vm_world \<Rightarrow> vm_world \<Rightarrow> bool" where
  "vm_run sha256 w w' \<longleftrightarrow> (\<exists>c. vm_steps sha256 (vm_idle w) c \<and> vc_world c = w')"

lemma vm_steps_trans: "vm_steps sha256 b c \<Longrightarrow> vm_steps sha256 a b \<Longrightarrow> vm_steps sha256 a c"
  by (induction rule: vm_steps.induct) (auto intro: vm_steps.step)

lemma vm_steps_one: "vm_step sha256 c c' \<Longrightarrow> vm_steps sha256 c c'"
  using vm_steps.intros by blast

section \<open>What a transaction does to the world\<close>

abbreviation vc_store :: "vm_conc \<Rightarrow> store" where "vc_store c \<equiv> vw_store (vc_world c)"
abbreviation vc_items :: "vm_conc \<Rightarrow> Item list" where "vc_items c \<equiv> voice_mail_items (vc_store c)"
abbreviation vc_blobs :: "vm_conc \<Rightarrow> string \<Rightarrow> string option" where "vc_blobs c \<equiv> vw_blobs (vc_world c)"

text \<open>The new store after a transaction: items move on, and only completions make an offer.\<close>

definition db_moved :: "string set \<Rightarrow> vm_world \<Rightarrow> vm_world \<Rightarrow> bool" where
  "db_moved ids w w' \<longleftrightarrow> vw_blobs w' = vw_blobs w \<and> (vm_inv (vw_store w) \<longrightarrow>
     vm_delta (vw_store w) (vw_store w') \<and> no_new_offer ids (vw_store w) (vw_store w'))"

lemma on_db_moved:
  assumes "on_db m w = (r, w')" "changes vm_inv vm_delta m" "changes vm_inv (no_new_offer ids) m"
  shows "db_moved ids w w'"
  using assms unfolding on_db_def db_moved_def by (auto split: prod.splits dest: changesD)

lemma changes_delta: "changes vm_inv vm_keep m \<Longrightarrow> changes vm_inv vm_delta m"
  by (auto simp: changes_def vm_keep_def)

lemma changes_CompleteUpload: "changes vm_inv vm_keep (CompleteUpload env request u v i now)"
  "changes vm_inv (no_new_offer {i}) (CompleteUpload env request u v i now)"
  unfolding CompleteUpload_def
  by (intro changes_bind_first vm_complete.run_changes vm_complete_offer.run_offer readonly_return)+

lemma Playback_db: "Playback env now now2 request u v i p ok w = (r, w') \<Longrightarrow>
    \<exists>r. on_db (CompleteVoiceMailPlayback env request u v i p ok now) w = (r, w')"
  unfolding Playback_alt by (auto simp: act_bind_def act_return_def split: prod.splits sum.splits)

lemma Delete_db: "Delete env now now2 request u i w = (r, w') \<Longrightarrow> \<exists>r. on_db (RequestDelete env request u i now) w = (r, w')"
  unfolding Delete_alt by (auto simp: act_bind_def act_return_def split: prod.splits sum.splits)

text \<open>The transactions of the service: none but the marking of a deletion makes an item deleted.\<close>

lemma keep_CreateUpload: "changes vm_inv vm_keep (CreateUpload env request u now)"
  "changes vm_inv (no_new_offer {}) (CreateUpload env request u now)"
  unfolding CreateUpload_def by (rule vm_create.run_changes vm_create_offer.run_offer)+

lemma keep_Claim: "changes vm_inv vm_keep (ClaimVoiceMail env request u v i p now l)"
  "changes vm_inv (no_new_offer {}) (ClaimVoiceMail env request u v i p now l)"
  unfolding ClaimVoiceMail_def
  by (intro changes_if vm_claim.run_changes vm_claim_offer.run_offer changes_fail vm_keep_refl no_new_offer_refl; assumption)+

lemma keep_Playback: "changes vm_inv vm_keep (CompleteVoiceMailPlayback env request u v i p ok now)"
  "changes vm_inv (no_new_offer {}) (CompleteVoiceMailPlayback env request u v i p ok now)"
  unfolding CompleteVoiceMailPlayback_def by (rule vm_playback.run_changes vm_playback_offer.run_offer)+

lemma keep_Delete: "changes vm_inv vm_keep (RequestDelete env request u i now)"
  "changes vm_inv (no_new_offer {}) (RequestDelete env request u i now)"
  unfolding RequestDelete_def by (rule vm_delete.run_changes vm_delete_offer.run_offer)+

section \<open>The invariant of overlapping calls\<close>

definition media_ok :: "(string \<Rightarrow> string) \<Rightarrow> Item \<Rightarrow> string \<Rightarrow> bool" where
  "media_ok sha256 i b \<longleftrightarrow> int (length b) = SizeBytes i \<and> ToLower (hex_encode (sha256 b)) = ToLower (ChecksumSHA256 i)"

text \<open>The row an item was read from is still there.\<close>

definition follows :: "Item \<Rightarrow> store \<Rightarrow> bool" where
  "follows x t \<longleftrightarrow> (\<exists>i \<in> set (voice_mail_items t). item_core i = item_core x)"

definition blobs_owned :: "(string \<Rightarrow> string) \<Rightarrow> vm_world \<Rightarrow> bool" where
  "blobs_owned sha256 w \<longleftrightarrow> (\<forall>k b. vw_blobs w k = Some b \<longrightarrow>
     (\<exists>i \<in> set (voice_mail_items (vw_store w)). ObjectKey i = k \<and> media_ok sha256 i b))"

definition offers_backed :: "vm_world \<Rightarrow> bool" where
  "offers_backed w \<longleftrightarrow> (\<forall>i \<in> set (voice_mail_items (vw_store w)). offered_item i \<longrightarrow> TrimSpace (it_ID i) = it_ID i \<longrightarrow>
     vw_blobs w (ObjectKey i) \<noteq> None)"

definition ready_ok :: "string \<Rightarrow> vm_world \<Rightarrow> bool" where
  "ready_ok k w \<longleftrightarrow> (TrimSpace k = k \<longrightarrow> k \<in> it_ID ` set (voice_mail_items (vw_store w))
     \<and> (\<forall>i \<in> set (voice_mail_items (vw_store w)). it_ID i = k \<longrightarrow> it_State i = PendingUpload \<longrightarrow>
          vw_blobs w (ObjectKey i) \<noteq> None))"

definition deleted_clean :: "string set \<Rightarrow> vm_world \<Rightarrow> bool" where
  "deleted_clean late w \<longleftrightarrow> (\<forall>i \<in> set (voice_mail_items (vw_store w)). it_State i = Deleted \<longrightarrow>
     vw_blobs w (ObjectKey i) = None \<or> ObjectKey i \<in> late)"

definition conc_inv :: "(string \<Rightarrow> string) \<Rightarrow> vm_conc \<Rightarrow> bool" where
  "conc_inv sha256 c \<longleftrightarrow> vm_inv (vc_store c) \<and> blobs_owned sha256 (vc_world c) \<and> offers_backed (vc_world c)
     \<and> (\<forall>x \<in> vc_uploads c \<union> snd ` vc_reading c \<union> vc_taken c \<union> vc_gone c. follows x (vc_store c))
     \<and> (\<forall>(i, x) \<in> vc_reading c. it_ID x = TrimSpace i)
     \<and> rows_in {DeletePending, Deleted} (it_ID ` (vc_taken c \<union> vc_gone c)) (vc_store c)
     \<and> (\<forall>k \<in> vc_ready c. ready_ok k (vc_world c))
     \<and> (\<forall>x \<in> vc_gone c. vc_blobs c (ObjectKey x) = None \<or> ObjectKey x \<in> vc_late c)
     \<and> deleted_clean (vc_late c) (vc_world c)"

subsection \<open>Rows\<close>

lemma delta_succ:
  assumes "vm_delta t t'" "i \<in> set (voice_mail_items t)"
  obtains i' where "i' \<in> set (voice_mail_items t')" "item_core i' = item_core i" "leads_to (it_State i) (it_State i')"
  using assms by (auto simp: vm_delta_def items_evolve_def item_step_def)

lemma same_row:
  "vm_inv t \<Longrightarrow> i \<in> set (voice_mail_items t) \<Longrightarrow> j \<in> set (voice_mail_items t) \<Longrightarrow>
     it_ID i = it_ID j \<or> ObjectKey i = ObjectKey j \<Longrightarrow> i = j"
  by (auto simp: vm_inv_def dest: unique_keyD)

lemma media_ok_core: "item_core i = item_core j \<Longrightarrow> media_ok sha256 i b = media_ok sha256 j b"
  using item_core_sel [of i j] by (simp add: media_ok_def)

lemma follows_delta: "follows x t \<Longrightarrow> vm_delta t t' \<Longrightarrow> follows x t'"
  unfolding follows_def by (metis delta_succ)

lemma follows_id: "follows x t \<Longrightarrow> it_ID x \<in> it_ID ` set (voice_mail_items t)"
  unfolding follows_def using item_core_sel by (metis image_iff)

lemma follows_in: "x \<in> set (voice_mail_items t) \<Longrightarrow> follows x t"
  by (auto simp: follows_def)

lemma follows_row: "follows x t \<Longrightarrow> vm_inv t \<Longrightarrow> i \<in> set (voice_mail_items t) \<Longrightarrow>
    it_ID i = it_ID x \<or> ObjectKey i = ObjectKey x \<Longrightarrow> item_core i = item_core x"
  unfolding follows_def using item_core_sel same_row by metis

lemma leads_to_pending: "leads_to s PendingUpload \<Longrightarrow> s = PendingUpload"
  by (cases s) auto

subsection \<open>Steps of the database\<close>

lemma blobs_owned_moved:
  assumes "blobs_owned sha256 w" "vm_delta (vw_store w) (vw_store w')" "vw_blobs w' = vw_blobs w"
  shows "blobs_owned sha256 w'"
  unfolding blobs_owned_def
proof (intro allI impI)
  fix k b assume "vw_blobs w' k = Some b"
  with assms obtain i where i: "i \<in> set (voice_mail_items (vw_store w))" "ObjectKey i = k" "media_ok sha256 i b"
    by (auto simp: blobs_owned_def)
  from delta_succ [OF assms(2) i(1)] obtain i' where i': "i' \<in> set (voice_mail_items (vw_store w'))"
    "item_core i' = item_core i" by metis
  then have "ObjectKey i' = k" "media_ok sha256 i' b"
    using i(2,3) media_ok_core [OF i'(2)] item_core_sel [OF i'(2)] by simp_all
  then show "\<exists>i \<in> set (voice_mail_items (vw_store w')). ObjectKey i = k \<and> media_ok sha256 i b" using i'(1) by blast
qed

lemma offers_backed_moved:
  assumes "offers_backed w" "no_new_offer ids (vw_store w) (vw_store w')" "vw_blobs w' = vw_blobs w"
    "\<And>k. k \<in> ids \<Longrightarrow> ready_ok k w"
  shows "offers_backed w'"
  unfolding offers_backed_def
proof (intro ballI impI)
  fix i' assume i': "i' \<in> set (voice_mail_items (vw_store w'))" "offered_item i'" "TrimSpace (it_ID i') = it_ID i'"
  then obtain i where i: "i \<in> set (voice_mail_items (vw_store w))" "item_core i = item_core i'"
      "offered_item i \<or> it_State i = PendingUpload \<and> it_ID i \<in> ids"
    using assms(2) by (auto simp: no_new_offer_def)
  have "vw_blobs w (ObjectKey i) \<noteq> None"
    using i(1,3) i'(3) item_core_sel [OF i(2)] assms(1) assms(4) [of "it_ID i"] unfolding offers_backed_def ready_ok_def
    by metis
  then show "vw_blobs w' (ObjectKey i') \<noteq> None" using assms(3) item_core_sel [OF i(2)] by simp
qed

lemma ready_ok_moved:
  assumes "ready_ok k w" "vm_delta (vw_store w) (vw_store w')" "vw_blobs w' = vw_blobs w"
  shows "ready_ok k w'"
  unfolding ready_ok_def
proof (intro impI)
  assume t: "TrimSpace k = k"
  with assms(1) obtain i where i: "i \<in> set (voice_mail_items (vw_store w))" "it_ID i = k"
    "it_State i = PendingUpload \<Longrightarrow> vw_blobs w (ObjectKey i) \<noteq> None" by (auto simp: ready_ok_def)
  from delta_succ [OF assms(2) i(1)] obtain i' where i': "i' \<in> set (voice_mail_items (vw_store w'))"
    "item_core i' = item_core i" "leads_to (it_State i) (it_State i')" by metis
  have "vm_inv (vw_store w')" using assms(2) by (simp add: vm_delta_def)
  then have "j = i'" if "j \<in> set (voice_mail_items (vw_store w'))" "it_ID j = k" for j
    using that same_row [OF _ that(1) i'(1)] item_core_sel [OF i'(2)] i(2) by auto
  then show "k \<in> it_ID ` set (voice_mail_items (vw_store w'))
     \<and> (\<forall>i \<in> set (voice_mail_items (vw_store w')). it_ID i = k \<longrightarrow> it_State i = PendingUpload \<longrightarrow> vw_blobs w' (ObjectKey i) \<noteq> None)"
    using i i' item_core_sel [OF i'(2)] assms(3) leads_to_pending by (metis image_iff)
qed

lemma deleted_clean_moved:
  assumes "deleted_clean late w" "no_new_deleted (vw_store w) (vw_store w')" "vw_blobs w' = vw_blobs w"
  shows "deleted_clean late w'"
  unfolding deleted_clean_def
proof (intro ballI impI)
  fix i' assume "i' \<in> set (voice_mail_items (vw_store w'))" "it_State i' = Deleted"
  then obtain i where "i \<in> set (voice_mail_items (vw_store w))" "it_State i = Deleted" "item_core i = item_core i'"
    using assms(2) by (auto simp: no_new_deleted_def)
  then show "vw_blobs w' (ObjectKey i') = None \<or> ObjectKey i' \<in> late"
    using assms(1,3) item_core_sel [of i i'] by (auto simp: deleted_clean_def)
qed

lemma conc_moved:
  assumes "conc_inv sha256 c" "db_moved ids (vc_world c) w" "ids \<subseteq> vc_ready c" "deleted_clean (vc_late c) w"
  shows "conc_inv sha256 (c\<lparr>vc_world := w\<rparr>)"
proof -
  have d: "vm_delta (vc_store c) (vw_store w)" "no_new_offer ids (vc_store c) (vw_store w)" and b: "vw_blobs w = vc_blobs c"
    using assms(1,2) by (auto simp: db_moved_def conc_inv_def)
  have "rows_in {DeletePending, Deleted} (it_ID ` (vc_taken c \<union> vc_gone c)) (vw_store w)"
    using rows_in_delta [OF d(1), of "{DeletePending, Deleted}" "it_ID ` (vc_taken c \<union> vc_gone c)"] leads_to_deletion(1)
      assms(1) follows_id by (fastforce simp: conc_inv_def)
  moreover have "\<forall>x \<in> vc_uploads c \<union> snd ` vc_reading c \<union> vc_taken c \<union> vc_gone c. follows x (vw_store w)"
    using assms(1) follows_delta [OF _ d(1)] by (auto simp: conc_inv_def)
  moreover have "\<forall>k \<in> vc_ready c. ready_ok k w" using assms(1) ready_ok_moved [OF _ d(1) b] by (auto simp: conc_inv_def)
  moreover have "offers_backed w" using offers_backed_moved [OF _ d(2) b] assms(1,3) unfolding conc_inv_def by blast
  moreover have "blobs_owned sha256 w" using blobs_owned_moved [OF _ d(1) b] assms(1) by (auto simp: conc_inv_def)
  ultimately show ?thesis using assms(1,4) d(1) b by (simp add: conc_inv_def vm_delta_def)
qed

lemma conc_db:
  assumes "conc_inv sha256 c" "on_db m (vc_world c) = (r, w)" "changes vm_inv vm_keep m"
    "changes vm_inv (no_new_offer ids) m" "ids \<subseteq> vc_ready c"
  shows "conc_inv sha256 (c\<lparr>vc_world := w\<rparr>)"
proof (rule conc_moved [OF assms(1) on_db_moved [OF assms(2) changes_delta [OF assms(3)] assms(4)] assms(5)])
  obtain d where d: "m (vw_db (vc_world c)) = (r, d)" "w = (vc_world c)\<lparr>vw_db := d\<rparr>"
    using assms(2) by (auto simp: on_db_def split: prod.splits)
  have "no_new_deleted (vc_store c) (tables d)" using changesD [OF assms(3) d(1)] assms(1) by (auto simp: conc_inv_def vm_keep_def)
  then show "deleted_clean (vc_late c) w"
    using deleted_clean_moved [of "vc_late c" "vc_world c" w] assms(1) d(2) by (simp add: conc_inv_def)
qed

lemma conc_same:
  assumes "conc_inv sha256 c" "voice_mail_items (vw_store w) = vc_items c" "vw_blobs w = vc_blobs c"
  shows "conc_inv sha256 (c\<lparr>vc_world := w\<rparr>)"
  using assms by (simp add: conc_inv_def vm_inv_def blobs_owned_def offers_backed_def follows_def rows_in_def ready_ok_def
      deleted_clean_def)

subsection \<open>Steps of the blob store\<close>

lemma ItemForSender_found:
  assumes "on_db (ItemForSender u v i) w = (Inr (Some item), w')"
  shows "item \<in> set (voice_mail_items (vw_store w))" "it_ID item = TrimSpace i" "vw_store w' = vw_store w"
    "vw_blobs w' = vw_blobs w"
  using assms by (auto simp: on_db_def ItemForSender_def query_def stmt_def for_sender_def split: prod.splits if_splits
      dest: find_item_SomeD)

lemma blob_put_cases:
  assumes "blob_put sha256 key body n csum w = (r, w')"
  obtains (stored) b where "r = Inr ()" "vw_db w' = vw_db w" "vw_blobs w' = (vw_blobs w)(key \<mapsto> b)"
      "int (length b) = n" "ToLower (hex_encode (sha256 b)) = ToLower csum"
    | (refused) "r \<noteq> Inr ()" "vw_db w' = vw_db w" "vw_blobs w' = vw_blobs w"
  using assms
  by (auto simp: blob_put_def act_bind_def check_path_def Let_def act_fail_def act_return_def on_disk_def
      split: option.splits if_splits)

lemma blob_delete_cases:
  assumes "blob_delete key w = (r, w')"
  obtains (deleted) "r = Inr ()" "vw_db w' = vw_db w" "vw_blobs w' = (vw_blobs w)(key := None)"
    | (refused) "r \<noteq> Inr ()" "vw_db w' = vw_db w" "vw_blobs w' = vw_blobs w"
  using assms
  by (auto simp: blob_delete_def act_bind_def check_path_def act_fail_def act_return_def on_disk_def
      split: option.splits if_splits)

lemma verify_media_found:
  assumes "verify_media sha256 item w = (Inr (), w')"
  shows "vw_blobs w (ObjectKey item) \<noteq> None" "vw_db w' = vw_db w" "vw_blobs w' = vw_blobs w"
  using assms
  by (auto simp: verify_media_def blob_open_def act_bind_def check_path_def Let_def act_fail_def act_return_def on_disk_def
      split: option.splits if_splits)

lemma conc_put_store:
  assumes "conc_inv sha256 c" "item \<in> vc_uploads c"
    "blob_put sha256 (ObjectKey item) body (SizeBytes item) (ChecksumSHA256 item) (vc_world c) = (r, w)"
  shows "conc_inv sha256 (c\<lparr>vc_world := w, vc_late :=
      (if r = Inr () \<and> \<not> still_pending item (vw_store w) then insert (ObjectKey item) (vc_late c) else vc_late c)\<rparr>)"
  using assms(3)
proof (cases rule: blob_put_cases)
  case refused
  then show ?thesis using conc_same [OF assms(1), of w] by simp
next
  case (stored b)
  let ?late = "if r = Inr () \<and> \<not> still_pending item (vw_store w) then insert (ObjectKey item) (vc_late c) else vc_late c"
  have inv: "vm_inv (vc_store c)" "follows item (vc_store c)" "blobs_owned sha256 (vc_world c)" "offers_backed (vc_world c)"
      "\<forall>k \<in> vc_ready c. ready_ok k (vc_world c)" "deleted_clean (vc_late c) (vc_world c)"
    using assms(1,2) unfolding conc_inv_def by blast+
  obtain row where row: "row \<in> set (vc_items c)" "item_core row = item_core item" using inv(2) by (auto simp: follows_def)
  have "media_ok sha256 row b" "ObjectKey row = ObjectKey item" using stored item_core_sel [OF row(2)] by (simp_all add: media_ok_def)
  then have "blobs_owned sha256 w" using inv(3) row(1) stored by (auto simp: blobs_owned_def)
  moreover have "offers_backed w" using inv(4) stored by (simp add: offers_backed_def)
  moreover have "\<forall>k \<in> vc_ready c. ready_ok k w" using inv(5) stored by (simp add: ready_ok_def)
  moreover have late: "ObjectKey item \<in> ?late" if "i \<in> set (vc_items c)" "ObjectKey i = ObjectKey item" "it_State i \<noteq> PendingUpload" for i
    using that stored by (auto simp: still_pending_def list_all_iff)
  have "deleted_clean ?late w"
    unfolding deleted_clean_def
  proof (intro ballI impI)
    fix i assume i: "i \<in> set (voice_mail_items (vw_store w))" "it_State i = Deleted"
    then show "vw_blobs w (ObjectKey i) = None \<or> ObjectKey i \<in> ?late"
      using inv(6) stored late [of i] by (cases "ObjectKey i = ObjectKey item") (auto simp: deleted_clean_def)
  qed
  moreover have "vw_blobs w (ObjectKey x) = None \<or> ObjectKey x \<in> ?late" if x: "x \<in> vc_gone c" for x
  proof (cases "ObjectKey x = ObjectKey item")
    case True
    have "follows x (vc_store c)" "rows_in {DeletePending, Deleted} (it_ID ` (vc_taken c \<union> vc_gone c)) (vc_store c)"
      using assms(1) x unfolding conc_inv_def by blast+
    then obtain i where "i \<in> set (vc_items c)" "item_core i = item_core x" "it_State i \<in> {DeletePending, Deleted}"
      unfolding follows_def rows_in_def using x item_core_sel by (metis UnI2 image_eqI)
    then have "ObjectKey i = ObjectKey item" "it_State i \<noteq> PendingUpload" using item_core_sel [of i x] True by auto
    with late \<open>i \<in> set (vc_items c)\<close> have "ObjectKey item \<in> ?late" by blast
    then show ?thesis using True by simp
  next
    case False
    have "vc_blobs c (ObjectKey x) = None \<or> ObjectKey x \<in> vc_late c" using assms(1) x unfolding conc_inv_def by blast
    then show ?thesis using False stored by auto
  qed
  ultimately show ?thesis using assms(1) stored by (simp add: conc_inv_def)
qed

lemma conc_delete:
  assumes "conc_inv sha256 c" "item \<in> vc_taken c" "blob_delete (ObjectKey item) (vc_world c) = (r, w)"
  shows "conc_inv sha256 (c\<lparr>vc_world := w, vc_gone := (if r = Inr () then insert item (vc_gone c) else vc_gone c)\<rparr>)"
  using assms(3)
proof (cases rule: blob_delete_cases)
  case refused
  then show ?thesis using conc_same [OF assms(1), of w] by simp
next
  case deleted
  have inv: "vm_inv (vc_store c)" "follows item (vc_store c)" using assms(1,2) by (auto simp: conc_inv_def)
  have row: "it_State i \<in> {DeletePending, Deleted}" if "i \<in> set (vc_items c)" "ObjectKey i = ObjectKey item" for i
  proof -
    have "it_ID i = it_ID item" using follows_row [OF inv(2,1) that(1)] that(2) item_core_sel by blast
    then show ?thesis using assms(1,2) that(1) by (auto simp: conc_inv_def rows_in_def)
  qed
  then have "offers_backed w" using assms(1) deleted by (fastforce simp: conc_inv_def offers_backed_def offered_item_def)
  moreover have "\<forall>k \<in> vc_ready c. ready_ok k w" using assms(1) deleted row by (fastforce simp: conc_inv_def ready_ok_def)
  moreover have "blobs_owned sha256 w" using assms(1) deleted by (auto simp: conc_inv_def blobs_owned_def)
  moreover have "deleted_clean (vc_late c) w" using assms(1) deleted by (auto simp: conc_inv_def deleted_clean_def)
  ultimately show ?thesis using assms(1,2) deleted by (auto simp: conc_inv_def insert_absorb)
qed

lemma conc_mark:
  assumes "conc_inv sha256 c" "item \<in> vc_gone c" "on_db (MarkDeleted (it_ID item) now) (vc_world c) = (r, w)"
  shows "conc_inv sha256 (c\<lparr>vc_world := w\<rparr>)"
proof (rule conc_moved [OF assms(1) on_db_moved [OF assms(3) MarkDeleted_changes MarkDeleted_offer]])
  obtain d where d: "MarkDeleted (it_ID item) now (vw_db (vc_world c)) = (r, d)" "w = (vc_world c)\<lparr>vw_db := d\<rparr>"
    using assms(3) by (auto simp: on_db_def split: prod.splits)
  have inv: "vm_inv (vc_store c)" "follows item (vc_store c)" using assms(1,2) by (auto simp: conc_inv_def)
  show "deleted_clean (vc_late c) w"
    unfolding deleted_clean_def
  proof (intro ballI impI)
    fix j assume j: "j \<in> set (voice_mail_items (vw_store w))" "it_State j = Deleted"
    from d(1) have "tables d = vc_store c \<or> voice_mail_items (tables d) =
        update_where (\<lambda>x. it_ID x = it_ID item \<and> it_State x \<in> {DeletePending, Deleted, Rejected})
          (set_state Deleted (pg_ts now)) (vc_items c)"
      by (auto simp: MarkDeleted_def stmt_def update_items_def split: if_splits option.splits)
    with j d(2) consider "j \<in> set (vc_items c)"
      | i where "i \<in> set (vc_items c)" "it_ID i = it_ID item" "j = set_state Deleted (pg_ts now) i"
      by (auto simp: in_set_update_where split: if_splits)
    then show "vw_blobs w (ObjectKey j) = None \<or> ObjectKey j \<in> vc_late c"
    proof cases
      case 1
      then show ?thesis using assms(1) j(2) d(2) by (simp add: conc_inv_def deleted_clean_def)
    next
      case 2
      have "item_core i = item_core item" using follows_row [OF inv(2,1) 2(1)] 2(2) by simp
      then have "ObjectKey j = ObjectKey item" using item_core_sel [of i item] 2(3) by (simp add: set_state_def)
      moreover have "vc_blobs c (ObjectKey item) = None \<or> ObjectKey item \<in> vc_late c"
        using assms(1,2) unfolding conc_inv_def by blast
      ultimately show ?thesis using d(2) by simp
    qed
  qed
qed simp

lemma conc_take:
  assumes "conc_inv sha256 c" "on_db (ClaimCleanup env now limit) (vc_world c) = (Inr items, w)"
  shows "conc_inv sha256 (c\<lparr>vc_world := w, vc_taken := set items \<union> vc_taken c\<rparr>)"
proof -
  obtain d where d: "ClaimCleanup env now limit (vw_db (vc_world c)) = (Inr items, d)" "w = (vc_world c)\<lparr>vw_db := d\<rparr>"
    using assms(2) by (auto simp: on_db_def split: prod.splits)
  have inv: "vm_inv (vc_store c)" using assms(1) by (simp add: conc_inv_def)
  have c': "conc_inv sha256 (c\<lparr>vc_world := w\<rparr>)"
    by (rule conc_db [OF assms ClaimCleanup_changes ClaimCleanup_offer]) simp
  have items: "items = map (release_item DeletePending now) (due_rows env now limit (vc_store c))"
    using ClaimCleanup_Inr [OF d(1)] by simp
  from d(1) obtain d1 d2 where run: "cleanup_rows now (due_rows env now limit (vc_store c)) d1 = (Inr items, d2)"
      "tables d1 = vc_store c" "tables d = tables d2"
    unfolding ClaimCleanup_def by (cases rule: in_tx_Inr) (auto simp: tx_bind_Inr query_Inr tx_return_Inr)
  have due: "i \<in> set (vc_items c) \<and> it_State i \<noteq> Deleted" if "i \<in> set (due_rows env now limit (vc_store c))" for i
    using due_rows_subset [OF that] by (auto simp: cleanup_due_def)
  have "rows_in {DeletePending, Deleted} (it_ID ` set items) (tables d)"
    using cleanup_rows_state [OF run(1)] run(2,3) inv due_rows_distinct [OF inv] due by (simp add: items image_image)
  moreover have "follows x (tables d)" if "x \<in> set items" for x
  proof -
    from that obtain i where i: "i \<in> set (due_rows env now limit (vc_store c))" "x = release_item DeletePending now i"
      by (auto simp: items)
    have "vm_delta (vc_store c) (tables d)" using changesD [OF ClaimCleanup_changes d(1) inv] by (simp add: vm_keep_def)
    then have "follows i (tables d)" using due [OF i(1)] follows_delta follows_in by blast
    then show ?thesis by (simp add: follows_def i(2))
  qed
  ultimately show ?thesis using c' d(2) by (auto simp: conc_inv_def rows_in_def image_Un)
qed

subsection \<open>Runs\<close>

lemma Service_CreateUpload_db: "Service_CreateUpload env now request u w = (r, w') \<Longrightarrow>
    w' = w \<or> on_db (CreateUpload env request u now) w = (r, w')"
  by (auto simp: Service_CreateUpload_def act_fail_def split: option.splits)

lemma vm_step_inv:
  assumes "vm_step sha256 c c'" "conc_inv sha256 c"
  shows "conc_inv sha256 c'"
  using assms
proof (cases rule: vm_step.cases)
  case (create env now request u r w)
  show ?thesis using Service_CreateUpload_db [OF create(2)] conc_db [OF assms(2) _ keep_CreateUpload] assms(2) create(1) by auto
next
  case (put_check u v i item w)
  note f = ItemForSender_found [OF put_check(2)]
  have "conc_inv sha256 (c\<lparr>vc_world := w\<rparr>)" by (rule conc_same [OF assms(2)]) (simp_all add: f)
  then show ?thesis using f put_check(1) by (auto simp: conc_inv_def follows_in)
next
  case (put_store item body r w)
  show ?thesis unfolding put_store(1) by (rule conc_put_store [OF assms(2) put_store(2,3)])
next
  case (complete_done u v i item w)
  note f = ItemForSender_found [OF complete_done(2)]
  have c: "conc_inv sha256 (c\<lparr>vc_world := w\<rparr>)" by (rule conc_same [OF assms(2)]) (simp_all add: f)
  have "j = item" if "TrimSpace i = i" "j \<in> set (vc_items c)" "it_ID j = i" for j
    using same_row [of "vc_store c" j item] that f(1,2) assms(2) by (simp add: conc_inv_def)
  then have "ready_ok i w" using f complete_done(3) unfolding ready_ok_def by (metis image_eqI)
  then show ?thesis using c complete_done(1) by (simp add: conc_inv_def)
next
  case (complete_read u v i item w)
  note f = ItemForSender_found [OF complete_read(2)]
  have "conc_inv sha256 (c\<lparr>vc_world := w\<rparr>)" by (rule conc_same [OF assms(2)]) (simp_all add: f)
  then show ?thesis using f complete_read(1) by (auto simp: conc_inv_def follows_in)
next
  case (complete_verify i item w)
  note f = verify_media_found [OF complete_verify(3)]
  have c: "conc_inv sha256 (c\<lparr>vc_world := w\<rparr>)" by (rule conc_same [OF assms(2)]) (simp_all add: f)
  have r: "follows item (vc_store c)" "it_ID item = TrimSpace i" "vm_inv (vc_store c)"
    using assms(2) complete_verify(2) by (force simp: conc_inv_def)+
  have "ready_ok i w"
    unfolding ready_ok_def
  proof (intro impI conjI ballI)
    assume t: "TrimSpace i = i"
    then show "i \<in> it_ID ` set (voice_mail_items (vw_store w))" using follows_id [OF r(1)] r(2) f by simp
    fix j assume "j \<in> set (voice_mail_items (vw_store w))" "it_ID j = i"
    then have "item_core j = item_core item" using follows_row [OF r(1,3)] f r(2) t by simp
    then show "vw_blobs w (ObjectKey j) \<noteq> None" using f item_core_sel [of j item] by simp
  qed
  then show ?thesis using c complete_verify(1) by (simp add: conc_inv_def)
next
  case (complete i env request u v now r w)
  then show ?thesis using conc_db [OF assms(2) complete(3) changes_CompleteUpload] by simp
next
  case (claim env now request u v i p r w)
  then show ?thesis using conc_db [OF assms(2) _ keep_Claim] by (simp add: Service_Claim_def)
next
  case (playback env now now2 request u v i p ok r w)
  show ?thesis using Playback_db [OF playback(2)] conc_db [OF assms(2) _ keep_Playback] playback(1) by auto
next
  case (delete env now now2 request u i r w)
  show ?thesis using Delete_db [OF delete(2)] conc_db [OF assms(2) _ keep_Delete] delete(1) by auto
next
  case (cleanup_take env now limit items w)
  then show ?thesis using conc_take [OF assms(2)] by simp
next
  case (cleanup_delete item r w)
  then show ?thesis using conc_delete [OF assms(2)] by simp
next
  case (cleanup_mark item now r w)
  then show ?thesis using conc_mark [OF assms(2)] by simp
next
  case (other w)
  then show ?thesis using conc_same [OF assms(2)] by simp
qed

lemma vm_steps_inv: "vm_steps sha256 c c' \<Longrightarrow> conc_inv sha256 c \<Longrightarrow> conc_inv sha256 c'"
  by (induction rule: vm_steps.induct) (auto dest: vm_step_inv)

lemma conc_idle: "voice_mail_items (vw_store w) = [] \<Longrightarrow> vw_blobs w = Map.empty \<Longrightarrow> conc_inv sha256 (vm_idle w)"
  by (simp add: conc_inv_def vm_idle_def vm_inv_def unique_key_def blobs_owned_def offers_backed_def rows_in_def deleted_clean_def)

lemma vm_step_delta:
  assumes "vm_step sha256 c c'" "vm_inv (vc_store c)"
  shows "vm_inv (vc_store c') \<and> items_evolve (vc_items c) (vc_items c')"
proof -
  have same: "vm_inv (vw_store w) \<and> items_evolve (vc_items c) (voice_mail_items (vw_store w))"
    if "voice_mail_items (vw_store w) = vc_items c" for w
    using that assms(2) by (simp add: vm_inv_def items_evolve_mono)
  have keep: "vm_inv (vw_store w) \<and> items_evolve (vc_items c) (voice_mail_items (vw_store w))"
    if "db_moved ids (vc_world c) w" for ids w
    using that assms(2) by (auto simp: db_moved_def vm_delta_def)
  note moved = keep [OF on_db_moved [OF _ changes_delta]]
  show ?thesis using assms(1)
  proof (cases rule: vm_step.cases)
    case (create env now request u r w)
    then show ?thesis using Service_CreateUpload_db [OF create(2)] moved [OF _ keep_CreateUpload] same by auto
  next
    case (put_store item body r w)
    show ?thesis using put_store(3,1) same [of w] by (cases rule: blob_put_cases) simp_all
  next
    case (complete i env request u v now r w)
    then show ?thesis using moved [OF complete(3) changes_CompleteUpload] by simp
  next
    case (claim env now request u v i p r w)
    then show ?thesis using moved [OF _ keep_Claim] by (simp add: Service_Claim_def)
  next
    case (playback env now now2 request u v i p ok r w)
    then show ?thesis using Playback_db [OF playback(2)] moved [OF _ keep_Playback] by auto
  next
    case (delete env now now2 request u i r w)
    then show ?thesis using Delete_db [OF delete(2)] moved [OF _ keep_Delete] by auto
  next
    case (cleanup_take env now limit items w)
    then show ?thesis using moved [OF cleanup_take(2) ClaimCleanup_changes ClaimCleanup_offer] by simp
  next
    case (cleanup_delete item r w)
    show ?thesis using cleanup_delete(3,1) same [of w] by (cases rule: blob_delete_cases) simp_all
  next
    case (cleanup_mark item now r w)
    then show ?thesis using keep [OF on_db_moved [OF cleanup_mark(3) MarkDeleted_changes MarkDeleted_offer]] by simp
  next
    case (complete_verify i item w)
    then show ?thesis using verify_media_found(2) [OF complete_verify(3)] same [of w] by simp
  qed (use same in \<open>auto dest: ItemForSender_found(3)\<close>)
qed

lemma vm_steps_delta:
  "vm_steps sha256 c c' \<Longrightarrow> vm_inv (vc_store c) \<Longrightarrow> vm_inv (vc_store c') \<and> items_evolve (vc_items c) (vc_items c')"
proof (induction rule: vm_steps.induct)
  case (step c c1 c2)
  then show ?case using vm_step_delta [OF step(2)] items_evolve_trans by blast
qed (simp add: items_evolve_mono)

lemma vm_run_delta:
  "vm_run sha256 w w' \<Longrightarrow> vm_inv (vw_store w) \<Longrightarrow>
     vm_inv (vw_store w') \<and> items_evolve (voice_mail_items (vw_store w)) (voice_mail_items (vw_store w'))"
  unfolding vm_run_def using vm_steps_delta by (fastforce simp: vm_idle_def)

section \<open>Whole calls are runs\<close>

text \<open>
  A call of the service that nothing interrupts is a sequence of these steps: the steps are the parts of the
  calls, in the order of the code.
\<close>

definition reaches :: "(string \<Rightarrow> string) \<Rightarrow> vm_conc \<Rightarrow> vm_world \<Rightarrow> bool" where
  "reaches sha256 c w \<longleftrightarrow> (\<exists>c'. vm_steps sha256 c c' \<and> vc_world c' = w)"

lemma reaches_step: "vm_step sha256 c c' \<Longrightarrow> reaches sha256 c' w \<Longrightarrow> reaches sha256 c w"
  unfolding reaches_def using vm_steps_trans vm_steps_one by blast

lemma reaches_refl: "vc_world c = w \<Longrightarrow> reaches sha256 c w"
  unfolding reaches_def using vm_steps.start by blast

lemma reaches_one: "vm_step sha256 c c' \<Longrightarrow> vc_world c' = w \<Longrightarrow> reaches sha256 c w"
  by (blast intro: reaches_step reaches_refl)

lemma reaches_same: "voice_mail_items (vw_store w) = vc_items c \<Longrightarrow> vw_blobs w = vc_blobs c \<Longrightarrow> reaches sha256 c w"
  by (rule reaches_one [OF vm_step.other]) simp_all

lemma ItemForSender_read: "on_db (ItemForSender u v i) w = (r, w') \<Longrightarrow> vw_store w' = vw_store w \<and> vw_blobs w' = vw_blobs w"
  by (auto simp: on_db_def ItemForSender_def query_def stmt_def split: prod.splits if_splits)

lemma PutMedia_runs:
  assumes "PutMedia sha256 u v i body (vc_world c) = (r, w)"
  shows "reaches sha256 c w"
proof -
  obtain q w1 where q: "on_db (ItemForSender u v i) (vc_world c) = (q, w1)" by force
  note same = ItemForSender_read [OF q]
  show ?thesis
  proof (cases "\<exists>item. q = Inr (Some item) \<and> it_State item = PendingUpload")
    case True
    then obtain item where item: "q = Inr (Some item)" "it_State item = PendingUpload" by blast
    let ?c1 = "c\<lparr>vc_world := w1, vc_uploads := insert item (vc_uploads c)\<rparr>"
    have "blob_put sha256 (ObjectKey item) body (SizeBytes item) (ChecksumSHA256 item) (vc_world ?c1) = (r, w)"
      using assms q item by (simp add: PutMedia_def act_bind_def)
    then have "reaches sha256 ?c1 w" by (intro reaches_one [OF vm_step.put_store]) simp_all
    then show ?thesis using vm_step.put_check q item by (blast intro: reaches_step)
  next
    case False
    with assms q have "w = w1"
      by (auto simp: PutMedia_def act_bind_def act_fail_def split: sum.splits option.splits if_splits)
    then show ?thesis using reaches_same same by simp
  qed
qed

lemma verify_media_read: "verify_media sha256 item w = (r, w') \<Longrightarrow> vw_db w' = vw_db w \<and> vw_blobs w' = vw_blobs w"
  by (auto simp: verify_media_def blob_open_def act_bind_def check_path_def Let_def act_fail_def act_return_def on_disk_def
      split: option.splits if_splits)

lemma CompleteUpload_runs:
  assumes "Service_CompleteUpload sha256 env now request u v i (vc_world c) = (r, w)"
  shows "reaches sha256 c w"
proof -
  obtain q w1 where q: "on_db (ItemForSender u v i) (vc_world c) = (q, w1)" by force
  note same = ItemForSender_read [OF q]
  have last: "reaches sha256 c1 w" if "i \<in> vc_ready c1" "on_db (CompleteUpload env request u v i now) (vc_world c1) = (r, w)" for c1
    by (rule reaches_one [OF vm_step.complete [OF that]]) simp
  consider (none) "\<forall>item. q \<noteq> Inr (Some item)" | (pending) item where "q = Inr (Some item)" "it_State item = PendingUpload"
    | (over) item where "q = Inr (Some item)" "it_State item \<noteq> PendingUpload" by blast
  then show ?thesis
  proof cases
    case none
    with assms q have "w = w1" by (auto simp: Service_CompleteUpload_def act_bind_def act_fail_def split: sum.splits option.splits)
    then show ?thesis using reaches_same same by simp
  next
    case over
    with assms q have "on_db (CompleteUpload env request u v i now) w1 = (r, w)"
      by (simp add: Service_CompleteUpload_def act_bind_def act_return_def)
    then have "reaches sha256 (c\<lparr>vc_world := w1, vc_ready := insert i (vc_ready c)\<rparr>) w" by (intro last) simp_all
    moreover have "vm_step sha256 c (c\<lparr>vc_world := w1, vc_ready := insert i (vc_ready c)\<rparr>)"
      using vm_step.complete_done over q by blast
    ultimately show ?thesis by (rule reaches_step [rotated])
  next
    case (pending item)
    let ?c1 = "c\<lparr>vc_world := w1, vc_reading := insert (i, item) (vc_reading c)\<rparr>"
    obtain x w2 where x: "verify_media sha256 item w1 = (x, w2)" by force
    have c1: "vm_step sha256 c ?c1" using vm_step.complete_read pending q by blast
    show ?thesis
    proof (cases x)
      case (Inl e)
      with assms q pending x have "w = w2" by (simp add: Service_CompleteUpload_def act_bind_def)
      then show ?thesis using reaches_same same verify_media_read [OF x] by simp
    next
      case (Inr y)
      let ?c2 = "?c1\<lparr>vc_world := w2, vc_ready := insert i (vc_ready ?c1)\<rparr>"
      have "vm_step sha256 ?c1 ?c2" by (rule vm_step.complete_verify) (use x Inr in auto)
      moreover have "reaches sha256 ?c2 w"
        using assms q pending x Inr by (intro last) (simp_all add: Service_CompleteUpload_def act_bind_def)
      ultimately show ?thesis using c1 by (blast intro: reaches_step)
    qed
  qed
qed

lemma OpenMedia_runs:
  assumes "OpenMedia now u v i p (vc_world c) = (r, w)"
  shows "reaches sha256 c w"
  by (rule reaches_same)
    (use assms in \<open>auto simp: OpenMedia_def ItemForPlayback_def query_def stmt_def on_db_def act_bind_def blob_open_def check_path_def
       act_fail_def act_return_def on_disk_def split: prod.splits sum.splits option.splits if_splits\<close>)

lemma cleanup_loop_runs:
  "cleanup_loop cd clk n items del fl (vc_world c) = (r, w) \<Longrightarrow> set items \<subseteq> vc_taken c \<Longrightarrow> reaches sha256 c w"
proof (induction items arbitrary: n del fl c)
  case Nil
  then show ?case by (auto simp: act_return_def intro: reaches_refl)
next
  case (Cons item items)
  show ?case
  proof (cases "cd n")
    case True
    with Cons.prems show ?thesis by (auto simp: act_return_def intro: reaches_refl)
  next
    case False
    obtain g w1 where g: "blob_delete (ObjectKey item) (vc_world c) = (g, w1)" by force
    let ?c1 = "c\<lparr>vc_world := w1, vc_gone := (if g = Inr () then insert item (vc_gone c) else vc_gone c)\<rparr>"
    have "item \<in> vc_taken c" using Cons.prems(2) by simp
    from vm_step.cleanup_delete [OF this g] have c1: "vm_step sha256 c ?c1" .
    show ?thesis
    proof (cases g)
      case (Inl e)
      then have "cleanup_loop cd clk (Suc n) items del (Suc fl) (vc_world ?c1) = (r, w)"
        using Cons.prems(1) False g by (simp add: act_bind_def act_try_def)
      from Cons.IH [OF this] have "reaches sha256 ?c1 w" using Cons.prems(2) by simp
      with c1 show ?thesis by (rule reaches_step)
    next
      case (Inr y)
      obtain m w2 where m: "on_db (MarkDeleted (it_ID item) (clk n)) w1 = (m, w2)" by force
      let ?c2 = "?c1\<lparr>vc_world := w2\<rparr>"
      have c2: "vm_step sha256 ?c1 ?c2" by (rule vm_step.cleanup_mark [where item = item]) (use Inr m in simp_all)
      have "reaches sha256 ?c2 w"
      proof (cases m)
        case (Inl e)
        then show ?thesis using Cons.prems(1) False g Inr m
          by (intro reaches_refl) (simp add: act_bind_def act_try_def act_return_def \<open>g = Inr y\<close>)
      next
        case (Inr z)
        then have "cleanup_loop cd clk (Suc n) items (Suc del) fl (vc_world ?c2) = (r, w)"
          using Cons.prems(1) False g m \<open>g = Inr y\<close> by (simp add: act_bind_def act_try_def)
        from Cons.IH [OF this] show ?thesis using Cons.prems(2) by simp
      qed
      with c1 c2 show ?thesis by (blast intro: reaches_step)
    qed
  qed
qed

lemma Cleanup_runs:
  assumes "Cleanup env now cd clk limit (vc_world c) = (r, w)"
  shows "reaches sha256 c w"
proof -
  obtain q w1 where q: "on_db (ClaimCleanup env now limit) (vc_world c) = (q, w1)" by force
  show ?thesis
  proof (cases q)
    case (Inl e)
    have "vw_store w1 = vc_store c" "vw_blobs w1 = vc_blobs c"
      using q Inl in_tx_Inl by (auto simp: on_db_def ClaimCleanup_def split: prod.splits)
    moreover have "w = w1" using assms q Inl by (simp add: Cleanup_def act_bind_def)
    ultimately show ?thesis by (intro reaches_same) simp_all
  next
    case (Inr items)
    let ?c1 = "c\<lparr>vc_world := w1, vc_taken := set items \<union> vc_taken c\<rparr>"
    have "vm_step sha256 c ?c1" using vm_step.cleanup_take q Inr by blast
    moreover have "cleanup_loop cd clk 0 items 0 0 (vc_world ?c1) = (r, w)"
      using assms q Inr by (simp add: Cleanup_def act_bind_def)
    ultimately show ?thesis using cleanup_loop_runs [of cd clk 0 items 0 0 ?c1 r w] by (auto intro: reaches_step)
  qed
qed

lemma vm_step_uploads: "vm_step sha256 c c' \<Longrightarrow> vc_uploads c \<subseteq> vc_uploads c'"
  by (cases rule: vm_step.cases) auto

lemma vm_steps_uploads: "vm_steps sha256 c c' \<Longrightarrow> vc_uploads c \<subseteq> vc_uploads c'"
  by (induction rule: vm_steps.induct) (use vm_step_uploads in blast)+

end
