(* ===== verification/Voicemail_Properties.thy ===== *)
theory Voicemail_Properties
  imports Voicemail_Runs
begin

text \<open>
  The properties of voice mail: what every interleaving of the service's calls keeps, the exclusiveness of a
  claim, the gate of revocation, the agreement with the protocol states, and the completion of the
  cleanup. A small world with one relationship and one claimed item exercises them.
\<close>

section \<open>A world\<close>

definition vm_env :: pg_env where
  "vm_env = \<lparr>pg_less = string_less, gen_random_uuid = ''item-2'', gen_random_uuid2 = ''blob-2'', tx_now = 5000,
     clock_timestamp = 6000, go_now = 5000\<rparr>"

definition vm_rel :: Relationship where
  "vm_rel = \<lparr>rel_ID = ''rel-1'', DeviceAID = ''devA'', DeviceBID = ''devB'', UserAID = ''anna'',
     UserBID = ''bert'', rel_CreatedAt = 1000, RevokedAt = None\<rparr>"

definition zeros :: string where "zeros = replicate 64 (CHR ''0'')"

lemma zeros_form [simp]: "length zeros = 64" "hex_decodes zeros" "ToLower zeros = zeros"
  "list_all (\<lambda>c. byte_in 48 57 c \<or> byte_in 97 102 c) zeros"
  by (simp_all add: zeros_def hex_decodes_def hex_digit_def byte_in_def list_all_iff ToLower_def lower_byte_def)

definition vm_item :: Item where
  "vm_item = \<lparr>it_ID = ''item-1'', it_RelationshipID = ''rel-1'', SenderUserID = ''anna'', SenderDeviceID = ''devA'',
     RecipientUserID = ''bert'', RecipientDeviceID = ''devB'', ObjectKey = ''blob-1'', MediaFormat = ogg_opus,
     DurationMS = 1000, SizeBytes = 3, ChecksumSHA256 = zeros, it_Policy = Ephemeral, it_State = Claimed,
     PlaybackID = ''play-1'', LeaseExpiresAt = Some 9000, it_ExpiresAt = 90000, it_CreatedAt = 1000,
     it_UpdatedAt = 2000\<rparr>"

definition vm_store :: store where
  "vm_store = empty_store\<lparr>device_relationships := [vm_rel],
     voice_mail_policies := [(''anna'', Ephemeral), (''bert'', Ephemeral)], voice_mail_items := [vm_item]\<rparr>"

definition vm_db :: "store db" where "vm_db = \<lparr>tables = vm_store, faults = []\<rparr>"

definition vm_demo :: vm_world where
  "vm_demo = \<lparr>vw_db = vm_db, vw_blobs = [''blob-1'' \<mapsto> ''abc''], vw_io = []\<rparr>"

lemma vm_item_check: "item_check vm_item"
  by (simp add: item_check_def vm_item_def)

lemma vm_demo_inv: "vm_inv (vw_store vm_demo)"
  using vm_item_check
  by (simp add: vm_demo_def vm_db_def vm_store_def vm_inv_def unique_key_def) (simp add: vm_item_def)

section \<open>Runs\<close>

text \<open>
  C19: media is what was announced, under overlapping calls. From an empty store, after any interleaving of the
  parts of the service's calls with any faults, object keys are unique; every stored blob belongs to an item
  with that key and has exactly the size and the checksum of the item; every item that is offered to a recipient
  (unread or claimed) has its blob, as long as identifiers have no blanks around them, which those of
  the database have not; a deleted item has a blob only when an upload stored it after the row had stopped being
  pending; and what is opened for an item, however much later, has the item's size and checksum.
\<close>

theorem voicemail_media_sound:
  assumes "voice_mail_items (vw_store w0) = []" "vw_blobs w0 = Map.empty" "vm_steps sha256 (vm_idle w0) c"
  shows "distinct (map ObjectKey (vc_items c))
    \<and> (\<forall>key b. vc_blobs c key = Some b \<longrightarrow> (\<exists>i \<in> set (vc_items c). ObjectKey i = key \<and> int (length b) = SizeBytes i
          \<and> ToLower (hex_encode (sha256 b)) = ToLower (ChecksumSHA256 i)))
    \<and> (\<forall>i \<in> set (vc_items c). it_State i \<in> {Unread, Claimed} \<longrightarrow> TrimSpace (it_ID i) = it_ID i \<longrightarrow>
          vc_blobs c (ObjectKey i) \<noteq> None)
    \<and> (\<forall>i \<in> set (vc_items c). it_State i = Deleted \<longrightarrow> vc_blobs c (ObjectKey i) = None \<or> ObjectKey i \<in> vc_late c)
    \<and> (\<forall>i \<in> set (vc_items c). \<forall>c' b w. vm_steps sha256 c c' \<longrightarrow> blob_open (ObjectKey i) (vc_world c') = (Inr b, w) \<longrightarrow>
          int (length b) = SizeBytes i \<and> ToLower (hex_encode (sha256 b)) = ToLower (ChecksumSHA256 i))"
proof -
  have inv: "conc_inv sha256 c" using vm_steps_inv [OF assms(3) conc_idle [OF assms(1,2)]] .
  have "int (length b) = SizeBytes i \<and> ToLower (hex_encode (sha256 b)) = ToLower (ChecksumSHA256 i)"
    if i: "i \<in> set (vc_items c)" and st: "vm_steps sha256 c c'" and op: "blob_open (ObjectKey i) (vc_world c') = (Inr b, w)" for i c' b w
  proof -
    have inv': "conc_inv sha256 c'" by (rule vm_steps_inv [OF st inv])
    have "vc_blobs c' (ObjectKey i) = Some b" using op
      by (auto simp: blob_open_def act_bind_def check_path_def act_fail_def act_return_def on_disk_def split: option.splits if_splits)
    then obtain j where j: "j \<in> set (vc_items c')" "ObjectKey j = ObjectKey i" "media_ok sha256 j b"
      using inv' unfolding conc_inv_def blobs_owned_def by blast
    have "vm_inv (vc_store c)" "vm_inv (vc_store c')" using inv inv' by (simp_all add: conc_inv_def)
    then obtain i' where i': "i' \<in> set (vc_items c')" "item_step i i'"
      using vm_steps_delta [OF st] i unfolding items_evolve_def by blast
    have core: "item_core i' = item_core i" using i'(2) by (simp add: item_step_def)
    have "j = i'" using same_row [OF _ j(1) i'(1)] inv' j(2) item_core_sel [OF core] by (simp add: conc_inv_def)
    then show ?thesis using j(3) item_core_sel [OF core] by (simp add: media_ok_def)
  qed
  with inv show ?thesis
    by (auto simp: conc_inv_def vm_inv_def unique_key_def blobs_owned_def media_ok_def offers_backed_def offered_item_def deleted_clean_def)
qed

definition vm_upload :: Upload where
  "vm_upload = \<lparr>up_RelationshipID = ''rel-1'', up_SenderUserID = ''anna'', up_SenderDeviceID = ''devA'',
     up_DurationMS = 1000, up_SizeBytes = 3, up_ChecksumSHA256 = zeros, up_Policy = Ephemeral, up_ExpiresAt = 90000\<rparr>"

definition vm_request :: "string \<Rightarrow> Request" where
  "vm_request oper = \<lparr>Actor = ''anna'', Operation = oper, Key = ''key-1'', RequestHash = zeros\<rparr>"

definition vm_empty :: vm_world where
  "vm_empty = \<lparr>vw_db = vm_db\<lparr>tables := vm_store\<lparr>voice_mail_items := []\<rparr>\<rparr>, vw_blobs = Map.empty, vw_io = []\<rparr>"

definition vm_created :: "(vm_error failure + Item) \<times> vm_world" where
  "vm_created = Service_CreateUpload vm_env 1000 (vm_request ''voice_mail.create'') vm_upload vm_empty"

definition zero_hash :: "string \<Rightarrow> string" where "zero_hash b = replicate 32 (CHR 0x00)"

lemma zero_hash_hex: "hex_encode (zero_hash b) = zeros"
proof -
  have "hex_encode (replicate n (CHR 0x00)) = replicate (2 * n) (CHR ''0'')" for n
    by (induction n) (simp_all add: nibble_def char_of_def bit_0)
  then show ?thesis by (simp add: zero_hash_def zeros_def)
qed

definition vm_row :: Item where
  "vm_row = vm_item\<lparr>it_ID := ''item-2'', ObjectKey := ''blob-2'', it_State := PendingUpload, PlaybackID := [],
     LeaseExpiresAt := None, it_UpdatedAt := 1000\<rparr>"

lemma vm_row_sel:
  "it_ID vm_row = ''item-2''" "ObjectKey vm_row = ''blob-2''" "it_State vm_row = PendingUpload" "SizeBytes vm_row = 3"
  "ChecksumSHA256 vm_row = zeros" "SenderUserID vm_row = ''anna''" "SenderDeviceID vm_row = ''devA''"
  "RecipientUserID vm_row = ''bert''" "RecipientDeviceID vm_row = ''devB''" "it_ExpiresAt vm_row = 90000"
  "it_RelationshipID vm_row = ''rel-1''"
  by (simp_all add: vm_row_def vm_item_def)

lemma vm_row_check: "item_check vm_row"
  using vm_item_check by (simp add: item_check_def vm_row_def vm_item_def)

lemmas demo_request = vm_request_def request_trim_def Request_Validate_def sha256_hex_len_def graphic_def request_id_def

lemma run_fresh:
  assumes "faults d = []" "requireMutationOperation (vm_request oper) oper = None"
    "Request_Validate (request_trim (vm_request oper)) = None"
    "find_record (request_id (vm_request oper)) (tables d) = None"
    "legacy_idempotency_reservations (tables d) = []" "body d = (Inr v, d2)" "faults d2 = []"
    "idempotency_records (tables d2) = idempotency_records (tables d)"
  shows "\<exists>rec. rec_id rec = request_id (vm_request oper) \<and> runMutationValue (vm_request oper) oper cr body d =
    (Inr (json_item (json_item v)), d2\<lparr>tables := (tables d2)\<lparr>idempotency_records := idempotency_records (tables d) @ [rec]\<rparr>\<rparr>)"
proof -
  let ?rec = "\<lparr>rec_id = request_id (vm_request oper), rec_hash = ToLower (RequestHash (vm_request oper)),
          rec_outcome = (OItem \<circ> json_item) v, rec_created_at = pg_ts cr\<rparr>"
  have "insert_record ?rec (tables d2) = Some ((), (tables d2)\<lparr>idempotency_records := idempotency_records (tables d) @ [?rec]\<rparr>)"
    using assms(4,8) by (auto simp: insert_record_def find_record_def find_None_iff)
  from RunIdempotent_fresh_ok [where enc = "OItem \<circ> json_item" and v = v and m = body, OF assms(1,3,4) _ assms(6,7) this] assms(2,5)
  show ?thesis by (intro exI [of _ ?rec]) (simp add: runMutationValue_def tx_bind_def tx_return_def)
qed

lemma demo_request_ok:
  assumes "oper \<in> {''voice_mail.create'', ''voice_mail.complete''}"
  shows "requireMutationOperation (vm_request oper) oper = None" "Request_Validate (request_trim (vm_request oper)) = None"
    "request_id (vm_request oper) = (''anna'', oper, ''key-1'')"
  using assms by (auto simp: requireMutationOperation_def demo_request)

text \<open>The store after the creation and, later, the completion of an upload.\<close>

definition vm_state :: "Item list \<Rightarrow> string list \<Rightarrow> vm_world \<Rightarrow> bool" where
  "vm_state rows opers w \<longleftrightarrow> voice_mail_items (vw_store w) = rows \<and> faults (vw_db w) = [] \<and> vw_io w = []
     \<and> device_relationships (vw_store w) = [vm_rel] \<and> legacy_idempotency_reservations (vw_store w) = []
     \<and> map rec_id (idempotency_records (vw_store w)) = map (\<lambda>oper. (''anna'', oper, ''key-1'')) opers"

lemma demo_created:
  "vm_state [vm_row] [''voice_mail.create''] (snd vm_created) \<and> vw_blobs (snd vm_created) = Map.empty"
proof -
  let ?d = "vw_db vm_empty"
  let ?oper = "''voice_mail.create''"
  have d: "faults ?d = []" "legacy_idempotency_reservations (tables ?d) = []" "idempotency_records (tables ?d) = []"
      "device_relationships (tables ?d) = [vm_rel]"
    by (simp_all add: vm_empty_def vm_db_def vm_store_def empty_store_def)
  have "create_upload_body vm_env vm_upload 1000 ?d = (Inr vm_row, ?d\<lparr>tables := (tables ?d)\<lparr>voice_mail_items := [vm_row]\<rparr>\<rparr>)"
    using vm_row_check
    by (simp add: create_upload_body_def Let_def vm_empty_def vm_db_def vm_store_def vm_upload_def vm_env_def vm_rel_def owner_def
        graphic_def recipient_of_def requireVoiceMailPolicy_def insert_item_def pg_ts_def)
      (simp add: vm_row_def vm_item_def insert_item_def)
  from run_fresh [where body = "create_upload_body vm_env vm_upload 1000" and v = vm_row,
      OF d(1) demo_request_ok(1,2) [of ?oper] _ d(2) this, of "go_now vm_env"] d
  obtain rec where rec: "rec_id rec = request_id (vm_request ?oper)"
    "runMutationValue (vm_request ?oper) ?oper (go_now vm_env) (create_upload_body vm_env vm_upload 1000) ?d =
       (Inr (json_item (json_item vm_row)),
        ?d\<lparr>tables := (tables ?d)\<lparr>voice_mail_items := [vm_row], idempotency_records := [rec]\<rparr>\<rparr>)"
    by (auto simp: find_record_def)
  moreover have "Create_Validate vm_upload 1000 = None"
    by (simp add: vm_upload_def Create_Validate_def graphic_def Millisecond_def wrap64_def MaxDuration_def Minute_def
      MaxSize_def sha256_hex_len_def IsZero_def After_def)
  ultimately show ?thesis using d demo_request_ok(3) [of ?oper]
    by (simp add: vm_created_def Service_CreateUpload_def CreateUpload_def on_db_def vm_state_def vm_empty_def)
qed

definition vm_put :: "(vm_error failure + unit) \<times> vm_world" where
  "vm_put = PutMedia zero_hash ''anna'' ''devA'' ''item-2'' ''abc'' (snd vm_created)"

lemma demo_path: "check_path ''blob-2'' w = (Inr (), w)"
  by (simp add: check_path_def blob_path_def backslash_def Base_def Let_def act_return_def)

lemma demo_blob_put:
  assumes "vw_io w = []"
  shows "blob_put zero_hash ''blob-2'' ''abc'' 3 zeros w = (Inr (), w\<lparr>vw_blobs := (vw_blobs w)(''blob-2'' \<mapsto> ''abc'')\<rparr>)"
  using assms by (simp add: blob_put_def act_bind_def demo_path zero_hash_hex on_disk_def)

lemma demo_sender:
  assumes "vm_state [i] opers w" "it_ID i = ''item-2''" "SenderUserID i = ''anna''" "SenderDeviceID i = ''devA''"
  shows "on_db (ItemForSender ''anna'' ''devA'' ''item-2'') w = (Inr (Some i), w)"
  using assms by (simp add: on_db_def ItemForSender_def find_item_def for_sender_def owner_def graphic_def vm_state_def)

lemma demo_put: "vm_state [vm_row] [''voice_mail.create''] (snd vm_put) \<and> vw_blobs (snd vm_put) = [''blob-2'' \<mapsto> ''abc'']"
proof -
  have io: "vw_io (snd vm_created) = []" using demo_created by (simp add: vm_state_def)
  have "on_db (ItemForSender ''anna'' ''devA'' ''item-2'') (snd vm_created) = (Inr (Some vm_row), snd vm_created)"
    by (rule demo_sender) (use demo_created vm_row_sel in auto)
  then show ?thesis using demo_created demo_blob_put [OF io]
    by (simp add: vm_put_def PutMedia_def act_bind_def vm_row_sel vm_state_def)
qed

definition vm_done :: "(vm_error failure + Item \<times> vm_error option) \<times> vm_world" where
  "vm_done = Service_CompleteUpload zero_hash vm_env 2000 (vm_request ''voice_mail.complete'') ''anna'' ''devA'' ''item-2'' (snd vm_put)"

lemma demo_done: "voice_mail_items (vw_store (snd vm_done)) = [set_state Unread 2000 vm_row]"
proof -
  let ?w = "snd vm_put" and ?oper = "''voice_mail.complete''"
  let ?body = "complete_upload_body ''anna'' ''devA'' ''item-2'' 2000"
  have w: "vm_state [vm_row] [''voice_mail.create''] ?w" "vw_blobs ?w = [''blob-2'' \<mapsto> ''abc'']" using demo_put by blast+
  have row: "on_db (ItemForSender ''anna'' ''devA'' ''item-2'') ?w = (Inr (Some vm_row), ?w)"
    by (rule demo_sender) (use w vm_row_sel in auto)
  have ver: "verify_media zero_hash vm_row ?w = (Inr (), ?w)" using w
    by (simp add: verify_media_def blob_open_def act_bind_def demo_path vm_row_sel zero_hash_hex on_disk_def vm_state_def act_return_def)
  let ?ev = "voicemail_event (set_state Unread 2000 vm_row) ''available'' 2000"
  let ?d2 = "(vw_db ?w)\<lparr>tables := outbox_insert_ignore ?ev ((vw_store ?w)\<lparr>voice_mail_items := [set_state Unread 2000 vm_row]\<rparr>)\<rparr>"
  have "item_check (set_state Unread 2000 vm_row)" using vm_row_check by (simp add: item_check_def set_state_def vm_row_def)
  then have body: "?body (vw_db ?w) = (Inr (set_state Unread 2000 vm_row), ?d2)"
    using w(1) by (simp add: complete_upload_body_def find_item_def for_sender_def owner_def graphic_def vm_row_sel vm_state_def
      find_relationship_def vm_rel_def After_def valid_generation_def update_items_def enqueueVoiceMailEvent_def pg_ts_def update_where_def)
  have "find_record (request_id (vm_request ?oper)) (vw_store ?w) = None"
    using w(1) demo_request_ok(3) [of ?oper] by (auto simp: vm_state_def find_record_def)
  from run_fresh [where body = ?body and v = "set_state Unread 2000 vm_row",
      OF _ demo_request_ok(1,2) [of ?oper] this _ body, of "go_now vm_env"] w(1)
  obtain rec where "runMutationValue (vm_request ?oper) ?oper (go_now vm_env) ?body (vw_db ?w) =
      (Inr (json_item (json_item (set_state Unread 2000 vm_row))), ?d2\<lparr>tables := (tables ?d2)\<lparr>idempotency_records :=
         idempotency_records (vw_store ?w) @ [rec]\<rparr>\<rparr>)"
    by (auto simp: vm_state_def)
  then have "voice_mail_items (vw_store (snd (on_db (CompleteUpload vm_env (vm_request ?oper) ''anna'' ''devA'' ''item-2'' 2000) ?w)))
      = [set_state Unread 2000 vm_row]"
    by (simp add: on_db_def CompleteUpload_def tx_bind_def tx_return_def)
  then show ?thesis using row ver by (simp add: vm_done_def Service_CompleteUpload_def act_bind_def vm_row_sel)
qed

lemma demo_media_run:
  "\<exists>c. vm_steps zero_hash (vm_idle vm_empty) c \<and> vc_world c = snd vm_done"
proof -
  let ?c1 = "(vm_idle vm_empty)\<lparr>vc_world := snd vm_created\<rparr>"
  have 1: "vm_steps zero_hash (vm_idle vm_empty) ?c1"
    by (rule vm_steps_one, rule vm_step.create [where r = "fst vm_created"]) (simp add: vm_created_def vm_idle_def)
  have "PutMedia zero_hash ''anna'' ''devA'' ''item-2'' ''abc'' (vc_world ?c1) = (fst vm_put, snd vm_put)" by (simp add: vm_put_def)
  from PutMedia_runs [OF this] obtain c2 where 2: "vm_steps zero_hash ?c1 c2" "vc_world c2 = snd vm_put" by (auto simp: reaches_def)
  have "Service_CompleteUpload zero_hash vm_env 2000 (vm_request ''voice_mail.complete'') ''anna'' ''devA'' ''item-2'' (vc_world c2)
      = (fst vm_done, snd vm_done)" by (simp add: vm_done_def 2(2))
  from CompleteUpload_runs [OF this] obtain c3 where "vm_steps zero_hash c2 c3" "vc_world c3 = snd vm_done" by (auto simp: reaches_def)
  with 1 2(1) show ?thesis using vm_steps_trans by blast
qed

theorem voicemail_media_sound_witness:
  "\<exists>c b. vm_steps zero_hash (vm_idle vm_empty) c \<and> vc_items c = [set_state Unread 2000 vm_row]
     \<and> vc_blobs c ''blob-2'' = Some b \<and> length b = 3"
proof -
  obtain c where c: "vm_steps zero_hash (vm_idle vm_empty) c" "vc_world c = snd vm_done" using demo_media_run by blast
  have items: "vc_items c = [set_state Unread 2000 vm_row]" using demo_done c(2) by simp
  have start: "voice_mail_items (vw_store vm_empty) = []" "vw_blobs vm_empty = Map.empty"
    by (simp_all add: vm_empty_def vm_db_def)
  note s = voicemail_media_sound [OF start c(1)]
  let ?i = "set_state Unread 2000 vm_row"
  have i: "?i \<in> set (vc_items c)" by (simp add: items)
  have sel: "ObjectKey ?i = ''blob-2''" "SizeBytes ?i = 3" "it_State ?i = Unread" "TrimSpace (it_ID ?i) = it_ID ?i"
    by (simp_all add: set_state_def vm_row_sel graphic_def)
  from s i sel(3,4) have "vc_blobs c (ObjectKey ?i) \<noteq> None" by blast
  then obtain b where b: "vc_blobs c ''blob-2'' = Some b" using sel(1) by auto
  with s obtain j where "j \<in> set (vc_items c)" "int (length b) = SizeBytes j" by blast
  then have "length b = 3" using items sel(2) by simp
  then show ?thesis using b c(1) items by blast
qed

text \<open>
  C20: an item only moves forward. Through any run of the service an item keeps its participants,
  object, checksum, policy and deadline, and its state moves only along the life of an item; a
  deleted item stays deleted and one pending deletion is never offered again.
\<close>

theorem voicemail_forward_only:
  assumes "vm_inv (vw_store w)" "vm_run sha256 w w'" "i \<in> set (voice_mail_items (vw_store w))"
  shows "\<exists>i' \<in> set (voice_mail_items (vw_store w')). it_ID i' = it_ID i \<and> item_core i' = item_core i
     \<and> leads_to (it_State i) (it_State i') \<and> (it_State i = Deleted \<longrightarrow> it_State i' = Deleted)
     \<and> (it_State i = DeletePending \<longrightarrow> it_State i' \<noteq> Unread \<and> it_State i' \<noteq> Claimed)"
proof -
  from vm_run_delta [OF assms(2,1)] assms(3) obtain i' where "i' \<in> set (voice_mail_items (vw_store w'))" "item_step i i'"
    by (auto simp: items_evolve_def)
  then show ?thesis using item_core_sel [of i' i] by (intro bexI [of _ i']) (auto simp: item_step_def)
qed

definition vm_deleted :: "(vm_error failure + Item \<times> vm_error failure option) \<times> vm_world" where
  "vm_deleted = Delete vm_env 3000 3000 (vm_request ''voice_mail.delete'') ''anna'' ''item-1'' vm_demo"

theorem voicemail_forward_only_witness:
  "\<exists>i' \<in> set (voice_mail_items (vw_store (snd vm_deleted))). it_ID i' = ''item-1'' \<and> ObjectKey i' = ''blob-1''"
proof -
  have "vm_step id (vm_idle vm_demo) ((vm_idle vm_demo)\<lparr>vc_world := snd vm_deleted\<rparr>)"
    by (rule vm_step.delete [where r' = "fst vm_deleted"]) (simp add: vm_deleted_def vm_idle_def)
  then have "vm_run id vm_demo (snd vm_deleted)" unfolding vm_run_def by (metis vm_steps_one vm_conc.select_convs(1) vm_conc.surjective vm_conc.update_convs(1))
  moreover have "vm_item \<in> set (voice_mail_items (vw_store vm_demo))" by (simp add: vm_demo_def vm_db_def vm_store_def)
  ultimately obtain i' where "i' \<in> set (voice_mail_items (vw_store (snd vm_deleted)))" "item_core i' = item_core vm_item"
    using voicemail_forward_only [OF vm_demo_inv] by blast
  then show ?thesis using item_core_sel [of i' vm_item] by (auto simp: vm_item_def)
qed

section \<open>Claims\<close>

lemma lease_over_not_live: "lease_over now i \<Longrightarrow> \<not> lease_live now i"
  using pg_ts_le [of now] by (auto simp: lease_over_def lease_live_def After_def split: option.splits)

text \<open>
  C21: a live claim is exclusive. While an item is claimed and its lease has not expired, no claim, by
  any device, with any playback identifier and idempotency key, changes its row.
\<close>

theorem claim_exclusive:
  assumes "vm_inv (tables d)" "item \<in> set (voice_mail_items (tables d))" "it_State item = Claimed" "lease_live now item"
    "ClaimVoiceMail env request u v i p now lease' d = (res, d')"
  shows "item \<in> set (voice_mail_items (tables d'))"
proof -
  let ?R = "\<lambda>t t'. \<forall>x \<in> set (voice_mail_items t). it_State x = Claimed \<longrightarrow> lease_live now x \<longrightarrow>
      x \<in> set (voice_mail_items t')"
  have "changes vm_inv ?R (RunIdempotent request (OItem \<circ> json_item) (go_now env)
      (claim_body env u v i p now lease'))"
  proof (rule RunIdempotent_changes)
    fix d :: "store db" and v' d' rec t'
    assume run: "claim_body env u v i p now lease' d = (Inr v', d')" and inv: "vm_inv (tables d)"
      and ins: "insert_record rec (tables d') = Some ((), t')"
    from run obtain y where y: "claim_row env u v i now (tables d) = Some y"
        "it_State y = Unread \<or> it_State y = Claimed \<and> \<not> lease_live now y"
        "update_items (\<lambda>x. it_ID x = it_ID y) (claim_item p (pg_ts lease') (pg_ts now)) (tables d) = Some ((), tables d')"
      by (rule claim_body_Inr)
    have "x \<in> set (voice_mail_items (tables d'))"
      if x: "x \<in> set (voice_mail_items (tables d))" "it_State x = Claimed" "lease_live now x" for x
    proof (rule update_items_sets [OF inv y(3) x(1)])
      show "it_ID x \<noteq> it_ID y"
        using inv x y(2) claim_row_SomeD [OF y(1)] unique_keyD [of it_ID "voice_mail_items (tables d)" x y]
        by (auto simp: vm_inv_def)
    qed
    then show "?R (tables d) t'" using ins by (auto simp: insert_record_def split: if_splits)
  qed auto
  then have "changes vm_inv ?R (ClaimVoiceMail env request u v i p now lease')"
    unfolding ClaimVoiceMail_def runMutationValue_def
    by (auto intro!: changes_bind_first split: option.splits mutation_outcome.splits intro: changes_readonly)
  from changesD [OF this assms(5,1)] assms(2-4) show ?thesis by blast
qed

theorem claim_exclusive_witness:
  "vm_item \<in> set (voice_mail_items (tables (snd (ClaimVoiceMail vm_env (vm_request ''voice_mail.claim'') ''bert''
     ''devB'' ''item-1'' ''play-2'' 3000 8000 vm_db))))"
  by (rule claim_exclusive [where d = vm_db and now = 3000 and res = "fst (ClaimVoiceMail vm_env
        (vm_request ''voice_mail.claim'') ''bert'' ''devB'' ''item-1'' ''play-2'' 3000 8000 vm_db)"])
    (use vm_demo_inv in \<open>simp_all add: vm_demo_def vm_db_def vm_store_def vm_item_def lease_live_def After_def\<close>)

text \<open>
  C22: revocation closes uploads. When a completed upload makes a pending item available, its relationship
  exists, is not revoked, and joins exactly the sender and the recipient of the item.
\<close>

theorem upload_needs_active_relationship:
  assumes "complete_upload_body u v i now d = (Inr x, d')" "it_State x = Unread"
  shows "\<exists>r \<in> set (device_relationships (tables d)). rel_ID r = it_RelationshipID x \<and> RevokedAt r = None
    \<and> {(UserAID r, DeviceAID r), (UserBID r, DeviceBID r)}
        = {(owner u, TrimSpace v), (RecipientUserID x, RecipientDeviceID x)}"
  using assms(1)
proof (cases rule: complete_upload_body_Inr)
  case (rejected item)
  with assms(2) show ?thesis by simp
next
  case (available item r t1)
  then have "r \<in> set (device_relationships (tables d)) \<and> rel_ID r = it_RelationshipID item"
    by (auto simp: find_relationship_def dest: find_Some_in_set)
  with available show ?thesis
    by (intro bexI [of _ r]) (auto simp: set_state_def valid_generation_def)
qed

theorem upload_needs_active_relationship_witness:
  "vm_rel \<in> set (device_relationships vm_store) \<and> (\<exists>x d'. complete_upload_body ''anna'' ''devA'' ''item-1'' 3000
      (vm_db\<lparr>tables := vm_store\<lparr>voice_mail_items := [vm_item\<lparr>it_State := PendingUpload, PlaybackID := [],
         LeaseExpiresAt := None\<rparr>]\<rparr>\<rparr>) = (Inr x, d') \<and> it_State x = Unread)"
proof -
  let ?i = "vm_item\<lparr>it_State := PendingUpload, PlaybackID := [], LeaseExpiresAt := None\<rparr>"
  let ?d = "vm_db\<lparr>tables := vm_store\<lparr>voice_mail_items := [?i]\<rparr>\<rparr>"
  have c: "item_check (set_state Unread (pg_ts 3000) ?i)"
    using vm_item_check by (simp add: item_check_def set_state_def vm_item_def)
  have run: "complete_upload_body ''anna'' ''devA'' ''item-1'' 3000 ?d = (Inr (set_state Unread 3000 ?i),
      snd (complete_upload_body ''anna'' ''devA'' ''item-1'' 3000 ?d))"
    using c by (simp add: complete_upload_body_def find_item_def for_sender_def owner_def Let_def graphic_def
        find_relationship_def vm_rel_def vm_db_def vm_store_def After_def valid_generation_def update_items_def
        enqueueVoiceMailEvent_def) (simp add: vm_item_def)
  show ?thesis using upload_needs_active_relationship [OF run] run
    by (auto simp: vm_store_def set_state_def vm_db_def vm_item_def)
qed

section \<open>The protocol states\<close>

text \<open>The protocol state of an item a recipient can see; an item pending deletion has been consumed.\<close>

definition vm_phase :: "ItemState \<Rightarrow> VoiceMailState option" where
  "vm_phase st = (case st of Unread \<Rightarrow> Some VoiceMailAvailableState | Claimed \<Rightarrow> Some VoiceMailClaimedState
     | DeletePending \<Rightarrow> Some VoiceMailConsumedState | _ \<Rightarrow> None)"

text \<open>
  C23: playback follows the protocol. A completed playback acts on a claimed item with a live lease and the
  claiming playback identifier. It moves the row of this item, and no other row, to the state that
  \<open>NextVoiceMailState\<close> gives for success or failure under the policy of the item, with claim and lease
  cleared and everything else of the row kept; the item it returns has that state too.
\<close>

theorem playback_refines_protocol:
  assumes "vm_inv (tables d)" "playback_body u v i p ok now d = (Inr x, d')"
  shows "\<exists>item \<in> set (voice_mail_items (tables d)). \<exists>st. it_ID item = i \<and> it_State item = Claimed \<and> PlaybackID item = p
     \<and> lease_live now item
     \<and> set (voice_mail_items (tables d')) = insert
         (item\<lparr>it_State := st, PlaybackID := [], LeaseExpiresAt := None, it_UpdatedAt := pg_ts now\<rparr>)
         (set (voice_mail_items (tables d)) - {item})
     \<and> x = item\<lparr>it_State := st, PlaybackID := [], LeaseExpiresAt := None, it_UpdatedAt := now\<rparr>
     \<and> map_sum id Some (NextVoiceMailState VoiceMailClaimedState
         (if ok then VoiceMailPlaybackSucceededEvent else VoiceMailPlaybackFailedEvent) (it_Policy item))
       = Inr (vm_phase st)"
  using assms(2)
proof (rule playback_body_Inr)
  fix item t1 st
  assume *: "item \<in> set (voice_mail_items (tables d))" "it_ID item = i" "it_State item = Claimed" "PlaybackID item = p"
    "lease_live now item" "st = (if ok \<and> it_Policy item = Ephemeral then DeletePending else Unread)"
    "x = release_item st now item"
    and t1: "update_items (\<lambda>x. it_ID x = it_ID item) (release_item st (pg_ts now)) (tables d) = Some ((), t1)"
    "tables d' = (if ok then outbox_insert_ignore (voicemail_event x
        (if st = Unread then ''available'' else ''consumed'') now) t1 else t1)"
  have "it_Policy item \<in> {Ephemeral, Retained}" using *(1) assms(1) by (auto simp: vm_inv_def list_all_iff item_check_def)
  moreover have "voice_mail_items (tables d') = update_where (\<lambda>x. it_ID x = it_ID item) (release_item st (pg_ts now))
      (voice_mail_items (tables d))"
    using t1 by (auto simp: update_items_def split: if_splits)
  then have "set (voice_mail_items (tables d')) = insert (release_item st (pg_ts now) item) (set (voice_mail_items (tables d)) - {item})"
    using set_update_by_key [of it_ID _ item] *(1) assms(1) by (simp add: vm_inv_def)
  ultimately show ?thesis using *
    by (intro bexI [OF _ *(1)] exI [of _ st]) (auto simp: NextVoiceMailState_def vm_phase_def release_item_def)
qed

theorem playback_refines_protocol_witness:
  "\<exists>x d'. playback_body ''bert'' ''devB'' ''item-1'' ''play-1'' True 3000 vm_db = (Inr x, d')
     \<and> voice_mail_items (tables vm_db) = [vm_item]
     \<and> set (voice_mail_items (tables d')) = {vm_item\<lparr>it_State := DeletePending, PlaybackID := [],
          LeaseExpiresAt := None, it_UpdatedAt := 3000\<rparr>}
     \<and> vm_phase (it_State x) = Some VoiceMailConsumedState"
proof -
  have c: "item_check (release_item DeletePending (pg_ts 3000) vm_item)"
    using vm_item_check by (simp add: item_check_def release_item_def vm_item_def)
  have run: "playback_body ''bert'' ''devB'' ''item-1'' ''play-1'' True 3000 vm_db
      = (Inr (release_item DeletePending 3000 vm_item),
         snd (playback_body ''bert'' ''devB'' ''item-1'' ''play-1'' True 3000 vm_db))"
    using c by (simp add: playback_body_def find_item_def for_recipient_def owner_def Let_def graphic_def
        vm_db_def vm_store_def lease_live_def update_items_def enqueueVoiceMailEvent_def)
      (simp add: vm_item_def After_def)
  have rows: "voice_mail_items (tables vm_db) = [vm_item]" by (simp add: vm_db_def vm_store_def)
  have "vm_inv (tables vm_db)" using vm_demo_inv by (simp add: vm_demo_def)
  from playback_refines_protocol [OF this run, unfolded rows] obtain st where
    st: "set (voice_mail_items (tables (snd (playback_body ''bert'' ''devB'' ''item-1'' ''play-1'' True 3000 vm_db))))
       = {vm_item\<lparr>it_State := st, PlaybackID := [], LeaseExpiresAt := None, it_UpdatedAt := pg_ts 3000\<rparr>}"
      "release_item DeletePending 3000 vm_item = vm_item\<lparr>it_State := st, PlaybackID := [], LeaseExpiresAt := None, it_UpdatedAt := 3000\<rparr>"
      "map_sum id Some (NextVoiceMailState VoiceMailClaimedState VoiceMailPlaybackSucceededEvent (it_Policy vm_item)) = Inr (vm_phase st)"
    by auto
  have "it_Policy vm_item = Ephemeral" by (simp add: vm_item_def)
  with st(3) have "vm_phase st = Some VoiceMailConsumedState" by (simp add: NextVoiceMailState_def)
  moreover have "st = DeletePending" using arg_cong [OF st(2), of it_State] by (simp add: release_item_def)
  moreover have "pg_ts 3000 = 3000" by (simp add: pg_ts_def)
  moreover have "it_State (release_item DeletePending 3000 vm_item) = DeletePending" by (simp add: release_item_def)
  ultimately show ?thesis using st(1) by (metis run rows)
qed

section \<open>Deletion\<close>

text \<open>
  the immediate deletion never happens. \<open>Delete\<close> and \<open>Playback\<close> ask the blob store to remove the object of
  the item they got back, but that item was decoded from JSON without its object key; the store
  refuses the empty key, so no call of either removes a blob or marks an item deleted: both are left
  to the cleanup.
\<close>

theorem immediate_delete_inert:
  "vw_blobs (snd (Delete env now now2 request u i w)) = vw_blobs w
   \<and> vw_blobs (snd (Playback env now now2 request u v i p ok w)) = vw_blobs w
   \<and> vw_store (snd (Delete env now now2 request u i w)) = tables (snd (RequestDelete env request u i now (vw_db w)))
   \<and> vw_store (snd (Playback env now now2 request u v i p ok w))
       = tables (snd (CompleteVoiceMailPlayback env request u v i p ok now (vw_db w)))"
  unfolding Delete_alt Playback_alt
  by (auto simp: act_bind_def on_db_def act_return_def split: prod.splits sum.splits)

subsection \<open>The cleanup completes\<close>

text \<open>Without faults the updates of the cleanup succeed: they never violate a check of the table.\<close>

lemma item_check_release: "item_check i \<Longrightarrow> st \<noteq> Claimed \<Longrightarrow> item_check (release_item st now i)"
  by (simp add: item_check_def release_item_def)

lemma item_check_deleted:
  "item_check i \<Longrightarrow> it_State i \<noteq> Claimed \<Longrightarrow> item_check (set_state Deleted now i)"
  by (auto simp: item_check_def set_state_def)

lemma ObjectKey_release: "ObjectKey (release_item st now i) = ObjectKey i"
  by (simp add: release_item_def)

lemma cleanup_rows_ok:
  assumes "faults d = []" "vm_inv (tables d)"
  shows "\<exists>d'. cleanup_rows now is d = (Inr (map (release_item DeletePending now) is), d') \<and> faults d' = []"
  using assms
proof (induction "is" arbitrary: d)
  case (Cons i "is")
  define d1 where "d1 = (if it_State i = Unread \<or> it_State i = Claimed
    then d\<lparr>tables := outbox_insert_ignore (voicemail_event i ''expired'' now) (tables d)\<rparr> else d)"
  have ev: "(if it_State i = Unread \<or> it_State i = Claimed
      then enqueueVoiceMailEvent i ''expired'' now else tx_return ()) d = (Inr (), d1)"
    using Cons.prems(1) by (simp add: enqueueVoiceMailEvent_def d1_def)
  have f1: "faults d1 = []" and items: "voice_mail_items (tables d1) = voice_mail_items (tables d)"
    using Cons.prems(1) by (simp_all add: d1_def)
  let ?P = "\<lambda>x. it_ID x = it_ID i" and ?g = "release_item DeletePending (pg_ts now)"
  define t2 where "t2 = (tables d1)\<lparr>voice_mail_items := update_where ?P ?g (voice_mail_items (tables d1))\<rparr>"
  have upd: "update_items ?P ?g (tables d1) = Some ((), t2)"
    using Cons.prems(2) items by (auto simp: update_items_def t2_def vm_inv_def list_all_iff item_check_release)
  have "vm_inv t2"
    using Cons.prems(2) items unfolding vm_inv_def t2_def
    by (simp add: list_all_update_where unique_key_update_where ObjectKey_release)
      (auto simp: list_all_iff item_check_release)
  then obtain d' where "cleanup_rows now is (d1\<lparr>tables := t2\<rparr>) = (Inr (map (release_item DeletePending now) is), d')"
      "faults d' = []"
    using Cons.IH [of "d1\<lparr>tables := t2\<rparr>"] f1 by auto
  then show ?case using ev f1 upd by simp
qed simp

lemma MarkDeleted_ok:
  assumes "faults (vw_db w) = []" "vm_inv (vw_store w)" "rows_in {DeletePending, Deleted} {i} (vw_store w)"
  shows "\<exists>w'. on_db (MarkDeleted i now) w = (Inr (), w') \<and> faults (vw_db w') = [] \<and> vw_io w' = vw_io w
    \<and> rows_in {Deleted} {i} (vw_store w')"
proof -
  let ?P = "\<lambda>x. it_ID x = i \<and> it_State x \<in> {DeletePending, Deleted, Rejected}"
  let ?t = "(vw_store w)\<lparr>voice_mail_items := update_where ?P (set_state Deleted (pg_ts now)) (voice_mail_items (vw_store w))\<rparr>"
  have "item_check (set_state Deleted (pg_ts now) x)" if "x \<in> set (voice_mail_items (vw_store w))" "?P x" for x
    using that assms(2) by (intro item_check_deleted) (auto simp: vm_inv_def list_all_iff)
  then have "update_items ?P (set_state Deleted (pg_ts now)) (vw_store w) = Some ((), ?t)"
    by (simp add: update_items_def list_all_iff)
  then have "on_db (MarkDeleted i now) w = (Inr (), w\<lparr>vw_db := (vw_db w)\<lparr>tables := ?t\<rparr>\<rparr>)"
    using assms(1) by (simp add: on_db_def MarkDeleted_def)
  moreover have "rows_in {Deleted} {i} ?t"
    using assms(3) unfolding rows_in_def list_all_iff [symmetric]
    by (simp add: list_all_update_where) (auto simp: list_all_iff)
  ultimately show ?thesis using assms(1) by (intro exI conjI) (assumption, simp_all)
qed

lemma blob_delete_ok:
  "vw_io w = [] \<Longrightarrow> blob_path [] key \<noteq> None \<Longrightarrow>
     blob_delete key w = (Inr (), w\<lparr>vw_blobs := (vw_blobs w)(key := None)\<rparr>)"
  by (auto simp: blob_delete_def act_bind_def check_path_def act_return_def on_disk_def split: option.splits)

lemma keyed_ids: "keyed items t \<Longrightarrow> it_ID ` set items \<subseteq> it_ID ` set (voice_mail_items t)"
proof
  fix x assume "keyed items t" "x \<in> it_ID ` set items"
  then obtain i where "i \<in> set (voice_mail_items t)" "it_ID i = x" unfolding keyed_def by blast
  then show "x \<in> it_ID ` set (voice_mail_items t)" by blast
qed

lemma keyed_Cons: "keyed (item # items) t \<Longrightarrow> keyed items t"
  unfolding keyed_def by simp

lemma cleanup_loop_ok:
  assumes "faults (vw_db w) = []" "vw_io w = []" "\<And>n. \<not> cd n" "world_inv S w" "keyed items (vw_store w)"
    "rows_in {DeletePending, Deleted} (it_ID ` set items) (vw_store w)"
    "\<forall>item \<in> set items. blob_path [] (ObjectKey item) \<noteq> None"
  shows "\<exists>w'. cleanup_loop cd clk n items del 0 w = (Inr (del + length items, None), w')
    \<and> rows_in {Deleted} (it_ID ` set items) (vw_store w')"
  using assms
proof (induction items arbitrary: n del w)
  case Nil
  then show ?case by (simp add: act_return_def rows_in_def)
next
  case (Cons item items)
  let ?w1 = "w\<lparr>vw_blobs := (vw_blobs w)(ObjectKey item := None)\<rparr>"
  have b: "blob_delete (ObjectKey item) w = (Inr (), ?w1)" using Cons.prems by (intro blob_delete_ok) auto
  have i1: "world_inv S ?w1" using Cons.prems(4) b safe_blob_delete unfolding safe_def by blast
  obtain w2 where m: "on_db (MarkDeleted (it_ID item) (clk n)) ?w1 = (Inr (), w2)" and w2: "faults (vw_db w2) = []"
      "vw_io w2 = []" "rows_in {Deleted} {it_ID item} (vw_store w2)"
  proof -
    have "rows_in {DeletePending, Deleted} {it_ID item} (vw_store ?w1)"
      using rows_in_mono [OF Cons.prems(6), of "{it_ID item}"] by simp
    then show thesis
      using MarkDeleted_ok [of ?w1 "it_ID item" "clk n"] world_inv_vm [OF i1] Cons.prems(1,2) that by auto
  qed
  have k: "\<forall>i \<in> set (voice_mail_items (vw_store ?w1)). it_ID i = it_ID item \<longrightarrow> ObjectKey i = ObjectKey item"
    using Cons.prems(5) by (simp add: keyed_def)
  have 2: "world_inv S w2" "vm_delta (vw_store w) (vw_store w2)" using safe_mark [OF i1 m _ k] by simp_all
  have ids: "it_ID ` set (item # items) \<subseteq> it_ID ` set (voice_mail_items (vw_store w))"
    using keyed_ids [OF Cons.prems(5)] .
  have r2: "rows_in {DeletePending, Deleted} (it_ID ` set items) (vw_store w2)"
  proof (rule rows_in_mono)
    show "rows_in {DeletePending, Deleted} (it_ID ` set (item # items)) (vw_store w2)"
      using rows_in_delta [OF 2(2) Cons.prems(6) _ ids] leads_to_deletion(1) by blast
  qed auto
  have k2: "keyed items (vw_store w2)"
    by (rule keyed_Cons [OF keyed_delta [OF Cons.prems(5) 2(2)]])
  obtain w' where w': "cleanup_loop cd clk (Suc n) items (Suc del) 0 w2 = (Inr (Suc del + length items, None), w')"
      and fin: "rows_in {Deleted} (it_ID ` set items) (vw_store w')"
  proof -
    have "\<exists>w'. cleanup_loop cd clk (Suc n) items (Suc del) 0 w2 = (Inr (Suc del + length items, None), w')
        \<and> rows_in {Deleted} (it_ID ` set items) (vw_store w')"
      by (rule Cons.IH [OF w2(1,2) Cons.prems(3) 2(1) k2 r2]) (use Cons.prems(7) in simp)
    then show thesis using that by blast
  qed
  have "vm_delta (vw_store w2) (vw_store w')" using cleanup_loop_safe [OF w' 2(1) k2] by blast
  moreover have "{it_ID item} \<subseteq> it_ID ` set (voice_mail_items (vw_store w2))"
    using keyed_ids [OF keyed_delta [OF Cons.prems(5) 2(2)]] by auto
  ultimately have "rows_in {Deleted} {it_ID item} (vw_store w')"
    using rows_in_delta [of "vw_store w2" "vw_store w'", OF _ w2(3) leads_to_deletion(2)] by simp
  with fin have "rows_in {Deleted} (it_ID ` set (item # items)) (vw_store w')"
    by (simp add: rows_in_insert)
  moreover have "cleanup_loop cd clk n (item # items) del 0 w = (Inr (del + length (item # items), None), w')"
    using b m w' Cons.prems(3) by (simp add: act_bind_def act_try_def)
  ultimately show ?case by blast
qed

text \<open>
  C24: the cleanup completes. Without faults, and with object keys that are file names, one run of the cleanup
  removes every due item up to its limit: it returns their number and no error, and afterwards
  each of them is deleted and its blob is gone.
\<close>

theorem cleanup_completes:
  assumes "vm_inv (vw_store w)" "faults (vw_db w) = []" "vw_io w = []" "\<And>n. \<not> ctx_done n"
    "list_all (\<lambda>i. blob_path root (ObjectKey i) \<noteq> None) (voice_mail_items (vw_store w))"
  shows "\<exists>w'. Cleanup env now ctx_done clock limit w
      = (Inr (length (due_rows env now limit (vw_store w)), None), w')
    \<and> list_all (\<lambda>i. \<exists>i' \<in> set (voice_mail_items (vw_store w')). it_ID i' = it_ID i \<and> it_State i' = Deleted
          \<and> vw_blobs w' (ObjectKey i) = None) (due_rows env now limit (vw_store w))"
proof -
  let ?due = "due_rows env now limit (vw_store w)"
  let ?items = "map (release_item DeletePending now) ?due"
  let ?S = "it_ID ` set ?due"
  note inv = assms(1)
  obtain d' where run: "cleanup_rows now ?due (vw_db w) = (Inr ?items, d')" "faults d' = []"
    using cleanup_rows_ok [OF assms(2) inv] by blast
  have due: "i \<in> set (voice_mail_items (vw_store w)) \<and> it_State i \<noteq> Deleted" if "i \<in> set ?due" for i
    using due_rows_subset [OF that] by (auto simp: cleanup_due_def)
  have cl: "ClaimCleanup env now limit (vw_db w) = (Inr ?items, d')"
    unfolding ClaimCleanup_def using run assms(2) by (intro in_tx_ok(1)) simp_all
  let ?w1 = "w\<lparr>vw_db := d'\<rparr>"
  have "world_inv ?S w" unfolding world_inv_def using inv due same_row [OF inv] by (metis image_iff)
  then have i1: "world_inv ?S ?w1"
    using world_inv_keep [of ?S w "tables d'" ?w1] changesD [OF ClaimCleanup_changes cl inv] by simp
  have k1: "keyed ?items (vw_store ?w1)" using ClaimCleanup_keyed [OF cl inv] by simp
  have "rows_in {DeletePending, Deleted} (it_ID ` set ?due) (tables d')"
    by (rule cleanup_rows_state [OF run(1) inv due_rows_distinct [OF inv] due])
  then have r1: "rows_in {DeletePending, Deleted} (it_ID ` set ?items) (vw_store ?w1)"
    by (simp add: image_image)
  have p: "\<forall>item \<in> set ?items. blob_path [] (ObjectKey item) \<noteq> None"
    using assms(5) due by (auto simp: list_all_iff blob_path_def ObjectKey_release split: if_splits)
  have "\<exists>w'. cleanup_loop ctx_done clock 0 ?items 0 0 ?w1 = (Inr (0 + length ?items, None), w')
      \<and> rows_in {Deleted} (it_ID ` set ?items) (vw_store w')"
    by (rule cleanup_loop_ok [OF _ _ assms(4) i1 k1 r1 p]) (simp_all add: assms(3) run(2))
  then obtain w' where w': "cleanup_loop ctx_done clock 0 ?items 0 0 ?w1 = (Inr (length ?items, None), w')"
    and del: "rows_in {Deleted} (it_ID ` set ?items) (vw_store w')" by auto
  have fin: "world_inv ?S w'" "vm_delta (vw_store ?w1) (vw_store w')" using cleanup_loop_safe [OF w' i1 k1] by blast+
  have k2: "keyed ?items (vw_store w')" using keyed_delta [OF k1 fin(2)] .
  have "\<exists>i' \<in> set (voice_mail_items (vw_store w')). it_ID i' = it_ID i \<and> it_State i' = Deleted
      \<and> vw_blobs w' (ObjectKey i) = None" if i: "i \<in> set ?due" for i
  proof -
    have "release_item DeletePending now i \<in> set ?items" using i by simp
    with k2 obtain i' where i': "i' \<in> set (voice_mail_items (vw_store w'))" "it_ID i' = it_ID i" "ObjectKey i' = ObjectKey i"
      unfolding keyed_def by (metis ObjectKey_release it_ID_updates(3))
    moreover have "it_State i' = Deleted" using del i' i unfolding rows_in_def
      by (metis \<open>release_item DeletePending now i \<in> set ?items\<close> image_eqI it_ID_updates(3) singletonD)
    ultimately show ?thesis using fin(1) i by (metis world_inv_def image_eqI)
  qed
  then have "list_all (\<lambda>i. \<exists>i' \<in> set (voice_mail_items (vw_store w')). it_ID i' = it_ID i \<and> it_State i' = Deleted
      \<and> vw_blobs w' (ObjectKey i) = None) ?due" by (simp add: list_all_iff)
  moreover have "Cleanup env now ctx_done clock limit w = (Inr (length ?due, None), w')"
    using cl w' by (simp add: Cleanup_def act_bind_def on_db_def)
  ultimately show ?thesis by blast
qed

theorem cleanup_completes_witness:
  "\<exists>w'. Cleanup vm_env 95000 (\<lambda>_. False) (\<lambda>_. 95000) 10 vm_demo = (Inr (1, None), w')
     \<and> vw_blobs w' ''blob-1'' = None"
proof -
  have due: "due_rows vm_env 95000 10 (vw_store vm_demo) = [vm_item]"
    by (simp add: due_rows_def vm_demo_def vm_db_def vm_store_def cleanup_due_def vm_item_def pg_ts_def
        order_by_def boundedLimit_def maxListLimit_def)
  have "list_all (\<lambda>i. blob_path ''/data'' (ObjectKey i) \<noteq> None) (voice_mail_items (vw_store vm_demo))"
    by (simp add: vm_demo_def vm_db_def vm_store_def vm_item_def blob_path_def backslash_def Base_def Let_def)
  from cleanup_completes [OF vm_demo_inv _ _ _ this, of "\<lambda>_. False" vm_env 95000 "\<lambda>_. 95000" 10] due
  show ?thesis by (auto simp: vm_demo_def vm_db_def vm_item_def)
qed

subsection \<open>Where the cleanup misses\<close>

lemma cleanup_loop_io: "vw_io w = [] \<Longrightarrow> vw_io (snd (cleanup_loop cd clk n items del fl w)) = []"
proof (induction items arbitrary: n del fl w)
  case (Cons item items)
  obtain g w1 where g: "blob_delete (ObjectKey item) w = (g, w1)" by force
  have w1: "vw_io w1 = []" using g Cons.prems
    by (auto simp: blob_delete_def act_bind_def check_path_def act_fail_def act_return_def on_disk_def split: option.splits if_splits)
  obtain m w2 where m: "on_db (MarkDeleted (it_ID item) (clk n)) w1 = (m, w2)" by force
  then have w2: "vw_io w2 = []" using w1 by (auto simp: on_db_def split: prod.splits)
  show ?case using Cons.IH [OF w1] Cons.IH [OF w2] Cons.prems w2 g m
    by (cases g; cases m) (simp_all add: act_bind_def act_try_def act_return_def)
qed (simp add: act_return_def)

lemma Cleanup_io: "vw_io w = [] \<Longrightarrow> vw_io (snd (Cleanup env now cd clk limit w)) = []"
  using cleanup_loop_io by (auto simp: Cleanup_def act_bind_def on_db_def split: prod.splits sum.splits)

text \<open>
  An upload that found its row pending before a cleanup took the row may store its file after the cleanup has
  deleted the file and marked the row. Nothing removes it then: the row stays deleted, and no cleanup ever takes
  a deleted row again.
\<close>

theorem late_upload_leaks:
  "\<exists>c. vm_steps zero_hash (vm_idle vm_empty) c
     \<and> (\<exists>i \<in> set (vc_items c). it_State i = Deleted \<and> vc_blobs c (ObjectKey i) = Some ''abc''
          \<and> (\<forall>c'. vm_steps zero_hash c c' \<longrightarrow> (\<exists>i' \<in> set (vc_items c'). item_core i' = item_core i \<and> it_State i' = Deleted
                \<and> (\<forall>env now limit. i' \<notin> set (due_rows env now limit (vc_store c'))))))"
proof -
  let ?c0 = "(vm_idle vm_empty)\<lparr>vc_world := snd vm_created\<rparr>"
  let ?c1 = "?c0\<lparr>vc_world := snd vm_created, vc_uploads := insert vm_row (vc_uploads ?c0)\<rparr>"
  have st: "vm_state [vm_row] [''voice_mail.create''] (snd vm_created)" using demo_created by blast
  have 0: "vm_step zero_hash (vm_idle vm_empty) ?c0"
    by (rule vm_step.create [where r = "fst vm_created"]) (simp add: vm_created_def vm_idle_def)
  have 1: "vm_step zero_hash ?c0 ?c1"
    by (rule vm_step.put_check [where u = "''anna''" and v = "''devA''" and i = "''item-2''"])
      (use demo_sender [OF st] vm_row_sel in simp_all)
  have inv: "vm_inv (vw_store (snd vm_created))"
    using st vm_row_check by (simp add: vm_inv_def vm_state_def unique_key_def vm_row_sel)
  have due: "due_rows vm_env 95000 10 (vw_store (snd vm_created)) = [vm_row]"
    using st by (simp add: due_rows_def vm_state_def cleanup_due_def vm_row_sel pg_ts_def order_by_def boundedLimit_def maxListLimit_def)
  have "list_all (\<lambda>i. blob_path ''/data'' (ObjectKey i) \<noteq> None) (voice_mail_items (vw_store (snd vm_created)))"
    using st by (simp add: vm_state_def vm_row_sel blob_path_def backslash_def Base_def Let_def)
  from cleanup_completes [OF inv _ _ _ this, of "\<lambda>_. False" vm_env 95000 "\<lambda>_. 95000" 10] st due
  obtain w i where w: "Cleanup vm_env 95000 (\<lambda>_. False) (\<lambda>_. 95000) 10 (vc_world ?c1) = (Inr (1, None), w)"
      "i \<in> set (voice_mail_items (vw_store w))" "it_ID i = ''item-2''" "it_State i = Deleted"
    by (auto simp: vm_state_def vm_row_sel)
  from Cleanup_runs [OF w(1)] obtain c2 where 2: "vm_steps zero_hash ?c1 c2" "vc_world c2 = w" by (auto simp: reaches_def)
  have up: "vm_row \<in> vc_uploads c2" using vm_steps_uploads [OF 2(1)] by auto
  have io: "vw_io w = []" using Cleanup_io [of "snd vm_created" vm_env 95000 "\<lambda>_. False" "\<lambda>_. 95000" 10] w(1) st
    by (simp add: vm_state_def)
  have "vm_inv (vc_store c2) \<and> items_evolve (vc_items ?c1) (vc_items c2)" using vm_steps_delta [OF 2(1)] inv by simp
  then obtain j where j: "j \<in> set (vc_items c2)" "item_core j = item_core vm_row" and inv2: "vm_inv (vc_store c2)"
    using st by (auto simp: items_evolve_def item_step_def vm_state_def)
  have "i = j" using same_row [OF inv2 _ j(1), of i] w(2,3) 2(2) item_core_sel [OF j(2)] vm_row_sel by simp
  then have key: "ObjectKey i = ''blob-2''" using item_core_sel [OF j(2)] vm_row_sel by simp
  let ?w3 = "w\<lparr>vw_blobs := (vw_blobs w)(''blob-2'' \<mapsto> ''abc'')\<rparr>"
  have "blob_put zero_hash (ObjectKey vm_row) ''abc'' (SizeBytes vm_row) (ChecksumSHA256 vm_row) (vc_world c2) = (Inr (), ?w3)"
    using demo_blob_put [OF io] 2(2) by (simp add: vm_row_sel)
  from vm_step.put_store [OF up this] obtain c3 where 3: "vm_step zero_hash c2 c3" "vc_world c3 = ?w3" by fastforce
  have run: "vm_steps zero_hash (vm_idle vm_empty) c3"
    using 0 1 2(1) 3(1) by (meson vm_steps.step vm_steps_one vm_steps_trans)
  have "\<exists>i' \<in> set (vc_items c'). item_core i' = item_core i \<and> it_State i' = Deleted
      \<and> (\<forall>env now limit. i' \<notin> set (due_rows env now limit (vc_store c')))" if later: "vm_steps zero_hash c3 c'" for c'
  proof -
    have "vm_inv (vc_store c3)" "i \<in> set (vc_items c3)" using inv2 2(2) 3(2) w(2) by simp_all
    then obtain i' where i': "i' \<in> set (vc_items c')" "item_step i i'"
      using vm_steps_delta [OF later] unfolding items_evolve_def by blast
    moreover have "i' \<notin> set (due_rows env now limit (vc_store c'))" if "it_State i' = Deleted" for env now limit
      using due_rows_subset [of i' env now limit "vc_store c'"] that by (auto simp: cleanup_due_def)
    ultimately show ?thesis using w(4) by (auto simp: item_step_def)
  qed
  moreover have "i \<in> set (vc_items c3)" "vc_blobs c3 (ObjectKey i) = Some ''abc''" using w(2) 3(2) key by simp_all
  ultimately show ?thesis using run w(4) by blast
qed

section \<open>Validation\<close>

text \<open>
  What the validation of an upload guarantees. An accepted upload names a relationship and a sender, has a
  retaining policy, a size in range, a checksum of 64 hexadecimal digits and a deadline in the
  future; its duration is in range provided that its nanoseconds fit in 64 bits.
\<close>

theorem create_validate_bounds:
  assumes "Create_Validate c now = None" "in_int64 (up_DurationMS c * Millisecond)"
  shows "1 \<le> up_DurationMS c \<and> up_DurationMS c \<le> 600000 \<and> 1 \<le> up_SizeBytes c \<and> up_SizeBytes c \<le> 33554432
    \<and> up_Policy c \<noteq> Disabled \<and> length (up_ChecksumSHA256 c) = 64 \<and> now < up_ExpiresAt c"
  using assms
  by (auto simp: Create_Validate_def MaxSize_def MaxDuration_def Minute_def Millisecond_def sha256_hex_len_def
      After_def wrap64_id split: if_splits)

theorem create_validate_bounds_witness: "up_DurationMS vm_upload \<le> 600000"
  using create_validate_bounds [of vm_upload 1000]
  by (simp add: vm_upload_def Create_Validate_def graphic_def Millisecond_def wrap64_def MaxDuration_def Minute_def
      MaxSize_def sha256_hex_len_def IsZero_def After_def in_int64_def int64_min_def int64_max_def)

text \<open>
  the product that checks the duration overflows. A duration of 9223372036855 milliseconds, almost three
  centuries, becomes a negative number of nanoseconds and is accepted; only the check of the table
  refuses the row.
\<close>

theorem create_validate_overflow:
  "Create_Validate (vm_upload\<lparr>up_DurationMS := 9223372036855\<rparr>) 1000 = None
   \<and> \<not> item_check (vm_item\<lparr>DurationMS := 9223372036855\<rparr>)"
  by (simp add: vm_upload_def Create_Validate_def graphic_def Millisecond_def wrap64_def MaxDuration_def Minute_def
      MaxSize_def sha256_hex_len_def IsZero_def After_def item_check_def vm_item_def)

end
