(* ===== verification/Json_Parser.thy ===== *)
theory Json_Parser
  imports Canonical_Json
begin

text \<open>
  The reader of \<open>encoding/json\<close>: lexing of strings and numbers, the recursive-descent parser and
  \<open>json.Valid\<close>. Strings are decoded as the package does: escapes and surrogate pairs become runes,
  invalid UTF-8 and lone surrogates the replacement rune; numbers keep their token.
\<close>

section \<open>Tokens\<close>

definition json_space :: "char \<Rightarrow> bool" where
  "json_space c \<longleftrightarrow> c = CHR 0x20 \<or> c = CHR 0x09 \<or> c = CHR 0x0D \<or> c = CHR 0x0A"

definition skip_ws :: "string \<Rightarrow> string" where
  "skip_ws s = dropWhile json_space s"

definition is_digit :: "char \<Rightarrow> bool" where
  "is_digit c \<longleftrightarrow> byte_in 48 57 c"

text \<open>The raw content of a string after its opening quote, and the rest after the closing one.\<close>

fun str_tok :: "string \<Rightarrow> (string \<times> string) option" where
  "str_tok [] = None"
| "str_tok (c # cs) =
     (if c = CHR 0x22 then Some ([], cs)
      else if (of_char c :: nat) < 32 then None
      else if c = CHR 0x5C then
        (case cs of
           [] \<Rightarrow> None
         | e # es \<Rightarrow>
             if e \<in> {CHR 0x22, CHR 0x5C, CHR ''/'', CHR ''b'', CHR ''f'', CHR ''n'', CHR ''r'', CHR ''t''}
             then map_option (\<lambda>(t, r). (c # e # t, r)) (str_tok es)
             else if e = CHR ''u'' then
               (case es of
                  h1 # h2 # h3 # h4 # r0 \<Rightarrow>
                    if list_all hex_digit [h1, h2, h3, h4]
                    then map_option (\<lambda>(t, r). (c # e # h1 # h2 # h3 # h4 # t, r)) (str_tok r0)
                    else None
                | _ \<Rightarrow> None)
             else None)
      else map_option (\<lambda>(t, r). (c # t, r)) (str_tok cs))"

definition hex_val :: "char \<Rightarrow> nat" where
  "hex_val c = (if byte_in 48 57 c then of_char c - 48
     else if byte_in 97 102 c then of_char c - 87 else of_char c - 55)"

definition hex4 :: "char \<Rightarrow> char \<Rightarrow> char \<Rightarrow> char \<Rightarrow> nat" where
  "hex4 a b c d = ((hex_val a * 16 + hex_val b) * 16 + hex_val c) * 16 + hex_val d"

text \<open>\<open>utf8.AppendRune\<close>.\<close>

definition encode_rune :: "nat \<Rightarrow> string" where
  "encode_rune r =
     (if r < 128 then [char_of r]
      else if r < 2048 then [char_of (192 + r div 64), char_of (128 + r mod 64)]
      else if (55296 \<le> r \<and> r < 57344) \<or> r > 1114111 then [CHR 0xEF, CHR 0xBF, CHR 0xBD]
      else if r < 65536 then [char_of (224 + r div 4096), char_of (128 + r div 64 mod 64), char_of (128 + r mod 64)]
      else [char_of (240 + r div 262144), char_of (128 + r div 4096 mod 64),
            char_of (128 + r div 64 mod 64), char_of (128 + r mod 64)])"

definition simple_escape :: "char \<Rightarrow> char" where
  "simple_escape e = (if e = CHR ''b'' then CHR 0x08 else if e = CHR ''f'' then CHR 0x0C
     else if e = CHR ''n'' then CHR 0x0A else if e = CHR ''r'' then CHR 0x0D
     else if e = CHR ''t'' then CHR 0x09 else e)"

text \<open>The bytes a raw content stands for, before the repair of invalid UTF-8.\<close>

fun unescape :: "string \<Rightarrow> string" where
  "unescape (b # CHR ''u'' # h1 # h2 # h3 # h4 # s) =
     (if b \<noteq> CHR 0x5C then b # unescape (CHR ''u'' # h1 # h2 # h3 # h4 # s)
      else let r = hex4 h1 h2 h3 h4 in
        if 55296 \<le> r \<and> r < 56320 then
          (case s of
             b2 # u2 # g1 # g2 # g3 # g4 # s2 \<Rightarrow>
               (let q = hex4 g1 g2 g3 g4 in
                if b2 = CHR 0x5C \<and> u2 = CHR ''u'' \<and> 56320 \<le> q \<and> q < 57344
                then encode_rune (65536 + (r - 55296) * 1024 + (q - 56320)) @ unescape s2
                else encode_rune rune_error @ unescape s)
           | _ \<Rightarrow> encode_rune rune_error @ unescape s)
        else encode_rune r @ unescape s)"
| "unescape (b # e # s) = (if b = CHR 0x5C then simple_escape e # unescape s else b # unescape (e # s))"
| "unescape s = s"

definition unquote :: "string \<Rightarrow> string" where
  "unquote raw = valid_utf8 (unescape raw)"

text \<open>A number: its token and the rest.\<close>

definition digits :: "string \<Rightarrow> string \<times> string" where
  "digits s = (takeWhile is_digit s, dropWhile is_digit s)"

definition num_int :: "string \<Rightarrow> (string \<times> string) option" where
  "num_int s = (case s of
       [] \<Rightarrow> None
     | c # cs \<Rightarrow> if c = CHR ''0'' then Some ([c], cs)
                else if is_digit c then Some (digits s) else None)"

definition num_frac :: "string \<Rightarrow> (string \<times> string) option" where
  "num_frac s = (case s of
       [] \<Rightarrow> Some ([], [])
     | c # cs \<Rightarrow> if c \<noteq> CHR ''.'' then Some ([], s)
                else (case digits cs of (d, r) \<Rightarrow> if d = [] then None else Some (c # d, r)))"

definition num_exp :: "string \<Rightarrow> (string \<times> string) option" where
  "num_exp s = (case s of
       [] \<Rightarrow> Some ([], [])
     | c # cs \<Rightarrow> if c \<noteq> CHR ''e'' \<and> c \<noteq> CHR ''E'' then Some ([], s)
                else (let sgn = takeWhile (\<lambda>x. x = CHR ''+'' \<or> x = CHR ''-'') (take 1 cs)
                      in case digits (drop (length sgn) cs) of
                           (d, r) \<Rightarrow> if d = [] then None else Some (c # sgn @ d, r)))"

definition num_tok :: "string \<Rightarrow> (string \<times> string) option" where
  "num_tok s =
     (let sgn = takeWhile (\<lambda>x. x = CHR ''-'') (take 1 s) in
      case num_int (drop (length sgn) s) of
        None \<Rightarrow> None
      | Some (i, r1) \<Rightarrow>
        (case num_frac r1 of
           None \<Rightarrow> None
         | Some (f, r2) \<Rightarrow>
           (case num_exp r2 of
              None \<Rightarrow> None
            | Some (e, r3) \<Rightarrow> Some (sgn @ i @ f @ e, r3))))"

section \<open>Values\<close>

definition strip_prefix :: "string \<Rightarrow> string \<Rightarrow> string option" where
  "strip_prefix p s = (if take (length p) s = p then Some (drop (length p) s) else None)"

text \<open>
  The parser works on input without leading space; every call consumes a character before it
  recurses, so the length of the input is enough fuel.
\<close>

fun pvalue :: "nat \<Rightarrow> string \<Rightarrow> (json \<times> string) option"
  and pelems :: "nat \<Rightarrow> string \<Rightarrow> (json list \<times> string) option"
  and pmembers :: "nat \<Rightarrow> string \<Rightarrow> ((string \<times> json) list \<times> string) option" where
  "pvalue 0 s = None"
| "pvalue (Suc n) s =
     (case s of
        [] \<Rightarrow> None
      | c # cs \<Rightarrow>
          if c = CHR 0x22 then map_option (\<lambda>(raw, r). (JString (unquote raw), r)) (str_tok cs)
          else if c = CHR ''{'' then
            (case skip_ws cs of
               [] \<Rightarrow> None
             | x # xs \<Rightarrow> if x = CHR ''}'' then Some (JObj [], xs)
                        else map_option (\<lambda>(m, r). (JObj m, r)) (pmembers n (x # xs)))
          else if c = CHR ''['' then
            (case skip_ws cs of
               [] \<Rightarrow> None
             | x # xs \<Rightarrow> if x = CHR '']'' then Some (JArr [], xs)
                        else map_option (\<lambda>(m, r). (JArr m, r)) (pelems n (x # xs)))
          else if c = CHR ''t'' then map_option (\<lambda>r. (JBool True, r)) (strip_prefix ''true'' s)
          else if c = CHR ''f'' then map_option (\<lambda>r. (JBool False, r)) (strip_prefix ''false'' s)
          else if c = CHR ''n'' then map_option (\<lambda>r. (JNull, r)) (strip_prefix ''null'' s)
          else map_option (\<lambda>(t, r). (JNum t, r)) (num_tok s))"
| "pelems 0 s = None"
| "pelems (Suc n) s =
     (case pvalue n s of
        None \<Rightarrow> None
      | Some (j, r) \<Rightarrow>
        (case skip_ws r of
           [] \<Rightarrow> None
         | x # xs \<Rightarrow>
             if x = CHR '']'' then Some ([j], xs)
             else if x = CHR '','' then map_option (\<lambda>(js, r'). (j # js, r')) (pelems n (skip_ws xs))
             else None))"
| "pmembers 0 s = None"
| "pmembers (Suc n) s =
     (case s of
        [] \<Rightarrow> None
      | q # qs \<Rightarrow>
        if q \<noteq> CHR 0x22 then None
        else (case str_tok qs of
          None \<Rightarrow> None
        | Some (raw, r0) \<Rightarrow>
          (case skip_ws r0 of
             [] \<Rightarrow> None
           | y # ys \<Rightarrow>
             if y \<noteq> CHR '':'' then None
             else (case pvalue n (skip_ws ys) of
               None \<Rightarrow> None
             | Some (j, r) \<Rightarrow>
               (case skip_ws r of
                  [] \<Rightarrow> None
                | x # xs \<Rightarrow>
                    if x = CHR ''}'' then Some ([(unquote raw, j)], xs)
                    else if x = CHR '','' then
                      map_option (\<lambda>(m, r'). ((unquote raw, j) # m, r')) (pmembers n (skip_ws xs))
                    else None)))))"

definition parse_json :: "string \<Rightarrow> json option" where
  "parse_json s =
     (case pvalue (Suc (2 * length s)) (skip_ws s) of
        None \<Rightarrow> None
      | Some (j, r) \<Rightarrow> if skip_ws r = [] then Some j else None)"

definition Valid :: "string \<Rightarrow> bool" where
  "Valid s \<longleftrightarrow> parse_json s \<noteq> None"

text \<open>The check of the protocol for a raw message that must be an object.\<close>

definition raw_object :: "string \<Rightarrow> bool" where
  "raw_object raw \<longleftrightarrow>
     (let trimmed = TrimSpace raw
      in \<not> (length trimmed < 2 \<or> hd trimmed \<noteq> CHR ''{'' \<or> last trimmed \<noteq> CHR ''}'' \<or> \<not> Valid trimmed))"

end
