(* ===== verification/Protocol.thy ===== *)
theory Protocol
  imports Json_Parser Voicemail
begin

text \<open>
  The device protocol: the envelope and its payloads of \<open>internal/protocol/envelope.go\<close>, the
  interaction payloads of \<open>interaction.go\<close> and the capability payloads of \<open>capability.go\<close>. A
  validation returns the text of its error, or \<open>None\<close>. A raw message is its bytes.
\<close>

section \<open>Constants and errors\<close>

definition Version :: int where "Version = 2"
definition Transport :: string where "Transport = ''websocket''"
definition AudioFormat :: string where "AudioFormat = ''opus''"
definition UplinkSampleRate :: int where "UplinkSampleRate = 16000"
definition DownlinkSampleRate :: int where "DownlinkSampleRate = 24000"
definition Channels :: int where "Channels = 1"
definition FrameDurationMS :: int where "FrameDurationMS = 60"
definition UplinkSamplesPerFrame :: int where
  "UplinkSamplesPerFrame = quot (UplinkSampleRate * FrameDurationMS) 1000"
definition DownlinkSamplesPerFrame :: int where
  "DownlinkSamplesPerFrame = quot (DownlinkSampleRate * FrameDurationMS) 1000"
definition MaximumOpusPacketBytes :: nat where "MaximumOpusPacketBytes = 1275"
definition MaximumAudioSecs :: int where "MaximumAudioSecs = 8"
definition MaximumEnvelopeBytes :: nat where "MaximumEnvelopeBytes = 8192"
definition MaximumPayloadBytes :: nat where "MaximumPayloadBytes = 4096"

definition UnsupportedProtocolVersionCode :: string where
  "UnsupportedProtocolVersionCode = ''unsupported_protocol_version''"
definition UnknownMessageTypeCode :: string where "UnknownMessageTypeCode = ''unknown_message_type''"
definition InvalidEnvelopeCode :: string where "InvalidEnvelopeCode = ''invalid_envelope''"

record ProtocolError =
  pe_Code :: string
  pe_Detail :: string

definition ProtocolError_Error :: "ProtocolError \<Rightarrow> string" where
  "ProtocolError_Error e = (if pe_Detail e = [] then pe_Code e else pe_Code e @ '': '' @ pe_Detail e)"

text \<open>An error of the program is a protocol error or another one.\<close>

datatype go_error = Protocol_error ProtocolError | Other_error string

definition ErrorCode :: "go_error \<Rightarrow> string" where
  "ErrorCode err = (case err of Protocol_error e \<Rightarrow> pe_Code e | Other_error _ \<Rightarrow> InvalidEnvelopeCode)"

definition validateOpaqueID :: "string \<Rightarrow> string \<Rightarrow> nat \<Rightarrow> string option" where
  "validateOpaqueID name value limit =
     (if TrimSpace value = [] \<or> length value > limit
      then Some (name @ '' must be 1..'' @ decimal limit @ '' bytes'') else None)"

lemma validateOpaqueID_None:
  "validateOpaqueID name value limit = None \<longleftrightarrow> TrimSpace value \<noteq> [] \<and> length value \<le> limit"
  by (auto simp: validateOpaqueID_def)

section \<open>Message types\<close>

definition control_types :: "string list" where
  "control_types =
     [''session.hello'', ''session.ready'', ''session.ping'', ''session.pong'', ''turn.listen'', ''turn.abort'',
      ''turn.state'', ''transcript.final'', ''tts.lifecycle'', ''agent.status'', ''ui.card'', ''ui.state'',
      ''alarm.fired'', ''alarm.ack'', ''schedule.updated'', ''protocol.error'']"

definition capability_types :: "string list" where
  "capability_types = [''capability.advertise'', ''capability.call'', ''capability.result'', ''capability.cancel'']"

definition interaction_types :: "string list" where
  "interaction_types =
     [''gesture.notification'', ''voice_mail.available'', ''voice_mail.claim'', ''voice_mail.claimed'',
      ''voice_mail.playback_result'', ''voice_mail.consumed'', ''voice_mail.expired'',
      ''pairing.session_create'', ''pairing.session_created'', ''pairing.confirmation'',
      ''pairing.succeeded'', ''pairing.rejected'', ''pairing.expired'']"

definition MessageType_Valid :: "string \<Rightarrow> bool" where
  "MessageType_Valid t \<longleftrightarrow> t \<in> set control_types \<or> t \<in> set capability_types \<or> t \<in> set interaction_types"

section \<open>The envelope\<close>

record Envelope =
  en_Version :: int
  en_Type :: string
  en_MessageID :: string
  en_CorrelationID :: string
  en_SessionID :: string
  en_TurnID :: string
  en_GenerationID :: nat
  en_IdempotencyKey :: string
  en_OccurredAt :: string
  en_Payload :: string

record Metadata =
  md_MessageID :: string
  md_CorrelationID :: string
  md_SessionID :: string
  md_TurnID :: string
  md_GenerationID :: nat
  md_IdempotencyKey :: string
  md_OccurredAt :: string

definition invalid_envelope :: "string option \<Rightarrow> ProtocolError option" where
  "invalid_envelope e = map_option (\<lambda>m. \<lparr>pe_Code = InvalidEnvelopeCode, pe_Detail = m\<rparr>) e"

definition optional_id :: "string \<Rightarrow> string \<Rightarrow> string option" where
  "optional_id name value = (if value \<noteq> [] then validateOpaqueID name value 128 else None)"

text \<open>
  The three optional identifiers are checked in the order of a map, which is arbitrary; the order
  only selects which of several errors of the same code is reported.
\<close>

definition Envelope_Validate :: "Envelope \<Rightarrow> ProtocolError option" where
  "Envelope_Validate e =
     (if en_Version e \<noteq> Version
        then Some \<lparr>pe_Code = UnsupportedProtocolVersionCode,
                   pe_Detail = ''got '' @ FormatInt (en_Version e) @ '', want 2''\<rparr>
      else if \<not> MessageType_Valid (en_Type e)
        then Some \<lparr>pe_Code = UnknownMessageTypeCode, pe_Detail = en_Type e\<rparr>
      else
      and_then (invalid_envelope (validateOpaqueID ''message_id'' (en_MessageID e) 128))
      (and_then (invalid_envelope (optional_id ''correlation_id'' (en_CorrelationID e)))
      (and_then (invalid_envelope (optional_id ''session_id'' (en_SessionID e)))
      (and_then (invalid_envelope (optional_id ''turn_id'' (en_TurnID e)))
      (if en_Payload e = [] \<or> length (en_Payload e) > MaximumPayloadBytes
         then invalid_envelope (Some ''payload must be a non-empty object within the size limit'')
       else if \<not> raw_object (en_Payload e)
         then invalid_envelope (Some ''payload must be a JSON object'')
       else None)))))"

text \<open>
  \<open>json.Marshal\<close> of the envelope: the fields in the order of the struct, empty optional ones left out,
  the payload embedded as it is (it was written by \<open>json.Marshal\<close> itself).
\<close>

definition str_field :: "string \<Rightarrow> string \<Rightarrow> string list" where
  "str_field name value = (if value = [] then [] else [quote name @ '':'' @ quote value])"

definition marshal_envelope :: "Envelope \<Rightarrow> string" where
  "marshal_envelope e =
     ''{'' @ join '','' (
        [quote ''version'' @ '':'' @ FormatInt (en_Version e), quote ''type'' @ '':'' @ quote (en_Type e),
         quote ''message_id'' @ '':'' @ quote (en_MessageID e)]
        @ str_field ''correlation_id'' (en_CorrelationID e) @ str_field ''session_id'' (en_SessionID e)
        @ str_field ''turn_id'' (en_TurnID e)
        @ (if en_GenerationID e = 0 then [] else [quote ''generation_id'' @ '':'' @ decimal (en_GenerationID e)])
        @ str_field ''idempotency_key'' (en_IdempotencyKey e) @ str_field ''occurred_at'' (en_OccurredAt e)
        @ [quote ''payload'' @ '':'' @ en_Payload e]) @ ''}''"

text \<open>\<open>Encode\<close> of a payload given by the result of its validation and its JSON text.\<close>

definition envelope_of :: "string \<Rightarrow> Metadata \<Rightarrow> string \<Rightarrow> Envelope" where
  "envelope_of messageType m raw =
     \<lparr>en_Version = Version, en_Type = messageType, en_MessageID = md_MessageID m,
      en_CorrelationID = md_CorrelationID m, en_SessionID = md_SessionID m, en_TurnID = md_TurnID m,
      en_GenerationID = md_GenerationID m, en_IdempotencyKey = md_IdempotencyKey m,
      en_OccurredAt = md_OccurredAt m, en_Payload = raw\<rparr>"

definition Encode :: "string \<Rightarrow> Metadata \<Rightarrow> string option \<Rightarrow> string \<Rightarrow> ProtocolError + string" where
  "Encode messageType metadata validated raw =
     (case validated of
        Some msg \<Rightarrow> Inl \<lparr>pe_Code = InvalidEnvelopeCode, pe_Detail = msg\<rparr>
      | None \<Rightarrow>
        (let envelope = envelope_of messageType metadata raw in
         case Envelope_Validate envelope of
           Some e \<Rightarrow> Inl e
         | None \<Rightarrow>
           (let encoded = marshal_envelope envelope in
            if length encoded > MaximumEnvelopeBytes
            then Inl \<lparr>pe_Code = InvalidEnvelopeCode, pe_Detail = ''envelope exceeds size limit''\<rparr>
            else Inr encoded)))"

section \<open>Control payloads\<close>

record AudioParams =
  ap_Format :: string
  ap_SampleRate :: int
  ap_Channels :: int
  ap_FrameDurationMS :: int

definition DefaultAudioParams :: AudioParams where
  "DefaultAudioParams = \<lparr>ap_Format = AudioFormat, ap_SampleRate = UplinkSampleRate, ap_Channels = Channels,
     ap_FrameDurationMS = FrameDurationMS\<rparr>"

definition DownlinkAudioParams :: AudioParams where
  "DownlinkAudioParams = \<lparr>ap_Format = AudioFormat, ap_SampleRate = DownlinkSampleRate, ap_Channels = Channels,
     ap_FrameDurationMS = FrameDurationMS\<rparr>"

record Features =
  StreamingTTS :: bool
  ButtonBargeIn :: bool

record HelloPayload =
  hp_Transport :: string
  hp_AudioParams :: AudioParams
  hp_Features :: "Features option"

definition ReadyPayload_Validate :: "HelloPayload \<Rightarrow> string option" where
  "ReadyPayload_Validate p =
     (if hp_Transport p \<noteq> Transport then Some ''unsupported transport''
      else if hp_AudioParams p \<noteq> DownlinkAudioParams then Some ''unsupported audio params'' else None)"

definition HelloPayload_Validate :: "HelloPayload \<Rightarrow> string option" where
  "HelloPayload_Validate p =
     (if hp_Transport p \<noteq> Transport then Some ''unsupported transport''
      else if hp_AudioParams p \<noteq> DefaultAudioParams then Some ''unsupported audio params'' else None)"

definition ValidateHello :: "Envelope \<Rightarrow> HelloPayload \<Rightarrow> string option" where
  "ValidateHello envelope payload =
     (if en_Type envelope \<noteq> ''session.hello'' then Some ''first message must be session.hello''
      else if en_SessionID envelope \<noteq> [] \<or> en_TurnID envelope \<noteq> []
        then Some ''hello must not claim a session or turn''
      else HelloPayload_Validate payload)"

record ListenPayload =
  lp_State :: string
  lp_Mode :: string

definition ListenPayload_Validate :: "ListenPayload \<Rightarrow> string option" where
  "ListenPayload_Validate p =
     (if lp_State p \<noteq> ''start'' \<and> lp_State p \<noteq> ''stop'' then Some ''listen state must be start or stop''
      else if lp_State p = ''start'' \<and> lp_Mode p \<noteq> ''manual'' \<and> lp_Mode p \<noteq> ''auto_vad''
        then Some ''listen start mode must be manual or auto_vad''
      else if lp_State p = ''stop'' \<and> lp_Mode p \<noteq> [] then Some ''listen stop must not include mode''
      else None)"

text \<open>Text that is not blank and has a bounded number of bytes.\<close>

definition bounded_text :: "string \<Rightarrow> nat \<Rightarrow> bool" where
  "bounded_text s n \<longleftrightarrow> \<not> (TrimSpace s = [] \<or> length s > n)"

definition AbortPayload_Validate :: "string \<Rightarrow> string option" where
  "AbortPayload_Validate reason = (if bounded_text reason 64 then None else Some ''abort reason must be 1..64 bytes'')"

definition AlarmAckPayload_Validate :: "string \<Rightarrow> string option" where
  "AlarmAckPayload_Validate alarmID = validateOpaqueID ''alarm_id'' alarmID 128"

record AlarmFiredPayload =
  af_AlarmID :: string
  af_Message :: string
  af_FireAt :: string

definition AlarmFiredPayload_Validate :: "AlarmFiredPayload \<Rightarrow> string option" where
  "AlarmFiredPayload_Validate p =
     and_then (validateOpaqueID ''alarm_id'' (af_AlarmID p) 128)
     (if \<not> bounded_text (af_Message p) 512 then Some ''alarm message must be 1..512 bytes''
      else if TrimSpace (af_FireAt p) = [] then Some ''fire_at is required'' else None)"

definition ScheduleUpdatedPayload_Validate :: "string \<Rightarrow> string \<Rightarrow> string option" where
  "ScheduleUpdatedPayload_Validate message fireAt =
     (if \<not> bounded_text message 512 then Some ''schedule message must be 1..512 bytes''
      else if TrimSpace fireAt = [] then Some ''fire_at is required'' else None)"

definition TextPayload_Validate :: "string \<Rightarrow> string option" where
  "TextPayload_Validate txt =
     (if bounded_text txt MaximumPayloadBytes then None else Some ''text must be non-empty and within the payload limit'')"

record TTSLifecyclePayload =
  tts_State :: string
  tts_Text :: string

definition TTSLifecyclePayload_Validate :: "TTSLifecyclePayload \<Rightarrow> string option" where
  "TTSLifecyclePayload_Validate p =
     (if tts_State p \<in> {''start'', ''stop''} then
        (if tts_Text p \<noteq> [] then Some ''text is only valid for sentence lifecycle states'' else None)
      else if tts_State p \<in> {''sentence_start'', ''sentence_end''} then
        (if TrimSpace (tts_Text p) = [] then Some ''sentence lifecycle state requires text'' else None)
      else Some ''unsupported TTS lifecycle state'')"

record TurnStatePayload =
  ts_State :: string
  ts_Reason :: string

definition TurnStatePayload_Validate :: "TurnStatePayload \<Rightarrow> string option" where
  "TurnStatePayload_Validate p =
     (if ts_State p \<in> {''listening'', ''processing'', ''speaking'', ''completed''} then
        (if ts_Reason p \<noteq> [] then Some ''reason is only valid for interrupted state'' else None)
      else if ts_State p = ''interrupted'' then
        (if bounded_text (ts_Reason p) 64 then None else Some ''interrupted state requires a bounded reason'')
      else Some ''unsupported turn state'')"

definition AgentStatusPayload_Validate :: "string \<Rightarrow> string option" where
  "AgentStatusPayload_Validate state = (if bounded_text state 64 then None else Some ''agent state must be 1..64 bytes'')"

text \<open>The user interface is any JSON value; a missing one is \<open>null\<close>.\<close>

definition UICardPayload_Validate :: "json \<Rightarrow> string option" where
  "UICardPayload_Validate ui =
     (if ui = JNull then Some ''ui is required''
      else let trimmed = TrimSpace (marshal ui)
           in if length trimmed < 2 \<or> hd trimmed \<noteq> CHR ''{'' \<or> last trimmed \<noteq> CHR ''}''
              then Some ''ui must be a JSON object'' else None)"

definition UIEmotion_Valid :: "string \<Rightarrow> bool" where
  "UIEmotion_Valid e \<longleftrightarrow> e \<in> {''idle'', ''listening'', ''thinking'', ''speaking'', ''tool_executing'',
     ''interrupted'', ''error''}"

record UIStatePayload =
  Emotion :: string
  ToolName :: string

definition UIStatePayload_Validate :: "UIStatePayload \<Rightarrow> string option" where
  "UIStatePayload_Validate p =
     (if \<not> UIEmotion_Valid (Emotion p) then Some ''unsupported ui emotion''
      else if Emotion p = ''tool_executing'' \<and> ToolName p = []
        then Some ''tool_name is required for tool_executing emotion''
      else if Emotion p \<noteq> ''tool_executing'' \<and> ToolName p \<noteq> []
        then Some ''tool_name is only valid for tool_executing emotion''
      else None)"

definition ProtocolErrorPayload_Validate :: "string \<Rightarrow> string \<Rightarrow> string option" where
  "ProtocolErrorPayload_Validate code message =
     (if \<not> bounded_text code 64 then Some ''error code must be 1..64 bytes''
      else if \<not> bounded_text message 1024 then Some ''error message must be 1..1024 bytes'' else None)"

section \<open>Capability payloads\<close>

record CapabilityDescriptor =
  cd_Name :: string
  cd_Version :: string
  cd_Kind :: string

definition CapabilityDescriptor_Validate :: "CapabilityDescriptor \<Rightarrow> string option" where
  "CapabilityDescriptor_Validate d =
     and_then (validateOpaqueID ''capability name'' (cd_Name d) 96)
     (and_then (validateOpaqueID ''capability version'' (cd_Version d) 32)
     (if cd_Kind d \<noteq> ''command'' then Some ''unsupported capability kind'' else None))"

definition descriptor_key :: "CapabilityDescriptor \<Rightarrow> string" where
  "descriptor_key d = cd_Name d @ ''@'' @ cd_Version d"

fun advertise_loop :: "string list \<Rightarrow> CapabilityDescriptor list \<Rightarrow> string option" where
  "advertise_loop seen [] = None"
| "advertise_loop seen (d # ds) =
     and_then (CapabilityDescriptor_Validate d)
     (if descriptor_key d \<in> set seen then Some ''duplicate capability descriptor''
      else advertise_loop (descriptor_key d # seen) ds)"

definition CapabilityAdvertisePayload_Validate :: "CapabilityDescriptor list \<Rightarrow> string option" where
  "CapabilityAdvertisePayload_Validate capabilities =
     (if length capabilities = 0 \<or> length capabilities > 32
      then Some ''capabilities must contain 1..32 descriptors'' else advertise_loop [] capabilities)"

record CapabilityCallPayload =
  cc_Name :: string
  cc_Version :: string
  cc_Arguments :: string
  cc_DeadlineMS :: int

definition CapabilityCallPayload_Validate :: "CapabilityCallPayload \<Rightarrow> string option" where
  "CapabilityCallPayload_Validate p =
     and_then (CapabilityDescriptor_Validate \<lparr>cd_Name = cc_Name p, cd_Version = cc_Version p, cd_Kind = ''command''\<rparr>)
     (if cc_DeadlineMS p < 50 \<or> cc_DeadlineMS p > 5000 then Some ''capability deadline_ms must be within 50..5000''
      else if \<not> raw_object (cc_Arguments p) then Some ''capability arguments must be a JSON object''
      else None)"

record CapabilityResultPayload =
  cr_OK :: bool
  cr_Value :: string
  cr_Error :: string

definition capability_errors :: "string list" where
  "capability_errors = [''unsupported'', ''invalid_argument'', ''busy'', ''timeout'', ''canceled'', ''internal'',
     ''stale_generation'']"

definition CapabilityResultPayload_Validate :: "CapabilityResultPayload \<Rightarrow> string option" where
  "CapabilityResultPayload_Validate p =
     (if cr_OK p then
        (if cr_Error p \<noteq> [] then Some ''successful capability result must not include error''
         else if cr_Value p = [] \<or> \<not> Valid (cr_Value p)
           then Some ''successful capability result requires valid JSON value''
         else None)
      else if cr_Value p \<noteq> [] then Some ''failed capability result must not include value''
      else if cr_Error p \<in> set capability_errors then None
      else Some ''unsupported capability error'')"

definition CapabilityCancelPayload_Validate :: "string \<Rightarrow> string option" where
  "CapabilityCancelPayload_Validate reason =
     (if bounded_text reason 64 then None else Some ''capability cancel reason must be 1..64 bytes'')"

end
