(* ===== verification/Interactions.thy ===== *)
theory Interactions
  imports Protocol
begin

text \<open>
  The interaction messages of \<open>internal/protocol/interaction.go\<close>: one payload per message type, their
  validations, and the two tables between payloads and message types.
\<close>

section \<open>Payloads\<close>

record PairingParticipant =
  OwnerUserID :: string
  pp_DeviceID :: string

record VoiceMailAvailable =
  va_VoiceMailID :: string
  FromDeviceID :: string
  va_MediaFormat :: string
  va_DurationMS :: int
  va_SizeBytes :: int
  va_ChecksumSHA256 :: string
  va_ExpiresAt :: time
  va_Policy :: string

record VoiceMailClaimed =
  vc_VoiceMailID :: string
  vc_PlaybackID :: string
  MediaRef :: string
  vc_LeaseExpiresAt :: time

record VoiceMailPlaybackResult =
  vr_VoiceMailID :: string
  vr_PlaybackID :: string
  vr_Result :: string
  FailureCode :: string

record PairingSessionCreate =
  pc_Initiator :: PairingParticipant
  CandidateDeviceID :: string
  pc_ProximityEvidenceID :: string

record PairingSessionCreated =
  pn_SessionID :: string
  pn_Initiator :: PairingParticipant
  pn_Peer :: PairingParticipant
  pn_ExpiresAt :: time

record PairingConfirmation =
  pf_SessionID :: string
  pf_Participant :: PairingParticipant
  ConfirmationNonce :: string
  ConfirmedAt :: time

record PairingSucceeded =
  ps_SessionID :: string
  ps_RelationshipID :: string
  ps_Initiator :: PairingParticipant
  ps_Peer :: PairingParticipant

datatype InteractionPayload =
  GestureNotification (Gesture: string) (gn_SenderDeviceID: string)
| VMAvailable VoiceMailAvailable
| VMClaim (cl_VoiceMailID: string) (cl_PlaybackID: string)
| VMClaimed VoiceMailClaimed
| VMPlaybackResult VoiceMailPlaybackResult
| VMConsumed (co_VoiceMailID: string) (co_PlaybackID: string)
| VMExpired (ex_VoiceMailID: string)
| PSessionCreate PairingSessionCreate
| PSessionCreated PairingSessionCreated
| PConfirmation PairingConfirmation
| PSucceeded PairingSucceeded
| PRejected (re_SessionID: string) (re_Reason: string)
| PExpired (px_SessionID: string)

section \<open>Validation\<close>

definition GestureNotification_Validate :: "string \<Rightarrow> string \<Rightarrow> string option" where
  "GestureNotification_Validate gesture senderDeviceID =
     and_then (validateOpaqueID ''gesture'' gesture 64) (validateOpaqueID ''sender_device_id'' senderDeviceID 128)"

definition VoiceMailPolicy_Valid :: "string \<Rightarrow> bool" where
  "VoiceMailPolicy_Valid p \<longleftrightarrow> p = ''disabled'' \<or> p = ''ephemeral'' \<or> p = ''retained''"

definition VoiceMailAvailable_Validate :: "VoiceMailAvailable \<Rightarrow> string option" where
  "VoiceMailAvailable_Validate p =
     and_then (validateOpaqueID ''voice_mail_id'' (va_VoiceMailID p) 128)
     (and_then (validateOpaqueID ''from_device_id'' (FromDeviceID p) 128)
     (if va_MediaFormat p \<noteq> ''ogg_opus'' then Some ''media_format must be ogg_opus''
      else if va_DurationMS p \<le> 0 \<or> va_DurationMS p > 600000 then Some ''duration_ms must be 1..600000''
      else if va_SizeBytes p \<le> 0 \<or> va_SizeBytes p > 33554432 then Some ''size_bytes must be 1..33554432''
      else if length (va_ChecksumSHA256 p) \<noteq> 64
        then Some ''checksum_sha256 must be a 64-character hex digest''
      else if \<not> hex_decodes (va_ChecksumSHA256 p) then Some ''checksum_sha256 must be hexadecimal''
      else if IsZero (va_ExpiresAt p) then Some ''expires_at is required''
      else if va_Policy p \<noteq> ''ephemeral'' \<and> va_Policy p \<noteq> ''retained''
        then Some ''policy must be ephemeral or retained''
      else None))"

definition VoiceMailClaim_Validate :: "string \<Rightarrow> string \<Rightarrow> string option" where
  "VoiceMailClaim_Validate voiceMailID playbackID =
     and_then (validateOpaqueID ''voice_mail_id'' voiceMailID 128) (validateOpaqueID ''playback_id'' playbackID 128)"

definition VoiceMailClaimed_Validate :: "VoiceMailClaimed \<Rightarrow> string option" where
  "VoiceMailClaimed_Validate p =
     and_then (VoiceMailClaim_Validate (vc_VoiceMailID p) (vc_PlaybackID p))
     (and_then (validateOpaqueID ''media_ref'' (MediaRef p) 256)
     (if IsZero (vc_LeaseExpiresAt p) then Some ''lease_expires_at is required'' else None))"

definition VoiceMailPlaybackResult_Validate :: "VoiceMailPlaybackResult \<Rightarrow> string option" where
  "VoiceMailPlaybackResult_Validate p =
     and_then (VoiceMailClaim_Validate (vr_VoiceMailID p) (vr_PlaybackID p))
     (if vr_Result p \<noteq> ''succeeded'' \<and> vr_Result p \<noteq> ''failed'' then Some ''result must be succeeded or failed''
      else if vr_Result p = ''succeeded'' \<and> FailureCode p \<noteq> []
        then Some ''failure_code is only valid for failed playback''
      else if length (FailureCode p) > 64 then Some ''failure_code exceeds 64 bytes''
      else None)"

definition VoiceMailConsumed_Validate :: "string \<Rightarrow> string \<Rightarrow> string option" where
  "VoiceMailConsumed_Validate voiceMailID playbackID =
     and_then (validateOpaqueID ''voice_mail_id'' voiceMailID 128)
     (if playbackID \<noteq> [] then validateOpaqueID ''playback_id'' playbackID 128 else None)"

definition VoiceMailExpired_Validate :: "string \<Rightarrow> string option" where
  "VoiceMailExpired_Validate voiceMailID = validateOpaqueID ''voice_mail_id'' voiceMailID 128"

definition PairingParticipant_Validate :: "PairingParticipant \<Rightarrow> string option" where
  "PairingParticipant_Validate p =
     and_then (validateOpaqueID ''owner_user_id'' (OwnerUserID p) 128)
     (validateOpaqueID ''device_id'' (pp_DeviceID p) 128)"

definition PairingSessionCreate_Validate :: "PairingSessionCreate \<Rightarrow> string option" where
  "PairingSessionCreate_Validate p =
     and_then (PairingParticipant_Validate (pc_Initiator p))
     (and_then (validateOpaqueID ''candidate_device_id'' (CandidateDeviceID p) 128)
     (validateOpaqueID ''proximity_evidence_id'' (pc_ProximityEvidenceID p) 256))"

definition PairingSessionCreated_Validate :: "PairingSessionCreated \<Rightarrow> string option" where
  "PairingSessionCreated_Validate p =
     and_then (validateOpaqueID ''session_id'' (pn_SessionID p) 128)
     (and_then (PairingParticipant_Validate (pn_Initiator p))
     (and_then (PairingParticipant_Validate (pn_Peer p))
     (if pn_Initiator p = pn_Peer p then Some ''pairing participants must differ''
      else if IsZero (pn_ExpiresAt p) then Some ''expires_at is required''
      else None)))"

definition PairingConfirmation_Validate :: "PairingConfirmation \<Rightarrow> string option" where
  "PairingConfirmation_Validate p =
     and_then (validateOpaqueID ''session_id'' (pf_SessionID p) 128)
     (and_then (PairingParticipant_Validate (pf_Participant p))
     (and_then (validateOpaqueID ''confirmation_nonce'' (ConfirmationNonce p) 256)
     (if length (ConfirmationNonce p) < 16 then Some ''confirmation_nonce must be at least 16 bytes''
      else if IsZero (ConfirmedAt p) then Some ''confirmed_at is required''
      else None)))"

text \<open>The second after the Unix epoch stands for the expiry that a success does not carry.\<close>

definition PairingSucceeded_Validate :: "PairingSucceeded \<Rightarrow> string option" where
  "PairingSucceeded_Validate p =
     and_then (validateOpaqueID ''relationship_id'' (ps_RelationshipID p) 128)
     (PairingSessionCreated_Validate
        \<lparr>pn_SessionID = ps_SessionID p, pn_Initiator = ps_Initiator p, pn_Peer = ps_Peer p,
         pn_ExpiresAt = unix_epoch + Second\<rparr>)"

definition PairingRejected_Validate :: "string \<Rightarrow> string \<Rightarrow> string option" where
  "PairingRejected_Validate sessionID reason =
     and_then (validateOpaqueID ''session_id'' sessionID 128)
     (if reason \<in> {''user_declined'', ''authorization_denied'', ''invalid_nonce'', ''rate_limited''} then None
      else Some ''unsupported pairing rejection reason'')"

definition PairingExpired_Validate :: "string \<Rightarrow> string option" where
  "PairingExpired_Validate sessionID = validateOpaqueID ''session_id'' sessionID 128"

definition Payload_Validate :: "InteractionPayload \<Rightarrow> string option" where
  "Payload_Validate p =
     (case p of
        GestureNotification g s \<Rightarrow> GestureNotification_Validate g s
      | VMAvailable a \<Rightarrow> VoiceMailAvailable_Validate a
      | VMClaim v pb \<Rightarrow> VoiceMailClaim_Validate v pb
      | VMClaimed c \<Rightarrow> VoiceMailClaimed_Validate c
      | VMPlaybackResult r \<Rightarrow> VoiceMailPlaybackResult_Validate r
      | VMConsumed v pb \<Rightarrow> VoiceMailConsumed_Validate v pb
      | VMExpired v \<Rightarrow> VoiceMailExpired_Validate v
      | PSessionCreate c \<Rightarrow> PairingSessionCreate_Validate c
      | PSessionCreated c \<Rightarrow> PairingSessionCreated_Validate c
      | PConfirmation c \<Rightarrow> PairingConfirmation_Validate c
      | PSucceeded s \<Rightarrow> PairingSucceeded_Validate s
      | PRejected s r \<Rightarrow> PairingRejected_Validate s r
      | PExpired s \<Rightarrow> PairingExpired_Validate s)"

section \<open>Types and payloads\<close>

definition interactionTypeForPayload :: "InteractionPayload \<Rightarrow> string" where
  "interactionTypeForPayload p =
     (case p of
        GestureNotification _ _ \<Rightarrow> ''gesture.notification''
      | VMAvailable _ \<Rightarrow> ''voice_mail.available''
      | VMClaim _ _ \<Rightarrow> ''voice_mail.claim''
      | VMClaimed _ \<Rightarrow> ''voice_mail.claimed''
      | VMPlaybackResult _ \<Rightarrow> ''voice_mail.playback_result''
      | VMConsumed _ _ \<Rightarrow> ''voice_mail.consumed''
      | VMExpired _ \<Rightarrow> ''voice_mail.expired''
      | PSessionCreate _ \<Rightarrow> ''pairing.session_create''
      | PSessionCreated _ \<Rightarrow> ''pairing.session_created''
      | PConfirmation _ \<Rightarrow> ''pairing.confirmation''
      | PSucceeded _ \<Rightarrow> ''pairing.succeeded''
      | PRejected _ _ \<Rightarrow> ''pairing.rejected''
      | PExpired _ \<Rightarrow> ''pairing.expired'')"

definition zero_participant :: PairingParticipant where
  "zero_participant = \<lparr>OwnerUserID = [], pp_DeviceID = []\<rparr>"

text \<open>The empty payload a message of the type is decoded into.\<close>

definition interactionPayloadForType :: "string \<Rightarrow> InteractionPayload option" where
  "interactionPayloadForType t =
     (if t = ''gesture.notification'' then Some (GestureNotification [] [])
      else if t = ''voice_mail.available'' then Some (VMAvailable
        \<lparr>va_VoiceMailID = [], FromDeviceID = [], va_MediaFormat = [], va_DurationMS = 0, va_SizeBytes = 0,
         va_ChecksumSHA256 = [], va_ExpiresAt = 0, va_Policy = []\<rparr>)
      else if t = ''voice_mail.claim'' then Some (VMClaim [] [])
      else if t = ''voice_mail.claimed'' then Some (VMClaimed
        \<lparr>vc_VoiceMailID = [], vc_PlaybackID = [], MediaRef = [], vc_LeaseExpiresAt = 0\<rparr>)
      else if t = ''voice_mail.playback_result'' then Some (VMPlaybackResult
        \<lparr>vr_VoiceMailID = [], vr_PlaybackID = [], vr_Result = [], FailureCode = []\<rparr>)
      else if t = ''voice_mail.consumed'' then Some (VMConsumed [] [])
      else if t = ''voice_mail.expired'' then Some (VMExpired [])
      else if t = ''pairing.session_create'' then Some (PSessionCreate
        \<lparr>pc_Initiator = zero_participant, CandidateDeviceID = [], pc_ProximityEvidenceID = []\<rparr>)
      else if t = ''pairing.session_created'' then Some (PSessionCreated
        \<lparr>pn_SessionID = [], pn_Initiator = zero_participant, pn_Peer = zero_participant, pn_ExpiresAt = 0\<rparr>)
      else if t = ''pairing.confirmation'' then Some (PConfirmation
        \<lparr>pf_SessionID = [], pf_Participant = zero_participant, ConfirmationNonce = [], ConfirmedAt = 0\<rparr>)
      else if t = ''pairing.succeeded'' then Some (PSucceeded
        \<lparr>ps_SessionID = [], ps_RelationshipID = [], ps_Initiator = zero_participant, ps_Peer = zero_participant\<rparr>)
      else if t = ''pairing.rejected'' then Some (PRejected [] [])
      else if t = ''pairing.expired'' then Some (PExpired [])
      else None)"

section \<open>Properties\<close>

lemma validateOpaqueID_Nil [simp]: "validateOpaqueID n [] k = None \<longleftrightarrow> False"
  by (simp add: validateOpaqueID_def)

lemmas interaction_validate_defs =
  GestureNotification_Validate_def VoiceMailAvailable_Validate_def VoiceMailClaim_Validate_def
  VoiceMailClaimed_Validate_def VoiceMailPlaybackResult_Validate_def VoiceMailConsumed_Validate_def
  VoiceMailExpired_Validate_def PairingSessionCreate_Validate_def PairingSessionCreated_Validate_def
  PairingConfirmation_Validate_def PairingSucceeded_Validate_def PairingRejected_Validate_def
  PairingExpired_Validate_def PairingParticipant_Validate_def

lemma interactionPayloadForType_type:
  "interactionPayloadForType t = Some p \<Longrightarrow> t = interactionTypeForPayload p"
  by (auto simp: interactionPayloadForType_def interactionTypeForPayload_def split: if_split_asm)

lemma interactionPayloadForType_invalid:
  "interactionPayloadForType t = Some p \<Longrightarrow> Payload_Validate p = None \<Longrightarrow> False"
  by (simp add: interactionPayloadForType_def split: if_split_asm)
    (clarsimp simp: Payload_Validate_def interaction_validate_defs zero_participant_def and_then_None)+

lemma interactionPayloadForType_None: "interactionPayloadForType t = None \<longleftrightarrow> t \<notin> set interaction_types"
  by (auto simp: interactionPayloadForType_def interaction_types_def)

text \<open>
  C25: the two tables agree. The message types with an interaction payload are exactly the interaction types,
  all of them valid message types; the empty payload of a type has that type and never passes
  validation, and the type of every payload is one of them.
\<close>

theorem interaction_tables_agree:
  "map_option interactionTypeForPayload (interactionPayloadForType t)
     = (if t \<in> set interaction_types then Some t else None)
   \<and> map_option (\<lambda>p. Payload_Validate p = None) (interactionPayloadForType t)
     = (if t \<in> set interaction_types then Some False else None)
   \<and> interactionTypeForPayload p \<in> set interaction_types \<and> MessageType_Valid (interactionTypeForPayload p)"
proof -
  have p: "interactionTypeForPayload p \<in> set interaction_types"
    by (cases p) (simp_all add: interactionTypeForPayload_def interaction_types_def)
  have "MessageType_Valid (interactionTypeForPayload p)" using p unfolding MessageType_Valid_def by simp
  moreover have "map_option interactionTypeForPayload (interactionPayloadForType t)
      = (if t \<in> set interaction_types then Some t else None)
    \<and> map_option (\<lambda>p. Payload_Validate p = None) (interactionPayloadForType t)
      = (if t \<in> set interaction_types then Some False else None)"
  proof (cases "interactionPayloadForType t")
    case None
    then have "t \<notin> set interaction_types" using interactionPayloadForType_None by blast
    then show ?thesis unfolding None by (simp only: option.map if_False)
  next
    case (Some q)
    then have "t \<in> set interaction_types" using interactionPayloadForType_None [of t] by fastforce
    moreover have "(Payload_Validate q = None) = False" using Some interactionPayloadForType_invalid by blast
    ultimately show ?thesis using Some interactionPayloadForType_type [OF Some]
      by (simp only: option.map if_True)
  qed
  ultimately show ?thesis using p by blast
qed

lemma invalid_envelope_None [simp]: "invalid_envelope e = None \<longleftrightarrow> e = None"
  by (simp add: invalid_envelope_def)

lemma optional_id_None:
  "optional_id n v = None \<longleftrightarrow> v = [] \<or> TrimSpace v \<noteq> [] \<and> length v \<le> 128"
  by (simp add: optional_id_def validateOpaqueID_None)

lemma Envelope_Validate_None:
  "Envelope_Validate e = None \<longleftrightarrow> en_Version e = 2 \<and> MessageType_Valid (en_Type e)
     \<and> TrimSpace (en_MessageID e) \<noteq> [] \<and> length (en_MessageID e) \<le> 128
     \<and> list_all (\<lambda>v. v = [] \<or> TrimSpace v \<noteq> [] \<and> length v \<le> 128) [en_CorrelationID e, en_SessionID e, en_TurnID e]
     \<and> en_Payload e \<noteq> [] \<and> length (en_Payload e) \<le> 4096 \<and> raw_object (en_Payload e)"
  by (simp add: Envelope_Validate_def Version_def MaximumPayloadBytes_def validateOpaqueID_None
      optional_id_None not_less)

lemma Encode_Inr:
  "Encode ty m validated raw = Inr bytes \<longleftrightarrow> validated = None \<and> Envelope_Validate (envelope_of ty m raw) = None
     \<and> bytes = marshal_envelope (envelope_of ty m raw) \<and> length bytes \<le> 8192"
  by (auto simp: Encode_def Let_def MaximumEnvelopeBytes_def split: option.splits)

text \<open>
  what an encoded message is. \<open>Encode\<close> returns bytes exactly when the payload is valid, the type is known, the
  identifiers are in range, the payload is a JSON object of at most 4096 bytes and the whole
  envelope fits in 8192 bytes; the bytes are then those of the version-2 envelope.
\<close>

theorem encode_characterization:
  "Encode ty m validated raw = Inr bytes \<longleftrightarrow>
     validated = None \<and> MessageType_Valid ty
     \<and> TrimSpace (md_MessageID m) \<noteq> [] \<and> length (md_MessageID m) \<le> 128
     \<and> list_all (\<lambda>v. v = [] \<or> TrimSpace v \<noteq> [] \<and> length v \<le> 128) [md_CorrelationID m, md_SessionID m, md_TurnID m]
     \<and> raw \<noteq> [] \<and> length raw \<le> 4096 \<and> raw_object raw
     \<and> bytes = marshal_envelope (envelope_of ty m raw) \<and> length bytes \<le> 8192"
proof -
  have "en_Version (envelope_of ty m raw) = 2" "en_Type (envelope_of ty m raw) = ty"
    "en_MessageID (envelope_of ty m raw) = md_MessageID m" "en_CorrelationID (envelope_of ty m raw) = md_CorrelationID m"
    "en_SessionID (envelope_of ty m raw) = md_SessionID m" "en_TurnID (envelope_of ty m raw) = md_TurnID m"
    "en_Payload (envelope_of ty m raw) = raw"
    by (simp_all add: envelope_of_def Version_def)
  then show ?thesis unfolding Encode_Inr Envelope_Validate_None by simp
qed

lemma advertise_loop_None:
  "advertise_loop seen ds = None \<longleftrightarrow> list_all (\<lambda>d. CapabilityDescriptor_Validate d = None) ds
     \<and> distinct (map descriptor_key ds) \<and> set (map descriptor_key ds) \<inter> set seen = {}"
  by (induction ds arbitrary: seen) auto

text \<open>
  which capabilities a device may advertise: one to thirty-two descriptors, each valid, no two with the
  same name and version.
\<close>

theorem advertise_characterization:
  "CapabilityAdvertisePayload_Validate ds = None \<longleftrightarrow>
     length ds \<in> {1..32} \<and> list_all (\<lambda>d. CapabilityDescriptor_Validate d = None) ds
     \<and> distinct (map (\<lambda>d. cd_Name d @ ''@'' @ cd_Version d) ds)"
proof -
  have eq: "(\<lambda>d. cd_Name d @ ''@'' @ cd_Version d) = descriptor_key"
    by (simp add: fun_eq_iff descriptor_key_def)
  show ?thesis
    unfolding CapabilityAdvertisePayload_Validate_def eq
    by (cases ds) (auto simp: advertise_loop_None)
qed

end
