(* ===== verification/Onboarding.thy ===== *)
theory Onboarding
  imports Idempotency Canonical_Json Store_Tables
begin

text \<open>
  The last step of provisioning: \<open>internal/onboarding/claim.go\<close> (the handler that exchanges a claim
  authorization for the runtime credential of a device), \<open>pgstore/device_claim.go\<close> (the transaction that
  binds the device to its owner) and the credentials of \<open>pgstore/control_auth.go\<close>. The authenticated
  encryption of the delivery and SHA-256 are arguments; random draws are \<open>None\<close> when the source of
  randomness fails; \<open>clock i\<close> is the i-th reading of the program's clock.
\<close>

section \<open>Tables\<close>

datatype onb_error = ErrDeviceAlreadyClaimed | ErrClaimDeliveryUnavailable

record DeviceClaimOutcome =
  dco_DeliveryID :: string
  dco_DeviceID :: string

record credential_row =
  dc_device_id :: string
  dc_user_id :: string
  dc_tenant_id :: string
  dc_plan :: string
  token_sha256 :: string
  dc_status :: string
  dc_created_at :: time
  dc_rotated_at :: time

record delivery_row =
  dl_delivery_id :: string
  dl_device_id :: string
  dl_user_id :: string
  credential_ciphertext :: string
  credential_nonce :: string
  dl_expires_at :: time
  completed_at :: "time option"

record onb_tables = "DeviceClaimOutcome idem_tables" +
  credential_rows :: "credential_row list"
  device_claim_deliveries :: "delivery_row list"

type_synonym 'a onb_tx = "(onb_tables, onb_error, 'a) tx"

definition empty_onb :: onb_tables where
  "empty_onb = \<lparr>idempotency_records = [], legacy_idempotency_reservations = [], credential_rows = [],
     device_claim_deliveries = []\<rparr>"

text \<open>The checks of the two tables: a lower-case SHA-256 in hex, and the lengths in characters.\<close>

definition sha256_check :: "string \<Rightarrow> bool" where
  "sha256_check s \<longleftrightarrow> length s = 64 \<and> list_all hex_digit s \<and> ToLower s = s"

definition within :: "nat \<Rightarrow> nat \<Rightarrow> string \<Rightarrow> bool" where
  "within low high s \<longleftrightarrow> low \<le> RuneCountInString s \<and> RuneCountInString s \<le> high"

definition delivery_check :: "delivery_row \<Rightarrow> bool" where
  "delivery_check r \<longleftrightarrow> within 16 128 (dl_delivery_id r) \<and> within 1 128 (dl_device_id r) \<and> within 1 256 (dl_user_id r)"

definition find_credential :: "string \<Rightarrow> onb_tables \<Rightarrow> credential_row option" where
  "find_credential dev t = find (\<lambda>r. dc_device_id r = dev) (credential_rows t)"

definition update_credentials ::
    "(credential_row \<Rightarrow> bool) \<Rightarrow> (credential_row \<Rightarrow> credential_row) \<Rightarrow> onb_tables \<Rightarrow> (nat \<times> onb_tables) option" where
  "update_credentials P g t =
     (if \<exists>r \<in> set (credential_rows t). P r \<and> \<not> sha256_check (token_sha256 (g r)) then None
      else Some (rows_affected P (credential_rows t), t\<lparr>credential_rows := update_where P g (credential_rows t)\<rparr>))"

text \<open>The insertion of a credential: \<open>False\<close> is the violation of the primary key.\<close>

definition insert_credential :: "credential_row \<Rightarrow> onb_tables \<Rightarrow> (bool \<times> onb_tables) option" where
  "insert_credential r t =
     (if dc_device_id r \<in> dc_device_id ` set (credential_rows t) then Some (False, t)
      else if \<not> sha256_check (token_sha256 r) then None
      else Some (True, t\<lparr>credential_rows := credential_rows t @ [r]\<rparr>))"

definition insert_delivery :: "delivery_row \<Rightarrow> onb_tables \<Rightarrow> (unit \<times> onb_tables) option" where
  "insert_delivery r t =
     (if dl_delivery_id r \<in> dl_delivery_id ` set (device_claim_deliveries t) \<or> \<not> delivery_check r
         \<or> dl_device_id r \<notin> dc_device_id ` set (credential_rows t) then None
      else Some ((), t\<lparr>device_claim_deliveries := device_claim_deliveries t @ [r]\<rparr>))"

section \<open>The claim of a device\<close>

record DeviceClaimMutation =
  dm_UserID :: string
  dm_DeviceID :: string
  dm_TenantID :: string
  dm_Plan :: string
  dm_CredentialHash :: string
  dm_DeliveryID :: string
  dm_CredentialCiphertext :: string
  dm_CredentialNonce :: string
  dm_ExpiresAt :: time
  dm_IdempotencyKey :: string
  dm_RequestHash :: string

definition trim_mutation :: "DeviceClaimMutation \<Rightarrow> DeviceClaimMutation" where
  "trim_mutation m = m\<lparr>dm_UserID := TrimSpace (dm_UserID m), dm_DeviceID := TrimSpace (dm_DeviceID m),
     dm_DeliveryID := TrimSpace (dm_DeliveryID m), dm_CredentialHash := TrimSpace (dm_CredentialHash m)\<rparr>"

definition rotate_or_insert :: "pg_env \<Rightarrow> DeviceClaimMutation \<Rightarrow> unit onb_tx" where
  "rotate_or_insert env m =
     tx_bind (query (find_credential (dm_DeviceID m))) (\<lambda>row.
     case row of
       Some r \<Rightarrow>
         if dc_user_id r \<noteq> dm_UserID m then tx_fail (App ErrDeviceAlreadyClaimed)
         else tx_bind (stmt (update_credentials (\<lambda>x. dc_device_id x = dm_DeviceID m \<and> dc_user_id x = dm_UserID m)
                (\<lambda>x. x\<lparr>token_sha256 := dm_CredentialHash m, dc_status := ''active'', dc_rotated_at := tx_now env\<rparr>))) (\<lambda>rows.
              if rows \<noteq> 1 then tx_fail (App ErrDeviceAlreadyClaimed) else tx_return ())
     | None \<Rightarrow>
         tx_bind (stmt (insert_credential \<lparr>dc_device_id = dm_DeviceID m, dc_user_id = dm_UserID m,
                dc_tenant_id = TrimSpace (dm_TenantID m), dc_plan = TrimSpace (dm_Plan m),
                token_sha256 = dm_CredentialHash m, dc_status = ''active'', dc_created_at = tx_now env,
                dc_rotated_at = tx_now env\<rparr>)) (\<lambda>inserted.
         if \<not> inserted then tx_fail (App ErrDeviceAlreadyClaimed) else tx_return ()))"

definition claim_mutation :: "pg_env \<Rightarrow> DeviceClaimMutation \<Rightarrow> DeviceClaimOutcome onb_tx" where
  "claim_mutation env m =
     tx_bind (rotate_or_insert env m) (\<lambda>_.
     tx_bind (stmt (insert_delivery \<lparr>dl_delivery_id = dm_DeliveryID m, dl_device_id = dm_DeviceID m,
            dl_user_id = dm_UserID m, credential_ciphertext = dm_CredentialCiphertext m,
            credential_nonce = dm_CredentialNonce m, dl_expires_at = pg_ts (dm_ExpiresAt m), completed_at = None\<rparr>)) (\<lambda>_.
     tx_return \<lparr>dco_DeliveryID = dm_DeliveryID m, dco_DeviceID = dm_DeviceID m\<rparr>))"

definition claim_request :: "DeviceClaimMutation \<Rightarrow> Request" where
  "claim_request m = \<lparr>Actor = dm_UserID m, Operation = ''device.claim'', Key = dm_IdempotencyKey m,
     RequestHash = dm_RequestHash m\<rparr>"

definition ClaimDevice ::
    "pg_env \<Rightarrow> time \<Rightarrow> DeviceClaimMutation \<Rightarrow> DeviceClaimOutcome IdempotentOutcome onb_tx" where
  "ClaimDevice env now mutation =
     (let m = trim_mutation mutation in
      if dm_UserID m = [] \<or> dm_DeviceID m = [] \<or> dm_DeliveryID m = [] \<or> length (dm_CredentialHash m) \<noteq> 64
         \<or> dm_CredentialCiphertext m = [] \<or> dm_CredentialNonce m = [] \<or> \<not> After (dm_ExpiresAt m) now
      then tx_fail (Invalid ''invalid device claim mutation'')
      else RunIdempotent (claim_request m) id (go_now env) (claim_mutation env m))"

definition Device_Claim_Delivery :: "time \<Rightarrow> string \<Rightarrow> string \<Rightarrow> delivery_row onb_tx" where
  "Device_Claim_Delivery now userID deliveryID =
     tx_bind (query (\<lambda>t. find (\<lambda>r. dl_delivery_id r = TrimSpace deliveryID \<and> dl_user_id r = TrimSpace userID)
       (device_claim_deliveries t))) (\<lambda>row.
     case row of
       None \<Rightarrow> tx_fail (App ErrClaimDeliveryUnavailable)
     | Some r \<Rightarrow>
         if completed_at r \<noteq> None \<or> \<not> After (dl_expires_at r) now \<or> credential_ciphertext r = [] \<or> credential_nonce r = []
         then tx_fail (App ErrClaimDeliveryUnavailable) else tx_return r)"

section \<open>Credentials\<close>

text \<open>\<open>hex.DecodeString\<close>: two digits for each byte.\<close>

definition digit_value :: "char \<Rightarrow> nat option" where
  "digit_value c = (let n = (of_char c :: nat) in
     if 48 \<le> n \<and> n \<le> 57 then Some (n - 48) else if 97 \<le> n \<and> n \<le> 102 then Some (n - 87)
     else if 65 \<le> n \<and> n \<le> 70 then Some (n - 55) else None)"

fun hex_decode :: "string \<Rightarrow> string option" where
  "hex_decode [] = Some []"
| "hex_decode [c] = None"
| "hex_decode (c # c' # cs) =
     (case (digit_value c, digit_value c', hex_decode cs) of
        (Some h, Some l, Some bs) \<Rightarrow> Some (char_of (16 * h + l) # bs) | _ \<Rightarrow> None)"

text \<open>The identity of a device; its conversation thread (\<open>ThreadID\<close>) is not part of a credential.\<close>

record Identity =
  id_UserID :: string
  id_DeviceID :: string
  id_TenantID :: string
  id_Plan :: string

definition EnrollDevice :: "(string \<Rightarrow> string) \<Rightarrow> time \<Rightarrow> Identity \<Rightarrow> string \<Rightarrow> unit onb_tx" where
  "EnrollDevice sha256 now identity rawToken =
     (let user = owner (id_UserID identity); dev = TrimSpace (id_DeviceID identity);
          hash = hex_encode (sha256 rawToken) in
      if dev = [] \<or> length rawToken < 16 then tx_fail (Invalid ''user/device and token>=16 required'')
      else stmt (\<lambda>t.
        if \<not> sha256_check hash then None
        else if dev \<in> dc_device_id ` set (credential_rows t)
        then Some ((), t\<lparr>credential_rows := update_where (\<lambda>r. dc_device_id r = dev)
               (\<lambda>r. r\<lparr>dc_user_id := user, dc_tenant_id := TrimSpace (id_TenantID identity),
                      dc_plan := TrimSpace (id_Plan identity), token_sha256 := hash, dc_status := ''active'',
                      dc_rotated_at := pg_ts now\<rparr>) (credential_rows t)\<rparr>)
        else Some ((), t\<lparr>credential_rows := credential_rows t @
               [\<lparr>dc_device_id = dev, dc_user_id = user, dc_tenant_id = TrimSpace (id_TenantID identity),
                 dc_plan = TrimSpace (id_Plan identity), token_sha256 = hash, dc_status = ''active'',
                 dc_created_at = pg_ts now, dc_rotated_at = pg_ts now\<rparr>]\<rparr>)))"

definition AuthenticateDevice :: "(string \<Rightarrow> string) \<Rightarrow> string \<Rightarrow> string \<Rightarrow> (Identity \<times> bool) onb_tx" where
  "AuthenticateDevice sha256 deviceID rawToken =
     (let dev = TrimSpace deviceID; hash = sha256 rawToken in
      tx_bind (query (find_credential dev)) (\<lambda>row.
      case row of
        None \<Rightarrow> tx_return (\<lparr>id_UserID = [], id_DeviceID = dev, id_TenantID = [], id_Plan = []\<rparr>, False)
      | Some r \<Rightarrow>
          (let identity = \<lparr>id_UserID = dc_user_id r, id_DeviceID = dev, id_TenantID = dc_tenant_id r, id_Plan = dc_plan r\<rparr> in
           case hex_decode (token_sha256 r) of
             None \<Rightarrow> tx_return (identity, False)
           | Some decoded \<Rightarrow> tx_return (identity, dc_status r = ''active'' \<and> length decoded = sha256_size \<and> decoded = hash))))"

definition RevokeDevice :: "time \<Rightarrow> string \<Rightarrow> unit onb_tx" where
  "RevokeDevice now deviceID =
     tx_bind (stmt (update_credentials (\<lambda>r. dc_device_id r = TrimSpace deviceID)
       (\<lambda>r. r\<lparr>dc_status := ''revoked'', dc_rotated_at := pg_ts now\<rparr>))) (\<lambda>rows.
     if rows = 1 then tx_return () else tx_fail (Invalid ''device credential not found or not mutable''))"

section \<open>The service\<close>

definition credentialDeliveryTTL :: duration where "credentialDeliveryTTL = 10 * Minute"

text \<open>Authenticated encryption: nonce, text and additional data; opening may fail.\<close>

record aead =
  Seal :: "string \<Rightarrow> string \<Rightarrow> string \<Rightarrow> string"
  Open :: "string \<Rightarrow> string \<Rightarrow> string \<Rightarrow> string option"

definition deliveryAAD :: "string \<Rightarrow> string \<Rightarrow> string \<Rightarrow> string" where
  "deliveryAAD userID deviceID deliveryID =
     TrimSpace userID @ [CHR 0x00] @ TrimSpace deviceID @ [CHR 0x00] @ TrimSpace deliveryID"

record claimResponse =
  cl_DeviceID :: string
  cl_DeliveryID :: string
  cl_DeviceCredential :: string
  cl_ExpiresAt :: time
  cl_Replayed :: bool

definition claim_hash :: "(string \<Rightarrow> string) \<Rightarrow> string \<Rightarrow> string \<Rightarrow> string" where
  "claim_hash sha256 deviceID bootstrapID =
     HashValue sha256 (JObj [(''device_id'', JString deviceID), (''bootstrap_id'', JString bootstrapID)])"

definition claim_dm ::
    "(string \<Rightarrow> string) \<Rightarrow> aead \<Rightarrow> time \<Rightarrow> string \<Rightarrow> string \<Rightarrow> string \<Rightarrow> string \<Rightarrow> string \<Rightarrow> string \<Rightarrow> string
      \<Rightarrow> DeviceClaimMutation" where
  "claim_dm sha256 box expires userID deviceID bootstrapID key raw deliveryID nonce =
     \<lparr>dm_UserID = userID, dm_DeviceID = deviceID, dm_TenantID = [], dm_Plan = [],
      dm_CredentialHash = hex_encode (sha256 raw), dm_DeliveryID = deliveryID,
      dm_CredentialCiphertext = Seal box nonce raw (deliveryAAD userID deviceID deliveryID),
      dm_CredentialNonce = nonce, dm_ExpiresAt = expires, dm_IdempotencyKey = key,
      dm_RequestHash = claim_hash sha256 deviceID bootstrapID\<rparr>"

definition claim ::
    "(string \<Rightarrow> string) \<Rightarrow> aead \<Rightarrow> pg_env \<Rightarrow> (nat \<Rightarrow> time) \<Rightarrow> string option \<times> string option \<times> string option
      \<Rightarrow> string \<Rightarrow> string \<Rightarrow> string \<Rightarrow> string \<Rightarrow> claimResponse onb_tx" where
  "claim sha256 box env clock draws userID deviceID bootstrapID key =
     (case draws of
        (Some raw, Some deliveryID, Some nonce) \<Rightarrow>
          tx_bind (ClaimDevice env (clock 1) (claim_dm sha256 box (Add (clock 0) credentialDeliveryTTL) userID deviceID
                     bootstrapID key raw deliveryID nonce)) (\<lambda>out.
          tx_bind (Device_Claim_Delivery (clock 2) userID (dco_DeliveryID (outcome out))) (\<lambda>delivery.
          case Open box (credential_nonce delivery) (credential_ciphertext delivery)
                 (deliveryAAD (dl_user_id delivery) (dl_device_id delivery) (dl_delivery_id delivery)) of
            None \<Rightarrow> tx_fail (Invalid ''decrypt device claim delivery'')
          | Some plain \<Rightarrow>
              tx_return \<lparr>cl_DeviceID = dl_device_id delivery, cl_DeliveryID = dl_delivery_id delivery,
                cl_DeviceCredential = plain, cl_ExpiresAt = dl_expires_at delivery, cl_Replayed = Replayed out\<rparr>))
      | _ \<Rightarrow> tx_fail (Invalid ''random''))"

text \<open>\<open>strings.Fields\<close>, and the token of an \<open>Authorization\<close> header. Case folding of the word Bearer is that of ASCII.\<close>

fun fields_loop :: "(nat \<times> string) list \<Rightarrow> string \<Rightarrow> string list" where
  "fields_loop [] w = (if w = [] then [] else [w])"
| "fields_loop ((r, b) # rs) w =
     (if IsSpace r then (if w = [] then fields_loop rs [] else w # fields_loop rs []) else fields_loop rs (w @ b))"

definition Fields :: "string \<Rightarrow> string list" where
  "Fields s = fields_loop (runes s) []"

definition bearerToken :: "string \<Rightarrow> string option" where
  "bearerToken raw =
     (case Fields raw of
        [scheme, token] \<Rightarrow> if ToLower scheme = ''bearer'' \<and> TrimSpace token \<noteq> [] then Some (TrimSpace token) else None
      | _ \<Rightarrow> None)"

datatype claim_reply = ClaimError nat | ClaimOK claimResponse

definition claim_status :: "onb_error failure \<Rightarrow> nat" where
  "claim_status e = (case e of App ErrDeviceAlreadyClaimed \<Rightarrow> 409 | Conflict _ _ \<Rightarrow> 409
     | App ErrClaimDeliveryUnavailable \<Rightarrow> 410 | _ \<Rightarrow> 500)"

text \<open>
  The handler. The body is what the strict decoder made of it (\<open>None\<close> when it failed); the authorizer has
  a state of its own and answers \<open>None\<close> for an error.
\<close>

definition handleClaim ::
    "(string \<Rightarrow> string) \<Rightarrow> aead \<Rightarrow> pg_env \<Rightarrow> (nat \<Rightarrow> time) \<Rightarrow> string option \<times> string option \<times> string option
      \<Rightarrow> (string \<Rightarrow> string \<Rightarrow> string \<Rightarrow> 'a \<Rightarrow> string option \<times> 'a) \<Rightarrow> string \<Rightarrow> string \<Rightarrow> (string \<times> string) option
      \<Rightarrow> 'a \<times> onb_tables db \<Rightarrow> claim_reply \<times> 'a \<times> onb_tables db" where
  "handleClaim sha256 box env clock draws authorize authorization idempotencyKey body st =
     (case st of (a, d) \<Rightarrow>
      case bearerToken authorization of
        None \<Rightarrow> (ClaimError 401, a, d)
      | Some claimToken \<Rightarrow>
        (let idem = TrimSpace idempotencyKey in
         if length idem < 8 \<or> length idem > 128 then (ClaimError 400, a, d)
         else case body of
           None \<Rightarrow> (ClaimError 400, a, d)
         | Some (device0, bootstrap0) \<Rightarrow>
           (let dev = TrimSpace device0; boot = TrimSpace bootstrap0 in
            if dev = [] \<or> length dev > 128 \<or> boot = [] \<or> length boot > 128 then (ClaimError 400, a, d)
            else case authorize claimToken boot dev a of
              (None, a') \<Rightarrow> (ClaimError 401, a', d)
            | (Some userID, a') \<Rightarrow>
              if TrimSpace userID = [] then (ClaimError 401, a', d)
              else (case claim sha256 box env clock draws userID dev boot idem d of
                      (Inl e, d') \<Rightarrow> (ClaimError (claim_status e), a', d')
                    | (Inr resp, d') \<Rightarrow> (ClaimOK resp, a', d')))))"

section \<open>Hex round trip\<close>

lemma digit_value_nibble: "n < 16 \<Longrightarrow> digit_value (nibble n) = Some n"
  by (auto simp: digit_value_def nibble_def of_char_of Let_def)

lemma hex_decode_encode [simp]: "hex_decode (hex_encode s) = Some s"
proof (induction s)
  case (Cons c s)
  have "digit_value (nibble ((of_char c :: nat) div 16)) = Some (of_char c div 16)"
    "digit_value (nibble ((of_char c :: nat) mod 16)) = Some (of_char c mod 16)"
    by (rule digit_value_nibble, simp add: of_char_div16)+
  moreover have "char_of (16 * ((of_char c :: nat) div 16) + of_char c mod 16) = c" by (simp add: mult_div_mod_eq)
  ultimately show ?case using Cons by simp
qed simp

lemma sha256_check_hex: "length (sha256 raw) = sha256_size \<Longrightarrow> sha256_check (hex_encode (sha256 raw))"
  using hex_encode_digits by (simp add: sha256_check_def sha256_size_def)

end
