(* ===== verification/Onboarding_Properties.thy ===== *)
theory Onboarding_Properties
  imports Onboarding
begin

text \<open>
  What the last step of provisioning guarantees: a device never changes hands through a claim, and the
  credential that a claim delivers is the one that authenticates the device as its owner's.
\<close>

section \<open>Owners\<close>

definition keeps_owners :: "onb_tables \<Rightarrow> onb_tables \<Rightarrow> bool" where
  "keeps_owners t t' \<longleftrightarrow> (\<forall>dev r. find_credential dev t = Some r \<longrightarrow>
     (\<exists>r'. find_credential dev t' = Some r' \<and> dc_user_id r' = dc_user_id r))"

lemma keeps_owners_refl [simp]: "keeps_owners t t"
  by (simp add: keeps_owners_def)

lemma keeps_owners_trans: "keeps_owners t u \<Longrightarrow> keeps_owners u v \<Longrightarrow> keeps_owners t v"
  unfolding keeps_owners_def by metis

lemma keeps_owners_frame: "credential_rows t' = credential_rows t \<Longrightarrow> keeps_owners t t'"
  by (simp add: keeps_owners_def find_credential_def)

lemma update_credentials_owners:
  assumes "update_credentials P g t = Some (n, t')"
    and "\<And>r. dc_device_id (g r) = dc_device_id r" "\<And>r. dc_user_id (g r) = dc_user_id r"
  shows "keeps_owners t t'"
proof -
  have "credential_rows t' = update_where P g (credential_rows t)"
    using assms(1) by (auto simp: update_credentials_def split: if_splits)
  then show ?thesis using assms(2,3) by (auto simp: keeps_owners_def find_credential_def find_update_where)
qed

text \<open>
  What a claim for a device and a user may do to the stored credentials: every row keeps its owner, and the only
  row that may change at all is that of the device, when it belongs to that user.
\<close>

definition rotates :: "string \<Rightarrow> string \<Rightarrow> onb_tables \<Rightarrow> onb_tables \<Rightarrow> bool" where
  "rotates dev user t t' \<longleftrightarrow> keeps_owners t t' \<and> (\<forall>dv r. find_credential dv t = Some r \<longrightarrow>
     find_credential dv t' = Some r \<or> dv = dev \<and> dc_user_id r = user)"

lemma rotates_refl [simp]: "rotates dev user t t"
  by (simp add: rotates_def)

lemma rotates_frame: "credential_rows t' = credential_rows t \<Longrightarrow> rotates dev user t t'"
  by (simp add: rotates_def keeps_owners_frame find_credential_def)

lemma rotates_then_frame: "rotates dev user t t1 \<Longrightarrow> credential_rows t2 = credential_rows t1 \<Longrightarrow> rotates dev user t t2"
  by (simp add: rotates_def keeps_owners_def find_credential_def)

lemma insert_credential_rotates: "insert_credential r t = Some (b, t') \<Longrightarrow> rotates dev user t t'"
  by (auto simp: insert_credential_def rotates_def keeps_owners_def find_credential_def find_append split: if_splits)

lemma update_credentials_rotates:
  assumes "update_credentials (\<lambda>x. dc_device_id x = dev \<and> dc_user_id x = user) g t = Some (n, t')"
    and g: "\<And>r. dc_device_id (g r) = dc_device_id r" "\<And>r. dc_user_id (g r) = dc_user_id r"
  shows "rotates dev user t t'"
proof -
  have rows: "credential_rows t' = update_where (\<lambda>x. dc_device_id x = dev \<and> dc_user_id x = user) g (credential_rows t)"
    using assms(1) by (auto simp: update_credentials_def split: if_splits)
  have "find_credential dv t' = map_option (\<lambda>x. if dc_device_id x = dev \<and> dc_user_id x = user then g x else x) (find_credential dv t)" for dv
    unfolding find_credential_def rows by (rule find_update_where) (simp add: g)
  moreover have "dc_device_id r = dv" if "find_credential dv t = Some r" for dv r
    using that by (auto simp: find_credential_def dest: find_Some_in_set)
  ultimately show ?thesis using update_credentials_owners [OF assms] by (auto simp: rotates_def)
qed

lemma rotate_or_insert_rotates:
  "rotate_or_insert env m d = (Inr v, d') \<Longrightarrow> rotates (dm_DeviceID m) (dm_UserID m) (tables d) (tables d')"
  by (auto simp: rotate_or_insert_def tx_Inr split: option.splits if_splits
      intro: insert_credential_rotates dest!: update_credentials_rotates)

lemma claim_mutation_rotates:
  assumes "claim_mutation env m d = (Inr v, d')"
  shows "rotates (dm_DeviceID m) (dm_UserID m) (tables d) (tables d')"
proof -
  obtain d1 r where "rotate_or_insert env m d = (Inr (), d1)" "insert_delivery r (tables d1) = Some ((), tables d')"
    using assms by (auto simp: claim_mutation_def tx_Inr)
  moreover from this(2) have "credential_rows (tables d') = credential_rows (tables d1)"
    by (auto simp: insert_delivery_def split: if_splits dest: sym)
  ultimately show ?thesis using rotate_or_insert_rotates rotates_then_frame by blast
qed

lemma ClaimDevice_rotates:
  "changes (\<lambda>_. True) (rotates (TrimSpace (dm_DeviceID m)) (TrimSpace (dm_UserID m))) (ClaimDevice env now m)"
  unfolding ClaimDevice_def Let_def
proof (intro changes_if changes_fail RunIdempotent_changes rotates_refl)
  fix d :: "onb_tables db" and v d' rec t'
  assume "claim_mutation env (trim_mutation m) d = (Inr v, d')" "insert_record rec (tables d') = Some ((), t')"
  moreover from this(2) have "credential_rows t' = credential_rows (tables d')"
    by (auto simp: insert_record_def split: if_splits)
  ultimately show "rotates (TrimSpace (dm_DeviceID m)) (TrimSpace (dm_UserID m)) (tables d) t'"
    using claim_mutation_rotates rotates_then_frame by (fastforce simp: trim_mutation_def)
qed

lemma readonly_delivery: "readonly (Device_Claim_Delivery now user i)"
  unfolding Device_Claim_Delivery_def by (intro readonly_bind readonly_query readonly_option readonly_if) auto

lemma claim_rotates:
  "changes (\<lambda>_. True) (rotates (TrimSpace dev) (TrimSpace user)) (claim sha256 box env clock draws user dev boot key)"
proof -
  have "changes (\<lambda>_. True) (rotates (TrimSpace dev) (TrimSpace user)) (ClaimDevice env now (claim_dm sha256 box e user dev boot key raw i nonce))"
    for now e raw i nonce
    using ClaimDevice_rotates [of "claim_dm sha256 box e user dev boot key raw i nonce"] by (simp add: claim_dm_def)
  then show ?thesis
    unfolding claim_def
    by (auto split: prod.splits option.splits intro!: changes_fail changes_bind_first
        readonly_bind readonly_delivery readonly_option)
qed

lemma handleClaim_rotates:
  assumes "handleClaim sha256 box env clock draws authorize hdr key body (a, d) = (reply, a', d')"
  shows "tables d' = tables d \<or> (\<exists>device0 boot0 token user. body = Some (device0, boot0) \<and> bearerToken hdr = Some token
      \<and> authorize token (TrimSpace boot0) (TrimSpace device0) a = (Some user, a')
      \<and> rotates (TrimSpace device0) (TrimSpace user) (tables d) (tables d'))"
proof -
  have "rotates (TrimSpace v) (TrimSpace u) (tables d) (tables (snd (claim sha256 box env clock draws u v w k d)))" for u v w k
    using changesD [OF claim_rotates] by (metis prod.collapse)
  note c = this [of "TrimSpace _"]
  show ?thesis using assms c
    by (auto simp: handleClaim_def Let_def split: option.splits prod.splits if_splits sum.splits) (metis snd_conv)+
qed

lemma handleClaim_owners:
  "handleClaim sha256 box env clock draws authorize hdr key body (a, d) = (reply, a', d') \<Longrightarrow> keeps_owners (tables d) (tables d')"
  using handleClaim_rotates by (fastforce simp: rotates_def)

lemma RevokeDevice_owners: "changes (\<lambda>_. True) keeps_owners (RevokeDevice now dev)"
  unfolding RevokeDevice_def
  by (intro changes_bind_first changes_stmt) (auto intro: update_credentials_owners)

text \<open>
  Runs of the claim endpoint by any callers, with revocations and failures of the database in between.
\<close>

inductive claim_run ::
    "(string \<Rightarrow> string) \<Rightarrow> aead \<Rightarrow> (string \<Rightarrow> string \<Rightarrow> string \<Rightarrow> 'a \<Rightarrow> string option \<times> 'a) \<Rightarrow> onb_tables db \<Rightarrow> onb_tables db \<Rightarrow> bool"
  for sha256 box authorize d0 where
  start: "claim_run sha256 box authorize d0 d0"
| failures: "claim_run sha256 box authorize d0 d \<Longrightarrow> claim_run sha256 box authorize d0 (d\<lparr>faults := fs\<rparr>)"
| claimed: "claim_run sha256 box authorize d0 d \<Longrightarrow>
    handleClaim sha256 box env clock draws authorize hdr key body (a, d) = (reply, a', d') \<Longrightarrow> claim_run sha256 box authorize d0 d'"
| revoked: "claim_run sha256 box authorize d0 d \<Longrightarrow> claim_run sha256 box authorize d0 (snd (RevokeDevice now dev d))"

lemma claim_run_owners: "claim_run sha256 box authorize d0 d \<Longrightarrow> keeps_owners (tables d0) (tables d)"
proof (induction rule: claim_run.induct)
  case (claimed d env clock draws hdr key body a reply a' d')
  show ?case by (rule keeps_owners_trans [OF claimed.IH handleClaim_owners [OF claimed.hyps(2)]])
next
  case (revoked d now dev)
  have "keeps_owners (tables d) (tables (snd (RevokeDevice now dev d)))"
    using changesD [OF RevokeDevice_owners] by (metis prod.collapse)
  then show ?case by (rule keeps_owners_trans [OF revoked.IH])
qed simp_all

section \<open>Delivered credentials\<close>

lemma rotate_or_insert_row:
  assumes "rotate_or_insert env m d = (Inr v, d')"
  shows "\<exists>r. find_credential (dm_DeviceID m) (tables d') = Some r \<and> dc_user_id r = dm_UserID m
    \<and> token_sha256 r = dm_CredentialHash m \<and> dc_status r = ''active''"
proof (cases "find_credential (dm_DeviceID m) (tables d)")
  case None
  then have "dm_DeviceID m \<notin> dc_device_id ` set (credential_rows (tables d))"
    by (auto simp: find_credential_def find_None_iff)
  then show ?thesis using assms None
    by (auto simp: rotate_or_insert_def tx_Inr insert_credential_def find_credential_def find_append split: if_splits)
next
  case (Some r)
  let ?g = "\<lambda>x. x\<lparr>token_sha256 := dm_CredentialHash m, dc_status := ''active'', dc_rotated_at := tx_now env\<rparr>"
  let ?P = "\<lambda>x. dc_device_id x = dm_DeviceID m \<and> dc_user_id x = dm_UserID m"
  have r: "dc_user_id r = dm_UserID m" "dc_device_id r = dm_DeviceID m"
    and rows: "credential_rows (tables d') = update_where ?P ?g (credential_rows (tables d))"
    using assms Some
    by (auto simp: rotate_or_insert_def tx_Inr update_credentials_def find_credential_def split: if_splits dest: find_Some_in_set)
  have "find_credential (dm_DeviceID m) (tables d') = Some (?g r)"
    using Some r unfolding find_credential_def rows by (subst find_update_where) auto
  then show ?thesis using r by simp
qed

lemma claim_mutation_effect:
  assumes "claim_mutation env m d = (Inr v, d')"
  shows "dco_DeliveryID v = dm_DeliveryID m
    \<and> (\<exists>r. find_credential (dm_DeviceID m) (tables d') = Some r \<and> dc_user_id r = dm_UserID m
        \<and> token_sha256 r = dm_CredentialHash m \<and> dc_status r = ''active'')
    \<and> find (\<lambda>x. dl_delivery_id x = dm_DeliveryID m \<and> dl_user_id x = dm_UserID m) (device_claim_deliveries (tables d'))
      = Some \<lparr>dl_delivery_id = dm_DeliveryID m, dl_device_id = dm_DeviceID m,
          dl_user_id = dm_UserID m, credential_ciphertext = dm_CredentialCiphertext m,
          credential_nonce = dm_CredentialNonce m, dl_expires_at = pg_ts (dm_ExpiresAt m), completed_at = None\<rparr>"
proof -
  let ?row = "\<lparr>dl_delivery_id = dm_DeliveryID m, dl_device_id = dm_DeviceID m,
          dl_user_id = dm_UserID m, credential_ciphertext = dm_CredentialCiphertext m,
          credential_nonce = dm_CredentialNonce m, dl_expires_at = pg_ts (dm_ExpiresAt m), completed_at = None\<rparr>"
  obtain d1 where run: "rotate_or_insert env m d = (Inr (), d1)" and ins: "insert_delivery ?row (tables d1) = Some ((), tables d')"
    and v: "dco_DeliveryID v = dm_DeliveryID m"
    using assms by (auto simp: claim_mutation_def tx_Inr)
  have rows: "credential_rows (tables d') = credential_rows (tables d1)"
    "device_claim_deliveries (tables d') = device_claim_deliveries (tables d1) @ [?row]"
    and new: "dm_DeliveryID m \<notin> dl_delivery_id ` set (device_claim_deliveries (tables d1))"
    using ins by (auto simp: insert_delivery_def split: if_splits dest: sym)
  have "find (\<lambda>x. dl_delivery_id x = dm_DeliveryID m \<and> dl_user_id x = dm_UserID m) (device_claim_deliveries (tables d1)) = None"
    using new unfolding find_None_iff by (metis image_eqI)
  then show ?thesis
    using rotate_or_insert_row [OF run] rows v by (simp add: find_append find_credential_def)
qed

text \<open>A claim that is no replay: its mutation ran, and its effects are in the tables.\<close>

lemma ClaimDevice_fresh:
  assumes "ClaimDevice env now mu d = (Inr out, d')" "\<not> Replayed out"
  shows "\<exists>r. dco_DeliveryID (outcome out) = dm_DeliveryID (trim_mutation mu)
    \<and> find_credential (dm_DeviceID (trim_mutation mu)) (tables d') = Some r \<and> dc_user_id r = dm_UserID (trim_mutation mu)
    \<and> token_sha256 r = dm_CredentialHash (trim_mutation mu) \<and> dc_status r = ''active''
    \<and> find (\<lambda>x. dl_delivery_id x = dm_DeliveryID (trim_mutation mu) \<and> dl_user_id x = dm_UserID (trim_mutation mu))
        (device_claim_deliveries (tables d'))
      = Some \<lparr>dl_delivery_id = dm_DeliveryID (trim_mutation mu), dl_device_id = dm_DeviceID (trim_mutation mu),
          dl_user_id = dm_UserID (trim_mutation mu), credential_ciphertext = dm_CredentialCiphertext mu,
          credential_nonce = dm_CredentialNonce mu, dl_expires_at = pg_ts (dm_ExpiresAt mu), completed_at = None\<rparr>"
proof -
  have "RunIdempotent (claim_request (trim_mutation mu)) id (go_now env) (claim_mutation env (trim_mutation mu)) d = (Inr out, d')"
    using assms(1) by (auto simp: ClaimDevice_def Let_def tx_Inr split: if_splits)
  then show ?thesis
  proof (cases rule: RunIdempotent_Inr)
    case replay
    then show ?thesis using assms(2) by simp
  next
    case (fresh v d1 d2)
    have same: "credential_rows (tables d') = credential_rows (tables d2)"
      "device_claim_deliveries (tables d') = device_claim_deliveries (tables d2)"
      using fresh(4) by (auto simp: insert_record_def split: if_splits dest: sym)
    show ?thesis
      using claim_mutation_effect [OF fresh(3)] fresh(5) by (auto simp: same find_credential_def trim_mutation_def)
  qed
qed

text \<open>The effect of the handler when it issues a credential that is no replay.\<close>

lemma handleClaim_fresh:
  assumes "handleClaim sha256 box env clock draws authorize hdr key (Some (device0, boot0)) (a, d) = (ClaimOK resp, a', d')"
    and "\<not> cl_Replayed resp"
  obtains token user r raw i nonce where "bearerToken hdr = Some token"
    "authorize token (TrimSpace boot0) (TrimSpace device0) a = (Some user, a')" "draws = (Some raw, Some i, Some nonce)"
    "find_credential (TrimSpace device0) (tables d') = Some r" "dc_user_id r = TrimSpace user"
    "token_sha256 r = hex_encode (sha256 raw)" "dc_status r = ''active''" "cl_DeviceID resp = TrimSpace device0"
    "Open box nonce (Seal box nonce raw (deliveryAAD user (TrimSpace device0) i)) (deliveryAAD user (TrimSpace device0) i)
       = Some (cl_DeviceCredential resp)"
proof -
  obtain token user where auth: "bearerToken hdr = Some token" "authorize token (TrimSpace boot0) (TrimSpace device0) a = (Some user, a')"
    and run: "claim sha256 box env clock draws user (TrimSpace device0) (TrimSpace boot0) (TrimSpace key) d = (Inr resp, d')"
    using assms(1) by (auto simp: handleClaim_def Let_def split: option.splits prod.splits if_splits sum.splits)
  obtain raw i nonce where draws: "draws = (Some raw, Some i, Some nonce)"
    using run by (auto simp: claim_def tx_Inr split: prod.splits option.splits)
  let ?mu = "claim_dm sha256 box (Add (clock 0) credentialDeliveryTTL) user (TrimSpace device0) (TrimSpace boot0) (TrimSpace key) raw i nonce"
  obtain out d1 delivery where c: "ClaimDevice env (clock 1) ?mu d = (Inr out, d1)"
    and del: "Device_Claim_Delivery (clock 2) user (dco_DeliveryID (outcome out)) d1 = (Inr delivery, d')"
    and opened: "Open box (credential_nonce delivery) (credential_ciphertext delivery)
        (deliveryAAD (dl_user_id delivery) (dl_device_id delivery) (dl_delivery_id delivery)) = Some (cl_DeviceCredential resp)"
    and resp: "cl_DeviceID resp = dl_device_id delivery" "cl_Replayed resp = Replayed out"
    using run by (auto simp: claim_def draws tx_Inr split: option.splits)
  have d': "tables d' = tables d1" by (rule readonlyD [OF readonly_delivery del])
  obtain r where out: "dco_DeliveryID (outcome out) = TrimSpace i"
    and r: "find_credential (TrimSpace device0) (tables d') = Some r" "dc_user_id r = TrimSpace user"
      "token_sha256 r = hex_encode (sha256 raw)" "dc_status r = ''active''"
    and row: "find (\<lambda>x. dl_delivery_id x = TrimSpace i \<and> dl_user_id x = TrimSpace user) (device_claim_deliveries (tables d1))
      = Some \<lparr>dl_delivery_id = TrimSpace i, dl_device_id = TrimSpace device0, dl_user_id = TrimSpace user,
          credential_ciphertext = Seal box nonce raw (deliveryAAD user (TrimSpace device0) i),
          credential_nonce = nonce, dl_expires_at = pg_ts (Add (clock 0) credentialDeliveryTTL), completed_at = None\<rparr>"
    using ClaimDevice_fresh [OF c] assms(2) resp(2) by (auto simp: trim_mutation_def claim_dm_def d')
  have "delivery = \<lparr>dl_delivery_id = TrimSpace i, dl_device_id = TrimSpace device0, dl_user_id = TrimSpace user,
          credential_ciphertext = Seal box nonce raw (deliveryAAD user (TrimSpace device0) i),
          credential_nonce = nonce, dl_expires_at = pg_ts (Add (clock 0) credentialDeliveryTTL), completed_at = None\<rparr>"
    using del row by (auto simp: Device_Claim_Delivery_def out tx_Inr split: if_splits)
  then show thesis
    using that [OF auth draws r] opened resp(1) by (simp add: deliveryAAD_def)
qed

section \<open>A concrete deployment\<close>

definition onb_sha :: "string \<Rightarrow> string" where "onb_sha s = take 32 (s @ replicate 32 (CHR ''0''))"

definition onb_box :: aead where
  "onb_box = \<lparr>Seal = (\<lambda>nonce text aad. CHR ''#'' # text), Open = (\<lambda>nonce c aad. Some (tl c))\<rparr>"

definition onb_admit :: "string \<Rightarrow> string \<Rightarrow> string \<Rightarrow> unit \<Rightarrow> string option \<times> unit" where
  "onb_admit token boot dev s = (if token = ''token-for-alice'' then Some ''alice'' else None, s)"

definition onb_row :: credential_row where
  "onb_row = \<lparr>dc_device_id = ''dev'', dc_user_id = ''alice'', dc_tenant_id = [], dc_plan = [],
     token_sha256 = hex_encode (onb_sha ''secret''), dc_status = ''active'', dc_created_at = 0, dc_rotated_at = 0\<rparr>"

definition onb_demo :: "onb_tables db" where
  "onb_demo = \<lparr>tables = empty_onb\<lparr>credential_rows := [onb_row]\<rparr>, faults = []\<rparr>"

definition onb_env :: pg_env where
  "onb_env = \<lparr>pg_less = string_less, gen_random_uuid = ''u'', gen_random_uuid2 = ''v'', tx_now = 0, clock_timestamp = 0, go_now = 0\<rparr>"

definition onb_draws :: "string option \<times> string option \<times> string option" where
  "onb_draws = (Some ''fresh-secret'', Some ''delivery-00000001'', Some ''nonce'')"

abbreviation onb_clock :: "nat \<Rightarrow> time" where "onb_clock \<equiv> (\<lambda>_. Minute)"

abbreviation onb_mu :: DeviceClaimMutation where
  "onb_mu \<equiv> claim_dm onb_sha onb_box (Add Minute credentialDeliveryTTL) ''alice'' ''dev'' ''boot'' ''key-00001''
     ''fresh-secret'' ''delivery-00000001'' ''nonce''"

lemma onb_graphic: "graphic ''alice''" "graphic ''dev''" "graphic ''boot''" "graphic ''key-00001''" "graphic ''delivery-00000001''"
  "graphic ''token-for-alice''" "graphic ''device.claim''"
  by (simp_all add: graphic_def)

lemmas onb_trim [simp] = onb_graphic [THEN TrimSpace_graphic]

lemma onb_sha_size: "length (onb_sha s) = sha256_size"
  by (simp add: onb_sha_def sha256_size_def)

lemma onb_bearer: "bearerToken ''Bearer token-for-alice'' = Some ''token-for-alice''"
proof -
  have "char_of (98 :: nat) = CHR ''b''" by code_simp
  then show ?thesis
    by (simp add: bearerToken_def Fields_def IsSpace_def ToLower_def lower_byte_def byte_in_def)
qed

lemma onb_trim_mu [simp]: "trim_mutation onb_mu = onb_mu"
  by (simp add: trim_mutation_def claim_dm_def)

lemma onb_within: "graphic s \<Longrightarrow> within low high s \<longleftrightarrow> low \<le> length s \<and> length s \<le> high"
  by (simp add: within_def RuneCountInString_def runes_graphic)

lemma onb_mutation:
  "\<exists>d2. claim_mutation onb_env onb_mu onb_demo = (Inr \<lparr>dco_DeliveryID = ''delivery-00000001'', dco_DeviceID = ''dev''\<rparr>, d2)
     \<and> faults d2 = [] \<and> idempotency_records (tables d2) = []"
proof -
  have "delivery_check \<lparr>dl_delivery_id = ''delivery-00000001'', dl_device_id = ''dev'', dl_user_id = ''alice'',
      credential_ciphertext = c, credential_nonce = n, dl_expires_at = e, completed_at = None\<rparr>" for c n e
    using onb_graphic by (simp add: delivery_check_def onb_within)
  then show ?thesis
    using sha256_check_hex [of onb_sha "''fresh-secret''"] onb_sha_size
    by (simp add: claim_mutation_def rotate_or_insert_def claim_dm_def onb_demo_def find_credential_def onb_row_def
        update_credentials_def rows_affected_def update_where_def insert_delivery_def empty_onb_def del: hex_encode_Cons)
qed

lemma onb_claim_device:
  "\<exists>d2. ClaimDevice onb_env Minute onb_mu onb_demo
     = (Inr \<lparr>outcome = \<lparr>dco_DeliveryID = ''delivery-00000001'', dco_DeviceID = ''dev''\<rparr>, Replayed = False\<rparr>, d2) \<and> faults d2 = []"
proof -
  obtain d2 where m: "claim_mutation onb_env onb_mu onb_demo = (Inr \<lparr>dco_DeliveryID = ''delivery-00000001'', dco_DeviceID = ''dev''\<rparr>, d2)"
    and d2: "faults d2 = []" "idempotency_records (tables d2) = []" using onb_mutation by blast
  have h: "length (claim_hash onb_sha ''dev'' ''boot'') = 64" "hex_decodes (claim_hash onb_sha ''dev'' ''boot'')"
    using HashValue_form [of onb_sha, OF onb_sha_size] by (auto simp: claim_hash_def)
  have "Request_Validate (request_trim (claim_request onb_mu)) = None"
    using h by (simp add: Request_Validate_def request_trim_def claim_request_def claim_dm_def sha256_hex_len_def)
  moreover have "find_record i (tables onb_demo) = None" "legacy_idempotency_reservations (tables onb_demo) = []" "faults onb_demo = []" for i
    by (simp_all add: find_record_def onb_demo_def empty_onb_def)
  ultimately have "\<exists>t'. RunIdempotent (claim_request onb_mu) id (go_now onb_env) (claim_mutation onb_env onb_mu) onb_demo
      = (Inr \<lparr>outcome = id \<lparr>dco_DeliveryID = ''delivery-00000001'', dco_DeviceID = ''dev''\<rparr>, Replayed = False\<rparr>, d2\<lparr>tables := t'\<rparr>)"
    using RunIdempotent_fresh_ok [where d = onb_demo and m = "claim_mutation onb_env onb_mu" and r = "claim_request onb_mu"
        and enc = id and c = "go_now onb_env", OF _ _ _ _ m d2(1)] d2(2) by (simp add: insert_record_def) blast
  then obtain t' where run: "RunIdempotent (claim_request onb_mu) id (go_now onb_env) (claim_mutation onb_env onb_mu) onb_demo
      = (Inr \<lparr>outcome = \<lparr>dco_DeliveryID = ''delivery-00000001'', dco_DeviceID = ''dev''\<rparr>, Replayed = False\<rparr>, d2\<lparr>tables := t'\<rparr>)"
    by auto
  have "ClaimDevice onb_env Minute onb_mu onb_demo = RunIdempotent (claim_request onb_mu) id (go_now onb_env) (claim_mutation onb_env onb_mu) onb_demo"
    using onb_sha_size [of "''fresh-secret''"] unfolding ClaimDevice_def onb_trim_mu Let_def
    by (simp add: claim_dm_def onb_box_def sha256_size_def After_def Add_def credentialDeliveryTTL_def Minute_def del: hex_encode_Cons)
  then show ?thesis using run d2 by simp
qed

lemma onb_claim:
  assumes "authorize ''token-for-alice'' ''boot'' ''dev'' a = (Some ''alice'', a')"
  shows "\<exists>resp d'. handleClaim onb_sha onb_box onb_env onb_clock onb_draws authorize ''Bearer token-for-alice'' ''key-00001'' (Some (''dev'', ''boot''))
      (a, onb_demo) = (ClaimOK resp, a', d') \<and> \<not> cl_Replayed resp \<and> faults d' = []"
proof -
  obtain d2 where c: "ClaimDevice onb_env Minute onb_mu onb_demo
     = (Inr \<lparr>outcome = \<lparr>dco_DeliveryID = ''delivery-00000001'', dco_DeviceID = ''dev''\<rparr>, Replayed = False\<rparr>, d2)" and d2: "faults d2 = []"
    using onb_claim_device by blast
  have row: "find (\<lambda>x. dl_delivery_id x = ''delivery-00000001'' \<and> dl_user_id x = ''alice'') (device_claim_deliveries (tables d2))
      = Some \<lparr>dl_delivery_id = ''delivery-00000001'', dl_device_id = ''dev'', dl_user_id = ''alice'',
          credential_ciphertext = ''#fresh-secret'', credential_nonce = ''nonce'',
          dl_expires_at = pg_ts (Add Minute credentialDeliveryTTL), completed_at = None\<rparr>"
    using ClaimDevice_fresh [OF c] by (auto simp: claim_dm_def trim_mutation_def onb_box_def)
  have "\<exists>resp. claim onb_sha onb_box onb_env onb_clock onb_draws ''alice'' ''dev'' ''boot'' ''key-00001'' onb_demo = (Inr resp, d2) \<and> \<not> cl_Replayed resp"
    using c row d2
    by (simp add: claim_def onb_draws_def Device_Claim_Delivery_def After_def Add_def credentialDeliveryTTL_def Minute_def pg_ts_def)
      (simp add: onb_box_def)
  then show ?thesis using d2 onb_bearer assms by (auto simp: handleClaim_def)
qed

section \<open>Properties\<close>

text \<open>
  C32: Claims never transfer a device. However many claims are made, by whomever the authorizer admits, with
  revocations and database failures in between, a device that has an owner keeps that owner. And whatever a
  further claim does, a stored credential it changes is that of the device it names, and the authorizer named
  the owner of this credential for the token of the claim: nobody else's claim touches it.
\<close>

theorem claim_never_transfers:
  assumes "claim_run sha256 box authorize d0 d" "find_credential dev (tables d0) = Some r0"
    "handleClaim sha256 box env clock draws authorize hdr key body (a, d) = (reply, a', d')"
  shows "\<exists>r r'. find_credential dev (tables d) = Some r \<and> find_credential dev (tables d') = Some r'
    \<and> dc_user_id r = dc_user_id r0 \<and> dc_user_id r' = dc_user_id r0
    \<and> (r' \<noteq> r \<longrightarrow> (\<exists>device0 boot0 token user. body = Some (device0, boot0) \<and> dev = TrimSpace device0
          \<and> bearerToken hdr = Some token \<and> authorize token (TrimSpace boot0) dev a = (Some user, a')
          \<and> TrimSpace user = dc_user_id r0))"
proof -
  obtain r where r: "find_credential dev (tables d) = Some r" "dc_user_id r = dc_user_id r0"
    using claim_run_owners [OF assms(1)] assms(2) by (auto simp: keeps_owners_def)
  obtain r' where r': "find_credential dev (tables d') = Some r'" "dc_user_id r' = dc_user_id r0"
    using handleClaim_owners [OF assms(3)] r unfolding keeps_owners_def by metis
  have "\<exists>device0 boot0 token user. body = Some (device0, boot0) \<and> dev = TrimSpace device0 \<and> bearerToken hdr = Some token
      \<and> authorize token (TrimSpace boot0) dev a = (Some user, a') \<and> TrimSpace user = dc_user_id r0" if "r' \<noteq> r"
  proof -
    have ne: "find_credential dev (tables d') \<noteq> Some r" "tables d' \<noteq> tables d" using that r r' by auto
    then obtain device0 boot0 token user where *: "body = Some (device0, boot0)" "bearerToken hdr = Some token"
        "authorize token (TrimSpace boot0) (TrimSpace device0) a = (Some user, a')"
        "rotates (TrimSpace device0) (TrimSpace user) (tables d) (tables d')"
      using handleClaim_rotates [OF assms(3)] by blast
    have "dev = TrimSpace device0 \<and> dc_user_id r = TrimSpace user" using *(4) r(1) ne(1) by (auto simp: rotates_def)
    with * r(2) show ?thesis by auto
  qed
  with r r' show ?thesis by blast
qed

theorem claim_never_transfers_witness:
  "\<exists>d' resp r'. handleClaim onb_sha onb_box onb_env onb_clock onb_draws onb_admit ''Bearer token-for-alice'' ''key-00001'' (Some (''dev'', ''boot''))
      ((), onb_demo) = (ClaimOK resp, (), d')
     \<and> find_credential ''dev'' (tables onb_demo) = Some onb_row \<and> find_credential ''dev'' (tables d') = Some r'
     \<and> r' \<noteq> onb_row \<and> dc_user_id r' = ''alice''"
proof -
  obtain resp d' where run: "handleClaim onb_sha onb_box onb_env onb_clock onb_draws onb_admit ''Bearer token-for-alice'' ''key-00001'' (Some (''dev'', ''boot''))
      ((), onb_demo) = (ClaimOK resp, (), d')" "\<not> cl_Replayed resp"
    using onb_claim [where authorize = onb_admit and a = "()" and a' = "()"] by (auto simp: onb_admit_def)
  have row: "find_credential ''dev'' (tables onb_demo) = Some onb_row" by (simp add: onb_demo_def onb_row_def find_credential_def)
  from claim_never_transfers [OF claim_run.start row run(1)]
  obtain r' where r': "find_credential ''dev'' (tables d') = Some r'" "dc_user_id r' = dc_user_id onb_row" by auto
  have "token_sha256 r' = hex_encode (onb_sha ''fresh-secret'')"
    using handleClaim_fresh [OF run] r'(1) by (force simp: onb_draws_def)
  moreover have "hex_encode (onb_sha ''fresh-secret'') \<noteq> hex_encode (onb_sha ''secret'')"
  proof -
    have "onb_sha ''fresh-secret'' \<noteq> onb_sha ''secret''" by (simp add: onb_sha_def)
    then show ?thesis by (metis hex_decode_encode option.inject)
  qed
  ultimately have "r' \<noteq> onb_row" by (auto simp: onb_row_def)
  then show ?thesis using run row r' by (auto simp: onb_row_def)
qed

text \<open>
  C33: The credential of a claim works. When the authenticated encryption opens what it sealed and the claim
  is answered with a credential that is not a replay, the credential is the secret drawn for this claim,
  and the device authenticates with it as belonging to the user whom the authorizer named.
\<close>

theorem claimed_credential_works:
  assumes "\<And>nonce text aad. Open box nonce (Seal box nonce text aad) aad = Some text"
    and "\<And>s. length (sha256 s) = sha256_size"
    and "handleClaim sha256 box env clock draws authorize hdr key (Some (device0, boot0)) (a, d) = (ClaimOK resp, a', d')"
    and "\<not> cl_Replayed resp" "faults d' = []"
  shows "cl_DeviceID resp = TrimSpace device0 \<and> fst draws = Some (cl_DeviceCredential resp)
    \<and> (\<exists>token user plan tenant. bearerToken hdr = Some token
        \<and> authorize token (TrimSpace boot0) (TrimSpace device0) a = (Some user, a')
        \<and> AuthenticateDevice sha256 device0 (cl_DeviceCredential resp) d'
            = (Inr (\<lparr>id_UserID = TrimSpace user, id_DeviceID = TrimSpace device0, id_TenantID = tenant, id_Plan = plan\<rparr>, True), d'))"
proof -
  from assms(3,4) obtain token user r raw i nonce where auth: "bearerToken hdr = Some token"
      "authorize token (TrimSpace boot0) (TrimSpace device0) a = (Some user, a')" and draws: "draws = (Some raw, Some i, Some nonce)"
    and r: "find_credential (TrimSpace device0) (tables d') = Some r" "dc_user_id r = TrimSpace user"
      "token_sha256 r = hex_encode (sha256 raw)" "dc_status r = ''active''" and dev: "cl_DeviceID resp = TrimSpace device0"
    and opened: "Open box nonce (Seal box nonce raw (deliveryAAD user (TrimSpace device0) i)) (deliveryAAD user (TrimSpace device0) i)
       = Some (cl_DeviceCredential resp)" by (rule handleClaim_fresh)
  have cred: "cl_DeviceCredential resp = raw" using opened assms(1) by simp
  have "AuthenticateDevice sha256 device0 raw d'
      = (Inr (\<lparr>id_UserID = TrimSpace user, id_DeviceID = TrimSpace device0, id_TenantID = dc_tenant_id r, id_Plan = dc_plan r\<rparr>, True), d')"
    using assms(2,5) r by (simp add: AuthenticateDevice_def Let_def)
  then show ?thesis using auth draws cred dev by simp
qed

theorem claimed_credential_works_witness:
  "\<exists>d' identity. AuthenticateDevice onb_sha ''dev'' ''fresh-secret'' d' = (Inr (identity, True), d') \<and> id_UserID identity = ''alice''"
proof -
  obtain resp d' where run: "handleClaim onb_sha onb_box onb_env onb_clock onb_draws onb_admit ''Bearer token-for-alice'' ''key-00001'' (Some (''dev'', ''boot''))
      ((), onb_demo) = (ClaimOK resp, (), d')" and new: "\<not> cl_Replayed resp" "faults d' = []" using onb_claim [where authorize = onb_admit and a = "()" and a' = "()"] by (auto simp: onb_admit_def)
  have "Open onb_box nonce (Seal onb_box nonce p aad) aad = Some p" for nonce p aad by (simp add: onb_box_def)
  from claimed_credential_works [OF this onb_sha_size run new]
  have "Some (cl_DeviceCredential resp) = Some ''fresh-secret'' \<and> (\<exists>plan tenant. AuthenticateDevice onb_sha ''dev'' (cl_DeviceCredential resp) d'
      = (Inr (\<lparr>id_UserID = ''alice'', id_DeviceID = ''dev'', id_TenantID = tenant, id_Plan = plan\<rparr>, True), d'))"
    by (simp add: onb_bearer onb_admit_def onb_draws_def)
  then obtain plan tenant where "AuthenticateDevice onb_sha ''dev'' ''fresh-secret'' d'
      = (Inr (\<lparr>id_UserID = ''alice'', id_DeviceID = ''dev'', id_TenantID = tenant, id_Plan = plan\<rparr>, True), d')" by auto
  then show ?thesis by (intro exI conjI) (assumption, simp)
qed

end
