(* ===== verification/Claim_Session.thy ===== *)
theory Claim_Session
  imports Pg_Tx
begin

text \<open>
  The claim sessions by which a new device gets an authorization from its owner without typing:
  the contract \<open>ClaimSessionStore\<close> and its two implementations, the in-memory one of
  \<open>internal/ownerauth/claim_session.go\<close> and the PostgreSQL one of \<open>internal/pgstore/claim_session.go\<close>.
  A session is created pending, approved or denied by an owner, and an approved session is consumed
  by the poll of the device, which mints the authorization; consumed sessions answer retries with the
  authorization they keep. Statuses are strings, as in the source.
\<close>

section \<open>Data\<close>

abbreviation ClaimSessionPending :: string where "ClaimSessionPending \<equiv> ''pending''"
abbreviation ClaimSessionApproved :: string where "ClaimSessionApproved \<equiv> ''approved''"
abbreviation ClaimSessionDenied :: string where "ClaimSessionDenied \<equiv> ''denied''"
abbreviation ClaimSessionExpired :: string where "ClaimSessionExpired \<equiv> ''expired''"
abbreviation ClaimSessionConsumed :: string where "ClaimSessionConsumed \<equiv> ''consumed''"

datatype claim_error =
  ErrSessionNotFound | ErrSessionExpired | ErrSessionNotPending | ErrSessionAlreadyApproved
| ErrSessionDenied | ErrInvalidClaim | ErrMint string

record ClaimSessionRecord =
  cs_SessionID :: string
  cs_DeviceID :: string
  cs_BootstrapID :: string
  cs_DeviceCodeHash :: string
  cs_UserCodeHash :: string
  cs_UserCodePlain :: string
  cs_OwnerUserID :: string
  cs_Status :: string
  cs_ClaimAuthorization :: string
  cs_ClaimAuthExpiresAt :: "time option"
  cs_ExpiresAt :: time
  cs_ApprovedAt :: "time option"
  cs_ConsumedAt :: "time option"
  cs_LastPollAt :: "time option"
  cs_PollCount :: int
  cs_CreatedAt :: time

datatype PollOutcomeStatus =
  PollOutcomePending | PollOutcomeApproved | PollOutcomeDenied | PollOutcomeExpired | PollOutcomeSlowDown

record PollOutcome =
  po_Status :: PollOutcomeStatus
  po_ClaimAuthorization :: string
  po_ExpiresAt :: time
  po_IntervalSeconds :: int

text \<open>The function that mints an authorization, called with the bootstrap, the device and the owner.\<close>

type_synonym mint = "string \<Rightarrow> string \<Rightarrow> string \<Rightarrow> claim_error + (string \<times> time)"

definition poll_outcome :: "PollOutcomeStatus \<Rightarrow> PollOutcome" where
  "poll_outcome st = \<lparr>po_Status = st, po_ClaimAuthorization = [], po_ExpiresAt = 0, po_IntervalSeconds = 0\<rparr>"

text \<open>
  \<open>int(d.Seconds())\<close>: the float is exact up to its last bit and the conversion truncates, which is the
  truncated quotient for every interval below \<open>2^22\<close> seconds; the server polls every 5 seconds.
\<close>

definition int_seconds :: "duration \<Rightarrow> int" where
  "int_seconds d = quot d Second"

definition HashSecret :: "(string \<Rightarrow> string) \<Rightarrow> string \<Rightarrow> string" where
  "HashSecret sha256_hex raw = sha256_hex (TrimSpace raw)"

section \<open>The in-memory store\<close>

record MemoryClaimSessionStore =
  sessions :: "string \<rightharpoonup> ClaimSessionRecord"
  byCode :: "string \<rightharpoonup> string"

definition NewMemoryClaimSessionStore :: MemoryClaimSessionStore where
  "NewMemoryClaimSessionStore = \<lparr>sessions = Map.empty, byCode = Map.empty\<rparr>"

type_synonym 'a mem_op = "MemoryClaimSessionStore \<Rightarrow> (claim_error failure + 'a) \<times> MemoryClaimSessionStore"

definition put_session :: "string \<Rightarrow> ClaimSessionRecord \<Rightarrow> MemoryClaimSessionStore \<Rightarrow> MemoryClaimSessionStore" where
  "put_session i r m = m\<lparr>sessions := (sessions m)(i \<mapsto> r)\<rparr>"

definition mem_CreateSession :: "ClaimSessionRecord \<Rightarrow> unit mem_op" where
  "mem_CreateSession session m =
     (if sessions m (cs_SessionID session) \<noteq> None then (Inl (Invalid ''session already exists''), m)
      else if byCode m (cs_DeviceCodeHash session) \<noteq> None
        then (Inl (Invalid ''device code hash collision''), m)
      else (Inr (), m\<lparr>sessions := (sessions m)(cs_SessionID session \<mapsto> session),
                      byCode := (byCode m)(cs_DeviceCodeHash session \<mapsto> cs_SessionID session)\<rparr>))"

definition mem_GetSessionByID :: "string \<Rightarrow> ClaimSessionRecord mem_op" where
  "mem_GetSessionByID sessionID m =
     (case sessions m sessionID of None \<Rightarrow> (Inl (App ErrSessionNotFound), m) | Some s \<Rightarrow> (Inr s, m))"

text \<open>The zero record that a missing key of a Go map reads as.\<close>

definition zero_session :: ClaimSessionRecord where
  "zero_session = \<lparr>cs_SessionID = [], cs_DeviceID = [], cs_BootstrapID = [], cs_DeviceCodeHash = [],
     cs_UserCodeHash = [], cs_UserCodePlain = [], cs_OwnerUserID = [], cs_Status = [],
     cs_ClaimAuthorization = [], cs_ClaimAuthExpiresAt = None, cs_ExpiresAt = 0, cs_ApprovedAt = None,
     cs_ConsumedAt = None, cs_LastPollAt = None, cs_PollCount = 0, cs_CreatedAt = 0\<rparr>"

definition session_at :: "string \<Rightarrow> MemoryClaimSessionStore \<Rightarrow> ClaimSessionRecord" where
  "session_at i m = (case sessions m i of None \<Rightarrow> zero_session | Some s \<Rightarrow> s)"

definition mem_GetSessionByDeviceCodeHash :: "string \<Rightarrow> ClaimSessionRecord mem_op" where
  "mem_GetSessionByDeviceCodeHash deviceCodeHash m =
     (case byCode m deviceCodeHash of
        None \<Rightarrow> (Inl (App ErrSessionNotFound), m)
      | Some i \<Rightarrow> (Inr (session_at i m), m))"

definition mem_ApproveSession :: "string \<Rightarrow> string \<Rightarrow> time \<Rightarrow> unit mem_op" where
  "mem_ApproveSession sessionID ownerUserID now m =
     (case sessions m sessionID of
        None \<Rightarrow> (Inl (App ErrSessionNotFound), m)
      | Some session \<Rightarrow>
        if \<not> After (cs_ExpiresAt session) now
          then (Inl (App ErrSessionExpired),
                put_session sessionID (session\<lparr>cs_Status := ClaimSessionExpired\<rparr>) m)
        else if cs_Status session = ClaimSessionApproved \<or> cs_Status session = ClaimSessionConsumed
          then (Inl (App ErrSessionAlreadyApproved), m)
        else if cs_Status session = ClaimSessionDenied then (Inl (App ErrSessionDenied), m)
        else if cs_Status session \<noteq> ClaimSessionPending then (Inl (App ErrSessionNotPending), m)
        else (Inr (), put_session sessionID
               (session\<lparr>cs_Status := ClaimSessionApproved, cs_OwnerUserID := TrimSpace ownerUserID,
                        cs_ApprovedAt := Some now\<rparr>) m))"

definition mem_DenySession :: "string \<Rightarrow> time \<Rightarrow> unit mem_op" where
  "mem_DenySession sessionID now m =
     (case sessions m sessionID of
        None \<Rightarrow> (Inl (App ErrSessionNotFound), m)
      | Some session \<Rightarrow>
        if \<not> After (cs_ExpiresAt session) now
          then (Inl (App ErrSessionExpired),
                put_session sessionID (session\<lparr>cs_Status := ClaimSessionExpired\<rparr>) m)
        else if cs_Status session \<noteq> ClaimSessionPending then (Inl (App ErrSessionNotPending), m)
        else (Inr (), put_session sessionID (session\<lparr>cs_Status := ClaimSessionDenied\<rparr>) m))"

definition polled :: "time \<Rightarrow> ClaimSessionRecord \<Rightarrow> ClaimSessionRecord" where
  "polled now s = s\<lparr>cs_LastPollAt := Some now, cs_PollCount := wrap64 (cs_PollCount s + 1)\<rparr>"

definition mem_PollSession :: "string \<Rightarrow> duration \<Rightarrow> time \<Rightarrow> mint \<Rightarrow> PollOutcome mem_op" where
  "mem_PollSession deviceCodeHash minInterval now mintAuthFn m =
     (case byCode m deviceCodeHash of
        None \<Rightarrow> (Inl (App ErrSessionNotFound), m)
      | Some sessionID \<Rightarrow>
        (let session = session_at sessionID m; session1 = polled now session in
         if cs_Status session \<noteq> ClaimSessionConsumed \<and> \<not> After (cs_ExpiresAt session) now
         then (Inr (poll_outcome PollOutcomeExpired),
               if cs_Status session = ClaimSessionPending \<or> cs_Status session = ClaimSessionApproved
               then put_session sessionID (session\<lparr>cs_Status := ClaimSessionExpired\<rparr>) m else m)
         else if (case cs_LastPollAt session of None \<Rightarrow> False | Some l \<Rightarrow> Sub now l < minInterval)
         then (Inr ((poll_outcome PollOutcomeSlowDown)\<lparr>po_IntervalSeconds := wrap64 (int_seconds minInterval * 2)\<rparr>),
               put_session sessionID session1 m)
         else if cs_Status session = ClaimSessionPending
         then (Inr ((poll_outcome PollOutcomePending)\<lparr>po_IntervalSeconds := int_seconds minInterval\<rparr>),
               put_session sessionID session1 m)
         else if cs_Status session = ClaimSessionDenied
         then (Inr (poll_outcome PollOutcomeDenied), put_session sessionID session1 m)
         else if cs_Status session = ClaimSessionApproved
         then (case mintAuthFn (cs_BootstrapID session) (cs_DeviceID session) (cs_OwnerUserID session) of
                 Inl e \<Rightarrow> (Inl (App e), put_session sessionID session1 m)
               | Inr (token, exp) \<Rightarrow>
                   (Inr ((poll_outcome PollOutcomeApproved)\<lparr>po_ClaimAuthorization := token, po_ExpiresAt := exp\<rparr>),
                    put_session sessionID
                      (session1\<lparr>cs_Status := ClaimSessionConsumed, cs_ConsumedAt := Some now,
                                cs_ClaimAuthorization := token, cs_ClaimAuthExpiresAt := Some exp\<rparr>) m))
         else if cs_Status session = ClaimSessionConsumed
         then (case cs_ClaimAuthExpiresAt session of
                 Some e \<Rightarrow>
                   if After e now \<and> cs_ClaimAuthorization session \<noteq> []
                   then (Inr ((poll_outcome PollOutcomeApproved)
                                \<lparr>po_ClaimAuthorization := cs_ClaimAuthorization session, po_ExpiresAt := e\<rparr>),
                         put_session sessionID session1 m)
                   else (Inr (poll_outcome PollOutcomeExpired), put_session sessionID session1 m)
               | None \<Rightarrow> (Inr (poll_outcome PollOutcomeExpired), put_session sessionID session1 m))
         else (Inr (poll_outcome PollOutcomeExpired), put_session sessionID session1 m)))"

text \<open>
  The loop over the sessions visits the keys of the map in an order of the runtime, which is an
  argument here.
\<close>

definition live_authorization :: "string \<Rightarrow> time \<Rightarrow> ClaimSessionRecord \<Rightarrow> bool" where
  "live_authorization raw now s \<longleftrightarrow> cs_Status s = ClaimSessionConsumed
     \<and> (case cs_ClaimAuthExpiresAt s of None \<Rightarrow> False | Some e \<Rightarrow> After e now)
     \<and> cs_ClaimAuthorization s = raw"

fun authorize_loop ::
    "string \<Rightarrow> string \<Rightarrow> string \<Rightarrow> time \<Rightarrow> ClaimSessionRecord list \<Rightarrow> claim_error failure + string" where
  "authorize_loop raw bootstrapID deviceID now [] = Inl (App ErrInvalidClaim)"
| "authorize_loop raw bootstrapID deviceID now (s # ss) =
     (if \<not> live_authorization raw now s then authorize_loop raw bootstrapID deviceID now ss
      else if cs_BootstrapID s \<noteq> bootstrapID \<or> cs_DeviceID s \<noteq> deviceID \<or> TrimSpace (cs_OwnerUserID s) = []
        then Inl (App ErrInvalidClaim)
      else Inr (cs_OwnerUserID s))"

definition mem_AuthorizeClaim ::
    "string list \<Rightarrow> string \<Rightarrow> string \<Rightarrow> string \<Rightarrow> time \<Rightarrow> string mem_op" where
  "mem_AuthorizeClaim order rawAuthorization bootstrapID deviceID now m =
     (let raw = TrimSpace rawAuthorization; b = TrimSpace bootstrapID; dev = TrimSpace deviceID in
      if raw = [] \<or> b = [] \<or> dev = [] then (Inl (App ErrInvalidClaim), m)
      else (authorize_loop raw b dev now (List.map_filter (sessions m) order), m))"

section \<open>The PostgreSQL store\<close>

text \<open>A row of \<open>device_claim_sessions\<close>; \<open>user_code_plain\<close> holds a prefix of the hash of the code.\<close>

record claim_row =
  session_id :: string
  device_id :: string
  bootstrap_id :: string
  device_code_hash :: string
  user_code_hash :: string
  user_code_plain :: string
  owner_user_id :: "string option"
  status :: string
  claim_authorization :: "string option"
  claim_auth_expires_at :: "time option"
  expires_at :: time
  approved_at :: "time option"
  consumed_at :: "time option"
  last_poll_at :: "time option"
  poll_count :: int
  created_at :: time

record claim_tables =
  device_claim_sessions :: "claim_row list"

type_synonym 'a claim_tx = "(claim_tables, claim_error, 'a) tx"

definition char_length :: "nat \<Rightarrow> nat \<Rightarrow> string \<Rightarrow> bool" where
  "char_length low high s \<longleftrightarrow> low \<le> RuneCountInString s \<and> RuneCountInString s \<le> high"

text \<open>The checks of the table.\<close>

definition claim_row_check :: "claim_row \<Rightarrow> bool" where
  "claim_row_check r \<longleftrightarrow> char_length 16 128 (session_id r) \<and> char_length 1 128 (device_id r)
     \<and> char_length 1 128 (bootstrap_id r) \<and> char_length 64 64 (device_code_hash r)
     \<and> char_length 64 64 (user_code_hash r) \<and> char_length 4 32 (user_code_plain r)
     \<and> (case owner_user_id r of None \<Rightarrow> True | Some w \<Rightarrow> char_length 1 256 w)
     \<and> status r \<in> {''pending'', ''approved'', ''denied'', ''expired'', ''consumed''}
     \<and> 0 \<le> poll_count r \<and> poll_count r \<le> 2147483647"

definition find_claim :: "(claim_row \<Rightarrow> bool) \<Rightarrow> claim_tables \<Rightarrow> claim_row option" where
  "find_claim P t = find P (device_claim_sessions t)"

definition insert_claim :: "claim_row \<Rightarrow> claim_tables \<Rightarrow> (unit \<times> claim_tables) option" where
  "insert_claim r t =
     (if \<not> claim_row_check r
         \<or> session_id r \<in> session_id ` set (device_claim_sessions t)
         \<or> device_code_hash r \<in> device_code_hash ` set (device_claim_sessions t) then None
      else Some ((), t\<lparr>device_claim_sessions := device_claim_sessions t @ [r]\<rparr>))"

text \<open>An update fails when a new row violates a check; otherwise it returns the number of rows.\<close>

definition update_claims ::
    "(claim_row \<Rightarrow> bool) \<Rightarrow> (claim_row \<Rightarrow> claim_row) \<Rightarrow> claim_tables \<Rightarrow> (nat \<times> claim_tables) option" where
  "update_claims P g t =
     (if \<exists>r \<in> set (device_claim_sessions t). P r \<and> \<not> claim_row_check (g r) then None
      else Some (rows_affected P (device_claim_sessions t),
                 t\<lparr>device_claim_sessions := update_where P g (device_claim_sessions t)\<rparr>))"

definition CreateClaimSession :: "time \<Rightarrow> ClaimSessionRecord \<Rightarrow> unit claim_tx" where
  "CreateClaimSession pg_now session =
     (let sid = TrimSpace (cs_SessionID session); dev = TrimSpace (cs_DeviceID session);
          boot = TrimSpace (cs_BootstrapID session); code = TrimSpace (cs_DeviceCodeHash session);
          user = TrimSpace (cs_UserCodeHash session) in
      if sid = [] \<or> dev = [] \<or> boot = [] \<or> length code \<noteq> 64 \<or> length user \<noteq> 64
      then tx_fail (Invalid ''invalid claim session record'')
      else stmt (insert_claim
        \<lparr>session_id = sid, device_id = dev, bootstrap_id = boot, device_code_hash = code,
         user_code_hash = user, user_code_plain = take 32 user, owner_user_id = None,
         status = (if cs_Status session = [] then ClaimSessionPending else cs_Status session),
         claim_authorization = None, claim_auth_expires_at = None, expires_at = pg_ts (cs_ExpiresAt session),
         approved_at = None, consumed_at = None, last_poll_at = None, poll_count = 0, created_at = pg_now\<rparr>))"

text \<open>The scan of a row, with the status that the reader derives from the clock.\<close>

definition scan_claim :: "time \<Rightarrow> claim_row \<Rightarrow> ClaimSessionRecord" where
  "scan_claim go_now r =
     \<lparr>cs_SessionID = session_id r, cs_DeviceID = device_id r, cs_BootstrapID = bootstrap_id r,
      cs_DeviceCodeHash = device_code_hash r, cs_UserCodeHash = user_code_hash r, cs_UserCodePlain = [],
      cs_OwnerUserID = (case owner_user_id r of None \<Rightarrow> [] | Some w \<Rightarrow> w),
      cs_Status = (if (status r = ClaimSessionPending \<or> status r = ClaimSessionApproved)
                      \<and> \<not> After (expires_at r) go_now then ClaimSessionExpired else status r),
      cs_ClaimAuthorization = (case claim_authorization r of None \<Rightarrow> [] | Some a \<Rightarrow> a),
      cs_ClaimAuthExpiresAt = claim_auth_expires_at r, cs_ExpiresAt = expires_at r,
      cs_ApprovedAt = approved_at r, cs_ConsumedAt = consumed_at r, cs_LastPollAt = last_poll_at r,
      cs_PollCount = poll_count r, cs_CreatedAt = created_at r\<rparr>"

definition GetClaimSessionByID :: "time \<Rightarrow> string \<Rightarrow> ClaimSessionRecord claim_tx" where
  "GetClaimSessionByID go_now sessionID =
     (let sid = TrimSpace sessionID in
      if sid = [] then tx_fail (App ErrSessionNotFound)
      else tx_bind (query (find_claim (\<lambda>r. session_id r = sid))) (\<lambda>row.
      case row of
        None \<Rightarrow> tx_fail (App ErrSessionNotFound)
      | Some r \<Rightarrow> tx_return (scan_claim go_now r)))"

definition GetClaimSessionByDeviceCodeHash :: "time \<Rightarrow> string \<Rightarrow> ClaimSessionRecord claim_tx" where
  "GetClaimSessionByDeviceCodeHash go_now deviceCodeHash =
     (let code = TrimSpace deviceCodeHash in
      if length code \<noteq> 64 then tx_fail (App ErrSessionNotFound)
      else tx_bind (query (find_claim (\<lambda>r. device_code_hash r = code))) (\<lambda>row.
      case row of
        None \<Rightarrow> tx_fail (App ErrSessionNotFound)
      | Some r \<Rightarrow> tx_return (scan_claim go_now r)))"

definition pending_claim :: "string \<Rightarrow> time \<Rightarrow> claim_row \<Rightarrow> bool" where
  "pending_claim sid now r \<longleftrightarrow> session_id r = sid \<and> status r = ''pending'' \<and> pg_ts now < expires_at r"

definition ApproveClaimSession :: "time \<Rightarrow> string \<Rightarrow> string \<Rightarrow> time \<Rightarrow> unit claim_tx" where
  "ApproveClaimSession go_now sessionID ownerUserID now =
     (let sid = TrimSpace sessionID; own = TrimSpace ownerUserID in
      if sid = [] \<or> own = [] then tx_fail (Invalid ''session_id and owner_user_id are required'')
      else tx_bind (stmt (update_claims (pending_claim sid now)
             (\<lambda>r. r\<lparr>status := ''approved'', owner_user_id := Some own, approved_at := Some (pg_ts now)\<rparr>))) (\<lambda>rows.
      if rows = 1 then tx_return ()
      else tx_bind (GetClaimSessionByID go_now sid) (\<lambda>current.
      if \<not> After (cs_ExpiresAt current) now then tx_fail (App ErrSessionExpired)
      else if cs_Status current = ClaimSessionApproved \<or> cs_Status current = ClaimSessionConsumed
        then tx_fail (App ErrSessionAlreadyApproved)
      else if cs_Status current = ClaimSessionDenied then tx_fail (App ErrSessionDenied)
      else tx_fail (App ErrSessionNotPending))))"

definition DenyClaimSession :: "time \<Rightarrow> string \<Rightarrow> time \<Rightarrow> unit claim_tx" where
  "DenyClaimSession go_now sessionID now =
     (let sid = TrimSpace sessionID in
      if sid = [] then tx_fail (Invalid ''session_id is required'')
      else tx_bind (stmt (update_claims (pending_claim sid now) (\<lambda>r. r\<lparr>status := ''denied''\<rparr>))) (\<lambda>rows.
      if rows = 1 then tx_return ()
      else tx_bind (GetClaimSessionByID go_now sid) (\<lambda>current.
      if \<not> After (cs_ExpiresAt current) now then tx_fail (App ErrSessionExpired)
      else tx_fail (App ErrSessionNotPending))))"

definition bump :: "time \<Rightarrow> claim_row \<Rightarrow> claim_row" where
  "bump now r = r\<lparr>last_poll_at := Some (pg_ts now), poll_count := poll_count r + 1\<rparr>"

definition update_claim :: "string \<Rightarrow> (claim_row \<Rightarrow> claim_row) \<Rightarrow> nat claim_tx" where
  "update_claim sid g = stmt (update_claims (\<lambda>r. session_id r = sid) g)"

definition poll_switch :: "claim_row \<Rightarrow> duration \<Rightarrow> time \<Rightarrow> mint \<Rightarrow> PollOutcome finish claim_tx" where
  "poll_switch r minInterval now mintAuthFn =
     (if status r = ''pending''
      then tx_return (Commit ((poll_outcome PollOutcomePending)\<lparr>po_IntervalSeconds := int_seconds minInterval\<rparr>))
      else if status r = ''denied'' then tx_return (Commit (poll_outcome PollOutcomeDenied))
      else if status r = ''approved''
      then (let own = (case owner_user_id r of None \<Rightarrow> [] | Some w \<Rightarrow> w) in
            if TrimSpace own = [] then tx_fail (App ErrInvalidClaim)
            else case mintAuthFn (bootstrap_id r) (device_id r) own of
                   Inl e \<Rightarrow> tx_fail (App e)
                 | Inr (token, tokenExp) \<Rightarrow>
                     tx_bind (stmt (update_claims (\<lambda>x. session_id x = session_id r \<and> status x = ''approved'')
                       (\<lambda>x. x\<lparr>status := ''consumed'', consumed_at := Some (pg_ts now),
                              claim_authorization := Some token, claim_auth_expires_at := Some (pg_ts tokenExp)\<rparr>)))
                     (\<lambda>_. tx_return (Commit ((poll_outcome PollOutcomeApproved)
                            \<lparr>po_ClaimAuthorization := token, po_ExpiresAt := tokenExp\<rparr>))))
      else if status r = ''consumed''
      then (case (claim_auth_expires_at r, claim_authorization r) of
              (Some e, Some a) \<Rightarrow>
                if After e now \<and> TrimSpace a \<noteq> []
                then tx_return (Commit ((poll_outcome PollOutcomeApproved)
                                          \<lparr>po_ClaimAuthorization := a, po_ExpiresAt := e\<rparr>))
                else tx_return (Commit (poll_outcome PollOutcomeExpired))
            | _ \<Rightarrow> tx_return (Commit (poll_outcome PollOutcomeExpired)))
      else tx_return (Commit (poll_outcome PollOutcomeExpired)))"

definition poll_row :: "claim_row \<Rightarrow> duration \<Rightarrow> time \<Rightarrow> mint \<Rightarrow> PollOutcome finish claim_tx" where
  "poll_row r minInterval now mintAuthFn =
     (if status r \<noteq> ''consumed'' \<and> \<not> After (expires_at r) now
      then if status r = ''pending'' \<or> status r = ''approved''
           then tx_bind (update_claim (session_id r) (\<lambda>x. (bump now x)\<lparr>status := ''expired''\<rparr>))
                  (\<lambda>_. tx_return (Commit (poll_outcome PollOutcomeExpired)))
           else tx_return (Return (poll_outcome PollOutcomeExpired))
      else if (case last_poll_at r of None \<Rightarrow> False | Some l \<Rightarrow> Sub now l < minInterval)
      then tx_bind (update_claim (session_id r) (bump now))
             (\<lambda>_. tx_return (Commit ((poll_outcome PollOutcomeSlowDown)
                    \<lparr>po_IntervalSeconds := wrap64 (int_seconds minInterval * 2)\<rparr>)))
      else tx_bind (update_claim (session_id r) (bump now)) (\<lambda>_. poll_switch r minInterval now mintAuthFn))"

definition PollClaimSession :: "string \<Rightarrow> duration \<Rightarrow> time \<Rightarrow> mint \<Rightarrow> PollOutcome claim_tx" where
  "PollClaimSession deviceCodeHash minInterval now mintAuthFn =
     (let code = TrimSpace deviceCodeHash in
      if length code \<noteq> 64 then tx_fail (App ErrSessionNotFound)
      else in_tx (tx_bind (query (find_claim (\<lambda>r. device_code_hash r = code))) (\<lambda>row.
      case row of
        None \<Rightarrow> tx_fail (App ErrSessionNotFound)
      | Some r \<Rightarrow> poll_row r minInterval now mintAuthFn)))"

definition AuthorizeClaimSession :: "string \<Rightarrow> string \<Rightarrow> string \<Rightarrow> time \<Rightarrow> string claim_tx" where
  "AuthorizeClaimSession rawAuthorization bootstrapID deviceID now =
     (let raw = TrimSpace rawAuthorization; b = TrimSpace bootstrapID; dev = TrimSpace deviceID in
      if raw = [] \<or> b = [] \<or> dev = [] then tx_fail (App ErrInvalidClaim)
      else tx_bind (query (find_claim (\<lambda>r. claim_authorization r = Some raw \<and> bootstrap_id r = b
             \<and> device_id r = dev \<and> status r = ''consumed'' \<and> owner_user_id r \<noteq> None
             \<and> (case claim_auth_expires_at r of None \<Rightarrow> False | Some e \<Rightarrow> pg_ts now < e)))) (\<lambda>row.
      case row of
        None \<Rightarrow> tx_fail (App ErrInvalidClaim)
      | Some r \<Rightarrow>
        (let own = TrimSpace (case owner_user_id r of None \<Rightarrow> [] | Some w \<Rightarrow> w) in
         if own = [] then tx_fail (App ErrInvalidClaim) else tx_return own)))"

end
