(* ===== verification/Owner_Auth.thy ===== *)
theory Owner_Auth
  imports Claim_Session Canonical_Json
begin

text \<open>
  The owner service of \<open>internal/ownerauth/service.go\<close>, \<open>claim_authorization.go\<close> and \<open>claim_code.go\<close>: logins with a
  one-time state, owner sessions with a CSRF secret, claim authorizations bound to a device, and human
  claim codes that a device redeems. The maps are guarded by a mutex. The completion of a login holds it twice, and
  asks the identity provider in between: it is cut there into \<open>take_login\<close> and \<open>finish_login\<close>, and the logins of
  \<open>Owner_Auth_Properties\<close> interleave the two parts with everything else. \<open>Logout\<close> and the minting of authorizations
  and codes also lock again after they have authenticated the caller; they are one step here, so a session that ends
  between the two is not followed. The other methods are one critical section. SHA-256, the parser of URLs and the answers of the identity provider are parameters; the
  random draws and the successive readings of the clock are arguments (\<open>clock k\<close> is the reading number
  \<open>k\<close> of a call).
\<close>

section \<open>State\<close>

datatype auth_error = Err_Unauthorized | Err_InvalidState | Err_InvalidClaim | Err_Other string

record OwnerSession =
  ow_UserID :: string
  ow_ExpiresAt :: time

record ClaimAuthorization =
  ca_UserID :: string
  ca_BootstrapID :: string
  ca_ExpiresAt :: time

record loginTransaction =
  Verifier :: string
  ReturnTo :: string
  lt_ExpiresAt :: time

record sessionRecord =
  sr_Session :: OwnerSession
  CSRFHash :: string

record claimCodeRedemption =
  redemptionKey :: string
  rawAuthorization :: string
  rd_claim :: ClaimAuthorization

record claimCodeAttemptWindow =
  started :: time
  count :: int

record MemoryClaimCodeStore =
  attempts :: "string \<rightharpoonup> claimCodeAttemptWindow"
  st_redemptions :: "string \<rightharpoonup> claimCodeRedemption"

record auth_state =
  logins :: "string \<rightharpoonup> loginTransaction"
  owner_sessions :: "string \<rightharpoonup> sessionRecord"
  claims :: "string \<rightharpoonup> ClaimAuthorization"
  local_redemptions :: "string \<rightharpoonup> claimCodeRedemption"
  code_store :: "MemoryClaimCodeStore option"

record auth_config =
  LoginTTL :: duration
  cfg_SessionTTL :: duration
  ClaimTTL :: duration
  sha256 :: "string \<Rightarrow> string"
  url_plain_path :: "string \<Rightarrow> bool"

type_synonym 'a auth_op = "auth_state \<Rightarrow> (auth_error + 'a) \<times> auth_state"

text \<open>The defaults that \<open>New\<close> gives to the lifetimes.\<close>

definition config_defaults :: "auth_config \<Rightarrow> auth_config" where
  "config_defaults c =
     c\<lparr>LoginTTL := if LoginTTL c \<le> 0 then 10 * Minute else LoginTTL c,
       cfg_SessionTTL := if cfg_SessionTTL c \<le> 0 then 720 * Minute else cfg_SessionTTL c,
       ClaimTTL := if ClaimTTL c \<le> 0 then 5 * Minute else ClaimTTL c\<rparr>"

definition new_auth_state :: "MemoryClaimCodeStore option \<Rightarrow> auth_state" where
  "new_auth_state cs = \<lparr>logins = Map.empty, owner_sessions = Map.empty, claims = Map.empty,
     local_redemptions = Map.empty, code_store = cs\<rparr>"

definition tokenKey :: "auth_config \<Rightarrow> string \<Rightarrow> string" where
  "tokenKey cfg raw = hex_encode (sha256 cfg raw)"

text \<open>Deleting the entries of a map that have expired.\<close>

definition unexpired :: "('v \<Rightarrow> time) \<Rightarrow> time \<Rightarrow> ('k \<rightharpoonup> 'v) \<Rightarrow> 'k \<rightharpoonup> 'v" where
  "unexpired ex now m = (\<lambda>k. case m k of None \<Rightarrow> None | Some v \<Rightarrow> if After (ex v) now then Some v else None)"

definition pruneLocked :: "time \<Rightarrow> auth_state \<Rightarrow> auth_state" where
  "pruneLocked now s =
     s\<lparr>logins := unexpired lt_ExpiresAt now (logins s),
       owner_sessions := unexpired (\<lambda>r. ow_ExpiresAt (sr_Session r)) now (owner_sessions s),
       claims := unexpired ca_ExpiresAt now (claims s)\<rparr>"

section \<open>Login\<close>

definition sanitizeReturnTo :: "auth_config \<Rightarrow> string \<Rightarrow> string" where
  "sanitizeReturnTo cfg raw0 =
     (let raw = TrimSpace raw0 in
      if raw = [] then []
      else if hd raw \<noteq> CHR ''/'' \<or> take 2 raw = ''//'' \<or> take 2 raw = [CHR ''/'', CHR 0x5C] then []
      else if list_ex (\<lambda>c. of_char c < (32::nat) \<or> of_char c = (127::nat) \<or> c = CHR 0x5C) raw then []
      else if \<not> url_plain_path cfg raw then []
      else raw)"

text \<open>\<open>BeginLoginWithReturnTo\<close>, up to the URL that carries the state and the challenge of the verifier.\<close>

definition BeginLoginWithReturnTo ::
    "auth_config \<Rightarrow> time \<Rightarrow> string \<Rightarrow> string option \<Rightarrow> string option \<Rightarrow> (string \<times> string) auth_op" where
  "BeginLoginWithReturnTo cfg now returnTo state_draw verifier_draw s =
     (case state_draw of None \<Rightarrow> (Inl (Err_Other ''random''), s) | Some state \<Rightarrow>
      case verifier_draw of None \<Rightarrow> (Inl (Err_Other ''random''), s) | Some verifier \<Rightarrow>
      (let s1 = pruneLocked now s in
       (Inr (state, verifier),
        s1\<lparr>logins := (logins s1)(state \<mapsto> \<lparr>Verifier = verifier, ReturnTo = sanitizeReturnTo cfg returnTo,
                                            lt_ExpiresAt = Add now (LoginTTL cfg)\<rparr>)\<rparr>)))"

text \<open>The subject that the identity provider names, as \<open>fetchSubject\<close> accepts it.\<close>

definition fetchSubject :: "(string \<Rightarrow> string option) \<Rightarrow> string \<Rightarrow> auth_error + string" where
  "fetchSubject userinfo accessToken =
     (case userinfo accessToken of
        None \<Rightarrow> Inl (Err_Other ''oidc userinfo'')
      | Some sub \<Rightarrow>
        (let sub = TrimSpace sub in
         if sub = [] \<or> length sub > 256 then Inl (Err_Other ''oidc userinfo missing valid sub'') else Inr sub))"

text \<open>
  \<open>CompleteLoginWithReturn\<close> up to the first unlock: the transaction of the state is looked up and deleted under the
  mutex, then its expiry is checked. The result is the trimmed code with the transaction.
\<close>

definition take_login :: "time \<Rightarrow> string \<Rightarrow> string \<Rightarrow> (string \<times> loginTransaction) auth_op" where
  "take_login now state0 code0 s =
     (let state = TrimSpace state0; code = TrimSpace code0 in
      if state = [] \<or> code = [] then (Inl Err_InvalidState, s)
      else
      (let txn = logins s state; s1 = s\<lparr>logins := (logins s)(state := None)\<rparr> in
       case txn of
         None \<Rightarrow> (Inl Err_InvalidState, s1)
       | Some t \<Rightarrow> if \<not> After (lt_ExpiresAt t) now then (Inl Err_InvalidState, s1) else (Inr (code, t), s1)))"

text \<open>The calls of the identity provider, without the mutex.\<close>

definition provider_subject ::
    "(string \<Rightarrow> string \<Rightarrow> string option) \<Rightarrow> (string \<Rightarrow> string option) \<Rightarrow> string \<Rightarrow> loginTransaction \<Rightarrow> auth_error + string" where
  "provider_subject exchangeCode userinfo code t =
     (case exchangeCode code (Verifier t) of
        None \<Rightarrow> Inl (Err_Other ''oauth token exchange'')
      | Some accessToken \<Rightarrow> fetchSubject userinfo accessToken)"

text \<open>The rest: the draws and, under the mutex again, the new session.\<close>

definition finish_login ::
    "auth_config \<Rightarrow> time \<Rightarrow> string \<Rightarrow> string \<Rightarrow> string option \<Rightarrow> string option
      \<Rightarrow> (string \<times> string \<times> OwnerSession \<times> string) auth_op" where
  "finish_login cfg now userID returnTo session_draw csrf_draw s =
     (case session_draw of None \<Rightarrow> (Inl (Err_Other ''random''), s) | Some rawSession \<Rightarrow>
      case csrf_draw of None \<Rightarrow> (Inl (Err_Other ''random''), s) | Some csrf \<Rightarrow>
      (let session = \<lparr>ow_UserID = userID, ow_ExpiresAt = Add now (cfg_SessionTTL cfg)\<rparr>;
           s1 = pruneLocked now s in
       (Inr (rawSession, csrf, session, returnTo),
        s1\<lparr>owner_sessions := (owner_sessions s1)(tokenKey cfg rawSession \<mapsto>
             \<lparr>sr_Session = session, CSRFHash = sha256 cfg csrf\<rparr>)\<rparr>)))"

definition CompleteLoginWithReturn ::
    "auth_config \<Rightarrow> (string \<Rightarrow> string \<Rightarrow> string option) \<Rightarrow> (string \<Rightarrow> string option) \<Rightarrow> time \<Rightarrow> string \<Rightarrow> string
      \<Rightarrow> string option \<Rightarrow> string option \<Rightarrow> (string \<times> string \<times> OwnerSession \<times> string) auth_op" where
  "CompleteLoginWithReturn cfg exchangeCode userinfo now state0 code0 session_draw csrf_draw s =
     (case take_login now state0 code0 s of
        (Inl e, s1) \<Rightarrow> (Inl e, s1)
      | (Inr (code, t), s1) \<Rightarrow>
        (case provider_subject exchangeCode userinfo code t of
           Inl e \<Rightarrow> (Inl e, s1)
         | Inr userID \<Rightarrow> finish_login cfg now userID (ReturnTo t) session_draw csrf_draw s1))"

section \<open>Sessions\<close>

definition authenticate :: "auth_config \<Rightarrow> time \<Rightarrow> string \<Rightarrow> string \<Rightarrow> bool \<Rightarrow> OwnerSession auth_op" where
  "authenticate cfg now rawSession csrf0 mutation s =
     (let raw = TrimSpace rawSession in
      if raw = [] then (Inl Err_Unauthorized, s)
      else
      (let key = tokenKey cfg raw in
       case owner_sessions s key of
         None \<Rightarrow> (Inl Err_Unauthorized, s)
       | Some r \<Rightarrow>
         if \<not> After (ow_ExpiresAt (sr_Session r)) now
         then (Inl Err_Unauthorized, s\<lparr>owner_sessions := (owner_sessions s)(key := None)\<rparr>)
         else if mutation
         then (let csrf = TrimSpace csrf0 in
               if csrf = [] then (Inl Err_Unauthorized, s)
               else if sha256 cfg csrf \<noteq> CSRFHash r then (Inl Err_Unauthorized, s)
               else (Inr (sr_Session r), s))
         else (Inr (sr_Session r), s)))"

definition Authenticate :: "auth_config \<Rightarrow> time \<Rightarrow> string \<Rightarrow> OwnerSession auth_op" where
  "Authenticate cfg now rawSession = authenticate cfg now rawSession [] False"

definition AuthenticateMutation :: "auth_config \<Rightarrow> time \<Rightarrow> string \<Rightarrow> string \<Rightarrow> OwnerSession auth_op" where
  "AuthenticateMutation cfg now rawSession csrf = authenticate cfg now rawSession csrf True"

definition Logout :: "auth_config \<Rightarrow> time \<Rightarrow> string \<Rightarrow> string \<Rightarrow> unit auth_op" where
  "Logout cfg now rawSession csrf s =
     (case AuthenticateMutation cfg now rawSession csrf s of
        (Inl e, s1) \<Rightarrow> (Inl e, s1)
      | (Inr _, s1) \<Rightarrow>
          (Inr (), s1\<lparr>owner_sessions := (owner_sessions s1)(tokenKey cfg rawSession := None)\<rparr>))"

section \<open>Claim authorizations\<close>

definition valid_ref :: "string \<Rightarrow> bool" where
  "valid_ref v \<longleftrightarrow> v \<noteq> [] \<and> length v \<le> 128"

definition MintClaimAuthorization ::
    "auth_config \<Rightarrow> (nat \<Rightarrow> time) \<Rightarrow> string \<Rightarrow> string \<Rightarrow> string \<Rightarrow> string option \<Rightarrow> (string \<times> ClaimAuthorization) auth_op" where
  "MintClaimAuthorization cfg clock rawSession csrf bootstrapID0 draw s =
     (case AuthenticateMutation cfg (clock 0) rawSession csrf s of
        (Inl e, s1) \<Rightarrow> (Inl e, s1)
      | (Inr session, s1) \<Rightarrow>
        (let bootstrapID = TrimSpace bootstrapID0 in
         if \<not> valid_ref bootstrapID
         then (Inl (Err_Other ''bootstrap_id required and must be <=128 bytes''), s1)
         else
         (case draw of
            None \<Rightarrow> (Inl (Err_Other ''random''), s1)
          | Some raw \<Rightarrow>
            (let claim = \<lparr>ca_UserID = ow_UserID session, ca_BootstrapID = bootstrapID,
                          ca_ExpiresAt = Add (clock 1) (ClaimTTL cfg)\<rparr>;
                 s2 = pruneLocked (clock 2) s1 in
             (Inr (raw, claim), s2\<lparr>claims := (claims s2)(tokenKey cfg raw \<mapsto> claim)\<rparr>)))))"

definition ConsumeClaimAuthorization :: "auth_config \<Rightarrow> time \<Rightarrow> string \<Rightarrow> ClaimAuthorization auth_op" where
  "ConsumeClaimAuthorization cfg now raw0 s =
     (let raw = TrimSpace raw0 in
      if raw = [] then (Inl Err_InvalidClaim, s)
      else
      (let key = tokenKey cfg raw; s1 = s\<lparr>claims := (claims s)(key := None)\<rparr> in
       case claims s key of
         None \<Rightarrow> (Inl Err_InvalidClaim, s1)
       | Some claim \<Rightarrow> if After (ca_ExpiresAt claim) now then (Inr claim, s1) else (Inl Err_InvalidClaim, s1)))"

definition AuthorizeClaimAuthorization :: "auth_config \<Rightarrow> time \<Rightarrow> string \<Rightarrow> ClaimAuthorization auth_op" where
  "AuthorizeClaimAuthorization cfg now raw0 s =
     (let raw = TrimSpace raw0 in
      if raw = [] then (Inl Err_InvalidClaim, s)
      else
      (let key = tokenKey cfg raw in
       case claims s key of
         None \<Rightarrow> (Inl Err_InvalidClaim, s)
       | Some claim \<Rightarrow>
         if After (ca_ExpiresAt claim) now then (Inr claim, s)
         else (Inl Err_InvalidClaim, s\<lparr>claims := (claims s)(key := None)\<rparr>)))"

definition claimBinding :: "auth_config \<Rightarrow> string \<Rightarrow> string \<Rightarrow> string" where
  "claimBinding cfg bootstrapID deviceID =
     hex_encode (sha256 cfg (''companion-device-claim-v1'' @ [CHR 0x00] @ bootstrapID @ [CHR 0x00] @ deviceID))"

definition MintBoundClaimAuthorization ::
    "auth_config \<Rightarrow> (nat \<Rightarrow> time) \<Rightarrow> string \<Rightarrow> string \<Rightarrow> string \<Rightarrow> string \<Rightarrow> string option
      \<Rightarrow> (string \<times> ClaimAuthorization) auth_op" where
  "MintBoundClaimAuthorization cfg clock rawSession csrf bootstrapID0 deviceID0 draw s =
     (let bootstrapID = TrimSpace bootstrapID0; deviceID = TrimSpace deviceID0 in
      if \<not> valid_ref bootstrapID \<or> \<not> valid_ref deviceID
      then (Inl (Err_Other ''bootstrap_id and device_id are required and must be <=128 bytes''), s)
      else MintClaimAuthorization cfg clock rawSession csrf (claimBinding cfg bootstrapID deviceID) draw s)"

text \<open>The claim-session store is asked when no process-local authorization matches.\<close>

definition AuthorizeDeviceClaim ::
    "auth_config \<Rightarrow> (nat \<Rightarrow> time) \<Rightarrow> (string \<Rightarrow> string \<Rightarrow> string \<Rightarrow> time \<Rightarrow> claim_error failure + string)
      \<Rightarrow> string \<Rightarrow> string \<Rightarrow> string \<Rightarrow> string auth_op" where
  "AuthorizeDeviceClaim cfg clock store_authorize raw bootstrapID0 deviceID0 s =
     (let bootstrapID = TrimSpace bootstrapID0; deviceID = TrimSpace deviceID0 in
      if bootstrapID = [] \<or> deviceID = [] then (Inl Err_InvalidClaim, s)
      else
      (case AuthorizeClaimAuthorization cfg (clock 0) raw s of
         (Inr claim, s1) \<Rightarrow>
           if ca_BootstrapID claim \<noteq> claimBinding cfg bootstrapID deviceID then (Inl Err_InvalidClaim, s1)
           else (Inr (ca_UserID claim), s1)
       | (Inl _, s1) \<Rightarrow>
           (case store_authorize raw bootstrapID deviceID (clock 1) of
              Inl _ \<Rightarrow> (Inl Err_InvalidClaim, s1)
            | Inr ownerUserID \<Rightarrow>
                if TrimSpace ownerUserID = [] then (Inl Err_InvalidClaim, s1) else (Inr ownerUserID, s1))))"

section \<open>Human claim codes\<close>

definition humanClaimCodeAlphabet :: string where
  "humanClaimCodeAlphabet = ''ABCDEFGHJKLMNPQRSTUVWXYZ23456789''"

definition humanClaimCodeLength :: nat where "humanClaimCodeLength = 10"
definition claimCodeAttemptsPerMinute :: int where "claimCodeAttemptsPerMinute = 6"
definition humanClaimMarker :: string where "humanClaimMarker = ''human-code:''"

text \<open>
  \<open>strings.ToUpper\<close> on runes, as far as the result can be an ASCII rune: besides the ASCII letters, the dotless
  i and the long s have ASCII capitals. Every other rune stays outside ASCII.
\<close>

definition upper_rune :: "nat \<Rightarrow> nat" where
  "upper_rune r = (if 97 \<le> r \<and> r \<le> 122 then r - 32 else if r = 305 then 73 else if r = 383 then 83 else r)"

definition code_rune :: "nat \<Rightarrow> bool" where
  "code_rune r \<longleftrightarrow> r \<in> of_char ` set humanClaimCodeAlphabet"

fun normalize_loop :: "nat list \<Rightarrow> string option" where
  "normalize_loop [] = Some []"
| "normalize_loop (r # rs) =
     (if r \<in> {45, 32, 9, 10, 13} then normalize_loop rs
      else if \<not> code_rune r then None
      else map_option (\<lambda>t. char_of r # t) (normalize_loop rs))"

definition normalizeHumanClaimCode :: "string \<Rightarrow> string" where
  "normalizeHumanClaimCode raw =
     (case normalize_loop (map (\<lambda>rb. upper_rune (fst rb)) (runes (TrimSpace raw))) of
        None \<Rightarrow> []
      | Some b \<Rightarrow> if length b \<noteq> humanClaimCodeLength then [] else b)"

definition displayHumanClaimCode :: "string \<Rightarrow> string" where
  "displayHumanClaimCode normalized =
     (if length normalized \<noteq> humanClaimCodeLength then normalized
      else take 5 normalized @ ''-'' @ drop 5 normalized)"

text \<open>A code from ten random bytes; \<open>int(value) & 31\<close> is the remainder modulo 32.\<close>

definition randomHumanClaimCode :: "nat list \<Rightarrow> string" where
  "randomHumanClaimCode random = map (\<lambda>v. humanClaimCodeAlphabet ! (v mod 32)) random"

definition humanClaimTTL :: "auth_config \<Rightarrow> duration" where
  "humanClaimTTL cfg = (if ClaimTTL cfg > 0 then ClaimTTL cfg else 5 * Minute)"

fun mint_code_loop ::
    "auth_config \<Rightarrow> time \<Rightarrow> ClaimAuthorization \<Rightarrow> nat list option list \<Rightarrow> (string \<times> ClaimAuthorization) auth_op" where
  "mint_code_loop cfg now claim [] s = (Inl Err_InvalidClaim, s)"
| "mint_code_loop cfg now claim (None # ds) s = (Inl (Err_Other ''random''), s)"
| "mint_code_loop cfg now claim (Some random # ds) s =
     (let code = randomHumanClaimCode random; key = tokenKey cfg code; s1 = pruneLocked now s in
      if claims s1 key = None
      then (Inr (displayHumanClaimCode code, claim), s1\<lparr>claims := (claims s1)(key \<mapsto> claim)\<rparr>)
      else mint_code_loop cfg now claim ds s1)"

definition MintBoundHumanClaimCode ::
    "auth_config \<Rightarrow> (nat \<Rightarrow> time) \<Rightarrow> string \<Rightarrow> string \<Rightarrow> string \<Rightarrow> string \<Rightarrow> (nat \<Rightarrow> nat list option)
      \<Rightarrow> (string \<times> ClaimAuthorization) auth_op" where
  "MintBoundHumanClaimCode cfg clock rawSession csrf bootstrapID0 deviceID0 draws s =
     (case AuthenticateMutation cfg (clock 0) rawSession csrf s of
        (Inl e, s1) \<Rightarrow> (Inl e, s1)
      | (Inr session, s1) \<Rightarrow>
        (let bootstrapID = TrimSpace bootstrapID0; deviceID = TrimSpace deviceID0 in
         if \<not> valid_ref bootstrapID \<or> \<not> valid_ref deviceID then (Inl Err_InvalidClaim, s1)
         else
         (let claim = \<lparr>ca_UserID = ow_UserID session,
                       ca_BootstrapID = humanClaimMarker @ claimBinding cfg bootstrapID deviceID,
                       ca_ExpiresAt = Add (clock 1) (humanClaimTTL cfg)\<rparr> in
          mint_code_loop cfg (clock 1) claim (map draws [0..<4]) s1)))"

subsection \<open>The in-memory code store\<close>

definition NewMemoryClaimCodeStore :: MemoryClaimCodeStore where
  "NewMemoryClaimCodeStore = \<lparr>attempts = Map.empty, st_redemptions = Map.empty\<rparr>"

definition prune_windows :: "duration \<Rightarrow> time \<Rightarrow> (string \<rightharpoonup> claimCodeAttemptWindow) \<Rightarrow> string \<rightharpoonup> claimCodeAttemptWindow" where
  "prune_windows window now m =
     (\<lambda>k. case m k of None \<Rightarrow> None | Some w \<Rightarrow> if Sub now (started w) \<ge> window then None else Some w)"

definition mem_AllowAttempt ::
    "time \<Rightarrow> string \<Rightarrow> int \<Rightarrow> duration \<Rightarrow> MemoryClaimCodeStore \<Rightarrow> bool \<times> MemoryClaimCodeStore" where
  "mem_AllowAttempt now host limit window m =
     (let as = prune_windows window now (attempts m);
          w = (case as host of None \<Rightarrow> \<lparr>started = 0, count = 0\<rparr> | Some w \<Rightarrow> w) in
      if IsZero (started w) \<or> Sub now (started w) \<ge> window
      then (True, m\<lparr>attempts := as(host \<mapsto> \<lparr>started = now, count = 1\<rparr>)\<rparr>)
      else if count w \<ge> limit then (False, m\<lparr>attempts := as\<rparr>)
      else (True, m\<lparr>attempts := as(host \<mapsto> w\<lparr>count := count w + 1\<rparr>)\<rparr>))"

definition redemption_hit :: "string \<Rightarrow> string \<Rightarrow> claimCodeRedemption option \<Rightarrow> (string \<times> ClaimAuthorization) option" where
  "redemption_hit binding key e =
     (case e of
        None \<Rightarrow> None
      | Some x \<Rightarrow> if ca_BootstrapID (rd_claim x) \<noteq> binding \<or> redemptionKey x \<noteq> key then None
                 else Some (rawAuthorization x, rd_claim x))"

definition mem_GetRedemption ::
    "time \<Rightarrow> string \<Rightarrow> string \<Rightarrow> string \<Rightarrow> MemoryClaimCodeStore \<Rightarrow> (string \<times> ClaimAuthorization) option \<times> MemoryClaimCodeStore" where
  "mem_GetRedemption now codeKey binding key m =
     (let rs = unexpired (\<lambda>e. ca_ExpiresAt (rd_claim e)) now (st_redemptions m) in
      (redemption_hit binding key (rs codeKey), m\<lparr>st_redemptions := rs\<rparr>))"

definition mem_PutRedemption ::
    "string \<Rightarrow> string \<Rightarrow> string \<Rightarrow> ClaimAuthorization \<Rightarrow> MemoryClaimCodeStore \<Rightarrow> MemoryClaimCodeStore" where
  "mem_PutRedemption codeKey key raw claim m =
     m\<lparr>st_redemptions := (st_redemptions m)(codeKey \<mapsto>
        \<lparr>redemptionKey = key, rawAuthorization = raw, rd_claim = claim\<rparr>)\<rparr>"

subsection \<open>Redeeming a code\<close>

definition redemptionReplay ::
    "auth_config \<Rightarrow> time \<Rightarrow> string \<Rightarrow> string \<Rightarrow> string \<Rightarrow> time \<Rightarrow> auth_state
      \<Rightarrow> (string \<times> ClaimAuthorization) option \<times> auth_state" where
  "redemptionReplay cfg store_now codeKey binding redemptionID now s =
     (let (hit, s1) =
        (case code_store s of
           None \<Rightarrow> (None, s)
         | Some m \<Rightarrow> (let (h, m1) = mem_GetRedemption store_now codeKey binding (tokenKey cfg redemptionID) m
                     in (h, s\<lparr>code_store := Some m1\<rparr>))) in
      case hit of
        Some x \<Rightarrow> (Some x, s1)
      | None \<Rightarrow>
        (let rs = unexpired (\<lambda>e. ca_ExpiresAt (rd_claim e)) now (local_redemptions s1) in
         (redemption_hit binding (tokenKey cfg redemptionID) (rs codeKey), s1\<lparr>local_redemptions := rs\<rparr>)))"

definition rememberRedemption ::
    "auth_config \<Rightarrow> string \<Rightarrow> string \<Rightarrow> string \<Rightarrow> ClaimAuthorization \<Rightarrow> auth_state \<Rightarrow> auth_state" where
  "rememberRedemption cfg codeKey redemptionID raw claim s =
     s\<lparr>code_store := map_option (mem_PutRedemption codeKey (tokenKey cfg redemptionID) raw claim) (code_store s),
       local_redemptions := (local_redemptions s)(codeKey \<mapsto>
         \<lparr>redemptionKey = tokenKey cfg redemptionID, rawAuthorization = raw, rd_claim = claim\<rparr>)\<rparr>"

definition RedeemBoundHumanClaimCode ::
    "auth_config \<Rightarrow> (nat \<Rightarrow> time) \<Rightarrow> string \<Rightarrow> string \<Rightarrow> string \<Rightarrow> string \<Rightarrow> string option
      \<Rightarrow> (string \<times> ClaimAuthorization) auth_op" where
  "RedeemBoundHumanClaimCode cfg clock rawCode bootstrapID0 deviceID0 redemptionID0 draw s =
     (let code = normalizeHumanClaimCode rawCode; bootstrapID = TrimSpace bootstrapID0;
          deviceID = TrimSpace deviceID0; redemptionID = TrimSpace redemptionID0 in
      if code = [] \<or> \<not> valid_ref bootstrapID \<or> \<not> valid_ref deviceID \<or> length redemptionID < 8 \<or> length redemptionID > 128
      then (Inl Err_InvalidClaim, s)
      else
      (let key = tokenKey cfg code; binding = claimBinding cfg bootstrapID deviceID; now = clock 0 in
       case redemptionReplay cfg (clock 1) key binding redemptionID now s of
         (Some hit, s1) \<Rightarrow> (Inr hit, s1)
       | (None, s1) \<Rightarrow>
         (let found = claims s1 key;
              fresh = (case found of None \<Rightarrow> False | Some c \<Rightarrow> After (ca_ExpiresAt c) now);
              s2 = (if found \<noteq> None \<and> \<not> fresh then s1\<lparr>claims := (claims s1)(key := None)\<rparr> else s1) in
          case found of
            Some claim \<Rightarrow>
              if fresh \<and> ca_BootstrapID claim = humanClaimMarker @ binding
              then (case draw of
                      None \<Rightarrow> (Inl (Err_Other ''random''), s2)
                    | Some raw \<Rightarrow>
                      (let claim' = claim\<lparr>ca_BootstrapID := binding\<rparr>;
                           s3 = s2\<lparr>claims := ((claims s2)(key := None))(tokenKey cfg raw \<mapsto> claim')\<rparr> in
                       (Inr (raw, claim'), rememberRedemption cfg key redemptionID raw claim' s3)))
              else (case redemptionReplay cfg (clock 2) key binding redemptionID now s2 of
                      (Some hit, s3) \<Rightarrow> (Inr hit, s3)
                    | (None, s3) \<Rightarrow> (Inl Err_InvalidClaim, s3))
          | None \<Rightarrow>
              (case redemptionReplay cfg (clock 2) key binding redemptionID now s2 of
                 (Some hit, s3) \<Rightarrow> (Inr hit, s3)
               | (None, s3) \<Rightarrow> (Inl Err_InvalidClaim, s3)))))"

end
