(* ===== verification/Owner_Auth_Properties.thy ===== *)
theory Owner_Auth_Properties
  imports Owner_Auth
begin

text \<open>
  Properties of the owner service: one-time login states, who is authenticated, the binding of claim
  authorizations to a device, and the redemption of human claim codes.
\<close>

section \<open>An example\<close>

text \<open>One owner is logged in, one login is pending and one human code is waiting to be redeemed.\<close>

definition ex_config :: auth_config where
  "ex_config = \<lparr>LoginTTL = Minute, cfg_SessionTTL = Minute, ClaimTTL = Minute, sha256 = (\<lambda>s. s), url_plain_path = (\<lambda>_. True)\<rparr>"

definition ex_code :: string where "ex_code = ''ABCDEFGHJK''"

definition ex_claim :: ClaimAuthorization where
  "ex_claim = \<lparr>ca_UserID = ''alice'', ca_BootstrapID = humanClaimMarker @ claimBinding ex_config ''boot'' ''dev'', ca_ExpiresAt = 100\<rparr>"

definition ex_state :: auth_state where
  "ex_state = \<lparr>logins = [''state'' \<mapsto> \<lparr>Verifier = ''v'', ReturnTo = [], lt_ExpiresAt = 100\<rparr>],
     owner_sessions = [tokenKey ex_config ''raw'' \<mapsto>
       \<lparr>sr_Session = \<lparr>ow_UserID = ''alice'', ow_ExpiresAt = 100\<rparr>, CSRFHash = ''csrf''\<rparr>],
     claims = [tokenKey ex_config ex_code \<mapsto> ex_claim], local_redemptions = Map.empty, code_store = None\<rparr>"

lemma ex_graphic: "graphic ''raw''" "graphic ''csrf''" "graphic ''state''" "graphic ''code''" "graphic ''alice''"
  "graphic ''boot''" "graphic ''dev''" "graphic ''token''" "graphic ''redemption''" "graphic ''redemption2''" "graphic ex_code"
  by (simp_all add: graphic_def ex_code_def)

lemmas ex_trim [simp] = ex_graphic [THEN TrimSpace_graphic]

lemma ex_sha [simp]: "sha256 ex_config s = s"
  by (simp add: ex_config_def)

section \<open>Maps with expiry\<close>

lemmas complete_login_defs = CompleteLoginWithReturn_def take_login_def provider_subject_def

lemma unexpired_Some [simp]: "unexpired ex now m k = Some v \<longleftrightarrow> m k = Some v \<and> now < ex v"
  by (auto simp: unexpired_def After_def split: option.splits if_splits)

lemma unexpired_None: "m k = None \<Longrightarrow> unexpired ex now m k = None"
  by (simp add: unexpired_def)

lemma prune_simps [simp]:
  "logins (pruneLocked now s) = unexpired lt_ExpiresAt now (logins s)"
  "owner_sessions (pruneLocked now s) = unexpired (\<lambda>r. ow_ExpiresAt (sr_Session r)) now (owner_sessions s)"
  "claims (pruneLocked now s) = unexpired ca_ExpiresAt now (claims s)"
  "local_redemptions (pruneLocked now s) = local_redemptions s" "code_store (pruneLocked now s) = code_store s"
  by (simp_all add: pruneLocked_def)

section \<open>Logins\<close>

text \<open>
  Logins that overlap. A run interleaves the parts of the login calls: a login begins, a completion takes the
  transaction of its state, and a call that holds one asks the provider and then opens its session or gives
  up. Between them anything may happen that adds no login transaction. The calls in flight are a list of the state,
  the clock reading, the code and the transaction each of them took; the trace records what was done with which
  state and verifier.
\<close>

datatype login_event = Began string string | Opened string string

type_synonym login_call = "string \<times> time \<times> string \<times> loginTransaction"

definition login_quiet :: "auth_state \<Rightarrow> auth_state \<Rightarrow> bool" where
  "login_quiet s s' \<longleftrightarrow> logins s' \<subseteq>\<^sub>m logins s"

inductive login_run :: "auth_config \<Rightarrow> auth_state \<Rightarrow> login_call list \<Rightarrow> login_event list \<Rightarrow> bool" for cfg where
  start: "logins s = Map.empty \<Longrightarrow> login_run cfg s [] []"
| login_begin: "login_run cfg s calls tr \<Longrightarrow>
    BeginLoginWithReturnTo cfg now returnTo d1 d2 s = (Inr (state, verifier), s') \<Longrightarrow>
    login_run cfg s' calls (tr @ [Began state verifier])"
| login_take: "login_run cfg s calls tr \<Longrightarrow> take_login now state0 code0 s = (Inr (code, t), s') \<Longrightarrow>
    login_run cfg s' ((TrimSpace state0, now, code, t) # calls) tr"
| login_refused: "login_run cfg s calls tr \<Longrightarrow> take_login now state0 code0 s = (Inl e, s') \<Longrightarrow> login_run cfg s' calls tr"
| login_finish: "login_run cfg s (calls @ (state, now, code, t) # calls') tr \<Longrightarrow>
    provider_subject exchangeCode userinfo code t = Inr userID \<Longrightarrow>
    finish_login cfg now userID (ReturnTo t) d1 d2 s = (Inr session, s') \<Longrightarrow>
    login_run cfg s' (calls @ calls') (tr @ [Opened state (Verifier t)])"
| login_drop: "login_run cfg s (calls @ call # calls') tr \<Longrightarrow> login_run cfg s (calls @ calls') tr"
| quiet: "login_run cfg s calls tr \<Longrightarrow> login_quiet s s' \<Longrightarrow> login_run cfg s' calls tr"

lemma unexpired_sub: "unexpired ex now m \<subseteq>\<^sub>m m"
  by (auto simp: unexpired_def map_le_def dom_def split: option.splits if_splits)

lemma quiet_prune: "login_quiet s (pruneLocked now s)"
  by (simp add: login_quiet_def unexpired_sub)

lemma quiet_trans: "login_quiet s s1 \<Longrightarrow> login_quiet s1 s2 \<Longrightarrow> login_quiet s s2"
  unfolding login_quiet_def using map_le_trans by blast

lemma quiet_same: "logins s' = logins s \<Longrightarrow> login_quiet s s'"
  by (simp add: login_quiet_def)

lemma quiet_authenticate: "authenticate cfg now raw csrf m s = (r, s') \<Longrightarrow> login_quiet s s'"
  by (rule quiet_same) (auto simp: authenticate_def Let_def split: option.splits if_splits)

lemma quiet_mint_loop: "mint_code_loop cfg now claim ds s = (r, s') \<Longrightarrow> login_quiet s s'"
proof (induction ds arbitrary: s)
  case (Cons d ds)
  show ?case
  proof (cases d)
    case (Some random)
    let ?s1 = "pruneLocked now s"
    have "login_quiet ?s1 s'"
      using Cons.prems Cons.IH [of ?s1] Some by (auto simp: Let_def login_quiet_def split: if_splits)
    then show ?thesis using quiet_prune quiet_trans by blast
  qed (use Cons.prems in \<open>simp add: login_quiet_def\<close>)
qed (simp add: login_quiet_def)

text \<open>The other methods of the service, and the parts of its login calls, as steps of such a run.\<close>

lemma quiet_methods:
  "Authenticate cfg now raw s = (r1, s') \<Longrightarrow> login_quiet s s'"
  "AuthenticateMutation cfg now raw csrf s = (r1, s') \<Longrightarrow> login_quiet s s'"
  "Logout cfg now raw csrf s = (r2, s') \<Longrightarrow> login_quiet s s'"
  "MintClaimAuthorization cfg clk raw csrf b d s = (r3, s') \<Longrightarrow> login_quiet s s'"
  "ConsumeClaimAuthorization cfg now raw s = (r4, s') \<Longrightarrow> login_quiet s s'"
  "AuthorizeClaimAuthorization cfg now raw s = (r4, s') \<Longrightarrow> login_quiet s s'"
  "MintBoundHumanClaimCode cfg clk raw csrf b dv ds s = (r3, s') \<Longrightarrow> login_quiet s s'"
  "RedeemBoundHumanClaimCode cfg clk code b dv rid d s = (r3, s') \<Longrightarrow> login_quiet s s'"
proof -
  show mut: "AuthenticateMutation cfg now raw csrf s = (r1, s') \<Longrightarrow> login_quiet s s'" for now csrf r1 s s'
    by (auto simp: AuthenticateMutation_def dest: quiet_authenticate)
  show "Authenticate cfg now raw s = (r1, s') \<Longrightarrow> login_quiet s s'" by (auto simp: Authenticate_def dest: quiet_authenticate)
  show "Logout cfg now raw csrf s = (r2, s') \<Longrightarrow> login_quiet s s'"
    by (cases "AuthenticateMutation cfg now raw csrf s")
      (auto simp: Logout_def login_quiet_def dest!: mut split: sum.splits)
  show "MintClaimAuthorization cfg clk raw csrf b d s = (r3, s') \<Longrightarrow> login_quiet s s'"
  proof -
    assume run: "MintClaimAuthorization cfg clk raw csrf b d s = (r3, s')"
    obtain x s1 where a: "AuthenticateMutation cfg (clk 0) raw csrf s = (x, s1)" by force
    have "login_quiet s1 s'" using run a unexpired_sub
      by (auto simp: MintClaimAuthorization_def Let_def login_quiet_def split: sum.splits option.splits if_splits)
    then show ?thesis using mut [OF a] quiet_trans by blast
  qed
  show "ConsumeClaimAuthorization cfg now raw s = (r4, s') \<Longrightarrow> login_quiet s s'"
    by (rule quiet_same) (auto simp: ConsumeClaimAuthorization_def Let_def split: option.splits if_splits)
  show "AuthorizeClaimAuthorization cfg now raw s = (r4, s') \<Longrightarrow> login_quiet s s'"
    by (rule quiet_same) (auto simp: AuthorizeClaimAuthorization_def Let_def split: option.splits if_splits)
  show "MintBoundHumanClaimCode cfg clk raw csrf b dv ds s = (r3, s') \<Longrightarrow> login_quiet s s'"
  proof -
    assume run: "MintBoundHumanClaimCode cfg clk raw csrf b dv ds s = (r3, s')"
    obtain x s1 where a: "AuthenticateMutation cfg (clk 0) raw csrf s = (x, s1)" by force
    have "login_quiet s1 s'" using run a quiet_mint_loop
      by (fastforce simp: MintBoundHumanClaimCode_def Let_def login_quiet_def split: sum.splits if_splits)
    then show ?thesis using mut [OF a] quiet_trans by blast
  qed
  show "RedeemBoundHumanClaimCode cfg clk code b dv rid d s = (r3, s') \<Longrightarrow> login_quiet s s'"
    by (rule quiet_same) (auto simp: RedeemBoundHumanClaimCode_def redemptionReplay_def rememberRedemption_def Let_def
        split: option.splits if_splits prod.splits)
qed

text \<open>A begun login is in the table, in the hands of one call, or spent; never in two of these places.\<close>

definition began :: "string \<Rightarrow> login_event list \<Rightarrow> nat" where
  "began state tr = length (filter (\<lambda>e. \<exists>v. e = Began state v) tr)"

definition opened :: "string \<Rightarrow> login_event list \<Rightarrow> nat" where
  "opened state tr = length (filter (\<lambda>e. \<exists>v. e = Opened state v) tr)"

definition held :: "string \<Rightarrow> login_call list \<Rightarrow> nat" where
  "held state calls = length (filter (\<lambda>c. fst c = state) calls)"

definition waiting :: "string \<Rightarrow> auth_state \<Rightarrow> nat" where
  "waiting state s = (case logins s state of None \<Rightarrow> 0 | Some _ \<Rightarrow> 1)"

lemma counts [simp]:
  "began k (tr @ [e]) = began k tr + (if \<exists>v. e = Began k v then 1 else 0)"
  "opened k (tr @ [e]) = opened k tr + (if \<exists>v. e = Opened k v then 1 else 0)"
  "held k (c # calls) = (if fst c = k then 1 else 0) + held k calls"
  "held k (calls @ calls') = held k calls + held k calls'"
  by (simp_all add: began_def opened_def held_def)

lemma take_login_cases:
  assumes "take_login now state0 code0 s = (r, s')"
  shows "login_quiet s s'"
    "r = Inr (code, t) \<Longrightarrow> logins s (TrimSpace state0) = Some t \<and> logins s' (TrimSpace state0) = None
      \<and> code = TrimSpace code0 \<and> now < lt_ExpiresAt t"
  using assms
  by (auto simp: take_login_def Let_def login_quiet_def map_le_def After_def split: option.splits if_splits)

lemma quiet_waiting: "login_quiet s s' \<Longrightarrow> waiting k s' \<le> waiting k s"
  by (auto simp: login_quiet_def waiting_def map_le_def dom_def split: option.splits)

lemma BeginLogin_Inr:
  assumes "BeginLoginWithReturnTo cfg now returnTo d1 d2 s = (Inr (state, verifier), s')"
  shows "\<exists>t. Verifier t = verifier \<and> logins s' = (unexpired lt_ExpiresAt now (logins s))(state \<mapsto> t)"
  using assms by (auto simp: BeginLoginWithReturnTo_def Let_def split: option.splits)
    (metis loginTransaction.select_convs(1))

lemma finish_login_quiet: "finish_login cfg now user ret d1 d2 s = (r, s') \<Longrightarrow> login_quiet s s'"
  using unexpired_sub by (auto simp: finish_login_def login_quiet_def Let_def split: option.splits)

lemma login_run_count:
  "login_run cfg s calls tr \<Longrightarrow> opened k tr + held k calls + waiting k s \<le> began k tr"
proof (induction rule: login_run.induct)
  case (start s)
  then show ?case by (simp add: opened_def held_def waiting_def began_def)
next
  case (login_begin s calls tr now returnTo d1 d2 state verifier s')
  obtain t where t: "logins s' = (unexpired lt_ExpiresAt now (logins s))(state \<mapsto> t)" using BeginLogin_Inr [OF login_begin(2)] by blast
  have "waiting k s' \<le> waiting k (pruneLocked now s) + (if k = state then 1 else 0)"
    by (auto simp: waiting_def t)
  moreover have "waiting k (pruneLocked now s) \<le> waiting k s" by (rule quiet_waiting [OF quiet_prune])
  ultimately show ?case using login_begin.IH by auto
next
  case (login_take s calls tr now state0 code0 code t s')
  note c = take_login_cases [OF login_take(2)]
  show ?case
  proof (cases "k = TrimSpace state0")
    case True
    then have "waiting k s = 1" "waiting k s' = 0" using c(2) [OF refl] by (simp_all add: waiting_def)
    then show ?thesis using login_take.IH True by simp
  next
    case False
    then show ?thesis using login_take.IH quiet_waiting [OF c(1), of k] by simp
  qed
next
  case (login_refused s calls tr now state0 code0 e s')
  then show ?case using quiet_waiting [OF take_login_cases(1), of now state0 code0 s "Inl e" s' k] by simp
next
  case (login_finish s calls state now code t calls' tr exchangeCode userinfo userID d1 d2 session s')
  then show ?case using quiet_waiting [OF finish_login_quiet [OF login_finish(3)], of k] by auto
next
  case (login_drop s calls call calls' tr)
  then show ?case by simp
next
  case (quiet s calls tr s')
  then show ?case using quiet_waiting [OF quiet(2), of k] by simp
qed

lemma login_run_verifier:
  "login_run cfg s calls tr \<Longrightarrow> (\<forall>k t. logins s k = Some t \<longrightarrow> Began k (Verifier t) \<in> set tr)
     \<and> (\<forall>(k, _, _, t) \<in> set calls. Began k (Verifier t) \<in> set tr) \<and> (\<forall>k v. Opened k v \<in> set tr \<longrightarrow> Began k v \<in> set tr)"
proof (induction rule: login_run.induct)
  case (login_begin s calls tr now returnTo d1 d2 state verifier s')
  then show ?case using BeginLogin_Inr [OF login_begin(2)] by (auto split: if_splits)
next
  case (login_take s calls tr now state0 code0 code t s')
  note c = take_login_cases [OF login_take(2)]
  have "logins s k = Some u" if "logins s' k = Some u" for k u
    using that c(1) unfolding login_quiet_def map_le_def by (metis domI)
  then show ?case using login_take.IH c(2) [OF refl] by auto
next
  case (login_refused s calls tr now state0 code0 e s')
  have "logins s k = Some u" if "logins s' k = Some u" for k u
    using that take_login_cases(1) [OF login_refused(2)] unfolding login_quiet_def map_le_def by (metis domI)
  then show ?case using login_refused.IH by auto
next
  case (login_finish s calls state now code t calls' tr exchangeCode userinfo userID d1 d2 session s')
  have "logins s k = Some u" if "logins s' k = Some u" for k u
    using that finish_login_quiet [OF login_finish(3)] unfolding login_quiet_def map_le_def by (metis domI)
  then show ?case using login_finish.IH by auto
next
  case (quiet s calls tr s')
  have "logins s k = Some u" if "logins s' k = Some u" for k u
    using that quiet(2) unfolding login_quiet_def map_le_def by (metis domI)
  then show ?case using quiet.IH by auto
qed auto

text \<open>
  C30: an OAuth state completes at most one login. In every interleaving of login calls, where the provider is asked
  outside the mutex, the sessions opened with a state are no more than the logins begun that drew this state, and
  the code of each was exchanged with the verifier drawn with it. So a state that was drawn once opens one session at
  most, however many completions present it.
\<close>

theorem login_state_once:
  assumes "login_run cfg s calls tr"
  shows "length (filter (\<lambda>e. \<exists>v. e = Opened state v) tr) \<le> length (filter (\<lambda>e. \<exists>v. e = Began state v) tr)
    \<and> (\<forall>v. Opened state v \<in> set tr \<longrightarrow> Began state v \<in> set tr)"
  using login_run_count [OF assms, of state] login_run_verifier [OF assms] by (simp add: began_def opened_def)

text \<open>
  A login that is begun and completed while a second completion with the same state comes in between: the
  second is refused.
\<close>

lemma login_demo:
  "\<exists>s s'. login_run ex_config s [] [Began ''state'' ''v'', Opened ''state'' ''v'']
     \<and> login_run ex_config s' [(''state'', 1, ''code'', \<lparr>Verifier = ''v'', ReturnTo = [], lt_ExpiresAt = Add 0 Minute\<rparr>)] [Began ''state'' ''v'']
     \<and> fst (take_login 1 ''state'' ''code'' s') = Inl Err_InvalidState"
proof -
  let ?t = "\<lparr>Verifier = ''v'', ReturnTo = [], lt_ExpiresAt = Add 0 Minute\<rparr>"
  define s0 where "s0 = ex_state\<lparr>logins := Map.empty\<rparr>"
  define s1 where "s1 = (pruneLocked 0 s0)\<lparr>logins := [''state'' \<mapsto> ?t]\<rparr>"
  have un: "unexpired ex now Map.empty = Map.empty" for ex :: "loginTransaction \<Rightarrow> time" and now by (auto simp: unexpired_def)
  have 0: "login_run ex_config s0 [] []" by (rule start) (simp add: s0_def)
  have "BeginLoginWithReturnTo ex_config 0 [] (Some ''state'') (Some ''v'') s0 = (Inr (''state'', ''v''), s1)"
    by (simp add: BeginLoginWithReturnTo_def Let_def s0_def s1_def un sanitizeReturnTo_def) (simp add: ex_config_def)
  from login_begin [OF 0 this] have 1: "login_run ex_config s1 [] [Began ''state'' ''v'']" by simp
  define s2 where "s2 = s1\<lparr>logins := (logins s1)(''state'' := None)\<rparr>"
  have after: "After (Add 0 Minute) 1" by (simp add: After_def Add_def Minute_def)
  have "take_login 1 ''state'' ''code'' s1 = (Inr (''code'', ?t), s2)"
    using after by (simp add: take_login_def Let_def s1_def s2_def)
  from login_take [OF 1 this] have 2: "login_run ex_config s2 [(''state'', 1, ''code'', ?t)] [Began ''state'' ''v'']" by simp
  have no: "take_login 1 ''state'' ''code'' s2 = (Inl Err_InvalidState, s2)"
    by (simp add: take_login_def Let_def s2_def s1_def)
  have sub: "provider_subject (\<lambda>_ _. Some ''t'') (\<lambda>_. Some ''alice'') ''code'' ?t = Inr ''alice''"
    by (simp add: provider_subject_def fetchSubject_def)
  obtain x s3 where fin: "finish_login ex_config 1 ''alice'' (ReturnTo ?t) (Some ''raw'') (Some ''csrf'') s2 = (Inr x, s3)"
    by (simp add: finish_login_def Let_def)
  have "login_run ex_config s3 [] [Began ''state'' ''v'', Opened ''state'' ''v'']"
    using login_finish [where calls = "[]" and calls' = "[]" and state = "''state''" and tr = "[Began ''state'' ''v'']", OF _ sub fin] 2
    by simp
  with 2 no show ?thesis by (metis fst_conv)
qed

theorem login_state_once_witness:
  "\<exists>s tr. login_run ex_config s [] tr \<and> length (filter (\<lambda>e. \<exists>v. e = Opened ''state'' v) tr) = 1
     \<and> length (filter (\<lambda>e. \<exists>v. e = Began ''state'' v) tr) = 1"
proof -
  let ?tr = "[Began ''state'' ''v'', Opened ''state'' ''v'']"
  obtain s where s: "login_run ex_config s [] ?tr" using login_demo by blast
  have "length (filter (\<lambda>e. \<exists>v. e = Opened ''state'' v) ?tr) \<le> length (filter (\<lambda>e. \<exists>v. e = Began ''state'' v) ?tr)"
    using login_state_once [OF s] by blast
  then show ?thesis using s by (intro exI [of _ s] exI [of _ ?tr]) simp
qed

section \<open>Sessions\<close>

lemma authenticate_Inr:
  "authenticate cfg now raw csrf mutation s = (Inr x, s') \<longleftrightarrow>
     s' = s \<and> TrimSpace raw \<noteq> [] \<and> (\<exists>r. owner_sessions s (tokenKey cfg (TrimSpace raw)) = Some r \<and> x = sr_Session r
       \<and> now < ow_ExpiresAt x \<and> (mutation \<longrightarrow> TrimSpace csrf \<noteq> [] \<and> sha256 cfg (TrimSpace csrf) = CSRFHash r))"
  by (auto simp: authenticate_def Let_def After_def split: option.splits if_splits)

lemma AuthenticateMutation_Inr:
  "AuthenticateMutation cfg now raw csrf s = (Inr x, s') \<longleftrightarrow>
     s' = s \<and> TrimSpace raw \<noteq> [] \<and> (\<exists>r. owner_sessions s (tokenKey cfg (TrimSpace raw)) = Some r \<and> x = sr_Session r
       \<and> now < ow_ExpiresAt x \<and> TrimSpace csrf \<noteq> [] \<and> sha256 cfg (TrimSpace csrf) = CSRFHash r)"
  by (simp add: AuthenticateMutation_def authenticate_Inr)

text \<open>
  what a completed login gives. The returned secrets authenticate mutations as the subject named by the
  identity provider until the session expires, a mutation with another CSRF secret (of another digest) is
  refused, and the subject is 1 to 256 bytes long.
\<close>

theorem login_authenticates:
  assumes "CompleteLoginWithReturn cfg ex ui now st code d1 d2 s = (Inr (raw, csrf, session, ret), s')"
    "TrimSpace raw = raw" "raw \<noteq> []" "TrimSpace csrf = csrf" "csrf \<noteq> []"
  shows "(now' < Add now (cfg_SessionTTL cfg) \<longrightarrow> AuthenticateMutation cfg now' raw csrf s' = (Inr session, s'))
    \<and> (sha256 cfg (TrimSpace csrf') \<noteq> sha256 cfg csrf
        \<longrightarrow> fst (AuthenticateMutation cfg now' raw csrf' s') = Inl Err_Unauthorized)
    \<and> (\<exists>verifier token sub. ex (TrimSpace code) verifier = Some token \<and> ui token = Some sub
        \<and> ow_UserID session = TrimSpace sub \<and> ow_UserID session \<noteq> [] \<and> length (ow_UserID session) \<le> 256)"
proof -
  obtain t where lt: "logins s (TrimSpace st) = Some t"
    using assms(1) by (cases "logins s (TrimSpace st)") (auto simp: complete_login_defs Let_def split: if_splits)
  obtain token where tok: "ex (TrimSpace code) (Verifier t) = Some token"
    using assms(1) lt by (cases "ex (TrimSpace code) (Verifier t)")
      (auto simp: complete_login_defs Let_def split: if_splits)
  obtain sub where sub: "ui token = Some sub"
    using assms(1) lt tok by (cases "ui token")
      (auto simp: complete_login_defs fetchSubject_def Let_def split: if_splits)
  have t: "TrimSpace sub \<noteq> []" "length (TrimSpace sub) \<le> 256"
    and fin: "finish_login cfg now (TrimSpace sub) (ReturnTo t) d1 d2
      (s\<lparr>logins := (logins s)(TrimSpace st := None)\<rparr>) = (Inr (raw, csrf, session, ret), s')"
    using assms(1) lt tok sub
    by (auto simp: complete_login_defs fetchSubject_def Let_def split: if_splits)
  have ss: "session = \<lparr>ow_UserID = TrimSpace sub, ow_ExpiresAt = Add now (cfg_SessionTTL cfg)\<rparr>"
      "owner_sessions s' (tokenKey cfg raw) = Some \<lparr>sr_Session = session, CSRFHash = sha256 cfg csrf\<rparr>"
    using fin by (auto simp: finish_login_def Let_def split: option.splits)
  have "now' < Add now (cfg_SessionTTL cfg) \<longrightarrow> AuthenticateMutation cfg now' raw csrf s' = (Inr session, s')"
    using ss assms(2-5) by (simp add: AuthenticateMutation_Inr)
  moreover have "sha256 cfg (TrimSpace csrf') \<noteq> sha256 cfg csrf
      \<longrightarrow> fst (AuthenticateMutation cfg now' raw csrf' s') = Inl Err_Unauthorized"
    using ss assms(2-3) by (simp add: AuthenticateMutation_def authenticate_def Let_def)
  ultimately show ?thesis using t ss(1) tok sub by auto
qed

theorem login_authenticates_witness:
  "\<exists>s'. AuthenticateMutation ex_config 2 ''raw'' ''csrf'' s' = (Inr \<lparr>ow_UserID = ''alice'', ow_ExpiresAt = 1 + Minute\<rparr>, s')"
proof -
  have "CompleteLoginWithReturn ex_config (\<lambda>_ _. Some ''t'') (\<lambda>_. Some ''alice'') 1 ''state'' ''code'' (Some ''raw'') (Some ''csrf'') ex_state
    = (Inr (''raw'', ''csrf'', \<lparr>ow_UserID = ''alice'', ow_ExpiresAt = 1 + Minute\<rparr>, []),
       snd (CompleteLoginWithReturn ex_config (\<lambda>_ _. Some ''t'') (\<lambda>_. Some ''alice'') 1 ''state'' ''code'' (Some ''raw'') (Some ''csrf'') ex_state))"
    by (simp add: complete_login_defs fetchSubject_def finish_login_def ex_state_def After_def Let_def Add_def
        ex_config_def prod_eq_iff)
  from login_authenticates [OF this, of 2] show ?thesis by (auto simp: Add_def Minute_def ex_config_def)
qed

text \<open>
  logging out ends the session only when the secret comes without surrounding space. The session that is
  authenticated is found under the trimmed secret, the one that is deleted under the secret as given: an
  untrimmed secret logs out successfully and leaves the session usable.
\<close>

theorem logout_trim:
  assumes "Logout cfg now raw csrf s = (Inr (), s')"
  shows "if tokenKey cfg (TrimSpace raw) = tokenKey cfg raw
    then fst (AuthenticateMutation cfg now' raw csrf' s') = Inl Err_Unauthorized
    else fst (AuthenticateMutation cfg now raw csrf s') = fst (AuthenticateMutation cfg now raw csrf s)"
proof -
  obtain x where x: "AuthenticateMutation cfg now raw csrf s = (Inr x, s)"
    and s': "s' = s\<lparr>owner_sessions := (owner_sessions s)(tokenKey cfg raw := None)\<rparr>"
    using assms by (auto simp: Logout_def AuthenticateMutation_Inr split: prod.splits sum.splits)
  have "AuthenticateMutation cfg now raw csrf s' = (Inr x, s')" if "tokenKey cfg (TrimSpace raw) \<noteq> tokenKey cfg raw"
    using x that by (simp add: AuthenticateMutation_Inr s')
  then show ?thesis
    using x by (auto simp: s' AuthenticateMutation_def authenticate_def Let_def)
qed

theorem logout_trim_witness:
  "fst (AuthenticateMutation ex_config 1 '' raw'' ''csrf'' (snd (Logout ex_config 1 '' raw'' ''csrf'' ex_state)))
     = Inr \<lparr>ow_UserID = ''alice'', ow_ExpiresAt = 100\<rparr>"
proof -
  have t: "TrimSpace '' raw'' = ''raw''" by (simp add: TrimSpace_def trim_by_def IsSpace_def)
  have auth: "AuthenticateMutation ex_config 1 '' raw'' ''csrf'' ex_state = (Inr \<lparr>ow_UserID = ''alice'', ow_ExpiresAt = 100\<rparr>, ex_state)"
    by (simp add: AuthenticateMutation_Inr t) (simp add: ex_state_def)
  then have "Logout ex_config 1 '' raw'' ''csrf'' ex_state = (Inr (), snd (Logout ex_config 1 '' raw'' ''csrf'' ex_state))"
    by (simp add: Logout_def)
  from logout_trim [OF this, of 1 "''csrf''"] show ?thesis
    using auth by (simp add: t tokenKey_def)
qed

section \<open>Claim authorizations\<close>

lemma TrimSpace_claimBinding [simp]: "TrimSpace (claimBinding cfg b d) = claimBinding cfg b d"
  by (simp add: claimBinding_def)

text \<open>
  the round trip of a browser claim authorization. What is minted for a bootstrap and a device authorizes,
  until it expires, exactly the pairs with the same binding digest, and names the owner of the session that
  minted it; consuming it ends that.
\<close>

theorem claim_authorization_roundtrip:
  assumes "MintBoundClaimAuthorization cfg clock rawS csrf b d draw s = (Inr (raw, claim), s')"
    "TrimSpace raw = raw" "raw \<noteq> []" "clk 0 < ca_ExpiresAt claim" "TrimSpace b' \<noteq> []" "TrimSpace d' \<noteq> []"
  shows "fst (AuthorizeDeviceClaim cfg clk store raw b' d' s')
      = (if claimBinding cfg (TrimSpace b) (TrimSpace d) = claimBinding cfg (TrimSpace b') (TrimSpace d')
         then Inr (ca_UserID claim) else Inl Err_InvalidClaim)
    \<and> (\<exists>r. owner_sessions s (tokenKey cfg (TrimSpace rawS)) = Some r \<and> ca_UserID claim = ow_UserID (sr_Session r))
    \<and> fst (ConsumeClaimAuthorization cfg (clk 0) raw s') = Inr claim
    \<and> fst (AuthorizeClaimAuthorization cfg t raw (snd (ConsumeClaimAuthorization cfg (clk 0) raw s'))) = Inl Err_InvalidClaim"
proof -
  have "MintClaimAuthorization cfg clock rawS csrf (claimBinding cfg (TrimSpace b) (TrimSpace d)) draw s = (Inr (raw, claim), s')"
    using assms(1) by (auto simp: MintBoundClaimAuthorization_def Let_def split: if_splits)
  then obtain x where x: "AuthenticateMutation cfg (clock 0) rawS csrf s = (Inr x, s)" "ca_UserID claim = ow_UserID x"
    and cl: "claims s' (tokenKey cfg raw) = Some claim"
      "ca_BootstrapID claim = claimBinding cfg (TrimSpace b) (TrimSpace d)"
    by (auto simp: MintClaimAuthorization_def AuthenticateMutation_Inr Let_def
        split: prod.splits sum.splits if_splits option.splits)
  have auth: "AuthorizeClaimAuthorization cfg (clk 0) raw s' = (Inr claim, s')"
    using cl(1) assms(2-4) by (simp add: AuthorizeClaimAuthorization_def Let_def After_def)
  have "\<exists>r. owner_sessions s (tokenKey cfg (TrimSpace rawS)) = Some r \<and> ca_UserID claim = ow_UserID (sr_Session r)"
    using x by (auto simp: AuthenticateMutation_Inr)
  moreover have "ConsumeClaimAuthorization cfg (clk 0) raw s' = (Inr claim, s'\<lparr>claims := (claims s')(tokenKey cfg raw := None)\<rparr>)"
    using cl(1) assms(2-4) by (simp add: ConsumeClaimAuthorization_def Let_def After_def)
  ultimately show ?thesis
    using auth cl(2) assms(2,3,5,6) by (simp add: AuthorizeDeviceClaim_def AuthorizeClaimAuthorization_def Let_def)
qed

theorem claim_authorization_roundtrip_witness:
  "\<exists>s'. fst (AuthorizeDeviceClaim ex_config (\<lambda>_. 2) (\<lambda>_ _ _ _. Inl DBFault) ''token'' ''boot'' ''dev'' s') = Inr ''alice''
     \<and> fst (AuthorizeDeviceClaim ex_config (\<lambda>_. 2) (\<lambda>_ _ _ _. Inl DBFault) ''token'' ''boot'' ''alice'' s') = Inl Err_InvalidClaim"
proof -
  let ?m = "MintBoundClaimAuthorization ex_config (\<lambda>_. 1) ''raw'' ''csrf'' ''boot'' ''dev'' (Some ''token'') ex_state"
  let ?c = "\<lparr>ca_UserID = ''alice'', ca_BootstrapID = claimBinding ex_config ''boot'' ''dev'', ca_ExpiresAt = 1 + Minute\<rparr>"
  have auth: "AuthenticateMutation ex_config 1 ''raw'' ''csrf'' ex_state = (Inr \<lparr>ow_UserID = ''alice'', ow_ExpiresAt = 100\<rparr>, ex_state)"
    by (simp add: AuthenticateMutation_Inr) (simp add: ex_state_def)
  have run: "?m = (Inr (''token'', ?c), snd ?m)"
    by (simp add: MintBoundClaimAuthorization_def MintClaimAuthorization_def auth valid_ref_def Let_def Add_def prod_eq_iff)
      (simp add: claimBinding_def ex_config_def)
  have differ: "claimBinding ex_config ''boot'' ''dev'' \<noteq> claimBinding ex_config ''boot'' ''alice''"
    by (simp add: claimBinding_def)
  show ?thesis
    using claim_authorization_roundtrip [OF run, of "\<lambda>_. 2" "''boot''" "''dev''" "\<lambda>_ _ _ _. Inl DBFault"]
      claim_authorization_roundtrip [OF run, of "\<lambda>_. 2" "''boot''" "''alice''" "\<lambda>_ _ _ _. Inl DBFault"] differ
    by (intro exI [of _ "snd ?m"]) (simp add: Minute_def)
qed

text \<open>The separator of the binding is a zero byte, which an identifier may contain.\<close>

lemma claimBinding_ambiguous:
  "claimBinding cfg (a @ [CHR 0x00] @ b) c = claimBinding cfg a (b @ [CHR 0x00] @ c)"
  by (simp add: claimBinding_def)

section \<open>Human claim codes\<close>

lemma alphabet_length: "length humanClaimCodeAlphabet = 32"
  by (simp add: humanClaimCodeAlphabet_def)

lemma alphabet_chars:
  "c \<in> set humanClaimCodeAlphabet \<Longrightarrow> (32::nat) < of_char c \<and> of_char c < (127::nat) \<and> upper_rune (of_char c) = of_char c
     \<and> of_char c \<notin> {45, 32, 9, 10, 13 :: nat} \<and> code_rune (of_char c)"
  by (auto simp: humanClaimCodeAlphabet_def upper_rune_def code_rune_def)

lemma random_code_alphabet: "set (randomHumanClaimCode rs) \<subseteq> set humanClaimCodeAlphabet"
  using alphabet_length by (auto simp: randomHumanClaimCode_def)

lemma length_random_code [simp]: "length (randomHumanClaimCode rs) = length rs"
  by (simp add: randomHumanClaimCode_def)

lemma normalize_loop_append:
  "normalize_loop (xs @ ys) = (case normalize_loop xs of None \<Rightarrow> None | Some a \<Rightarrow> map_option ((@) a) (normalize_loop ys))"
proof (induction xs)
  case Nil
  then show ?case by (cases "normalize_loop ys") auto
next
  case (Cons x xs)
  then show ?case by (cases "normalize_loop xs"; cases "normalize_loop ys") auto
qed

lemma normalize_loop_code:
  "set c \<subseteq> set humanClaimCodeAlphabet \<Longrightarrow> normalize_loop (map (\<lambda>x. upper_rune (of_char x)) c) = Some c"
proof (induction c)
  case (Cons x c)
  then have "upper_rune (of_char x) = of_char x" "of_char x \<notin> {45, 32, 9, 10, 13 :: nat}" "code_rune (of_char x)"
    using alphabet_chars [of x] by auto
  then show ?case using Cons by simp
qed simp

text \<open>
  the round trip of a human claim code: what is shown for ten random bytes is read back as the code that was
  stored, with the separator in it or not.
\<close>

theorem claim_code_roundtrip:
  assumes "length random = 10"
  shows "normalizeHumanClaimCode (displayHumanClaimCode (randomHumanClaimCode random)) = randomHumanClaimCode random
    \<and> normalizeHumanClaimCode (randomHumanClaimCode random) = randomHumanClaimCode random"
proof -
  let ?c = "randomHumanClaimCode random"
  have c: "set ?c \<subseteq> set humanClaimCodeAlphabet" by (rule random_code_alphabet)
  have g: "graphic ?c" using c alphabet_chars by (auto simp: graphic_def list_all_iff)
  then have gd: "graphic (take 5 ?c @ ''-'' @ drop 5 ?c)" by (auto simp: graphic_def list_all_iff dest: in_set_takeD in_set_dropD)
  have "normalize_loop (map (\<lambda>x. upper_rune (of_char x)) (take 5 ?c @ ''-'' @ drop 5 ?c)) = Some ?c"
  proof -
    have "normalize_loop (map (\<lambda>x. upper_rune (of_char x)) (take 5 ?c)) = Some (take 5 ?c)"
      "normalize_loop (map (\<lambda>x. upper_rune (of_char x)) (drop 5 ?c)) = Some (drop 5 ?c)"
      using c set_take_subset [of 5 ?c] set_drop_subset [of 5 ?c] by (blast intro: normalize_loop_code)+
    moreover have "upper_rune (of_char (CHR ''-'')) = 45" by (simp add: upper_rune_def)
    ultimately show ?thesis unfolding map_append normalize_loop_append by simp
  qed
  then show ?thesis
    using g gd assms normalize_loop_code [OF c]
    by (simp add: normalizeHumanClaimCode_def displayHumanClaimCode_def humanClaimCodeLength_def runes_graphic o_def)
qed

theorem claim_code_roundtrip_witness:
  "normalizeHumanClaimCode (displayHumanClaimCode (randomHumanClaimCode [0, 1, 2, 3, 4, 5, 6, 7, 8, 255]))
     = randomHumanClaimCode [0, 1, 2, 3, 4, 5, 6, 7, 8, 255]"
  using claim_code_roundtrip [of "[0, 1, 2, 3, 4, 5, 6, 7, 8, 255]"] by simp

section \<open>Redemption\<close>

lemma redemption_hit_eq:
  "redemption_hit binding key (Some \<lparr>redemptionKey = k, rawAuthorization = raw, rd_claim = c\<rparr>)
     = (if ca_BootstrapID c = binding \<and> k = key then Some (raw, c) else None)"
  by (simp add: redemption_hit_def)

text \<open>The state after a redemption: the code is gone and its redemption is kept under the code.\<close>

definition redeemed :: "auth_config \<Rightarrow> string \<Rightarrow> string \<Rightarrow> string \<Rightarrow> ClaimAuthorization \<Rightarrow> auth_state \<Rightarrow> bool" where
  "redeemed cfg codeKey rid raw c s \<longleftrightarrow> claims s codeKey = None
     \<and> local_redemptions s codeKey = Some \<lparr>redemptionKey = tokenKey cfg rid, rawAuthorization = raw, rd_claim = c\<rparr>
     \<and> (case code_store s of None \<Rightarrow> True | Some m \<Rightarrow>
          st_redemptions m codeKey = Some \<lparr>redemptionKey = tokenKey cfg rid, rawAuthorization = raw, rd_claim = c\<rparr>)"

lemma redeemed_replay:
  assumes "redeemed cfg key rid raw c s" "now < ca_ExpiresAt c" "store_now < ca_ExpiresAt c"
  shows "fst (redemptionReplay cfg store_now key binding rid' now s)
    = (if ca_BootstrapID c = binding \<and> tokenKey cfg rid' = tokenKey cfg rid then Some (raw, c) else None)"
    and "claims (snd (redemptionReplay cfg store_now key binding rid' now s)) = claims s"
    and "redeemed cfg key rid raw c (snd (redemptionReplay cfg store_now key binding rid' now s))"
  using assms
  by (auto simp: redemptionReplay_def redeemed_def mem_GetRedemption_def unexpired_def redemption_hit_eq After_def Let_def
      split: option.splits prod.splits)

lemma redeemed_retry:
  assumes "redeemed cfg (tokenKey cfg (normalizeHumanClaimCode rawCode)) rid raw c s"
    and "\<forall>k. clk k < ca_ExpiresAt c" and "normalizeHumanClaimCode rawCode \<noteq> []"
    and "valid_ref (TrimSpace b)" "valid_ref (TrimSpace d)" "8 \<le> length (TrimSpace rid')" "length (TrimSpace rid') \<le> 128"
  shows "fst (RedeemBoundHumanClaimCode cfg clk rawCode b d rid' draw s)
    = (if ca_BootstrapID c = claimBinding cfg (TrimSpace b) (TrimSpace d) \<and> tokenKey cfg (TrimSpace rid') = tokenKey cfg rid
       then Inr (raw, c) else Inl Err_InvalidClaim)"
proof -
  let ?key = "tokenKey cfg (normalizeHumanClaimCode rawCode)" and ?b = "claimBinding cfg (TrimSpace b) (TrimSpace d)"
  define r1 where "r1 = redemptionReplay cfg (clk 1) ?key ?b (TrimSpace rid') (clk 0) s"
  note 1 = redeemed_replay [OF assms(1), of "clk 0" "clk 1" ?b "TrimSpace rid'"]
  have r1: "fst r1 = (if ca_BootstrapID c = ?b \<and> tokenKey cfg (TrimSpace rid') = tokenKey cfg rid then Some (raw, c) else None)"
    "claims (snd r1) ?key = None" "redeemed cfg ?key rid raw c (snd r1)"
    using 1 assms(1,2) by (simp_all add: r1_def redeemed_def)
  have r2: "fst (redemptionReplay cfg (clk 2) ?key ?b (TrimSpace rid') (clk 0) (snd r1))
      = (if ca_BootstrapID c = ?b \<and> tokenKey cfg (TrimSpace rid') = tokenKey cfg rid then Some (raw, c) else None)"
    using redeemed_replay(1) [OF r1(3)] assms(2) by simp
  show ?thesis
    using assms(3-7) r1 r2 unfolding RedeemBoundHumanClaimCode_def Let_def r1_def [symmetric]
    by (cases r1) (auto split: option.splits prod.splits if_splits)
qed

lemma redeem_first:
  assumes run: "RedeemBoundHumanClaimCode cfg clk rawCode b d rid draw s = (Inr (raw, c), s')"
    and new: "local_redemptions s (tokenKey cfg (normalizeHumanClaimCode rawCode)) = None"
      "\<And>m. code_store s = Some m \<Longrightarrow> st_redemptions m (tokenKey cfg (normalizeHumanClaimCode rawCode)) = None"
    and fresh: "\<And>x. draw = Some x \<Longrightarrow> tokenKey cfg x \<noteq> tokenKey cfg (normalizeHumanClaimCode rawCode)"
  shows "redeemed cfg (tokenKey cfg (normalizeHumanClaimCode rawCode)) (TrimSpace rid) raw c s'
    \<and> ca_BootstrapID c = claimBinding cfg (TrimSpace b) (TrimSpace d)
    \<and> (\<exists>c0. claims s (tokenKey cfg (normalizeHumanClaimCode rawCode)) = Some c0 \<and> clk 0 < ca_ExpiresAt c0
         \<and> ca_BootstrapID c0 = humanClaimMarker @ claimBinding cfg (TrimSpace b) (TrimSpace d)
         \<and> ca_UserID c = ca_UserID c0 \<and> ca_ExpiresAt c = ca_ExpiresAt c0)"
proof -
  let ?key = "tokenKey cfg (normalizeHumanClaimCode rawCode)" and ?b = "claimBinding cfg (TrimSpace b) (TrimSpace d)"
  have miss: "fst (redemptionReplay cfg t ?key ?b (TrimSpace rid) (clk 0) s1) = None"
    "claims (snd (redemptionReplay cfg t ?key ?b (TrimSpace rid) (clk 0) s1)) = claims s1"
    "local_redemptions (snd (redemptionReplay cfg t ?key ?b (TrimSpace rid) (clk 0) s1)) ?key = None"
    "\<And>m. code_store (snd (redemptionReplay cfg t ?key ?b (TrimSpace rid) (clk 0) s1)) = Some m \<Longrightarrow> st_redemptions m ?key = None"
    if "local_redemptions s1 ?key = None" "\<And>m. code_store s1 = Some m \<Longrightarrow> st_redemptions m ?key = None" for t s1
    using that
    by (auto simp: redemptionReplay_def mem_GetRedemption_def unexpired_def redemption_hit_def Let_def
        split: option.splits prod.splits)
  define s1 where "s1 = snd (redemptionReplay cfg (clk 1) ?key ?b (TrimSpace rid) (clk 0) s)"
  have s1: "redemptionReplay cfg (clk 1) ?key ?b (TrimSpace rid) (clk 0) s = (None, s1)" "claims s1 = claims s"
    "local_redemptions s1 ?key = None" "\<And>m. code_store s1 = Some m \<Longrightarrow> st_redemptions m ?key = None"
    using miss [OF new] by (simp_all add: s1_def prod_eq_iff)
  have no2: "redemptionReplay cfg t ?key ?b (TrimSpace rid) (clk 0) (s1\<lparr>claims := m\<rparr>) = (Some x, s2) \<Longrightarrow> False"
    "redemptionReplay cfg t ?key ?b (TrimSpace rid) (clk 0) s1 = (Some x, s2) \<Longrightarrow> False" for t m x s2
    using miss(1) [of "s1\<lparr>claims := m\<rparr>" t] miss(1) [of s1 t] s1(3,4) by auto
  show ?thesis
    using run s1(1,2) fresh
    by (auto simp: RedeemBoundHumanClaimCode_def Let_def After_def rememberRedemption_def redeemed_def mem_PutRedemption_def
        split: option.splits prod.splits if_splits dest: no2)
qed

text \<open>
  C31: a human claim code is redeemed once. The first redemption comes from a live code of the same bootstrap and
  device; afterwards, while the authorization lives, a retry with the same redemption identifier by the same
  device gets the same authorization, and every other attempt on the code is refused. The fresh authorization and
  the code are assumed to have different digests.
\<close>

theorem claim_code_single_use:
  assumes "RedeemBoundHumanClaimCode cfg clk rawCode b d rid draw s = (Inr (raw, c), s')"
    and "local_redemptions s (tokenKey cfg (normalizeHumanClaimCode rawCode)) = None"
    and "\<And>m. code_store s = Some m \<Longrightarrow> st_redemptions m (tokenKey cfg (normalizeHumanClaimCode rawCode)) = None"
    and "\<And>x. draw = Some x \<Longrightarrow> tokenKey cfg x \<noteq> tokenKey cfg (normalizeHumanClaimCode rawCode)"
    and "normalizeHumanClaimCode rawCode' = normalizeHumanClaimCode rawCode"
    and "\<forall>k. clk' k < ca_ExpiresAt c"
    and "valid_ref (TrimSpace b')" "valid_ref (TrimSpace d')" "8 \<le> length (TrimSpace rid')" "length (TrimSpace rid') \<le> 128"
  shows "fst (RedeemBoundHumanClaimCode cfg clk' rawCode' b' d' rid' draw' s')
      = (if claimBinding cfg (TrimSpace b') (TrimSpace d') = claimBinding cfg (TrimSpace b) (TrimSpace d)
            \<and> tokenKey cfg (TrimSpace rid') = tokenKey cfg (TrimSpace rid)
         then Inr (raw, c) else Inl Err_InvalidClaim)
    \<and> (\<exists>c0. claims s (tokenKey cfg (normalizeHumanClaimCode rawCode)) = Some c0 \<and> clk 0 < ca_ExpiresAt c0
         \<and> ca_BootstrapID c0 = humanClaimMarker @ claimBinding cfg (TrimSpace b) (TrimSpace d) \<and> ca_UserID c = ca_UserID c0)"
proof -
  note first = redeem_first [OF assms(1-4)]
  have "normalizeHumanClaimCode rawCode \<noteq> []"
    using assms(1) by (auto simp: RedeemBoundHumanClaimCode_def Let_def)
  then show ?thesis
    using redeemed_retry [of cfg rawCode' "TrimSpace rid" raw c s' clk' b' d' rid' draw'] first assms(5-10) by auto
qed

theorem claim_code_single_use_witness:
  "fst (RedeemBoundHumanClaimCode ex_config (\<lambda>_. 2) ex_code ''boot'' ''dev'' ''redemption'' (Some ''other'')
      (snd (RedeemBoundHumanClaimCode ex_config (\<lambda>_. 1) ex_code ''boot'' ''dev'' ''redemption'' (Some ''token'') ex_state)))
     = Inr (''token'', ex_claim\<lparr>ca_BootstrapID := claimBinding ex_config ''boot'' ''dev''\<rparr>)
   \<and> fst (RedeemBoundHumanClaimCode ex_config (\<lambda>_. 2) ex_code ''boot'' ''dev'' ''redemption2'' (Some ''other'')
      (snd (RedeemBoundHumanClaimCode ex_config (\<lambda>_. 1) ex_code ''boot'' ''dev'' ''redemption'' (Some ''token'') ex_state)))
     = Inl Err_InvalidClaim"
proof -
  let ?r = "RedeemBoundHumanClaimCode ex_config (\<lambda>_. 1) ex_code ''boot'' ''dev'' ''redemption'' (Some ''token'') ex_state"
  let ?c = "ex_claim\<lparr>ca_BootstrapID := claimBinding ex_config ''boot'' ''dev''\<rparr>"
  have "set ex_code \<subseteq> set humanClaimCodeAlphabet" by (simp add: ex_code_def humanClaimCodeAlphabet_def)
  from normalize_loop_code [OF this] have code: "normalizeHumanClaimCode ex_code = ex_code"
    using runes_graphic [OF ex_graphic(11)]
    by (simp add: normalizeHumanClaimCode_def o_def) (simp add: ex_code_def humanClaimCodeLength_def)
  have ne: "ex_code \<noteq> []" by (simp add: ex_code_def)
  have run: "?r = (Inr (''token'', ?c), snd ?r)"
    by (simp add: RedeemBoundHumanClaimCode_def code ne valid_ref_def redemptionReplay_def Let_def ex_state_def unexpired_def
        redemption_hit_def After_def prod_eq_iff)
      (simp add: ex_claim_def)
  have facts: "local_redemptions ex_state (tokenKey ex_config (normalizeHumanClaimCode ex_code)) = None" "code_store ex_state = None"
    "tokenKey ex_config ''token'' \<noteq> tokenKey ex_config (normalizeHumanClaimCode ex_code)"
    unfolding code by (simp_all add: ex_state_def tokenKey_def ex_code_def)
  have keys: "tokenKey ex_config ''redemption'' \<noteq> tokenKey ex_config ''redemption2''" by (simp add: tokenKey_def)
  note use = claim_code_single_use [OF run, where rawCode' = ex_code and clk' = "\<lambda>_. 2" and b' = "''boot''" and d' = "''dev''"
      and draw' = "Some ''other''"]
  have exp: "2 < ca_ExpiresAt ?c" by (simp add: ex_claim_def)
  show ?thesis
    using use [where rid' = "''redemption''"] use [where rid' = "''redemption2''"] facts keys exp by (auto simp: valid_ref_def)
qed

end
