(* ===== verification/Claim_Limiter.thy ===== *)
theory Claim_Limiter
  imports Owner_Auth Pg_Tx
begin

text \<open>
  The limit on attempts to redeem claim codes: the process-wide windows of \<open>claim_code.go\<close>, the in-memory store of
  \<open>claim_store.go\<close> and the PostgreSQL table of \<open>pgstore/claim_code.go\<close>. A locale states what a
  fixed-window limiter promises; the three are interpretations.
\<close>

section \<open>The host of an address\<close>

text \<open>\<open>net.SplitHostPort\<close>, the host only; \<open>None\<close> is an error.\<close>

definition last_colon :: "string \<Rightarrow> nat option" where
  "last_colon s = (if CHR '':'' \<in> set s then Some (length s - 1 - length (takeWhile (\<lambda>c. c \<noteq> CHR '':'') (rev s))) else None)"

definition SplitHostPort :: "string \<Rightarrow> string option" where
  "SplitHostPort hostport =
     (case last_colon hostport of
        None \<Rightarrow> None
      | Some i \<Rightarrow>
        if hd hostport = CHR ''[''
        then (let end_pos = length (takeWhile (\<lambda>c. c \<noteq> CHR '']'') hostport) in
              if end_pos = length hostport \<or> end_pos + 1 \<noteq> i then None
              else if CHR ''['' \<in> set (drop 1 hostport) \<or> CHR '']'' \<in> set (drop (end_pos + 1) hostport) then None
              else Some (take (end_pos - 1) (drop 1 hostport)))
        else (let host = take i hostport in
              if CHR '':'' \<in> set host then None
              else if CHR ''['' \<in> set hostport \<or> CHR '']'' \<in> set hostport then None
              else Some host))"

definition attempt_host :: "string \<Rightarrow> string" where
  "attempt_host remote =
     (let trimmed = TrimSpace remote;
          host = (case SplitHostPort trimmed of None \<Rightarrow> trimmed | Some h \<Rightarrow> if h = [] then trimmed else h) in
      if host = [] then ''unknown'' else host)"

section \<open>The windows of the process\<close>

definition allowClaimCodeAttemptMemory ::
    "string \<Rightarrow> time \<Rightarrow> (string \<rightharpoonup> claimCodeAttemptWindow) \<Rightarrow> bool \<times> (string \<rightharpoonup> claimCodeAttemptWindow)" where
  "allowClaimCodeAttemptMemory host now entries =
     (let es = prune_windows Minute now entries in
      case es host of
        None \<Rightarrow> (True, es(host \<mapsto> \<lparr>started = now, count = 1\<rparr>))
      | Some w \<Rightarrow>
          if Sub now (started w) \<ge> Minute then (True, es(host \<mapsto> \<lparr>started = now, count = 1\<rparr>))
          else if count w \<ge> claimCodeAttemptsPerMinute then (False, es)
          else (True, es(host \<mapsto> w\<lparr>count := count w + 1\<rparr>)))"

definition allowClaimCodeAttempt ::
    "string \<Rightarrow> time \<Rightarrow> (string \<rightharpoonup> claimCodeAttemptWindow) \<Rightarrow> bool \<times> (string \<rightharpoonup> claimCodeAttemptWindow)" where
  "allowClaimCodeAttempt remote now entries = allowClaimCodeAttemptMemory (attempt_host remote) now entries"

section \<open>The table of PostgreSQL\<close>

record rate_row =
  rate_key :: string
  attempt_count :: int
  window_started_at :: time

record rate_tables =
  claim_rate_limits :: "rate_row list"

text \<open>The key of a host: trimmed, never empty, at most 256 bytes.\<close>

definition rate_key_of :: "string \<Rightarrow> string" where
  "rate_key_of host = (let k = TrimSpace host in take 256 (if k = [] then ''unknown'' else k))"

text \<open>
  \<open>INSERT ... ON CONFLICT (rate_key) DO UPDATE ... RETURNING attempt_count\<close>. The window is cut to milliseconds, the clock is
  that of the database, and the count is an \<open>integer\<close>, which refuses to overflow.
\<close>

definition rate_upsert :: "time \<Rightarrow> string \<Rightarrow> duration \<Rightarrow> rate_tables \<Rightarrow> (int \<times> rate_tables) option" where
  "rate_upsert pg_now key window t =
     (let interval = quot window Millisecond * Millisecond in
      case find (\<lambda>r. rate_key r = key) (claim_rate_limits t) of
        None \<Rightarrow>
          if key = [] \<or> 256 < RuneCountInString key then None
          else Some (1, t\<lparr>claim_rate_limits := claim_rate_limits t @
                 [\<lparr>rate_key = key, attempt_count = 1, window_started_at = pg_now\<rparr>]\<rparr>)
      | Some r \<Rightarrow>
          (let expired = (interval \<le> pg_now - window_started_at r);
               c = (if expired then 1 else attempt_count r + 1);
               r' = r\<lparr>attempt_count := c, window_started_at := (if expired then pg_now else window_started_at r)\<rparr> in
           if c > 2147483647 then None
           else Some (c, t\<lparr>claim_rate_limits := update_where (\<lambda>x. rate_key x = key) (\<lambda>_. r') (claim_rate_limits t)\<rparr>)))"

text \<open>\<open>PgClaimCodeStore.AllowAttempt\<close>: without a pool, or when the statement fails, the in-memory store decides.\<close>

definition PgAllowAttempt ::
    "bool \<Rightarrow> time \<Rightarrow> time \<Rightarrow> string \<Rightarrow> int \<Rightarrow> duration \<Rightarrow> rate_tables db \<times> MemoryClaimCodeStore
      \<Rightarrow> bool \<times> (rate_tables db \<times> MemoryClaimCodeStore)" where
  "PgAllowAttempt available pg_now go_now host limit window st =
     (case st of (d, fallback) \<Rightarrow>
      if \<not> available
      then (let (ok, f) = mem_AllowAttempt go_now host limit window fallback in (ok, (d, f)))
      else (case (stmt (rate_upsert pg_now (rate_key_of host) window) :: (rate_tables, unit, int) tx) d of
              (Inr c, d') \<Rightarrow> (c \<le> limit, (d', fallback))
            | (Inl _, d') \<Rightarrow>
                (let (ok, f) = mem_AllowAttempt go_now host limit window fallback in (ok, (d', f)))))"

section \<open>What a fixed-window limiter promises\<close>

text \<open>The number of attempts of one key that were allowed in a sequence.\<close>

fun allowed :: "('k \<Rightarrow> time \<Rightarrow> 's \<Rightarrow> bool \<times> 's) \<Rightarrow> 'k \<Rightarrow> ('k \<times> time) list \<Rightarrow> 's \<Rightarrow> int" where
  "allowed step h [] s = 0"
| "allowed step h ((k, now) # xs) s =
     (case step k now s of (ok, s') \<Rightarrow> (if ok \<and> k = h then 1 else 0) + allowed step h xs s')"

locale fixed_window =
  fixes step :: "'k \<Rightarrow> time \<Rightarrow> 's \<Rightarrow> bool \<times> 's"
    and win :: "'s \<Rightarrow> 'k \<Rightarrow> (time \<times> int) option"
    and good :: "'s \<Rightarrow> bool" and adm :: "'k \<Rightarrow> time \<Rightarrow> bool"
    and limit :: int and window :: duration
  assumes limit_pos: "1 \<le> limit"
    and keeps_good: "step h now s = (ok, s') \<Longrightarrow> good s \<Longrightarrow> adm h now \<Longrightarrow> good s'"
    and fresh: "step h now s = (ok, s') \<Longrightarrow> good s \<Longrightarrow> adm h now
      \<Longrightarrow> win s h = None \<or> (\<exists>t c. win s h = Some (t, c) \<and> t + window \<le> now) \<Longrightarrow> ok \<and> win s' h = Some (now, 1)"
    and within: "step h now s = (ok, s') \<Longrightarrow> good s \<Longrightarrow> adm h now \<Longrightarrow> win s h = Some (t, c) \<Longrightarrow> now < t + window
      \<Longrightarrow> (ok \<longleftrightarrow> c < limit) \<and> (\<exists>c'. win s' h = Some (t, c') \<and> (if ok then c + 1 else c) \<le> c')"
    and other_none: "step k now s = (ok, s') \<Longrightarrow> good s \<Longrightarrow> adm k now \<Longrightarrow> h \<noteq> k \<Longrightarrow> win s h = None \<Longrightarrow> win s' h = None"
    and other_some: "step k now s = (ok, s') \<Longrightarrow> good s \<Longrightarrow> adm k now \<Longrightarrow> h \<noteq> k \<Longrightarrow> win s h = Some (t, c)
        \<Longrightarrow> win s' h = Some (t, c) \<or> t + window \<le> now \<and> win s' h = None"
begin

text \<open>Inside one window at most the limit is allowed.\<close>

lemma allowed_one_window:
  assumes "win s h = Some (t, c)" "good s" "\<forall>x \<in> set xs. adm (fst x) (snd x) \<and> snd x < t + window"
  shows "allowed step h xs s \<le> max 0 (limit - c)"
  using assms
proof (induction xs arbitrary: s c)
  case (Cons x xs)
  obtain k now where x: "x = (k, now)" by (cases x)
  obtain ok s' where st: "step k now s = (ok, s')" by (cases "step k now s")
  have now: "now < t + window" and adm: "adm k now" using Cons.prems(3) x by auto
  have good: "good s'" using keeps_good [OF st Cons.prems(2) adm] .
  show ?case
  proof (cases "k = h")
    case True
    then obtain c' where c': "ok \<longleftrightarrow> c < limit" "win s' h = Some (t, c')" "(if ok then c + 1 else c) \<le> c'"
      using within [OF st Cons.prems(2) adm, of t c] Cons.prems(1) now by blast
    have "allowed step h xs s' \<le> max 0 (limit - c')" using Cons.IH [OF c'(2) good] Cons.prems(3) by simp
    then show ?thesis using x st True c' by (auto split: if_splits)
  next
    case False
    then have "win s' h = Some (t, c)" using other_some [OF st Cons.prems(2) adm _ Cons.prems(1)] now by fastforce
    then have "allowed step h xs s' \<le> max 0 (limit - c)" using Cons.IH good Cons.prems(3) by simp
    then show ?thesis using x st False by simp
  qed
qed simp

lemma allowed_new_window:
  assumes "win s h = Some (now, 1)" "good s" "t0 \<le> now" "\<forall>x \<in> set xs. adm (fst x) (snd x) \<and> t0 \<le> snd x \<and> snd x < t0 + window"
  shows "1 + allowed step h xs s \<le> limit"
proof -
  have "\<forall>x \<in> set xs. adm (fst x) (snd x) \<and> snd x < now + window" using assms(3,4) by fastforce
  then have "allowed step h xs s \<le> max 0 (limit - 1)" by (rule allowed_one_window [OF assms(1,2)])
  then show ?thesis using limit_pos by simp
qed

lemma allowed_no_window:
  assumes "win s h = None" "good s" "\<forall>x \<in> set xs. adm (fst x) (snd x) \<and> t0 \<le> snd x \<and> snd x < t0 + window"
  shows "allowed step h xs s \<le> limit"
  using assms
proof (induction xs arbitrary: s)
  case (Cons x xs)
  obtain k now where x: "x = (k, now)" by (cases x)
  obtain ok s' where st: "step k now s = (ok, s')" by (cases "step k now s")
  have adm: "adm k now" "t0 \<le> now" using Cons.prems(3) x by auto
  have good: "good s'" using keeps_good [OF st Cons.prems(2) adm(1)] .
  show ?case
  proof (cases "k = h")
    case True
    then have ok: "ok" "win s' h = Some (now, 1)"
      using fresh [OF st Cons.prems(2) adm(1)] Cons.prems(1) by auto
    then show ?thesis using allowed_new_window [OF ok(2) good adm(2), of xs] Cons.prems(3) x st True by simp
  next
    case False
    then have "win s' h = None" using other_none [OF st Cons.prems(2) adm(1)] Cons.prems(1) by auto
    then have "allowed step h xs s' \<le> limit" using Cons.IH good Cons.prems(3) by simp
    then show ?thesis using x st False by simp
  qed
qed (use limit_pos in simp)

lemma allowed_some_window:
  assumes "win s h = Some (t, c)" "good s" "\<forall>x \<in> set xs. adm (fst x) (snd x) \<and> t0 \<le> snd x \<and> snd x < t0 + window"
  shows "allowed step h xs s \<le> max 0 (limit - c) + limit"
  using assms
proof (induction xs arbitrary: s c)
  case (Cons x xs)
  obtain k now where x: "x = (k, now)" by (cases x)
  obtain ok s' where st: "step k now s = (ok, s')" by (cases "step k now s")
  have adm: "adm k now" "t0 \<le> now" using Cons.prems(3) x by auto
  have good: "good s'" using keeps_good [OF st Cons.prems(2) adm(1)] .
  have rest: "\<forall>y \<in> set xs. adm (fst y) (snd y) \<and> t0 \<le> snd y \<and> snd y < t0 + window" using Cons.prems(3) by simp
  consider (new) "k = h" "t + window \<le> now" | (pass) "k = h" "now < t + window" | (other) "k \<noteq> h" by linarith
  then show ?case
  proof cases
    case new
    then have ok: "ok" "win s' h = Some (now, 1)"
      using fresh [OF st Cons.prems(2) adm(1)] Cons.prems(1) by auto
    then show ?thesis using allowed_new_window [OF ok(2) good adm(2) rest] x st new by simp
  next
    case pass
    then obtain c' where c': "ok \<longleftrightarrow> c < limit" "win s' h = Some (t, c')" "(if ok then c + 1 else c) \<le> c'"
      using within [OF st Cons.prems(2) adm(1), of t c] Cons.prems(1) by blast
    have "allowed step h xs s' \<le> max 0 (limit - c') + limit" using Cons.IH [OF c'(2) good rest] .
    then show ?thesis using x st pass c' by (auto split: if_splits)
  next
    case other
    then have "h \<noteq> k" by simp
    from other_some [OF st Cons.prems(2) adm(1) this Cons.prems(1)]
    have "win s' h = Some (t, c) \<or> win s' h = None" by auto
    then have "allowed step h xs s' \<le> max 0 (limit - c) + limit"
      using Cons.IH [OF _ good rest] allowed_no_window [of s' h, OF _ good rest] by fastforce
    then show ?thesis using x st other by simp
  qed
qed (use limit_pos in simp)

text \<open>
  In any interval that is not longer than the window at most twice the limit is allowed: only one new window
  can start in it.
\<close>

theorem allowed_bound:
  assumes "good s" "\<forall>x \<in> set xs. adm (fst x) (snd x) \<and> t0 \<le> snd x \<and> snd x < t0 + window"
    "\<And>t c. win s h = Some (t, c) \<Longrightarrow> 0 \<le> c"
  shows "allowed step h xs s \<le> 2 * limit"
proof (cases "win s h")
  case None
  then show ?thesis using allowed_no_window [OF None assms(1,2)] limit_pos by simp
next
  case (Some w)
  then obtain t c where "win s h = Some (t, c)" by (cases w) simp
  then show ?thesis using allowed_some_window [OF _ assms(1,2), of h t c] assms(3) limit_pos by fastforce
qed

end

section \<open>The three limiters\<close>

lemma Sub_ge: "0 \<le> w \<Longrightarrow> in_int64 w \<Longrightarrow> Sub a b \<ge> w \<longleftrightarrow> b + w \<le> a"
  by (auto simp: Sub_def in_int64_def int64_min_def int64_max_def)

lemma Minute_ge: "Sub a b \<ge> Minute \<longleftrightarrow> b + Minute \<le> a"
  by (rule Sub_ge) (simp_all add: in_int64_def int64_min_def int64_max_def Minute_def)

definition entry_window :: "(string \<rightharpoonup> claimCodeAttemptWindow) \<Rightarrow> string \<Rightarrow> (time \<times> int) option" where
  "entry_window m h = map_option (\<lambda>w. (started w, count w)) (m h)"

lemma Minute_pos: "0 < Minute"
  by (simp add: Minute_def)

lemma prune_windows_Minute:
  "prune_windows Minute now m h = (case m h of None \<Rightarrow> None | Some w \<Rightarrow> if started w + Minute \<le> now then None else Some w)"
  by (simp add: prune_windows_def Minute_ge split: option.split)

interpretation process_limiter:
  fixed_window allowClaimCodeAttemptMemory entry_window "\<lambda>_. True" "\<lambda>_ _. True" claimCodeAttemptsPerMinute Minute
  by unfold_locales
    (auto simp: allowClaimCodeAttemptMemory_def entry_window_def prune_windows_Minute Let_def claimCodeAttemptsPerMinute_def
      Minute_ge split: option.splits if_splits)

text \<open>The in-memory store reads a window that started at the zero time as no window.\<close>

definition mem_attempt :: "int \<Rightarrow> string \<Rightarrow> time \<Rightarrow> MemoryClaimCodeStore \<Rightarrow> bool \<times> MemoryClaimCodeStore" where
  "mem_attempt limit host now m = mem_AllowAttempt now host limit Minute m"

definition started_ok :: "MemoryClaimCodeStore \<Rightarrow> bool" where
  "started_ok m \<longleftrightarrow> (\<forall>h w. attempts m h = Some w \<longrightarrow> started w \<noteq> 0)"

interpretation store_limiter:
  fixed_window "mem_attempt 6" "\<lambda>m. entry_window (attempts m)" started_ok "\<lambda>_ now. now \<noteq> 0" 6 Minute
  by unfold_locales
    (auto simp: mem_attempt_def mem_AllowAttempt_def entry_window_def prune_windows_Minute Let_def started_ok_def IsZero_def
      Minute_ge split: option.splits if_splits)

text \<open>
  The decision of the table on a key, as long as the statement runs. A statement that fails lets nothing through
  here; \<open>PgAllowAttempt\<close> then asks the in-memory store, whose windows are bounded on their own.
\<close>

definition table_attempt :: "int \<Rightarrow> string \<Rightarrow> time \<Rightarrow> rate_tables \<Rightarrow> bool \<times> rate_tables" where
  "table_attempt limit key now t =
     (case rate_upsert now key Minute t of None \<Rightarrow> (False, t) | Some (c, t') \<Rightarrow> (c \<le> limit, t'))"

definition row_window :: "rate_tables \<Rightarrow> string \<Rightarrow> (time \<times> int) option" where
  "row_window t key = map_option (\<lambda>r. (window_started_at r, attempt_count r))
     (find (\<lambda>r. rate_key r = key) (claim_rate_limits t))"

lemma interval_Minute: "quot Minute Millisecond * Millisecond = Minute"
  by (simp add: quot_def Minute_def Millisecond_def)

lemma find_row_update:
  "rate_key r' = k \<Longrightarrow> find (\<lambda>r. rate_key r = h) (update_where (\<lambda>x. rate_key x = k) (\<lambda>_. r') rows)
     = map_option (\<lambda>r. if rate_key r = k then r' else r) (find (\<lambda>r. rate_key r = h) rows)"
  by (rule find_update_where) simp

lemma table_attempt_new:
  assumes "row_window t k = None" "k \<noteq> []" "RuneCountInString k \<le> 256" "table_attempt limit k now t = (ok, t')"
  shows "ok = (1 \<le> limit) \<and> row_window t' h = (if h = k then Some (now, 1) else row_window t h)"
  using assms
  by (auto simp: table_attempt_def rate_upsert_def row_window_def find_append interval_Minute split: option.splits)

lemma table_attempt_old:
  assumes "row_window t k = Some (st, c)" "table_attempt limit k now t = (ok, t')"
  shows "if st + Minute \<le> now then ok = (1 \<le> limit) \<and> row_window t' k = Some (now, 1)
     else if c < 2147483647 then ok = (c + 1 \<le> limit) \<and> row_window t' k = Some (st, c + 1)
     else \<not> ok \<and> row_window t' k = Some (st, c)"
    and "h \<noteq> k \<Longrightarrow> row_window t' h = row_window t h"
proof -
  obtain r where r: "find (\<lambda>r. rate_key r = k) (claim_rate_limits t) = Some r" "st = window_started_at r" "c = attempt_count r"
    using assms(1) by (auto simp: row_window_def)
  have k: "rate_key r = k" using find_Some_in_set [OF r(1)] by simp
  show "if st + Minute \<le> now then ok = (1 \<le> limit) \<and> row_window t' k = Some (now, 1)
     else if c < 2147483647 then ok = (c + 1 \<le> limit) \<and> row_window t' k = Some (st, c + 1)
     else \<not> ok \<and> row_window t' k = Some (st, c)"
    using assms r k by (auto simp: table_attempt_def rate_upsert_def row_window_def find_row_update interval_Minute Let_def split: if_splits)
  assume "h \<noteq> k"
  then have "map_option (\<lambda>r. if rate_key r = k then x else r) (find (\<lambda>r. rate_key r = h) (claim_rate_limits t))
      = find (\<lambda>r. rate_key r = h) (claim_rate_limits t)" for x
    by (cases "find (\<lambda>r. rate_key r = h) (claim_rate_limits t)") (auto dest: find_Some_in_set)
  then show "row_window t' h = row_window t h"
    using assms(2) r k by (auto simp: table_attempt_def rate_upsert_def row_window_def find_row_update interval_Minute Let_def split: if_splits)
qed

interpretation table_limiter:
  fixed_window "table_attempt 6" row_window "\<lambda>_. True" "\<lambda>k _. k \<noteq> [] \<and> RuneCountInString k \<le> 256" 6 Minute
proof (unfold_locales, goal_cases)
  case (3 k now t ok t')
  then show ?case using table_attempt_new [of t k 6 now ok t' k] table_attempt_old(1) [of t k _ _ 6 now ok t'] by fastforce
next
  case (4 k now t ok t' st c)
  then show ?case using table_attempt_old(1) [OF 4(4,1)] by (auto split: if_splits)
next
  case (5 k now t ok t' h)
  then show ?case
    using table_attempt_new [of t k 6 now ok t' h] table_attempt_old(2) [of t k _ _ 6 now ok t' h]
    by (cases "row_window t k") auto
next
  case (6 k now t ok t' h st c)
  then show ?case
    using table_attempt_new [of t k 6 now ok t' h] table_attempt_old(2) [of t k _ _ 6 now ok t' h]
    by (cases "row_window t k") auto
qed simp_all

end
