(* ===== verification/Claim_Contract.thy ===== *)
theory Claim_Contract
  imports Claim_Session
begin

text \<open>
  The contract of a claim-session store, as a state machine over what is visible of one session,
  and what a client may conclude from it. The locale states the contract; both stores are shown to
  implement it by the interpretations at the end.
\<close>

section \<open>The operations as one interface\<close>

datatype claim_op =
  OpCreate ClaimSessionRecord
| OpApprove string string time
| OpDeny string time
| OpPoll string duration time mint
| OpAuthorize string string string time

datatype claim_result = RDone | RPoll PollOutcome | ROwner string | RFail "claim_error failure"

definition to_result :: "('a \<Rightarrow> claim_result) \<Rightarrow> claim_error failure + 'a \<Rightarrow> claim_result" where
  "to_result f res = (case res of Inl e \<Rightarrow> RFail e | Inr x \<Rightarrow> f x)"

lemma to_result_eq [simp]:
  "to_result f (Inl e) = RFail e" "to_result f (Inr x) = f x"
  by (simp_all add: to_result_def)

fun mem_exec :: "string list \<Rightarrow> claim_op \<Rightarrow> MemoryClaimSessionStore \<Rightarrow> claim_result \<times> MemoryClaimSessionStore" where
  "mem_exec order (OpCreate r) m = map_prod (to_result (\<lambda>_. RDone)) id (mem_CreateSession r m)"
| "mem_exec order (OpApprove sid own now) m = map_prod (to_result (\<lambda>_. RDone)) id (mem_ApproveSession sid own now m)"
| "mem_exec order (OpDeny sid now) m = map_prod (to_result (\<lambda>_. RDone)) id (mem_DenySession sid now m)"
| "mem_exec order (OpPoll code iv now mint) m = map_prod (to_result RPoll) id (mem_PollSession code iv now mint m)"
| "mem_exec order (OpAuthorize raw b dev now) m = map_prod (to_result ROwner) id (mem_AuthorizeClaim order raw b dev now m)"

text \<open>
  The methods of \<open>PgClaimSessionStore\<close>: each refuses when the store has no connection pool and otherwise
  calls the store. The clocks of the database and of the process are arguments.
\<close>

record claim_env =
  pool_available :: bool
  db_clock :: time
  go_clock :: time

definition with_pool :: "claim_env \<Rightarrow> 'a claim_tx \<Rightarrow> 'a claim_tx" where
  "with_pool env m = (if pool_available env then m else tx_fail (Invalid ''postgres store not available''))"

definition PgGetSessionByID :: "claim_env \<Rightarrow> string \<Rightarrow> ClaimSessionRecord claim_tx" where
  "PgGetSessionByID env sessionID = with_pool env (GetClaimSessionByID (go_clock env) sessionID)"

definition PgGetSessionByDeviceCodeHash :: "claim_env \<Rightarrow> string \<Rightarrow> ClaimSessionRecord claim_tx" where
  "PgGetSessionByDeviceCodeHash env deviceCodeHash =
     with_pool env (GetClaimSessionByDeviceCodeHash (go_clock env) deviceCodeHash)"

fun pg_exec :: "claim_env \<Rightarrow> claim_op \<Rightarrow> claim_tables db \<Rightarrow> claim_result \<times> claim_tables db" where
  "pg_exec env (OpCreate r) d =
     map_prod (to_result (\<lambda>_. RDone)) id (with_pool env (CreateClaimSession (db_clock env) r) d)"
| "pg_exec env (OpApprove sid own now) d =
     map_prod (to_result (\<lambda>_. RDone)) id (with_pool env (ApproveClaimSession (go_clock env) sid own now) d)"
| "pg_exec env (OpDeny sid now) d =
     map_prod (to_result (\<lambda>_. RDone)) id (with_pool env (DenyClaimSession (go_clock env) sid now) d)"
| "pg_exec env (OpPoll code iv now mint) d =
     map_prod (to_result RPoll) id (with_pool env (PollClaimSession code iv now mint) d)"
| "pg_exec env (OpAuthorize raw b dev now) d =
     map_prod (to_result ROwner) id (with_pool env (AuthorizeClaimSession raw b dev now) d)"

section \<open>The state machine of one session\<close>

record claim_view =
  v_Code :: string
  v_Device :: string
  v_Bootstrap :: string
  v_Expires :: time
  v_Status :: string
  v_Owner :: string
  v_Token :: string
  v_TokenExpires :: "time option"

definition is_new :: "claim_view \<Rightarrow> bool" where
  "is_new v \<longleftrightarrow> v_Status v = ClaimSessionPending \<and> v_Owner v = [] \<and> v_Token v = [] \<and> v_TokenExpires v = None"

text \<open>What the service hands to the store when it creates a session.\<close>

fun creates_pending :: "claim_op \<Rightarrow> bool" where
  "creates_pending (OpCreate r) \<longleftrightarrow> cs_Status r = ClaimSessionPending \<and> cs_OwnerUserID r = []
     \<and> cs_ClaimAuthorization r = [] \<and> cs_ClaimAuthExpiresAt r = None"
| "creates_pending _ \<longleftrightarrow> True"

fun op_now :: "claim_op \<Rightarrow> time option" where
  "op_now (OpApprove _ _ now) = Some now"
| "op_now (OpDeny _ now) = Some now"
| "op_now (OpPoll _ _ now _) = Some now"
| "op_now _ = None"

text \<open>
  The moves of the session with identifier \<open>i\<close> under an operation. The argument \<open>stamp\<close> is the precision of
  the store: the identity for Go instants, truncation to microseconds for PostgreSQL.
\<close>

inductive claim_move :: "(time \<Rightarrow> time) \<Rightarrow> claim_op \<Rightarrow> string \<Rightarrow> claim_view option \<Rightarrow> claim_view option \<Rightarrow> bool"
  for stamp :: "time \<Rightarrow> time" where
  same: "claim_move stamp opr i v v"
| create: "claim_move stamp (OpCreate r) i None (Some v)" if "is_new v" "i \<in> {cs_SessionID r, TrimSpace (cs_SessionID r)}"
| expire: "claim_move stamp opr i (Some v) (Some (v\<lparr>v_Status := ClaimSessionExpired\<rparr>))"
    if "op_now opr = Some now" "v_Expires v \<le> now"
| approve: "claim_move stamp (OpApprove sid own now) i (Some v)
      (Some (v\<lparr>v_Status := ClaimSessionApproved, v_Owner := TrimSpace own\<rparr>))"
    if "i \<in> {sid, TrimSpace sid}" "v_Status v = ClaimSessionPending" "stamp now < v_Expires v"
| deny: "claim_move stamp (OpDeny sid now) i (Some v) (Some (v\<lparr>v_Status := ClaimSessionDenied\<rparr>))"
    if "i \<in> {sid, TrimSpace sid}" "v_Status v = ClaimSessionPending" "stamp now < v_Expires v"
| consume: "claim_move stamp (OpPoll code iv now mint) i (Some v)
      (Some (v\<lparr>v_Status := ClaimSessionConsumed, v_Token := tok, v_TokenExpires := Some (stamp exp)\<rparr>))"
    if "v_Code v \<in> {code, TrimSpace code}" "v_Status v = ClaimSessionApproved" "now < v_Expires v"
      "mint (v_Bootstrap v) (v_Device v) (v_Owner v) = Inr (tok, exp)"

inductive_simps claim_move_None: "claim_move stamp opr i v None"
inductive_cases claim_move_SomeE: "claim_move stamp opr i (Some v) w"

text \<open>The statuses from which a session cannot come back to grant an authorization anew.\<close>

lemma claim_move_static:
  assumes "claim_move stamp opr i (Some v) w"
  obtains v' where "w = Some v'" "v_Code v' = v_Code v" "v_Device v' = v_Device v" "v_Bootstrap v' = v_Bootstrap v"
    "v_Expires v' = v_Expires v"
  using assms by (cases rule: claim_move.cases) auto

lemma claim_move_consumed:
  assumes "claim_move stamp opr i (Some v) (Some v')" "v_Status v \<in> {ClaimSessionConsumed, ClaimSessionExpired}"
  shows "v_Status v' \<in> {ClaimSessionConsumed, ClaimSessionExpired} \<and> v_Token v' = v_Token v
    \<and> v_Owner v' = v_Owner v \<and> v_TokenExpires v' = v_TokenExpires v"
  using assms by (cases rule: claim_move.cases) auto

lemma claim_move_denied:
  assumes "claim_move stamp opr i (Some v) (Some v')" "v_Status v \<in> {ClaimSessionDenied, ClaimSessionExpired}"
  shows "v_Status v' \<in> {ClaimSessionDenied, ClaimSessionExpired}"
  using assms by (cases rule: claim_move.cases) auto

text \<open>What the history of a session must contain to explain its owner and its authorization.\<close>

definition approved_in :: "(time \<Rightarrow> time) \<Rightarrow> claim_op set \<Rightarrow> string \<Rightarrow> claim_view \<Rightarrow> bool" where
  "approved_in stamp H i v \<longleftrightarrow>
     (\<exists>sid own now. OpApprove sid own now \<in> H \<and> i \<in> {sid, TrimSpace sid}
        \<and> v_Owner v = TrimSpace own \<and> stamp now < v_Expires v)"

definition minted_in :: "(time \<Rightarrow> time) \<Rightarrow> claim_op set \<Rightarrow> claim_view \<Rightarrow> bool" where
  "minted_in stamp H v \<longleftrightarrow>
     (\<exists>code iv now mint exp. OpPoll code iv now mint \<in> H \<and> v_Code v \<in> {code, TrimSpace code}
        \<and> now < v_Expires v \<and> mint (v_Bootstrap v) (v_Device v) (v_Owner v) = Inr (v_Token v, exp)
        \<and> v_TokenExpires v = Some (stamp exp))"

definition explained :: "(time \<Rightarrow> time) \<Rightarrow> claim_op set \<Rightarrow> string \<Rightarrow> claim_view \<Rightarrow> bool" where
  "explained stamp H i v \<longleftrightarrow>
     (v_Status v \<in> {ClaimSessionApproved, ClaimSessionConsumed} \<longrightarrow> approved_in stamp H i v)
     \<and> (v_Status v = ClaimSessionConsumed \<longrightarrow> minted_in stamp H v)"

lemma approved_in_mono: "approved_in stamp H i v \<Longrightarrow> H \<subseteq> H' \<Longrightarrow> approved_in stamp H' i v"
  unfolding approved_in_def by blast

lemma minted_in_mono: "minted_in stamp H v \<Longrightarrow> H \<subseteq> H' \<Longrightarrow> minted_in stamp H' v"
  unfolding minted_in_def by blast

lemma explained_mono: "explained stamp H i v \<Longrightarrow> H \<subseteq> H' \<Longrightarrow> explained stamp H' i v"
  unfolding explained_def using approved_in_mono minted_in_mono by blast

lemma minted_in_consume:
  assumes "v_Code v \<in> {code, TrimSpace code}" "now < v_Expires v"
    "mint (v_Bootstrap v) (v_Device v) (v_Owner v) = Inr (tok, exp)"
  shows "minted_in stamp (insert (OpPoll code iv now mint) H)
    (v\<lparr>v_Status := st, v_Token := tok, v_TokenExpires := Some (stamp exp)\<rparr>)"
  unfolding minted_in_def
  by (rule exI [of _ code], rule exI [of _ iv], rule exI [of _ now], rule exI [of _ mint], rule exI [of _ exp])
    (use assms in simp)

lemma explained_move:
  assumes "claim_move stamp opr i w (Some v')" "\<And>v. w = Some v \<Longrightarrow> explained stamp H i v"
  shows "explained stamp (insert opr H) i v'"
  using assms(1)
proof (cases rule: claim_move.cases)
  case same
  then show ?thesis using assms(2) explained_mono by blast
next
  case create
  then show ?thesis by (auto simp: explained_def is_new_def)
next
  case expire
  then show ?thesis by (auto simp: explained_def)
next
  case (approve sid own now v)
  then show ?thesis by (auto simp: explained_def approved_in_def)
next
  case deny
  then show ?thesis by (auto simp: explained_def)
next
  case (consume v code now mint tok exp iv)
  then have "approved_in stamp (insert opr H) i v"
    using assms(2) approved_in_mono unfolding explained_def by blast
  then have "approved_in stamp (insert opr H) i v'" using consume by (simp add: approved_in_def)
  moreover have "minted_in stamp (insert opr H) v'" using consume minted_in_consume by simp
  ultimately show ?thesis by (simp add: explained_def)
qed

section \<open>The contract\<close>

text \<open>A sequence of operations, each with what its environment supplies to it.\<close>

fun run_ops :: "('env \<Rightarrow> claim_op \<Rightarrow> 's \<Rightarrow> claim_result \<times> 's) \<Rightarrow> ('env \<times> claim_op) list \<Rightarrow> 's \<Rightarrow> 's" where
  "run_ops f [] s = s"
| "run_ops f ((env, opr) # ops) s = run_ops f ops (snd (f env opr s))"

lemma run_ops_append: "run_ops f (xs @ ys) s = run_ops f ys (run_ops f xs s)"
  by (induction f xs s rule: run_ops.induct) auto

locale claim_session_store =
  fixes exec_op :: "'env \<Rightarrow> claim_op \<Rightarrow> 's \<Rightarrow> claim_result \<times> 's"
    and look :: "'s \<Rightarrow> string \<Rightarrow> claim_view option"
    and ok :: "'s \<Rightarrow> bool"
    and stamp :: "time \<Rightarrow> time"
  assumes keeps_ok: "ok s \<Longrightarrow> creates_pending opr \<Longrightarrow> exec_op env opr s = (res, s') \<Longrightarrow> ok s'"
    and moves: "ok s \<Longrightarrow> creates_pending opr \<Longrightarrow> exec_op env opr s = (res, s')
      \<Longrightarrow> claim_move stamp opr i (look s i) (look s' i)"
    and code_unique: "ok s \<Longrightarrow> look s i = Some v \<Longrightarrow> look s j = Some w \<Longrightarrow> v_Code v = v_Code w \<Longrightarrow> i = j"
    and poll_approved: "ok s \<Longrightarrow> exec_op env (OpPoll code iv now mint) s = (RPoll out, s')
      \<Longrightarrow> po_Status out = PollOutcomeApproved
      \<Longrightarrow> \<exists>i v. look s' i = Some v \<and> v_Code v \<in> {code, TrimSpace code} \<and> v_Status v = ClaimSessionConsumed
            \<and> v_Token v = po_ClaimAuthorization out \<and> v_TokenExpires v = Some (stamp (po_ExpiresAt out))"
    and authorized: "ok s \<Longrightarrow> exec_op env (OpAuthorize raw boot dev now) s = (ROwner own, s')
      \<Longrightarrow> \<exists>i v e. look s i = Some v \<and> v_Status v = ClaimSessionConsumed \<and> v_Token v = TrimSpace raw
            \<and> v_Bootstrap v = TrimSpace boot \<and> v_Device v = TrimSpace dev \<and> TrimSpace (v_Owner v) = TrimSpace own
            \<and> TrimSpace own \<noteq> [] \<and> v_TokenExpires v = Some e \<and> stamp now < e"
begin

lemma step_moves:
  "ok s \<Longrightarrow> creates_pending opr \<Longrightarrow> claim_move stamp opr i (look s i) (look (snd (exec_op env opr s)) i)"
  using moves by (metis prod.collapse)

lemma step_ok: "ok s \<Longrightarrow> creates_pending opr \<Longrightarrow> ok (snd (exec_op env opr s))"
  using keeps_ok by (metis prod.collapse)

lemma run_ok: "ok s \<Longrightarrow> \<forall>x \<in> set ops. creates_pending (snd x) \<Longrightarrow> ok (run_ops exec_op ops s)"
proof (induction ops arbitrary: s)
  case (Cons x ops)
  then show ?case by (cases x) (auto intro: step_ok)
qed simp

lemma run_keeps:
  assumes step: "\<And>opr v v'. claim_move stamp opr i (Some v) (Some v') \<Longrightarrow> P v \<Longrightarrow> P v'"
  shows "ok s \<Longrightarrow> \<forall>x \<in> set ops. creates_pending (snd x) \<Longrightarrow> look s i = Some v \<Longrightarrow> P v
    \<Longrightarrow> \<exists>v'. look (run_ops exec_op ops s) i = Some v' \<and> P v'"
proof (induction ops arbitrary: s v)
  case (Cons x ops)
  obtain env opr where x: "x = (env, opr)" by (cases x)
  have mv: "claim_move stamp opr i (Some v) (look (snd (exec_op env opr s)) i)"
    using Cons.prems x step_moves by (metis list.set_intros(1) snd_conv)
  then obtain v1 where "look (snd (exec_op env opr s)) i = Some v1"
    by (rule claim_move_static)
  then show ?case
    using Cons x mv step step_ok by auto
qed auto

text \<open>An authorization, once minted for a session, is the only one the session ever shows.\<close>

lemma run_consumed:
  assumes "ok s" "\<forall>x \<in> set ops. creates_pending (snd x)" "look s i = Some v" "v_Status v = ClaimSessionConsumed"
  shows "\<exists>v'. look (run_ops exec_op ops s) i = Some v' \<and> v_Code v' = v_Code v \<and> v_Token v' = v_Token v \<and> v_Owner v' = v_Owner v
    \<and> v_TokenExpires v' = v_TokenExpires v"
proof -
  let ?P = "\<lambda>v'. v_Status v' \<in> {ClaimSessionConsumed, ClaimSessionExpired} \<and> v_Code v' = v_Code v
    \<and> v_Token v' = v_Token v \<and> v_Owner v' = v_Owner v \<and> v_TokenExpires v' = v_TokenExpires v"
  have "?P v''" if "claim_move stamp opr i (Some v') (Some v'')" "?P v'" for opr v' v''
    using claim_move_consumed [OF that(1)] claim_move_static [OF that(1)] that(2) by fastforce
  then have "\<exists>v'. look (run_ops exec_op ops s) i = Some v' \<and> ?P v'"
    using run_keeps [of i ?P s ops v] assms by simp
  then show ?thesis by blast
qed

lemma run_denied:
  assumes "ok s" "\<forall>x \<in> set ops. creates_pending (snd x)" "look s i = Some v" "v_Status v = ClaimSessionDenied"
  shows "\<exists>v'. look (run_ops exec_op ops s) i = Some v' \<and> v_Code v' = v_Code v
    \<and> v_Status v' \<in> {ClaimSessionDenied, ClaimSessionExpired}"
proof -
  let ?P = "\<lambda>v'. v_Status v' \<in> {ClaimSessionDenied, ClaimSessionExpired} \<and> v_Code v' = v_Code v"
  have "?P v''" if "claim_move stamp opr i (Some v') (Some v'')" "?P v'" for opr v' v''
    using claim_move_denied [OF that(1)] claim_move_static [OF that(1)] that(2) by fastforce
  then show ?thesis
    using run_keeps [of i ?P s ops v] assms by auto
qed

lemma run_explained:
  assumes "ok s" "\<forall>x \<in> set ops. creates_pending (snd x)" "\<And>i v. look s i = Some v \<Longrightarrow> explained stamp H i v"
    "look (run_ops exec_op ops s) i = Some v"
  shows "explained stamp (H \<union> snd ` set ops) i v"
  using assms
proof (induction ops arbitrary: s H)
  case (Cons x ops)
  obtain env opr where x: "x = (env, opr)" by (cases x)
  let ?s = "snd (exec_op env opr s)"
  have "explained stamp (insert opr H) j w" if "look ?s j = Some w" for j w
    using explained_move [of stamp opr j "look s j" w H] step_moves [of s opr j env] that Cons.prems x by auto
  then have "explained stamp (insert opr H \<union> snd ` set ops) i v"
    using Cons.IH [of ?s "insert opr H"] Cons.prems x step_ok by auto
  then show ?case using x by simp
qed auto

text \<open>
  No authorization without approval: what a poll hands out was minted for the bootstrap and the device of
  the session and for the owner who approved it in time.
\<close>

theorem poll_provenance:
  assumes "ok s" "\<And>i. look s i = None" "\<forall>x \<in> set ops. creates_pending (snd x)"
    "exec_op env (OpPoll code iv now mint) (run_ops exec_op ops s) = (RPoll out, s')" "po_Status out = PollOutcomeApproved"
  shows "\<exists>i v. look s' i = Some v \<and> v_Code v \<in> {code, TrimSpace code}
    \<and> v_Token v = po_ClaimAuthorization out
    \<and> approved_in stamp (snd ` set ops) i v
    \<and> minted_in stamp (insert (OpPoll code iv now mint) (snd ` set ops)) v"
proof -
  let ?ops = "ops @ [(env, OpPoll code iv now mint)]"
  have ok': "ok (run_ops exec_op ops s)" using run_ok assms by blast
  have s': "run_ops exec_op ?ops s = s'" using assms(4) by (simp add: run_ops_append)
  obtain i v where iv: "look s' i = Some v" "v_Code v \<in> {code, TrimSpace code}" "v_Status v = ClaimSessionConsumed"
    "v_Token v = po_ClaimAuthorization out"
    using poll_approved [OF ok' assms(4,5)] by blast
  have "explained stamp ({} \<union> snd ` set ?ops) i v"
    using run_explained [of s ?ops "{}" i v] assms(1,2,3) iv(1) s' by simp
  then have "explained stamp (insert (OpPoll code iv now mint) (snd ` set ops)) i v" by simp
  then have "approved_in stamp (snd ` set ops) i v"
    "minted_in stamp (insert (OpPoll code iv now mint) (snd ` set ops)) v"
    using iv(3) by (simp_all add: explained_def) (auto simp: approved_in_def)
  then show ?thesis using iv by blast
qed

text \<open>The same for the use of an authorization: the owner it names approved the session it was minted for.\<close>

theorem authorize_provenance:
  assumes "ok s" "\<And>i. look s i = None" "\<forall>x \<in> set ops. creates_pending (snd x)"
    "exec_op env (OpAuthorize raw boot dev now) (run_ops exec_op ops s) = (ROwner own, s')"
  shows "\<exists>i v e. approved_in stamp (snd ` set ops) i v \<and> minted_in stamp (snd ` set ops) v
    \<and> v_Token v = TrimSpace raw \<and> v_Bootstrap v = TrimSpace boot \<and> v_Device v = TrimSpace dev
    \<and> TrimSpace (v_Owner v) = TrimSpace own \<and> TrimSpace own \<noteq> [] \<and> v_TokenExpires v = Some e \<and> stamp now < e"
proof -
  have ok': "ok (run_ops exec_op ops s)" using run_ok assms by blast
  obtain i v e where iv: "look (run_ops exec_op ops s) i = Some v" "v_Status v = ClaimSessionConsumed"
    and rest: "v_Token v = TrimSpace raw" "v_Bootstrap v = TrimSpace boot" "v_Device v = TrimSpace dev"
      "TrimSpace (v_Owner v) = TrimSpace own" "TrimSpace own \<noteq> []" "v_TokenExpires v = Some e" "stamp now < e"
    using authorized [OF ok' assms(4)] by blast
  have "explained stamp ({} \<union> snd ` set ops) i v"
    using run_explained [of s ops "{}" i v] assms(1,2,3) iv(1) by simp
  then have "approved_in stamp (snd ` set ops) i v" "minted_in stamp (snd ` set ops) v"
    using iv(2) by (simp_all add: explained_def)
  then show ?thesis using rest by blast
qed

text \<open>One authorization for a session: two polls of the same device code that hand one out hand out the same.\<close>

theorem poll_same_token:
  assumes "ok s" "\<forall>x \<in> set ops. creates_pending (snd x)"
    "exec_op env (OpPoll code iv now mint) s = (RPoll out, s1)" "po_Status out = PollOutcomeApproved"
    "exec_op env' (OpPoll code iv' now' mint') (run_ops exec_op ops s1) = (RPoll out', s2)" "po_Status out' = PollOutcomeApproved"
    "TrimSpace code = code"
  shows "po_ClaimAuthorization out' = po_ClaimAuthorization out \<and> stamp (po_ExpiresAt out') = stamp (po_ExpiresAt out)"
proof -
  have ok1: "ok s1" using keeps_ok [OF assms(1) _ assms(3)] by simp
  obtain i v where iv: "look s1 i = Some v" "v_Code v = code" "v_Status v = ClaimSessionConsumed"
    "v_Token v = po_ClaimAuthorization out" "v_TokenExpires v = Some (stamp (po_ExpiresAt out))"
    using poll_approved [OF assms(1,3,4)] assms(7) by auto
  have run: "run_ops exec_op (ops @ [(env', OpPoll code iv' now' mint')]) s1 = s2" using assms(5) by (simp add: run_ops_append)
  have ok2: "ok s2" using run_ok [OF ok1, of "ops @ [(env', OpPoll code iv' now' mint')]"] assms(2) run by auto
  obtain v' where v': "look s2 i = Some v'" "v_Code v' = code" "v_Token v' = v_Token v"
    "v_TokenExpires v' = v_TokenExpires v"
    using run_consumed [OF ok1, of "ops @ [(env', OpPoll code iv' now' mint')]" i v] assms(2) iv run by auto
  obtain j w where jw: "look s2 j = Some w" "v_Code w = code"
    "v_Token w = po_ClaimAuthorization out'" "v_TokenExpires w = Some (stamp (po_ExpiresAt out'))"
    using poll_approved [OF run_ok [OF ok1 assms(2)] assms(5,6)] assms(7) by auto
  have "i = j" using code_unique [OF ok2 v'(1) jw(1)] v' jw by simp
  then show ?thesis using v' jw iv by simp
qed

text \<open>A denied session never hands out an authorization.\<close>

theorem denied_no_token:
  assumes "ok s" "\<forall>x \<in> set ops. creates_pending (snd x)" "look s i = Some v" "v_Status v = ClaimSessionDenied"
    "exec_op env (OpPoll (v_Code v) iv now mint) (run_ops exec_op ops s) = (RPoll out, s')" "TrimSpace (v_Code v) = v_Code v"
  shows "po_Status out \<noteq> PollOutcomeApproved"
proof
  assume ap: "po_Status out = PollOutcomeApproved"
  let ?ops = "ops @ [(env, OpPoll (v_Code v) iv now mint)]"
  have run: "run_ops exec_op ?ops s = s'" using assms(5) by (simp add: run_ops_append)
  obtain v' where v': "look s' i = Some v'" "v_Code v' = v_Code v" "v_Status v' \<noteq> ClaimSessionConsumed"
    using run_denied [OF assms(1), of ?ops i v] assms(2-4) run by auto
  obtain j w where jw: "look s' j = Some w" "v_Code w = v_Code v" "v_Status w = ClaimSessionConsumed"
    using poll_approved [OF run_ok [OF assms(1,2)] assms(5) ap] assms(6) by auto
  have "ok s'" using run_ok [OF assms(1), of ?ops] assms(2) run by auto
  then have "i = j" using code_unique [OF _ v'(1) jw(1)] v' jw by simp
  then show False using v' jw by simp
qed

end

end
