(* ===== verification/Claim_Stores.thy ===== *)
theory Claim_Stores
  imports Claim_Contract
begin

text \<open>Both claim-session stores implement the contract of \<open>Claim_Contract\<close>.\<close>

section \<open>The in-memory store\<close>

definition record_view :: "ClaimSessionRecord \<Rightarrow> claim_view" where
  "record_view s =
     \<lparr>v_Code = cs_DeviceCodeHash s, v_Device = cs_DeviceID s, v_Bootstrap = cs_BootstrapID s,
      v_Expires = cs_ExpiresAt s, v_Status = cs_Status s, v_Owner = cs_OwnerUserID s,
      v_Token = cs_ClaimAuthorization s, v_TokenExpires = cs_ClaimAuthExpiresAt s\<rparr>"

lemma record_view_simps [simp]:
  "v_Code (record_view s) = cs_DeviceCodeHash s" "v_Device (record_view s) = cs_DeviceID s"
  "v_Bootstrap (record_view s) = cs_BootstrapID s" "v_Expires (record_view s) = cs_ExpiresAt s"
  "v_Status (record_view s) = cs_Status s" "v_Owner (record_view s) = cs_OwnerUserID s"
  "v_Token (record_view s) = cs_ClaimAuthorization s" "v_TokenExpires (record_view s) = cs_ClaimAuthExpiresAt s"
  by (simp_all add: record_view_def)

lemma record_view_updates [simp]:
  "record_view (s\<lparr>cs_Status := x\<rparr>) = (record_view s)\<lparr>v_Status := x\<rparr>"
  "record_view (s\<lparr>cs_OwnerUserID := y\<rparr>) = (record_view s)\<lparr>v_Owner := y\<rparr>"
  "record_view (s\<lparr>cs_ClaimAuthorization := y\<rparr>) = (record_view s)\<lparr>v_Token := y\<rparr>"
  "record_view (s\<lparr>cs_ClaimAuthExpiresAt := z\<rparr>) = (record_view s)\<lparr>v_TokenExpires := z\<rparr>"
  "record_view (s\<lparr>cs_ApprovedAt := z\<rparr>) = record_view s"
  "record_view (s\<lparr>cs_ConsumedAt := z\<rparr>) = record_view s"
  by (simp_all add: record_view_def)

text \<open>Go instants are kept as they are.\<close>

definition exact_stamp :: "time \<Rightarrow> time" where
  "exact_stamp t = t"

definition mem_look :: "MemoryClaimSessionStore \<Rightarrow> string \<Rightarrow> claim_view option" where
  "mem_look m i = map_option record_view (sessions m i)"

definition mem_ok :: "MemoryClaimSessionStore \<Rightarrow> bool" where
  "mem_ok m \<longleftrightarrow> (\<forall>c i. byCode m c = Some i \<longleftrightarrow> (\<exists>s. sessions m i = Some s \<and> cs_DeviceCodeHash s = c))"

lemma mem_look_put [simp]: "mem_look (put_session sid r m) i = (if i = sid then Some (record_view r) else mem_look m i)"
  by (simp add: mem_look_def put_session_def)

lemma put_session_simps [simp]:
  "sessions (put_session sid r m) = (sessions m)(sid \<mapsto> r)" "byCode (put_session sid r m) = byCode m"
  by (simp_all add: put_session_def)

lemma mem_ok_put:
  "mem_ok m \<Longrightarrow> sessions m sid = Some s \<Longrightarrow> cs_DeviceCodeHash r = cs_DeviceCodeHash s \<Longrightarrow> mem_ok (put_session sid r m)"
  unfolding mem_ok_def by auto

text \<open>An operation leaves the store alone or replaces one session by a move of it.\<close>

definition mem_effect :: "claim_op \<Rightarrow> MemoryClaimSessionStore \<Rightarrow> MemoryClaimSessionStore \<Rightarrow> bool" where
  "mem_effect opr m m' \<longleftrightarrow> m' = m \<or> (\<exists>sid s r. sessions m sid = Some s \<and> m' = put_session sid r m
     \<and> claim_move exact_stamp opr sid (Some (record_view s)) (Some (record_view r)))"

lemma mem_effect_same [simp]: "mem_effect opr m m"
  by (simp add: mem_effect_def)

lemma mem_effect_put:
  "sessions m sid = Some s \<Longrightarrow> claim_move exact_stamp opr sid (Some (record_view s)) (Some (record_view r))
    \<Longrightarrow> mem_effect opr m (put_session sid r m)"
  unfolding mem_effect_def by blast

lemma mem_effectD:
  assumes "mem_effect opr m m'" "mem_ok m"
  shows "mem_ok m'" and "claim_move exact_stamp opr i (mem_look m i) (mem_look m' i)"
proof -
  have "mem_ok m' \<and> claim_move exact_stamp opr i (mem_look m i) (mem_look m' i)"
    using assms(1) unfolding mem_effect_def
  proof (elim disjE exE conjE)
    fix sid s r
    assume s: "sessions m sid = Some s" "m' = put_session sid r m"
      and mv: "claim_move exact_stamp opr sid (Some (record_view s)) (Some (record_view r))"
    have "cs_DeviceCodeHash r = cs_DeviceCodeHash s"
      using claim_move_static [OF mv] by fastforce
    then have "mem_ok m'" using mem_ok_put [OF assms(2)] s by simp
    moreover have "claim_move exact_stamp opr i (mem_look m i) (mem_look m' i)"
      using s mv by (cases "i = sid") (auto simp: mem_look_def intro: claim_move.same)
    ultimately show ?thesis by blast
  qed (use assms(2) in \<open>auto intro: claim_move.same\<close>)
  then show "mem_ok m'" "claim_move exact_stamp opr i (mem_look m i) (mem_look m' i)" by auto
qed

lemma record_view_expire:
  "op_now opr = Some now \<Longrightarrow> \<not> After (cs_ExpiresAt s) now
    \<Longrightarrow> claim_move exact_stamp opr sid (Some (record_view s)) (Some ((record_view s)\<lparr>v_Status := ClaimSessionExpired\<rparr>))"
  using claim_move.expire [of opr now "record_view s" exact_stamp sid] by (simp add: After_def exact_stamp_def)

lemma record_view_polled [simp]: "record_view (polled now s) = record_view s"
  by (simp add: record_view_def polled_def)

lemma mem_approve_effect: "mem_ApproveSession sid own now m = (res, m') \<Longrightarrow> mem_effect (OpApprove sid own now) m m'"
  using claim_move.approve [of sid sid _ exact_stamp now own]
  by (auto simp: mem_ApproveSession_def After_def exact_stamp_def split: option.splits if_splits
      intro!: mem_effect_put record_view_expire)

lemma mem_deny_effect: "mem_DenySession sid now m = (res, m') \<Longrightarrow> mem_effect (OpDeny sid now) m m'"
  using claim_move.deny [of sid sid _ exact_stamp now]
  by (auto simp: mem_DenySession_def After_def exact_stamp_def split: option.splits if_splits
      intro!: mem_effect_put record_view_expire)

lemma mem_poll_row:
  "mem_ok m \<Longrightarrow> byCode m code = Some sid \<Longrightarrow> \<exists>s. sessions m sid = Some s \<and> cs_DeviceCodeHash s = code"
  unfolding mem_ok_def by simp

lemma mem_poll_effect:
  assumes "mem_ok m" "mem_PollSession code iv now mint m = (res, m')"
  shows "mem_effect (OpPoll code iv now mint) m m'"
proof (cases "byCode m code")
  case None
  then show ?thesis using assms(2) by (simp add: mem_PollSession_def)
next
  case (Some sid)
  then obtain s where s: "sessions m sid = Some s" "cs_DeviceCodeHash s = code"
    using assms(1) mem_poll_row by blast
  have polled: "mem_effect (OpPoll code iv now mint) m (put_session sid (polled now s) m)"
    by (rule mem_effect_put [OF s(1)]) (simp add: claim_move.same)
  have expired: "mem_effect (OpPoll code iv now mint) m (put_session sid (s\<lparr>cs_Status := ClaimSessionExpired\<rparr>) m)"
    if "\<not> After (cs_ExpiresAt s) now"
    by (rule mem_effect_put [OF s(1)]) (simp add: record_view_expire [OF _ that])
  have consumed: "mem_effect (OpPoll code iv now mint) m (put_session sid
        (polled now s\<lparr>cs_Status := ClaimSessionConsumed, cs_ConsumedAt := Some now,
           cs_ClaimAuthorization := tok, cs_ClaimAuthExpiresAt := Some exp\<rparr>) m)"
    if "After (cs_ExpiresAt s) now" "cs_Status s = ClaimSessionApproved"
      "mint (cs_BootstrapID s) (cs_DeviceID s) (cs_OwnerUserID s) = Inr (tok, exp)" for tok exp
    by (rule mem_effect_put [OF s(1)])
      (use claim_move.consume [of "record_view s" code now mint tok exp exact_stamp iv sid] that s
       in \<open>simp add: After_def exact_stamp_def\<close>)
  show ?thesis
    using assms(2) Some s(1) polled expired consumed
    by (auto simp: mem_PollSession_def session_at_def Let_def split: if_splits sum.splits option.splits)
qed

lemma mem_create_effect:
  assumes "creates_pending (OpCreate r)" "mem_ok m" "mem_CreateSession r m = (res, m')"
  shows "mem_ok m' \<and> claim_move exact_stamp (OpCreate r) i (mem_look m i) (mem_look m' i)"
proof -
  have "m' = m \<or> sessions m (cs_SessionID r) = None \<and> byCode m (cs_DeviceCodeHash r) = None
    \<and> m' = m\<lparr>sessions := (sessions m)(cs_SessionID r \<mapsto> r), byCode := (byCode m)(cs_DeviceCodeHash r \<mapsto> cs_SessionID r)\<rparr>"
    using assms(3) by (auto simp: mem_CreateSession_def split: if_splits)
  then show ?thesis
  proof (elim disjE conjE)
    assume n: "sessions m (cs_SessionID r) = None" "byCode m (cs_DeviceCodeHash r) = None"
      and m': "m' = m\<lparr>sessions := (sessions m)(cs_SessionID r \<mapsto> r), byCode := (byCode m)(cs_DeviceCodeHash r \<mapsto> cs_SessionID r)\<rparr>"
    have "byCode m' c = Some j \<longleftrightarrow> (\<exists>s. sessions m' j = Some s \<and> cs_DeviceCodeHash s = c)" for c j
      using assms(2) n by (cases "j = cs_SessionID r"; cases "c = cs_DeviceCodeHash r")
        (auto simp: m' mem_ok_def, metis option.distinct(1))
    then have "mem_ok m'" by (simp add: mem_ok_def)
    moreover have "claim_move exact_stamp (OpCreate r) i (mem_look m i) (mem_look m' i)"
      using n assms(1) claim_move.create [of "record_view r" "cs_SessionID r" r exact_stamp]
      by (cases "i = cs_SessionID r") (auto simp: m' mem_look_def is_new_def intro: claim_move.same)
    ultimately show ?thesis by blast
  qed (use assms(2) in \<open>auto intro: claim_move.same\<close>)
qed

lemma authorize_loop_Inr:
  "authorize_loop raw b dev now ss = Inr own \<Longrightarrow>
     \<exists>s \<in> set ss. live_authorization raw now s \<and> cs_BootstrapID s = b \<and> cs_DeviceID s = dev
       \<and> TrimSpace (cs_OwnerUserID s) \<noteq> [] \<and> cs_OwnerUserID s = own"
  by (induction ss) (auto split: if_splits)

lemma map_prod_id_eq: "map_prod f id x = (r, m') \<longleftrightarrow> (\<exists>y. x = (y, m') \<and> r = f y)"
  by (cases x) auto

lemma mem_exec_effect:
  assumes "mem_ok m" "creates_pending opr" "mem_exec order opr m = (res, m')"
  shows "mem_ok m' \<and> claim_move exact_stamp opr i (mem_look m i) (mem_look m' i)"
proof (cases opr)
  case (OpCreate r)
  then obtain res' where "mem_CreateSession r m = (res', m')"
    using assms(3) by (cases "mem_CreateSession r m") auto
  then show ?thesis using assms OpCreate mem_create_effect by blast
next
  case (OpApprove sid own now)
  then have "mem_effect opr m m'" using assms mem_approve_effect by (auto simp: map_prod_id_eq)
  then show ?thesis using mem_effectD assms(1) by blast
next
  case (OpDeny sid now)
  then have "mem_effect opr m m'" using assms mem_deny_effect by (auto simp: map_prod_id_eq)
  then show ?thesis using mem_effectD assms(1) by blast
next
  case (OpPoll code iv now mint)
  then have "mem_effect opr m m'" using assms mem_poll_effect by (auto simp: map_prod_id_eq)
  then show ?thesis using mem_effectD assms(1) by blast
next
  case (OpAuthorize raw b dev now)
  then have "m' = m" using assms(3) by (auto simp: mem_AuthorizeClaim_def Let_def split: if_splits)
  then show ?thesis using assms(1) claim_move.same by blast
qed

lemma mem_poll_approved:
  assumes "mem_ok m" "mem_PollSession code iv now mint m = (Inr out, m')" "po_Status out = PollOutcomeApproved"
  shows "\<exists>i s. sessions m' i = Some s \<and> cs_DeviceCodeHash s = code \<and> cs_Status s = ClaimSessionConsumed
    \<and> cs_ClaimAuthorization s = po_ClaimAuthorization out \<and> cs_ClaimAuthExpiresAt s = Some (po_ExpiresAt out)"
proof (cases "byCode m code")
  case None
  then show ?thesis using assms(2) by (simp add: mem_PollSession_def)
next
  case (Some sid)
  then obtain s where s: "sessions m sid = Some s" "cs_DeviceCodeHash s = code"
    using assms(1) mem_poll_row by blast
  have "\<exists>s'. sessions m' sid = Some s' \<and> cs_DeviceCodeHash s' = code \<and> cs_Status s' = ClaimSessionConsumed
    \<and> cs_ClaimAuthorization s' = po_ClaimAuthorization out \<and> cs_ClaimAuthExpiresAt s' = Some (po_ExpiresAt out)"
    using assms(2,3) Some s
    by (auto simp: mem_PollSession_def session_at_def Let_def poll_outcome_def polled_def
        split: if_splits sum.splits option.splits)
  then show ?thesis by blast
qed

lemma mem_authorized:
  assumes "mem_AuthorizeClaim order raw b dev now m = (Inr own, m')"
  shows "\<exists>i s e. sessions m i = Some s \<and> cs_Status s = ClaimSessionConsumed \<and> cs_ClaimAuthorization s = TrimSpace raw
    \<and> cs_BootstrapID s = TrimSpace b \<and> cs_DeviceID s = TrimSpace dev \<and> TrimSpace (cs_OwnerUserID s) = TrimSpace own
    \<and> TrimSpace own \<noteq> [] \<and> cs_ClaimAuthExpiresAt s = Some e \<and> now < e"
proof -
  have "authorize_loop (TrimSpace raw) (TrimSpace b) (TrimSpace dev) now (List.map_filter (sessions m) order) = Inr own"
    using assms by (auto simp: mem_AuthorizeClaim_def Let_def split: if_splits)
  from authorize_loop_Inr [OF this]
  obtain s where "s \<in> set (List.map_filter (sessions m) order)" "live_authorization (TrimSpace raw) now s"
    "cs_BootstrapID s = TrimSpace b" "cs_DeviceID s = TrimSpace dev" "TrimSpace (cs_OwnerUserID s) \<noteq> []"
    "cs_OwnerUserID s = own"
    by blast
  moreover then obtain i where "sessions m i = Some s"
    by (auto simp: List.map_filter_def)
  ultimately show ?thesis
    by (auto simp: live_authorization_def After_def split: option.splits)
qed

lemma to_result_inject:
  "to_result RPoll res = RPoll out \<longleftrightarrow> res = Inr out" "to_result ROwner res' = ROwner own \<longleftrightarrow> res' = Inr own"
  by (auto simp: to_result_def split: sum.splits)

lemma mem_code_unique:
  assumes "mem_ok m" "mem_look m i = Some v" "mem_look m j = Some w" "v_Code v = v_Code w"
  shows "i = j"
proof -
  have "byCode m (v_Code v) = Some i" "byCode m (v_Code w) = Some j"
    using assms by (auto simp: mem_ok_def mem_look_def)
  then show ?thesis using assms(4) by simp
qed

lemma mem_exec_poll: "mem_exec order (OpPoll code iv now mint) m = (RPoll out, m')
    \<Longrightarrow> mem_PollSession code iv now mint m = (Inr out, m')"
  by (cases "mem_PollSession code iv now mint m") (simp add: to_result_inject)

lemma mem_exec_authorize: "mem_exec order (OpAuthorize raw boot dev now) m = (ROwner own, m')
    \<Longrightarrow> mem_AuthorizeClaim order raw boot dev now m = (Inr own, m')"
  by (cases "mem_AuthorizeClaim order raw boot dev now m") (simp add: to_result_inject)

interpretation memc: claim_session_store mem_exec mem_look mem_ok exact_stamp
proof (unfold_locales, goal_cases)
  case (1 m opr order res m')
  then show ?case by (rule mem_exec_effect [THEN conjunct1])
next
  case (2 m opr order res m' i)
  then show ?case by (rule mem_exec_effect [THEN conjunct2])
next
  case (3 m i v j w)
  then show ?case by (rule mem_code_unique)
next
  case (4 m order code iv now mint out m')
  obtain i s where "sessions m' i = Some s" "cs_DeviceCodeHash s = code" "cs_Status s = ClaimSessionConsumed"
    "cs_ClaimAuthorization s = po_ClaimAuthorization out" "cs_ClaimAuthExpiresAt s = Some (po_ExpiresAt out)"
    using mem_poll_approved [OF 4(1) mem_exec_poll [OF 4(2)] 4(3)] by blast
  then show ?case by (intro exI [of _ i] exI [of _ "record_view s"]) (simp add: mem_look_def exact_stamp_def)
next
  case (5 m order raw boot dev now own m')
  from mem_authorized [OF mem_exec_authorize [OF 5(2)]] obtain i s e where
    "sessions m i = Some s" "cs_Status s = ClaimSessionConsumed" "cs_ClaimAuthorization s = TrimSpace raw"
    "cs_BootstrapID s = TrimSpace boot" "cs_DeviceID s = TrimSpace dev" "TrimSpace (cs_OwnerUserID s) = TrimSpace own"
    "TrimSpace own \<noteq> []" "cs_ClaimAuthExpiresAt s = Some e" "now < e" by blast
  then show ?case by (intro exI [of _ i] exI [of _ "record_view s"] exI [of _ e]) (simp add: mem_look_def exact_stamp_def)
qed

section \<open>The PostgreSQL store\<close>

definition row_view :: "claim_row \<Rightarrow> claim_view" where
  "row_view r =
     \<lparr>v_Code = device_code_hash r, v_Device = device_id r, v_Bootstrap = bootstrap_id r,
      v_Expires = expires_at r, v_Status = status r,
      v_Owner = (case owner_user_id r of None \<Rightarrow> [] | Some w \<Rightarrow> w),
      v_Token = (case claim_authorization r of None \<Rightarrow> [] | Some a \<Rightarrow> a),
      v_TokenExpires = claim_auth_expires_at r\<rparr>"

lemma row_view_simps [simp]:
  "v_Code (row_view r) = device_code_hash r" "v_Device (row_view r) = device_id r"
  "v_Bootstrap (row_view r) = bootstrap_id r" "v_Expires (row_view r) = expires_at r" "v_Status (row_view r) = status r"
  "v_Owner (row_view r) = (case owner_user_id r of None \<Rightarrow> [] | Some w \<Rightarrow> w)"
  "v_Token (row_view r) = (case claim_authorization r of None \<Rightarrow> [] | Some a \<Rightarrow> a)"
  "v_TokenExpires (row_view r) = claim_auth_expires_at r"
  by (simp_all add: row_view_def)

lemma row_view_updates [simp]:
  "row_view (r\<lparr>status := x\<rparr>) = (row_view r)\<lparr>v_Status := x\<rparr>"
  "row_view (r\<lparr>owner_user_id := Some y\<rparr>) = (row_view r)\<lparr>v_Owner := y\<rparr>"
  "row_view (r\<lparr>claim_authorization := Some y\<rparr>) = (row_view r)\<lparr>v_Token := y\<rparr>"
  "row_view (r\<lparr>claim_auth_expires_at := z\<rparr>) = (row_view r)\<lparr>v_TokenExpires := z\<rparr>"
  "row_view (r\<lparr>approved_at := z\<rparr>) = row_view r" "row_view (r\<lparr>consumed_at := z\<rparr>) = row_view r"
  "row_view (bump now r) = row_view r"
  by (simp_all add: row_view_def bump_def)

definition claim_look :: "claim_tables \<Rightarrow> string \<Rightarrow> claim_view option" where
  "claim_look t i = map_option row_view (find (\<lambda>r. session_id r = i) (device_claim_sessions t))"

definition claim_keys :: "claim_tables \<Rightarrow> bool" where
  "claim_keys t \<longleftrightarrow> unique_key session_id (device_claim_sessions t) \<and> unique_key device_code_hash (device_claim_sessions t)"

lemma claim_look_row:
  "claim_keys t \<Longrightarrow> r \<in> set (device_claim_sessions t) \<Longrightarrow> claim_look t (session_id r) = Some (row_view r)"
  using find_key_unique [of session_id "device_claim_sessions t" r "\<lambda>_. True"]
  by (simp add: claim_look_def claim_keys_def)

lemma claim_look_Some:
  "claim_look t i = Some v \<Longrightarrow> \<exists>r \<in> set (device_claim_sessions t). session_id r = i \<and> row_view r = v"
  by (auto simp: claim_look_def dest: find_Some_in_set)

text \<open>What an operation may do to the table: keep the keys, and move each session.\<close>

definition claim_effect :: "claim_op \<Rightarrow> claim_tables \<Rightarrow> claim_tables \<Rightarrow> bool" where
  "claim_effect opr t t' \<longleftrightarrow> claim_keys t' \<and> (\<forall>i. claim_move pg_ts opr i (claim_look t i) (claim_look t' i))"

lemma claim_effect_same: "claim_keys t \<Longrightarrow> claim_effect opr t t"
  by (simp add: claim_effect_def claim_move.same)

text \<open>An update of rows by a function that keeps the keys.\<close>

definition keeps_keys :: "(claim_row \<Rightarrow> claim_row) \<Rightarrow> bool" where
  "keeps_keys g \<longleftrightarrow> (\<forall>r. session_id (g r) = session_id r \<and> device_code_hash (g r) = device_code_hash r)"

lemma update_claims_keys:
  "update_claims P g t = Some (n, t') \<Longrightarrow> keeps_keys g \<Longrightarrow> claim_keys t \<Longrightarrow> claim_keys t'"
  by (auto simp: update_claims_def claim_keys_def keeps_keys_def unique_key_update_where split: if_splits)

lemma update_claims_look:
  assumes "update_claims P g t = Some (n, t')" "keeps_keys g"
  shows "claim_look t' i = map_option (\<lambda>r. row_view (if P r then g r else r))
    (find (\<lambda>r. session_id r = i) (device_claim_sessions t))"
proof -
  have t': "device_claim_sessions t' = update_where P g (device_claim_sessions t)"
    using assms(1) by (auto simp: update_claims_def split: if_splits)
  have "find (\<lambda>r. session_id r = i) (update_where P g (device_claim_sessions t))
      = map_option (\<lambda>r. if P r then g r else r) (find (\<lambda>r. session_id r = i) (device_claim_sessions t))"
    by (rule find_update_where) (use assms(2) in \<open>simp add: keeps_keys_def\<close>)
  then show ?thesis by (simp add: claim_look_def t' option.map_comp o_def)
qed

lemma update_claims_effect:
  assumes "update_claims P g t = Some (n, t')" "keeps_keys g" "claim_keys t"
    "\<And>r. r \<in> set (device_claim_sessions t) \<Longrightarrow> P r
      \<Longrightarrow> claim_move pg_ts opr (session_id r) (Some (row_view r)) (Some (row_view (g r)))"
  shows "claim_effect opr t t'"
proof -
  have "claim_move pg_ts opr i (claim_look t i) (claim_look t' i)" for i
  proof (cases "find (\<lambda>r. session_id r = i) (device_claim_sessions t)")
    case None
    then show ?thesis using update_claims_look [OF assms(1,2), of i] by (simp add: claim_look_def claim_move.same)
  next
    case (Some r)
    then have "claim_look t' i = Some (row_view (if P r then g r else r))" "claim_look t i = Some (row_view r)"
      using update_claims_look [OF assms(1,2), of i] by (simp_all add: claim_look_def)
    moreover have "claim_move pg_ts opr i (Some (row_view r)) (Some (row_view (if P r then g r else r)))"
      using assms(4) [of r] find_Some_in_set [OF Some] by (auto intro: claim_move.same)
    ultimately show ?thesis by simp
  qed
  then show ?thesis using update_claims_keys assms by (simp add: claim_effect_def)
qed

lemma keeps_keys_intros [simp]:
  "keeps_keys (\<lambda>r. r\<lparr>status := s1, owner_user_id := w, approved_at := a\<rparr>)"
  "keeps_keys (\<lambda>r. r\<lparr>status := s1\<rparr>)"
  "keeps_keys (\<lambda>r. r\<lparr>status := s1, consumed_at := w', claim_authorization := a', claim_auth_expires_at := e\<rparr>)"
  "keeps_keys (bump now)"
  "keeps_keys (\<lambda>x. (bump now x)\<lparr>status := s1\<rparr>)"
  by (simp_all add: keeps_keys_def bump_def)

subsection \<open>Creating, approving and denying\<close>

lemma insert_claim_effect:
  assumes "insert_claim r t = Some (u, t')" "claim_keys t" "is_new (row_view r)"
    "session_id r = TrimSpace (cs_SessionID rec)"
  shows "claim_effect (OpCreate rec) t t'"
proof -
  have t': "device_claim_sessions t' = device_claim_sessions t @ [r]"
    and fresh: "session_id r \<notin> session_id ` set (device_claim_sessions t)"
      "device_code_hash r \<notin> device_code_hash ` set (device_claim_sessions t)"
    using assms(1) by (auto simp: insert_claim_def split: if_splits)
  have "claim_keys t'" using assms(2) fresh by (simp add: claim_keys_def t' unique_key_append)
  moreover have "claim_move pg_ts (OpCreate rec) i (claim_look t i) (claim_look t' i)" for i
  proof (cases "find (\<lambda>r. session_id r = i) (device_claim_sessions t)")
    case None
    then have "claim_look t' i = (if session_id r = i then Some (row_view r) else None)" "claim_look t i = None"
      by (simp_all add: claim_look_def t' find_append)
    then show ?thesis
      using claim_move.create [of "row_view r" i rec pg_ts] assms(3,4) claim_move.same by auto
  next
    case (Some x)
    then have "claim_look t' i = claim_look t i" by (simp add: claim_look_def t' find_append)
    then show ?thesis by (simp add: claim_move.same)
  qed
  ultimately show ?thesis by (simp add: claim_effect_def)
qed

lemma effect_refl: "claim_keys t \<Longrightarrow> claim_effect opr t t"
  by (rule claim_effect_same)

lemma create_effect:
  assumes "creates_pending (OpCreate rec)"
  shows "changes claim_keys (claim_effect (OpCreate rec)) (CreateClaimSession now rec)"
proof -
  have ins: "changes claim_keys (claim_effect (OpCreate rec)) (stmt (insert_claim r))"
    if "is_new (row_view r)" "session_id r = TrimSpace (cs_SessionID rec)" for r
    by (rule changes_stmt) (auto intro: effect_refl insert_claim_effect that)
  show ?thesis
    unfolding CreateClaimSession_def Let_def
    by (intro changes_if changes_fail effect_refl ins) (use assms in \<open>simp_all add: is_new_def\<close>)
qed

lemma readonly_GetClaimSessionByID [intro]: "readonly (GetClaimSessionByID now sid)"
  by (auto simp: GetClaimSessionByID_def Let_def)

lemma pending_update_effect:
  assumes "keeps_keys g"
    "\<And>r. status r = ''pending'' \<Longrightarrow> pg_ts now < expires_at r
      \<Longrightarrow> claim_move pg_ts opr (TrimSpace sid) (Some (row_view r)) (Some (row_view (g r)))"
  shows "changes claim_keys (claim_effect opr) (stmt (update_claims (pending_claim (TrimSpace sid) now) g))"
proof (rule changes_stmt)
  fix t n t'
  assume k: "claim_keys t" and u: "update_claims (pending_claim (TrimSpace sid) now) g t = Some (n, t')"
  show "claim_effect opr t t'"
    by (rule update_claims_effect [OF u assms(1) k]) (use assms(2) in \<open>auto simp: pending_claim_def\<close>)
qed (rule effect_refl)

lemma approve_effect:
  "changes claim_keys (claim_effect (OpApprove sid own now)) (ApproveClaimSession clock sid own now)"
proof -
  have "changes claim_keys (claim_effect (OpApprove sid own now)) (stmt (update_claims (pending_claim (TrimSpace sid) now)
      (\<lambda>r. r\<lparr>status := ''approved'', owner_user_id := Some (TrimSpace own), approved_at := Some (pg_ts now)\<rparr>)))"
    by (rule pending_update_effect) (use claim_move.approve [of "TrimSpace sid" sid _ pg_ts now own] in simp_all)
  then show ?thesis
    unfolding ApproveClaimSession_def Let_def
    by (intro changes_if changes_fail effect_refl changes_bind_first readonly_if readonly_bind) auto
qed

lemma deny_effect:
  "changes claim_keys (claim_effect (OpDeny sid now)) (DenyClaimSession clock sid now)"
proof -
  have "changes claim_keys (claim_effect (OpDeny sid now)) (stmt (update_claims (pending_claim (TrimSpace sid) now)
      (\<lambda>r. r\<lparr>status := ''denied''\<rparr>)))"
    by (rule pending_update_effect) (use claim_move.deny [of "TrimSpace sid" sid _ pg_ts now] in simp_all)
  then show ?thesis
    unfolding DenyClaimSession_def Let_def
    by (intro changes_if changes_fail effect_refl changes_bind_first readonly_if readonly_bind) auto
qed

subsection \<open>Polling\<close>

text \<open>Counting a poll changes nothing that the contract sees.\<close>

lemma bump_effect:
  assumes "update_claim sid (bump now) d = (Inr n, d')" "claim_keys (tables d)"
  shows "claim_keys (tables d')" and "claim_look (tables d') = claim_look (tables d)"
proof -
  obtain t where t: "update_claims (\<lambda>r. session_id r = sid) (bump now) (tables d) = Some (n, t)" "tables d' = t"
    using assms(1) by (auto simp: update_claim_def stmt_Inr)
  show "claim_keys (tables d')" using update_claims_keys t assms(2) by simp
  show "claim_look (tables d') = claim_look (tables d)"
    using update_claims_look [OF t(1)] by (simp add: fun_eq_iff t(2) claim_look_def if_distrib [of row_view] cong: if_cong)
qed

lemma expire_effect:
  assumes "update_claim (session_id r) (\<lambda>x. (bump now x)\<lparr>status := ''expired''\<rparr>) d = (Inr n, d')"
    "claim_keys (tables d)" "r \<in> set (device_claim_sessions (tables d))" "\<not> After (expires_at r) now"
  shows "claim_effect (OpPoll code iv now mint) (tables d) (tables d')"
proof -
  obtain t where t: "update_claims (\<lambda>x. session_id x = session_id r) (\<lambda>x. (bump now x)\<lparr>status := ''expired''\<rparr>)
      (tables d) = Some (n, t)" "tables d' = t"
    using assms(1) by (auto simp: update_claim_def stmt_Inr)
  have "claim_effect (OpPoll code iv now mint) (tables d) t"
  proof (rule update_claims_effect [OF t(1)])
    fix x assume "x \<in> set (device_claim_sessions (tables d))" "session_id x = session_id r"
    then have "x = r" using assms(2,3) unique_keyD unfolding claim_keys_def by metis
    then show "claim_move pg_ts (OpPoll code iv now mint) (session_id x) (Some (row_view x))
        (Some (row_view ((bump now x)\<lparr>status := ''expired''\<rparr>)))"
      using claim_move.expire [of "OpPoll code iv now mint" now "row_view r" pg_ts] assms(4) by (simp add: After_def)
  qed (use assms(2) in simp_all)
  then show ?thesis using t(2) by simp
qed

lemma consume_effect:
  assumes "update_claims (\<lambda>x. session_id x = session_id r \<and> status x = ''approved'')
      (\<lambda>x. x\<lparr>status := ''consumed'', consumed_at := c, claim_authorization := Some tok,
             claim_auth_expires_at := Some (pg_ts exp)\<rparr>) t = Some (n, t')"
    "claim_keys t" "claim_look t (session_id r) = Some (row_view r)" "device_code_hash r = TrimSpace code"
    "status r = ''approved''" "now < expires_at r"
    "mint (bootstrap_id r) (device_id r) (case owner_user_id r of None \<Rightarrow> [] | Some w \<Rightarrow> w) = Inr (tok, exp)"
  shows "claim_effect (OpPoll code iv now mint) t t'"
    and "claim_look t' (session_id r)
      = Some ((row_view r)\<lparr>v_Status := ''consumed'', v_Token := tok, v_TokenExpires := Some (pg_ts exp)\<rparr>)"
proof -
  have row: "row_view x = row_view r"
    if "x \<in> set (device_claim_sessions t)" "session_id x = session_id r" for x
    using claim_look_row [OF assms(2) that(1)] that(2) assms(3) by simp
  show "claim_effect (OpPoll code iv now mint) t t'"
    by (rule update_claims_effect [OF assms(1) _ assms(2)])
      (use claim_move.consume [of "row_view r" code now mint tok exp pg_ts iv] assms(4-7) row in simp_all)
  obtain x where x: "find (\<lambda>x. session_id x = session_id r) (device_claim_sessions t) = Some x" "row_view x = row_view r"
    using assms(3) by (auto simp: claim_look_def)
  moreover have "session_id x = session_id r" using find_Some_in_set [OF x(1)] by simp
  moreover have "status x = ''approved''" using x(2) assms(5) by (metis row_view_simps(5))
  ultimately show "claim_look t' (session_id r)
      = Some ((row_view r)\<lparr>v_Status := ''consumed'', v_Token := tok, v_TokenExpires := Some (pg_ts exp)\<rparr>)"
    using update_claims_look [OF assms(1), of "session_id r"] by simp
qed

text \<open>The poll of a row that ends in a commit.\<close>

definition poll_post :: "claim_op \<Rightarrow> claim_row \<Rightarrow> PollOutcome \<Rightarrow> claim_tables \<Rightarrow> claim_tables \<Rightarrow> bool" where
  "poll_post opr r out t t' \<longleftrightarrow> claim_effect opr t t'
     \<and> (po_Status out = PollOutcomeApproved \<longrightarrow>
         (\<exists>v. claim_look t' (session_id r) = Some v \<and> v_Code v = device_code_hash r \<and> v_Status v = ClaimSessionConsumed
            \<and> v_Token v = po_ClaimAuthorization out \<and> v_TokenExpires v = Some (pg_ts (po_ExpiresAt out))))"

text \<open>The expiry that a consumed row keeps is already at the precision of the database.\<close>

definition stamped :: "claim_tables \<Rightarrow> bool" where
  "stamped t \<longleftrightarrow> (\<forall>i v e. claim_look t i = Some v \<longrightarrow> v_TokenExpires v = Some e \<longrightarrow> pg_ts e = e)"

lemma stamped_effect:
  assumes "stamped t" "claim_effect opr t t'"
  shows "stamped t'"
  unfolding stamped_def
proof (intro allI impI)
  fix i v e assume v: "claim_look t' i = Some v" "v_TokenExpires v = Some e"
  have "claim_move pg_ts opr i (claim_look t i) (Some v)" using assms(2) v(1) by (metis claim_effect_def)
  then show "pg_ts e = e"
    by (cases rule: claim_move.cases) (use v(2) assms(1) in \<open>auto simp: stamped_def is_new_def eq_commute [of "Some _" "claim_look t i"]\<close>)
qed

lemma poll_post_same_look:
  assumes "claim_keys t'" "claim_look t' = claim_look t" "po_Status out \<noteq> PollOutcomeApproved"
  shows "poll_post opr r out t t'"
  using assms by (simp add: poll_post_def claim_effect_def claim_move.same)

lemma po_Status_outcome [simp]: "po_Status (poll_outcome st) = st"
  by (simp add: poll_outcome_def)

lemma poll_switch_post:
  assumes run: "poll_switch r iv now mint d = (Inr (Commit out), d')"
    and keys: "claim_keys (tables d)" and look: "claim_look (tables d) (session_id r) = Some (row_view r)"
    and code: "device_code_hash r = TrimSpace code"
    and live: "status r \<noteq> ''consumed'' \<longrightarrow> now < expires_at r"
    and stamp: "\<forall>e. claim_auth_expires_at r = Some e \<longrightarrow> pg_ts e = e"
  shows "poll_post (OpPoll code iv now mint) r out (tables d) (tables d')"
proof -
  consider (approved) tok exp n where "status r = ''approved''"
      "mint (bootstrap_id r) (device_id r) (case owner_user_id r of None \<Rightarrow> [] | Some w \<Rightarrow> w) = Inr (tok, exp)"
      "update_claims (\<lambda>x. session_id x = session_id r \<and> status x = ''approved'')
        (\<lambda>x. x\<lparr>status := ''consumed'', consumed_at := Some (pg_ts now), claim_authorization := Some tok,
               claim_auth_expires_at := Some (pg_ts exp)\<rparr>) (tables d) = Some (n, tables d')"
      "out = (poll_outcome PollOutcomeApproved)\<lparr>po_ClaimAuthorization := tok, po_ExpiresAt := exp\<rparr>"
    | (consumed) e a where "status r = ''consumed''" "claim_auth_expires_at r = Some e" "claim_authorization r = Some a"
      "d' = d" "out = (poll_outcome PollOutcomeApproved)\<lparr>po_ClaimAuthorization := a, po_ExpiresAt := e\<rparr>"
    | (other) "d' = d" "po_Status out \<noteq> PollOutcomeApproved"
    using run
    by (auto simp: poll_switch_def Let_def tx_Inr split: if_splits sum.splits option.splits prod.splits)
  then show ?thesis
  proof cases
    case approved
    then show ?thesis
      using consume_effect(1) [where mint = mint and now = now and r = r and tok = tok and exp = exp and iv = iv,
          OF approved(3) keys look code approved(1) _ approved(2)]
        consume_effect(2) [where mint = mint and now = now and r = r and tok = tok and exp = exp,
          OF approved(3) keys look code approved(1) _ approved(2)] live code
      by (simp add: poll_post_def)
  next
    case consumed
    then show ?thesis
      using look stamp by (simp add: poll_post_def claim_effect_same [OF keys])
  next
    case other
    then show ?thesis using keys by (simp add: poll_post_same_look)
  qed
qed

lemma poll_row_post:
  assumes run: "poll_row r iv now mint d = (Inr (Commit out), d')"
    and keys: "claim_keys (tables d)" and stamp: "stamped (tables d)"
    and row: "r \<in> set (device_claim_sessions (tables d))" and code: "device_code_hash r = TrimSpace code"
  shows "poll_post (OpPoll code iv now mint) r out (tables d) (tables d')"
proof -
  consider (expired) n where "\<not> After (expires_at r) now" "po_Status out \<noteq> PollOutcomeApproved"
      "update_claim (session_id r) (\<lambda>x. (bump now x)\<lparr>status := ''expired''\<rparr>) d = (Inr n, d')"
    | (slow) n where "po_Status out \<noteq> PollOutcomeApproved" "update_claim (session_id r) (bump now) d = (Inr n, d')"
    | (switch) n d1 where "status r \<noteq> ''consumed'' \<longrightarrow> now < expires_at r"
      "update_claim (session_id r) (bump now) d = (Inr n, d1)" "poll_switch r iv now mint d1 = (Inr (Commit out), d')"
    using run by (auto simp: poll_row_def tx_bind_Inr tx_return_Inr After_def split: if_splits)
  then show ?thesis
  proof cases
    case expired
    then show ?thesis using expire_effect [OF expired(3) keys row expired(1)] by (simp add: poll_post_def)
  next
    case slow
    then show ?thesis using bump_effect [OF slow(2) keys] by (intro poll_post_same_look) auto
  next
    case switch
    note b = bump_effect [OF switch(2) keys]
    have "poll_post (OpPoll code iv now mint) r out (tables d1) (tables d')"
      by (rule poll_switch_post [OF switch(3) b(1) _ code switch(1)])
        (use claim_look_row [OF keys row] b(2) stamp in \<open>auto simp: stamped_def\<close>)
    then show ?thesis by (simp add: poll_post_def claim_effect_def b(2))
  qed
qed

lemma poll_commit:
  assumes "tx_bind (query (find_claim (\<lambda>r. device_code_hash r = TrimSpace code))) (\<lambda>row.
      case row of None \<Rightarrow> tx_fail (App ErrSessionNotFound) | Some r \<Rightarrow> poll_row r iv now mint) d = (Inr (Commit out), d')"
    "claim_keys (tables d)" "stamped (tables d)"
  shows "\<exists>r. device_code_hash r = TrimSpace code \<and> poll_post (OpPoll code iv now mint) r out (tables d) (tables d')"
proof -
  obtain r d1 where "find_claim (\<lambda>r. device_code_hash r = TrimSpace code) (tables d) = Some r"
    "d1 = next_call d" "poll_row r iv now mint d1 = (Inr (Commit out), d')"
    using assms(1) by (auto simp: tx_bind_Inr query_Inr tx_fail_Inr split: option.splits)
  then show ?thesis
    using poll_row_post [of r iv now mint d1 out d' code] assms(2,3) find_Some_in_set
    by (fastforce simp: find_claim_def)
qed

definition pg_ok :: "claim_tables db \<Rightarrow> bool" where
  "pg_ok d \<longleftrightarrow> claim_keys (tables d) \<and> stamped (tables d)"

definition pg_look :: "claim_tables db \<Rightarrow> string \<Rightarrow> claim_view option" where
  "pg_look d = claim_look (tables d)"

lemma poll_early:
  assumes "tx_bind (query (find_claim (\<lambda>r. device_code_hash r = TrimSpace code))) (\<lambda>row.
      case row of None \<Rightarrow> tx_fail (App ErrSessionNotFound) | Some r \<Rightarrow> poll_row r iv now mint) d = (Inr (Return out), d')"
  shows "po_Status out \<noteq> PollOutcomeApproved"
  using assms
  by (auto simp: tx_Inr poll_row_def poll_switch_def Let_def
      split: option.splits if_splits sum.splits prod.splits)

lemma PollClaimSession_cases:
  assumes "PollClaimSession code iv now mint d = (res, d')" "pg_ok d"
  obtains (kept) "tables d' = tables d" "\<And>out. res = Inr out \<Longrightarrow> po_Status out \<noteq> PollOutcomeApproved"
    | (moved) r out where "res = Inr out" "device_code_hash r = TrimSpace code"
      "poll_post (OpPoll code iv now mint) r out (tables d) (tables d')"
proof (cases "length (TrimSpace code) = 64")
  case False
  then show thesis using assms(1) kept by (auto simp: PollClaimSession_def Let_def)
next
  case True
  let ?m = "tx_bind (query (find_claim (\<lambda>r. device_code_hash r = TrimSpace code))) (\<lambda>row.
      case row of None \<Rightarrow> tx_fail (App ErrSessionNotFound) | Some r \<Rightarrow> poll_row r iv now mint)"
  have run: "in_tx ?m d = (res, d')" using assms(1) True by (simp add: PollClaimSession_def Let_def)
  show thesis
  proof (cases res)
    case (Inl e)
    then show thesis using run in_tx_Inl kept by blast
  next
    case (Inr out)
    with run have "in_tx ?m d = (Inr out, d')" by simp
    then show thesis
    proof (cases rule: in_tx_Inr)
      case (commit d2)
      then obtain r where "device_code_hash r = TrimSpace code"
        "poll_post (OpPoll code iv now mint) r out (tables (next_call d)) (tables d2)"
        using poll_commit [OF commit(1)] assms(2) by (auto simp: pg_ok_def)
      then show thesis using moved Inr commit(2) by simp
    next
      case (early d2)
      then show thesis using kept Inr poll_early [OF early(1)] by simp
    qed
  qed
qed

lemma readonly_AuthorizeClaimSession: "readonly (AuthorizeClaimSession raw b dev now)"
  unfolding AuthorizeClaimSession_def Let_def by (intro readonly_if readonly_bind readonly_option) auto

lemma pg_exec_effect:
  assumes ok: "pg_ok d" and pend: "creates_pending opr" and run: "pg_exec env opr d = (res, d')"
  shows "claim_effect opr (tables d) (tables d')"
proof -
  have keys: "claim_keys (tables d)" using ok by (simp add: pg_ok_def)
  have same: "claim_effect opr (tables d) (tables d)" by (rule claim_effect_same [OF keys])
  show ?thesis
  proof (cases "pool_available env")
    case False
    then have "d' = d" using run by (cases opr) (auto simp: with_pool_def)
    then show ?thesis using same by simp
  next
    case avail: True
    show ?thesis
    proof (cases opr)
      case (OpCreate r)
      then obtain y where "CreateClaimSession (db_clock env) r d = (y, d')"
        using run avail by (auto simp: with_pool_def map_prod_id_eq)
      then show ?thesis using changesD [OF create_effect] pend keys OpCreate by blast
    next
      case (OpApprove sid own now)
      then obtain y where "ApproveClaimSession (go_clock env) sid own now d = (y, d')"
        using run avail by (auto simp: with_pool_def map_prod_id_eq)
      then show ?thesis using changesD [OF approve_effect] keys OpApprove by blast
    next
      case (OpDeny sid now)
      then obtain y where "DenyClaimSession (go_clock env) sid now d = (y, d')"
        using run avail by (auto simp: with_pool_def map_prod_id_eq)
      then show ?thesis using changesD [OF deny_effect] keys OpDeny by blast
    next
      case (OpPoll code iv now mint)
      then obtain y where "PollClaimSession code iv now mint d = (y, d')"
        using run avail by (auto simp: with_pool_def map_prod_id_eq)
      then show ?thesis
        by (cases rule: PollClaimSession_cases [OF _ ok]) (use same OpPoll in \<open>auto simp: poll_post_def\<close>)
    next
      case (OpAuthorize raw b dev now)
      then obtain y where "AuthorizeClaimSession raw b dev now d = (y, d')"
        using run avail by (auto simp: with_pool_def map_prod_id_eq)
      then have "tables d' = tables d" using readonlyD readonly_AuthorizeClaimSession by blast
      then show ?thesis using same by simp
    qed
  qed
qed

lemma pg_exec_poll: "pg_exec env (OpPoll code iv now mint) d = (RPoll out, d')
    \<Longrightarrow> PollClaimSession code iv now mint d = (Inr out, d')"
  by (cases "PollClaimSession code iv now mint d") (auto simp: with_pool_def to_result_inject split: if_splits)

lemma pg_exec_authorize: "pg_exec env (OpAuthorize raw boot dev now) d = (ROwner own, d')
    \<Longrightarrow> AuthorizeClaimSession raw boot dev now d = (Inr own, d')"
  by (cases "AuthorizeClaimSession raw boot dev now d") (auto simp: with_pool_def to_result_inject split: if_splits)

lemma pg_authorized:
  assumes "AuthorizeClaimSession raw b dev now d = (Inr own, d')"
  shows "\<exists>r w e. r \<in> set (device_claim_sessions (tables d)) \<and> claim_authorization r = Some (TrimSpace raw)
    \<and> bootstrap_id r = TrimSpace b \<and> device_id r = TrimSpace dev \<and> status r = ''consumed'' \<and> owner_user_id r = Some w
    \<and> own = TrimSpace w \<and> own \<noteq> [] \<and> claim_auth_expires_at r = Some e \<and> pg_ts now < e"
proof -
  let ?P = "\<lambda>r. claim_authorization r = Some (TrimSpace raw) \<and> bootstrap_id r = TrimSpace b
             \<and> device_id r = TrimSpace dev \<and> status r = ''consumed'' \<and> owner_user_id r \<noteq> None
             \<and> (case claim_auth_expires_at r of None \<Rightarrow> False | Some e \<Rightarrow> pg_ts now < e)"
  obtain r where r: "find_claim ?P (tables d) = Some r"
    "own = TrimSpace (case owner_user_id r of None \<Rightarrow> [] | Some w \<Rightarrow> w)" "own \<noteq> []"
    using assms by (auto simp: AuthorizeClaimSession_def Let_def tx_Inr split: if_splits option.splits)
  then have "r \<in> set (device_claim_sessions (tables d)) \<and> ?P r"
    unfolding find_claim_def by (intro find_Some_in_set)
  then show ?thesis using r(2,3) by (auto split: option.splits)
qed

lemma pg_code_unique:
  assumes "pg_ok d" "pg_look d i = Some v" "pg_look d j = Some w" "v_Code v = v_Code w"
  shows "i = j"
proof -
  obtain r r' where "r \<in> set (device_claim_sessions (tables d))" "session_id r = i" "row_view r = v"
    "r' \<in> set (device_claim_sessions (tables d))" "session_id r' = j" "row_view r' = w"
    using assms(2,3) claim_look_Some unfolding pg_look_def by meson
  moreover then have "r = r'"
    using assms(1,4) unique_keyD [of device_code_hash "device_claim_sessions (tables d)" r r']
    by (auto simp: pg_ok_def claim_keys_def)
  ultimately show ?thesis by simp
qed

interpretation pgc: claim_session_store pg_exec pg_look pg_ok pg_ts
proof (unfold_locales, goal_cases)
  case (1 d opr env res d')
  then show ?case
    using pg_exec_effect [OF 1] stamped_effect by (auto simp: pg_ok_def claim_effect_def)
next
  case (2 d opr env res d' i)
  then show ?case using pg_exec_effect [OF 2] by (simp add: claim_effect_def pg_look_def)
next
  case (3 d i v j w)
  then show ?case by (rule pg_code_unique)
next
  case (4 d env code iv now mint out d')
  show ?case
  proof (cases rule: PollClaimSession_cases [OF pg_exec_poll [OF 4(2)] 4(1), case_names kept moved])
    case kept
    then show ?thesis using 4(3) by simp
  next
    case (moved r out')
    then have "out' = out" by simp
    note moved = moved [unfolded this]
    then obtain v where "claim_look (tables d') (session_id r) = Some v" "v_Code v = device_code_hash r"
      "v_Status v = ClaimSessionConsumed" "v_Token v = po_ClaimAuthorization out"
      "v_TokenExpires v = Some (pg_ts (po_ExpiresAt out))"
      using 4(3) moved(3) unfolding poll_post_def by blast
    then show ?thesis using moved(2)
      by (intro exI [of _ "session_id r"] exI [of _ v]) (simp add: pg_look_def)
  qed
next
  case (5 d env raw boot dev now own d')
  from pg_authorized [OF pg_exec_authorize [OF 5(2)]] obtain r w e where r:
    "r \<in> set (device_claim_sessions (tables d))" "claim_authorization r = Some (TrimSpace raw)"
    "bootstrap_id r = TrimSpace boot" "device_id r = TrimSpace dev" "status r = ''consumed''" "owner_user_id r = Some w"
    "own = TrimSpace w" "own \<noteq> []" "claim_auth_expires_at r = Some e" "pg_ts now < e" by blast
  have "pg_look d (session_id r) = Some (row_view r)"
    using claim_look_row r(1) 5(1) by (simp add: pg_look_def pg_ok_def)
  then show ?case
    using r by (intro exI [of _ "session_id r"] exI [of _ "row_view r"] exI [of _ e]) simp
qed

end
