(* ===== verification/Claim_Handlers.thy ===== *)
theory Claim_Handlers
  imports Owner_Auth_Properties Claim_Limiter Claim_Stores
begin

text \<open>
  The HTTP handlers of the claim sessions and of the claim codes (\<open>claim_session_handlers.go\<close>, the last part of
  \<open>claim_code.go\<close>), from the decoded request to the response. A request whose body does not decode is
  \<open>None\<close>. The store is reached through the interface of \<open>Claim_Contract\<close>.
\<close>

section \<open>User codes\<close>

definition deviceClaimSessionAlphabet :: string where
  "deviceClaimSessionAlphabet = ''ABCDEFGHJKLMNPQRSTUVWXYZ23456789''"

definition defaultPollIntervalSec :: int where "defaultPollIntervalSec = 5"

text \<open>Eight random bytes give two groups of four characters.\<close>

definition randomUserCode :: "nat list \<Rightarrow> string" where
  "randomUserCode random =
     (let out = map (\<lambda>v. deviceClaimSessionAlphabet ! (v mod 32)) random in take 4 out @ ''-'' @ drop 4 out)"

text \<open>The loop over the runes of a string with their byte offsets.\<close>

fun user_code_loop :: "nat \<Rightarrow> (nat \<times> string) list \<Rightarrow> bool" where
  "user_code_loop i [] = True"
| "user_code_loop i ((c, bytes) # rs) =
     (if i \<noteq> 4 \<and> c \<notin> of_char ` set deviceClaimSessionAlphabet then False
      else user_code_loop (i + length bytes) rs)"

definition validDeviceClaimUserCode :: "string \<Rightarrow> bool" where
  "validDeviceClaimUserCode raw \<longleftrightarrow> length raw = 9 \<and> raw ! 4 = CHR ''-'' \<and> user_code_loop 0 (runes raw)"

section \<open>Creating a session\<close>

definition MintBoundClaimAuthorizationDirect :: "auth_config \<Rightarrow> string option \<Rightarrow> time \<Rightarrow> string \<Rightarrow> string \<Rightarrow> string
    \<Rightarrow> claim_error + (string \<times> time)" where
  "MintBoundClaimAuthorizationDirect cfg draw now ownerUserID0 bootstrapID0 deviceID0 =
     (let ownerUserID = TrimSpace ownerUserID0; bootstrapID = TrimSpace bootstrapID0; deviceID = TrimSpace deviceID0 in
      if ownerUserID = [] \<or> bootstrapID = [] \<or> length bootstrapID > 128 \<or> deviceID = [] \<or> length deviceID > 128
      then Inl (ErrMint ''invalid claim authorization parameters'')
      else case draw of
             None \<Rightarrow> Inl (ErrMint ''random'')
           | Some raw \<Rightarrow> Inr (raw, Add now (humanClaimTTL cfg)))"

text \<open>\<open>url.QueryEscape\<close>.\<close>

definition upper_nibble :: "nat \<Rightarrow> char" where
  "upper_nibble n = (if n < 10 then char_of (48 + n) else char_of (55 + n))"

definition query_escape :: "string \<Rightarrow> string" where
  "query_escape s = concat (map (\<lambda>c.
     let n = of_char c :: nat in
     if 97 \<le> n \<and> n \<le> 122 \<or> 65 \<le> n \<and> n \<le> 90 \<or> 48 \<le> n \<and> n \<le> 57 \<or> c \<in> {CHR ''-'', CHR ''_'', CHR ''.'', CHR ''~''} then [c]
     else if n = 32 then ''+'' else [CHR ''%'', upper_nibble (n div 16), upper_nibble (n mod 16)]) s)"

definition trim_right_slash :: "string \<Rightarrow> string" where
  "trim_right_slash s = rev (dropWhile (\<lambda>c. c = CHR ''/'') (rev s))"

record ClaimSessionResponse =
  device_code :: string
  user_code :: string
  verification_uri :: string
  verification_uri_complete :: string
  expires_in :: int
  poll_interval :: int

definition verificationURI :: "string \<Rightarrow> string \<Rightarrow> string" where
  "verificationURI publicBase origin =
     (if publicBase \<noteq> [] then trim_right_slash publicBase @ ''/v1/owner/device-claim''
      else if origin \<noteq> [] then trim_right_slash origin @ ''/v1/owner/device-claim''
      else ''/v1/owner/device-claim'')"

record session_draws =
  draw_session :: "string option"
  draw_device :: "string option"
  draw_user :: "nat list option"

definition session_record :: "auth_config \<Rightarrow> time \<Rightarrow> string \<Rightarrow> string \<Rightarrow> string \<Rightarrow> string \<Rightarrow> string \<Rightarrow> ClaimSessionRecord" where
  "session_record cfg now sessionID deviceID bootstrapID deviceCode userCode =
     zero_session\<lparr>cs_SessionID := sessionID, cs_DeviceID := deviceID, cs_BootstrapID := bootstrapID,
       cs_DeviceCodeHash := HashSecret (tokenKey cfg) deviceCode, cs_UserCodeHash := HashSecret (tokenKey cfg) userCode,
       cs_Status := ClaimSessionPending, cs_ExpiresAt := Add now (humanClaimTTL cfg), cs_CreatedAt := now\<rparr>"

definition CreateDeviceClaimSession ::
    "auth_config \<Rightarrow> (claim_op \<Rightarrow> 's \<Rightarrow> claim_result \<times> 's) \<Rightarrow> string \<Rightarrow> time \<Rightarrow> session_draws \<Rightarrow> string \<Rightarrow> string \<Rightarrow> string \<Rightarrow> 's
      \<Rightarrow> (string + ClaimSessionResponse) \<times> 's" where
  "CreateDeviceClaimSession cfg exec_op publicBase now draws bootstrapID0 deviceID0 origin st =
     (let bootstrapID = TrimSpace bootstrapID0; deviceID = TrimSpace deviceID0 in
      if \<not> valid_ref bootstrapID \<or> \<not> valid_ref deviceID
      then (Inl ''bootstrap_id and device_id are required and must be <=128 bytes'', st)
      else
      (case (draw_session draws, draw_device draws, draw_user draws) of
         (Some sessionID, Some deviceCode, Some random) \<Rightarrow>
           (let userCode = randomUserCode random in
            case exec_op (OpCreate (session_record cfg now sessionID deviceID bootstrapID deviceCode userCode)) st of
              (RFail _, st') \<Rightarrow> (Inl ''create'', st')
            | (_, st') \<Rightarrow>
                (Inr \<lparr>device_code = deviceCode, user_code = userCode,
                      verification_uri = verificationURI publicBase origin,
                      verification_uri_complete = verificationURI publicBase origin
                        @ ''?s='' @ query_escape sessionID @ ''&user_code='' @ query_escape userCode,
                      expires_in = int_seconds (humanClaimTTL cfg), poll_interval = defaultPollIntervalSec\<rparr>, st'))
       | _ \<Rightarrow> (Inl ''random'', st)))"

section \<open>Responses\<close>

datatype http_response =
  Plain nat string
| ErrorJson nat string "int option"
| MessageJson nat string
| CreatedJson ClaimSessionResponse
| TokenJson string time
| StatusJson string string
| RecordJson string string string time
| Page string

definition writeClaimSessionError :: "nat \<Rightarrow> string \<Rightarrow> int \<Rightarrow> http_response" where
  "writeClaimSessionError http_code code iv = ErrorJson http_code code (if iv > 0 then Some iv else None)"

definition writeClaimMutationError :: "claim_error failure \<Rightarrow> http_response" where
  "writeClaimMutationError e =
     (if e = App ErrSessionNotFound then MessageJson 404 ''session not found''
      else if e = App ErrSessionExpired then MessageJson 410 ''session expired''
      else if e = App ErrSessionAlreadyApproved then MessageJson 409 ''session already approved''
      else if e = App ErrSessionDenied then MessageJson 403 ''session denied''
      else MessageJson 400 ''claim session not mutable'')"

section \<open>Handlers\<close>

definition request_origin :: "bool \<Rightarrow> string \<Rightarrow> string" where
  "request_origin tls host = (if tls then ''https://'' @ host else if host \<noteq> [] then ''http://'' @ host else [])"

definition HandleDeviceClaimSessions ::
    "auth_config \<Rightarrow> (claim_op \<Rightarrow> 's \<Rightarrow> claim_result \<times> 's) \<Rightarrow> string \<Rightarrow> time \<Rightarrow> session_draws \<Rightarrow> string \<Rightarrow> bool \<Rightarrow> string
      \<Rightarrow> (string \<times> string) option \<Rightarrow> 's \<Rightarrow> http_response \<times> 's" where
  "HandleDeviceClaimSessions cfg exec_op publicBase now draws http_method tls host request st =
     (if http_method \<noteq> ''POST'' then (Plain 405 ''method not allowed'', st)
      else case request of
        None \<Rightarrow> (Plain 400 ''invalid request'', st)
      | Some (bootstrapID, deviceID) \<Rightarrow>
        (case CreateDeviceClaimSession cfg exec_op publicBase now draws bootstrapID deviceID (request_origin tls host) st of
           (Inl _, st') \<Rightarrow> (Plain 400 ''failed to create claim session'', st')
         | (Inr resp, st') \<Rightarrow> (CreatedJson resp, st')))"

text \<open>The answer to a poll.\<close>

definition poll_response :: "PollOutcome \<Rightarrow> http_response" where
  "poll_response out =
     (case po_Status out of
        PollOutcomePending \<Rightarrow> writeClaimSessionError 400 ''authorization_pending'' (po_IntervalSeconds out)
      | PollOutcomeSlowDown \<Rightarrow> writeClaimSessionError 400 ''slow_down'' (po_IntervalSeconds out)
      | PollOutcomeDenied \<Rightarrow> writeClaimSessionError 403 ''access_denied'' 0
      | PollOutcomeExpired \<Rightarrow> writeClaimSessionError 400 ''expired_token'' 0
      | PollOutcomeApproved \<Rightarrow> TokenJson (po_ClaimAuthorization out) (po_ExpiresAt out))"

text \<open>
  The minting function is passed as it is: the store calls it with the bootstrap, the device and the owner, in this
  order, while it takes the owner, the bootstrap and the device.
\<close>

definition HandleDeviceClaimSessionToken ::
    "auth_config \<Rightarrow> (claim_op \<Rightarrow> 's \<Rightarrow> claim_result \<times> 's) \<Rightarrow> (nat \<Rightarrow> time) \<Rightarrow> string option \<Rightarrow> string
      \<Rightarrow> string option \<Rightarrow> 's \<Rightarrow> http_response \<times> 's" where
  "HandleDeviceClaimSessionToken cfg exec_op clock draw http_method request st =
     (if http_method \<noteq> ''POST'' then (Plain 405 ''method not allowed'', st)
      else case request of
        None \<Rightarrow> (Plain 400 ''invalid request'', st)
      | Some raw \<Rightarrow>
        (let deviceCode = TrimSpace raw in
         if deviceCode = [] then (writeClaimSessionError 400 ''invalid_request'' 0, st)
         else
         (case exec_op (OpPoll (HashSecret (tokenKey cfg) deviceCode) (defaultPollIntervalSec * Second) (clock 0)
                         (MintBoundClaimAuthorizationDirect cfg draw (clock 1))) st of
            (RFail e, st') \<Rightarrow>
              if e = App ErrSessionNotFound then (writeClaimSessionError 400 ''invalid_grant'' 0, st')
              else (Plain 500 ''polling failed'', st')
          | (RPoll out, st') \<Rightarrow> (poll_response out, st')
          | (_, st') \<Rightarrow> (writeClaimSessionError 400 ''expired_token'' 0, st'))))"

definition HandleOwnerDeviceClaimSessionApprove ::
    "auth_config \<Rightarrow> (claim_op \<Rightarrow> 's \<Rightarrow> claim_result \<times> 's) \<Rightarrow> (nat \<Rightarrow> time) \<Rightarrow> string \<Rightarrow> string \<Rightarrow> string \<Rightarrow> string
      \<Rightarrow> auth_state \<times> 's \<Rightarrow> http_response \<times> auth_state \<times> 's" where
  "HandleOwnerDeviceClaimSessionApprove cfg exec_op clock http_method cookie csrf sessionID st =
     (case st of (a, s) \<Rightarrow>
      if http_method \<noteq> ''POST'' then (Plain 405 ''method not allowed'', a, s)
      else case AuthenticateMutation cfg (clock 0) cookie csrf a of
        (Inl _, a') \<Rightarrow> (Plain 401 ''unauthorized'', a', s)
      | (Inr session, a') \<Rightarrow>
        (case exec_op (OpApprove (TrimSpace sessionID) (ow_UserID session) (clock 1)) s of
           (RFail e, s') \<Rightarrow> (writeClaimMutationError e, a', s')
         | (_, s') \<Rightarrow> (StatusJson ''approved'' (TrimSpace sessionID), a', s')))"

definition HandleOwnerDeviceClaimSessionDeny ::
    "auth_config \<Rightarrow> (claim_op \<Rightarrow> 's \<Rightarrow> claim_result \<times> 's) \<Rightarrow> (nat \<Rightarrow> time) \<Rightarrow> string \<Rightarrow> string \<Rightarrow> string \<Rightarrow> string
      \<Rightarrow> auth_state \<times> 's \<Rightarrow> http_response \<times> auth_state \<times> 's" where
  "HandleOwnerDeviceClaimSessionDeny cfg exec_op clock http_method cookie csrf sessionID st =
     (case st of (a, s) \<Rightarrow>
      if http_method \<noteq> ''POST'' then (Plain 405 ''method not allowed'', a, s)
      else case AuthenticateMutation cfg (clock 0) cookie csrf a of
        (Inl _, a') \<Rightarrow> (Plain 401 ''unauthorized'', a', s)
      | (Inr _, a') \<Rightarrow>
        (case exec_op (OpDeny (TrimSpace sessionID) (clock 1)) s of
           (RFail e, s') \<Rightarrow> (writeClaimMutationError e, a', s')
         | (_, s') \<Rightarrow> (StatusJson ''denied'' (TrimSpace sessionID), a', s')))"

definition HandleOwnerDeviceClaimSessionGet ::
    "auth_config \<Rightarrow> (string \<Rightarrow> 's \<Rightarrow> (claim_error failure + ClaimSessionRecord) \<times> 's) \<Rightarrow> time \<Rightarrow> string \<Rightarrow> string \<Rightarrow> string
      \<Rightarrow> auth_state \<times> 's \<Rightarrow> http_response \<times> auth_state \<times> 's" where
  "HandleOwnerDeviceClaimSessionGet cfg get_session now http_method cookie sessionID st =
     (case st of (a, s) \<Rightarrow>
      if http_method \<noteq> ''GET'' then (Plain 405 ''method not allowed'', a, s)
      else case Authenticate cfg now cookie a of
        (Inl _, a') \<Rightarrow> (Plain 401 ''unauthorized'', a', s)
      | (Inr _, a') \<Rightarrow>
        (case get_session (TrimSpace sessionID) s of
           (Inl e, s') \<Rightarrow>
             if e = App ErrSessionNotFound then (Plain 404 ''session not found'', a', s')
             else (Plain 500 ''session unavailable'', a', s')
         | (Inr r, s') \<Rightarrow> (RecordJson (cs_SessionID r) (cs_DeviceID r) (cs_Status r) (cs_ExpiresAt r), a', s')))"

text \<open>
  The page that shows the code to the owner. The query parameters come decoded, with the code in upper case; the
  redirect of a visitor without a session is the status 302, the text of the page is left to the template.
\<close>

definition HandleOwnerDeviceClaimPage ::
    "auth_config \<Rightarrow> (string \<Rightarrow> 's \<Rightarrow> (claim_error failure + ClaimSessionRecord) \<times> 's) \<Rightarrow> (nat \<Rightarrow> time) \<Rightarrow> string \<Rightarrow> string
      \<Rightarrow> string \<Rightarrow> string \<Rightarrow> string \<Rightarrow> auth_state \<times> 's \<Rightarrow> http_response \<times> auth_state \<times> 's" where
  "HandleOwnerDeviceClaimPage cfg get_session clock http_method cookie s_param session_param userCode st =
     (case st of (a, s) \<Rightarrow>
      if http_method \<noteq> ''GET'' then (Plain 405 ''method not allowed'', a, s)
      else case Authenticate cfg (clock 0) cookie a of
        (Inl _, a') \<Rightarrow> (Plain 302 ''login'', a', s)
      | (Inr _, a') \<Rightarrow>
        (let sessionID = (if TrimSpace s_param = [] then TrimSpace session_param else TrimSpace s_param) in
         if sessionID = [] \<or> \<not> validDeviceClaimUserCode userCode then (Plain 400 ''invalid verification reference'', a', s)
         else
         (case get_session sessionID s of
            (Inl _, s') \<Rightarrow> (Plain 404 ''verification session unavailable'', a', s')
          | (Inr r, s') \<Rightarrow>
            if HashSecret (tokenKey cfg) userCode \<noteq> cs_UserCodeHash r
            then (Plain 404 ''invalid verification reference'', a', s')
            else if cs_Status r \<noteq> ClaimSessionPending \<or> \<not> After (cs_ExpiresAt r) (clock 1)
            then (Plain 410 (''Session is '' @ cs_Status r), a', s')
            else (Page (cs_SessionID r), a', s'))))"

text \<open>Redeeming a human code: the limit on attempts, then the redemption.\<close>

definition HandleHumanClaimCodeRedeem ::
    "auth_config \<Rightarrow> (nat \<Rightarrow> time) \<Rightarrow> string \<Rightarrow> string \<Rightarrow> (string \<times> string \<times> string \<times> string) option \<Rightarrow> string option
      \<Rightarrow> auth_state \<times> (string \<rightharpoonup> claimCodeAttemptWindow) \<Rightarrow> http_response \<times> auth_state \<times> (string \<rightharpoonup> claimCodeAttemptWindow)" where
  "HandleHumanClaimCodeRedeem cfg clock http_method remote request draw st =
     (case st of (a, entries) \<Rightarrow>
      if http_method \<noteq> ''POST'' then (Plain 405 ''method not allowed'', a, entries)
      else
      (let (ok, a1, entries1) =
         (case code_store a of
            Some m \<Rightarrow> (let (ok, m1) = mem_AllowAttempt (clock 0) (attempt_host remote) claimCodeAttemptsPerMinute Minute m
                      in (ok, a\<lparr>code_store := Some m1\<rparr>, entries))
          | None \<Rightarrow> (let (ok, e1) = allowClaimCodeAttempt remote (clock 0) entries in (ok, a, e1))) in
       if \<not> ok then (Plain 429 ''too many attempts'', a1, entries1)
       else case request of
         None \<Rightarrow> (Plain 400 ''invalid request'', a1, entries1)
       | Some (code, bootstrapID, deviceID, redemptionID) \<Rightarrow>
         (case RedeemBoundHumanClaimCode cfg (\<lambda>k. clock (k + 1)) code bootstrapID deviceID redemptionID draw a1 of
            (Inl _, a2) \<Rightarrow> (Plain 410 ''invalid or expired claim code'', a2, entries1)
          | (Inr (raw, claim), a2) \<Rightarrow> (TokenJson raw (ca_ExpiresAt claim), a2, entries1))))"

end
