(* ===== verification/Claim_Demo.thy ===== *)
theory Claim_Demo
  imports Claim_Handlers
begin

text \<open>Concrete runs of the claim-session stores, on which the properties are exercised.\<close>

section \<open>Data\<close>

definition demo_sha :: "string \<Rightarrow> string" where
  "demo_sha s = take 32 (s @ replicate 32 (CHR ''0''))"

definition demo_config :: auth_config where
  "demo_config = \<lparr>LoginTTL = Minute, cfg_SessionTTL = Minute, ClaimTTL = Minute, sha256 = demo_sha,
     url_plain_path = (\<lambda>_. True)\<rparr>"

definition demo_record :: "string \<Rightarrow> char \<Rightarrow> ClaimSessionRecord" where
  "demo_record sid c = zero_session\<lparr>cs_SessionID := sid, cs_DeviceID := ''dev'', cs_BootstrapID := ''boot'',
     cs_DeviceCodeHash := replicate 64 c, cs_UserCodeHash := replicate 64 (CHR ''u''),
     cs_Status := ClaimSessionPending, cs_ExpiresAt := 300 * Second\<rparr>"

definition demo_mint :: mint where
  "demo_mint boot dev own = Inr (''token-for-'' @ own, 200 * Second)"

definition demo_env :: claim_env where
  "demo_env = \<lparr>pool_available = True, db_clock = 1, go_clock = 1\<rparr>"

definition demo_ops :: "(claim_env \<times> claim_op) list" where
  "demo_ops = [(demo_env, OpCreate (demo_record ''session-00000001'' (CHR ''a''))),
               (demo_env, OpApprove ''session-00000001'' ''alice'' Second)]"

definition demo_db :: "claim_tables db" where
  "demo_db = \<lparr>tables = \<lparr>device_claim_sessions = []\<rparr>, faults = []\<rparr>"

definition demo_poll :: "time \<Rightarrow> claim_op" where
  "demo_poll now = OpPoll (replicate 64 (CHR ''a'')) (5 * Second) now demo_mint"

definition demo_mem_ops :: "(string list \<times> claim_op) list" where
  "demo_mem_ops = map (\<lambda>x. ([], snd x)) demo_ops"

definition demo_row :: claim_row where
  "demo_row = \<lparr>session_id = ''session-00000001'', device_id = ''dev'', bootstrap_id = ''boot'',
     device_code_hash = replicate 64 (CHR ''a''), user_code_hash = replicate 64 (CHR ''u''),
     user_code_plain = replicate 32 (CHR ''u''), owner_user_id = None, status = ClaimSessionPending,
     claim_authorization = None, claim_auth_expires_at = None, expires_at = 300 * Second, approved_at = None,
     consumed_at = None, last_poll_at = None, poll_count = 0, created_at = 1\<rparr>"

definition demo_state :: "claim_row \<Rightarrow> claim_tables db" where
  "demo_state r = \<lparr>tables = \<lparr>device_claim_sessions = [r]\<rparr>, faults = []\<rparr>"

definition demo_approved :: claim_row where
  "demo_approved = demo_row\<lparr>status := ''approved'', owner_user_id := Some ''alice'', approved_at := Some Second\<rparr>"

definition demo_consumed :: claim_row where
  "demo_consumed = demo_approved\<lparr>last_poll_at := Some (2 * Second), poll_count := 1, status := ''consumed'',
     consumed_at := Some (2 * Second), claim_authorization := Some ''token-for-alice'',
     claim_auth_expires_at := Some (200 * Second)\<rparr>"

definition demo_denied :: "claim_tables db" where
  "demo_denied = demo_state (demo_row\<lparr>status := ''denied''\<rparr>)"

definition demo_outcome :: PollOutcome where
  "demo_outcome = (poll_outcome PollOutcomeApproved)\<lparr>po_ClaimAuthorization := ''token-for-alice'', po_ExpiresAt := 200 * Second\<rparr>"

text \<open>An approved session of an owner with a long name.\<close>

definition demo_long :: claim_row where
  "demo_long = demo_approved\<lparr>owner_user_id := Some (replicate 200 (CHR ''o'')),
     device_code_hash := HashSecret (tokenKey demo_config) ''code''\<rparr>"

section \<open>Steps\<close>

lemma char_length_graphic: "graphic s \<Longrightarrow> char_length lo hi s \<longleftrightarrow> lo \<le> length s \<and> length s \<le> hi"
  by (simp add: char_length_def RuneCountInString_def runes_graphic)

lemma demo_graphic:
  "graphic ''session-00000001''" "graphic ''dev''" "graphic ''boot''" "graphic ''alice''" "graphic ''token-for-alice''"
  "graphic (replicate 64 (CHR ''a''))" "graphic (replicate 64 (CHR ''u''))" "graphic (replicate 32 (CHR ''u''))"
  by (simp_all add: graphic_def list_all_iff)

lemmas demo_text [simp] = demo_graphic [THEN TrimSpace_graphic] demo_graphic [THEN char_length_graphic]

lemma pg_ts_seconds [simp]: "pg_ts (n * Second) = n * Second" "pg_ts Second = Second"
  by (simp_all add: pg_ts_def Second_def)

lemma demo_row_check [simp]:
  "claim_row_check demo_row" "claim_row_check demo_approved" "claim_row_check demo_consumed"
  "claim_row_check (demo_row\<lparr>status := ''denied''\<rparr>)"
  by (simp_all add: claim_row_check_def demo_row_def demo_approved_def demo_consumed_def del: TrimSpace_graphic)

lemma demo_create:
  "pg_exec demo_env (OpCreate (demo_record ''session-00000001'' (CHR ''a''))) demo_db = (RDone, demo_state demo_row)"
  using demo_row_check(1)
  by (simp add: with_pool_def demo_env_def CreateClaimSession_def demo_record_def zero_session_def insert_claim_def
      demo_db_def demo_state_def demo_row_def)

lemma demo_time [simp]: "Second < 300 * Second" "2 * Second < 300 * Second" "3 * Second < 200 * Second" "20 * Second < 200 * Second"
  "Sub (20 * Second) (2 * Second) = 18 * Second" "\<not> 18 * Second < 5 * Second"
  by (simp_all add: Second_def Sub_def int64_min_def int64_max_def)

lemmas demo_eval = with_pool_def demo_env_def Let_def demo_state_def update_claims_def rows_affected_def update_where_def

lemma demo_approve:
  "pg_exec demo_env (OpApprove ''session-00000001'' ''alice'' Second) (demo_state demo_row) = (RDone, demo_state demo_approved)"
  using demo_row_check(2)
  by (simp add: demo_eval ApproveClaimSession_def pending_claim_def demo_row_def demo_approved_def)

lemma demo_deny:
  "pg_exec demo_env (OpDeny ''session-00000001'' Second) (demo_state demo_row) = (RDone, demo_state (demo_row\<lparr>status := ''denied''\<rparr>))"
  using demo_row_check(4)
  by (simp add: demo_eval DenyClaimSession_def pending_claim_def demo_row_def)

lemma demo_bump_check: "claim_row_check (bump t demo_approved)" "claim_row_check (bump t demo_consumed)"
  "claim_row_check (bump t (demo_row\<lparr>status := ''denied''\<rparr>))"
  by (simp_all add: bump_def claim_row_check_def demo_row_def demo_approved_def demo_consumed_def del: TrimSpace_graphic)

lemmas demo_poll_eval = demo_eval demo_poll_def PollClaimSession_def in_tx_def find_claim_def poll_row_def poll_switch_def
  update_claim_def After_def bump_def

lemma demo_first:
  "pg_exec demo_env (demo_poll (2 * Second)) (demo_state demo_approved) =
     (RPoll demo_outcome,
      demo_state demo_consumed)"
  using demo_row_check(3) demo_bump_check(1) [of "2 * Second"]
  by (simp add: demo_poll_eval demo_mint_def demo_row_def demo_approved_def demo_consumed_def demo_outcome_def)

lemma demo_again:
  "fst (pg_exec demo_env (demo_poll (20 * Second)) (demo_state demo_consumed)) =
     RPoll demo_outcome"
  using demo_bump_check(2) [of "20 * Second"]
  by (simp add: demo_poll_eval demo_mint_def demo_row_def demo_approved_def demo_consumed_def demo_outcome_def)

lemma demo_refused:
  "fst (pg_exec demo_env (demo_poll (2 * Second)) (demo_state (demo_row\<lparr>status := ''denied''\<rparr>))) = RPoll (poll_outcome PollOutcomeDenied)"
  using demo_bump_check(3) [of "2 * Second"]
  by (simp add: demo_poll_eval demo_row_def)

lemma demo_authorize:
  "fst (pg_exec demo_env (OpAuthorize ''token-for-alice'' ''boot'' ''dev'' (3 * Second)) (demo_state demo_consumed)) = ROwner ''alice''"
  by (simp add: demo_eval AuthorizeClaimSession_def find_claim_def demo_row_def demo_approved_def demo_consumed_def)

lemma demo_runs:
  "run_ops pg_exec demo_ops demo_db = demo_state demo_approved"
  by (simp add: demo_ops_def demo_create demo_approve del: pg_exec.simps)

lemma demo_ops_pending: "\<forall>x \<in> set demo_ops. creates_pending (snd x)"
  by (simp add: demo_ops_def demo_record_def zero_session_def)

lemma demo_mem_out:
  "fst (mem_exec [] (demo_poll (2 * Second)) (run_ops mem_exec demo_mem_ops NewMemoryClaimSessionStore)) = RPoll demo_outcome"
  by (simp add: demo_mem_ops_def demo_ops_def demo_poll_def mem_CreateSession_def demo_record_def NewMemoryClaimSessionStore_def
      zero_session_def mem_ApproveSession_def After_def put_session_def mem_PollSession_def session_at_def Let_def demo_mint_def
      polled_def demo_outcome_def)

end
