(* ===== verification/Claim_Properties.thy ===== *)
theory Claim_Properties
  imports Claim_Demo
begin

text \<open>
  What the claim of a device guarantees, end to end: the authorizations that the PostgreSQL store hands out and
  accepts, the limits on attempts, and the handlers on top of it.
\<close>

section \<open>Authorizations\<close>

definition no_sessions :: "claim_tables db \<Rightarrow> bool" where
  "no_sessions d \<longleftrightarrow> device_claim_sessions (tables d) = []"

lemma no_sessions_ok: "no_sessions d \<Longrightarrow> pg_ok d \<and> (\<forall>i. pg_look d i = None)"
  by (simp add: no_sessions_def pg_ok_def pg_look_def claim_keys_def claim_look_def stamped_def unique_key_def)

text \<open>
  C27: no authorization without the approval of an owner. In every run of the PostgreSQL store that starts without
  sessions, with any faults of the database, a poll that hands out an authorization does so for a session with its
  device code, which an owner approved in the run before the session expired, and the authorization was
  minted, by this poll or by an earlier one, for the bootstrap, the device and the owner of that session.
\<close>

theorem claim_provenance:
  assumes "no_sessions d" "\<forall>x \<in> set ops. creates_pending (snd x)"
    "pg_exec env (OpPoll code iv now mint) (run_ops pg_exec ops d) = (RPoll out, d')" "po_Status out = PollOutcomeApproved"
  shows "\<exists>i v. pg_look d' i = Some v \<and> v_Code v \<in> {code, TrimSpace code} \<and> v_Token v = po_ClaimAuthorization out
    \<and> approved_in pg_ts (snd ` set ops) i v
    \<and> minted_in pg_ts (insert (OpPoll code iv now mint) (snd ` set ops)) v"
  using pgc.poll_provenance [of d ops env code iv now mint out d'] no_sessions_ok assms by blast

theorem claim_provenance_witness:
  "\<exists>i v. pg_look (demo_state demo_consumed) i = Some v \<and> v_Token v = ''token-for-alice''
     \<and> approved_in pg_ts (snd ` set demo_ops) i v"
proof -
  have "no_sessions demo_db" by (simp add: no_sessions_def demo_db_def)
  from claim_provenance [OF this demo_ops_pending, of demo_env, unfolded demo_runs, OF demo_first [unfolded demo_poll_def]]
  show ?thesis by (auto simp: demo_outcome_def)
qed

text \<open>
  the same for the in-memory store, which keeps instants exactly.
\<close>

theorem memory_claim_provenance:
  assumes "\<forall>x \<in> set ops. creates_pending (snd x)"
    "mem_exec order (OpPoll code iv now mint) (run_ops mem_exec ops NewMemoryClaimSessionStore) = (RPoll out, m')"
    "po_Status out = PollOutcomeApproved"
  shows "\<exists>i v. mem_look m' i = Some v \<and> v_Code v \<in> {code, TrimSpace code} \<and> v_Token v = po_ClaimAuthorization out
    \<and> approved_in exact_stamp (snd ` set ops) i v
    \<and> minted_in exact_stamp (insert (OpPoll code iv now mint) (snd ` set ops)) v"
proof -
  have "mem_ok NewMemoryClaimSessionStore" "\<And>i. mem_look NewMemoryClaimSessionStore i = None"
    by (simp_all add: mem_ok_def mem_look_def NewMemoryClaimSessionStore_def)
  then show ?thesis using memc.poll_provenance [OF _ _ assms] by blast
qed

theorem memory_claim_provenance_witness:
  "\<exists>i v. mem_look (snd (mem_exec [] (demo_poll (2 * Second)) (run_ops mem_exec demo_mem_ops NewMemoryClaimSessionStore))) i = Some v
     \<and> v_Token v = ''token-for-alice'' \<and> approved_in exact_stamp (snd ` set demo_mem_ops) i v"
proof -
  let ?m = "snd (mem_exec [] (demo_poll (2 * Second)) (run_ops mem_exec demo_mem_ops NewMemoryClaimSessionStore))"
  have run: "mem_exec [] (demo_poll (2 * Second)) (run_ops mem_exec demo_mem_ops NewMemoryClaimSessionStore) = (RPoll demo_outcome, ?m)"
    using demo_mem_out by (rule prod_eqI [OF trans]) simp_all
  have "\<forall>x \<in> set demo_mem_ops. creates_pending (snd x)" using demo_ops_pending by (simp add: demo_mem_ops_def)
  from memory_claim_provenance [OF this run [unfolded demo_poll_def]] show ?thesis
    by (auto simp: demo_outcome_def demo_poll_def)
qed

text \<open>
  an authorization names its approver. In every run of the PostgreSQL store from no sessions, an authorization that is
  accepted for a bootstrap and a device was minted for exactly that bootstrap and device and for the owner
  it names, who approved the session, and it has not expired.
\<close>

theorem authorization_names_approver:
  assumes "no_sessions d" "\<forall>x \<in> set ops. creates_pending (snd x)"
    "pg_exec env (OpAuthorize raw boot dev now) (run_ops pg_exec ops d) = (ROwner own, d')"
  shows "\<exists>i v e. approved_in pg_ts (snd ` set ops) i v \<and> minted_in pg_ts (snd ` set ops) v
    \<and> v_Token v = TrimSpace raw \<and> v_Bootstrap v = TrimSpace boot \<and> v_Device v = TrimSpace dev
    \<and> TrimSpace (v_Owner v) = TrimSpace own \<and> TrimSpace own \<noteq> [] \<and> v_TokenExpires v = Some e \<and> pg_ts now < e"
  using pgc.authorize_provenance [of d ops env raw boot dev now own d'] no_sessions_ok assms by blast

theorem authorization_names_approver_witness:
  "\<exists>i v. approved_in pg_ts (snd ` set (demo_ops @ [(demo_env, demo_poll (2 * Second))])) i v
     \<and> v_Token v = TrimSpace ''token-for-alice''"
proof -
  let ?ops = "demo_ops @ [(demo_env, demo_poll (2 * Second))]"
  have st: "run_ops pg_exec ?ops demo_db = demo_state demo_consumed"
    by (simp add: run_ops_append demo_runs demo_first del: pg_exec.simps)
  have run: "pg_exec demo_env (OpAuthorize ''token-for-alice'' ''boot'' ''dev'' (3 * Second)) (run_ops pg_exec ?ops demo_db)
      = (ROwner ''alice'', snd (pg_exec demo_env (OpAuthorize ''token-for-alice'' ''boot'' ''dev'' (3 * Second)) (demo_state demo_consumed)))"
    unfolding st using demo_authorize by (rule prod_eqI [OF trans]) simp_all
  have "no_sessions demo_db" "\<forall>x \<in> set ?ops. creates_pending (snd x)"
    using demo_ops_pending by (auto simp: no_sessions_def demo_db_def demo_poll_def)
  from authorization_names_approver [OF this run] show ?thesis by blast
qed

text \<open>
  C28: one authorization for a session. Two polls with the same device code that hand out an authorization, with any
  operations in between, hand out the same one with the same expiry (to the microsecond).
\<close>

theorem claim_single_token:
  assumes "pg_ok d" "\<forall>x \<in> set ops. creates_pending (snd x)"
    "pg_exec env (OpPoll code iv now mint) d = (RPoll out, d1)" "po_Status out = PollOutcomeApproved"
    "pg_exec env' (OpPoll code iv' now' mint') (run_ops pg_exec ops d1) = (RPoll out', d2)"
    "po_Status out' = PollOutcomeApproved" "TrimSpace code = code"
  shows "po_ClaimAuthorization out' = po_ClaimAuthorization out \<and> pg_ts (po_ExpiresAt out') = pg_ts (po_ExpiresAt out)"
  by (rule pgc.poll_same_token [OF assms])

theorem claim_single_token_witness:
  "pg_ok (demo_state demo_approved) \<and> pg_ts (po_ExpiresAt demo_outcome) = pg_ts (po_ExpiresAt demo_outcome)"
proof -
  have ok: "pg_ok (demo_state demo_approved)"
    unfolding demo_runs [symmetric]
    by (rule pgc.run_ok) (use demo_ops_pending no_sessions_ok [of demo_db] in \<open>auto simp: no_sessions_def demo_db_def\<close>)
  have r2: "pg_exec demo_env (demo_poll (20 * Second)) (run_ops pg_exec [] (demo_state demo_consumed))
      = (RPoll demo_outcome, snd (pg_exec demo_env (demo_poll (20 * Second)) (demo_state demo_consumed)))"
    using demo_again by (simp add: prod_eq_iff del: pg_exec.simps)
  have "po_Status demo_outcome = PollOutcomeApproved" by (simp add: demo_outcome_def)
  from claim_single_token [OF ok _ demo_first [unfolded demo_poll_def] this r2 [unfolded demo_poll_def] this] ok
  show ?thesis by simp
qed

text \<open>
  a denied session never hands out an authorization, whatever is done with the store.
\<close>

theorem denied_stays_denied:
  assumes "pg_ok d" "\<forall>x \<in> set ops. creates_pending (snd x)" "pg_look d i = Some v" "v_Status v = ClaimSessionDenied"
    "pg_exec env (OpPoll (v_Code v) iv now mint) (run_ops pg_exec ops d) = (RPoll out, d')" "TrimSpace (v_Code v) = v_Code v"
  shows "po_Status out \<noteq> PollOutcomeApproved"
  by (rule pgc.denied_no_token [OF assms])

theorem denied_stays_denied_witness:
  "po_Status (poll_outcome PollOutcomeDenied) \<noteq> PollOutcomeApproved \<and> pg_ok demo_denied"
proof -
  let ?ops = "[(demo_env, OpCreate (demo_record ''session-00000001'' (CHR ''a''))), (demo_env, OpDeny ''session-00000001'' Second)]"
  have st: "run_ops pg_exec ?ops demo_db = demo_denied"
    by (simp add: demo_create demo_deny demo_denied_def del: pg_exec.simps)
  have ok: "pg_ok demo_denied"
    unfolding st [symmetric]
    by (rule pgc.run_ok) (use no_sessions_ok [of demo_db] in \<open>auto simp: no_sessions_def demo_db_def demo_record_def zero_session_def\<close>)
  have look: "pg_look demo_denied ''session-00000001'' = Some (row_view (demo_row\<lparr>status := ''denied''\<rparr>))"
    by (simp add: pg_look_def claim_look_def demo_denied_def demo_state_def demo_row_def)
  have code: "v_Code (row_view (demo_row\<lparr>status := ''denied''\<rparr>)) = replicate 64 (CHR ''a'')" by (simp add: demo_row_def)
  have run: "pg_exec demo_env (demo_poll (2 * Second)) (run_ops pg_exec [] demo_denied)
      = (RPoll (poll_outcome PollOutcomeDenied), snd (pg_exec demo_env (demo_poll (2 * Second)) demo_denied))"
    using demo_refused by (simp add: demo_denied_def prod_eq_iff del: pg_exec.simps)
  from denied_stays_denied [OF ok _ look, unfolded code, OF _ _ run [unfolded demo_poll_def]] ok
  show ?thesis by simp
qed

section \<open>Attempts\<close>

text \<open>
  C29: the limit on redeeming codes. In any interval of one minute at most twelve attempts of one host are let through by
  the windows of the process, and at most twelve of one key by the table of PostgreSQL, whatever the
  other hosts do. The two limits are separate: attempts that fall back to the process when the table fails have
  those of the process on top.
\<close>

theorem claim_attempts_bounded:
  assumes "\<forall>x \<in> set xs. t0 \<le> snd x \<and> snd x < t0 + Minute"
    and "\<forall>w. entries h = Some w \<longrightarrow> 0 \<le> count w" and "\<forall>r \<in> set (claim_rate_limits t). 0 \<le> attempt_count r"
  shows "allowed allowClaimCodeAttemptMemory h xs entries \<le> 12
    \<and> allowed (table_attempt 6) (rate_key_of h) (map (map_prod rate_key_of id) xs) t \<le> 12"
proof -
  have "allowed allowClaimCodeAttemptMemory h xs entries \<le> 2 * claimCodeAttemptsPerMinute"
    using process_limiter.allowed_bound [where s = entries and xs = xs and ?t0.0 = t0 and h = h] assms(1,2)
    by (auto simp: entry_window_def)
  moreover have "rate_key_of k \<noteq> [] \<and> RuneCountInString (rate_key_of k) \<le> 256" for k
    using length_runes_le [of "rate_key_of k"] by (auto simp: rate_key_of_def RuneCountInString_def Let_def)
  then have "allowed (table_attempt 6) (rate_key_of h) (map (map_prod rate_key_of id) xs) t \<le> 2 * 6"
    using assms(1,3) find_Some_in_set [of "\<lambda>r. rate_key r = rate_key_of h" "claim_rate_limits t"]
    by (intro table_limiter.allowed_bound [where s = t and ?t0.0 = t0]) (auto simp: row_window_def)
  ultimately show ?thesis by (simp add: claimCodeAttemptsPerMinute_def)
qed

theorem claim_attempts_bounded_witness:
  "allowed allowClaimCodeAttemptMemory ''h'' (replicate 20 (''h'', 5)) Map.empty \<le> 12"
  using claim_attempts_bounded [of "replicate 20 (''h'', 5)" 5 Map.empty "''h''" "\<lparr>claim_rate_limits = []\<rparr>"]
  by (simp add: Minute_def)

section \<open>Handlers\<close>

lemma same_alphabet: "deviceClaimSessionAlphabet = humanClaimCodeAlphabet"
  by (simp add: deviceClaimSessionAlphabet_def humanClaimCodeAlphabet_def)

lemma user_code_loop_append:
  "user_code_loop i (map (\<lambda>c. (of_char c, [c])) (xs @ ys)) \<longleftrightarrow>
     user_code_loop i (map (\<lambda>c. (of_char c, [c])) xs) \<and> user_code_loop (i + length xs) (map (\<lambda>c. (of_char c, [c])) ys)"
  by (induction xs arbitrary: i) auto

lemma user_code_loop_chars:
  "set cs \<subseteq> set deviceClaimSessionAlphabet \<Longrightarrow> user_code_loop i (map (\<lambda>c. (of_char c, [c])) cs)"
  by (induction cs arbitrary: i) auto

text \<open>
  the code shown to the owner passes the check of the owner's page, for all eight random bytes.
\<close>

theorem user_code_accepted:
  assumes "length random = 8"
  shows "validDeviceClaimUserCode (randomUserCode random)"
proof -
  define out where "out = map (\<lambda>v. deviceClaimSessionAlphabet ! (v mod 32)) random"
  have len: "length out = 8" using assms by (simp add: out_def)
  have mem: "set out \<subseteq> set humanClaimCodeAlphabet" by (auto simp: out_def same_alphabet alphabet_length)
  have code: "randomUserCode random = take 4 out @ CHR ''-'' # drop 4 out" by (simp add: randomUserCode_def out_def Let_def)
  have "graphic out" using mem alphabet_chars by (auto simp: graphic_def list_all_iff)
  then have "graphic (take 4 out @ CHR ''-'' # drop 4 out)"
    by (auto simp: graphic_def list_all_iff dest: in_set_takeD in_set_dropD)
  then have runes: "runes (randomUserCode random) = map (\<lambda>c. (of_char c, [c])) (take 4 out @ CHR ''-'' # drop 4 out)"
    using runes_graphic code by simp
  have sub: "set (take 4 out) \<subseteq> set deviceClaimSessionAlphabet" "set (drop 4 out) \<subseteq> set deviceClaimSessionAlphabet"
    using mem same_alphabet set_take_subset [of 4 out] set_drop_subset [of 4 out] by auto
  have "user_code_loop 0 (map (\<lambda>c. (of_char c, [c])) (take 4 out @ CHR ''-'' # drop 4 out))"
    using user_code_loop_chars [OF sub(1), of 0] user_code_loop_chars [OF sub(2), of 5] len
    unfolding user_code_loop_append by simp
  moreover have "(take 4 out @ CHR ''-'' # drop 4 out) ! 4 = CHR ''-''" using len by (simp add: nth_append)
  ultimately show ?thesis using len runes code by (simp add: validDeviceClaimUserCode_def)
qed

theorem user_code_accepted_witness: "validDeviceClaimUserCode (randomUserCode [0, 31, 32, 63, 255, 7, 8, 9])"
  by (rule user_code_accepted) simp

text \<open>
  an approval is the act of an owner. The handler of approvals calls the store only after authenticating the
  mutation of an owner session, with the user of that session as the approver; otherwise it answers
  401 or 405 and leaves the sessions alone.
\<close>

theorem approve_needs_owner:
  assumes "HandleOwnerDeviceClaimSessionApprove cfg exec_op clock http_method cookie csrf sid (a, s) = (resp, a', s')"
  shows "(\<exists>r res. http_method = ''POST'' \<and> owner_sessions a (tokenKey cfg (TrimSpace cookie)) = Some r
        \<and> clock 0 < ow_ExpiresAt (sr_Session r) \<and> sha256 cfg (TrimSpace csrf) = CSRFHash r
        \<and> exec_op (OpApprove (TrimSpace sid) (ow_UserID (sr_Session r)) (clock 1)) s = (res, s') \<and> a' = a)
    \<or> resp \<in> {Plain 405 ''method not allowed'', Plain 401 ''unauthorized''} \<and> s' = s"
proof (cases "AuthenticateMutation cfg (clock 0) cookie csrf a")
  case (Pair res a1)
  show ?thesis
  proof (cases "http_method = ''POST''")
    case post: True
    show ?thesis
    proof (cases res)
      case (Inl e)
      then show ?thesis using assms Pair post by (simp add: HandleOwnerDeviceClaimSessionApprove_def)
    next
      case (Inr x)
      then have auth: "AuthenticateMutation cfg (clock 0) cookie csrf a = (Inr x, a1)" using Pair by simp
      obtain r where r: "owner_sessions a (tokenKey cfg (TrimSpace cookie)) = Some r" "x = sr_Session r" "a1 = a"
        "clock 0 < ow_ExpiresAt x" "sha256 cfg (TrimSpace csrf) = CSRFHash r"
        using auth by (auto simp: AuthenticateMutation_Inr)
      obtain res' s2 where ex: "exec_op (OpApprove (TrimSpace sid) (ow_UserID x) (clock 1)) s = (res', s2)"
        by (cases "exec_op (OpApprove (TrimSpace sid) (ow_UserID x) (clock 1)) s")
      then have "s2 = s'" "a' = a"
        using assms auth post r(3) by (auto simp: HandleOwnerDeviceClaimSessionApprove_def split: claim_result.splits)
      then show ?thesis using r ex post by auto
    qed
  qed (use assms in \<open>simp add: HandleOwnerDeviceClaimSessionApprove_def\<close>)
qed

theorem approve_needs_owner_witness:
  "snd (snd (HandleOwnerDeviceClaimSessionApprove demo_config (mem_exec []) (\<lambda>_. 1) ''POST'' ''cookie'' ''csrf'' ''s''
     (new_auth_state None, NewMemoryClaimSessionStore))) = NewMemoryClaimSessionStore"
proof -
  obtain resp a' s' where run: "HandleOwnerDeviceClaimSessionApprove demo_config (mem_exec []) (\<lambda>_. 1) ''POST'' ''cookie'' ''csrf'' ''s''
     (new_auth_state None, NewMemoryClaimSessionStore) = (resp, a', s')"
    by (metis prod.collapse)
  from approve_needs_owner [OF this] have "s' = NewMemoryClaimSessionStore" by (auto simp: new_auth_state_def)
  then show ?thesis using run by simp
qed

lemma mint_rotated:
  "128 < length (TrimSpace own) \<Longrightarrow> MintBoundClaimAuthorizationDirect cfg draw now boot dev own
     = Inl (ErrMint ''invalid claim authorization parameters'')"
  by (simp add: MintBoundClaimAuthorizationDirect_def Let_def)

text \<open>
  an owner with a long name cannot claim a device. The store calls the minting function with the bootstrap, the
  device and the owner; the function reads them as the owner, the bootstrap and the device, and refuses a
  device of more than 128 bytes. So a session that was approved by an owner whose identifier is longer (up
  to 256 bytes are accepted at login and by the table) never gets its authorization: every poll that is
  in time answers 500 and leaves the session approved, until it expires.
\<close>

theorem long_owner_never_claims:
  assumes "faults d = []" "pool_available env"
    "find (\<lambda>r. device_code_hash r = HashSecret (tokenKey cfg) (TrimSpace code)) (device_claim_sessions (tables d)) = Some r"
    "TrimSpace code \<noteq> []" "length (HashSecret (tokenKey cfg) (TrimSpace code)) = 64"
    "status r = ''approved''" "owner_user_id r = Some own" "128 < length (TrimSpace own)"
    "clock 0 < expires_at r" "last_poll_at r = None \<or> (\<exists>l. last_poll_at r = Some l \<and> l + 5 * Second \<le> clock 0)"
    "\<forall>x \<in> set (device_claim_sessions (tables d)). claim_row_check (bump (clock 0) x)"
  shows "HandleDeviceClaimSessionToken cfg (pg_exec env) clock draw ''POST'' (Some code) d = (Plain 500 ''polling failed'', d)"
proof -
  let ?h = "HashSecret (tokenKey cfg) (TrimSpace code)" and ?mint = "MintBoundClaimAuthorizationDirect cfg draw (clock 1)"
  have trim: "TrimSpace ?h = ?h" by (simp add: HashSecret_def tokenKey_def)
  have "TrimSpace own \<noteq> []" using assms(8) by auto
  have slow: "\<not> (case last_poll_at r of None \<Rightarrow> False | Some l \<Rightarrow> Sub (clock 0) l < defaultPollIntervalSec * Second)"
  proof -
    have "Sub (clock 0) l \<ge> 5 * Second \<longleftrightarrow> l + 5 * Second \<le> clock 0" for l
      by (rule Sub_ge) (simp_all add: Second_def in_int64_def int64_min_def int64_max_def)
    then show ?thesis using assms(10) by (cases "last_poll_at r") (auto simp: defaultPollIntervalSec_def not_le [symmetric])
  qed
  obtain t where upd: "update_claims (\<lambda>x. session_id x = session_id r) (bump (clock 0)) (tables d) = Some t"
    using assms(11) by (auto simp: update_claims_def)
  have "poll_row r (defaultPollIntervalSec * Second) (clock 0) ?mint d
      = (Inl (App (ErrMint ''invalid claim authorization parameters'')), d\<lparr>tables := snd t\<rparr>)"
    using assms(1,6-9) slow upd \<open>TrimSpace own \<noteq> []\<close>
    by (cases t) (simp add: poll_row_def poll_switch_def After_def update_claim_def mint_rotated)
  then have "PollClaimSession ?h (defaultPollIntervalSec * Second) (clock 0) ?mint d
      = (Inl (App (ErrMint ''invalid claim authorization parameters'')), d)"
    using assms(1,3,5) trim by (simp add: PollClaimSession_def in_tx_def find_claim_def rollback_to_def)
  then show ?thesis
    using assms(2,4) by (simp add: HandleDeviceClaimSessionToken_def with_pool_def)
qed

theorem long_owner_never_claims_witness:
  "HandleDeviceClaimSessionToken demo_config (pg_exec demo_env) (\<lambda>_. 2 * Second) (Some ''t'') ''POST'' (Some ''code'') (demo_state demo_long)
     = (Plain 500 ''polling failed'', demo_state demo_long)"
proof (rule long_owner_never_claims [where r = demo_long and own = "replicate 200 (CHR ''o'')"])
  have g: "graphic ''code''" "graphic (replicate 200 (CHR ''o''))" by (simp_all add: graphic_def list_all_iff)
  let ?h = "HashSecret (tokenKey demo_config) ''code''"
  have "length (demo_sha s) = 32" for s by (simp add: demo_sha_def)
  then have long: "length ?h = 64" by (simp add: HashSecret_def tokenKey_def demo_config_def)
  have "graphic ?h"
    unfolding HashSecret_def tokenKey_def by (rule graphic_hex_digits [OF conjunct1 [OF hex_encode_digits]])
  note hash = this long TrimSpace_graphic [OF this]
  show "length (HashSecret (tokenKey demo_config) (TrimSpace ''code'')) = 64" "TrimSpace ''code'' \<noteq> []"
    using g hash by simp_all
  show "find (\<lambda>r. device_code_hash r = HashSecret (tokenKey demo_config) (TrimSpace ''code''))
      (device_claim_sessions (tables (demo_state demo_long))) = Some demo_long"
    using g by (simp add: demo_state_def demo_long_def)
  show "128 < length (TrimSpace (replicate 200 (CHR ''o'')))" using g by simp
  show "\<forall>x \<in> set (device_claim_sessions (tables (demo_state demo_long))). claim_row_check (bump (2 * Second) x)"
    using g hash by (simp add: demo_state_def demo_long_def demo_approved_def demo_row_def bump_def claim_row_check_def char_length_graphic)
qed (simp_all add: demo_state_def demo_env_def demo_long_def demo_approved_def demo_row_def)

end
