(* ===== verification/Provisioning.thy ===== *)
theory Provisioning
  imports Onboarding_Properties Claim_Properties
begin

text \<open>
  The whole chain of provisioning, as \<open>cmd/companiond/owner_auth.go\<close> wires it: the claim endpoint asks the
  owner-authentication service for the user behind an authorization, and the service asks the store of
  claim sessions in PostgreSQL when none of its own authorizations matches.
\<close>

definition store_authorize ::
    "claim_env \<Rightarrow> claim_tables db \<Rightarrow> string \<Rightarrow> string \<Rightarrow> string \<Rightarrow> time \<Rightarrow> claim_error failure + string" where
  "store_authorize env cd raw boot dev now = fst (with_pool env (AuthorizeClaimSession raw boot dev now) cd)"

definition service_authorizer ::
    "auth_config \<Rightarrow> (nat \<Rightarrow> time) \<Rightarrow> claim_env \<Rightarrow> string \<Rightarrow> string \<Rightarrow> string \<Rightarrow> auth_state \<times> claim_tables db
      \<Rightarrow> string option \<times> auth_state \<times> claim_tables db" where
  "service_authorizer cfg clock env raw boot dev st =
     (case st of (a, cd) \<Rightarrow>
      case AuthorizeDeviceClaim cfg clock (store_authorize env cd) raw boot dev a of
        (Inl _, a') \<Rightarrow> (None, a', cd)
      | (Inr user, a') \<Rightarrow> (Some user, a', cd))"

text \<open>Whose authorization the service accepts: one of its own that is bound to the pair, or the store's.\<close>

lemma service_authorizer_Some:
  assumes "service_authorizer cfg clock env raw boot dev (a, cd) = (Some user, st')"
  shows "(\<exists>c. claims a (tokenKey cfg (TrimSpace raw)) = Some c \<and> ca_UserID c = user \<and> clock 0 < ca_ExpiresAt c
            \<and> ca_BootstrapID c = claimBinding cfg (TrimSpace boot) (TrimSpace dev))
       \<or> (\<exists>d'. pg_exec env (OpAuthorize raw (TrimSpace boot) (TrimSpace dev) (clock 1)) cd = (ROwner user, d'))"
proof -
  obtain a' where run: "AuthorizeDeviceClaim cfg clock (store_authorize env cd) raw boot dev a = (Inr user, a')"
    using assms by (auto simp: service_authorizer_def split: prod.splits sum.splits)
  show ?thesis
  proof (cases "fst (AuthorizeClaimAuthorization cfg (clock 0) raw a)")
    case (Inr c)
    then have "ca_UserID c = user" "ca_BootstrapID c = claimBinding cfg (TrimSpace boot) (TrimSpace dev)"
      using run by (auto simp: AuthorizeDeviceClaim_def Let_def split: prod.splits if_splits)
    moreover have "claims a (tokenKey cfg (TrimSpace raw)) = Some c \<and> clock 0 < ca_ExpiresAt c"
      using Inr by (auto simp: AuthorizeClaimAuthorization_def Let_def After_def split: if_splits option.splits)
    ultimately show ?thesis by blast
  next
    case (Inl e)
    then have "store_authorize env cd raw (TrimSpace boot) (TrimSpace dev) (clock 1) = Inr user"
      using run by (auto simp: AuthorizeDeviceClaim_def Let_def split: prod.splits if_splits sum.splits)
    then show ?thesis by (simp add: store_authorize_def map_prod_def split_beta)
  qed
qed

end
