(* ===== verification/Control_Plane.thy ===== *)
theory Control_Plane
  imports Complex_Main Pg_Tx
begin

text \<open>
  The values of \<open>backend/internal/controlplane\<close>: runtime configurations with their validation and
  their merge, the status that is derived from the versions of a twin, and the evaluation of feature
  flags. An optional integer or boolean of Go (a pointer) is an \<open>option\<close>; the threshold of the wake
  model is a finite \<open>float64\<close> (the only ones that JSON carries) and is modelled by the rational number
  it denotes. Merging configurations is shown to be a monoid in which the later value wins.
\<close>

section \<open>Runtime configurations\<close>

abbreviation WakeModelHeyBin :: string where "WakeModelHeyBin \<equiv> ''hey_bin''"
abbreviation WakeModelDisabled :: string where "WakeModelDisabled \<equiv> ''disabled''"

record RuntimeConfig =
  SmartVADEnabled :: "bool option"
  VADThreshold :: "int option"
  VADSilenceMS :: "int option"
  VADMinSpeechMS :: "int option"
  IdleAfterMS :: "int option"
  AlarmVisibleMS :: "int option"
  OTAPollIntervalSeconds :: "int option"
  Locale :: string
  Timezone :: string
  VoiceKey :: string
  WakeModel :: string
  WakeThreshold :: "rat option"

definition zero_config :: RuntimeConfig where
  "zero_config = \<lparr>SmartVADEnabled = None, VADThreshold = None, VADSilenceMS = None, VADMinSpeechMS = None,
     IdleAfterMS = None, AlarmVisibleMS = None, OTAPollIntervalSeconds = None, Locale = [], Timezone = [],
     VoiceKey = [], WakeModel = [], WakeThreshold = None\<rparr>"

text \<open>The constants 0.40 and 0.9999 as the compiler rounds them to \<open>float64\<close>.\<close>

definition wake_threshold_min :: rat where "wake_threshold_min = 3602879701896397 / 9007199254740992"
definition wake_threshold_max :: rat where "wake_threshold_max = 4503149267407759 / 4503599627370496"

definition chk :: "string \<Rightarrow> int option \<Rightarrow> int \<Rightarrow> int \<Rightarrow> string option" where
  "chk name v low high =
     (case v of None \<Rightarrow> None | Some x \<Rightarrow> if x < low \<or> x > high then Some (name @ '' out of range'') else None)"

text \<open>
  The database of time zones that \<open>time.LoadLocation\<close> consults belongs to the host: it is the argument
  \<open>loadLocation\<close>. \<open>strings.Split(c.Locale, "-")[0]\<close> is what precedes the first hyphen.
\<close>

definition Config_Validate :: "(string \<Rightarrow> bool) \<Rightarrow> RuntimeConfig \<Rightarrow> string option" where
  "Config_Validate loadLocation c =
     and_then (chk ''vad_threshold'' (VADThreshold c) 1 65535)
     (and_then (chk ''vad_silence_ms'' (VADSilenceMS c) 100 5000)
     (and_then (chk ''vad_min_speech_ms'' (VADMinSpeechMS c) 50 5000)
     (and_then (chk ''idle_after_ms'' (IdleAfterMS c) 1000 3600000)
     (and_then (chk ''alarm_visible_ms'' (AlarmVisibleMS c) 1000 3600000)
     (and_then (chk ''ota_poll_interval_s'' (OTAPollIntervalSeconds c) 3600 604800)
     (and_then (if Locale c \<noteq> [] \<and> (let p = takeWhile (\<lambda>ch. ch \<noteq> CHR ''-'') (Locale c) in length p < 2 \<or> length p > 3)
                then Some ''locale must be a BCP-47 style tag'' else None)
     (and_then (if Timezone c \<noteq> [] \<and> \<not> loadLocation (Timezone c) then Some ''invalid timezone'' else None)
     (if length (VoiceKey c) > 128 then Some ''voice_key too long''
      else if length (WakeModel c) > 63 then Some ''wake_model too long''
      else if WakeModel c \<noteq> [] \<and> WakeModel c \<noteq> WakeModelHeyBin \<and> WakeModel c \<noteq> WakeModelDisabled
        then Some ''unsupported wake_model''
      else case WakeThreshold c of
             None \<Rightarrow> None
           | Some w \<Rightarrow> if w < wake_threshold_min \<or> w > wake_threshold_max
                       then Some ''wake_threshold out of range (must be between 0.40 and 0.9999)'' else None))))))))"

definition later_ptr :: "'a option \<Rightarrow> 'a option \<Rightarrow> 'a option" where
  "later_ptr a b = (if b \<noteq> None then b else a)"

definition later_str :: "string \<Rightarrow> string \<Rightarrow> string" where
  "later_str a b = (if b \<noteq> [] then b else a)"

definition merge :: "RuntimeConfig \<Rightarrow> RuntimeConfig \<Rightarrow> RuntimeConfig" where
  "merge a b = \<lparr>SmartVADEnabled = later_ptr (SmartVADEnabled a) (SmartVADEnabled b),
     VADThreshold = later_ptr (VADThreshold a) (VADThreshold b),
     VADSilenceMS = later_ptr (VADSilenceMS a) (VADSilenceMS b),
     VADMinSpeechMS = later_ptr (VADMinSpeechMS a) (VADMinSpeechMS b),
     IdleAfterMS = later_ptr (IdleAfterMS a) (IdleAfterMS b),
     AlarmVisibleMS = later_ptr (AlarmVisibleMS a) (AlarmVisibleMS b),
     OTAPollIntervalSeconds = later_ptr (OTAPollIntervalSeconds a) (OTAPollIntervalSeconds b),
     Locale = later_str (Locale a) (Locale b), Timezone = later_str (Timezone a) (Timezone b),
     VoiceKey = later_str (VoiceKey a) (VoiceKey b), WakeModel = later_str (WakeModel a) (WakeModel b),
     WakeThreshold = later_ptr (WakeThreshold a) (WakeThreshold b)\<rparr>"

definition DeviceReportedConfig :: "RuntimeConfig \<Rightarrow> RuntimeConfig" where
  "DeviceReportedConfig c = zero_config\<lparr>SmartVADEnabled := SmartVADEnabled c, VADThreshold := VADThreshold c,
     VADSilenceMS := VADSilenceMS c, VADMinSpeechMS := VADMinSpeechMS c, IdleAfterMS := IdleAfterMS c,
     AlarmVisibleMS := AlarmVisibleMS c, OTAPollIntervalSeconds := OTAPollIntervalSeconds c,
     WakeModel := WakeModel c, WakeThreshold := WakeThreshold c\<rparr>"

section \<open>Twins and their status\<close>

abbreviation StatusRequested :: string where "StatusRequested \<equiv> ''requested''"
abbreviation StatusApplied :: string where "StatusApplied \<equiv> ''applied''"
abbreviation StatusRejected :: string where "StatusRejected \<equiv> ''rejected''"
abbreviation StatusStale :: string where "StatusStale \<equiv> ''stale''"
abbreviation StatusOffline :: string where "StatusOffline \<equiv> ''offline''"
abbreviation StatusUnknown :: string where "StatusUnknown \<equiv> ''unknown''"

record Twin =
  tw_DeviceID :: string
  tw_UserID :: string
  tw_Desired :: RuntimeConfig
  tw_DesiredVersion :: int
  tw_Reported :: RuntimeConfig
  tw_ReportedVersion :: int
  tw_Status :: string
  tw_UpdatedAt :: time

definition DeriveTwinStatus :: "Twin \<Rightarrow> bool \<Rightarrow> bool \<Rightarrow> string" where
  "DeriveTwinStatus twin online rejected =
     (if TrimSpace (tw_DeviceID twin) = [] then StatusUnknown
      else if rejected then StatusRejected
      else if tw_ReportedVersion twin > tw_DesiredVersion twin then StatusStale
      else if tw_DesiredVersion twin > 0 \<and> tw_ReportedVersion twin = tw_DesiredVersion twin then StatusApplied
      else if tw_DesiredVersion twin > tw_ReportedVersion twin
        then (if \<not> online then StatusOffline else StatusRequested)
      else if tw_DesiredVersion twin = 0 \<and> tw_ReportedVersion twin = 0 then StatusApplied
      else StatusUnknown)"

record ConfigReportResult =
  cr_Version :: int
  cr_Applied :: bool
  cr_Config :: RuntimeConfig
  cr_FailureCode :: string
  cr_ReportedAt :: time

record SettingsMetadata =
  sm_DesiredVersion :: int
  sm_ReportedVersion :: int
  sm_LastReportVersion :: int
  sm_LastReportState :: string
  sm_FailureCode :: string
  sm_DesiredAt :: time
  sm_ReportedAt :: "time option"

record SettingsStatus =
  st_State :: string
  st_Online :: bool
  st_DesiredVersion :: int
  st_ReportedVersion :: int
  st_LastReportVersion :: int
  st_FailureCode :: string
  st_DesiredAt :: time
  st_ReportedAt :: "time option"

definition deriveSettingsState :: "SettingsMetadata \<Rightarrow> bool \<Rightarrow> string" where
  "deriveSettingsState meta online =
     (if sm_LastReportState meta = StatusRejected \<and> sm_LastReportVersion meta = sm_DesiredVersion meta
         \<and> sm_DesiredVersion meta > 0 then StatusRejected
      else if sm_DesiredVersion meta > 0 \<and> sm_ReportedVersion meta = sm_DesiredVersion meta
         \<and> sm_LastReportState meta = StatusApplied then StatusApplied
      else if sm_DesiredVersion meta > sm_ReportedVersion meta then
        (if \<not> online then StatusOffline
         else if (case sm_ReportedAt meta of None \<Rightarrow> False
                  | Some reported \<Rightarrow> \<not> IsZero (sm_DesiredAt meta) \<and> \<not> Before reported (sm_DesiredAt meta)
                               \<and> sm_LastReportVersion meta < sm_DesiredVersion meta) then StatusStale
         else StatusRequested)
      else if sm_ReportedVersion meta > 0 \<and> sm_LastReportState meta = StatusApplied then StatusApplied
      else StatusUnknown)"

section \<open>Feature flags\<close>

text \<open>The fields of the evaluation context that a decision reads.\<close>

record EvalContext =
  ec_UserID :: string
  ec_DeviceID :: string
  ec_Plan :: string

record Flag =
  fl_Key :: string
  fl_Enabled :: bool
  fl_Rollout :: int
  fl_RequiredPlan :: string
  fl_Variants :: "(string \<times> string) list"
  fl_Lifecycle :: string
  fl_Owner :: string
  fl_ExpiresAt :: "time option"

text \<open>The bucket of a subject: the hash is reduced at every rune, so the product never overflows.\<close>

definition stableBucket :: "string \<Rightarrow> int" where
  "stableBucket s = foldl (\<lambda>n r. (n * 131 + int r) mod 10000) 0 (map fst (runes s)) mod 100"

definition flag_decision :: "string \<Rightarrow> EvalContext \<Rightarrow> time \<Rightarrow> Flag \<Rightarrow> bool" where
  "flag_decision key e now x =
     (if fl_Lifecycle x = ''removed'' \<or> (fl_Lifecycle x = ''deprecated'' \<and> \<not> fl_Enabled x) then False
      else if (case fl_ExpiresAt x of None \<Rightarrow> False | Some t \<Rightarrow> \<not> After t now) then False
      else if \<not> fl_Enabled x then False
      else if fl_RequiredPlan x \<noteq> [] \<and> fl_RequiredPlan x \<noteq> ec_Plan e then False
      else if fl_Rollout x \<le> 0 then False
      else if fl_Rollout x \<ge> 100 then True
      else stableBucket (key @ '':'' @ ec_UserID e @ '':'' @ ec_DeviceID e) < fl_Rollout x)"

text \<open>The flags are an error (\<open>None\<close>) or the rows of the repository; the first with the key decides.\<close>

fun flag_loop :: "string \<Rightarrow> EvalContext \<Rightarrow> bool \<Rightarrow> time \<Rightarrow> Flag list \<Rightarrow> bool" where
  "flag_loop key e fallback now [] = fallback"
| "flag_loop key e fallback now (x # xs) =
     (if fl_Key x \<noteq> key then flag_loop key e fallback now xs else flag_decision key e now x)"

definition Enabled :: "Flag list option \<Rightarrow> time \<Rightarrow> string \<Rightarrow> EvalContext \<Rightarrow> bool \<Rightarrow> bool" where
  "Enabled flags now key e fallback =
     (case flags of None \<Rightarrow> fallback | Some xs \<Rightarrow> flag_loop key e fallback now xs)"

definition flag_lifecycles :: "string list" where
  "flag_lifecycles = [''draft'', ''internal'', ''beta'', ''released'', ''deprecated'', ''removed'']"

definition Flag_Validate :: "Flag \<Rightarrow> string + Flag" where
  "Flag_Validate f =
     (if fl_Key f = [] \<or> fl_Rollout f < 0 \<or> fl_Rollout f > 100 then Inl ''invalid flag''
      else (let g = (if fl_Lifecycle f = [] then f\<lparr>fl_Lifecycle := ''released''\<rparr> else f) in
            if fl_Lifecycle g \<in> set flag_lifecycles then Inr g else Inl ''invalid flag lifecycle''))"

section \<open>The algebra of merging\<close>

lemma later_ptr_simps [simp]:
  "later_ptr a None = a" "later_ptr None b = b" "later_ptr a (Some x) = Some x" "later_ptr a a = a"
  by (auto simp: later_ptr_def)

lemma later_str_simps [simp]:
  "later_str a [] = a" "later_str [] b = b" "later_str a (x # xs) = x # xs" "later_str a a = a"
  by (auto simp: later_str_def)

lemma later_assoc:
  "later_ptr (later_ptr a b) c = later_ptr a (later_ptr b c)"
  "later_str (later_str s t) u = later_str s (later_str t u)"
  by (auto simp: later_ptr_def later_str_def)

interpretation config_merge: monoid merge zero_config
  by unfold_locales (simp_all add: merge_def zero_config_def later_assoc)

lemma merge_idem [simp]: "merge a a = a"
  by (simp add: merge_def)

lemma merge_absorb: "merge (merge a b) b = merge a b"
  by (simp add: config_merge.assoc)

text \<open>
  The reference definition of layered configuration: every field has the value of the last layer that
  sets it.
\<close>

definition last_set :: "('v \<Rightarrow> bool) \<Rightarrow> 'v \<Rightarrow> 'v list \<Rightarrow> 'v" where
  "last_set given none vs = (case find given (rev vs) of None \<Rightarrow> none | Some v \<Rightarrow> v)"

abbreviation last_ptr :: "'a option list \<Rightarrow> 'a option" where
  "last_ptr vs \<equiv> last_set (\<lambda>v. v \<noteq> None) None vs"

abbreviation last_str :: "string list \<Rightarrow> string" where
  "last_str vs \<equiv> last_set (\<lambda>v. v \<noteq> []) [] vs"

definition layered :: "RuntimeConfig list \<Rightarrow> RuntimeConfig" where
  "layered cs = \<lparr>SmartVADEnabled = last_ptr (map SmartVADEnabled cs),
     VADThreshold = last_ptr (map VADThreshold cs), VADSilenceMS = last_ptr (map VADSilenceMS cs),
     VADMinSpeechMS = last_ptr (map VADMinSpeechMS cs), IdleAfterMS = last_ptr (map IdleAfterMS cs),
     AlarmVisibleMS = last_ptr (map AlarmVisibleMS cs),
     OTAPollIntervalSeconds = last_ptr (map OTAPollIntervalSeconds cs),
     Locale = last_str (map Locale cs), Timezone = last_str (map Timezone cs),
     VoiceKey = last_str (map VoiceKey cs), WakeModel = last_str (map WakeModel cs),
     WakeThreshold = last_ptr (map WakeThreshold cs)\<rparr>"

lemma last_set_Nil [simp]: "last_set given none [] = none"
  by (simp add: last_set_def)

lemma last_set_snoc [simp]: "last_set given none (vs @ [v]) = (if given v then v else last_set given none vs)"
  by (simp add: last_set_def)

lemma layered_Nil [simp]: "layered [] = zero_config"
  by (simp add: layered_def zero_config_def)

lemma layered_snoc: "layered (cs @ [c]) = merge (layered cs) c"
  by (simp add: layered_def merge_def later_ptr_def later_str_def)

lemma foldl_merge_layered: "foldl merge c cs = layered (c # cs)"
proof (induction cs rule: rev_induct)
  case Nil
  show ?case using layered_snoc [of "[]" c] by (simp add: config_merge.left_neutral)
next
  case (snoc x xs)
  then show ?case using layered_snoc [of "c # xs" x] by simp
qed

section \<open>Validity\<close>

lemma chk_None [simp]: "chk name v low high = None \<longleftrightarrow> (\<forall>x. v = Some x \<longrightarrow> low \<le> x \<and> x \<le> high)"
  by (cases v) (auto simp: chk_def)

lemma Config_Validate_None:
  "Config_Validate loc c = None \<longleftrightarrow>
     (\<forall>x. VADThreshold c = Some x \<longrightarrow> 1 \<le> x \<and> x \<le> 65535)
   \<and> (\<forall>x. VADSilenceMS c = Some x \<longrightarrow> 100 \<le> x \<and> x \<le> 5000)
   \<and> (\<forall>x. VADMinSpeechMS c = Some x \<longrightarrow> 50 \<le> x \<and> x \<le> 5000)
   \<and> (\<forall>x. IdleAfterMS c = Some x \<longrightarrow> 1000 \<le> x \<and> x \<le> 3600000)
   \<and> (\<forall>x. AlarmVisibleMS c = Some x \<longrightarrow> 1000 \<le> x \<and> x \<le> 3600000)
   \<and> (\<forall>x. OTAPollIntervalSeconds c = Some x \<longrightarrow> 3600 \<le> x \<and> x \<le> 604800)
   \<and> (Locale c = [] \<or> length (takeWhile (\<lambda>ch. ch \<noteq> CHR ''-'') (Locale c)) \<in> {2, 3})
   \<and> (Timezone c = [] \<or> loc (Timezone c)) \<and> length (VoiceKey c) \<le> 128
   \<and> WakeModel c \<in> {[], WakeModelHeyBin, WakeModelDisabled}
   \<and> (\<forall>w. WakeThreshold c = Some w \<longrightarrow> wake_threshold_min \<le> w \<and> w \<le> wake_threshold_max)"
proof -
  have wake: "(if length m > 63 then Some a else if m \<noteq> [] \<and> m \<noteq> WakeModelHeyBin \<and> m \<noteq> WakeModelDisabled then Some b else r) = None
      \<longleftrightarrow> m \<in> {[], WakeModelHeyBin, WakeModelDisabled} \<and> r = None" for m r and a b :: string
    by auto
  have loc: "(if Locale c \<noteq> [] \<and> (n < 2 \<or> n > 3) then Some e else None) = None \<longleftrightarrow> Locale c = [] \<or> n \<in> {2, 3}"
    for n :: nat and e :: string by auto
  have thr: "(case w of None \<Rightarrow> None | Some v \<Rightarrow> if v < lo \<or> v > hi then Some e else None) = None
      \<longleftrightarrow> (\<forall>v. w = Some v \<longrightarrow> lo \<le> v \<and> v \<le> hi)" for w :: "rat option" and lo hi and e :: string
    by (cases w) auto
  show ?thesis
    unfolding Config_Validate_def and_then_None chk_None Let_def loc
    by (cases "length (VoiceKey c) > 128") (simp_all only: if_True if_False wake thr, auto)
qed

lemma later_ptr_all:
  "\<forall>x. a = Some x \<longrightarrow> P x \<Longrightarrow> \<forall>x. b = Some x \<longrightarrow> P x \<Longrightarrow> \<forall>x. later_ptr a b = Some x \<longrightarrow> P x"
  by (simp add: later_ptr_def)

lemma later_str_all: "P s \<Longrightarrow> P t \<Longrightarrow> P (later_str s t)"
  by (simp add: later_str_def)

lemmas later_str_fields =
  later_str_all [where P = "\<lambda>s. s = [] \<or> length (takeWhile (\<lambda>ch. ch \<noteq> CHR ''-'') s) \<in> {2, 3}"]
  later_str_all [where P = "\<lambda>s. s = [] \<or> loc s"] later_str_all [where P = "\<lambda>s. length s \<le> 128"]
  later_str_all [where P = "\<lambda>s. s \<in> {[], WakeModelHeyBin, WakeModelDisabled}"] for loc

lemma zero_config_valid [simp]: "Config_Validate loc zero_config = None"
  by (simp add: Config_Validate_None zero_config_def)

text \<open>Validity is checked field by field, so merging valid configurations gives a valid one.\<close>

lemma merge_valid:
  assumes "Config_Validate loc a = None" "Config_Validate loc b = None"
  shows "Config_Validate loc (merge a b) = None"
  using assms unfolding Config_Validate_None merge_def RuntimeConfig.select_convs
  by (elim conjE, intro conjI)
    (rule later_ptr_all later_str_fields, assumption, assumption)+

lemma DeviceReportedConfig_valid: "Config_Validate loc c = None \<Longrightarrow> Config_Validate loc (DeviceReportedConfig c) = None"
  by (simp add: Config_Validate_None DeviceReportedConfig_def zero_config_def)

lemma DeviceReportedConfig_idem [simp]: "DeviceReportedConfig (DeviceReportedConfig c) = DeviceReportedConfig c"
  by (simp add: DeviceReportedConfig_def zero_config_def)

lemma stableBucket_range: "0 \<le> stableBucket s \<and> stableBucket s < 100"
  by (simp add: stableBucket_def)

end
