(* ===== verification/Twin_Store.thy ===== *)
theory Twin_Store
  imports Control_Plane Store_Tables
begin

text \<open>
  The twins of the devices in PostgreSQL (\<open>pgstore/control_auth.go\<close>, \<open>pgstore/settings_state.go\<close>) and
  the service of \<open>controlplane\<close> on top of them. A JSON column holds the configuration that it encodes.
  The triggers of the schema are part of the update statement: a new desired version stamps
  \<open>desired_at\<close> and queues an event. \<open>clock i\<close> is the i-th reading of the program's clock in an operation.
\<close>

section \<open>Tables\<close>

record twin_row =
  tr_device_id :: string
  tr_user_id :: string
  desired_json :: RuntimeConfig
  desired_version :: int
  reported_json :: RuntimeConfig
  reported_version :: int
  tr_updated_at :: time
  desired_at :: time
  last_report_version :: int
  last_report_state :: string
  last_report_error :: string
  last_reported_at :: "time option"

record override_row =
  scope_type :: string
  scope_id :: string
  config_json :: RuntimeConfig
  ov_version :: int
  ov_updated_at :: time

record ctl_tables =
  device_twins :: "twin_row list"
  config_generation :: int
  config_overrides :: "override_row list"
  feature_flags :: "Flag list"
  control_outbox :: "Event list"

type_synonym 'a ctl_tx = "(ctl_tables, unit, 'a) tx"

definition initial_ctl :: ctl_tables where
  "initial_ctl = \<lparr>device_twins = [], config_generation = 1, config_overrides = [], feature_flags = [],
     control_outbox = []\<rparr>"

definition shift :: "nat \<Rightarrow> (nat \<Rightarrow> time) \<Rightarrow> nat \<Rightarrow> time" where
  "shift k clock i = clock (k + i)"

definition find_twin :: "string \<Rightarrow> ctl_tables \<Rightarrow> twin_row option" where
  "find_twin deviceID t = find (\<lambda>r. tr_device_id r = deviceID) (device_twins t)"

definition own_twin :: "string \<Rightarrow> string \<Rightarrow> twin_row \<Rightarrow> bool" where
  "own_twin userID deviceID r \<longleftrightarrow> tr_device_id r = deviceID \<and> tr_user_id r = userID"

definition find_own_twin :: "string \<Rightarrow> string \<Rightarrow> ctl_tables \<Rightarrow> twin_row option" where
  "find_own_twin userID deviceID t = find (own_twin userID deviceID) (device_twins t)"

section \<open>Statements\<close>

definition fresh_twin :: "pg_env \<Rightarrow> string \<Rightarrow> string \<Rightarrow> time \<Rightarrow> twin_row" where
  "fresh_twin env userID deviceID now = \<lparr>tr_device_id = deviceID, tr_user_id = userID, desired_json = zero_config,
     desired_version = 0, reported_json = zero_config, reported_version = 0, tr_updated_at = pg_ts now,
     desired_at = tx_now env, last_report_version = 0, last_report_state = StatusUnknown, last_report_error = [],
     last_reported_at = None\<rparr>"

definition insert_twin :: "pg_env \<Rightarrow> string \<Rightarrow> string \<Rightarrow> time \<Rightarrow> ctl_tables \<Rightarrow> ctl_tables" where
  "insert_twin env userID deviceID now t =
     (if \<exists>r \<in> set (device_twins t). tr_device_id r = deviceID then t
      else t\<lparr>device_twins := device_twins t @ [fresh_twin env userID deviceID now]\<rparr>)"

definition twin_event :: "pg_env \<Rightarrow> twin_row \<Rightarrow> Event" where
  "twin_event env r = \<lparr>ev_ID = gen_random_uuid env, ev_Source = ''/companion/control'',
     ev_Type = ''device.config.updated'', ev_Subject = ''device/'' @ tr_device_id r, ev_UserID = tr_user_id r,
     ev_Data = [(''device_id'', JStr (tr_device_id r)), (''version'', JInt (desired_version r))],
     ev_Time = clock_timestamp env\<rparr>"

text \<open>
  \<open>UPDATE device_twins\<close>: the trigger before the update stamps \<open>desired_at\<close>, the one after it inserts the
  event, whose identifier is unique in the outbox.
\<close>

definition stamp_desired :: "pg_env \<Rightarrow> twin_row \<Rightarrow> twin_row \<Rightarrow> twin_row" where
  "stamp_desired env old new =
     (if desired_version new \<noteq> desired_version old then new\<lparr>desired_at := clock_timestamp env\<rparr> else new)"

definition twin_events :: "pg_env \<Rightarrow> (twin_row \<Rightarrow> bool) \<Rightarrow> (twin_row \<Rightarrow> twin_row) \<Rightarrow> twin_row list \<Rightarrow> Event list" where
  "twin_events env P g rows =
     map (\<lambda>r. twin_event env (stamp_desired env r (g r))) (filter (\<lambda>r. desired_version (g r) \<noteq> desired_version r) (filter P rows))"

definition update_twin ::
    "pg_env \<Rightarrow> string \<Rightarrow> string \<Rightarrow> (twin_row \<Rightarrow> twin_row) \<Rightarrow> ctl_tables \<Rightarrow> (nat \<times> ctl_tables) option" where
  "update_twin env userID deviceID g t =
     (let P = own_twin userID deviceID; g' = (\<lambda>r. stamp_desired env r (g r));
          evs = twin_events env P g (device_twins t) in
      if \<not> distinct (map ev_ID (control_outbox t @ evs)) then None
      else Some (rows_affected P (device_twins t),
                 t\<lparr>device_twins := update_where P g' (device_twins t), control_outbox := control_outbox t @ evs\<rparr>))"

definition upsert_override :: "string \<Rightarrow> string \<Rightarrow> RuntimeConfig \<Rightarrow> time \<Rightarrow> ctl_tables \<Rightarrow> (unit \<times> ctl_tables) option" where
  "upsert_override scopeType scopeID c now t =
     (let P = (\<lambda>r. scope_type r = scopeType \<and> scope_id r = scopeID) in
      if \<exists>r \<in> set (config_overrides t). P r \<and> \<not> ov_version r + 1 \<le> int64_max then None
      else if \<exists>r \<in> set (config_overrides t). P r
      then Some ((), t\<lparr>config_overrides := update_where P
             (\<lambda>r. r\<lparr>config_json := c, ov_version := ov_version r + 1, ov_updated_at := pg_ts now\<rparr>) (config_overrides t)\<rparr>)
      else Some ((), t\<lparr>config_overrides := config_overrides t @
             [\<lparr>scope_type = scopeType, scope_id = scopeID, config_json = c, ov_version = 1, ov_updated_at = pg_ts now\<rparr>]\<rparr>))"

section \<open>The repository\<close>

definition ensureTwin :: "pg_env \<Rightarrow> time \<Rightarrow> string \<Rightarrow> string \<Rightarrow> unit ctl_tx" where
  "ensureTwin env now userID deviceID =
     (let dev = TrimSpace deviceID in
      if dev = [] then tx_fail (Invalid ''device_id required'')
      else exec (insert_twin env (owner userID) dev now))"

definition ConfigGeneration :: "int ctl_tx" where
  "ConfigGeneration = query config_generation"

definition nextConfigGenerationPG :: "int ctl_tx" where
  "nextConfigGenerationPG = stmt (\<lambda>t.
     let v = config_generation t + 1 in if v > int64_max then None else Some (v, t\<lparr>config_generation := v\<rparr>))"

definition scan_twin :: "twin_row \<Rightarrow> Twin" where
  "scan_twin r = \<lparr>tw_DeviceID = tr_device_id r, tw_UserID = tr_user_id r, tw_Desired = desired_json r,
     tw_DesiredVersion = desired_version r, tw_Reported = reported_json r, tw_ReportedVersion = reported_version r,
     tw_Status = [], tw_UpdatedAt = tr_updated_at r\<rparr>"

definition raise_version :: "int option \<Rightarrow> Twin \<Rightarrow> Twin" where
  "raise_version generation twin =
     (case generation of
        None \<Rightarrow> twin
      | Some g \<Rightarrow> if g > tw_DesiredVersion twin then twin\<lparr>tw_DesiredVersion := g\<rparr> else twin)"

definition GetTwin :: "pg_env \<Rightarrow> (nat \<Rightarrow> time) \<Rightarrow> string \<Rightarrow> string \<Rightarrow> Twin ctl_tx" where
  "GetTwin env clock userID deviceID =
     (let user = owner userID; dev = TrimSpace deviceID in
      tx_bind (ensureTwin env (clock 0) user dev) (\<lambda>_.
      tx_bind (query (find_twin dev)) (\<lambda>row.
      case row of
        None \<Rightarrow> tx_fail (Invalid ''no rows in result set'')
      | Some r \<Rightarrow>
        if tr_user_id r \<noteq> user then tx_fail (Invalid ''device owner mismatch'')
        else tx_bind (tx_try ConfigGeneration) (\<lambda>generation.
             let twin = raise_version generation (scan_twin r) in
             tx_return (twin\<lparr>tw_Status := DeriveTwinStatus twin False False\<rparr>)))))"

definition pg_SetDesired :: "pg_env \<Rightarrow> (nat \<Rightarrow> time) \<Rightarrow> string \<Rightarrow> string \<Rightarrow> RuntimeConfig \<Rightarrow> Twin ctl_tx" where
  "pg_SetDesired env clock userID deviceID config =
     (let user = owner userID; dev = TrimSpace deviceID in
      tx_bind (ensureTwin env (clock 0) user dev) (\<lambda>_.
      tx_bind (in_tx (
        tx_bind nextConfigGenerationPG (\<lambda>generation.
        tx_bind (stmt (update_twin env user dev (\<lambda>r. r\<lparr>desired_json := config, desired_version := generation,
                  tr_updated_at := pg_ts (clock 1)\<rparr>))) (\<lambda>rows.
        if rows = 0 then tx_fail (Invalid ''device owner mismatch'') else tx_return (Commit ()))))) (\<lambda>_.
      GetTwin env (shift 2 clock) user dev)))"

definition pg_Report :: "pg_env \<Rightarrow> (nat \<Rightarrow> time) \<Rightarrow> string \<Rightarrow> string \<Rightarrow> int \<Rightarrow> RuntimeConfig \<Rightarrow> unit ctl_tx" where
  "pg_Report env clock userID deviceID version config =
     (let user = owner userID; dev = TrimSpace deviceID in
      tx_bind (ensureTwin env (clock 0) user dev) (\<lambda>_.
      tx_bind (GetTwin env (shift 1 clock) user dev) (\<lambda>twin.
      if version < tw_ReportedVersion twin
      then tx_fail (Invalid (''reported config version '' @ FormatInt version @ '' is stale (current ''
                             @ FormatInt (tw_ReportedVersion twin) @ '')''))
      else if version > tw_DesiredVersion twin then tx_fail (Invalid ''reported config version ahead of desired'')
      else tx_bind (stmt (update_twin env user dev (\<lambda>r. r\<lparr>reported_json := config, reported_version := version,
                     tr_updated_at := pg_ts (clock 2)\<rparr>))) (\<lambda>rows.
           if rows = 1 then tx_return () else tx_fail (Invalid ''device twin not found or not mutable'')))))"

definition GetConfigOverride :: "string \<Rightarrow> string \<Rightarrow> RuntimeConfig option ctl_tx" where
  "GetConfigOverride scopeType scopeID =
     query (\<lambda>t. map_option config_json
       (find (\<lambda>r. scope_type r = TrimSpace scopeType \<and> scope_id r = TrimSpace scopeID) (config_overrides t)))"

definition config_scopes :: "string list" where
  "config_scopes = [''global'', ''tenant'', ''plan'', ''user'']"

definition SetConfigOverride :: "time \<Rightarrow> string \<Rightarrow> string \<Rightarrow> RuntimeConfig \<Rightarrow> unit ctl_tx" where
  "SetConfigOverride now scopeType scopeID config =
     (let ty = TrimSpace scopeType; sid = (if ty = ''global'' then ''*'' else TrimSpace scopeID) in
      if ty = [] \<or> sid = [] then tx_fail (Invalid ''scope type and id required'')
      else if ty \<notin> set config_scopes then tx_fail (Invalid ''unsupported config scope'')
      else in_tx (tx_bind nextConfigGenerationPG (\<lambda>_.
             tx_bind (stmt (upsert_override ty sid config now)) (\<lambda>_. tx_return (Commit ())))))"

section \<open>Reports of the device\<close>

definition reported_at :: "time \<Rightarrow> time \<Rightarrow> time" where
  "reported_at given now = (if IsZero given then now else given)"

text \<open>
  What a report does to the row that the transaction has locked: an error, nothing (the transaction is
  rolled back), or the new values of the columns.
\<close>

datatype report_effect = Refuse string | Ignore | Write "twin_row \<Rightarrow> twin_row"

definition report_effect_of :: "twin_row \<Rightarrow> ConfigReportResult \<Rightarrow> report_effect" where
  "report_effect_of r res =
     (let v = cr_Version res; at_time = pg_ts (cr_ReportedAt res) in
      if v > desired_version r then Refuse ''reported config version ahead of desired''
      else if v < last_report_version r then Ignore
      else if \<not> cr_Applied res \<and> v \<le> reported_version r then Ignore
      else if cr_Applied res \<and> v < reported_version r then Ignore
      else if v = last_report_version r \<and> last_report_state r = StatusApplied \<and> v = desired_version r then Ignore
      else if v = last_report_version r \<and> last_report_state r = StatusRejected \<and> \<not> cr_Applied res then Ignore
      else if cr_Applied res
      then Write (\<lambda>x. x\<lparr>reported_json := cr_Config res, reported_version := v, last_report_version := v,
             last_report_state := StatusApplied, last_report_error := [], last_reported_at := Some at_time,
             tr_updated_at := at_time\<rparr>)
      else Write (\<lambda>x. x\<lparr>last_report_version := v, last_report_state := StatusRejected,
             last_report_error := cr_FailureCode res, last_reported_at := Some at_time, tr_updated_at := at_time\<rparr>))"

definition report_tx :: "pg_env \<Rightarrow> string \<Rightarrow> string \<Rightarrow> ConfigReportResult \<Rightarrow> unit finish ctl_tx" where
  "report_tx env user dev res =
     tx_bind (query (find_own_twin user dev)) (\<lambda>row.
     case row of
       None \<Rightarrow> tx_fail (Invalid ''device owner mismatch'')
     | Some r \<Rightarrow>
       (case report_effect_of r res of
          Refuse e \<Rightarrow> tx_fail (Invalid e)
        | Ignore \<Rightarrow> tx_return (Return ())
        | Write g \<Rightarrow>
            tx_bind (stmt (update_twin env user dev g)) (\<lambda>rows.
            if rows = 0 then tx_fail (Invalid ''device owner mismatch'') else tx_return (Commit ()))))"

definition RecordConfigReport ::
    "(string \<Rightarrow> bool) \<Rightarrow> pg_env \<Rightarrow> (nat \<Rightarrow> time) \<Rightarrow> string \<Rightarrow> string \<Rightarrow> ConfigReportResult \<Rightarrow> unit ctl_tx" where
  "RecordConfigReport loc env clock userID deviceID result =
     (let user = owner userID; dev = TrimSpace deviceID; code = TrimSpace (cr_FailureCode result) in
      if dev = [] then tx_fail (Invalid ''device_id required'')
      else if cr_Version result < 0 then tx_fail (Invalid ''config report version must be non-negative'')
      else case Config_Validate loc (cr_Config result) of
        Some e \<Rightarrow> tx_fail (Invalid e)
      | None \<Rightarrow>
        if length code > 128 then tx_fail (Invalid ''config report failure code too long'')
        else if cr_Applied result \<and> code \<noteq> []
          then tx_fail (Invalid ''applied config must not include a failure code'')
        else (let res = result\<lparr>cr_FailureCode := code, cr_ReportedAt := reported_at (cr_ReportedAt result) (clock 0)\<rparr> in
              tx_bind (ensureTwin env (clock 1) user dev) (\<lambda>_. in_tx (report_tx env user dev res))))"

definition scan_metadata :: "twin_row \<Rightarrow> SettingsMetadata" where
  "scan_metadata r = \<lparr>sm_DesiredVersion = desired_version r, sm_ReportedVersion = reported_version r,
     sm_LastReportVersion = last_report_version r, sm_LastReportState = last_report_state r,
     sm_FailureCode = last_report_error r, sm_DesiredAt = desired_at r, sm_ReportedAt = last_reported_at r\<rparr>"

definition pg_SettingsMetadata :: "pg_env \<Rightarrow> time \<Rightarrow> string \<Rightarrow> string \<Rightarrow> SettingsMetadata ctl_tx" where
  "pg_SettingsMetadata env now userID deviceID =
     (let user = owner userID; dev = TrimSpace deviceID in
      if dev = [] then tx_fail (Invalid ''device_id required'')
      else tx_bind (ensureTwin env now user dev) (\<lambda>_.
           tx_bind (query (find_own_twin user dev)) (\<lambda>row.
           case row of
             None \<Rightarrow> tx_fail (Invalid ''device owner mismatch'')
           | Some r \<Rightarrow> tx_return (scan_metadata r))))"

section \<open>Flags\<close>

definition pg_Flags :: "pg_env \<Rightarrow> Flag list ctl_tx" where
  "pg_Flags env = query (\<lambda>t. order_by (\<lambda>f g. \<not> pg_less env (fl_Key g) (fl_Key f)) (feature_flags t))"

definition upsert_flag :: "Flag \<Rightarrow> ctl_tables \<Rightarrow> ctl_tables" where
  "upsert_flag f t =
     (if \<exists>g \<in> set (feature_flags t). fl_Key g = fl_Key f
      then t\<lparr>feature_flags := update_where (\<lambda>g. fl_Key g = fl_Key f) (\<lambda>_. f) (feature_flags t)\<rparr>
      else t\<lparr>feature_flags := feature_flags t @ [f]\<rparr>)"

definition pg_SetFlag :: "Flag \<Rightarrow> unit ctl_tx" where
  "pg_SetFlag f =
     (if TrimSpace (fl_Key f) = [] \<or> fl_Rollout f < 0 \<or> fl_Rollout f > 100 then tx_fail (Invalid ''invalid flag'')
      else exec (upsert_flag ((if fl_Lifecycle f = [] then f\<lparr>fl_Lifecycle := ''released''\<rparr> else f)
                   \<lparr>fl_ExpiresAt := map_option pg_ts (fl_ExpiresAt f)\<rparr>)))"

definition EnsureFlag :: "Flag \<Rightarrow> unit ctl_tx" where
  "EnsureFlag f =
     tx_bind (query (\<lambda>t. \<exists>g \<in> set (feature_flags t). fl_Key g = fl_Key f)) (\<lambda>found.
     if found then tx_return () else pg_SetFlag f)"

section \<open>The service\<close>

text \<open>
  The store implements every optional interface of the service, so the branches for repositories that
  lack one of them are not taken. The layers are read in the order of the loop; a layer without an
  identifier is skipped.
\<close>

record ResolutionContext =
  rc_UserID :: string
  rc_DeviceID :: string
  rc_TenantID :: string
  rc_Plan :: string

fun resolve :: "(string \<times> string) list \<Rightarrow> RuntimeConfig \<Rightarrow> RuntimeConfig ctl_tx" where
  "resolve [] c = tx_return c"
| "resolve ((ty, sid) # scopes) c =
     (if sid = [] then resolve scopes c
      else tx_bind (GetConfigOverride ty sid) (\<lambda>found.
           case found of None \<Rightarrow> resolve scopes c | Some o' \<Rightarrow> resolve scopes (merge c o')))"

definition scopes_of :: "ResolutionContext \<Rightarrow> (string \<times> string) list" where
  "scopes_of rc = [(''global'', ''*''), (''tenant'', rc_TenantID rc), (''plan'', rc_Plan rc), (''user'', rc_UserID rc)]"

definition ManifestFor :: "RuntimeConfig \<Rightarrow> pg_env \<Rightarrow> (nat \<Rightarrow> time) \<Rightarrow> ResolutionContext \<Rightarrow> Twin ctl_tx" where
  "ManifestFor defaults env clock rc =
     tx_bind (GetTwin env clock (rc_UserID rc) (rc_DeviceID rc)) (\<lambda>t.
     tx_bind (resolve (scopes_of rc) defaults) (\<lambda>resolved.
     tx_return (t\<lparr>tw_Desired := merge resolved (tw_Desired t)\<rparr>)))"

definition Manifest :: "RuntimeConfig \<Rightarrow> pg_env \<Rightarrow> (nat \<Rightarrow> time) \<Rightarrow> string \<Rightarrow> string \<Rightarrow> Twin ctl_tx" where
  "Manifest defaults env clock user device =
     ManifestFor defaults env clock \<lparr>rc_UserID = user, rc_DeviceID = device, rc_TenantID = [], rc_Plan = []\<rparr>"

definition SetDesired ::
    "(string \<Rightarrow> bool) \<Rightarrow> RuntimeConfig \<Rightarrow> pg_env \<Rightarrow> (nat \<Rightarrow> time) \<Rightarrow> string \<Rightarrow> string \<Rightarrow> RuntimeConfig \<Rightarrow> Twin ctl_tx" where
  "SetDesired loc defaults env clock user device patch =
     tx_bind (GetTwin env clock user device) (\<lambda>current.
     let merged = merge (tw_Desired current) patch in
     case Config_Validate loc merged of
       Some e \<Rightarrow> tx_fail (Invalid e)
     | None \<Rightarrow> tx_bind (pg_SetDesired env (shift 1 clock) user device merged) (\<lambda>_.
               Manifest defaults env (shift 4 clock) user device))"

definition SetScopedConfig ::
    "(string \<Rightarrow> bool) \<Rightarrow> time \<Rightarrow> string \<Rightarrow> string \<Rightarrow> RuntimeConfig \<Rightarrow> unit ctl_tx" where
  "SetScopedConfig loc now scopeType scopeID patch =
     (if scopeType \<notin> set config_scopes then tx_fail (Invalid ''unsupported config scope'')
      else let sid = (if scopeType = ''global'' then ''*'' else scopeID) in
      if sid = [] then tx_fail (Invalid ''scope id required'')
      else tx_bind (GetConfigOverride scopeType sid) (\<lambda>current.
           let merged = merge (case current of None \<Rightarrow> zero_config | Some c \<Rightarrow> c) patch in
           case Config_Validate loc merged of
             Some e \<Rightarrow> tx_fail (Invalid e)
           | None \<Rightarrow> SetConfigOverride now scopeType sid merged))"

definition GetScopedConfig :: "string \<Rightarrow> string \<Rightarrow> RuntimeConfig option ctl_tx" where
  "GetScopedConfig scopeType scopeID =
     GetConfigOverride scopeType (if scopeType = ''global'' then ''*'' else scopeID)"

definition Report ::
    "(string \<Rightarrow> bool) \<Rightarrow> pg_env \<Rightarrow> (nat \<Rightarrow> time) \<Rightarrow> string \<Rightarrow> string \<Rightarrow> int \<Rightarrow> RuntimeConfig \<Rightarrow> unit ctl_tx" where
  "Report loc env clock user device v c =
     (case Config_Validate loc c of Some e \<Rightarrow> tx_fail (Invalid e) | None \<Rightarrow> pg_Report env clock user device v c)"

definition SetFlag :: "Flag \<Rightarrow> unit ctl_tx" where
  "SetFlag f = (case Flag_Validate f of Inl e \<Rightarrow> tx_fail (Invalid e) | Inr g \<Rightarrow> pg_SetFlag g)"

definition ReportResult ::
    "(string \<Rightarrow> bool) \<Rightarrow> pg_env \<Rightarrow> (nat \<Rightarrow> time) \<Rightarrow> string \<Rightarrow> string \<Rightarrow> ConfigReportResult \<Rightarrow> unit ctl_tx" where
  "ReportResult loc env clock user device result =
     (if cr_Version result < 0 then tx_fail (Invalid ''config report version must be non-negative'')
      else let c = DeviceReportedConfig (cr_Config result); code = TrimSpace (cr_FailureCode result) in
      case Config_Validate loc c of
        Some e \<Rightarrow> tx_fail (Invalid e)
      | None \<Rightarrow>
        if length code > 128 then tx_fail (Invalid ''config failure code too long'')
        else if cr_Applied result \<and> code \<noteq> [] then tx_fail (Invalid ''applied config must not include a failure code'')
        else RecordConfigReport loc env (shift 1 clock) user device
               (result\<lparr>cr_Config := c, cr_FailureCode := code, cr_ReportedAt := reported_at (cr_ReportedAt result) (clock 0)\<rparr>))"

definition Settings_Status :: "pg_env \<Rightarrow> time \<Rightarrow> string \<Rightarrow> string \<Rightarrow> bool \<Rightarrow> SettingsStatus ctl_tx" where
  "Settings_Status env now user device online =
     tx_bind (pg_SettingsMetadata env now user device) (\<lambda>meta.
     tx_return \<lparr>st_State = deriveSettingsState meta online, st_Online = online,
       st_DesiredVersion = sm_DesiredVersion meta, st_ReportedVersion = sm_ReportedVersion meta,
       st_LastReportVersion = sm_LastReportVersion meta, st_FailureCode = sm_FailureCode meta,
       st_DesiredAt = sm_DesiredAt meta, st_ReportedAt = sm_ReportedAt meta\<rparr>)"

end
