(* ===== verification/Settings_Sync.thy ===== *)
theory Settings_Sync
  imports Twin_Store
begin

text \<open>
  How the server brings a device to its desired settings (\<open>reconcileSettings\<close> of
  \<open>server/device_capabilities.go\<close>, \<open>UpdateDeviceSettings\<close> of \<open>server/server.go\<close>). The device is an argument: the reply to a settings call with its version and its
  configuration, \<open>None\<close> when the call fails or the reply does not decode.
\<close>

section \<open>The calls to the device\<close>

text \<open>The settings that a device echoes in its reply are never read.\<close>

record SettingsResult =
  sr_Version :: int
  sr_Applied :: bool
  sr_Error :: string

type_synonym device = "int \<Rightarrow> RuntimeConfig \<Rightarrow> SettingsResult option"

definition report_of :: "SettingsResult \<Rightarrow> RuntimeConfig \<Rightarrow> time \<Rightarrow> ConfigReportResult" where
  "report_of result desired now =
     (let code = TrimSpace (sr_Error result) in
      \<lparr>cr_Version = sr_Version result, cr_Applied = sr_Applied result, cr_Config = desired,
       cr_FailureCode = (if \<not> sr_Applied result \<and> code = [] then ''device_rejected'' else code),
       cr_ReportedAt = now\<rparr>)"

text \<open>The method returns nothing: every failure ends it, at most with a line in the log.\<close>

definition reconcileSettings ::
    "(string \<Rightarrow> bool) \<Rightarrow> RuntimeConfig \<Rightarrow> pg_env \<Rightarrow> (nat \<Rightarrow> time) \<Rightarrow> bool \<Rightarrow> device \<Rightarrow> ResolutionContext
      \<Rightarrow> ctl_tables db \<Rightarrow> ctl_tables db" where
  "reconcileSettings loc defaults env clock supports dev rc d =
     (case ManifestFor defaults env clock rc d of
        (Inl _, d1) \<Rightarrow> d1
      | (Inr twin, d1) \<Rightarrow>
        if tw_DesiredVersion twin \<le> 0 then d1
        else if \<not> supports then d1
        else (case dev (tw_DesiredVersion twin) (tw_Desired twin) of
                None \<Rightarrow> d1
              | Some result \<Rightarrow>
                if sr_Version result \<noteq> tw_DesiredVersion twin then d1
                else snd (ReportResult loc env (shift 2 clock) (rc_UserID rc) (rc_DeviceID rc)
                            (report_of result (tw_Desired twin) (clock 1)) d1)))"

definition with_status :: "string \<Rightarrow> Twin \<Rightarrow> Twin" where
  "with_status st twin = twin\<lparr>tw_Status := st\<rparr>"

definition dispatch_result ::
    "(string \<Rightarrow> bool) \<Rightarrow> RuntimeConfig \<Rightarrow> pg_env \<Rightarrow> (nat \<Rightarrow> time) \<Rightarrow> string \<Rightarrow> string \<Rightarrow> Twin \<Rightarrow> SettingsResult
      \<Rightarrow> ctl_tables db \<Rightarrow> Twin \<times> ctl_tables db" where
  "dispatch_result loc defaults env clock userID deviceID twin result d =
     (case ReportResult loc env (shift 1 clock) userID deviceID (report_of result (tw_Desired twin) (clock 0)) d of
        (Inl _, d1) \<Rightarrow> (with_status StatusRequested twin, d1)
      | (Inr _, d1) \<Rightarrow>
        (case Manifest defaults env (shift 4 clock) userID deviceID d1 of
           (refreshed, d2) \<Rightarrow>
             let twin' = (case refreshed of Inl _ \<Rightarrow> twin | Inr t \<Rightarrow> t) in
             case Settings_Status env (clock 5) userID deviceID True d2 of
               (Inr st, d3) \<Rightarrow> (with_status (st_State st) twin', d3)
             | (Inl _, d3) \<Rightarrow> (with_status (if sr_Applied result then StatusApplied else StatusRejected) twin', d3)))"

text \<open>The session is looked up twice: \<open>online\<close> is the first look, \<open>sess\<close> the second.\<close>

definition dispatchSettingsUpdate ::
    "(string \<Rightarrow> bool) \<Rightarrow> RuntimeConfig \<Rightarrow> pg_env \<Rightarrow> (nat \<Rightarrow> time) \<Rightarrow> bool \<Rightarrow> (bool \<times> device) option \<Rightarrow> string \<Rightarrow> string
      \<Rightarrow> Twin \<Rightarrow> ctl_tables db \<Rightarrow> Twin \<times> ctl_tables db" where
  "dispatchSettingsUpdate loc defaults env clock online sess userID deviceID twin d =
     (if \<not> online
      then (case Settings_Status env (clock 0) userID deviceID False d of
              (Inr st, d1) \<Rightarrow> (with_status (st_State st) twin, d1)
            | (Inl _, d1) \<Rightarrow> (with_status StatusOffline twin, d1))
      else (case sess of
              None \<Rightarrow> (with_status StatusRequested twin, d)
            | Some (supports, dev) \<Rightarrow>
              if \<not> supports then (with_status StatusRequested twin, d)
              else (case dev (tw_DesiredVersion twin) (tw_Desired twin) of
                      None \<Rightarrow> (with_status StatusRequested twin, d)
                    | Some result \<Rightarrow>
                      if sr_Version result \<noteq> tw_DesiredVersion twin then (with_status StatusRequested twin, d)
                      else dispatch_result loc defaults env clock userID deviceID twin result d)))"

definition UpdateDeviceSettings ::
    "(string \<Rightarrow> bool) \<Rightarrow> RuntimeConfig \<Rightarrow> pg_env \<Rightarrow> (nat \<Rightarrow> time) \<Rightarrow> bool \<Rightarrow> (bool \<times> device) option \<Rightarrow> bool
      \<Rightarrow> string \<Rightarrow> string \<Rightarrow> RuntimeConfig \<Rightarrow> (Twin \<times> SettingsStatus) ctl_tx" where
  "UpdateDeviceSettings loc defaults env clock online sess online' userID deviceID patch =
     tx_bind (SetDesired loc defaults env clock userID deviceID patch) (\<lambda>twin d.
     case dispatchSettingsUpdate loc defaults env (shift 5 clock) online sess userID deviceID twin d of
       (twin', d') \<Rightarrow>
         tx_bind (Settings_Status env (clock 11) userID deviceID online') (\<lambda>st.
         tx_return (with_status (st_State st) twin', st)) d')"

end
