(* ===== verification/Settings_Laws.thy ===== *)
theory Settings_Laws
  imports Settings_Sync
begin

text \<open>
  The laws of the settings: the invariant that every operation on the twins keeps, whatever fails; the
  layers of the manifest; and the runs in which no call fails, which the convergence of a device and the
  refused reports rest on.
\<close>

section \<open>The invariant of the twins\<close>

text \<open>
  Versions: the generation is ahead of every desired and reported version, and a report is never ahead of the
  desired version it answers. Values: every configuration that is stored has passed the validation. A device that
  has only been heard through \<open>ReportResult\<close> moreover has the reported version of its last applied report, and only
  fields of the device are stored as reported by it. The other way in, \<open>Report\<close>, writes the reported version and
  configuration as they come and leaves the record of the last report alone; the flag of a row tells that it was
  used for the device.
\<close>

definition twin_ok :: "(string \<Rightarrow> bool) \<Rightarrow> bool \<Rightarrow> int \<Rightarrow> twin_row \<Rightarrow> bool" where
  "twin_ok loc p g r \<longleftrightarrow>
     0 \<le> reported_version r \<and> reported_version r \<le> g \<and> 0 \<le> last_report_version r
   \<and> last_report_version r \<le> desired_version r \<and> desired_version r \<le> g
   \<and> last_report_state r \<in> {StatusUnknown, StatusApplied, StatusRejected}
   \<and> (last_report_state r = StatusRejected \<longrightarrow> 0 < last_report_version r)
   \<and> Config_Validate loc (desired_json r) = None \<and> Config_Validate loc (reported_json r) = None
   \<and> (\<not> p \<longrightarrow> reported_version r \<le> last_report_version r
        \<and> (last_report_state r = StatusApplied \<longrightarrow> reported_version r = last_report_version r)
        \<and> (last_report_state r = StatusRejected \<longrightarrow> reported_version r < last_report_version r)
        \<and> DeviceReportedConfig (reported_json r) = reported_json r)"

definition ctl_inv :: "(string \<Rightarrow> bool) \<Rightarrow> string set \<Rightarrow> ctl_tables \<Rightarrow> bool" where
  "ctl_inv loc P t \<longleftrightarrow> unique_key tr_device_id (device_twins t)
     \<and> (\<forall>r \<in> set (device_twins t). twin_ok loc (tr_device_id r \<in> P) (config_generation t) r)
     \<and> (\<forall>r \<in> set (config_overrides t). Config_Validate loc (config_json r) = None)
     \<and> 1 \<le> config_generation t \<and> distinct (map ev_ID (control_outbox t))"

lemma ctl_inv_initial: "ctl_inv loc P initial_ctl"
  by (simp add: ctl_inv_def initial_ctl_def unique_key_def)

lemma stamp_desired_fields [simp]:
  "tr_device_id (stamp_desired env o' n) = tr_device_id n" "tr_user_id (stamp_desired env o' n) = tr_user_id n"
  "twin_ok loc p g (stamp_desired env o' n) = twin_ok loc p g n"
  "desired_json (stamp_desired env o' n) = desired_json n" "desired_version (stamp_desired env o' n) = desired_version n"
  "reported_json (stamp_desired env o' n) = reported_json n" "reported_version (stamp_desired env o' n) = reported_version n"
  "last_report_version (stamp_desired env o' n) = last_report_version n"
  "last_report_state (stamp_desired env o' n) = last_report_state n"
  by (simp_all add: stamp_desired_def twin_ok_def)

lemma twin_ok_mono: "twin_ok loc p g r \<Longrightarrow> g \<le> g' \<Longrightarrow> twin_ok loc p g' r"
  by (auto simp: twin_ok_def)

lemma fresh_twin_ok: "0 \<le> g \<Longrightarrow> twin_ok loc p g (fresh_twin env user dev now)"
  by (simp add: twin_ok_def fresh_twin_def DeviceReportedConfig_def zero_config_def Config_Validate_None)

lemma insert_twin_inv: "ctl_inv loc P t \<Longrightarrow> ctl_inv loc P (insert_twin env user dev now t)"
  by (auto simp: ctl_inv_def insert_twin_def table_simps fresh_twin_ok) (auto simp: fresh_twin_def)

text \<open>An update of one device's row keeps the invariant when the new row is in order.\<close>

lemma update_twin_inv:
  assumes "update_twin env user dev g t = Some (n, t')"
    and "unique_key tr_device_id (device_twins t)" "1 \<le> config_generation t"
    and "\<And>r. r \<in> set (device_twins t) \<Longrightarrow> \<not> own_twin user dev r \<Longrightarrow> twin_ok loc (tr_device_id r \<in> P) (config_generation t) r"
    and "\<And>r. r \<in> set (device_twins t) \<Longrightarrow> own_twin user dev r \<Longrightarrow>
           twin_ok loc (tr_device_id r \<in> P) (config_generation t) (g r) \<and> tr_device_id (g r) = tr_device_id r"
    and "\<forall>r \<in> set (config_overrides t). Config_Validate loc (config_json r) = None"
  shows "ctl_inv loc P t'"
proof -
  let ?g = "\<lambda>r. stamp_desired env r (g r)"
  have t': "device_twins t' = update_where (own_twin user dev) ?g (device_twins t)"
    "config_generation t' = config_generation t" "config_overrides t' = config_overrides t"
    using assms(1) by (auto simp: update_twin_def Let_def split: if_splits)
  have "map tr_device_id (device_twins t') = map tr_device_id (device_twins t)"
    unfolding t' update_where_def using assms(5) by auto
  then have "unique_key tr_device_id (device_twins t')" using assms(2) by (simp add: unique_key_def)
  moreover have "\<forall>r \<in> set (device_twins t'). twin_ok loc (tr_device_id r \<in> P) (config_generation t') r"
    unfolding t' using assms(4,5) by (auto simp: table_simps)
  moreover have "distinct (map ev_ID (control_outbox t'))"
    using assms(1) by (auto simp: update_twin_def Let_def split: if_splits)
  ultimately show ?thesis using assms(3,6) t' by (simp add: ctl_inv_def)
qed

lemma preserves_ensureTwin [intro]: "preserves (ctl_inv loc P) (ensureTwin env now user dev)"
  unfolding ensureTwin_def Let_def by (intro preserves_if preserves_fail preserves_exec insert_twin_inv)

lemma preserves_GetTwin [intro]: "preserves (ctl_inv loc P) (GetTwin env clock user dev)"
  unfolding GetTwin_def Let_def ConfigGeneration_def by (intro preserves_bind preserves_option preserves_if) auto

lemma desired_row_ok:
  assumes "ctl_inv loc P t" "r \<in> set (device_twins t)" "Config_Validate loc c = None"
  shows "twin_ok loc (tr_device_id r \<in> P) (config_generation t + 1)
    (r\<lparr>desired_json := c, desired_version := config_generation t + 1, tr_updated_at := ts\<rparr>)"
proof -
  have "twin_ok loc (tr_device_id r \<in> P) (config_generation t) r" using assms(1,2) by (auto simp: ctl_inv_def)
  then show ?thesis using assms(3) by (auto simp: twin_ok_def)
qed

lemma preserves_pg_SetDesired:
  assumes "Config_Validate loc c = None"
  shows "preserves (ctl_inv loc P) (pg_SetDesired env clock user dev c)"
  unfolding pg_SetDesired_def Let_def
proof (intro preserves_bind preserves_ensureTwin preserves_GetTwin preserves_in_tx)
  fix d d' :: "ctl_tables db" and x
  let ?g = "\<lambda>n r. r\<lparr>desired_json := c, desired_version := n, tr_updated_at := pg_ts (clock 1)\<rparr>"
  assume inv: "ctl_inv loc P (tables d)"
  assume "tx_bind nextConfigGenerationPG (\<lambda>generation. tx_bind (stmt (update_twin env (owner user) (TrimSpace dev) (?g generation)))
      (\<lambda>rows. if rows = 0 then tx_fail (Invalid ''device owner mismatch'') else tx_return (Commit ()))) d = (Inr (Commit x), d')"
  then obtain n where upd: "update_twin env (owner user) (TrimSpace dev) (?g (config_generation (tables d) + 1))
      ((tables d)\<lparr>config_generation := config_generation (tables d) + 1\<rparr>) = Some (n, tables d')"
    by (auto simp: tx_Inr nextConfigGenerationPG_def Let_def split: if_splits)
  show "ctl_inv loc P (tables d')"
    by (rule update_twin_inv [OF upd])
      (use inv assms desired_row_ok [OF inv] in \<open>auto simp: ctl_inv_def intro: twin_ok_mono\<close>)
qed

lemma preserves_resolve [intro]: "preserves I (resolve scopes c)"
proof (induction scopes c rule: resolve.induct)
  case (1 c)
  show ?case by (simp only: resolve.simps preserves_return)
next
  case (2 ty sid scopes c)
  show ?case
  proof (cases "sid = []")
    case False
    then show ?thesis unfolding resolve.simps GetConfigOverride_def if_not_P [OF False]
      by (intro preserves_bind preserves_query preserves_option 2)
  qed (use 2(1) in simp)
qed

lemma preserves_ManifestFor [intro]: "preserves (ctl_inv loc P) (ManifestFor defaults env clock rc)"
  unfolding ManifestFor_def by (intro preserves_bind) auto

lemma preserves_SetDesired [intro]: "preserves (ctl_inv loc P) (SetDesired loc defaults env clock user dev patch)"
proof -
  have "preserves (ctl_inv loc P) (case Config_Validate loc c of
          None \<Rightarrow> tx_bind (pg_SetDesired env k1 user dev c) (\<lambda>_. Manifest defaults env k2 user dev)
        | Some e \<Rightarrow> tx_fail (Invalid e))" for c k1 k2
    by (cases "Config_Validate loc c") (auto simp: Manifest_def intro!: preserves_bind preserves_pg_SetDesired)
  then show ?thesis unfolding SetDesired_def Let_def by (intro preserves_bind preserves_GetTwin)
qed

lemma upsert_override_inv:
  "upsert_override ty sid c now t = Some (x, t') \<Longrightarrow> ctl_inv loc P t \<Longrightarrow> Config_Validate loc c = None \<Longrightarrow> ctl_inv loc P t'"
  by (auto simp: upsert_override_def ctl_inv_def Let_def table_simps split: if_splits)

lemma generation_inv:
  "ctl_inv loc P t \<Longrightarrow> config_generation t \<le> g \<Longrightarrow> ctl_inv loc P (t\<lparr>config_generation := g\<rparr>)"
  by (auto simp: ctl_inv_def intro: twin_ok_mono)

lemma preserves_SetConfigOverride:
  assumes "Config_Validate loc c = None"
  shows "preserves (ctl_inv loc P) (SetConfigOverride now ty sid c)"
proof -
  have "preserves (ctl_inv loc P) (in_tx (tx_bind nextConfigGenerationPG (\<lambda>_.
          tx_bind (stmt (upsert_override ty' sid' c now)) (\<lambda>_. tx_return (Commit ())))))" for ty' sid'
  proof (rule preserves_in_tx)
    fix d d' :: "ctl_tables db" and x
    assume inv: "ctl_inv loc P (tables d)"
    assume "tx_bind nextConfigGenerationPG (\<lambda>_. tx_bind (stmt (upsert_override ty' sid' c now)) (\<lambda>_. tx_return (Commit ()))) d
      = (Inr (Commit x), d')"
    then have "upsert_override ty' sid' c now ((tables d)\<lparr>config_generation := config_generation (tables d) + 1\<rparr>) = Some ((), tables d')"
      by (auto simp: tx_Inr nextConfigGenerationPG_def Let_def split: if_splits)
    then show "ctl_inv loc P (tables d')"
      using upsert_override_inv generation_inv [OF inv] assms by fastforce
  qed
  then show ?thesis unfolding SetConfigOverride_def Let_def by (intro preserves_if preserves_fail)
qed

lemma preserves_SetScopedConfig [intro]: "preserves (ctl_inv loc P) (SetScopedConfig loc now ty sid patch)"
proof -
  have "preserves (ctl_inv loc P) (case Config_Validate loc c of
          None \<Rightarrow> SetConfigOverride now ty sid' c | Some e \<Rightarrow> tx_fail (Invalid e))" for c sid'
    by (cases "Config_Validate loc c") (auto intro: preserves_SetConfigOverride)
  then show ?thesis
    unfolding SetScopedConfig_def Let_def GetConfigOverride_def by (intro preserves_if preserves_fail preserves_bind preserves_query)
qed

section \<open>Reports\<close>

lemma report_effect_ok:
  assumes "twin_ok loc p g r" "report_effect_of r res = Write f" "0 \<le> cr_Version res"
    and "Config_Validate loc (cr_Config res) = None" "DeviceReportedConfig (cr_Config res) = cr_Config res"
  shows "twin_ok loc p g (f r)"
proof -
  have v: "last_report_version r \<le> cr_Version res" "cr_Version res \<le> desired_version r"
    "\<not> cr_Applied res \<Longrightarrow> reported_version r < cr_Version res"
    using assms(2) by (auto simp: report_effect_of_def Let_def split: if_splits)
  have f: "f = (if cr_Applied res
      then (\<lambda>x. x\<lparr>reported_json := cr_Config res, reported_version := cr_Version res, last_report_version := cr_Version res,
             last_report_state := StatusApplied, last_report_error := [], last_reported_at := Some (pg_ts (cr_ReportedAt res)),
             tr_updated_at := pg_ts (cr_ReportedAt res)\<rparr>)
      else (\<lambda>x. x\<lparr>last_report_version := cr_Version res, last_report_state := StatusRejected,
             last_report_error := cr_FailureCode res, last_reported_at := Some (pg_ts (cr_ReportedAt res)),
             tr_updated_at := pg_ts (cr_ReportedAt res)\<rparr>))"
    using assms(2) by (simp add: report_effect_of_def Let_def split: if_splits)
  show ?thesis
    by (cases "cr_Applied res") (use assms(1,3-5) v in \<open>auto simp: f twin_ok_def\<close>)
qed

lemma report_effect_keeps:
  "report_effect_of r res = Write f \<Longrightarrow>
     tr_device_id (f x) = tr_device_id x \<and> tr_user_id (f x) = tr_user_id x
   \<and> desired_version (f x) = desired_version x \<and> desired_json (f x) = desired_json x"
  by (auto simp: report_effect_of_def Let_def split: if_splits)

lemma own_twin_unique:
  "unique_key tr_device_id (device_twins t) \<Longrightarrow> find_own_twin user dev t = Some r \<Longrightarrow> x \<in> set (device_twins t)
     \<Longrightarrow> own_twin user dev x \<Longrightarrow> x = r"
  by (auto simp: find_own_twin_def own_twin_def dest!: find_Some_in_set intro: unique_keyD)

lemma preserves_report_tx:
  assumes "0 \<le> cr_Version res" "Config_Validate loc (cr_Config res) = None"
    and "DeviceReportedConfig (cr_Config res) = cr_Config res"
  shows "preserves (ctl_inv loc P) (in_tx (report_tx env user dev res))"
proof (rule preserves_in_tx)
  fix d d' :: "ctl_tables db" and x
  assume inv: "ctl_inv loc P (tables d)" and run: "report_tx env user dev res d = (Inr (Commit x), d')"
  obtain r f n where row: "find_own_twin user dev (tables d) = Some r"
    and eff: "report_effect_of r res = Write f" and upd: "update_twin env user dev f (tables d) = Some (n, tables d')"
    using run by (auto simp: report_tx_def tx_Inr split: option.splits report_effect.splits if_splits)
  have u: "unique_key tr_device_id (device_twins (tables d))" using inv by (simp add: ctl_inv_def)
  have "r \<in> set (device_twins (tables d))" using row by (auto simp: find_own_twin_def dest: find_Some_in_set)
  then have "twin_ok loc (tr_device_id r \<in> P) (config_generation (tables d)) (f r)"
    using inv report_effect_ok [OF _ eff assms] by (auto simp: ctl_inv_def)
  then show "ctl_inv loc P (tables d')"
    using inv own_twin_unique [OF u row] report_effect_keeps [OF eff]
    by (intro update_twin_inv [OF upd u]) (auto simp: ctl_inv_def)
qed

lemma preserves_ReportResult [intro]: "preserves (ctl_inv loc P) (ReportResult loc env clock user dev result)"
proof -
  have "preserves (ctl_inv loc P) (RecordConfigReport loc env clock' user dev res)"
    if "DeviceReportedConfig (cr_Config res) = cr_Config res" for clock' res
    using that unfolding RecordConfigReport_def Let_def
    by (cases "Config_Validate loc (cr_Config res)")
      (auto intro!: preserves_if preserves_bind preserves_report_tx)
  then show ?thesis
    unfolding ReportResult_def Let_def by (intro preserves_if preserves_option preserves_fail) auto
qed

lemma preserves_Settings_Status [intro]: "preserves (ctl_inv loc P) (Settings_Status env now user dev online)"
  unfolding Settings_Status_def pg_SettingsMetadata_def Let_def
  by (intro preserves_bind preserves_if preserves_option preserves_ensureTwin) auto

lemma preserves_Manifest [intro]: "preserves (ctl_inv loc P) (Manifest defaults env clock user dev)"
  unfolding Manifest_def by auto

lemma reconcile_inv:
  assumes "ctl_inv loc P (tables d)"
  shows "ctl_inv loc P (tables (reconcileSettings loc defaults env clock supports dev rc d))"
proof -
  obtain res d1 where m: "ManifestFor defaults env clock rc d = (res, d1)" by force
  then have d1: "ctl_inv loc P (tables d1)" using preservesD [OF preserves_ManifestFor] assms by blast
  then have "ctl_inv loc P (tables (snd (ReportResult loc env c u v x d1)))" for c u v x
    using preserves_ReportResult by (auto simp: preserves_def)
  then show ?thesis using m d1 by (auto simp: reconcileSettings_def split: sum.splits option.splits)
qed

lemma dispatch_result_inv:
  assumes "ctl_inv loc P (tables d)"
  shows "ctl_inv loc P (tables (snd (dispatch_result loc defaults env clock user dev twin result d)))"
  unfolding dispatch_result_def Let_def using assms
  by (auto split: prod.splits sum.splits
      dest!: preservesD [OF preserves_ReportResult] preservesD [OF preserves_Manifest] preservesD [OF preserves_Settings_Status])

lemma dispatch_inv:
  assumes "ctl_inv loc P (tables d)"
  shows "ctl_inv loc P (tables (snd (dispatchSettingsUpdate loc defaults env clock online sess user dev twin d)))"
  unfolding dispatchSettingsUpdate_def using assms dispatch_result_inv [OF assms]
  by (auto split: prod.splits sum.splits option.splits dest!: preservesD [OF preserves_Settings_Status])

lemma preserves_UpdateDeviceSettings [intro]:
  "preserves (ctl_inv loc P) (UpdateDeviceSettings loc defaults env clock online sess online' user dev patch)"
  unfolding UpdateDeviceSettings_def
proof (rule preserves_bind [OF preserves_SetDesired])
  fix twin
  show "preserves (ctl_inv loc P) (\<lambda>d. case dispatchSettingsUpdate loc defaults env (shift 5 clock) online sess user dev twin d of
      (twin', d') \<Rightarrow> tx_bind (Settings_Status env (clock 11) user dev online') (\<lambda>st. tx_return (with_status (st_State st) twin', st)) d')"
    unfolding preserves_def
  proof (intro allI impI)
    fix d :: "ctl_tables db"
    assume inv: "ctl_inv loc P (tables d)"
    obtain twin' d' where run: "dispatchSettingsUpdate loc defaults env (shift 5 clock) online sess user dev twin d = (twin', d')"
      by force
    then have "ctl_inv loc P (tables d')" using dispatch_inv [OF inv] by (metis snd_conv)
    moreover have "preserves (ctl_inv loc P) (tx_bind (Settings_Status env (clock 11) user dev online')
        (\<lambda>st. tx_return (with_status (st_State st) twin', st)))"
      by (intro preserves_bind) auto
    ultimately show "ctl_inv loc P (tables (snd (case dispatchSettingsUpdate loc defaults env (shift 5 clock) online sess user dev twin d of
        (twin', d') \<Rightarrow> tx_bind (Settings_Status env (clock 11) user dev online') (\<lambda>st. tx_return (with_status (st_State st) twin', st)) d')))"
      using run by (simp add: preserves_def)
  qed
qed

lemma preserves_pg_SetFlag [intro]: "preserves (ctl_inv loc P) (pg_SetFlag f)"
  unfolding pg_SetFlag_def by (intro preserves_if preserves_fail preserves_exec) (simp add: upsert_flag_def ctl_inv_def)

lemma GetTwin_Inr:
  assumes "GetTwin env clock user dev d = (Inr twin, d')"
  obtains r where "find_twin (TrimSpace dev) (tables d') = Some r" "tr_user_id r = owner user"
    "tw_Desired twin = desired_json r" "tw_Reported twin = reported_json r"
    "tw_DesiredVersion twin \<in> {desired_version r, max (desired_version r) (config_generation (tables d'))}"
    "tw_ReportedVersion twin = reported_version r"
  using assms
  by (auto simp: GetTwin_def Let_def tx_Inr ensureTwin_def tx_try_def ConfigGeneration_def query_def stmt_def
      raise_version_def scan_twin_def split: option.splits if_splits sum.splits prod.splits)

section \<open>Runs\<close>

text \<open>
  A run of the control plane: its operations that change the tables in any order, each with any schedule of failures, any
  answers of the device and any clock. The set holds the devices for which the plain \<open>Report\<close> was called.
\<close>

inductive settings_run :: "(string \<Rightarrow> bool) \<Rightarrow> RuntimeConfig \<Rightarrow> string set \<Rightarrow> ctl_tables db \<Rightarrow> bool" for loc defaults where
  start: "tables d = initial_ctl \<Longrightarrow> settings_run loc defaults {} d"
| failures: "settings_run loc defaults P d \<Longrightarrow> settings_run loc defaults P (d\<lparr>faults := fs\<rparr>)"
| read: "settings_run loc defaults P d \<Longrightarrow> settings_run loc defaults P (snd (ManifestFor defaults env clock rc d))"
| status: "settings_run loc defaults P d \<Longrightarrow> settings_run loc defaults P (snd (Settings_Status env now user dev online d))"
| desire: "settings_run loc defaults P d \<Longrightarrow> settings_run loc defaults P (snd (SetDesired loc defaults env clock user dev patch d))"
| scope: "settings_run loc defaults P d \<Longrightarrow> settings_run loc defaults P (snd (SetScopedConfig loc now ty sid patch d))"
| report: "settings_run loc defaults P d \<Longrightarrow> settings_run loc defaults P (snd (ReportResult loc env clock user dev result d))"
| plain: "settings_run loc defaults P d \<Longrightarrow>
    settings_run loc defaults (insert (TrimSpace dev) P) (snd (Report loc env clock user dev v c d))"
| reconcile: "settings_run loc defaults P d \<Longrightarrow>
    settings_run loc defaults P (reconcileSettings loc defaults env clock supports device rc d)"
| update: "settings_run loc defaults P d \<Longrightarrow>
    settings_run loc defaults P (snd (UpdateDeviceSettings loc defaults env clock online sess online' user dev patch d))"
| flag: "settings_run loc defaults P d \<Longrightarrow> settings_run loc defaults P (snd (SetFlag f d))"
| ensure_flag: "settings_run loc defaults P d \<Longrightarrow> settings_run loc defaults P (snd (EnsureFlag f d))"

lemma ctl_inv_more: "ctl_inv loc P t \<Longrightarrow> P \<subseteq> Q \<Longrightarrow> ctl_inv loc Q t"
  by (auto simp: ctl_inv_def twin_ok_def)

lemma plain_row_ok:
  "twin_ok loc p g r \<Longrightarrow> reported_version r \<le> v \<Longrightarrow> v \<le> g \<Longrightarrow> Config_Validate loc c = None \<Longrightarrow>
     twin_ok loc True g (r\<lparr>reported_json := c, reported_version := v, tr_updated_at := ts\<rparr>)"
  by (auto simp: twin_ok_def)

lemma Report_inv:
  assumes "ctl_inv loc P (tables d)"
  shows "ctl_inv loc (insert (TrimSpace dev) P) (tables (snd (Report loc env clock user dev v c d)))"
proof -
  let ?P = "insert (TrimSpace dev) P" and ?u = "owner user" and ?v = "TrimSpace dev"
  let ?g = "\<lambda>r. r\<lparr>reported_json := c, reported_version := v, tr_updated_at := pg_ts (clock 2)\<rparr>"
  have inv: "ctl_inv loc ?P (tables d)" using ctl_inv_more [OF assms] by blast
  have upd: "ctl_inv loc ?P t'" if ok: "Config_Validate loc c = None" and t: "ctl_inv loc ?P (tables d2)"
      "GetTwin env k ?u ?v d1 = (Inr twin, d2)" "tw_ReportedVersion twin \<le> v" "v \<le> tw_DesiredVersion twin"
      and u: "update_twin env ?u ?v ?g (tables d2) = Some (n, t')" for k d1 d2 twin n t'
  proof -
    from t(2) obtain r where r: "find_twin ?v (tables d2) = Some r" "tw_ReportedVersion twin = reported_version r"
        "tw_DesiredVersion twin \<in> {desired_version r, max (desired_version r) (config_generation (tables d2))}"
      by (rule GetTwin_Inr) simp
    have mem: "r \<in> set (device_twins (tables d2))" "tr_device_id r = ?v" using r(1) by (auto simp: find_twin_def dest: find_Some_in_set)
    then have "desired_version r \<le> config_generation (tables d2)" using t(1) by (auto simp: ctl_inv_def twin_ok_def)
    then have v: "reported_version r \<le> v" "v \<le> config_generation (tables d2)" using r(2,3) t(3,4) by auto
    have only: "x = r" if "x \<in> set (device_twins (tables d2))" "own_twin ?u ?v x" for x
      using that mem t(1) unique_keyD [of tr_device_id "device_twins (tables d2)" x r] by (simp add: ctl_inv_def own_twin_def)
    show ?thesis
    proof (rule update_twin_inv [OF u])
      fix x assume x: "x \<in> set (device_twins (tables d2))" "own_twin ?u ?v x"
      then have "x = r" by (rule only)
      moreover have "twin_ok loc True (config_generation (tables d2)) (?g r)"
        using t(1) mem v ok by (intro plain_row_ok) (auto simp: ctl_inv_def)
      ultimately show "twin_ok loc (tr_device_id x \<in> ?P) (config_generation (tables d2)) (?g x) \<and> tr_device_id (?g x) = tr_device_id x"
        using mem(2) by simp
    qed (use t(1) in \<open>auto simp: ctl_inv_def\<close>)
  qed
  show ?thesis
  proof (cases "Config_Validate loc c")
    case None
    obtain a d1 where a: "ensureTwin env (clock 0) ?u ?v d = (a, d1)" by force
    have d1: "ctl_inv loc ?P (tables d1)" by (rule preservesD [OF preserves_ensureTwin a inv])
    obtain b d2 where b: "GetTwin env (shift 1 clock) ?u ?v d1 = (b, d2)" by force
    have d2: "ctl_inv loc ?P (tables d2)" by (rule preservesD [OF preserves_GetTwin b d1])
    show ?thesis
    proof (cases "\<exists>x twin. a = Inr x \<and> b = Inr twin \<and> tw_ReportedVersion twin \<le> v \<and> v \<le> tw_DesiredVersion twin")
      case True
      then obtain x twin where t: "a = Inr x" "b = Inr twin" "tw_ReportedVersion twin \<le> v" "v \<le> tw_DesiredVersion twin" by blast
      obtain q d3 where q: "(stmt (update_twin env ?u ?v ?g) :: nat ctl_tx) d2 = (q, d3)" by force
      have "ctl_inv loc ?P (tables d3)"
        using q d2 upd [OF None d2 b [unfolded t(2)] t(3,4)] by (auto simp: stmt_def split: if_splits option.splits)
      moreover have "tables (snd (Report loc env clock user dev v c d)) = tables d3"
        using None a b q t by (cases q) (simp_all add: Report_def pg_Report_def Let_def tx_bind_def tx_return_def tx_fail_def)
      ultimately show ?thesis by simp
    next
      case False
      then have "tables (snd (Report loc env clock user dev v c d)) \<in> {tables d1, tables d2}"
        using None a b by (cases a; cases b) (auto simp: Report_def pg_Report_def Let_def tx_bind_def tx_fail_def)
      then show ?thesis using d1 d2 by auto
    qed
  qed (use inv in \<open>simp add: Report_def tx_fail_def\<close>)
qed

lemma settings_run_inv: "settings_run loc defaults P d \<Longrightarrow> ctl_inv loc P (tables d)"
proof (induction rule: settings_run.induct)
  case (flag P d f)
  have "preserves (ctl_inv loc P) (SetFlag f)" unfolding SetFlag_def by (intro preserves_sum) auto
  then show ?case using flag.IH by (simp add: preserves_def)
next
  case (ensure_flag P d f)
  have "preserves (ctl_inv loc P) (EnsureFlag f)" unfolding EnsureFlag_def by (intro preserves_bind preserves_if) auto
  then show ?case using ensure_flag.IH by (simp add: preserves_def)
next
  case (plain P d dev env clock user v c)
  show ?case by (rule Report_inv [OF plain.IH])
qed (auto simp: ctl_inv_initial reconcile_inv
    intro: preserves_ManifestFor [unfolded preserves_def, rule_format] preserves_Settings_Status [unfolded preserves_def, rule_format]
      preserves_SetDesired [unfolded preserves_def, rule_format] preserves_SetScopedConfig [unfolded preserves_def, rule_format]
      preserves_ReportResult [unfolded preserves_def, rule_format] preserves_UpdateDeviceSettings [unfolded preserves_def, rule_format])

section \<open>The layers of the manifest\<close>

definition override_at :: "string \<Rightarrow> string \<Rightarrow> ctl_tables \<Rightarrow> RuntimeConfig option" where
  "override_at ty sid t = map_option config_json
     (find (\<lambda>r. scope_type r = TrimSpace ty \<and> scope_id r = TrimSpace sid) (config_overrides t))"

fun scope_layers :: "ctl_tables \<Rightarrow> (string \<times> string) list \<Rightarrow> RuntimeConfig list" where
  "scope_layers t [] = []"
| "scope_layers t ((ty, sid) # scopes) =
     (if sid = [] then [] else case override_at ty sid t of None \<Rightarrow> [] | Some c \<Rightarrow> [c]) @ scope_layers t scopes"

lemma GetConfigOverride_eq: "GetConfigOverride ty sid = query (override_at ty sid)"
  unfolding GetConfigOverride_def override_at_def by (rule arg_cong [where f = query]) simp

lemma resolve_layers:
  "resolve scopes c d = (Inr c', d') \<Longrightarrow> c' = foldl merge c (scope_layers (tables d) scopes) \<and> tables d' = tables d"
proof (induction scopes c arbitrary: d rule: resolve.induct)
  case (2 ty sid scopes c)
  show ?case
  proof (cases "sid = []")
    case True
    then show ?thesis using 2 by simp
  next
    case False
    define d1 where "d1 = next_call d"
    have "tables d1 = tables d" "(case override_at ty sid (tables d) of None \<Rightarrow> resolve scopes c | Some o' \<Rightarrow> resolve scopes (merge c o')) d1 = (Inr c', d')"
      using 2(4) False by (auto simp: GetConfigOverride_eq tx_Inr d1_def)
    then show ?thesis using 2(2) [OF False, of d1] 2(3) [OF False, where d = d1] False by (cases "override_at ty sid (tables d)") auto
  qed
qed (auto simp: tx_Inr)

lemma resolve_ok: "faults d = [] \<Longrightarrow> resolve scopes c d = (Inr (foldl merge c (scope_layers (tables d) scopes)), d)"
  by (induction scopes c rule: resolve.induct) (simp_all add: GetConfigOverride_eq split: option.splits)

lemma override_at_valid: "ctl_inv loc P t \<Longrightarrow> override_at ty sid t = Some c \<Longrightarrow> Config_Validate loc c = None"
  by (auto simp: override_at_def ctl_inv_def dest!: find_Some_in_set)

lemma scope_layers_valid:
  "ctl_inv loc P t \<Longrightarrow> c \<in> set (scope_layers t scopes) \<Longrightarrow> Config_Validate loc c = None"
  by (induction t scopes rule: scope_layers.induct)
    (auto split: if_splits option.splits intro: override_at_valid)

lemma foldl_merge_valid:
  "Config_Validate loc c = None \<Longrightarrow> \<forall>x \<in> set cs. Config_Validate loc x = None \<Longrightarrow> Config_Validate loc (foldl merge c cs) = None"
  by (induction cs arbitrary: c) (auto simp: merge_valid)

section \<open>Runs without failures\<close>

lemma find_own_of_find:
  "find_twin dev t = Some r \<Longrightarrow> tr_user_id r = user \<Longrightarrow> find_own_twin user dev t = Some r"
  unfolding find_twin_def find_own_twin_def by (induction "device_twins t" arbitrary: t) (auto simp: own_twin_def find_Some_iff)

lemma insert_twin_present: "find_twin dev t = Some r \<Longrightarrow> insert_twin env user dev now t = t"
  by (auto simp: find_twin_def insert_twin_def dest: find_Some_in_set)

lemma ensureTwin_present:
  "faults d = [] \<Longrightarrow> find_twin (TrimSpace dev) (tables d) = Some r \<Longrightarrow> TrimSpace dev \<noteq> [] \<Longrightarrow>
     ensureTwin env now user dev d = (Inr (), d)"
  by (simp add: ensureTwin_def insert_twin_present)

definition raised :: "ctl_tables \<Rightarrow> twin_row \<Rightarrow> Twin" where
  "raised t r = (let twin = raise_version (Some (config_generation t)) (scan_twin r) in
     twin\<lparr>tw_Status := DeriveTwinStatus twin False False\<rparr>)"

lemma GetTwin_ok:
  "faults d = [] \<Longrightarrow> find_twin (TrimSpace dev) (tables d) = Some r \<Longrightarrow> TrimSpace dev \<noteq> [] \<Longrightarrow> tr_user_id r = owner user \<Longrightarrow>
     GetTwin env clock user dev d = (Inr (raised (tables d) r), d)"
  by (simp add: GetTwin_def ensureTwin_present tx_try_def ConfigGeneration_def raised_def Let_def)

lemma ManifestFor_ok:
  "faults d = [] \<Longrightarrow> find_twin (TrimSpace (rc_DeviceID rc)) (tables d) = Some r \<Longrightarrow> TrimSpace (rc_DeviceID rc) \<noteq> []
   \<Longrightarrow> tr_user_id r = owner (rc_UserID rc) \<Longrightarrow>
     ManifestFor defaults env clock rc d = (Inr ((raised (tables d) r)\<lparr>tw_Desired :=
       merge (foldl merge defaults (scope_layers (tables d) (scopes_of rc))) (desired_json r)\<rparr>), d)"
  by (simp add: ManifestFor_def GetTwin_ok resolve_ok) (simp add: raised_def raise_version_def scan_twin_def Let_def)

lemma raised_version: "tw_DesiredVersion (raised t r) = max (desired_version r) (config_generation t)"
  by (simp add: raised_def raise_version_def scan_twin_def Let_def)

text \<open>Updates of the one row of a device.\<close>

lemma filter_own:
  "unique_key tr_device_id (device_twins t) \<Longrightarrow> find_own_twin user dev t = Some r \<Longrightarrow>
     filter (own_twin user dev) (device_twins t) = [r]"
proof -
  assume u: "unique_key tr_device_id (device_twins t)" and f: "find_own_twin user dev t = Some r"
  have all: "x = r" if "x \<in> set (filter (own_twin user dev) (device_twins t))" for x
    using own_twin_unique [OF u f] that by auto
  have "r \<in> set (filter (own_twin user dev) (device_twins t))"
    using f by (auto simp: find_own_twin_def dest: find_Some_in_set)
  moreover have "distinct (filter (own_twin user dev) (device_twins t))"
    using u by (auto simp: unique_key_def distinct_map)
  ultimately show ?thesis using all
    by (metis distinct_length_2_or_more list.set_cases list.set_intros neq_Nil_conv)
qed

lemma twin_events_one:
  "filter P rows = [r] \<Longrightarrow> twin_events env P g rows =
     (if desired_version (g r) \<noteq> desired_version r then [twin_event env (stamp_desired env r (g r))] else [])"
  by (simp add: twin_events_def del: filter_filter)

lemma update_twin_same:
  assumes "ctl_inv loc P t" "find_own_twin user dev t = Some r" "desired_version (g r) = desired_version r"
  shows "update_twin env user dev g t = Some (1, t\<lparr>device_twins := update_where (own_twin user dev) g (device_twins t)\<rparr>)"
proof -
  have u: "unique_key tr_device_id (device_twins t)" and o: "distinct (map ev_ID (control_outbox t))"
    using assms(1) by (auto simp: ctl_inv_def)
  have "update_where (own_twin user dev) (\<lambda>x. stamp_desired env x (g x)) (device_twins t)
      = update_where (own_twin user dev) g (device_twins t)"
    using own_twin_unique [OF u assms(2)] assms(3) by (intro update_where_cong) (auto simp: stamp_desired_def)
  then show ?thesis
    using filter_own [OF u assms(2)] o assms(3)
    by (simp add: update_twin_def Let_def twin_events_one [OF filter_own [OF u assms(2)]] rows_affected_def)
qed

lemma update_twin_desired:
  assumes "unique_key tr_device_id (device_twins t)" "distinct (map ev_ID (control_outbox t))"
    and "find_own_twin user dev t = Some r" "desired_version (g r) \<noteq> desired_version r"
    and "gen_random_uuid env \<notin> ev_ID ` set (control_outbox t)"
  shows "update_twin env user dev g t = Some (1, t\<lparr>device_twins := update_where (own_twin user dev)
      (\<lambda>x. stamp_desired env x (g x)) (device_twins t),
      control_outbox := control_outbox t @ [twin_event env (stamp_desired env r (g r))]\<rparr>)"
  using filter_own [OF assms(1,3)] assms(2,4,5)
  by (simp add: update_twin_def Let_def twin_events_one [OF filter_own [OF assms(1,3)]] rows_affected_def) (simp add: twin_event_def)

lemma find_twin_update:
  assumes "find_twin dev t = Some r" "own_twin user dev r" "\<And>x. tr_device_id (g x) = tr_device_id x"
    and "device_twins t' = update_where (own_twin user dev) g (device_twins t)"
  shows "find_twin dev t' = Some (g r)"
  using assms find_update_where [of "own_twin user dev" "\<lambda>x. tr_device_id x = dev" g "device_twins t"]
  by (simp add: find_twin_def)

section \<open>Reports and updates without failures\<close>

lemma report_tx_refused:
  assumes "faults d = []" "find_own_twin user dev (tables d) = Some r" "desired_version r < cr_Version res"
  shows "in_tx (report_tx env user dev res) d = (Inl (Invalid ''reported config version ahead of desired''), d)"
  using assms by (simp add: in_tx_def report_tx_def report_effect_of_def rollback_to_def)

text \<open>A report that is ahead of the row is refused, whatever else it holds.\<close>

lemma ReportResult_ahead:
  assumes "faults d = []" "find_twin (TrimSpace dev) (tables d) = Some r" "tr_user_id r = owner user"
    and "desired_version r < cr_Version res"
  shows "snd (ReportResult loc env clock user dev res d) = d"
proof -
  have own: "find_own_twin (owner user) (TrimSpace dev) (tables d) = Some r" using find_own_of_find assms(2,3) by blast
  have refused: "snd (RecordConfigReport loc env k user dev res' d) = d" if v: "cr_Version res' = cr_Version res" for k res'
  proof (cases "TrimSpace dev = [] \<or> (Config_Validate loc (cr_Config res') = None) = False")
    case True
    then show ?thesis by (auto simp: RecordConfigReport_def Let_def)
  next
    case False
    then have "tx_bind (ensureTwin env (k 1) (owner user) (TrimSpace dev)) (\<lambda>_. in_tx (report_tx env (owner user) (TrimSpace dev)
        (res'\<lparr>cr_FailureCode := c, cr_ReportedAt := x\<rparr>))) d = (Inl (Invalid ''reported config version ahead of desired''), d)" for c x
      using assms(1,2,4) v report_tx_refused [OF assms(1) own] by (simp add: ensureTwin_present)
    then show ?thesis using False by (simp add: RecordConfigReport_def Let_def del: One_nat_def)
  qed
  show ?thesis
    by (cases "Config_Validate loc (DeviceReportedConfig (cr_Config res))") (simp_all add: ReportResult_def Let_def refused)
qed

lemma report_tx_applied:
  assumes "faults d = []" "ctl_inv loc P (tables d)" "find_own_twin user dev (tables d) = Some r"
    and "report_effect_of r res = Write f"
  shows "in_tx (report_tx env user dev res) d
    = (Inr (), d\<lparr>tables := (tables d)\<lparr>device_twins := update_where (own_twin user dev) f (device_twins (tables d))\<rparr>\<rparr>)"
  using assms update_twin_same [OF assms(2,3)] report_effect_keeps [OF assms(4)]
  by (simp add: in_tx_def report_tx_def)

definition applied_row :: "ConfigReportResult \<Rightarrow> twin_row \<Rightarrow> twin_row" where
  "applied_row res x = x\<lparr>reported_json := cr_Config res, reported_version := cr_Version res,
     last_report_version := cr_Version res, last_report_state := StatusApplied, last_report_error := [],
     last_reported_at := Some (pg_ts (cr_ReportedAt res)), tr_updated_at := pg_ts (cr_ReportedAt res)\<rparr>"

lemma report_effect_applied:
  assumes "cr_Applied res" "cr_Version res = desired_version r" "last_report_version r < desired_version r"
    and "reported_version r \<le> desired_version r"
  shows "report_effect_of r res = Write (applied_row res)"
  using assms by (auto simp: report_effect_of_def Let_def applied_row_def)

lemma ReportResult_applied:
  assumes "faults d = []" "ctl_inv loc P (tables d)" "find_twin (TrimSpace dev) (tables d) = Some r"
    and "TrimSpace dev \<noteq> []" "tr_user_id r = owner user" "last_report_version r < desired_version r \<and> reported_version r \<le> desired_version r"
    and "cr_Applied res" "cr_Version res = desired_version r" "TrimSpace (cr_FailureCode res) = []"
    and "Config_Validate loc (cr_Config res) = None"
  obtains res' where "ReportResult loc env clock user dev res d = (Inr (), d\<lparr>tables := (tables d)\<lparr>device_twins :=
      update_where (own_twin (owner user) (TrimSpace dev)) (applied_row res') (device_twins (tables d))\<rparr>\<rparr>)"
    "cr_Version res' = cr_Version res" "cr_Config res' = DeviceReportedConfig (cr_Config res)"
proof -
  let ?res = "res\<lparr>cr_Config := DeviceReportedConfig (cr_Config res), cr_FailureCode := [],
    cr_ReportedAt := reported_at (reported_at (cr_ReportedAt res) (clock 0)) (shift 1 clock 0)\<rparr>"
  have own: "find_own_twin (owner user) (TrimSpace dev) (tables d) = Some r" using find_own_of_find assms(3,5) by blast
  then have "twin_ok loc (tr_device_id r \<in> P) (config_generation (tables d)) r"
    using assms(2) by (auto simp: ctl_inv_def find_own_twin_def dest: find_Some_in_set)
  then have v: "reported_version r \<le> desired_version r" "0 \<le> desired_version r" using assms(6) by (auto simp: twin_ok_def)
  have "report_effect_of r ?res = Write (applied_row ?res)" using assms(6-8) v by (intro report_effect_applied) auto
  then have "in_tx (report_tx env (owner user) (TrimSpace dev) ?res) d = (Inr (), d\<lparr>tables := (tables d)\<lparr>device_twins :=
      update_where (own_twin (owner user) (TrimSpace dev)) (applied_row ?res) (device_twins (tables d))\<rparr>\<rparr>)"
    by (rule report_tx_applied [OF assms(1,2) own])
  then show thesis
    using that [of ?res] assms(1,3,4,8-10) v DeviceReportedConfig_valid [OF assms(10)]
    by (simp add: ReportResult_def RecordConfigReport_def Let_def ensureTwin_present)
qed

lemma Settings_Status_ok:
  assumes "faults d = []" "find_twin (TrimSpace dev) (tables d) = Some r" "TrimSpace dev \<noteq> []" "tr_user_id r = owner user"
  shows "\<exists>st. Settings_Status env now user dev online d = (Inr st, d) \<and> st_State st = deriveSettingsState (scan_metadata r) online
    \<and> st_DesiredVersion st = desired_version r \<and> st_ReportedVersion st = reported_version r"
  using assms find_own_of_find [OF assms(2,4)]
  by (simp add: Settings_Status_def pg_SettingsMetadata_def Let_def ensureTwin_present) (simp add: scan_metadata_def)

text \<open>The settings call after a successful change: the new revision is the generation of the store.\<close>

abbreviation plain_context :: "string \<Rightarrow> string \<Rightarrow> ResolutionContext" where
  "plain_context user dev \<equiv> \<lparr>rc_UserID = user, rc_DeviceID = dev, rc_TenantID = [], rc_Plan = []\<rparr>"

lemma pg_SetDesired_ok:
  assumes "faults d = []" "ctl_inv loc P (tables d)" "find_twin (TrimSpace dev) (tables d) = Some r" "TrimSpace dev \<noteq> []"
    and "tr_user_id r = owner user" "config_generation (tables d) < int64_max"
    and "gen_random_uuid env \<notin> ev_ID ` set (control_outbox (tables d))"
  obtains t1 r1 twin where "pg_SetDesired env clock user dev c d = (Inr twin, d\<lparr>tables := t1\<rparr>)"
    "find_twin (TrimSpace dev) t1 = Some r1" "tr_user_id r1 = owner user" "desired_json r1 = c"
    "desired_version r1 = config_generation (tables d) + 1" "config_generation t1 = config_generation (tables d) + 1"
    "last_report_version r1 = last_report_version r" "reported_version r1 = reported_version r"
proof -
  let ?u = "owner user" and ?v = "TrimSpace dev" and ?G = "config_generation (tables d) + 1"
  let ?g = "\<lambda>x. x\<lparr>desired_json := c, desired_version := ?G, tr_updated_at := pg_ts (clock 1)\<rparr>"
  let ?s = "\<lambda>x. stamp_desired env x (?g x)"
  let ?t0 = "(tables d)\<lparr>config_generation := ?G\<rparr>"
  let ?t1 = "?t0\<lparr>device_twins := update_where (own_twin ?u ?v) ?s (device_twins (tables d)),
     control_outbox := control_outbox (tables d) @ [twin_event env (?s r)]\<rparr>"
  have u: "unique_key tr_device_id (device_twins ?t0)" "distinct (map ev_ID (control_outbox ?t0))"
    using assms(2) by (auto simp: ctl_inv_def)
  have own: "find_own_twin ?u ?v (tables d) = Some r" using find_own_of_find assms(3,5) by blast
  then have own0: "find_own_twin ?u ?v ?t0 = Some r" and P: "own_twin ?u ?v r"
    by (auto simp: find_own_twin_def dest: find_Some_in_set)
  have "desired_version r \<noteq> ?G"
    using assms(2) own by (force simp: ctl_inv_def twin_ok_def find_own_twin_def dest: find_Some_in_set)
  then have upd: "update_twin env ?u ?v ?g ?t0 = Some (1, ?t1)"
    using update_twin_desired [OF u own0, of ?g env] assms(7) by simp
  have row: "find_twin ?v ?t1 = Some (?s r)"
    by (rule find_twin_update [OF assms(3) P]) simp_all
  have "in_tx (tx_bind nextConfigGenerationPG (\<lambda>generation.
        tx_bind (stmt (update_twin env ?u ?v (\<lambda>r. r\<lparr>desired_json := c, desired_version := generation,
                  tr_updated_at := pg_ts (clock 1)\<rparr>))) (\<lambda>rows.
        if rows = 0 then tx_fail (Invalid ''device owner mismatch'') else tx_return (Commit ())))) d
      = (Inr (), d\<lparr>tables := ?t1\<rparr>)"
    using assms(1,6) upd by (simp add: in_tx_def nextConfigGenerationPG_def Let_def del: One_nat_def)
  then have "\<exists>twin. pg_SetDesired env clock user dev c d = (Inr twin, d\<lparr>tables := ?t1\<rparr>)"
    using assms(1,3,4) row P
    by (simp add: pg_SetDesired_def Let_def ensureTwin_present GetTwin_ok own_twin_def del: One_nat_def)
  then obtain twin where "pg_SetDesired env clock user dev c d = (Inr twin, d\<lparr>tables := ?t1\<rparr>)" by blast
  then show thesis using that [OF _ row] P by (simp add: own_twin_def)
qed

lemma SetDesired_ok:
  assumes "faults d = []" "ctl_inv loc P (tables d)" "find_twin (TrimSpace dev) (tables d) = Some r" "TrimSpace dev \<noteq> []"
    and "tr_user_id r = owner user" "config_generation (tables d) < int64_max"
    and "gen_random_uuid env \<notin> ev_ID ` set (control_outbox (tables d))"
    and "Config_Validate loc (merge (desired_json r) patch) = None"
  obtains t1 r1 twin where "SetDesired loc defaults env clock user dev patch d = (Inr twin, d\<lparr>tables := t1\<rparr>)" "ctl_inv loc P t1"
    "find_twin (TrimSpace dev) t1 = Some r1" "tr_user_id r1 = owner user" "desired_json r1 = merge (desired_json r) patch"
    "desired_version r1 = config_generation (tables d) + 1" "config_generation t1 = config_generation (tables d) + 1"
    "last_report_version r1 < desired_version r1 \<and> reported_version r1 \<le> desired_version r1" "tw_DesiredVersion twin = desired_version r1"
    "tw_Desired twin = merge (foldl merge defaults (scope_layers t1 (scopes_of (plain_context user dev)))) (desired_json r1)"
proof -
  have last: "last_report_version r \<le> config_generation (tables d) \<and> reported_version r \<le> config_generation (tables d)"
    using assms(2,3) by (force simp: ctl_inv_def twin_ok_def find_twin_def dest: find_Some_in_set)
  have cur: "tw_Desired (raised (tables d) r) = desired_json r"
    by (simp add: raised_def raise_version_def scan_twin_def Let_def)
  obtain t1 r1 twin where run: "pg_SetDesired env (shift 1 clock) user dev (merge (desired_json r) patch) d = (Inr twin, d\<lparr>tables := t1\<rparr>)"
    and r1: "find_twin (TrimSpace dev) t1 = Some r1" "tr_user_id r1 = owner user" "desired_json r1 = merge (desired_json r) patch"
      "desired_version r1 = config_generation (tables d) + 1" "config_generation t1 = config_generation (tables d) + 1"
      "last_report_version r1 = last_report_version r" "reported_version r1 = reported_version r"
    by (rule pg_SetDesired_ok [OF assms(1-7)])
  let ?twin = "(raised t1 r1)\<lparr>tw_Desired := merge (foldl merge defaults (scope_layers t1 (scopes_of (plain_context user dev)))) (desired_json r1)\<rparr>"
  have whole: "SetDesired loc defaults env clock user dev patch d = (Inr ?twin, d\<lparr>tables := t1\<rparr>)"
    using assms(1,3-5,8) run r1(1,2) by (simp add: SetDesired_def GetTwin_ok cur Manifest_def ManifestFor_ok Let_def del: One_nat_def)
  have "ctl_inv loc P t1" using preservesD [OF preserves_SetDesired whole assms(2)] by simp
  then show thesis using that [OF whole _ r1(1-5)] r1 last by (simp add: raised_version)
qed

lemma applied_row_fields [simp]:
  "tr_device_id (applied_row res x) = tr_device_id x" "tr_user_id (applied_row res x) = tr_user_id x"
  "desired_json (applied_row res x) = desired_json x" "desired_version (applied_row res x) = desired_version x"
  "reported_json (applied_row res x) = cr_Config res" "reported_version (applied_row res x) = cr_Version res"
  "last_report_state (applied_row res x) = StatusApplied" "last_report_version (applied_row res x) = cr_Version res"
  by (simp_all add: applied_row_def)

text \<open>A device that acknowledges the revision of its row brings the row to ``applied''.\<close>

lemma dispatch_applied:
  assumes "faults d = []" "ctl_inv loc P (tables d)" "find_twin (TrimSpace dev) (tables d) = Some r" "TrimSpace dev \<noteq> []"
    and "tr_user_id r = owner user" "last_report_version r < desired_version r \<and> reported_version r \<le> desired_version r"
      "tw_DesiredVersion twin = desired_version r"
    and desired: "tw_Desired twin = merge (foldl merge defaults (scope_layers (tables d) (scopes_of (plain_context user dev)))) (desired_json r)"
    and "Config_Validate loc (tw_Desired twin) = None"
    and "\<And>v c. \<exists>e. device v c = Some \<lparr>sr_Version = v, sr_Applied = True, sr_Error = e\<rparr> \<and> TrimSpace e = []"
  obtains t2 r2 twin2 where "dispatchSettingsUpdate loc defaults env k True (Some (True, device)) user dev twin d
      = (with_status StatusApplied twin2, d\<lparr>tables := t2\<rparr>)"
    "find_twin (TrimSpace dev) t2 = Some r2" "tr_user_id r2 = owner user" "desired_json r2 = desired_json r"
    "desired_version r2 = desired_version r" "reported_version r2 = desired_version r"
    "reported_json r2 = DeviceReportedConfig (tw_Desired twin)" "last_report_state r2 = StatusApplied"
    "tw_Desired twin2 = tw_Desired twin"
proof -
  obtain e where ack: "device (tw_DesiredVersion twin) (tw_Desired twin) = Some \<lparr>sr_Version = tw_DesiredVersion twin, sr_Applied = True, sr_Error = e\<rparr>"
    and e: "TrimSpace e = []" using assms(10) by blast
  let ?res = "report_of \<lparr>sr_Version = tw_DesiredVersion twin, sr_Applied = True, sr_Error = e\<rparr> (tw_Desired twin) (k 0)"
  obtain res' where rep: "ReportResult loc env (shift 1 k) user dev ?res d = (Inr (), d\<lparr>tables := (tables d)\<lparr>device_twins :=
      update_where (own_twin (owner user) (TrimSpace dev)) (applied_row res') (device_twins (tables d))\<rparr>\<rparr>)"
    and res': "cr_Version res' = desired_version r" "cr_Config res' = DeviceReportedConfig (tw_Desired twin)"
    by (rule ReportResult_applied [OF assms(1-6), where res = ?res and env = env and clock = "shift 1 k"])
      (use assms(7,9) e in \<open>simp_all add: report_of_def\<close>)
  let ?t2 = "(tables d)\<lparr>device_twins := update_where (own_twin (owner user) (TrimSpace dev)) (applied_row res') (device_twins (tables d))\<rparr>"
  let ?d2 = "d\<lparr>tables := ?t2\<rparr>" and ?r2 = "applied_row res' r"
  have own: "own_twin (owner user) (TrimSpace dev) r" using assms(3,5) by (auto simp: own_twin_def find_twin_def dest: find_Some_in_set)
  have row: "find_twin (TrimSpace dev) ?t2 = Some ?r2" by (rule find_twin_update [OF assms(3) own]) simp_all
  then have row': "find_twin (TrimSpace dev) (tables ?d2) = Some ?r2" "tr_user_id ?r2 = owner user" "faults ?d2 = []"
    using assms(1,5) by simp_all
  have layers: "scope_layers ?t2 scopes = scope_layers (tables d) scopes" for scopes
    by (induction "tables d" scopes rule: scope_layers.induct) (simp_all add: override_at_def)
  let ?twin2 = "(raised ?t2 ?r2)\<lparr>tw_Desired := tw_Desired twin\<rparr>"
  have man: "Manifest defaults env k' user dev ?d2 = (Inr ?twin2, ?d2)" for k'
    using ManifestFor_ok [of ?d2 "plain_context user dev" ?r2 defaults] row' assms(4) by (simp add: Manifest_def layers desired)
  have "0 < desired_version r"
    using assms(2,3,6) by (force simp: ctl_inv_def twin_ok_def find_twin_def dest: find_Some_in_set)
  then have "deriveSettingsState (scan_metadata ?r2) True = StatusApplied"
    using res'(1) by (simp add: deriveSettingsState_def scan_metadata_def)
  then obtain st where st: "Settings_Status env (k 5) user dev True ?d2 = (Inr st, ?d2)" "st_State st = StatusApplied"
    using Settings_Status_ok [OF row'(3,1) assms(4) row'(2)] by metis
  have "dispatchSettingsUpdate loc defaults env k True (Some (True, device)) user dev twin d = (with_status StatusApplied ?twin2, ?d2)"
    using ack rep man st by (simp add: dispatchSettingsUpdate_def dispatch_result_def)
  from that [OF this row] show thesis using assms(5) res' by simp
qed

end
