(* ===== verification/Control_Properties.thy ===== *)
theory Control_Properties
  imports Settings_Laws
begin

text \<open>
  The properties of the control plane: what the status of a twin means in every run, the manifest as the
  last setting of each field, the convergence of a device that applies its settings, and the reports that
  the store refuses.
\<close>

section \<open>Concrete tables\<close>

definition ctl_env :: pg_env where
  "ctl_env = \<lparr>pg_less = string_less, gen_random_uuid = ''event-1'', gen_random_uuid2 = ''event-2'', tx_now = Second,
     clock_timestamp = Second, go_now = Second\<rparr>"

definition fresh_ctl :: "ctl_tables db" where
  "fresh_ctl = \<lparr>tables = insert_twin ctl_env ''anna'' ''devA'' Second initial_ctl, faults = []\<rparr>"

definition applies :: device where
  "applies v c = Some \<lparr>sr_Version = v, sr_Applied = True, sr_Error = []\<rparr>"

definition quiet :: RuntimeConfig where
  "quiet = zero_config\<lparr>VADThreshold := Some 500, WakeModel := WakeModelHeyBin\<rparr>"

lemma fresh_ctl_row:
  "find_twin ''devA'' (tables fresh_ctl) = Some (fresh_twin ctl_env ''anna'' ''devA'' Second)"
  "faults fresh_ctl = []" "config_generation (tables fresh_ctl) = 1" "control_outbox (tables fresh_ctl) = []"
  "device_twins (tables fresh_ctl) = [fresh_twin ctl_env ''anna'' ''devA'' Second]"
  by (simp_all add: find_twin_def fresh_ctl_def insert_twin_def initial_ctl_def fresh_twin_def)

lemma fresh_ctl_inv: "ctl_inv loc P (tables fresh_ctl)"
  unfolding fresh_ctl_def by (simp add: insert_twin_inv ctl_inv_initial)

lemma graphic_demo: "graphic ''devA''" "graphic ''anna''"
  by (simp_all add: graphic_def)

lemma demo_names [simp]: "TrimSpace ''devA'' = ''devA''" "owner ''anna'' = ''anna''"
  using graphic_demo by (simp_all add: owner_def)

section \<open>Properties\<close>

text \<open>
  C34: What the stored settings and their status mean, in every run of the control plane, whatever fails and
  whatever the devices answer. The last reported version is at most the desired one, and no version is ahead of the
  generation; every stored configuration is valid; the status ``rejected'' is derived exactly when the desired
  revision itself was rejected last. For a device that was never heard through the plain \<open>Report\<close>, the reported
  version is at most the last reported one, what is stored as reported has only fields of the device, and
  ``applied'' is derived exactly when the desired revision itself was applied last. For the others ``applied'' says
  only that some revision was applied last and that the reported version is not behind the desired one.
\<close>

theorem settings_status_sound:
  assumes "settings_run loc defaults P d" "r \<in> set (device_twins (tables d))"
  shows "0 \<le> last_report_version r \<and> last_report_version r \<le> desired_version r
    \<and> desired_version r \<le> config_generation (tables d)
    \<and> 0 \<le> reported_version r \<and> reported_version r \<le> config_generation (tables d)
    \<and> Config_Validate loc (desired_json r) = None \<and> Config_Validate loc (reported_json r) = None
    \<and> (deriveSettingsState (scan_metadata r) online = StatusRejected \<longleftrightarrow>
         last_report_version r = desired_version r \<and> last_report_state r = StatusRejected)
    \<and> (tr_device_id r \<notin> P \<longrightarrow> reported_version r \<le> last_report_version r
         \<and> DeviceReportedConfig (reported_json r) = reported_json r
         \<and> (deriveSettingsState (scan_metadata r) online = StatusApplied \<longleftrightarrow>
              0 < desired_version r \<and> last_report_version r = desired_version r
              \<and> reported_version r = desired_version r \<and> last_report_state r = StatusApplied))
    \<and> (deriveSettingsState (scan_metadata r) online = StatusApplied \<longleftrightarrow>
         0 < reported_version r \<and> desired_version r \<le> reported_version r \<and> last_report_state r = StatusApplied)"
proof -
  have ok: "twin_ok loc (tr_device_id r \<in> P) (config_generation (tables d)) r"
    using settings_run_inv [OF assms(1)] assms(2) by (simp add: ctl_inv_def)
  then have "last_report_state r = StatusRejected \<Longrightarrow> 0 < last_report_version r" "0 \<le> desired_version r" by (auto simp: twin_ok_def)
  then have rejected: "deriveSettingsState (scan_metadata r) online = StatusRejected \<longleftrightarrow>
      last_report_version r = desired_version r \<and> last_report_state r = StatusRejected"
    and applied: "deriveSettingsState (scan_metadata r) online = StatusApplied \<longleftrightarrow>
      0 < reported_version r \<and> desired_version r \<le> reported_version r \<and> last_report_state r = StatusApplied"
    by (auto simp: deriveSettingsState_def scan_metadata_def split: option.splits)
  have "reported_version r \<le> last_report_version r \<and> DeviceReportedConfig (reported_json r) = reported_json r
      \<and> (last_report_state r = StatusApplied \<longrightarrow> reported_version r = last_report_version r)" if "tr_device_id r \<notin> P"
    using ok that by (simp add: twin_ok_def)
  moreover have "last_report_version r \<le> desired_version r" using ok by (simp add: twin_ok_def)
  ultimately have own: "reported_version r \<le> last_report_version r \<and> DeviceReportedConfig (reported_json r) = reported_json r
      \<and> (deriveSettingsState (scan_metadata r) online = StatusApplied \<longleftrightarrow> 0 < desired_version r
           \<and> last_report_version r = desired_version r \<and> reported_version r = desired_version r \<and> last_report_state r = StatusApplied)"
    if "tr_device_id r \<notin> P"
    unfolding applied using that by auto
  show ?thesis using ok rejected applied own by (simp add: twin_ok_def)
qed

lemma fresh_run: "settings_run (\<lambda>_. True) zero_config {} fresh_ctl"
proof -
  let ?d = "\<lparr>tables = initial_ctl, faults = []\<rparr>"
  have "settings_run (\<lambda>_. True) zero_config {} ?d" by (rule settings_run.start) simp
  then have run: "settings_run (\<lambda>_. True) zero_config {}
      (snd (ManifestFor zero_config ctl_env (\<lambda>_. Second) (plain_context ''anna'' ''devA'') ?d))"
    by (rule settings_run.read)
  have start: "ensureTwin ctl_env Second ''anna'' ''devA'' ?d = (Inr (), fresh_ctl)"
    by (simp add: ensureTwin_def fresh_ctl_def)
  have "ensureTwin ctl_env Second ''anna'' ''devA'' fresh_ctl = (Inr (), fresh_ctl)"
    by (rule ensureTwin_present) (simp_all add: fresh_ctl_row)
  then have "GetTwin ctl_env (\<lambda>_. Second) ''anna'' ''devA'' ?d = GetTwin ctl_env (\<lambda>_. Second) ''anna'' ''devA'' fresh_ctl"
    using start by (simp add: GetTwin_def Let_def)
  also have "\<dots> = (Inr (raised (tables fresh_ctl) (fresh_twin ctl_env ''anna'' ''devA'' Second)), fresh_ctl)"
    by (rule GetTwin_ok) (simp_all add: fresh_ctl_row, simp add: fresh_twin_def)
  finally have "snd (ManifestFor zero_config ctl_env (\<lambda>_. Second) (plain_context ''anna'' ''devA'') ?d) = fresh_ctl"
    by (simp add: ManifestFor_def resolve_ok fresh_ctl_row)
  with run show ?thesis by simp
qed

text \<open>A device reports the current generation the plain way: the report is recorded as reported, but not as the last report.\<close>

lemma plain_run:
  "\<exists>d. settings_run (\<lambda>_. True) zero_config {''devA''} d
     \<and> device_twins (tables d) = [(fresh_twin ctl_env ''anna'' ''devA'' Second)\<lparr>reported_json := quiet, reported_version := 1\<rparr>]"
proof -
  let ?r = "fresh_twin ctl_env ''anna'' ''devA'' Second"
  have own: "own_twin ''anna'' ''devA'' ?r" by (simp add: own_twin_def fresh_twin_def)
  have twin: "GetTwin ctl_env k ''anna'' ''devA'' fresh_ctl = (Inr (raised (tables fresh_ctl) ?r), fresh_ctl)" for k
    by (rule GetTwin_ok) (simp_all add: fresh_ctl_row, simp add: fresh_twin_def)
  have ens: "ensureTwin ctl_env k ''anna'' ''devA'' fresh_ctl = (Inr (), fresh_ctl)" for k
    by (rule ensureTwin_present) (simp_all add: fresh_ctl_row)
  have v: "tw_ReportedVersion (raised (tables fresh_ctl) ?r) = 0" "tw_DesiredVersion (raised (tables fresh_ctl) ?r) = 1"
    by (simp_all add: raised_def raise_version_def scan_twin_def Let_def fresh_ctl_row) (simp_all add: fresh_twin_def)
  have "Config_Validate (\<lambda>_. True) quiet = None"
    by (simp add: Config_Validate_None quiet_def zero_config_def)
  moreover have f: "find_own_twin ''anna'' ''devA'' (tables fresh_ctl) = Some ?r"
    using find_own_of_find [OF fresh_ctl_row(1)] by (simp add: fresh_twin_def)
  let ?g = "\<lambda>r. r\<lparr>reported_json := quiet, reported_version := 1, tr_updated_at := pg_ts Second\<rparr>"
  have "update_twin ctl_env ''anna'' ''devA'' ?g (tables fresh_ctl)
      = Some (1, (tables fresh_ctl)\<lparr>device_twins := update_where (own_twin ''anna'' ''devA'') ?g (device_twins (tables fresh_ctl))\<rparr>)"
    by (rule update_twin_same [OF fresh_ctl_inv f]) simp
  ultimately have "device_twins (tables (snd (Report (\<lambda>_. True) ctl_env (\<lambda>_. Second) ''anna'' ''devA'' 1 quiet fresh_ctl)))
      = update_where (own_twin ''anna'' ''devA'') ?g [?r]"
    using ens twin v fresh_ctl_row(2,5) by (simp add: Report_def pg_Report_def Let_def del: One_nat_def)
  moreover have "pg_ts Second = tr_updated_at ?r" by (simp add: fresh_twin_def pg_ts_def Second_def)
  then have "update_where (own_twin ''anna'' ''devA'') ?g [?r] = [?r\<lparr>reported_json := quiet, reported_version := 1\<rparr>]"
    using own by (simp add: update_where_def)
  ultimately have "device_twins (tables (snd (Report (\<lambda>_. True) ctl_env (\<lambda>_. Second) ''anna'' ''devA'' 1 quiet fresh_ctl)))
      = [?r\<lparr>reported_json := quiet, reported_version := 1\<rparr>]" by simp
  with settings_run.plain [OF fresh_run, where dev = "''devA''"] show ?thesis by fastforce
qed

theorem settings_status_sound_witness:
  "\<exists>d r. settings_run (\<lambda>_. True) zero_config {''devA''} d \<and> device_twins (tables d) = [r] \<and> reported_version r = 1
     \<and> last_report_version r \<le> desired_version r \<and> desired_version r \<le> config_generation (tables d)
     \<and> deriveSettingsState (scan_metadata r) True \<noteq> StatusApplied"
proof -
  let ?r = "(fresh_twin ctl_env ''anna'' ''devA'' Second)\<lparr>reported_json := quiet, reported_version := 1\<rparr>"
  obtain d where d: "settings_run (\<lambda>_. True) zero_config {''devA''} d" "device_twins (tables d) = [?r]" using plain_run by blast
  then have "?r \<in> set (device_twins (tables d))" by simp
  note s = settings_status_sound [OF d(1) this, of True]
  have "last_report_state ?r \<noteq> StatusApplied" by (simp add: fresh_twin_def)
  then have "deriveSettingsState (scan_metadata ?r) True \<noteq> StatusApplied" using s by blast
  moreover have "last_report_version ?r \<le> desired_version ?r" "desired_version ?r \<le> config_generation (tables d)" using s by blast+
  ultimately show ?thesis using d by (intro exI [of _ d] exI [of _ ?r]) simp
qed

text \<open>
  C35: The configuration of a manifest is the layered one: every field has the value of the last layer that
  sets it, of the defaults, the global, tenant, plan and user overrides that exist, and the desired
  configuration of the device.
\<close>

theorem manifest_layers:
  assumes "ManifestFor defaults env clock rc d = (Inr twin, d')"
  shows "\<exists>r. find_twin (TrimSpace (rc_DeviceID rc)) (tables d') = Some r \<and> tr_user_id r = owner (rc_UserID rc)
    \<and> tw_Desired twin = layered (defaults # scope_layers (tables d') (scopes_of rc) @ [desired_json r])"
proof -
  obtain t d1 c where get: "GetTwin env clock (rc_UserID rc) (rc_DeviceID rc) d = (Inr t, d1)"
    and res: "resolve (scopes_of rc) defaults d1 = (Inr c, d')" and twin: "twin = t\<lparr>tw_Desired := merge c (tw_Desired t)\<rparr>"
    using assms by (auto simp: ManifestFor_def tx_Inr)
  have c: "c = foldl merge defaults (scope_layers (tables d') (scopes_of rc))" and t: "tables d' = tables d1"
    using resolve_layers [OF res] by simp_all
  from get obtain r where "find_twin (TrimSpace (rc_DeviceID rc)) (tables d1) = Some r" "tr_user_id r = owner (rc_UserID rc)"
    "tw_Desired t = desired_json r" by (rule GetTwin_Inr)
  then show ?thesis
    using c t twin foldl_merge_layered [of defaults "scope_layers (tables d') (scopes_of rc) @ [desired_json r]"] by simp
qed

theorem manifest_layers_witness:
  "tw_Desired ((raised (tables fresh_ctl) (fresh_twin ctl_env ''anna'' ''devA'' Second))\<lparr>tw_Desired := quiet\<rparr>)
     = layered [quiet, zero_config]"
proof -
  let ?r = "fresh_twin ctl_env ''anna'' ''devA'' Second" and ?rc = "plain_context ''anna'' ''devA''"
  have none: "scope_layers (tables fresh_ctl) (scopes_of ?rc) = []"
    by (simp add: scopes_of_def override_at_def fresh_ctl_def insert_twin_def initial_ctl_def)
  have "ManifestFor quiet ctl_env (\<lambda>_. Second) ?rc fresh_ctl = (Inr ((raised (tables fresh_ctl) ?r)\<lparr>tw_Desired := quiet\<rparr>), fresh_ctl)"
    using ManifestFor_ok [of fresh_ctl ?rc ?r quiet] fresh_ctl_row none
    by (simp add: config_merge.right_neutral fresh_twin_def)
  from manifest_layers [OF this] show ?thesis using none fresh_ctl_row(1) by (auto simp: fresh_twin_def)
qed

text \<open>
  C36: A change of the settings converges. When no call fails, the device of the owner is online and
  applies what it is sent, and the merged configuration and the defaults are valid, the update ends with
  the status ``applied'': the row of the device holds the merged configuration as desired at the new
  generation, and reports the same version with the device's part of the manifest that was sent.
\<close>

theorem update_converges:
  assumes "faults d = []" "ctl_inv loc P (tables d)" "find_twin (TrimSpace dev) (tables d) = Some r" "TrimSpace dev \<noteq> []"
    and "tr_user_id r = owner user" "config_generation (tables d) < int64_max"
    and "gen_random_uuid env \<notin> ev_ID ` set (control_outbox (tables d))"
    and "Config_Validate loc (merge (desired_json r) patch) = None" "Config_Validate loc defaults = None"
    and "\<And>v c. \<exists>e. device v c = Some \<lparr>sr_Version = v, sr_Applied = True, sr_Error = e\<rparr> \<and> TrimSpace e = []"
  shows "\<exists>twin st d' r'. UpdateDeviceSettings loc defaults env clock True (Some (True, device)) online user dev patch d = (Inr (twin, st), d')
    \<and> st_State st = StatusApplied \<and> tw_Status twin = StatusApplied
    \<and> find_twin (TrimSpace dev) (tables d') = Some r' \<and> desired_json r' = merge (desired_json r) patch
    \<and> desired_version r' = config_generation (tables d) + 1 \<and> reported_version r' = desired_version r'
    \<and> reported_json r' = DeviceReportedConfig (tw_Desired twin)"
proof -
  obtain t1 r1 twin where set_run: "SetDesired loc defaults env clock user dev patch d = (Inr twin, d\<lparr>tables := t1\<rparr>)"
    and inv1: "ctl_inv loc P t1" and r1: "find_twin (TrimSpace dev) t1 = Some r1" "tr_user_id r1 = owner user"
      "desired_json r1 = merge (desired_json r) patch" "desired_version r1 = config_generation (tables d) + 1"
      "config_generation t1 = config_generation (tables d) + 1" "last_report_version r1 < desired_version r1 \<and> reported_version r1 \<le> desired_version r1"
    and twin: "tw_DesiredVersion twin = desired_version r1"
      "tw_Desired twin = merge (foldl merge defaults (scope_layers t1 (scopes_of (plain_context user dev)))) (desired_json r1)"
    by (rule SetDesired_ok [OF assms(1-8)])
  have "\<forall>c \<in> set (scope_layers t1 (scopes_of (plain_context user dev))). Config_Validate loc c = None"
    using scope_layers_valid [OF inv1] by blast
  then have valid: "Config_Validate loc (tw_Desired twin) = None"
    unfolding twin using assms(8,9) r1(3) by (simp add: merge_valid foldl_merge_valid)
  obtain t2 r2 twin2 where disp: "dispatchSettingsUpdate loc defaults env (shift 5 clock) True (Some (True, device)) user dev twin (d\<lparr>tables := t1\<rparr>)
      = (with_status StatusApplied twin2, d\<lparr>tables := t2\<rparr>)"
    and r2: "find_twin (TrimSpace dev) t2 = Some r2" "tr_user_id r2 = owner user" "desired_json r2 = desired_json r1"
      "desired_version r2 = desired_version r1" "reported_version r2 = desired_version r1"
      "reported_json r2 = DeviceReportedConfig (tw_Desired twin)" "last_report_state r2 = StatusApplied"
    and twin2: "tw_Desired twin2 = tw_Desired twin"
    by (rule dispatch_applied [of "d\<lparr>tables := t1\<rparr>" loc P dev r1 user twin defaults device env "shift 5 clock"])
      (use assms(1,4,10) inv1 r1 twin valid in simp_all)
  have "0 < desired_version r1" using r1(4) assms(2) by (simp add: ctl_inv_def)
  then have state: "deriveSettingsState (scan_metadata r2) online = StatusApplied"
    using r2 by (simp add: deriveSettingsState_def scan_metadata_def)
  have "faults (d\<lparr>tables := t2\<rparr>) = []" "find_twin (TrimSpace dev) (tables (d\<lparr>tables := t2\<rparr>)) = Some r2"
    using assms(1) r2(1) by simp_all
  then obtain st where st: "Settings_Status env (clock 11) user dev online (d\<lparr>tables := t2\<rparr>) = (Inr st, d\<lparr>tables := t2\<rparr>)"
    "st_State st = StatusApplied" using Settings_Status_ok [OF _ _ assms(4) r2(2)] state by metis
  then have "UpdateDeviceSettings loc defaults env clock True (Some (True, device)) online user dev patch d
      = (Inr (with_status StatusApplied (with_status StatusApplied twin2), st), d\<lparr>tables := t2\<rparr>)"
    using set_run disp by (simp add: UpdateDeviceSettings_def)
  then show ?thesis
    using st(2) r2 r1 twin2 by (auto simp: with_status_def)
qed

theorem update_converges_witness:
  "\<exists>twin st d' r'. UpdateDeviceSettings (\<lambda>_. True) zero_config ctl_env (\<lambda>_. Second) True (Some (True, applies)) True ''anna'' ''devA'' quiet
       fresh_ctl = (Inr (twin, st), d')
    \<and> st_State st = StatusApplied \<and> find_twin ''devA'' (tables d') = Some r' \<and> desired_version r' = 2 \<and> reported_version r' = 2"
proof -
  let ?r = "fresh_twin ctl_env ''anna'' ''devA'' Second"
  have "Config_Validate (\<lambda>_. True) quiet = None" by (simp add: Config_Validate_None quiet_def zero_config_def)
  then have "Config_Validate (\<lambda>_. True) (merge (desired_json ?r) quiet) = None"
    by (simp add: fresh_twin_def config_merge.left_neutral)
  moreover have "tr_user_id ?r = owner ''anna''" by (simp add: fresh_twin_def)
  ultimately show ?thesis
    using update_converges [where d = fresh_ctl and loc = "\<lambda>_. True" and dev = "''devA''" and r = ?r and user = "''anna''"
        and env = ctl_env and patch = quiet and defaults = zero_config and device = applies and clock = "\<lambda>_. Second" and online = True]
      fresh_ctl_row fresh_ctl_inv by (auto simp: int64_max_def applies_def)
qed

text \<open>
  C37: Reconciliation cannot record anything for a device whose row is behind the generation. The manifest
  raises the desired version to the generation, which every change of any device and of any override
  advances, and the device acknowledges that version; the report is compared with the row's own desired
  version and is refused as ahead of it. So, whatever the device answers, the session leaves the tables as
  they were and the twin never shows that the device applied the settings. A new device is in this case
  from the start, because the first generation is 1.
\<close>

theorem reconcile_refused:
  assumes "faults d = []" "find_twin (TrimSpace (rc_DeviceID rc)) (tables d) = Some r" "TrimSpace (rc_DeviceID rc) \<noteq> []"
    and "tr_user_id r = owner (rc_UserID rc)" "desired_version r < config_generation (tables d)"
  shows "reconcileSettings loc defaults env clock supports device rc d = d"
proof -
  let ?twin = "(raised (tables d) r)\<lparr>tw_Desired := merge (foldl merge defaults (scope_layers (tables d) (scopes_of rc))) (desired_json r)\<rparr>"
  have "tw_DesiredVersion ?twin = config_generation (tables d)" using assms(5) by (simp add: raised_version)
  then have "snd (ReportResult loc env (shift 2 clock) (rc_UserID rc) (rc_DeviceID rc) (report_of result (tw_Desired ?twin) (clock 1)) d) = d"
    if "sr_Version result = tw_DesiredVersion ?twin" for result
    using that assms by (intro ReportResult_ahead) (simp_all add: report_of_def Let_def)
  then show ?thesis
    by (simp add: reconcileSettings_def ManifestFor_ok [OF assms(1-4)] split: option.split)
qed

theorem reconcile_refused_witness:
  "reconcileSettings (\<lambda>_. True) quiet ctl_env (\<lambda>_. Second) True applies (plain_context ''anna'' ''devA'') fresh_ctl = fresh_ctl"
  by (rule reconcile_refused) (simp_all add: fresh_ctl_row, simp_all add: fresh_twin_def)

end
