(* ===== verification/Realtime.thy ===== *)
theory Realtime
  imports Go_Prelude
begin

text \<open>
  Realtime voice turns: the detector that decides when a speaker has finished
  (\<open>realtime/turn_detector.go\<close>) and the segmenter that cuts a streamed reply into clauses for
  speech synthesis (\<open>realtime/segmenter.go\<close>), with the part of the streaming goroutine that
  drives it (\<open>server/streaming.go\<close>). A slice expression out of range panics in Go; the segmenter
  therefore returns an option, with \<open>None\<close> for a panic. The lemmas give the equations the
  properties at the end use: a cut falls between two runes of a valid text, and cutting and
  trimming keep every visible rune.
\<close>

section \<open>Turn detector\<close>

record TurnDetectorConfig =
  MinSpeechMS :: int
  MinSilenceMS :: int
  BaseSilenceMS :: int
  MaxSilenceMS :: int
  ShortUtteranceRunes :: int
  LongUtteranceRunes :: int
  ShortExtraMS :: int
  LongReductionMS :: int
  StableReductionMS :: int
  TerminalReductionMS :: int

definition DefaultTurnDetectorConfig :: TurnDetectorConfig where
  "DefaultTurnDetectorConfig =
     \<lparr>MinSpeechMS = 250, MinSilenceMS = 350, BaseSilenceMS = 800, MaxSilenceMS = 1400,
      ShortUtteranceRunes = 8, LongUtteranceRunes = 32, ShortExtraMS = 300,
      LongReductionMS = 150, StableReductionMS = 100, TerminalReductionMS = 200\<rparr>"

record TurnSignal =
  PartialText :: string
  Stable :: bool
  SpeechDurationMS :: int
  SilenceMS :: int

record TurnDecision =
  Finalize :: bool
  RequiredSilenceMS :: int
  Reason :: string

text \<open>The detector holds nothing but its configuration.\<close>

type_synonym TurnDetector = TurnDetectorConfig

definition NewTurnDetector :: "TurnDetectorConfig \<Rightarrow> TurnDetector" where
  "NewTurnDetector config0 =
     (let defaults = DefaultTurnDetectorConfig;
          config = config0;
          config = (if MinSpeechMS config \<le> 0 then config\<lparr>MinSpeechMS := MinSpeechMS defaults\<rparr> else config);
          config = (if MinSilenceMS config \<le> 0 then config\<lparr>MinSilenceMS := MinSilenceMS defaults\<rparr> else config);
          config = (if BaseSilenceMS config \<le> 0 then config\<lparr>BaseSilenceMS := BaseSilenceMS defaults\<rparr> else config);
          config = (if MaxSilenceMS config < BaseSilenceMS config
                    then config\<lparr>MaxSilenceMS := MaxSilenceMS defaults\<rparr> else config);
          config = (if ShortUtteranceRunes config \<le> 0
                    then config\<lparr>ShortUtteranceRunes := ShortUtteranceRunes defaults\<rparr> else config);
          config = (if LongUtteranceRunes config \<le> ShortUtteranceRunes config
                    then config\<lparr>LongUtteranceRunes := LongUtteranceRunes defaults\<rparr> else config);
          config = (if ShortExtraMS config \<le> 0 then config\<lparr>ShortExtraMS := ShortExtraMS defaults\<rparr> else config);
          config = (if LongReductionMS config \<le> 0
                    then config\<lparr>LongReductionMS := LongReductionMS defaults\<rparr> else config);
          config = (if StableReductionMS config \<le> 0
                    then config\<lparr>StableReductionMS := StableReductionMS defaults\<rparr> else config);
          config = (if TerminalReductionMS config \<le> 0
                    then config\<lparr>TerminalReductionMS := TerminalReductionMS defaults\<rparr> else config)
      in config)"

text \<open>
  \<open>hasTerminalPunctuation\<close>. The last rune of the trimmed text is one of the six marks, in ASCII
  or the full-width form. \<open>utf8.DecodeLastRuneInString\<close> decodes backwards; it gives one of these
  marks exactly when the bytes of the mark end the text.
\<close>

definition ends_with :: "string \<Rightarrow> string \<Rightarrow> bool" where
  "ends_with p s \<longleftrightarrow> length p \<le> length s \<and> drop (length s - length p) s = p"

definition terminal_marks :: "string list" where
  "terminal_marks =
     [''.'', ''?'', ''!'', map char_of [227, 128, 130 :: nat], map char_of [239, 188, 159 :: nat],
      map char_of [239, 188, 129 :: nat]]"

definition hasTerminalPunctuation :: "string \<Rightarrow> bool" where
  "hasTerminalPunctuation text0 =
     (let txt = TrimSpace text0
      in if txt = '''' then False else list_ex (\<lambda>m. ends_with m txt) terminal_marks)"

definition clampInt :: "int \<Rightarrow> int \<Rightarrow> int \<Rightarrow> int" where
  "clampInt x minimum maximum =
     (if x < minimum then minimum else if x > maximum then maximum else x)"

text \<open>The silence demanded of a transcript, before and after clamping.\<close>

definition required_raw :: "TurnDetector \<Rightarrow> TurnSignal \<Rightarrow> string \<Rightarrow> int" where
  "required_raw d signal txt =
     (let required = BaseSilenceMS d;
          n = int (RuneCountInString txt);
          required = (if n \<le> ShortUtteranceRunes d then wrap64 (required + ShortExtraMS d)
                      else if n \<ge> LongUtteranceRunes d then wrap64 (required - LongReductionMS d)
                      else required);
          required = (if Stable signal then wrap64 (required - StableReductionMS d) else required);
          required = (if hasTerminalPunctuation txt then wrap64 (required - TerminalReductionMS d)
                      else required)
      in required)"

definition Decide :: "TurnDetector \<Rightarrow> TurnSignal \<Rightarrow> TurnDecision" where
  "Decide d signal =
     (if SpeechDurationMS signal < MinSpeechMS d
      then \<lparr>Finalize = False, RequiredSilenceMS = BaseSilenceMS d, Reason = ''minimum_speech_not_met''\<rparr>
      else let txt = TrimSpace (PartialText signal)
           in if txt = ''''
              then \<lparr>Finalize = False, RequiredSilenceMS = MaxSilenceMS d, Reason = ''no_partial_transcript''\<rparr>
              else let required = clampInt (required_raw d signal txt) (MinSilenceMS d) (MaxSilenceMS d)
                   in if SilenceMS signal \<ge> required
                      then \<lparr>Finalize = True, RequiredSilenceMS = required, Reason = ''dynamic_silence_met''\<rparr>
                      else \<lparr>Finalize = False, RequiredSilenceMS = required, Reason = ''waiting_for_silence''\<rparr>)"

section \<open>Segmenter\<close>

record Segmenter =
  buffer :: string
  first :: bool
  minFirstRunes :: int
  minRunes :: int
  maxRunes :: int

definition NewSegmenter :: Segmenter where
  "NewSegmenter = \<lparr>buffer = '''', first = True, minFirstRunes = 8, minRunes = 12, maxRunes = 120\<rparr>"

text \<open>\<open>utf8.RuneLen\<close>: the bytes of the encoding of a rune, whatever bytes it was decoded from.\<close>

definition RuneLen :: "nat \<Rightarrow> int" where
  "RuneLen r = (if r < 128 then 1 else if r < 2048 then 2
                else if 55296 \<le> r \<and> r \<le> 57343 then -1
                else if r < 65536 then 3 else if r \<le> 1114111 then 4 else -1)"

definition strong :: "nat \<Rightarrow> bool" where
  "strong r \<longleftrightarrow> r \<in> set [46, 33, 63, 12290, 65281, 65311, 10]"

definition medium :: "nat \<Rightarrow> bool" where
  "medium r \<longleftrightarrow> r \<in> set [59, 65307, 58, 65306]"

definition comma :: "nat \<Rightarrow> bool" where
  "comma r \<longleftrightarrow> r \<in> set [44, 65292]"

text \<open>The test of one rune, the \<open>n\<close>-th of the text, in the order of the source.\<close>

definition at_boundary :: "Segmenter \<Rightarrow> int \<Rightarrow> nat \<Rightarrow> bool" where
  "at_boundary s n r =
     (let mn = (if first s then minFirstRunes s else minRunes s)
      in (strong r \<and> n \<ge> mn) \<or> (medium r \<and> n \<ge> mn)
         \<or> (first s \<and> comma r \<and> n \<ge> minFirstRunes s) \<or> n \<ge> maxRunes s)"

text \<open>\<open>for i, r := range text\<close>: byte offset, number of runes seen, remaining runes.\<close>

fun boundary_from :: "Segmenter \<Rightarrow> int \<Rightarrow> int \<Rightarrow> (nat \<times> string) list \<Rightarrow> int" where
  "boundary_from s i n [] = 0"
| "boundary_from s i n ((r, b) # rs) =
     (if at_boundary s (n + 1) r then i + RuneLen r
      else boundary_from s (i + int (length b)) (n + 1) rs)"

definition findBoundary :: "Segmenter \<Rightarrow> string \<Rightarrow> int" where
  "findBoundary s txt = boundary_from s 0 0 (runes txt)"

text \<open>\<open>if seg != "" { out = append(out, seg); s.first = false }\<close>\<close>

definition emit_seg :: "Segmenter \<Rightarrow> string list \<Rightarrow> string \<Rightarrow> Segmenter \<times> string list" where
  "emit_seg s out seg = (if seg \<noteq> '''' then (s\<lparr>first := False\<rparr>, out @ [seg]) else (s, out))"

text \<open>
  The loop of \<open>cut\<close> on the local variables \<open>text\<close> and \<open>out\<close>; \<open>text[:cut]\<close> panics when the cut is
  outside the text. Every further round has a shorter text.
\<close>

function cut_loop :: "Segmenter \<Rightarrow> bool \<Rightarrow> string \<Rightarrow> string list \<Rightarrow> (Segmenter \<times> string \<times> string list) option" where
  "cut_loop s flush txt out =
     (let c = findBoundary s txt
      in if c = 0
         then if \<not> flush then Some (s, txt, out)
              else (case emit_seg s out (TrimSpace txt) of (s, out) \<Rightarrow> Some (s, '''', out))
         else if c < 0 \<or> c > int (length txt) then None
         else (case emit_seg s out (TrimSpace (take (nat c) txt)) of (s, out) \<Rightarrow>
                let txt = drop (nat c) txt
                in if TrimSpace txt = '''' then Some (s, '''', out) else cut_loop s flush txt out))"
  by pat_completeness auto
termination
  by (relation "measure (\<lambda>(s, flush, txt, out). length txt)") auto

declare cut_loop.simps [simp del]

definition cut :: "Segmenter \<Rightarrow> bool \<Rightarrow> (Segmenter \<times> string list) option" where
  "cut s flush =
     (let txt = buffer s
      in if TrimSpace txt = ''''
         then Some (if flush then s\<lparr>buffer := ''''\<rparr> else s, [])
         else (case cut_loop s flush txt [] of
                 None \<Rightarrow> None
               | Some (s, txt, out) \<Rightarrow> Some (s\<lparr>buffer := txt\<rparr>, out)))"

definition Push :: "Segmenter \<Rightarrow> string \<Rightarrow> (Segmenter \<times> string list) option" where
  "Push s delta = (if delta = '''' then Some (s, []) else cut (s\<lparr>buffer := buffer s @ delta\<rparr>) False)"

definition Flush :: "Segmenter \<Rightarrow> (Segmenter \<times> string list) option" where
  "Flush s = cut s True"

text \<open>
  The goroutine of \<open>processStreamingReply\<close> without the events of the user interface: the segments
  of every delta in order, then, when the agent ended without an error, the flushed rest. The
  channel between the goroutines keeps the order.
\<close>

fun push_all :: "Segmenter \<Rightarrow> string list \<Rightarrow> (Segmenter \<times> string list) option" where
  "push_all s [] = Some (s, [])"
| "push_all s (delta # deltas) =
     (case Push s delta of
        None \<Rightarrow> None
      | Some (s, segs) \<Rightarrow> map_option (\<lambda>(s, segs'). (s, segs @ segs')) (push_all s deltas))"

definition stream_segments :: "string list \<Rightarrow> bool \<Rightarrow> string list option" where
  "stream_segments deltas agent_ok =
     (case push_all NewSegmenter deltas of
        None \<Rightarrow> None
      | Some (s, segs) \<Rightarrow>
          if agent_ok then map_option (\<lambda>(s, rest). segs @ rest) (Flush s) else Some segs)"


section \<open>Runes of valid texts\<close>

lemma RuneLen_two: "194 \<le> x \<Longrightarrow> x \<le> 223 \<Longrightarrow> 128 \<le> y \<Longrightarrow> y \<le> 191 \<Longrightarrow> RuneLen ((x - 192) * 64 + (y - 128)) = 2"
  unfolding RuneLen_def by auto

lemma RuneLen_three:
  assumes "224 \<le> x" "x \<le> 239" "(if x = 224 then 160 else 128) \<le> y" "y \<le> (if x = 237 then 159 else 191)"
    "128 \<le> z" "z \<le> 191"
  shows "RuneLen ((x - 224) * 4096 + (y - 128) * 64 + (z - 128)) = 3"
proof -
  have "2048 \<le> (x - 224) * 4096 + (y - 128) * 64 + (z - 128)" using assms by (cases "x = 224") auto
  moreover have "(x - 224) * 4096 + (y - 128) * 64 + (z - 128) < 65536"
    using assms by (auto split: if_splits)
  moreover have "\<not> (55296 \<le> (x - 224) * 4096 + (y - 128) * 64 + (z - 128)
      \<and> (x - 224) * 4096 + (y - 128) * 64 + (z - 128) \<le> 57343)"
    using assms by (cases "x = 237"; cases "x < 237") auto
  ultimately show ?thesis by (simp add: RuneLen_def)
qed

lemma RuneLen_four:
  assumes "240 \<le> x" "x \<le> 244" "(if x = 240 then 144 else 128) \<le> y" "y \<le> (if x = 244 then 143 else 191)"
    "128 \<le> z" "z \<le> 191" "128 \<le> u" "u \<le> 191"
  shows "RuneLen ((x - 240) * 262144 + (y - 128) * 4096 + (z - 128) * 64 + (u - 128)) = 4"
proof -
  have "65536 \<le> (x - 240) * 262144 + (y - 128) * 4096 + (z - 128) * 64 + (u - 128)"
    using assms by (cases "x = 240") auto
  moreover have "(x - 240) * 262144 + (y - 128) * 4096 + (z - 128) * 64 + (u - 128) \<le> 1114111"
    using assms by (cases "x = 244") auto
  ultimately show ?thesis by (simp add: RuneLen_def)
qed

lemma RuneLen_decode:
  assumes "s \<noteq> []" "decode_rune s \<noteq> (rune_error, 1)"
  shows "RuneLen (fst (decode_rune s)) = int (snd (decode_rune s))"
  using assms(1)
proof (cases rule: decode_rune_cases)
  case ascii
  then show ?thesis by (simp add: RuneLen_def)
next
  case two
  then show ?thesis
    using RuneLen_two [of "of_char (s ! 0)" "of_char (s ! 1)"] by (simp add: seq2_def byte_in_def)
next
  case three
  then show ?thesis
    using RuneLen_three [of "of_char (s ! 0)" "of_char (s ! 1)" "of_char (s ! 2)"]
    by (simp add: seq3_def byte_in_def)
next
  case four
  then show ?thesis
    using RuneLen_four [of "of_char (s ! 0)" "of_char (s ! 1)" "of_char (s ! 2)" "of_char (s ! 3)"]
    by (simp add: seq4_def byte_in_def)
qed (use assms(2) in simp)

lemma RuneLen_runes:
  "ValidString s \<Longrightarrow> (r, b) \<in> set (runes s) \<Longrightarrow> RuneLen r = int (length b) \<and> 0 < length b"
proof (induction s rule: runes.induct)
  case (1 s)
  show ?case
  proof (cases "s = []")
    case False
    let ?w = "snd (decode_rune s)"
    have "decode_rune s \<noteq> (rune_error, 1)" and v: "ValidString (drop ?w s)"
      using "1.prems" ValidString_nonempty [OF False] by auto
    then have "RuneLen (fst (decode_rune s)) = int ?w" using False by (simp add: RuneLen_decode)
    then show ?thesis
      using False "1.prems" "1.IH" [OF False refl v] decode_rune_width [OF False]
      by (auto simp: runes_nonempty)
  qed (use "1.prems" in simp)
qed

text \<open>The visible runes of a text: everything but white space.\<close>

definition visible_runes :: "string \<Rightarrow> (nat \<times> string) list" where
  "visible_runes s = filter (\<lambda>rb. \<not> IsSpace (fst rb)) (runes s)"

definition visible :: "string \<Rightarrow> string" where
  "visible s = concat (map snd (visible_runes s))"

lemma filter_trim_by: "filter (\<lambda>x. \<not> P x) (trim_by P xs) = filter (\<lambda>x. \<not> P x) xs"
proof -
  have d: "filter (\<lambda>x. \<not> P x) (dropWhile P ys) = filter (\<lambda>x. \<not> P x) ys" for ys
    by (induction ys) auto
  show ?thesis by (simp add: trim_by_def rev_filter [symmetric] d)
qed

lemma visible_TrimSpace [simp]: "visible (TrimSpace s) = visible s"
  by (simp add: visible_def visible_runes_def runes_trim filter_trim_by)

lemma visible_Nil [simp]: "visible [] = []"
  by (simp add: visible_def visible_runes_def)

lemma visible_cut: "visible (take (rune_prefix n s) s) @ visible (drop (rune_prefix n s) s) = visible s"
  unfolding visible_def visible_runes_def runes_cut
  by (metis append_take_drop_id concat_append filter_append map_append)

lemma visible_append: "ValidString a \<Longrightarrow> visible (a @ b) = visible a @ visible b"
  by (simp add: visible_def visible_runes_def runes_append_valid)

lemma visible_blank: "TrimSpace s = [] \<Longrightarrow> visible s = []"
  by (metis visible_TrimSpace visible_Nil)

lemma runes_TrimSpace_le: "length (runes (TrimSpace s)) \<le> length (runes s)"
proof -
  obtain m n where "runes (TrimSpace s) = take m (drop n (runes s))"
    unfolding runes_trim using trim_by_take_drop by blast
  then show ?thesis by simp
qed

section \<open>Boundaries\<close>

lemma boundary_from_cases:
  assumes "\<forall>(r, b) \<in> set rs. RuneLen r = int (length b) \<and> 0 < length b" "0 \<le> i"
  shows "(boundary_from s i n rs = 0 \<and> (\<forall>k < length rs. n + int k + 1 < maxRunes s))
    \<or> (\<exists>k < length rs. boundary_from s i n rs = i + int (length (concat (map snd (take (Suc k) rs))))
         \<and> (\<forall>j < k. n + int j + 1 < maxRunes s))"
  using assms
proof (induction rs arbitrary: i n)
  case (Cons rb rs)
  obtain r b where rb: "rb = (r, b)" by (cases rb)
  show ?case
  proof (cases "at_boundary s (n + 1) r")
    case True
    then show ?thesis using Cons.prems rb by (intro disjI2 exI [of _ 0]) auto
  next
    case False
    then have m: "n + 1 < maxRunes s" by (auto simp: at_boundary_def Let_def)
    have eq: "boundary_from s i n (rb # rs) = boundary_from s (i + int (length b)) (n + 1) rs"
      using False rb by simp
    have "\<forall>(r, b) \<in> set rs. RuneLen r = int (length b) \<and> 0 < length b" using Cons.prems by auto
    from Cons.IH [OF this, of "i + int (length b)" "n + 1"] Cons.prems
    consider (none) "boundary_from s (i + int (length b)) (n + 1) rs = 0"
        "\<forall>k < length rs. n + 1 + int k + 1 < maxRunes s"
      | (found) k where "k < length rs"
        "boundary_from s (i + int (length b)) (n + 1) rs
           = i + int (length b) + int (length (concat (map snd (take (Suc k) rs))))"
        "\<forall>j < k. n + 1 + int j + 1 < maxRunes s"
      by auto
    then show ?thesis
    proof cases
      case none
      have "n + int k + 1 < maxRunes s" if "k < length (rb # rs)" for k
        using none(2) m that by (cases k) (auto simp: algebra_simps)
      then show ?thesis using none(1) eq by simp
    next
      case found
      have "n + int j + 1 < maxRunes s" if "j < Suc k" for j
        using found(3) m that by (cases j) (auto simp: algebra_simps)
      then show ?thesis
        using found(1,2) eq rb by (intro disjI2 exI [of _ "Suc k"]) auto
    qed
  qed
qed simp

lemma findBoundary_valid:
  assumes "ValidString txt" "0 < maxRunes s"
  obtains (none) "findBoundary s txt = 0" "int (length (runes txt)) < maxRunes s"
  | (found) n where "0 < n" "n \<le> length (runes txt)" "int n \<le> maxRunes s"
      "findBoundary s txt = int (rune_prefix n txt)" "0 < rune_prefix n txt"
proof -
  have ok: "\<forall>(r, b) \<in> set (runes txt). RuneLen r = int (length b) \<and> 0 < length b"
    using RuneLen_runes [OF assms(1)] by blast
  from boundary_from_cases [OF ok, of 0 s 0]
  consider "findBoundary s txt = 0" "\<forall>k < length (runes txt). int k + 1 < maxRunes s"
    | k where "k < length (runes txt)" "findBoundary s txt = int (rune_prefix (Suc k) txt)"
        "\<forall>j < k. int j + 1 < maxRunes s"
    unfolding findBoundary_def rune_prefix_def by auto
  then show thesis
  proof cases
    case 1
    then have "int (length (runes txt)) < maxRunes s"
      using assms(2) by (cases "length (runes txt)") (auto dest: spec [of _ "length (runes txt) - 1"])
    then show thesis using none 1 by blast
  next
    case 2
    have "int (Suc k) \<le> maxRunes s" using 2(3) assms(2) by (cases k) auto
    moreover have "0 < rune_prefix (Suc k) txt"
    proof -
      obtain r b rs where "runes txt = (r, b) # rs" using 2(1) by (cases "runes txt") auto
      then show ?thesis using ok by (auto simp: rune_prefix_def)
    qed
    ultimately show thesis using found [of "Suc k"] 2 by auto
  qed
qed

section \<open>Cutting\<close>

text \<open>What is handed to speech synthesis: not empty, trimmed, at most \<open>m\<close> runes.\<close>

definition segment_ok :: "int \<Rightarrow> string \<Rightarrow> bool" where
  "segment_ok m seg \<longleftrightarrow> seg \<noteq> '''' \<and> TrimSpace seg = seg \<and> int (RuneCountInString seg) \<le> m"

text \<open>The result of a round of cutting \<open>txt\<close> into \<open>segs\<close> with the rest \<open>rest\<close>.\<close>

definition cut_spec :: "Segmenter \<Rightarrow> bool \<Rightarrow> string \<Rightarrow> Segmenter \<Rightarrow> string list \<Rightarrow> string \<Rightarrow> bool" where
  "cut_spec s flush txt s' segs rest \<longleftrightarrow>
     s' = s\<lparr>first := first s', buffer := buffer s'\<rparr> \<and> ValidString rest
     \<and> concat (map visible segs) @ visible rest = visible txt
     \<and> (flush \<longrightarrow> rest = '''')
     \<and> (TrimSpace rest = '''' \<or> findBoundary s' rest = 0 \<and> int (RuneCountInString rest) < maxRunes s)
     \<and> list_all (segment_ok (maxRunes s)) segs"

lemma findBoundary_Nil [simp]: "findBoundary s [] = 0"
  by (simp add: findBoundary_def)

lemma findBoundary_buffer [simp]: "findBoundary (s\<lparr>buffer := b\<rparr>) txt = findBoundary s txt"
proof -
  have "boundary_from (s\<lparr>buffer := b\<rparr>) i n rs = boundary_from s i n rs" for i n rs
    by (induction rs arbitrary: i n) (auto simp: at_boundary_def)
  then show ?thesis by (simp add: findBoundary_def)
qed

lemma emit_seg_cases:
  "\<exists>f. emit_seg s out seg = (s\<lparr>first := f\<rparr>, out @ filter (\<lambda>g. g \<noteq> '''') [seg])"
  by (auto simp: emit_seg_def intro: exI [of _ "first s"])

lemma segment_ok_TrimSpace:
  "int (length (runes g)) \<le> m \<Longrightarrow> list_all (segment_ok m) (filter (\<lambda>g. g \<noteq> '''') [TrimSpace g])"
  using runes_TrimSpace_le [of g] by (simp add: segment_ok_def RuneCountInString_def)

lemma visible_emitted [simp]: "concat (map visible (filter (\<lambda>g. g \<noteq> '''') [TrimSpace g])) = visible g"
  using visible_blank [of g] by simp

lemma cut_spec_trans:
  assumes "cut_spec (s\<lparr>first := f\<rparr>) flush (drop (rune_prefix n txt) txt) s' segs rest"
    "list_all (segment_ok (maxRunes s)) segs0"
    "concat (map visible segs0) = visible (take (rune_prefix n txt) txt)"
  shows "cut_spec s flush txt s' (segs0 @ segs) rest"
  using assms visible_cut [of n "txt"] by (cases s; cases s') (auto simp: cut_spec_def)

lemma cut_spec_rest:
  assumes "0 < maxRunes s" "list_all (segment_ok (maxRunes s)) segs"
    "concat (map visible segs) = visible txt" "s' = s\<lparr>first := f\<rparr>"
  shows "cut_spec s flush txt s' segs ''''"
  using assms by (simp add: cut_spec_def RuneCountInString_def)

lemma cut_loop_valid:
  assumes "ValidString txt" "0 < maxRunes s"
  shows "\<exists>s' segs rest. cut_loop s flush txt out = Some (s', rest, out @ segs)
           \<and> cut_spec s flush txt s' segs rest"
  using assms
proof (induction s flush "txt" out rule: cut_loop.induct)
  case (1 s flush "txt" out)
  show ?case
    using "1.prems"
  proof (cases rule: findBoundary_valid)
    case none
    show ?thesis
    proof (cases flush)
      case False
      then have "cut_loop s flush txt out = Some (s, txt, out @ [])"
        using none(1) by (subst cut_loop.simps) simp
      moreover have "cut_spec s flush txt s [] txt"
        using none "1.prems" False by (simp add: cut_spec_def RuneCountInString_def)
      ultimately show ?thesis by blast
    next
      case True
      let ?g = "filter (\<lambda>g. g \<noteq> '''') [TrimSpace txt]"
      obtain f where e: "emit_seg s out (TrimSpace txt) = (s\<lparr>first := f\<rparr>, out @ ?g)"
        using emit_seg_cases by blast
      have "cut_spec s flush txt (s\<lparr>first := f\<rparr>) ?g ''''"
        by (rule cut_spec_rest [OF "1.prems"(2)]) (use none in \<open>simp_all add: segment_ok_TrimSpace del: filter.simps\<close>)
      moreover have "cut_loop s flush txt out = Some (s\<lparr>first := f\<rparr>, '''', out @ ?g)"
        using none(1) True e by (subst cut_loop.simps) (simp del: filter.simps)
      ultimately show ?thesis by blast
    qed
  next
    case (found n)
    let ?p = "rune_prefix n txt"
    let ?g = "filter (\<lambda>g. g \<noteq> '''') [TrimSpace (take ?p txt)]"
    have le: "?p \<le> length txt"
      by (metis concat_append length_append le_add1 map_append append_take_drop_id rune_prefix_def runes_bytes)
    obtain f where e: "emit_seg s out (TrimSpace (take ?p txt)) = (s\<lparr>first := f\<rparr>, out @ ?g)"
      using emit_seg_cases by blast
    have g: "list_all (segment_ok (maxRunes s)) ?g"
      using found(3) by (intro segment_ok_TrimSpace) (simp add: runes_cut)
    have step: "cut_loop s flush txt out =
       (if TrimSpace (drop ?p txt) = '''' then Some (s\<lparr>first := f\<rparr>, '''', out @ ?g)
        else cut_loop (s\<lparr>first := f\<rparr>) flush (drop ?p txt) (out @ ?g))"
      using found(4,5) le e by (subst cut_loop.simps) (simp add: Let_def del: filter.simps)
    show ?thesis
    proof (cases "TrimSpace (drop ?p txt) = ''''")
      case True
      then have "visible txt = visible (take ?p txt)"
        using visible_cut [of n "txt"] visible_blank by simp
      then have "cut_spec s flush txt (s\<lparr>first := f\<rparr>) ?g ''''"
        by (intro cut_spec_rest [OF "1.prems"(2) g]) (simp_all del: filter.simps)
      then show ?thesis using step True by auto
    next
      case False
      have "\<exists>s' segs rest. cut_loop (s\<lparr>first := f\<rparr>) flush (drop ?p txt) (out @ ?g)
              = Some (s', rest, (out @ ?g) @ segs)
           \<and> cut_spec (s\<lparr>first := f\<rparr>) flush (drop ?p txt) s' segs rest"
        by (rule "1.IH" [OF refl, of "s\<lparr>first := f\<rparr>" "out @ ?g" "drop ?p txt"])
          (use found le e False ValidString_cut [OF "1.prems"(1)] "1.prems"(2) in
             \<open>simp_all del: filter.simps\<close>)
      then obtain s' segs rest where
        l: "cut_loop (s\<lparr>first := f\<rparr>) flush (drop ?p txt) (out @ ?g) = Some (s', rest, out @ (?g @ segs))"
        and c: "cut_spec (s\<lparr>first := f\<rparr>) flush (drop ?p txt) s' segs rest"
        by auto
      have "cut_spec s flush txt s' (?g @ segs) rest"
        by (rule cut_spec_trans [OF c g]) (simp del: filter.simps)
      then show ?thesis using step False l by (auto simp del: filter.simps)
    qed
  qed
qed

lemma cut_valid:
  assumes "ValidString (buffer s)" "0 < maxRunes s"
  shows "\<exists>s' segs. cut s flush = Some (s', segs) \<and> cut_spec s flush (buffer s) s' segs (buffer s')"
proof (cases "TrimSpace (buffer s) = ''''")
  case True
  then show ?thesis
    using assms visible_blank by (cases flush) (simp_all add: cut_def cut_spec_def)
next
  case False
  obtain s' segs rest where "cut_loop s flush (buffer s) [] = Some (s', rest, segs)"
    and c: "cut_spec s flush (buffer s) s' segs rest"
    using cut_loop_valid [OF assms, of flush "[]"] by auto
  then have "cut s flush = Some (s'\<lparr>buffer := rest\<rparr>, segs)"
    using False by (simp add: cut_def)
  moreover have "cut_spec s flush (buffer s) (s'\<lparr>buffer := rest\<rparr>) segs rest"
    using c findBoundary_buffer [of rest s' rest] by (cases s; cases s') (simp add: cut_spec_def)
  ultimately show ?thesis by simp
qed

lemma Push_valid:
  assumes "ValidString (buffer s)" "ValidString delta" "0 < maxRunes s"
  shows "\<exists>s' segs. Push s delta = Some (s', segs) \<and> ValidString (buffer s') \<and> maxRunes s' = maxRunes s
    \<and> concat (map visible segs) @ visible (buffer s') = visible (buffer s) @ visible delta
    \<and> list_all (segment_ok (maxRunes s)) segs
    \<and> (delta \<noteq> '''' \<longrightarrow> TrimSpace (buffer s') = ''''
         \<or> findBoundary s' (buffer s') = 0 \<and> int (RuneCountInString (buffer s')) < maxRunes s)"
proof (cases "delta = ''''")
  case True
  then show ?thesis using assms by (simp add: Push_def)
next
  case False
  let ?s = "s\<lparr>buffer := buffer s @ delta\<rparr>"
  have "ValidString (buffer ?s)" using assms by (simp add: ValidString_append)
  then obtain s' segs where "cut ?s False = Some (s', segs)"
    and c: "cut_spec ?s False (buffer s @ delta) s' segs (buffer s')"
    using cut_valid [of ?s False] assms(3) by auto
  moreover have "maxRunes s' = maxRunes s"
    using c by (cases s; cases s') (simp add: cut_spec_def)
  ultimately show ?thesis
    using False assms(1) by (simp add: Push_def cut_spec_def visible_append)
qed

lemma Flush_valid:
  assumes "ValidString (buffer s)" "0 < maxRunes s"
  shows "\<exists>s' segs. Flush s = Some (s', segs) \<and> buffer s' = ''''
    \<and> concat (map visible segs) = visible (buffer s) \<and> list_all (segment_ok (maxRunes s)) segs"
  using cut_valid [OF assms, of True] by (auto simp: Flush_def cut_spec_def)

lemma push_all_valid:
  assumes "ValidString (buffer s)" "list_all ValidString deltas" "0 < maxRunes s"
  shows "\<exists>s' segs. push_all s deltas = Some (s', segs) \<and> ValidString (buffer s') \<and> maxRunes s' = maxRunes s
    \<and> concat (map visible segs) @ visible (buffer s') = visible (buffer s) @ concat (map visible deltas)
    \<and> list_all (segment_ok (maxRunes s)) segs"
  using assms
proof (induction deltas arbitrary: s)
  case (Cons delta deltas)
  have v: "ValidString delta" "list_all ValidString deltas" using Cons.prems by simp_all
  obtain s1 segs1 where p: "Push s delta = Some (s1, segs1)" "ValidString (buffer s1)"
      "maxRunes s1 = maxRunes s" "list_all (segment_ok (maxRunes s)) segs1"
      "concat (map visible segs1) @ visible (buffer s1) = visible (buffer s) @ visible delta"
    using Push_valid [OF Cons.prems(1) v(1) Cons.prems(3)] by blast
  then obtain s2 segs2 where "push_all s1 deltas = Some (s2, segs2)" "ValidString (buffer s2)"
      "maxRunes s2 = maxRunes s" "list_all (segment_ok (maxRunes s)) segs2"
      "concat (map visible segs2) @ visible (buffer s2) = visible (buffer s1) @ concat (map visible deltas)"
    using Cons.IH [OF p(2) v(2)] Cons.prems(3) by auto
  with p show ?case by simp
qed simp

lemma visible_concat:
  "list_all ValidString deltas \<Longrightarrow> visible (concat deltas) = concat (map visible deltas)"
  by (induction deltas) (simp_all add: visible_append)

section \<open>Properties\<close>

text \<open>
  C39: On valid UTF-8 the loop of the segmenter ends and never slices out of range: \<open>Push\<close> and a
  following \<open>Flush\<close> return. After a push no clause is held back: what stays in the buffer is blank,
  or has no boundary and fewer runes than the maximum; after the flush nothing stays.
\<close>

theorem segmenter_returns:
  assumes "ValidString (buffer s)" "ValidString delta" "0 < maxRunes s"
  shows "\<exists>s1 segs s2 rest. Push s delta = Some (s1, segs) \<and> Flush s1 = Some (s2, rest) \<and> buffer s2 = ''''
    \<and> (delta \<noteq> '''' \<longrightarrow> TrimSpace (buffer s1) = ''''
         \<or> findBoundary s1 (buffer s1) = 0 \<and> int (RuneCountInString (buffer s1)) < maxRunes s)"
proof -
  obtain s1 segs where p: "Push s delta = Some (s1, segs)" "ValidString (buffer s1)" "maxRunes s1 = maxRunes s"
      "delta \<noteq> '''' \<longrightarrow> TrimSpace (buffer s1) = ''''
         \<or> findBoundary s1 (buffer s1) = 0 \<and> int (RuneCountInString (buffer s1)) < maxRunes s"
    using Push_valid [OF assms] by blast
  then show ?thesis using Flush_valid [of s1] assms(3) by auto
qed

theorem segmenter_returns_witness:
  "\<exists>s1 segs s2 rest. Push NewSegmenter ''Hi there, you'' = Some (s1, segs)
     \<and> Flush s1 = Some (s2, rest) \<and> buffer s2 = ''''"
proof -
  have "ValidString ''Hi there, you''" by (simp add: ValidString_def rune_error_def)
  then show ?thesis
    using segmenter_returns [of NewSegmenter "''Hi there, you''"] by (auto simp: NewSegmenter_def)
qed

text \<open>
  C38: Streaming loses no visible text: for every sequence of valid deltas the segments sent to
  speech synthesis, in order, have exactly the visible runes of the deltas, and each is trimmed,
  not empty and at most 120 runes long, wherever the deltas were split.
\<close>

theorem segments_complete:
  assumes "list_all ValidString deltas"
  shows "\<exists>segs. stream_segments deltas True = Some segs
    \<and> concat (map visible segs) = visible (concat deltas)
    \<and> list_all (\<lambda>seg. seg \<noteq> '''' \<and> TrimSpace seg = seg \<and> RuneCountInString seg \<le> 120) segs"
proof -
  obtain s segs where p: "push_all NewSegmenter deltas = Some (s, segs)" "ValidString (buffer s)"
      "maxRunes s = 120" "list_all (segment_ok 120) segs"
      "concat (map visible segs) @ visible (buffer s) = concat (map visible deltas)"
    using push_all_valid [of NewSegmenter deltas] assms by (auto simp: NewSegmenter_def)
  then obtain s' rest where f: "Flush s = Some (s', rest)" "concat (map visible rest) = visible (buffer s)"
      "list_all (segment_ok 120) rest"
    using Flush_valid [of s] by auto
  have "list_all (\<lambda>seg. seg \<noteq> '''' \<and> TrimSpace seg = seg \<and> RuneCountInString seg \<le> 120) (segs @ rest)"
    using p(4) f(3) by (auto simp: list_all_iff segment_ok_def)
  then show ?thesis using p f visible_concat [OF assms] by (simp add: stream_segments_def)
qed

definition greeting :: "string list" where
  "greeting = [''Hello to'', '' all, how'', '' are you'', '' today? Fine'']"

theorem segments_complete_witness:
  "\<exists>segs. stream_segments greeting True = Some segs
     \<and> concat (map visible segs) = visible ''Hello to all, how are you today? Fine''"
proof -
  have "list_all ValidString greeting" by (simp add: greeting_def ValidString_def rune_error_def)
  then show ?thesis using segments_complete [of greeting] by (auto simp: greeting_def)
qed

lemma greeting_segments:
  "stream_segments greeting True = Some [''Hello to all,'', ''how are you today?'', ''Fine'']"
  by (simp add: stream_segments_def greeting_def NewSegmenter_def Push_def Flush_def cut_def cut_loop.simps
      findBoundary_def at_boundary_def strong_def medium_def comma_def RuneLen_def emit_seg_def
      TrimSpace_def trim_by_def IsSpace_def Let_def)

text \<open>
  The last rune of the longest clause is measured by the length of its encoding, not by the bytes
  it came from: an invalid byte there counts as three, and the slice runs over the end of the text.
\<close>

lemma boundary_from_plain:
  assumes "n + int k < maxRunes s" "\<And>n. n < maxRunes s \<Longrightarrow> \<not> at_boundary s n r" "length b = 1"
  shows "boundary_from s i n (replicate k (r, b) @ rs) = boundary_from s (i + int k) (n + int k) rs"
  using assms by (induction k arbitrary: i n) (auto simp: algebra_simps)

lemma runes_replicate:
  "(of_char c :: nat) < 128 \<Longrightarrow> runes (replicate k c @ s) = replicate k (of_char c, [c]) @ runes s"
  by (induction k) simp_all

theorem segmenter_panics:
  "Push NewSegmenter (replicate 119 (CHR ''a'') @ [char_of (255 :: nat)]) = None"
proof -
  let ?t = "replicate 119 (CHR ''a'') @ [char_of (255 :: nat)]"
  have r: "runes ?t = replicate 119 (97, ''a'') @ [(rune_error, [char_of (255 :: nat)])]"
    by (subst runes_replicate) (simp_all add: runes_nonempty decode_rune_def seq2_def seq3_def seq4_def byte_in_def)
  let ?s = "NewSegmenter\<lparr>buffer := ?t\<rparr>"
  have "findBoundary ?s ?t = 122"
    unfolding findBoundary_def r
    by (subst boundary_from_plain)
      (simp_all add: NewSegmenter_def at_boundary_def strong_def medium_def comma_def RuneLen_def rune_error_def)
  moreover have "visible ?t \<noteq> []"
    by (simp add: visible_def visible_runes_def r IsSpace_def rune_error_def)
  then have "TrimSpace ?t \<noteq> ''''" using visible_blank by metis
  ultimately show ?thesis
    by (simp add: Push_def cut_def NewSegmenter_def) (simp add: cut_loop.simps)
qed


lemma Finalize_Decide:
  "Finalize (Decide d g) \<longleftrightarrow> MinSpeechMS d \<le> SpeechDurationMS g \<and> TrimSpace (PartialText g) \<noteq> ''''
     \<and> clampInt (required_raw d g (TrimSpace (PartialText g))) (MinSilenceMS d) (MaxSilenceMS d) \<le> SilenceMS g"
  by (simp add: Decide_def Let_def)

lemma clampInt_bounds: "lo \<le> hi \<Longrightarrow> lo \<le> clampInt x lo hi \<and> clampInt x lo hi \<le> hi"
  by (simp add: clampInt_def)

lemma required_raw_silence [simp]: "required_raw d (g\<lparr>SilenceMS := m\<rparr>) t = required_raw d g t"
  by (simp add: required_raw_def)

text \<open>
  A decision of a detector whose bounds are ordered. The turn is finalized only after enough
  speech, with a transcript and at least the minimal silence; it is finalized at the latest when
  the silence reaches the maximum, and once it is finalized more silence never reverts that. The
  silence it announces stays between the bounds.
\<close>

theorem turn_decided:
  assumes "MinSilenceMS d \<le> BaseSilenceMS d" "BaseSilenceMS d \<le> MaxSilenceMS d"
  shows "(Finalize (Decide d g) \<longrightarrow> MinSpeechMS d \<le> SpeechDurationMS g
             \<and> TrimSpace (PartialText g) \<noteq> '''' \<and> MinSilenceMS d \<le> SilenceMS g)
    \<and> (MinSpeechMS d \<le> SpeechDurationMS g \<and> TrimSpace (PartialText g) \<noteq> ''''
         \<and> MaxSilenceMS d \<le> SilenceMS g \<longrightarrow> Finalize (Decide d g))
    \<and> (Finalize (Decide d g) \<and> SilenceMS g \<le> m \<longrightarrow> Finalize (Decide d (g\<lparr>SilenceMS := m\<rparr>)))
    \<and> MinSilenceMS d \<le> RequiredSilenceMS (Decide d g) \<and> RequiredSilenceMS (Decide d g) \<le> MaxSilenceMS d"
proof -
  have b: "MinSilenceMS d \<le> clampInt x (MinSilenceMS d) (MaxSilenceMS d)
      \<and> clampInt x (MinSilenceMS d) (MaxSilenceMS d) \<le> MaxSilenceMS d" for x
    using clampInt_bounds assms by simp
  let ?r = "clampInt (required_raw d g (TrimSpace (PartialText g))) (MinSilenceMS d) (MaxSilenceMS d)"
  have "RequiredSilenceMS (Decide d g) \<in> {BaseSilenceMS d, MaxSilenceMS d, ?r}"
    by (simp add: Decide_def Let_def)
  then have "MinSilenceMS d \<le> RequiredSilenceMS (Decide d g) \<and> RequiredSilenceMS (Decide d g) \<le> MaxSilenceMS d"
    using b [of "required_raw d g (TrimSpace (PartialText g))"] assms by auto
  then show ?thesis
    using b [of "required_raw d g (TrimSpace (PartialText g))"] by (auto simp: Finalize_Decide)
qed

theorem turn_decided_witness:
  "RequiredSilenceMS (Decide (NewTurnDetector DefaultTurnDetectorConfig)
     \<lparr>PartialText = ''Good morning.'', Stable = True, SpeechDurationMS = 900, SilenceMS = 500\<rparr>) = 500
   \<and> Finalize (Decide (NewTurnDetector DefaultTurnDetectorConfig)
     \<lparr>PartialText = ''Good morning.'', Stable = True, SpeechDurationMS = 900, SilenceMS = 2000\<rparr>)"
proof -
  let ?d = "NewTurnDetector DefaultTurnDetectorConfig"
  let ?g = "\<lparr>PartialText = ''Good morning.'', Stable = True, SpeechDurationMS = 900, SilenceMS = 500\<rparr>"
  have t: "TrimSpace ''Good morning.'' = ''Good morning.''"
    by (simp add: TrimSpace_def trim_by_def IsSpace_def)
  then have d: "Finalize (Decide ?d ?g) \<and> RequiredSilenceMS (Decide ?d ?g) = 500"
    by (simp add: Decide_def NewTurnDetector_def DefaultTurnDetectorConfig_def required_raw_def clampInt_def
        RuneCountInString_def hasTerminalPunctuation_def terminal_marks_def ends_with_def wrap64_def)
  have "MinSilenceMS ?d \<le> BaseSilenceMS ?d" "BaseSilenceMS ?d \<le> MaxSilenceMS ?d"
    by (simp_all add: NewTurnDetector_def DefaultTurnDetectorConfig_def)
  from turn_decided [OF this, of ?g 2000] d show ?thesis by simp
qed

text \<open>
  Normalising a configuration does not order its bounds: a base silence above the default maximum,
  with no maximum given, ends with the smaller default as the maximum.
\<close>

theorem turn_bounds_inverted:
  assumes "1400 < BaseSilenceMS c" "MaxSilenceMS c < BaseSilenceMS c"
  shows "MaxSilenceMS (NewTurnDetector c) < BaseSilenceMS (NewTurnDetector c)"
  using assms by (simp add: NewTurnDetector_def DefaultTurnDetectorConfig_def Let_def)

end
