(* ===== verification/Json_Text.thy ===== *)
theory Json_Text
  imports Json_Parser
begin

text \<open>
  Facts about the reader and the writer of JSON together. More fuel never changes a result of the
  parser; a value is a piece of text of its own, so what follows it does not matter (a number must
  not be followed by a character that continues it); and the reader gives back what the writer
  has quoted, with invalid UTF-8 repaired.
\<close>

section \<open>Steps of the parser\<close>

lemma pelems_Some:
  "pelems (Suc n) s = Some (js, r') \<longleftrightarrow>
     (\<exists>j r x xs. pvalue n s = Some (j, r) \<and> skip_ws r = x # xs
       \<and> (x = CHR '']'' \<and> js = [j] \<and> r' = xs
          \<or> x = CHR '','' \<and> (\<exists>js'. pelems n (skip_ws xs) = Some (js', r') \<and> js = j # js')))"
  by (auto split: option.splits list.splits)

lemma pmembers_Some:
  "pmembers (Suc n) s = Some (m, r') \<longleftrightarrow>
     (\<exists>qs raw r0 ys j r x xs. s = CHR 0x22 # qs \<and> str_tok qs = Some (raw, r0) \<and> skip_ws r0 = CHR '':'' # ys
       \<and> pvalue n (skip_ws ys) = Some (j, r) \<and> skip_ws r = x # xs
       \<and> (x = CHR ''}'' \<and> m = [(unquote raw, j)] \<and> r' = xs
          \<or> x = CHR '','' \<and> (\<exists>m'. pmembers n (skip_ws xs) = Some (m', r') \<and> m = (unquote raw, j) # m')))"
  by (cases s) (auto split: option.splits list.splits)

text \<open>The shapes of a value, each with the text it was read from.\<close>

lemma pvalue_cases:
  assumes "pvalue (Suc n) s = Some (j, r)"
  obtains (str) cs raw where "s = CHR 0x22 # cs" "str_tok cs = Some (raw, r)" "j = JString (unquote raw)"
  | (obj_empty) cs where "s = CHR ''{'' # cs" "skip_ws cs = CHR ''}'' # r" "j = JObj []"
  | (obj) cs x xs m where "s = CHR ''{'' # cs" "skip_ws cs = x # xs" "x \<noteq> CHR ''}''" "pmembers n (x # xs) = Some (m, r)" "j = JObj m"
  | (arr_empty) cs where "s = CHR ''['' # cs" "skip_ws cs = CHR '']'' # r" "j = JArr []"
  | (arr) cs x xs js where "s = CHR ''['' # cs" "skip_ws cs = x # xs" "x \<noteq> CHR '']''" "pelems n (x # xs) = Some (js, r)" "j = JArr js"
  | (tru) "s = ''true'' @ r" "j = JBool True"
  | (fls) "s = ''false'' @ r" "j = JBool False"
  | (null) "s = ''null'' @ r" "j = JNull"
  | (num) tok where "num_tok s = Some (tok, r)" "j = JNum tok"
      "s \<noteq> []" "hd s \<notin> {CHR 0x22, CHR ''{'', CHR ''['', CHR ''t'', CHR ''f'', CHR ''n''}"
proof -
  obtain c cs where s: "s = c # cs" using assms by (cases s) auto
  have strip: "strip_prefix p s = Some r \<Longrightarrow> s = p @ r" for p
    by (metis append_take_drop_id option.sel option.distinct(1) strip_prefix_def)
  consider "c = CHR 0x22" | "c = CHR ''{''" | "c = CHR ''[''" | "c = CHR ''t''" | "c = CHR ''f''" | "c = CHR ''n''"
    | "c \<notin> {CHR 0x22, CHR ''{'', CHR ''['', CHR ''t'', CHR ''f'', CHR ''n''}" by blast
  then show thesis
  proof cases
    case 1
    then show thesis using assms s str by auto
  next
    case 2
    then show thesis using assms s obj_empty obj by (auto split: list.splits if_splits)
  next
    case 3
    then show thesis using assms s arr_empty arr by (auto split: list.splits if_splits)
  next
    case 4
    then show thesis using assms s strip [of "''true''"] tru by auto
  next
    case 5
    then show thesis using assms s strip [of "''false''"] fls by auto
  next
    case 6
    then show thesis using assms s strip [of "''null''"] null by auto
  next
    case 7
    then show thesis using assms s num by auto
  qed
qed

lemma pvalue_str: "str_tok cs = Some (raw, r) \<Longrightarrow> pvalue (Suc n) (CHR 0x22 # cs) = Some (JString (unquote raw), r)"
  and pvalue_obj_empty: "skip_ws cs = CHR ''}'' # r \<Longrightarrow> pvalue (Suc n) (CHR ''{'' # cs) = Some (JObj [], r)"
  and pvalue_obj: "skip_ws cs = x # xs \<Longrightarrow> x \<noteq> CHR ''}'' \<Longrightarrow> pmembers n (x # xs) = Some (m, r) \<Longrightarrow>
       pvalue (Suc n) (CHR ''{'' # cs) = Some (JObj m, r)"
  and pvalue_arr_empty: "skip_ws cs = CHR '']'' # r \<Longrightarrow> pvalue (Suc n) (CHR ''['' # cs) = Some (JArr [], r)"
  and pvalue_arr: "skip_ws cs = x # xs \<Longrightarrow> x \<noteq> CHR '']'' \<Longrightarrow> pelems n (x # xs) = Some (js, r) \<Longrightarrow>
       pvalue (Suc n) (CHR ''['' # cs) = Some (JArr js, r)"
  and pvalue_true: "pvalue (Suc n) (''true'' @ r) = Some (JBool True, r)"
  and pvalue_false: "pvalue (Suc n) (''false'' @ r) = Some (JBool False, r)"
  and pvalue_null: "pvalue (Suc n) (''null'' @ r) = Some (JNull, r)"
  by (simp_all add: strip_prefix_def)

lemma pvalue_num:
  "num_tok s = Some (tok, r) \<Longrightarrow> s \<noteq> [] \<Longrightarrow>
     hd s \<notin> {CHR 0x22, CHR ''{'', CHR ''['', CHR ''t'', CHR ''f'', CHR ''n''} \<Longrightarrow>
     pvalue (Suc n) s = Some (JNum tok, r)"
  by (cases s) simp_all

lemmas pvalue_intros = pvalue_str pvalue_obj_empty pvalue_obj pvalue_arr_empty pvalue_arr
  pvalue_true pvalue_false pvalue_null pvalue_num

section \<open>Fuel\<close>

lemma parser_fuel:
  "pvalue n s = Some x \<Longrightarrow> n \<le> m \<Longrightarrow> pvalue m s = Some x"
  "pelems n s = Some y \<Longrightarrow> n \<le> m \<Longrightarrow> pelems m s = Some y"
  "pmembers n s = Some z \<Longrightarrow> n \<le> m \<Longrightarrow> pmembers m s = Some z"
proof (induction n arbitrary: s x y z m)
  case (Suc n)
  {
    case 1
    obtain j r where x: "x = (j, r)" by force
    obtain k where k: "m = Suc k" "n \<le> k" using "1"(2) by (cases m) auto
    show ?case
      using "1"(1) unfolding x k
      by (cases rule: pvalue_cases) (auto intro!: pvalue_intros simp del: pvalue.simps append.append_Cons intro: Suc.IH k(2))
  next
    case 2
    obtain j r where y: "y = (j, r)" by force
    obtain k where k: "m = Suc k" "n \<le> k" using "2"(2) by (cases m) auto
    show ?case
      using "2"(1) Suc.IH(1,2) [OF _ k(2)] unfolding y k(1) pelems_Some by blast
  next
    case 3
    obtain j r where z: "z = (j, r)" by force
    obtain k where k: "m = Suc k" "n \<le> k" using "3"(2) by (cases m) auto
    show ?case
      using "3"(1) Suc.IH(1,3) [OF _ k(2)] unfolding z k(1) pmembers_Some by blast
  }
qed simp_all

section \<open>A value is a piece of text of its own\<close>

text \<open>What may follow a number without continuing it.\<close>

definition num_end :: "string \<Rightarrow> bool" where
  "num_end r \<longleftrightarrow> r = [] \<or> (\<not> is_digit (hd r) \<and> hd r \<notin> {CHR ''.'', CHR ''e'', CHR ''E''})"

lemma skip_ws_Cons:
  assumes "skip_ws r = x # xs"
  obtains w where "r = w @ x # xs" "\<And>ys. skip_ws (w @ x # ys) = x # ys"
    "w = [] \<or> json_space (hd w)" "\<not> json_space x"
proof -
  let ?w = "takeWhile json_space r"
  have r: "r = ?w @ x # xs" using assms by (metis skip_ws_def takeWhile_dropWhile_id)
  have x: "\<not> json_space x" using assms hd_dropWhile [of json_space r] by (auto simp: skip_ws_def)
  have all: "\<forall>c \<in> set ?w. json_space c" by (auto dest: set_takeWhileD)
  have "skip_ws (?w @ x # ys) = x # ys" for ys
    using x all dropWhile_append2 [of ?w json_space "x # ys"] by (simp add: skip_ws_def)
  moreover have "?w = [] \<or> json_space (hd ?w)" using all by (cases ?w) auto
  ultimately show thesis using that r x by blast
qed

lemma skip_ws_tok:
  assumes "skip_ws r = tok @ xs" "tok \<noteq> []"
  obtains w where "r = w @ tok @ xs" "\<And>ys. skip_ws (w @ tok @ ys) = tok @ ys"
proof -
  obtain y t where y: "tok = y # t" using assms(2) by (cases tok) auto
  have "skip_ws r = y # t @ xs" using assms(1) y by simp
  from skip_ws_Cons [OF this] obtain w where "r = w @ y # t @ xs" "\<And>ys. skip_ws (w @ y # ys) = y # ys"
    by metis
  then show thesis using that [of w] y by simp
qed

lemma str_tok_close: "str_tok (CHR 0x22 # cs) = Some ([], cs)"
  by simp

lemma str_tok_simple:
  assumes "e \<in> {CHR 0x22, CHR 0x5C, CHR ''/'', CHR ''b'', CHR ''f'', CHR ''n'', CHR ''r'', CHR ''t''}"
  shows "str_tok (CHR 0x5C # e # es) = map_option (\<lambda>(t, r). (CHR 0x5C # e # t, r)) (str_tok es)"
  using assms by (elim insertE) simp_all

lemma str_tok_uni:
  assumes "list_all hex_digit [h1, h2, h3, h4]"
  shows "str_tok (CHR 0x5C # CHR ''u'' # h1 # h2 # h3 # h4 # r0) =
    map_option (\<lambda>(t, r). (CHR 0x5C # CHR ''u'' # h1 # h2 # h3 # h4 # t, r)) (str_tok r0)"
  using assms by simp

lemma str_tok_other:
  "c \<noteq> CHR 0x22 \<Longrightarrow> \<not> (of_char c :: nat) < 32 \<Longrightarrow> c \<noteq> CHR 0x5C \<Longrightarrow>
     str_tok (c # cs) = map_option (\<lambda>(t, r). (c # t, r)) (str_tok cs)"
  by simp

lemmas str_tok_steps = str_tok_close str_tok_simple str_tok_uni str_tok_other

lemma str_tok_cases:
  assumes "str_tok s = Some (raw, r)"
  obtains (close) "s = CHR 0x22 # r" "raw = []"
    | (simple) e es t where "s = CHR 0x5C # e # es"
        "e \<in> {CHR 0x22, CHR 0x5C, CHR ''/'', CHR ''b'', CHR ''f'', CHR ''n'', CHR ''r'', CHR ''t''}"
        "str_tok es = Some (t, r)" "raw = CHR 0x5C # e # t"
    | (uni) h1 h2 h3 h4 r0 t where "s = CHR 0x5C # CHR ''u'' # h1 # h2 # h3 # h4 # r0"
        "list_all hex_digit [h1, h2, h3, h4]" "str_tok r0 = Some (t, r)"
        "raw = CHR 0x5C # CHR ''u'' # h1 # h2 # h3 # h4 # t"
    | (other) c cs t where "s = c # cs" "c \<noteq> CHR 0x22" "\<not> (of_char c :: nat) < 32" "c \<noteq> CHR 0x5C"
        "str_tok cs = Some (t, r)" "raw = c # t"
proof -
  obtain c cs where s: "s = c # cs" using assms by (cases s) auto
  consider "c = CHR 0x22" | "c = CHR 0x5C" | "c \<noteq> CHR 0x22" "c \<noteq> CHR 0x5C" by blast
  then show thesis
  proof cases
    case 1
    then show thesis using assms s close by simp
  next
    case 2
    then obtain e es where cs: "cs = e # es" using assms s by (cases cs) auto
    show thesis
    proof (cases "e \<in> {CHR 0x22, CHR 0x5C, CHR ''/'', CHR ''b'', CHR ''f'', CHR ''n'', CHR ''r'', CHR ''t''}")
      case True
      have "str_tok s = map_option (\<lambda>(t, r). (CHR 0x5C # e # t, r)) (str_tok es)"
        unfolding s cs 2 by (rule str_tok_simple [OF True])
      then obtain t where "str_tok es = Some (t, r)" "raw = CHR 0x5C # e # t"
        using assms by (cases "str_tok es") auto
      then show thesis using simple [OF _ True] s cs 2 by blast
    next
      case False
      then have u: "e = CHR ''u''" using assms s cs 2 by (simp split: if_splits)
      then show thesis using assms s cs 2 uni by (auto split: list.splits if_splits)
    qed
  next
    case 3
    then show thesis using assms s other [of c cs] by (auto split: if_splits)
  qed
qed

lemma str_tok_local:
  "str_tok s = Some (raw, r) \<Longrightarrow> s = raw @ CHR 0x22 # r \<and> str_tok (raw @ CHR 0x22 # r') = Some (raw, r')"
proof (induction "length s" arbitrary: s raw rule: less_induct)
  case less
  from less.prems show ?case
  proof (cases rule: str_tok_cases)
    case close
    then show ?thesis by simp
  next
    case (simple e es t)
    then have "es = t @ CHR 0x22 # r" "str_tok (t @ CHR 0x22 # r') = Some (t, r')"
      using less.hyps [of es t] by simp_all
    then show ?thesis
      using simple(1,4) str_tok_simple [OF simple(2), of "t @ CHR 0x22 # r'"] by (simp del: str_tok.simps)
  next
    case (uni h1 h2 h3 h4 r0 t)
    then have "r0 = t @ CHR 0x22 # r" "str_tok (t @ CHR 0x22 # r') = Some (t, r')"
      using less.hyps [of r0 t] by simp_all
    then show ?thesis
      using uni(1,4) str_tok_uni [OF uni(2), of "t @ CHR 0x22 # r'"] by (simp del: str_tok.simps)
  next
    case (other c cs t)
    then have "cs = t @ CHR 0x22 # r" "str_tok (t @ CHR 0x22 # r') = Some (t, r')"
      using less.hyps [of cs t] by simp_all
    then show ?thesis
      using other(1,6) str_tok_other [OF other(2-4), of "t @ CHR 0x22 # r'"] by (simp del: str_tok.simps)
  qed
qed

lemma digits_append:
  "list_all is_digit d \<Longrightarrow> r = [] \<or> \<not> is_digit (hd r) \<Longrightarrow> digits (d @ r) = (d, r)"
proof (induction d)
  case Nil
  then show ?case by (cases r) (auto simp: digits_def)
qed (simp add: digits_def)

lemma digits_split: "digits s = (d, r) \<Longrightarrow> s = d @ r \<and> list_all is_digit d"
  by (auto simp: digits_def list_all_iff dest: set_takeWhileD)

lemma num_int_local:
  assumes "num_int s = Some (i, r)"
  shows "s = i @ r" "i \<noteq> []" "list_all is_digit i"
    "r' = [] \<or> \<not> is_digit (hd r') \<Longrightarrow> num_int (i @ r') = Some (i, r')"
proof -
  obtain c cs where s: "s = c # cs" using assms by (cases s) (auto simp: num_int_def)
  have "s = i @ r \<and> i \<noteq> [] \<and> list_all is_digit i
     \<and> (r' = [] \<or> \<not> is_digit (hd r') \<longrightarrow> num_int (i @ r') = Some (i, r'))"
  proof (cases "c = CHR ''0''")
    case True
    then show ?thesis using assms s by (auto simp: num_int_def is_digit_def byte_in_def)
  next
    case False
    then have d: "is_digit c" "digits s = (i, r)" using assms s by (auto simp: num_int_def split: if_splits)
    moreover obtain ds where "i = c # ds" using d s by (auto simp: digits_def)
    ultimately show ?thesis
      using False digits_split [OF d(2)] digits_append [of i r'] by (auto simp: num_int_def)
  qed
  then show "s = i @ r" "i \<noteq> []" "list_all is_digit i"
    "r' = [] \<or> \<not> is_digit (hd r') \<Longrightarrow> num_int (i @ r') = Some (i, r')" by blast+
qed

lemma num_frac_local:
  assumes "num_frac s = Some (f, r)"
  shows "s = f @ r" "f = [] \<or> hd f = CHR ''.''"
    "r' = [] \<or> \<not> is_digit (hd r') \<and> hd r' \<noteq> CHR ''.'' \<Longrightarrow> num_frac (f @ r') = Some (f, r')"
proof -
  have "s = f @ r \<and> (f = [] \<or> hd f = CHR ''.'')
     \<and> (r' = [] \<or> \<not> is_digit (hd r') \<and> hd r' \<noteq> CHR ''.'' \<longrightarrow> num_frac (f @ r') = Some (f, r'))"
  proof (cases "s = [] \<or> hd s \<noteq> CHR ''.''")
    case True
    then have "f = [] \<and> r = s" using assms by (cases s) (auto simp: num_frac_def)
    then show ?thesis by (cases r') (auto simp: num_frac_def)
  next
    case False
    then obtain cs where s: "s = CHR ''.'' # cs" by (cases s) auto
    then obtain d where d: "digits cs = (d, r)" "d \<noteq> []" "f = CHR ''.'' # d"
      using assms by (auto simp: num_frac_def split: prod.splits if_splits)
    then show ?thesis
      using s digits_split [OF d(1)] digits_append [of d r'] by (auto simp: num_frac_def)
  qed
  then show "s = f @ r" "f = [] \<or> hd f = CHR ''.''"
    "r' = [] \<or> \<not> is_digit (hd r') \<and> hd r' \<noteq> CHR ''.'' \<Longrightarrow> num_frac (f @ r') = Some (f, r')" by blast+
qed

lemma is_digit_simps [simp]:
  "\<not> is_digit CHR ''.''" "\<not> is_digit CHR ''e''" "\<not> is_digit CHR ''E''" "\<not> is_digit CHR ''-''" "\<not> is_digit CHR ''+''"
  by (simp_all add: is_digit_def byte_in_def)

lemma num_exp_local:
  assumes "num_exp s = Some (e, r)"
  shows "s = e @ r" "e = [] \<or> hd e \<in> {CHR ''e'', CHR ''E''}" "num_end r' \<Longrightarrow> num_exp (e @ r') = Some (e, r')"
proof -
  have "s = e @ r \<and> (e = [] \<or> hd e \<in> {CHR ''e'', CHR ''E''}) \<and> (num_end r' \<longrightarrow> num_exp (e @ r') = Some (e, r'))"
  proof (cases "s = [] \<or> hd s \<notin> {CHR ''e'', CHR ''E''}")
    case True
    then have "e = [] \<and> r = s" using assms by (cases s) (auto simp: num_exp_def)
    then show ?thesis by (cases r') (auto simp: num_exp_def num_end_def)
  next
    case False
    then obtain c cs where s: "s = c # cs" and c: "c = CHR ''e'' \<or> c = CHR ''E''" by (cases s) auto
    let ?g = "\<lambda>cs. takeWhile (\<lambda>x. x = CHR ''+'' \<or> x = CHR ''-'') (take 1 cs)"
    obtain d where d: "digits (drop (length (?g cs)) cs) = (d, r)" "d \<noteq> []" "e = c # ?g cs @ d"
      using assms s c by (auto simp: num_exp_def Let_def split: prod.splits if_splits)
    have dd: "drop (length (?g cs)) cs = d @ r" "list_all is_digit d" using digits_split [OF d(1)] by auto
    have cs: "cs = ?g cs @ d @ r" using dd(1) by (cases cs) auto
    have "?g (?g cs @ d @ r') = ?g cs"
    proof (cases "?g cs")
      case Nil
      then show ?thesis using d(2) dd(2) by (cases d) (auto simp: is_digit_def byte_in_def)
    next
      case (Cons a as)
      then show ?thesis by (cases cs) (auto split: if_splits)
    qed
    moreover have "num_end r' \<Longrightarrow> digits (d @ r') = (d, r')"
      using dd(2) by (intro digits_append) (auto simp: num_end_def)
    ultimately have "num_end r' \<Longrightarrow> num_exp (c # ?g cs @ d @ r') = Some (c # ?g cs @ d, r')"
      using c d(2) by (auto simp: num_exp_def Let_def)
    then show ?thesis using s c cs d(3) by auto
  qed
  then show "s = e @ r" "e = [] \<or> hd e \<in> {CHR ''e'', CHR ''E''}" "num_end r' \<Longrightarrow> num_exp (e @ r') = Some (e, r')"
    by blast+
qed

lemma num_tok_local:
  assumes "num_tok s = Some (tok, r)"
  shows "s = tok @ r" "tok \<noteq> []" "num_end r' \<Longrightarrow> num_tok (tok @ r') = Some (tok, r')"
proof -
  let ?g = "\<lambda>s. takeWhile (\<lambda>x. x = CHR ''-'') (take 1 s)"
  obtain i r1 f r2 e where n: "num_int (drop (length (?g s)) s) = Some (i, r1)" "num_frac r1 = Some (f, r2)"
      "num_exp r2 = Some (e, r)" "tok = ?g s @ i @ f @ e"
    using assms by (auto simp: num_tok_def Let_def split: option.splits)
  note i = num_int_local [OF n(1)] and f = num_frac_local [OF n(2)] and e = num_exp_local [OF n(3)]
  have g: "?g s = [] \<or> ?g s = [CHR ''-'']" by (cases s) auto
  have s: "s = ?g s @ i @ f @ e @ r" using i(1) f(1) e(1) by (cases s) (auto split: if_splits)
  then show "s = tok @ r" using n(4) by simp
  show "tok \<noteq> []" using n(4) i(2) by simp
  obtain c cs where c: "i = c # cs" "is_digit c" using i(2,3) by (cases i) auto
  have gi: "?g (?g s @ i @ f @ e @ r') = ?g s"
  proof (cases "?g s = []")
    case True
    moreover have "c \<noteq> CHR ''-''" using c(2) by auto
    ultimately show ?thesis using c(1) by simp
  qed (use g in auto)
  show "num_tok (tok @ r') = Some (tok, r')" if ne: "num_end r'"
  proof -
    have "num_exp (e @ r') = Some (e, r')" using e(3) ne by blast
    moreover have "num_frac (f @ e @ r') = Some (f, e @ r')"
      by (rule f(3)) (use e(2) ne in \<open>cases e; auto simp: num_end_def\<close>)
    moreover have "num_int (i @ f @ e @ r') = Some (i, f @ e @ r')"
      by (rule i(4)) (use e(2) f(2) ne in \<open>cases e; cases f; auto simp: num_end_def\<close>)
    ultimately show ?thesis
      using gi n(4) by (simp add: num_tok_def Let_def)
  qed
qed

lemma num_end_ws: "w = [] \<or> json_space (hd w) \<Longrightarrow> x \<in> {CHR '','', CHR '']'', CHR ''}''} \<Longrightarrow> num_end (w @ x # xs)"
  by (cases w) (auto simp: num_end_def is_digit_def byte_in_def json_space_def)

lemma parser_local:
  "pvalue n s = Some (j, r) \<Longrightarrow> \<exists>tok. s = tok @ r \<and> tok \<noteq> []
     \<and> (\<forall>r'. num_end r' \<or> (\<forall>t. j \<noteq> JNum t) \<longrightarrow> pvalue n (tok @ r') = Some (j, r'))"
  "pelems n s = Some (js, r) \<Longrightarrow> \<exists>tok. s = tok @ r \<and> tok \<noteq> [] \<and> (\<forall>r'. pelems n (tok @ r') = Some (js, r'))"
  "pmembers n s = Some (m, r) \<Longrightarrow> \<exists>tok. s = tok @ r \<and> tok \<noteq> [] \<and> (\<forall>r'. pmembers n (tok @ r') = Some (m, r'))"
proof (induction n arbitrary: s r j js m)
  case (Suc n)
  {
    case 1
    then show ?case
    proof (cases rule: pvalue_cases)
      case (str cs raw)
      then show ?thesis
        using str_tok_local [OF str(2)] by (intro exI [of _ "CHR 0x22 # raw @ [CHR 0x22]"]) auto
    next
      case (obj_empty cs)
      obtain w where "cs = w @ CHR ''}'' # r" "\<And>ys. skip_ws (w @ CHR ''}'' # ys) = CHR ''}'' # ys"
        using skip_ws_Cons [OF obj_empty(2)] by metis
      then show ?thesis using obj_empty by (intro exI [of _ "CHR ''{'' # w @ ''}''"]) auto
    next
      case (obj cs x xs m)
      obtain w where w: "cs = w @ x # xs" "\<And>ys. skip_ws (w @ x # ys) = x # ys"
        using skip_ws_Cons [OF obj(2)] by metis
      obtain tok where tok: "x # xs = tok @ r" "tok \<noteq> []" "\<And>r'. pmembers n (tok @ r') = Some (m, r')"
        using Suc.IH(3) [OF obj(4)] by blast
      obtain t where t: "tok = x # t" using tok(1,2) by (cases tok) auto
      have "pvalue (Suc n) (CHR ''{'' # w @ tok @ r') = Some (j, r')" for r'
        using pvalue_obj [OF w(2) [of "t @ r'"] obj(3)] tok(3) [of r'] obj(5) unfolding t by (simp del: pvalue.simps)
      then show ?thesis using obj w(1) tok(1) by (intro exI [of _ "CHR ''{'' # w @ tok"]) auto
    next
      case (arr_empty cs)
      obtain w where "cs = w @ CHR '']'' # r" "\<And>ys. skip_ws (w @ CHR '']'' # ys) = CHR '']'' # ys"
        using skip_ws_Cons [OF arr_empty(2)] by metis
      then show ?thesis using arr_empty by (intro exI [of _ "CHR ''['' # w @ '']''"]) auto
    next
      case (arr cs x xs js)
      obtain w where w: "cs = w @ x # xs" "\<And>ys. skip_ws (w @ x # ys) = x # ys"
        using skip_ws_Cons [OF arr(2)] by metis
      obtain tok where tok: "x # xs = tok @ r" "tok \<noteq> []" "\<And>r'. pelems n (tok @ r') = Some (js, r')"
        using Suc.IH(2) [OF arr(4)] by blast
      obtain t where t: "tok = x # t" using tok(1,2) by (cases tok) auto
      have "pvalue (Suc n) (CHR ''['' # w @ tok @ r') = Some (j, r')" for r'
        using pvalue_arr [OF w(2) [of "t @ r'"] arr(3)] tok(3) [of r'] arr(5) unfolding t by (simp del: pvalue.simps)
      then show ?thesis using arr w(1) tok(1) by (intro exI [of _ "CHR ''['' # w @ tok"]) auto
    next
      case (num tok)
      have "pvalue (Suc n) (tok @ r') = Some (j, r')" if "num_end r'" for r'
        using num_tok_local [OF num(1)] that num(2-4) by (intro pvalue_num [of _ tok, folded num(2)]) auto
      then show ?thesis using num_tok_local [OF num(1)] num(2) by (intro exI [of _ tok]) auto
    qed (auto simp: strip_prefix_def intro: exI [of _ "''true''"] exI [of _ "''false''"] exI [of _ "''null''"])
  next
    case 2
    then obtain j r1 x xs where v: "pvalue n s = Some (j, r1)" "skip_ws r1 = x # xs"
      and c: "x = CHR '']'' \<and> js = [j] \<and> r = xs
          \<or> x = CHR '','' \<and> (\<exists>js'. pelems n (skip_ws xs) = Some (js', r) \<and> js = j # js')"
      unfolding pelems_Some by blast
    obtain t1 where t1: "s = t1 @ r1" "t1 \<noteq> []" "\<And>r'. num_end r' \<Longrightarrow> pvalue n (t1 @ r') = Some (j, r')"
      using Suc.IH(1) [OF v(1)] by blast
    obtain w where w: "r1 = w @ x # xs" "\<And>ys. skip_ws (w @ x # ys) = x # ys" "w = [] \<or> json_space (hd w)"
      using skip_ws_Cons [OF v(2)] by metis
    have step: "pvalue n (t1 @ w @ x # ys) = Some (j, w @ x # ys)" for ys
      using t1(3) num_end_ws [OF w(3), of x ys] c by blast
    show ?case
      using c
    proof
      assume "x = CHR '']'' \<and> js = [j] \<and> r = xs"
      then show ?thesis using t1 w step unfolding pelems_Some by (intro exI [of _ "t1 @ w @ [x]"]) auto
    next
      assume "x = CHR '','' \<and> (\<exists>js'. pelems n (skip_ws xs) = Some (js', r) \<and> js = j # js')"
      then obtain js' where x: "x = CHR '',''" and e: "pelems n (skip_ws xs) = Some (js', r)" "js = j # js'" by blast
      obtain tok where tok: "skip_ws xs = tok @ r" "tok \<noteq> []" "\<And>r'. pelems n (tok @ r') = Some (js', r')"
        using Suc.IH(2) [OF e(1)] by blast
      obtain w2 where w2: "xs = w2 @ tok @ r" "\<And>ys. skip_ws (w2 @ tok @ ys) = tok @ ys"
        using skip_ws_tok [OF tok(1,2)] by metis
      have "pelems (Suc n) (t1 @ w @ x # w2 @ tok @ r') = Some (js, r')" for r'
        unfolding pelems_Some using step w(2) w2(2) tok(3) e(2) x by auto
      then show ?thesis using t1 w w2 by (intro exI [of _ "t1 @ w @ x # w2 @ tok"]) auto
    qed
  next
    case 3
    then obtain qs raw r0 ys j r1 x xs where q: "s = CHR 0x22 # qs" "str_tok qs = Some (raw, r0)"
        "skip_ws r0 = CHR '':'' # ys"
      and v: "pvalue n (skip_ws ys) = Some (j, r1)" "skip_ws r1 = x # xs"
      and c: "x = CHR ''}'' \<and> m = [(unquote raw, j)] \<and> r = xs
          \<or> x = CHR '','' \<and> (\<exists>m'. pmembers n (skip_ws xs) = Some (m', r) \<and> m = (unquote raw, j) # m')"
      unfolding pmembers_Some by blast
    note qs = str_tok_local [OF q(2)]
    obtain w0 where w0: "r0 = w0 @ CHR '':'' # ys" "\<And>zs. skip_ws (w0 @ CHR '':'' # zs) = CHR '':'' # zs"
      using skip_ws_Cons [OF q(3)] by metis
    obtain t1 where t1: "skip_ws ys = t1 @ r1" "t1 \<noteq> []" "\<And>r'. num_end r' \<Longrightarrow> pvalue n (t1 @ r') = Some (j, r')"
      using Suc.IH(1) [OF v(1)] by blast
    obtain w1 where w1: "ys = w1 @ t1 @ r1" "\<And>zs. skip_ws (w1 @ t1 @ zs) = t1 @ zs"
      using skip_ws_tok [OF t1(1,2)] by metis
    obtain w where w: "r1 = w @ x # xs" "\<And>ys. skip_ws (w @ x # ys) = x # ys" "w = [] \<or> json_space (hd w)"
      using skip_ws_Cons [OF v(2)] by metis
    have step: "pvalue n (t1 @ w @ x # zs) = Some (j, w @ x # zs)" for zs
      using t1(3) num_end_ws [OF w(3), of x zs] c by blast
    let ?pre = "CHR 0x22 # raw @ CHR 0x22 # w0 @ CHR '':'' # w1 @ t1 @ w @ [x]"
    have s: "s = ?pre @ xs" using q(1) qs w0(1) w1(1) w(1) by simp
    have members: "pmembers (Suc n) (?pre @ zs) = Some (m, r')"
      if "x = CHR ''}'' \<and> m = [(unquote raw, j)] \<and> r' = zs
          \<or> x = CHR '','' \<and> (\<exists>m'. pmembers n (skip_ws zs) = Some (m', r') \<and> m = (unquote raw, j) # m')" for zs r'
      unfolding pmembers_Some
      using that str_tok_local [OF q(2), of "w0 @ CHR '':'' # w1 @ t1 @ w @ x # zs"] w0(2) [of "w1 @ t1 @ w @ x # zs"]
        w1(2) [of "w @ x # zs"] step [of zs] w(2) [of zs] by (simp del: str_tok.simps)
    show ?case
      using c
    proof
      assume "x = CHR ''}'' \<and> m = [(unquote raw, j)] \<and> r = xs"
      then show ?thesis using s members by (intro exI [of _ ?pre]) (simp del: append.simps)
    next
      assume "x = CHR '','' \<and> (\<exists>m'. pmembers n (skip_ws xs) = Some (m', r) \<and> m = (unquote raw, j) # m')"
      then obtain m' where x: "x = CHR '',''" and e: "pmembers n (skip_ws xs) = Some (m', r)" "m = (unquote raw, j) # m'"
        by blast
      obtain tok where tok: "skip_ws xs = tok @ r" "tok \<noteq> []" "\<And>r'. pmembers n (tok @ r') = Some (m', r')"
        using Suc.IH(3) [OF e(1)] by blast
      obtain w2 where w2: "xs = w2 @ tok @ r" "\<And>ys. skip_ws (w2 @ tok @ ys) = tok @ ys"
        using skip_ws_tok [OF tok(1,2)] by metis
      have "pmembers (Suc n) (?pre @ w2 @ tok @ r') = Some (m, r')" for r'
        by (rule members) (simp add: x e(2) w2(2) tok(3))
      then show ?thesis using s w2(1) by (intro exI [of _ "?pre @ w2 @ tok"]) simp
    qed
  }
qed simp_all

section \<open>Quoting\<close>

text \<open>The bytes that a rune of a string was decoded from.\<close>

lemma of_char_byte: "(of_char (c :: char) :: nat) < 256"
  using of_char_of [of "of_char c :: nat"] by (metis char_of_char mod_less_divisor zero_less_numeral of_char_of)

lemma encode_two:
  "194 \<le> x \<Longrightarrow> x \<le> 223 \<Longrightarrow> 128 \<le> y \<Longrightarrow> y \<le> 191 \<Longrightarrow>
     encode_rune ((x - 192) * 64 + (y - 128)) = [char_of x, char_of (y :: nat)]"
proof -
  assume a: "194 \<le> x" "x \<le> 223" "128 \<le> y" "y \<le> 191"
  define p q where "p = x - 192" and "q = y - 128"
  have "x = 192 + p" "y = 128 + q" "2 \<le> p" "p < 32" "q < 64" using a by (auto simp: p_def q_def)
  then show ?thesis by (simp add: encode_rune_def)
qed

lemma split64: "(u :: nat) < 64 \<Longrightarrow> (u + a * 64) div 64 = a \<and> (u + a * 64) mod 64 = u"
  by simp

lemma div4096: "(r :: nat) div 4096 = r div 64 div 64"
  by (simp add: div_mult2_eq [symmetric])

lemma div262144: "(r :: nat) div 262144 = r div 64 div 64 div 64"
  by (simp add: div_mult2_eq [symmetric])

lemma encode_three:
  assumes "224 \<le> x" "x \<le> 239" "(if x = 224 then 160 else 128) \<le> y" "y \<le> (if x = 237 then 159 else 191)"
    "128 \<le> z" "z \<le> (191 :: nat)"
  shows "encode_rune ((x - 224) * 4096 + (y - 128) * 64 + (z - 128)) = [char_of x, char_of y, char_of z]"
proof -
  define p q u where "p = x - 224" and "q = y - 128" and "u = z - 128"
  have x: "x = 224 + p" "y = 128 + q" "z = 128 + u" "p < 16" "q < 64" "u < 64" "p = 0 \<Longrightarrow> 32 \<le> q" "p = 13 \<Longrightarrow> q < 32"
    using assms by (auto simp: p_def q_def u_def split: if_splits)
  let ?r = "p * 4096 + q * 64 + u"
  have r: "?r = u + (q + p * 64) * 64" by simp
  have "?r div 64 = q + p * 64" "?r mod 64 = u" unfolding r using split64 x(6) by blast+
  then have "?r div 4096 = p" "?r div 64 mod 64 = q" "?r mod 64 = u"
    unfolding div4096 using split64 [OF x(5), of p] by simp_all
  moreover have "2048 \<le> ?r" "?r < 65536" using x(4-7) by (cases "p = 0"; simp)+
  moreover have "\<not> (55296 \<le> ?r \<and> ?r < 57344)"
    using x(4-6,8) by (cases "p = 13"; cases "p < 13") auto
  ultimately show ?thesis using x(1-3) by (auto simp: encode_rune_def)
qed

lemma encode_four:
  assumes "240 \<le> x" "x \<le> 244" "(if x = 240 then 144 else 128) \<le> y" "y \<le> (if x = 244 then 143 else 191)"
    "128 \<le> z" "z \<le> 191" "128 \<le> v" "v \<le> (191 :: nat)"
  shows "encode_rune ((x - 240) * 262144 + (y - 128) * 4096 + (z - 128) * 64 + (v - 128))
    = [char_of x, char_of y, char_of z, char_of v]"
proof -
  define p q u w where "p = x - 240" and "q = y - 128" and "u = z - 128" and "w = v - 128"
  have x: "x = 240 + p" "y = 128 + q" "z = 128 + u" "v = 128 + w" "p < 5" "q < 64" "u < 64" "w < 64"
      "p = 0 \<Longrightarrow> 16 \<le> q" "p = 4 \<Longrightarrow> q < 16"
    using assms by (auto simp: p_def q_def u_def w_def split: if_splits)
  let ?r = "p * 262144 + q * 4096 + u * 64 + w"
  have r: "?r = w + (u + (q + p * 64) * 64) * 64" by simp
  have "?r div 64 = u + (q + p * 64) * 64" "?r mod 64 = w" unfolding r using split64 x(8) by blast+
  then have "?r div 262144 = p" "?r div 4096 mod 64 = q" "?r div 64 mod 64 = u" "?r mod 64 = w"
    unfolding div4096 div262144 using split64 [OF x(7), of "q + p * 64"] split64 [OF x(6), of p] by simp_all
  moreover have "65536 \<le> ?r" using x(5-9) by (cases "p = 0") auto
  moreover have "?r \<le> 1114111" using x(5-8,10) by (cases "p = 4") auto
  ultimately show ?thesis using x(1-4) by (simp add: encode_rune_def)
qed

lemma take_bytes:
  "1 \<le> length s \<Longrightarrow> take 1 s = [s ! 0]" "2 \<le> length s \<Longrightarrow> take 2 s = [s ! 0, s ! 1]"
  "3 \<le> length s \<Longrightarrow> take 3 s = [s ! 0, s ! 1, s ! 2]" "4 \<le> length s \<Longrightarrow> take 4 s = [s ! 0, s ! 1, s ! 2, s ! 3]"
  by (auto simp: numeral_eq_Suc Suc_le_length_iff)

lemma encode_decode:
  assumes "s \<noteq> []" "decode_rune s \<noteq> (rune_error, 1)"
  shows "encode_rune (fst (decode_rune s)) = take (snd (decode_rune s)) s"
  using assms(1)
proof (cases rule: decode_rune_cases)
  case ascii
  moreover have "take 1 s = [s ! 0]" using assms(1) by (intro take_bytes) (cases s; simp)
  ultimately show ?thesis by (simp add: encode_rune_def)
next
  case two
  then show ?thesis
    using encode_two [of "of_char (s ! 0)" "of_char (s ! 1)"] take_bytes(2) [of s] by (simp add: seq2_def byte_in_def)
next
  case three
  then show ?thesis
    using encode_three [of "of_char (s ! 0)" "of_char (s ! 1)" "of_char (s ! 2)"] take_bytes(3) [of s]
    by (simp add: seq3_def byte_in_def)
next
  case four
  then show ?thesis
    using encode_four [of "of_char (s ! 0)" "of_char (s ! 1)" "of_char (s ! 2)" "of_char (s ! 3)"] take_bytes(4) [of s]
    by (simp add: seq4_def byte_in_def)
qed (use assms(2) in simp)

text \<open>Each rune of a string is an ASCII character, a well-formed sequence of high bytes, or one invalid byte.\<close>

definition rune_ok :: "nat \<times> string \<Rightarrow> bool" where
  "rune_ok rb \<longleftrightarrow> (case rb of (r, b) \<Rightarrow>
     (\<exists>c. b = [c] \<and> r = of_char c \<and> r < 128)
     \<or> (128 \<le> r \<and> list_all (\<lambda>c. 128 \<le> (of_char c :: nat)) b \<and> encode_rune r = b)
     \<or> (r = rune_error \<and> length b = 1))"

lemma encode_high:
  assumes "128 \<le> r"
  shows "list_all (\<lambda>c. 128 \<le> (of_char c :: nat)) (encode_rune r)"
proof -
  have "(of_char (char_of (k + a) :: char) :: nat) \<ge> 128" if "128 \<le> k" "k + a < 256" for k a :: nat
    using that by (simp add: of_char_of)
  moreover have "r < 2048 \<Longrightarrow> 192 + r div 64 < 256" "r < 65536 \<Longrightarrow> 224 + r div 4096 < 256"
    "r \<le> 1114111 \<Longrightarrow> 240 + r div 262144 < 256" "128 + q mod 64 < 256" for q :: nat
    by auto
  ultimately show ?thesis using assms by (auto simp: encode_rune_def)
qed

lemma decode_rune_low: "s \<noteq> [] \<Longrightarrow> fst (decode_rune s) < 128 \<Longrightarrow>
    take (snd (decode_rune s)) s = [s ! 0] \<and> fst (decode_rune s) = of_char (s ! 0)"
proof -
  assume a: "s \<noteq> []" "fst (decode_rune s) < 128"
  have t: "take 1 s = [s ! 0]" using a(1) by (intro take_bytes) (cases s; simp)
  from a(1) show ?thesis
  proof (cases rule: decode_rune_cases)
    case two
    then have "128 \<le> fst (decode_rune s)" by (auto simp: seq2_def byte_in_def)
    then show ?thesis using a by simp
  next
    case three
    have "encode_rune (fst (decode_rune s)) = take 3 s" using encode_decode [OF a(1)] three by simp
    then have "length (encode_rune (fst (decode_rune s))) = 3" using three(1) by (simp add: seq3_def)
    then show ?thesis using a(2) by (simp add: encode_rune_def)
  next
    case four
    have "encode_rune (fst (decode_rune s)) = take 4 s" using encode_decode [OF a(1)] four by simp
    then have "length (encode_rune (fst (decode_rune s))) = 4" using four(1) by (simp add: seq4_def)
    then show ?thesis using a(2) by (simp add: encode_rune_def)
  qed (use a t in \<open>simp_all add: rune_error_def\<close>)
qed

lemma runes_ok: "rb \<in> set (runes s) \<Longrightarrow> rune_ok rb"
proof (induction s rule: runes.induct)
  case (1 s)
  have ne: "s \<noteq> []" using "1.prems" by auto
  let ?r = "fst (decode_rune s)" and ?b = "take (snd (decode_rune s)) s"
  have "rune_ok (?r, ?b)"
  proof (cases "decode_rune s = (rune_error, 1)")
    case True
    then show ?thesis using ne by (simp add: rune_ok_def Suc_le_eq)
  next
    case False
    note e = encode_decode [OF ne False]
    show ?thesis
      using decode_rune_low [OF ne] e encode_high [of ?r] by (cases "?r < 128") (auto simp: rune_ok_def)
  qed
  then show ?case using "1.prems" "1.IH" [OF ne refl] by (auto simp: runes_nonempty [OF ne])
qed

text \<open>The reader steps over every piece of an escaped text.\<close>

lemma str_tok_plain:
  "list_all (\<lambda>c. 32 \<le> (of_char c :: nat) \<and> c \<noteq> CHR 0x22 \<and> c \<noteq> CHR 0x5C) b \<Longrightarrow>
     str_tok (b @ t) = map_option (\<lambda>(x, r). (b @ x, r)) (str_tok t)"
  by (induction b) (auto simp: str_tok_other option.map_comp comp_def case_prod_beta' option.map_ident simp del: str_tok.simps
      intro!: map_option_cong)

lemma hex_nibbles: "list_all hex_digit [nibble (r div 4096 mod 16), nibble (r div 256 mod 16), nibble (r div 16 mod 16), nibble (r mod 16)]"
  using hex_digit_nibble by simp

lemma char_of_escapes:
  "char_of (34 :: nat) = CHR 0x22" "char_of (92 :: nat) = CHR 0x5C" "char_of (8 :: nat) = CHR 0x08"
  "char_of (12 :: nat) = CHR 0x0C" "char_of (10 :: nat) = CHR 0x0A" "char_of (13 :: nat) = CHR 0x0D"
  "char_of (9 :: nat) = CHR 0x09"
  by code_simp+

lemma str_tok_u_escape: "str_tok (u_escape r @ t) = map_option (\<lambda>(x, y). (u_escape r @ x, y)) (str_tok t)"
  using str_tok_uni [OF hex_nibbles, of r t] by (simp add: u_escape_def char_of_escapes del: str_tok.simps)

lemma high_plain:
  "128 \<le> (of_char c :: nat) \<Longrightarrow> 32 \<le> (of_char c :: nat) \<and> c \<noteq> CHR 0x22 \<and> c \<noteq> CHR 0x5C"
  by auto

text \<open>The shapes of an escaped rune.\<close>

lemma escape_rune_cases:
  assumes "rune_ok (r, b)"
  obtains (simple) e c where "escape_rune (r, b) = [CHR 0x5C, e]" "b = [c]" "simple_escape e = c"
      "e \<in> {CHR 0x22, CHR 0x5C, CHR ''/'', CHR ''b'', CHR ''f'', CHR ''n'', CHR ''r'', CHR ''t''}"
      "\<not> (r = rune_error \<and> length b = 1)"
    | (uni) "escape_rune (r, b) = u_escape r" "encode_rune r = b" "r < 55296" "\<not> (r = rune_error \<and> length b = 1)"
    | (invalid) "escape_rune (r, b) = u_escape rune_error" "r = rune_error" "length b = 1"
    | (plain) "escape_rune (r, b) = b" "\<not> (r = rune_error \<and> length b = 1)"
        "list_all (\<lambda>c. 32 \<le> (of_char c :: nat) \<and> c \<noteq> CHR 0x22 \<and> c \<noteq> CHR 0x5C) b"
proof -
  consider (low) c where "b = [c]" "r = of_char c" "r < 128"
    | (high) "128 \<le> r" "list_all (\<lambda>c. 128 \<le> (of_char c :: nat)) b" "encode_rune r = b" "\<not> (r = rune_error \<and> length b = 1)"
    | (bad) "r = rune_error" "length b = 1"
    using assms unfolding rune_ok_def by blast
  then show thesis
  proof cases
    case low
    have ne: "\<not> (r = rune_error \<and> length b = 1)" using low(3) by (simp add: rune_error_def)
    have c: "c = char_of r" using low(2) by simp
    consider "r \<in> {34, 92, 8, 12, 10, 13, 9}" | "r \<notin> {34, 92, 8, 12, 10, 13, 9}" "r < 32 \<or> r = 38 \<or> r = 60 \<or> r = 62"
      | "r \<notin> {34, 92, 8, 12, 10, 13, 9}" "\<not> (r < 32 \<or> r = 38 \<or> r = 60 \<or> r = 62)" by blast
    then show thesis
    proof cases
      case 1
      then obtain e where "escape_rune (r, b) = [CHR 0x5C, e]" "simple_escape e = c"
          "e \<in> {CHR 0x22, CHR 0x5C, CHR ''b'', CHR ''f'', CHR ''n'', CHR ''r'', CHR ''t''}"
        using low(1) c by (elim insertE emptyE) (simp_all add: escape_rune_def char_of_escapes simple_escape_def)
      then show thesis using simple [of e c] low(1) ne by blast
    next
      case 2
      then show thesis
        using uni low(1,3) c ne by (simp add: escape_rune_def encode_rune_def) 
    next
      case 3
      then have "c \<noteq> CHR 0x22" "c \<noteq> CHR 0x5C" using low(2) by auto
      then show thesis using plain 3 low ne by (simp add: escape_rune_def rune_error_def)
    qed
  next
    case high
    show thesis
    proof (cases "r = 8232 \<or> r = 8233")
      case True
      then have "escape_rune (r, b) = u_escape r" "r < 55296" by (elim disjE; simp add: escape_rune_def)+
      then show thesis using uni high(3,4) by blast
    next
      case False
      have "list_all (\<lambda>c. 32 \<le> (of_char c :: nat) \<and> c \<noteq> CHR 0x22 \<and> c \<noteq> CHR 0x5C) b"
        using high(2) by (rule list.pred_mono_strong) (rule high_plain)
      moreover have "escape_rune (r, b) = b" using False high(1,4) by (auto simp: escape_rune_def)
      ultimately show thesis using plain high(4) by blast
    qed
  next
    case bad
    then show thesis using invalid by (simp add: escape_rune_def rune_error_def)
  qed
qed

lemma str_tok_escape:
  "rune_ok rb \<Longrightarrow> str_tok (escape_rune rb @ t) = map_option (\<lambda>(x, r). (escape_rune rb @ x, r)) (str_tok t)"
proof -
  assume ok: "rune_ok rb"
  obtain r b where rb: "rb = (r, b)" by force
  from ok show ?thesis unfolding rb
    by (cases rule: escape_rune_cases) (simp_all add: str_tok_simple str_tok_u_escape str_tok_plain del: str_tok.simps)
qed

lemma str_tok_quote:
  "str_tok (concat (map escape_rune (runes s)) @ CHR 0x22 # t) = Some (concat (map escape_rune (runes s)), t)"
proof -
  have "\<forall>rb \<in> set rs. rune_ok rb \<Longrightarrow>
      str_tok (concat (map escape_rune rs) @ CHR 0x22 # t) = Some (concat (map escape_rune rs), t)" for rs
    by (induction rs) (simp_all add: str_tok_escape str_tok_close del: str_tok.simps)
  then show ?thesis using runes_ok by blast
qed

text \<open>Reading the escapes back gives the text with invalid UTF-8 repaired.\<close>

definition repaired :: "nat \<times> string \<Rightarrow> string" where
  "repaired = (\<lambda>(r, b). if r = rune_error \<and> length b = 1 then [CHR 0xEF, CHR 0xBF, CHR 0xBD] else b)"

lemma valid_utf8_repaired: "valid_utf8 s = concat (map repaired (runes s))"
  by (simp add: valid_utf8_def repaired_def)

lemma unescape_plain: "c \<noteq> CHR 0x5C \<Longrightarrow> unescape (c # s) = c # unescape s"
  by (induction "c # s" rule: unescape.induct) auto

lemma unescape_simple:
  "e \<in> {CHR 0x22, CHR 0x5C, CHR ''/'', CHR ''b'', CHR ''f'', CHR ''n'', CHR ''r'', CHR ''t''} \<Longrightarrow>
     unescape (CHR 0x5C # e # s) = simple_escape e # unescape s"
  by (elim insertE) simp_all

lemma unescape_uni:
  "\<not> (55296 \<le> hex4 h1 h2 h3 h4 \<and> hex4 h1 h2 h3 h4 < 56320) \<Longrightarrow>
     unescape (CHR 0x5C # CHR ''u'' # h1 # h2 # h3 # h4 # s) = encode_rune (hex4 h1 h2 h3 h4) @ unescape s"
  by (auto simp: Let_def)

lemma hex_val_nibble: "n < 16 \<Longrightarrow> hex_val (nibble n) = n"
  by (auto simp: hex_val_def nibble_def byte_in_def of_char_of)

lemma hex4_nibbles:
  assumes "r < 65536"
  shows "hex4 (nibble (r div 4096 mod 16)) (nibble (r div 256 mod 16)) (nibble (r div 16 mod 16)) (nibble (r mod 16)) = r"
proof -
  have d: "r div 256 = r div 16 div 16" "r div 4096 = r div 16 div 16 div 16"
    by (simp_all add: div_mult2_eq [symmetric])
  have "r div 16 div 16 div 16 < 16" using assms by (simp add: div_mult2_eq [symmetric] less_mult_imp_div_less)
  then show ?thesis unfolding hex4_def by (simp add: hex_val_nibble d)
qed

lemma unescape_bytes:
  "list_all (\<lambda>c. 32 \<le> (of_char c :: nat) \<and> c \<noteq> CHR 0x22 \<and> c \<noteq> CHR 0x5C) b \<Longrightarrow> unescape (b @ t) = b @ unescape t"
  by (induction b) (auto simp: unescape_plain simp del: unescape.simps)

lemma unescape_u_escape:
  assumes "r < 65536" "\<not> (55296 \<le> r \<and> r < 56320)"
  shows "unescape (u_escape r @ t) = encode_rune r @ unescape t"
  unfolding u_escape_def char_of_escapes append_Cons append_Nil
  using unescape_uni [of "nibble (r div 4096 mod 16)" "nibble (r div 256 mod 16)" "nibble (r div 16 mod 16)" "nibble (r mod 16)" t,
    unfolded hex4_nibbles [OF assms(1)]] assms(2) by blast

lemma encode_rune_error: "encode_rune rune_error = [CHR 0xEF, CHR 0xBF, CHR 0xBD]"
proof -
  have "char_of (239 :: nat) = CHR 0xEF" "char_of (191 :: nat) = CHR 0xBF" "char_of (189 :: nat) = CHR 0xBD"
    by code_simp+
  then show ?thesis by (simp add: encode_rune_def rune_error_def)
qed

lemma unescape_escape: "rune_ok rb \<Longrightarrow> unescape (escape_rune rb @ t) = repaired rb @ unescape t"
proof -
  assume "rune_ok rb"
  moreover obtain r b where rb: "rb = (r, b)" by force
  ultimately have "rune_ok (r, b)" by simp
  then have "unescape (escape_rune (r, b) @ t) = repaired (r, b) @ unescape t"
  proof (cases rule: escape_rune_cases)
    case (simple e c)
    then show ?thesis using unescape_simple [OF simple(4), of t] by (simp add: repaired_def del: unescape.simps)
  next
    case uni
    then show ?thesis by (auto simp: unescape_u_escape repaired_def)
  next
    case invalid
    then show ?thesis
      using unescape_u_escape [of rune_error t] encode_rune_error by (simp add: repaired_def rune_error_def)
  next
    case plain
    then show ?thesis by (auto simp: unescape_bytes repaired_def)
  qed
  then show ?thesis using rb by simp
qed

lemma unescape_quote: "unescape (concat (map escape_rune (runes s))) = valid_utf8 s"
proof -
  have "\<forall>rb \<in> set rs. rune_ok rb \<Longrightarrow> unescape (concat (map escape_rune rs)) = concat (map repaired rs)" for rs
    by (induction rs) (simp_all add: unescape_escape)
  then show ?thesis using runes_ok by (simp add: valid_utf8_repaired)
qed

lemma valid_utf8_valid: "ValidString s \<Longrightarrow> valid_utf8 s = s"
proof -
  assume "ValidString s"
  then have "map repaired (runes s) = map snd (runes s)"
    by (auto simp: ValidString_runes repaired_def)
  then show ?thesis by (metis valid_utf8_repaired runes_bytes)
qed

lemma ValidString_replacement: "ValidString [CHR 0xEF, CHR 0xBF, CHR 0xBD]"
  by (simp add: ValidString_def runes_nonempty decode_rune_def seq2_def seq3_def byte_in_def)

lemma ValidString_valid_utf8 [simp]: "ValidString (valid_utf8 s)"
proof (induction s rule: runes.induct)
  case (1 s)
  show ?case
  proof (cases "s = []")
    case False
    let ?w = "snd (decode_rune s)"
    have v: "valid_utf8 s = repaired (fst (decode_rune s), take ?w s) @ valid_utf8 (drop ?w s)"
      by (simp add: valid_utf8_repaired runes_nonempty [OF False])
    have "take ?w s = take (rune_prefix 1 s) s"
      using decode_rune_width [OF False] by (simp add: rune_prefix_def runes_nonempty [OF False])
    then have "runes (take ?w s) = [(fst (decode_rune s), take ?w s)]"
      using runes_cut(1) [of 1 s] by (simp add: runes_nonempty [OF False])
    then have "ValidString (repaired (fst (decode_rune s), take ?w s))"
      using ValidString_replacement by (auto simp: repaired_def ValidString_runes)
    then show ?thesis using v "1.IH" [OF False refl] ValidString_append by simp
  qed (simp add: valid_utf8_repaired)
qed

lemma unquote_quote: "unquote (concat (map escape_rune (runes s))) = valid_utf8 s"
  by (simp add: unquote_def unescape_quote valid_utf8_valid)

lemma pvalue_quote: "pvalue (Suc n) (quote s @ t) = Some (JString (valid_utf8 s), t)"
  using pvalue_str [OF str_tok_quote, of n s t] by (simp add: quote_def unquote_quote del: pvalue.simps)

end
