(* ===== verification/Protocol_Decode.thy ===== *)
theory Protocol_Decode
  imports Protocol Json_Text
begin

text \<open>
  The decoder of the device protocol (\<open>Decode\<close>, \<open>DecodePayload\<close> and \<open>ProtocolVersion.UnmarshalJSON\<close> of
  \<open>internal/protocol/envelope.go\<close>) with the part of \<open>encoding/json\<close> it relies on: an object is decoded
  into a struct member by member, names match without regard to case, a later member overwrites an
  earlier one, \<open>null\<close> leaves a plain field as it is, and a \<open>json.RawMessage\<close> keeps the text of its value.
  The text of the library's own errors is not modelled; the code of every error is. The property is that
  decoding reads back every envelope that \<open>Encode\<close> writes.
\<close>

section \<open>Objects with raw members\<close>

fun rmembers :: "nat \<Rightarrow> string \<Rightarrow> ((string \<times> string) list \<times> string) option" where
  "rmembers 0 s = None"
| "rmembers (Suc n) s =
     (case s of
        [] \<Rightarrow> None
      | q # qs \<Rightarrow>
        if q \<noteq> CHR 0x22 then None
        else (case str_tok qs of
          None \<Rightarrow> None
        | Some (raw, r0) \<Rightarrow>
          (case skip_ws r0 of
             [] \<Rightarrow> None
           | y # ys \<Rightarrow>
             if y \<noteq> CHR '':'' then None
             else let v = skip_ws ys in
               (case pvalue (Suc (2 * length v)) v of
                  None \<Rightarrow> None
                | Some (j, r) \<Rightarrow>
                  let tok = take (length v - length r) v in
                  (case skip_ws r of
                     [] \<Rightarrow> None
                   | x # xs \<Rightarrow>
                       if x = CHR ''}'' then Some ([(unquote raw, tok)], xs)
                       else if x = CHR '','' then
                         map_option (\<lambda>(m, r'). ((unquote raw, tok) # m, r')) (rmembers n (skip_ws xs))
                       else None)))))"

text \<open>The value at the start of a text: \<open>null\<close>, an object with its members, or another value; and the rest.\<close>

datatype json_top = Top_null | Top_object "(string \<times> string) list" | Top_other

definition object_members :: "string \<Rightarrow> (string \<times> string) list option" where
  "object_members v =
     (case skip_ws (tl v) of
        [] \<Rightarrow> None
      | x # xs \<Rightarrow> if x = CHR ''}'' then Some [] else map_option fst (rmembers (length v) (x # xs)))"

definition read_top :: "string \<Rightarrow> (json_top \<times> string) option" where
  "read_top s =
     (let v = skip_ws s in
      case pvalue (Suc (2 * length v)) v of
        None \<Rightarrow> None
      | Some (j, r) \<Rightarrow>
        (case j of
           JNull \<Rightarrow> Some (Top_null, r)
         | JObj _ \<Rightarrow> map_option (\<lambda>m. (Top_object m, r)) (object_members v)
         | _ \<Rightarrow> Some (Top_other, r)))"

text \<open>
  Names of fields are compared after folding. Only the long s and the Kelvin sign fold to an ASCII letter
  besides the letters themselves, so other runes may stay as they are.
\<close>

definition fold_rune :: "nat \<Rightarrow> nat" where
  "fold_rune r = (if 97 \<le> r \<and> r \<le> 122 then r - 32 else if r = 383 then 83 else if r = 8490 then 75 else r)"

definition field_is :: "string \<Rightarrow> string \<Rightarrow> bool" where
  "field_is name key \<longleftrightarrow> map (fold_rune \<circ> fst) (runes key) = map (fold_rune \<circ> fst) (runes name)"

text \<open>A string field and a \<open>uint64\<close> field; \<open>None\<close> is an error, the second argument the value so far.\<close>

definition digits_val :: "string \<Rightarrow> nat" where
  "digits_val = foldl (\<lambda>a c. a * 10 + (of_char c - 48)) 0"

definition set_string :: "string \<Rightarrow> string \<Rightarrow> string option" where
  "set_string raw old =
     (case parse_json raw of Some (JString s) \<Rightarrow> Some s | Some JNull \<Rightarrow> Some old | _ \<Rightarrow> None)"

definition set_uint64 :: "string \<Rightarrow> nat \<Rightarrow> nat option" where
  "set_uint64 raw old =
     (case parse_json raw of
        Some (JNum t) \<Rightarrow> if list_all is_digit t \<and> digits_val t < 2 ^ 64 then Some (digits_val t) else None
      | Some JNull \<Rightarrow> Some old
      | _ \<Rightarrow> None)"

section \<open>The version\<close>

text \<open>
  \<open>strconv.ParseFloat\<close> rounds a decimal number to the nearest binary64 number, to the even one of two. A
  number is its sign, its digits and its exponent of ten; the value is a fraction of natural numbers.
\<close>

definition num_parts :: "string \<Rightarrow> bool \<times> nat \<times> int" where
  "num_parts t =
     (let neg = (t \<noteq> [] \<and> hd t = CHR ''-''); u = (if neg then tl t else t);
          (i, r1) = digits u;
          (f, r2) = (if r1 \<noteq> [] \<and> hd r1 = CHR ''.'' then digits (tl r1) else ([], r1));
          ex = (if r2 = [] then 0
                else let e = tl r2 in
                  if e \<noteq> [] \<and> hd e = CHR ''-'' then - int (digits_val (tl e))
                  else if e \<noteq> [] \<and> hd e = CHR ''+'' then int (digits_val (tl e))
                  else int (digits_val e))
      in (neg, digits_val (i @ f), ex - int (length f)))"

definition as_fraction :: "nat \<Rightarrow> int \<Rightarrow> nat \<times> nat" where
  "as_fraction m e = (if 0 \<le> e then (m * 10 ^ nat e, 1) else (m, 10 ^ nat (- e)))"

fun ilog2 :: "nat \<Rightarrow> nat" where
  "ilog2 n = (if n < 2 then 0 else Suc (ilog2 (n div 2)))"

declare ilog2.simps [simp del]

definition round_even :: "nat \<Rightarrow> nat \<Rightarrow> nat" where
  "round_even a b =
     (let q = a div b; r = a mod b
      in if 2 * r < b then q else if 2 * r > b then q + 1 else if even q then q else q + 1)"

text \<open>
  The integer that \<open>n / d\<close> is rounded to, when the binary64 number is an integer of at most \<open>2^53 - 1\<close>. From
  1 on the number with \<open>k\<close> as the floor of its logarithm has steps of \<open>2^(k - 52)\<close>; below 1 only 0 and 1
  are integers, with the ends of their rounding intervals at \<open>2^-1075\<close> and \<open>1 - 2^-54\<close>.
\<close>

definition maximumExactJSONInteger :: nat where "maximumExactJSONInteger = 9007199254740991"

definition float_int :: "nat \<Rightarrow> nat \<Rightarrow> nat option" where
  "float_int n d =
     (if n \<ge> d * 2 ^ 53 then None
      else if n < d
      then if n * 2 ^ 1075 \<le> d then Some 0 else if (2 ^ 54 - 1) * d \<le> n * 2 ^ 54 then Some 1 else None
      else let sh = 52 - ilog2 (n div d); m = round_even (n * 2 ^ sh) d
           in if m mod 2 ^ sh = 0 \<and> m div 2 ^ sh \<le> maximumExactJSONInteger then Some (m div 2 ^ sh) else None)"

definition exact_int :: "string \<Rightarrow> int option" where
  "exact_int t =
     (let (neg, m, e) = num_parts t; (n, d) = as_fraction m e
      in map_option (\<lambda>x. if neg then - int x else int x) (float_int n d))"

definition ProtocolVersion_UnmarshalJSON :: "string \<Rightarrow> int option" where
  "ProtocolVersion_UnmarshalJSON data =
     (let trimmed = TrimSpace data in
      if trimmed = [] \<or> trimmed = ''null'' \<or> hd trimmed = CHR 0x22 then None
      else case parse_json trimmed of Some (JNum t) \<Rightarrow> exact_int t | _ \<Rightarrow> None)"

section \<open>Decode\<close>

definition decode_error :: "string \<Rightarrow> ProtocolError" where
  "decode_error msg = \<lparr>pe_Code = InvalidEnvelopeCode, pe_Detail = msg\<rparr>"

text \<open>The header's \<open>Version *ProtocolVersion\<close>: \<open>null\<close> resets the pointer, other members are skipped.\<close>

fun header_version :: "(string \<times> string) list \<Rightarrow> int option \<Rightarrow> int option option" where
  "header_version [] v = Some v"
| "header_version ((key, raw) # ms) v =
     (if field_is ''version'' key
      then if raw = ''null'' then header_version ms None
           else case ProtocolVersion_UnmarshalJSON raw of None \<Rightarrow> None | Some x \<Rightarrow> header_version ms (Some x)
      else header_version ms v)"

definition zero_envelope :: Envelope where
  "zero_envelope = \<lparr>en_Version = 0, en_Type = [], en_MessageID = [], en_CorrelationID = [], en_SessionID = [],
     en_TurnID = [], en_GenerationID = 0, en_IdempotencyKey = [], en_OccurredAt = [], en_Payload = []\<rparr>"

text \<open>One member of the envelope; an unknown name is an error (\<open>DisallowUnknownFields\<close>).\<close>

definition decode_member :: "string \<times> string \<Rightarrow> Envelope \<Rightarrow> Envelope option" where
  "decode_member = (\<lambda>(key, raw) e.
     if field_is ''version'' key then map_option (\<lambda>x. e\<lparr>en_Version := x\<rparr>) (ProtocolVersion_UnmarshalJSON raw)
     else if field_is ''type'' key then map_option (\<lambda>x. e\<lparr>en_Type := x\<rparr>) (set_string raw (en_Type e))
     else if field_is ''message_id'' key then map_option (\<lambda>x. e\<lparr>en_MessageID := x\<rparr>) (set_string raw (en_MessageID e))
     else if field_is ''correlation_id'' key
       then map_option (\<lambda>x. e\<lparr>en_CorrelationID := x\<rparr>) (set_string raw (en_CorrelationID e))
     else if field_is ''session_id'' key then map_option (\<lambda>x. e\<lparr>en_SessionID := x\<rparr>) (set_string raw (en_SessionID e))
     else if field_is ''turn_id'' key then map_option (\<lambda>x. e\<lparr>en_TurnID := x\<rparr>) (set_string raw (en_TurnID e))
     else if field_is ''generation_id'' key
       then map_option (\<lambda>x. e\<lparr>en_GenerationID := x\<rparr>) (set_uint64 raw (en_GenerationID e))
     else if field_is ''idempotency_key'' key
       then map_option (\<lambda>x. e\<lparr>en_IdempotencyKey := x\<rparr>) (set_string raw (en_IdempotencyKey e))
     else if field_is ''occurred_at'' key
       then map_option (\<lambda>x. e\<lparr>en_OccurredAt := x\<rparr>) (set_string raw (en_OccurredAt e))
     else if field_is ''payload'' key then Some (e\<lparr>en_Payload := raw\<rparr>)
     else None)"

fun decode_members :: "(string \<times> string) list \<Rightarrow> Envelope \<Rightarrow> Envelope option" where
  "decode_members [] e = Some e"
| "decode_members (m # ms) e = Option.bind (decode_member m e) (decode_members ms)"

text \<open>\<open>json.Unmarshal(data, &header)\<close>: one value and nothing but space after it.\<close>

definition unmarshal_header :: "string \<Rightarrow> int option option" where
  "unmarshal_header data =
     (case read_top data of
        None \<Rightarrow> None
      | Some (j, r) \<Rightarrow>
        if skip_ws r \<noteq> [] then None
        else (case j of
                Top_null \<Rightarrow> Some None
              | Top_object ms \<Rightarrow> header_version ms None
              | Top_other \<Rightarrow> None))"

text \<open>\<open>decoder.Decode(&envelope)\<close>, with the text that the decoder has not read.\<close>

definition decoder_Decode :: "string \<Rightarrow> (Envelope \<times> string) option" where
  "decoder_Decode data =
     (case read_top data of
        None \<Rightarrow> None
      | Some (j, r) \<Rightarrow>
        (case j of
           Top_null \<Rightarrow> Some (zero_envelope, r)
         | Top_object ms \<Rightarrow> map_option (\<lambda>e. (e, r)) (decode_members ms zero_envelope)
         | Top_other \<Rightarrow> None))"

definition ensureJSONEOF :: "string \<Rightarrow> string option" where
  "ensureJSONEOF r =
     (if skip_ws r = [] then None
      else if read_top r = None then Some ''decode trailing data'' else Some ''unexpected data after JSON object'')"

definition Decode :: "string \<Rightarrow> ProtocolError + Envelope" where
  "Decode data =
     (if data = [] \<or> length data > MaximumEnvelopeBytes
      then Inl (decode_error ''envelope is empty or exceeds size limit'')
      else case unmarshal_header data of
        None \<Rightarrow> Inl (decode_error ''decode envelope'')
      | Some None \<Rightarrow> Inl (decode_error ''version is required'')
      | Some (Some v) \<Rightarrow>
        if v \<noteq> Version
        then Inl \<lparr>pe_Code = UnsupportedProtocolVersionCode, pe_Detail = ''got '' @ FormatInt v @ '', want 2''\<rparr>
        else case decoder_Decode data of
          None \<Rightarrow> Inl (decode_error ''decode envelope'')
        | Some (envelope, rest) \<Rightarrow>
          (case ensureJSONEOF rest of
             Some e \<Rightarrow> Inl (decode_error e)
           | None \<Rightarrow>
             (case Envelope_Validate envelope of Some e \<Rightarrow> Inl e | None \<Rightarrow> Inr envelope)))"

text \<open>
  \<open>DecodePayload\<close> for a payload type given by its decoder, which returns the payload and the unread text, and
  its validator; a type without a \<open>Validate\<close> method has the validator that accepts everything.
\<close>

definition DecodePayload ::
    "(string \<Rightarrow> ('p \<times> string) option) \<Rightarrow> ('p \<Rightarrow> string option) \<Rightarrow> Envelope \<Rightarrow> ProtocolError + 'p" where
  "DecodePayload decode validate envelope =
     (case decode (en_Payload envelope) of
        None \<Rightarrow> Inl (decode_error ''decode payload'')
      | Some (payload, rest) \<Rightarrow>
        (case ensureJSONEOF rest of
           Some e \<Rightarrow> Inl (decode_error e)
         | None \<Rightarrow> (case validate payload of Some e \<Rightarrow> Inl (decode_error e) | None \<Rightarrow> Inr payload)))"

text \<open>\<open>strconv.ParseInt(s, 10, 64)\<close>, which is \<open>strconv.Atoi\<close> too, and \<open>strings.TrimPrefix\<close>.\<close>

definition ParseInt64 :: "string \<Rightarrow> int option" where
  "ParseInt64 s =
     (let neg = (s \<noteq> [] \<and> hd s = CHR ''-''); plus = (s \<noteq> [] \<and> hd s = CHR ''+'');
          ds = (if neg \<or> plus then tl s else s);
          v = (if neg then - int (digits_val ds) else int (digits_val ds))
      in if ds \<noteq> [] \<and> list_all is_digit ds \<and> in_int64 v then Some v else None)"

definition TrimPrefix :: "string \<Rightarrow> string \<Rightarrow> string" where
  "TrimPrefix s p = (if take (length p) s = p then drop (length p) s else s)"

section \<open>Numbers\<close>

lemma digit_char: "(n :: nat) < 10 \<Longrightarrow> is_digit (char_of (48 + n)) \<and> of_char (char_of (48 + n) :: char) - 48 = n"
  by (auto simp: is_digit_def byte_in_def of_char_of)

lemma decimal_digits: "list_all is_digit (decimal n) \<and> decimal n \<noteq> [] \<and> digits_val (decimal n) = n"
proof (induction n rule: decimal.induct)
  case (1 n)
  show ?case
  proof (cases "n < 10")
    case True
    then show ?thesis using digit_char [of n] by (simp add: decimal.simps [of n] digits_val_def)
  next
    case False
    then show ?thesis
      using 1 digit_char [of "n mod 10"]
      by (simp add: decimal.simps [of n] digits_val_def)
  qed
qed

lemma decimal_zero: "hd (decimal n) = CHR ''0'' \<Longrightarrow> n = 0"
proof (induction n rule: decimal.induct)
  case (1 n)
  show ?case
  proof (cases "n < 10")
    case True
    have "(of_char (char_of (48 + n) :: char) :: nat) = 48 + n" using True by (simp add: of_char_of)
    moreover have "char_of (48 + n) = CHR ''0''" using "1.prems" True by (simp add: decimal.simps [of n])
    then have "(of_char (char_of (48 + n) :: char) :: nat) = 48" by (simp only:) simp
    ultimately show ?thesis by simp
  next
    case False
    then have "hd (decimal n) = hd (decimal (n div 10))"
      using decimal_digits [of "n div 10"] by (simp add: decimal.simps [of n])
    then have "n div 10 = 0" using "1.IH" [OF False] "1.prems" by simp
    then show ?thesis using False by simp
  qed
qed

lemma decimal_0: "decimal 0 = ''0''"
  by code_simp

lemma num_end_pieces: "num_end r \<Longrightarrow> num_frac r = Some ([], r)" "num_end r \<Longrightarrow> num_exp r = Some ([], r)"
  by (cases r; auto simp: num_end_def num_frac_def num_exp_def)+

lemma num_tok_decimal:
  assumes "num_end r"
  shows "num_tok (decimal n @ r) = Some (decimal n, r)"
proof -
  obtain c cs where d: "decimal n = c # cs" using decimal_digits [of n] by (cases "decimal n") auto
  have c: "is_digit c" "list_all is_digit (c # cs)" using decimal_digits [of n] d by auto
  have dig: "digits (decimal n @ r) = (decimal n, r)"
    using decimal_digits [of n] assms by (intro digits_append) (auto simp: num_end_def)
  have "num_int (decimal n @ r) = Some (decimal n, r)"
  proof (cases "c = CHR ''0''")
    case True
    then have "decimal n = ''0''" using decimal_zero [of n] d decimal_0 by simp
    then show ?thesis by (simp add: num_int_def)
  next
    case False
    then show ?thesis using c dig d by (simp add: num_int_def)
  qed
  moreover have "c \<noteq> CHR ''-''" using c(1) by auto
  ultimately show ?thesis using num_end_pieces [OF assms] d by (simp add: num_tok_def)
qed

lemma pvalue_decimal: "num_end r \<Longrightarrow> pvalue (Suc n) (decimal k @ r) = Some (JNum (decimal k), r)"
proof -
  assume r: "num_end r"
  obtain c cs where d: "decimal k = c # cs" "is_digit c"
    using decimal_digits [of k] by (cases "decimal k") auto
  then have "c \<notin> {CHR 0x22, CHR ''{'', CHR ''['', CHR ''t'', CHR ''f'', CHR ''n''}"
    by (auto simp: is_digit_def byte_in_def)
  then show ?thesis using num_tok_decimal [OF r, of k] d by (intro pvalue_num) auto
qed

section \<open>Texts of values and objects\<close>

definition value_text :: "string \<Rightarrow> bool" where
  "value_text v \<longleftrightarrow> (\<forall>r. num_end r \<longrightarrow> (\<exists>j. pvalue (Suc (2 * length v)) (v @ r) = Some (j, r)))"

lemma pvalue_nonspace: "pvalue n (c # s) = Some x \<Longrightarrow> \<not> json_space c"
proof -
  assume "pvalue n (c # s) = Some x"
  then obtain m j r where v: "pvalue (Suc m) (c # s) = Some (j, r)" by (cases n; cases x) auto
  show ?thesis
  proof
    assume "json_space c"
    then have sp: "c \<in> {CHR 0x20, CHR 0x09, CHR 0x0D, CHR 0x0A}" by (simp add: json_space_def)
    have "num_tok (c # s) = None" using sp by (elim insertE) (simp_all add: num_tok_def num_int_def is_digit_def byte_in_def)
    then show False using v sp by (elim insertE) simp_all
  qed
qed

lemma value_text_Cons: "value_text v \<Longrightarrow> \<exists>c cs. v = c # cs \<and> \<not> json_space c"
proof -
  assume v: "value_text v"
  have "num_end ''}''" by (simp add: num_end_def is_digit_def byte_in_def)
  then obtain j where j: "pvalue (Suc (2 * length v)) (v @ ''}'') = Some (j, ''}'')"
    using v unfolding value_text_def by blast
  then obtain tok where "v @ ''}'' = tok @ ''}''" "tok \<noteq> []" using parser_local(1) [OF j] by auto
  then obtain c cs where "v = c # cs" by (cases v) auto
  then show ?thesis using pvalue_nonspace [of _ c "cs @ ''}''"] j by (auto simp del: pvalue.simps)
qed

lemma skip_ws_value: "value_text v \<Longrightarrow> skip_ws (v @ r) = v @ r"
  using value_text_Cons [of v] by (auto simp: skip_ws_def)

lemma value_text_quote: "value_text (quote s)"
  using pvalue_quote by (auto simp: value_text_def simp del: pvalue.simps)

lemma value_text_decimal: "value_text (decimal n)"
  using pvalue_decimal by (auto simp: value_text_def simp del: pvalue.simps)

definition member_text :: "string \<times> string \<Rightarrow> string" where
  "member_text = (\<lambda>(k, v). quote k @ '':'' @ v)"

lemma value_text_fuel:
  assumes "value_text v" "num_end r" "Suc (2 * length v) \<le> n"
  shows "\<exists>j. pvalue n (v @ r) = Some (j, r)"
  using assms parser_fuel(1) unfolding value_text_def by blast

lemma rmembers_member:
  assumes "value_text v" "x = CHR ''}'' \<or> x = CHR '',''"
  shows "rmembers (Suc n) (member_text (k, v) @ x # xs) =
    (if x = CHR ''}'' then Some ([(valid_utf8 k, v)], xs)
     else map_option (\<lambda>(m, r'). ((valid_utf8 k, v) # m, r')) (rmembers n (skip_ws xs)))"
proof -
  let ?e = "concat (map escape_rune (runes k))"
  have ne: "num_end (x # xs)" using assms(2) num_end_ws [of "[]" x xs] by auto
  have q: "str_tok (?e @ CHR 0x22 # CHR '':'' # v @ x # xs) = Some (?e, CHR '':'' # v @ x # xs)"
    by (rule str_tok_quote)
  obtain j where j: "pvalue (Suc (2 * length (v @ x # xs))) (v @ x # xs) = Some (j, x # xs)"
    using value_text_fuel [OF assms(1) ne, of "Suc (2 * length (v @ x # xs))"] by auto
  have colon: "skip_ws (CHR '':'' # s) = CHR '':'' # s" and sx: "skip_ws (x # s) = x # s" for s
    using assms(2) by (auto simp: skip_ws_def json_space_def)
  show ?thesis
    using q j assms(2) skip_ws_value [OF assms(1), of "x # xs"] colon sx
    by (auto simp: member_text_def quote_def unquote_quote Let_def simp del: pvalue.simps str_tok.simps)
qed

lemma skip_ws_member: "skip_ws (member_text kv @ r) = member_text kv @ r"
  by (cases kv) (simp add: member_text_def quote_def skip_ws_def json_space_def)

lemma rmembers_join:
  "kvs \<noteq> [] \<Longrightarrow> \<forall>(k, v) \<in> set kvs. value_text v \<Longrightarrow> length kvs \<le> n \<Longrightarrow>
     rmembers n (join '','' (map member_text kvs) @ CHR ''}'' # r) = Some (map (\<lambda>(k, v). (valid_utf8 k, v)) kvs, r)"
proof (induction kvs arbitrary: n)
  case (Cons kv kvs)
  obtain k v where kv: "kv = (k, v)" by force
  obtain m where n: "n = Suc m" using Cons.prems(3) by (cases n) auto
  have v: "value_text v" using Cons.prems(2) kv by auto
  show ?case
  proof (cases kvs)
    case Nil
    then show ?thesis using rmembers_member [OF v, of "CHR ''}''" m k r] kv n by (simp del: rmembers.simps)
  next
    case (Cons kv2 kvs2)
    let ?rest = "join '','' (map member_text kvs) @ CHR ''}'' # r"
    have "skip_ws ?rest = ?rest"
      using skip_ws_member [of kv2] Cons by (cases kvs2) simp_all
    moreover have "rmembers m ?rest = Some (map (\<lambda>(k, v). (valid_utf8 k, v)) kvs, r)"
      using Cons.IH [of m] Cons.prems n Cons by (simp del: rmembers.simps)
    ultimately show ?thesis
      using rmembers_member [OF v, of "CHR '',''" m k ?rest] kv n Cons by (simp del: rmembers.simps)
  qed
qed simp

text \<open>The members with their raw values are those that the parser of values reads.\<close>

lemma skip_ws_length: "length (skip_ws s) \<le> length s"
  by (simp add: skip_ws_def length_dropWhile_le)

lemma rmembers_pmembers:
  "rmembers n s = Some (ms, r) \<Longrightarrow> 2 * length s \<le> f \<Longrightarrow> \<exists>m. pmembers f s = Some (m, r)"
proof (induction n arbitrary: s ms f)
  case (Suc n)
  obtain qs raw r0 ys where q: "s = CHR 0x22 # qs" "str_tok qs = Some (raw, r0)" "skip_ws r0 = CHR '':'' # ys"
    using Suc.prems(1) by (auto split: list.splits option.splits if_splits)
  define v where "v = skip_ws ys"
  obtain j r1 x xs where v: "pvalue (Suc (2 * length v)) v = Some (j, r1)" "skip_ws r1 = x # xs"
    and c: "x = CHR ''}'' \<and> r = xs \<or> x = CHR '','' \<and> (\<exists>m'. rmembers n (skip_ws xs) = Some (m', r))"
    using Suc.prems(1) q by (auto simp: v_def [symmetric] Let_def simp del: pvalue.simps split: list.splits option.splits if_splits)
  have "length qs = length raw + Suc (length r0)" using str_tok_local [OF q(2)] by simp
  moreover have "length ys < length r0" using skip_ws_length [of r0] q(3) by simp
  moreover have "length v \<le> length ys" by (simp add: v_def skip_ws_length)
  moreover have "length xs < length v"
    using parser_local(1) [OF v(1)] skip_ws_length [of r1] v(2) by auto
  ultimately have len: "length v + 3 \<le> length s" "length xs + 4 \<le> length s" using q(1) by auto
  obtain g where g: "f = Suc g" using Suc.prems(2) len by (cases f) auto
  have "pvalue g v = Some (j, r1)" using parser_fuel(1) [OF v(1)] len(1) g Suc.prems(2) by simp
  moreover have "\<exists>m'. pmembers g (skip_ws xs) = Some (m', r)" if "rmembers n (skip_ws xs) = Some (m', r)" for m'
    using Suc.IH [OF that, of g] skip_ws_length [of xs] len(2) g Suc.prems(2) by simp
  ultimately show ?case
    using c q v(2) by (auto simp: g v_def [symmetric] simp del: pvalue.simps str_tok.simps)
qed simp

section \<open>Reading back an envelope\<close>

lemma read_top_object:
  assumes "kvs \<noteq> []" "\<forall>(k, v) \<in> set kvs. value_text v" "list_all (ValidString \<circ> fst) kvs"
  shows "read_top (''{'' @ join '','' (map member_text kvs) @ ''}'') = Some (Top_object kvs, [])"
proof -
  let ?b = "join '','' (map member_text kvs) @ ''}''"
  have len: "length kvs \<le> length (join '','' (map member_text kvs))" for kvs
    by (induction kvs rule: induct_list012) (auto simp: member_text_def quote_def)
  have "map (\<lambda>(k, v). (valid_utf8 k, v)) kvs = kvs"
    using assms(3) by (intro map_idI) (auto simp: list_all_iff valid_utf8_valid)
  then have r: "rmembers n ?b = Some (kvs, [])" if "length kvs \<le> n" for n
    using rmembers_join [OF assms(1,2) that, of "[]"] by simp
  obtain x xs where b: "?b = x # xs" "x = CHR 0x22" "skip_ws ?b = ?b"
    using assms(1) by (cases kvs; cases "tl kvs") (auto simp: member_text_def quote_def skip_ws_def json_space_def)
  obtain m where "pmembers (2 * length (CHR ''{'' # ?b)) ?b = Some (m, [])"
    using rmembers_pmembers [OF r [OF len], of "2 * length (CHR ''{'' # ?b)"] by auto
  then have "pvalue (Suc (2 * length (CHR ''{'' # ?b))) (CHR ''{'' # ?b) = Some (JObj m, [])"
    using b by (intro pvalue_obj) auto
  moreover have "object_members (CHR ''{'' # ?b) = Some kvs"
  proof -
    have "rmembers (length (CHR ''{'' # ?b)) ?b = Some (kvs, [])" using len [of kvs] by (intro r) simp
    then show ?thesis using b by (simp add: object_members_def del: rmembers.simps)
  qed
  ultimately show ?thesis by (simp add: read_top_def skip_ws_def json_space_def del: pvalue.simps)
qed

text \<open>The members that \<open>json.Marshal\<close> writes for an envelope.\<close>

definition str_member :: "string \<Rightarrow> string \<Rightarrow> (string \<times> string) list" where
  "str_member name value = (if value = [] then [] else [(name, quote value)])"

definition gen_member :: "nat \<Rightarrow> (string \<times> string) list" where
  "gen_member n = (if n = 0 then [] else [(''generation_id'', decimal n)])"

definition envelope_members :: "Envelope \<Rightarrow> (string \<times> string) list" where
  "envelope_members e =
     [(''version'', FormatInt (en_Version e)), (''type'', quote (en_Type e)), (''message_id'', quote (en_MessageID e))]
     @ str_member ''correlation_id'' (en_CorrelationID e) @ str_member ''session_id'' (en_SessionID e)
     @ str_member ''turn_id'' (en_TurnID e)
     @ gen_member (en_GenerationID e) @ str_member ''idempotency_key'' (en_IdempotencyKey e) @ str_member ''occurred_at'' (en_OccurredAt e)
     @ [(''payload'', en_Payload e)]"

lemma str_field_member: "str_field name v = map member_text (str_member name v)"
  by (simp add: str_field_def str_member_def member_text_def)

lemma marshal_envelope_members:
  "marshal_envelope e = ''{'' @ join '','' (map member_text (envelope_members e)) @ ''}''"
  by (simp add: marshal_envelope_def envelope_members_def gen_member_def str_field_member member_text_def)

lemma parse_quote: "parse_json (quote s) = Some (JString (valid_utf8 s))"
  using pvalue_quote [of "2 * length (quote s)" s "[]"]
  by (simp add: parse_json_def skip_ws_def json_space_def quote_def del: pvalue.simps)

lemma set_string_quote: "ValidString s \<Longrightarrow> set_string (quote s) old = Some s"
  by (simp add: set_string_def parse_quote valid_utf8_valid)

lemma set_uint64_decimal:
  assumes "n < 2 ^ 64"
  shows "set_uint64 (decimal n) old = Some n"
proof -
  have "skip_ws (decimal n) = decimal n" using skip_ws_value [OF value_text_decimal, of n "[]"] by simp
  moreover have "num_end []" by (simp add: num_end_def)
  ultimately have "parse_json (decimal n) = Some (JNum (decimal n))"
    using pvalue_decimal [of "[]" "2 * length (decimal n)" n] by (simp add: parse_json_def skip_ws_def del: pvalue.simps)
  then show ?thesis using assms decimal_digits [of n] by (simp add: set_uint64_def)
qed

lemma FormatInt_2: "FormatInt 2 = ''2''"
  by code_simp

lemma unmarshal_version_2: "ProtocolVersion_UnmarshalJSON ''2'' = Some 2"
proof -
  have "exact_int ''2'' = Some 2"
    by (simp add: exact_int_def num_parts_def digits_def is_digit_def byte_in_def digits_val_def as_fraction_def
        float_int_def ilog2.simps round_even_def maximumExactJSONInteger_def)
  moreover have "parse_json ''2'' = Some (JNum ''2'')" by code_simp
  moreover have "TrimSpace ''2'' = ''2''" by (rule TrimSpace_graphic) (simp add: graphic_def)
  ultimately show ?thesis by (simp add: ProtocolVersion_UnmarshalJSON_def)
qed

text \<open>The names of the envelope's fields are told apart.\<close>

definition field_names :: "string list" where
  "field_names = [''version'', ''type'', ''message_id'', ''correlation_id'', ''session_id'', ''turn_id'',
     ''generation_id'', ''idempotency_key'', ''occurred_at'', ''payload'']"

lemma field_is_literals [simp]:
  "name \<in> set field_names \<Longrightarrow> key \<in> set field_names \<Longrightarrow> field_is name key \<longleftrightarrow> key = name"
  unfolding field_names_def list.set by (elim insertE emptyE; simp add: field_is_def fold_rune_def)


lemma MessageType_ValidString: "MessageType_Valid t \<Longrightarrow> ValidString t"
proof -
  assume "MessageType_Valid t"
  then have "\<forall>c \<in> set t. 32 < (of_char c :: nat) \<and> (of_char c :: nat) < 127"
    unfolding MessageType_Valid_def control_types_def capability_types_def interaction_types_def list.set
    by (elim disjE insertE emptyE) simp_all
  then have "graphic t" by (simp add: graphic_def list_all_iff)
  then show ?thesis by (auto simp: ValidString_runes runes_graphic graphic_def list_all_iff rune_error_def)
qed

text \<open>The strings of an envelope are valid UTF-8 and its payload is the text of one value.\<close>

definition envelope_text_ok :: "Envelope \<Rightarrow> bool" where
  "envelope_text_ok e \<longleftrightarrow> ValidString (en_Type e) \<and> ValidString (en_MessageID e) \<and> ValidString (en_CorrelationID e)
     \<and> ValidString (en_SessionID e) \<and> ValidString (en_TurnID e) \<and> ValidString (en_IdempotencyKey e)
     \<and> ValidString (en_OccurredAt e) \<and> en_GenerationID e < 2 ^ 64 \<and> en_Version e = 2 \<and> value_text (en_Payload e)"

lemma ValidString_field_names: "name \<in> set field_names \<Longrightarrow> ValidString name"
  unfolding field_names_def list.set by (elim insertE emptyE; simp add: ValidString_def rune_error_def)

lemma envelope_members_ok:
  assumes "envelope_text_ok e"
  shows "\<forall>(k, v) \<in> set (envelope_members e). value_text v" "list_all (ValidString \<circ> fst) (envelope_members e)"
proof -
  have "value_text ''2''" using value_text_decimal [of 2] FormatInt_2 by (simp add: FormatInt_def)
  then show "\<forall>(k, v) \<in> set (envelope_members e). value_text v"
    using assms value_text_quote value_text_decimal
    by (auto simp: envelope_members_def str_member_def gen_member_def envelope_text_ok_def FormatInt_2)
  have "fst ` set (envelope_members e) \<subseteq> set field_names"
    by (auto simp: envelope_members_def str_member_def gen_member_def field_names_def)
  then show "list_all (ValidString \<circ> fst) (envelope_members e)"
    using ValidString_field_names by (auto simp: list_all_iff)
qed

lemma version_in_field_names: "''version'' \<in> set field_names"
  by (simp add: field_names_def)

lemma header_version_skip:
  "\<forall>(k, v) \<in> set ms. k \<in> set field_names \<and> k \<noteq> ''version'' \<Longrightarrow> header_version ms x = Some x"
proof (induction ms)
  case (Cons m ms)
  then show ?case by (cases m) (simp add: version_in_field_names)
qed simp

lemma header_version_envelope:
  "envelope_text_ok e \<Longrightarrow> header_version (envelope_members e) None = Some (Some 2)"
proof -
  assume ok: "envelope_text_ok e"
  obtain ms where ms: "envelope_members e = (''version'', FormatInt (en_Version e)) # ms"
    by (simp add: envelope_members_def)
  have "\<forall>(k, v) \<in> set ms. k \<in> set field_names \<and> k \<noteq> ''version''"
    using ms by (auto simp: envelope_members_def str_member_def gen_member_def field_names_def split: if_splits)
  then show ?thesis
    using ok ms header_version_skip [of ms "Some 2"] version_in_field_names
    by (simp add: envelope_text_ok_def FormatInt_2 unmarshal_version_2)
qed

lemma decode_members_append:
  "decode_members (xs @ ys) e = Option.bind (decode_members xs e) (decode_members ys)"
  by (induction xs arbitrary: e) (auto split: bind_splits)


lemma decode_str_members:
  "ValidString v \<Longrightarrow> en_CorrelationID e = [] \<Longrightarrow> decode_members (str_member ''correlation_id'' v) e = Some (e\<lparr>en_CorrelationID := v\<rparr>)"
  "ValidString v \<Longrightarrow> en_SessionID e = [] \<Longrightarrow> decode_members (str_member ''session_id'' v) e = Some (e\<lparr>en_SessionID := v\<rparr>)"
  "ValidString v \<Longrightarrow> en_TurnID e = [] \<Longrightarrow> decode_members (str_member ''turn_id'' v) e = Some (e\<lparr>en_TurnID := v\<rparr>)"
  "ValidString v \<Longrightarrow> en_IdempotencyKey e = [] \<Longrightarrow> decode_members (str_member ''idempotency_key'' v) e = Some (e\<lparr>en_IdempotencyKey := v\<rparr>)"
  "ValidString v \<Longrightarrow> en_OccurredAt e = [] \<Longrightarrow> decode_members (str_member ''occurred_at'' v) e = Some (e\<lparr>en_OccurredAt := v\<rparr>)"
  by (cases "v = []"; cases e; simp add: str_member_def decode_member_def set_string_quote field_names_def)+

lemma decode_generation_member:
  "n < 2 ^ 64 \<Longrightarrow> en_GenerationID e = 0 \<Longrightarrow>
     decode_members (gen_member n) e = Some (e\<lparr>en_GenerationID := n\<rparr>)"
  by (cases e) (simp add: gen_member_def decode_member_def set_uint64_decimal field_names_def)

lemma decode_required_members:
  "ValidString t \<Longrightarrow> ValidString m \<Longrightarrow>
     decode_members [(''version'', ''2''), (''type'', quote t), (''message_id'', quote m)] e
       = Some (e\<lparr>en_Version := 2, en_Type := t, en_MessageID := m\<rparr>)"
  "decode_members [(''payload'', p)] e = Some (e\<lparr>en_Payload := p\<rparr>)"
  by (simp_all add: decode_member_def set_string_quote unmarshal_version_2 field_names_def)

lemma decode_members_envelope:
  "envelope_text_ok e \<Longrightarrow> decode_members (envelope_members e) zero_envelope = Some e"
  unfolding envelope_members_def decode_members_append
  by (cases e) (simp add: envelope_text_ok_def FormatInt_2 zero_envelope_def decode_required_members decode_str_members
      decode_generation_member del: decode_members.simps)

lemma Decode_marshal:
  assumes "envelope_text_ok e" "Envelope_Validate e = None" "length (marshal_envelope e) \<le> MaximumEnvelopeBytes"
  shows "Decode (marshal_envelope e) = Inr e"
proof -
  have "envelope_members e \<noteq> []" by (simp add: envelope_members_def)
  then have top: "read_top (marshal_envelope e) = Some (Top_object (envelope_members e), [])"
    unfolding marshal_envelope_members using envelope_members_ok [OF assms(1)] by (rule read_top_object)
  have "marshal_envelope e \<noteq> []" by (simp add: marshal_envelope_members)
  moreover have "unmarshal_header (marshal_envelope e) = Some (Some 2)"
    using top header_version_envelope [OF assms(1)] by (simp add: unmarshal_header_def skip_ws_def)
  moreover have "decoder_Decode (marshal_envelope e) = Some (e, [])"
    using top decode_members_envelope [OF assms(1)] by (simp add: decoder_Decode_def)
  ultimately show ?thesis using assms(2,3) by (simp add: Decode_def Version_def ensureJSONEOF_def skip_ws_def)
qed

lemma value_text_object:
  assumes "raw_object raw" "TrimSpace raw = raw"
  shows "value_text raw"
proof -
  have h: "hd raw = CHR ''{''" "last raw = CHR ''}''" "Valid raw" "raw \<noteq> []"
    using assms by (auto simp: raw_object_def Let_def)
  obtain cs where raw: "raw = CHR ''{'' # cs" using h by (cases raw) auto
  have sk: "skip_ws raw = raw" using raw by (simp add: skip_ws_def json_space_def)
  obtain j r where v: "pvalue (Suc (2 * length raw)) raw = Some (j, r)" "skip_ws r = []"
    using h(3) sk by (auto simp: Valid_def parse_json_def simp del: pvalue.simps split: option.splits if_splits)
  have nj: "j \<noteq> JNum t" for t using v(1) raw by (cases rule: pvalue_cases) auto
  obtain tok where tok: "raw = tok @ r" "\<And>r'. pvalue (Suc (2 * length raw)) (tok @ r') = Some (j, r')"
    using parser_local(1) [OF v(1)] nj by blast
  have "r = []"
  proof (rule ccontr)
    assume ne: "r \<noteq> []"
    then have "json_space (last r)" using v(2) by (simp add: skip_ws_def dropWhile_eq_Nil_conv)
    moreover have "last r = CHR ''}''" using tok(1) h(2) ne by simp
    ultimately show False by (simp add: json_space_def)
  qed
  then show ?thesis using tok by (auto simp: value_text_def simp del: pvalue.simps)
qed

section \<open>Properties\<close>

text \<open>
  C26: Decoding is the inverse of encoding. Whatever \<open>Encode\<close> sends, \<open>Decode\<close> accepts and reads back as the
  same envelope, type, identifiers, generation and the bytes of the payload included, when the strings of the
  metadata are valid UTF-8 (others are repaired on the way) and the payload has no space around it, as
  \<open>json.Marshal\<close> writes it.
\<close>

theorem decode_encode:
  assumes "Encode messageType m validated raw = Inr bytes" "TrimSpace raw = raw" "md_GenerationID m < 2 ^ 64"
    "ValidString (md_MessageID m)" "ValidString (md_CorrelationID m)" "ValidString (md_SessionID m)"
    "ValidString (md_TurnID m)" "ValidString (md_IdempotencyKey m)" "ValidString (md_OccurredAt m)"
  shows "Decode bytes = Inr (envelope_of messageType m raw)"
proof -
  let ?e = "envelope_of messageType m raw"
  have v: "Envelope_Validate ?e = None" "bytes = marshal_envelope ?e" "length bytes \<le> MaximumEnvelopeBytes"
    using assms(1) by (auto simp: Encode_def Let_def split: option.splits if_splits)
  have t: "MessageType_Valid messageType" and p: "raw_object raw"
    using v(1) by (auto simp: Envelope_Validate_def envelope_of_def invalid_envelope_def split: if_splits)
  have "envelope_text_ok ?e"
    using assms MessageType_ValidString [OF t] value_text_object [OF p assms(2)]
    by (simp add: envelope_text_ok_def envelope_of_def Version_def)
  then show ?thesis using Decode_marshal v by simp
qed

definition ping_metadata :: Metadata where
  "ping_metadata = \<lparr>md_MessageID = ''m1'', md_CorrelationID = [], md_SessionID = ''s1'', md_TurnID = [],
     md_GenerationID = 7, md_IdempotencyKey = [], md_OccurredAt = []\<rparr>"

lemma ping_encodes:
  "Encode ''session.ping'' ping_metadata None ''{}'' = Inr (marshal_envelope (envelope_of ''session.ping'' ping_metadata ''{}''))"
proof -
  have ids: "TrimSpace ''m1'' = ''m1''" "TrimSpace ''s1'' = ''s1''" "TrimSpace ''{}'' = ''{}''"
    by (rule TrimSpace_graphic, simp add: graphic_def)+
  have "raw_object ''{}''"
    using ids(3) by (simp add: raw_object_def Valid_def parse_json_def skip_ws_def json_space_def)
  then have "Envelope_Validate (envelope_of ''session.ping'' ping_metadata ''{}'') = None"
    using ids by (simp add: Envelope_Validate_def envelope_of_def ping_metadata_def Version_def MessageType_Valid_def
        control_types_def invalid_envelope_def validateOpaqueID_def optional_id_def and_then_def MaximumPayloadBytes_def)
  moreover have "length (marshal_envelope (envelope_of ''session.ping'' ping_metadata ''{}'')) \<le> MaximumEnvelopeBytes"
    by (simp add: marshal_envelope_def envelope_of_def ping_metadata_def Version_def FormatInt_2 str_field_def quote_def
        escape_rune_def decimal.simps MaximumEnvelopeBytes_def rune_error_def)
  ultimately show ?thesis by (simp add: Encode_def Let_def)
qed

theorem decode_encode_witness:
  "\<exists>bytes. Encode ''session.ping'' ping_metadata None ''{}'' = Inr bytes
     \<and> Decode bytes = Inr (envelope_of ''session.ping'' ping_metadata ''{}'')"
proof -
  have "TrimSpace ''{}'' = ''{}''" by (rule TrimSpace_graphic) (simp add: graphic_def)
  moreover have "ValidString ''m1''" "ValidString ''s1''" by (simp_all add: ValidString_def rune_error_def)
  ultimately show ?thesis
    using decode_encode [OF ping_encodes] ping_encodes by (simp add: ping_metadata_def)
qed

text \<open>
  Every rejected version of the protocol gets the code for unsupported versions, whatever else the message
  holds: the version is read before the strict decoding of the other fields.
\<close>

lemma decode_unsupported:
  assumes "read_top data = Some (Top_object ms, r)" "skip_ws r = []" "header_version ms None = Some (Some v)" "v \<noteq> 2"
    "data \<noteq> []" "length data \<le> MaximumEnvelopeBytes"
  shows "\<exists>e. Decode data = Inl e \<and> pe_Code e = UnsupportedProtocolVersionCode"
  using assms by (simp add: Decode_def unmarshal_header_def Version_def)

text \<open>What \<open>Decode\<close> accepts is within the size limit and satisfies the rules of an envelope.\<close>

lemma decode_accepts:
  "Decode data = Inr e \<Longrightarrow> Envelope_Validate e = None \<and> length data \<le> MaximumEnvelopeBytes"
  by (auto simp: Decode_def split: if_splits option.splits prod.splits)

end
