(* ===== verification/Go_Time.thy ===== *)
theory Go_Time
  imports Json_Text
begin

text \<open>
  Calendar dates and \<open>Time.MarshalJSON\<close> of package \<open>time\<close> for an instant in UTC, in the layout
  \<open>RFC3339Nano\<close>. An instant counts nanoseconds since 1 January of year 1. Years outside 0 to 9999
  are an error. The lemmas show that the text determines the instant.
\<close>

section \<open>Dates\<close>

definition leap :: "int \<Rightarrow> bool" where
  "leap y \<longleftrightarrow> (y mod 4 = 0 \<and> y mod 100 \<noteq> 0) \<or> y mod 400 = 0"

definition year_len :: "int \<Rightarrow> int" where
  "year_len y = (if leap y then 366 else 365)"

definition month_lens :: "int \<Rightarrow> int list" where
  "month_lens y = [31, if leap y then 29 else 28, 31, 30, 31, 30, 31, 31, 30, 31, 30, 31]"

text \<open>The year, from \<open>y\<close> on, that a number of days since its first day falls into, and the day of that year.\<close>

function year_of :: "int \<Rightarrow> int \<Rightarrow> int \<times> int" where
  "year_of d y = (if d < year_len y then (y, d) else year_of (d - year_len y) (y + 1))"
  by pat_completeness auto
termination
  by (relation "measure (\<lambda>(d, y). nat d)") (auto simp: year_len_def split: if_splits)

declare year_of.simps [simp del]

text \<open>The month and the day of the month, both from 1.\<close>

fun month_of :: "int list \<Rightarrow> int \<Rightarrow> int \<Rightarrow> int \<times> int" where
  "month_of [] m d = (m, d + 1)"
| "month_of (l # ls) m d = (if d < l then (m, d + 1) else month_of ls (m + 1) (d - l))"

text \<open>Dates repeat after 400 years of 146097 days.\<close>

definition date_of :: "int \<Rightarrow> int \<times> int \<times> int" where
  "date_of days =
     (let era = days div 146097;
          (y, d) = year_of (days mod 146097) 1;
          (m, dd) = month_of (month_lens y) 1 d
      in (era * 400 + y, m, dd))"

section \<open>Texts\<close>

text \<open>The last \<open>w\<close> decimal digits.\<close>

fun pad :: "nat \<Rightarrow> int \<Rightarrow> string" where
  "pad 0 n = []"
| "pad (Suc w) n = pad w (n div 10) @ [char_of (48 + nat (n mod 10))]"

definition fraction :: "int \<Rightarrow> string" where
  "fraction ns = (if ns = 0 then [] else CHR ''.'' # rev (dropWhile (\<lambda>c. c = CHR ''0'') (rev (pad 9 ns))))"

definition clock_text :: "int \<Rightarrow> string" where
  "clock_text ns =
     (let s = ns div 1000000000
      in pad 2 (s div 3600) @ '':'' @ pad 2 (s div 60 mod 60) @ '':'' @ pad 2 (s mod 60)
         @ fraction (ns mod 1000000000))"

definition ns_per_day :: int where "ns_per_day = 86400000000000"

text \<open>\<open>Time.UTC().Format(time.RFC3339Nano)\<close> for years of four digits, and \<open>MarshalJSON\<close>.\<close>

definition rfc3339 :: "time \<Rightarrow> string" where
  "rfc3339 t =
     (case date_of (t div ns_per_day) of
        (y, m, d) \<Rightarrow> pad 4 y @ ''-'' @ pad 2 m @ ''-'' @ pad 2 d @ ''T'' @ clock_text (t mod ns_per_day) @ ''Z'')"

definition json_year_ok :: "time \<Rightarrow> bool" where
  "json_year_ok t \<longleftrightarrow> (let y = fst (date_of (t div ns_per_day)) in 0 \<le> y \<and> y < 10000)"

definition time_json :: "time \<Rightarrow> string option" where
  "time_json t = (if json_year_ok t then Some (quote (rfc3339 t)) else None)"

section \<open>The text determines the instant\<close>

lemma length_pad [simp]: "length (pad w n) = w"
  by (induction w arbitrary: n) simp_all

lemma pad_inj: "pad w n = pad w k \<Longrightarrow> n mod 10 ^ w = k mod 10 ^ w"
proof (induction w arbitrary: n k)
  case (Suc w)
  have d: "(of_char (char_of (48 + nat (x mod 10)) :: char) :: nat) = 48 + nat (x mod 10)" for x :: int
  proof -
    have "x mod 10 < 10" by simp
    then have "48 + nat (x mod 10) < 256" by linarith
    then show ?thesis by (simp add: of_char_of)
  qed
  have "pad w (n div 10) = pad w (k div 10)" and "char_of (48 + nat (n mod 10)) = (char_of (48 + nat (k mod 10)) :: char)"
    using Suc.prems by simp_all
  then have "n div 10 mod 10 ^ w = k div 10 mod 10 ^ w" and "nat (n mod 10) = nat (k mod 10)"
    using Suc.IH d by (blast, metis add_left_cancel)
  then have "n mod (10 * 10 ^ w) = k mod (10 * 10 ^ w)"
    by (simp add: mod_mult2_eq' eq_nat_nat_iff zmod_zmult2_eq)
  then show ?case by simp
qed simp

lemma pad_inj_range: "pad w n = pad w k \<Longrightarrow> 0 \<le> n \<Longrightarrow> n < 10 ^ w \<Longrightarrow> 0 \<le> k \<Longrightarrow> k < 10 ^ w \<Longrightarrow> n = k"
  using pad_inj [of w n k] by simp

lemma strip_zeros:
  "s = rev (dropWhile (\<lambda>c. c = z) (rev s)) @ replicate (length s - length (dropWhile (\<lambda>c. c = z) (rev s))) z"
proof -
  let ?t = "takeWhile (\<lambda>c. c = z) (rev s)" and ?d = "dropWhile (\<lambda>c. c = z) (rev s)"
  have "?t = replicate (length ?t) z" by (metis (mono_tags, lifting) replicate_eqI set_takeWhileD)
  moreover have "length s = length ?t + length ?d" by (metis length_append length_rev takeWhile_dropWhile_id)
  moreover have "s = rev ?d @ rev ?t" by (metis rev_append rev_rev_ident takeWhile_dropWhile_id)
  ultimately show ?thesis by (metis add_diff_cancel_right' rev_replicate)
qed

lemma fraction_inj:
  assumes "fraction n = fraction k" "0 \<le> n" "n < 10 ^ 9" "0 \<le> k" "k < 10 ^ 9"
  shows "n = k"
proof (cases "n = 0 \<or> k = 0")
  case True
  then show ?thesis using assms(1) by (auto simp: fraction_def split: if_splits)
next
  case False
  then have "rev (dropWhile (\<lambda>c. c = CHR ''0'') (rev (pad 9 n))) = rev (dropWhile (\<lambda>c. c = CHR ''0'') (rev (pad 9 k)))"
    using assms(1) by (simp add: fraction_def)
  then have "pad 9 n = pad 9 k"
    using strip_zeros [of "pad 9 n" "CHR ''0''"] strip_zeros [of "pad 9 k" "CHR ''0''"] by (metis length_pad length_rev)
  then show ?thesis using pad_inj_range assms(2-5) by blast
qed

lemma seconds_split: "(s :: int) = s div 3600 * 3600 + s div 60 mod 60 * 60 + s mod 60"
proof -
  have "s div 3600 = s div 60 div 60" by (simp add: zdiv_zmult2_eq [symmetric])
  then show ?thesis using div_mult_mod_eq [of s 60] div_mult_mod_eq [of "s div 60" 60] by presburger
qed

lemma clock_text_inj:
  assumes "clock_text n = clock_text k" "0 \<le> n" "n < ns_per_day" "0 \<le> k" "k < ns_per_day"
  shows "n = k"
proof -
  let ?s = "n div 1000000000" and ?u = "k div 1000000000"
  have s: "0 \<le> ?s" "?s < 86400" "0 \<le> ?u" "?u < 86400"
    using assms(2-5) by (simp_all add: ns_per_day_def div_int_pos_iff)
  have eq: "pad 2 (?s div 3600) = pad 2 (?u div 3600)" "pad 2 (?s div 60 mod 60) = pad 2 (?u div 60 mod 60)"
      "pad 2 (?s mod 60) = pad 2 (?u mod 60)" "fraction (n mod 1000000000) = fraction (k mod 1000000000)"
    using assms(1) by (auto simp: clock_text_def Let_def)
  have "?s div 3600 = ?u div 3600"
    using s by (intro pad_inj_range [OF eq(1)]) (auto simp: pos_imp_zdiv_nonneg_iff)
  moreover have "?s div 60 mod 60 = ?u div 60 mod 60" "?s mod 60 = ?u mod 60"
    by (rule pad_inj_range [OF eq(2)] pad_inj_range [OF eq(3)]; simp add: order.strict_trans [OF pos_mod_bound])+
  ultimately have "?s = ?u" using seconds_split [of ?s] seconds_split [of ?u] by simp
  moreover have "n mod 1000000000 = k mod 1000000000" by (rule fraction_inj [OF eq(4)]) simp_all
  ultimately show ?thesis by (metis div_mult_mod_eq)
qed

lemma year_of_sum:
  "year_of d y = (y', r) \<Longrightarrow> 0 \<le> d \<Longrightarrow>
     d = r + (\<Sum>k \<in> {y..<y'}. year_len k) \<and> y \<le> y' \<and> 0 \<le> r \<and> r < year_len y'"
proof (induction d y rule: year_of.induct)
  case (1 d y)
  show ?case
  proof (cases "d < year_len y")
    case True
    then show ?thesis using "1.prems" by (auto simp: year_of.simps [of d y])
  next
    case False
    then have "year_of (d - year_len y) (y + 1) = (y', r)" using "1.prems"(1) by (simp add: year_of.simps [of d y])
    then have i: "d - year_len y = r + (\<Sum>k \<in> {y + 1..<y'}. year_len k)" "y + 1 \<le> y'" "0 \<le> r" "r < year_len y'"
      using "1.IH" [OF False] False by auto
    have "{y..<y'} = insert y {y + 1..<y'}" using i(2) by auto
    then show ?thesis using i by simp
  qed
qed

lemma era_len: "(\<Sum>k \<in> {1..<401 :: int}. year_len k) = 146097"
  by code_simp

lemma year_of_era:
  assumes "year_of d 1 = (y, r)" "0 \<le> d" "d < 146097"
  shows "1 \<le> y \<and> y \<le> 400"
proof (rule ccontr)
  assume "\<not> ?thesis"
  then have "401 \<le> y" using year_of_sum [OF assms(1,2)] by simp
  then have "(\<Sum>k \<in> {1..<401}. year_len k) \<le> (\<Sum>k \<in> {1..<y}. year_len k)"
    by (intro sum_mono2) (auto simp: year_len_def)
  then show False using year_of_sum [OF assms(1,2)] assms(3) era_len by simp
qed

lemma month_of_sum:
  "month_of ls m0 d = (m, dd) \<Longrightarrow> 0 \<le> d \<Longrightarrow> list_all (\<lambda>l. 0 \<le> l) ls \<Longrightarrow>
     d = dd - 1 + sum_list (take (nat (m - m0)) ls) \<and> m0 \<le> m \<and> m \<le> m0 + int (length ls) \<and> 1 \<le> dd
     \<and> (d < sum_list ls \<longrightarrow> m < m0 + int (length ls) \<and> dd \<le> ls ! nat (m - m0))"
proof (induction ls arbitrary: m0 d)
  case (Cons l ls)
  show ?case
  proof (cases "d < l")
    case False
    then have i: "d - l = dd - 1 + sum_list (take (nat (m - (m0 + 1))) ls)" "m0 + 1 \<le> m" "m \<le> m0 + 1 + int (length ls)" "1 \<le> dd"
        "d - l < sum_list ls \<longrightarrow> m < m0 + 1 + int (length ls) \<and> dd \<le> ls ! nat (m - (m0 + 1))"
      using Cons.IH [of "m0 + 1" "d - l"] Cons.prems by auto
    have "nat (m - m0) = Suc (nat (m - (m0 + 1)))" using i(2) by simp
    then show ?thesis using i by auto
  qed (use Cons.prems in auto)
qed auto

lemma month_lens_ok: "list_all (\<lambda>l. 0 \<le> l \<and> l \<le> 31) (month_lens y)" "length (month_lens y) = 12"
    "sum_list (month_lens y) = year_len y"
  by (simp_all add: month_lens_def year_len_def)

text \<open>A day is given by its era, its year in the era and its day in the year.\<close>

lemma date_of_parts:
  assumes "date_of days = (Y, m, dd)"
  obtains y r where "year_of (days mod 146097) 1 = (y, r)" "1 \<le> y" "y \<le> 400" "Y = days div 146097 * 400 + y"
    "r = dd - 1 + sum_list (take (nat (m - 1)) (month_lens y))" "1 \<le> m" "m \<le> 12" "1 \<le> dd" "dd \<le> 31"
proof -
  obtain y r where yr: "year_of (days mod 146097) 1 = (y, r)" by force
  then have md: "month_of (month_lens y) 1 r = (m, dd)" and Y: "Y = days div 146097 * 400 + y"
    using assms by (auto simp: date_of_def Let_def split: prod.splits)
  have y: "1 \<le> y" "y \<le> 400" using year_of_era [OF yr] by simp_all
  have r: "0 \<le> r" "r < sum_list (month_lens y)" using year_of_sum [OF yr] month_lens_ok(3) by simp_all
  have pos: "list_all (\<lambda>l. 0 \<le> l) (month_lens y)" using month_lens_ok(1) by (auto simp: list_all_iff)
  note s = month_of_sum [OF md r(1) pos]
  have m: "m < 13" "dd \<le> month_lens y ! nat (m - 1)" using s r(2) month_lens_ok(2) by auto
  then have "month_lens y ! nat (m - 1) \<le> 31"
    using month_lens_ok(1,2) [of y] s by (auto simp: list_all_length)
  then show thesis using that yr y Y s m by auto
qed

lemma date_of_inj:
  assumes "date_of a = date_of b"
  shows "a = b"
proof -
  obtain Y m dd where d: "date_of a = (Y, m, dd)" "date_of b = (Y, m, dd)" using assms by (metis prod_cases3)
  obtain y r where a: "year_of (a mod 146097) 1 = (y, r)" "1 \<le> y" "y \<le> 400" "Y = a div 146097 * 400 + y"
      "r = dd - 1 + sum_list (take (nat (m - 1)) (month_lens y))"
    using date_of_parts [OF d(1)] by metis
  obtain y' r' where b: "year_of (b mod 146097) 1 = (y', r')" "1 \<le> y'" "y' \<le> 400" "Y = b div 146097 * 400 + y'"
      "r' = dd - 1 + sum_list (take (nat (m - 1)) (month_lens y'))"
    using date_of_parts [OF d(2)] by metis
  have era: "a div 146097 = b div 146097" using a(2-4) b(2-4) by linarith
  then have y: "y = y'" using a(4) b(4) by simp
  have "r = r'" using a(5) b(5) y by simp
  then have "a mod 146097 = b mod 146097"
    using year_of_sum [OF a(1)] year_of_sum [OF b(1)] y by simp
  then show ?thesis using era by (metis div_mult_mod_eq)
qed

lemma rfc3339_inj:
  assumes "rfc3339 t = rfc3339 u" "json_year_ok t" "json_year_ok u"
  shows "t = u"
proof -
  let ?a = "t div ns_per_day" and ?b = "u div ns_per_day"
  obtain Y m dd where a: "date_of ?a = (Y, m, dd)" by (metis prod_cases3)
  obtain Y' m' dd' where b: "date_of ?b = (Y', m', dd')" by (metis prod_cases3)
  have eq: "pad 4 Y = pad 4 Y'" "pad 2 m = pad 2 m'" "pad 2 dd = pad 2 dd'"
      "clock_text (t mod ns_per_day) = clock_text (u mod ns_per_day)"
    using assms(1) a b by (auto simp: rfc3339_def)
  have Y: "0 \<le> Y" "Y < 10 ^ 4" "0 \<le> Y'" "Y' < 10 ^ 4"
    using assms(2,3) a b by (simp_all add: json_year_ok_def Let_def)
  have md: "0 \<le> m" "m < 10 ^ 2" "0 \<le> dd" "dd < 10 ^ 2"
    by (rule date_of_parts [OF a]; simp)+
  have md': "0 \<le> m'" "m' < 10 ^ 2" "0 \<le> dd'" "dd' < 10 ^ 2"
    by (rule date_of_parts [OF b]; simp)+
  have "Y = Y'" "m = m'" "dd = dd'"
    using pad_inj_range [OF eq(1) Y] pad_inj_range [OF eq(2) md(1,2) md'(1,2)] pad_inj_range [OF eq(3) md(3,4) md'(3,4)] by auto
  then have "?a = ?b" using a b by (simp add: date_of_inj)
  moreover have "t mod ns_per_day = u mod ns_per_day"
    by (rule clock_text_inj [OF eq(4)]) (simp_all add: ns_per_day_def)
  ultimately show ?thesis by (metis div_mult_mod_eq)
qed

lemma ValidString_plain:
  "list_all (\<lambda>c. 32 < (of_char c :: nat) \<and> (of_char c :: nat) < 127) s \<Longrightarrow> ValidString s"
  by (auto simp: ValidString_runes runes_graphic graphic_def list_all_iff rune_error_def)

lemma pad_graphic: "graphic (pad w n)"
proof (induction w arbitrary: n)
  case (Suc w)
  have "n mod 10 < 10" by simp
  then have "48 + nat (n mod 10) < 58" by linarith
  then show ?case using Suc by (simp add: graphic_def of_char_of)
qed simp

lemma rfc3339_graphic: "graphic (rfc3339 t)"
proof -
  have "graphic (rev (dropWhile P (rev (pad 9 n))))" for P n
    using pad_graphic [of 9 n] set_dropWhileD by (fastforce simp: graphic_def list_all_iff)
  then have "graphic (fraction n)" for n by (simp add: fraction_def graphic_def)
  then have "graphic (clock_text n)" for n
    using pad_graphic by (simp add: clock_text_def Let_def graphic_def)
  then show ?thesis using pad_graphic by (simp add: rfc3339_def graphic_def split: prod.splits)
qed

lemma ValidString_rfc3339: "ValidString (rfc3339 t)"
  using rfc3339_graphic [of t] by (auto simp: graphic_def intro: ValidString_plain)

end
