(* ===== verification/Device_Session.thy ===== *)
theory Device_Session
  imports Protocol_Decode Interactions Go_Time
begin

text \<open>
  The websocket session of a device (\<open>server/server.go\<close>, \<open>server/streaming.go\<close>, \<open>server/session_runtime.go\<close>,
  \<open>server/ui_state.go\<close>): voice turns with barge-in, the two write queues and the filter for output of
  superseded turns, and the record of inbound messages. Three goroutines share the session: the reader, the
  writer and one worker per turn. Whatever they do under the mutex, or as one operation on a channel, is one
  step; a worker is a program counter with the values of its local variables. The codec, speech
  recognition, the agent and speech synthesis are third-party: what they return is an argument of a step.
\<close>

section \<open>State\<close>

text \<open>
  An outgoing frame is a packet of audio, or the bytes of an envelope; the type and the metadata from which
  the envelope was encoded are kept beside the bytes, so that properties can speak of them.
\<close>

datatype frame = Text_frame string Metadata string | Binary_frame string

record outbound =
  ob_frame :: frame
  ob_generation :: nat
  turnScoped :: bool

record turn =
  tu_id :: string
  tu_state :: string
  tu_pcm :: string
  tu_generation :: nat

text \<open>
  Where the goroutine of a turn stands: \<open>processTurn\<close> (\<open>P_\<close>), \<open>failTurn\<close> (\<open>F_\<close>) and
  \<open>processStreamingReply\<close> (\<open>S_\<close>), in the order of the source.
\<close>

datatype pc =
  P_asr
| P_check string
| P_transcript string
| P_agent string bool
| P_check_reply string "json option" bool
| P_speaking string "json option" bool
| P_ui string json
| P_tts_start string
| P_sentence string
| P_synth
| P_check_stop
| P_stop
| P_finish
| F_check string string
| F_send string string
| F_clear
| S_thinking
| S_wait nat
| S_check string nat
| S_first string
| S_first_ui string
| S_first_start string
| S_sentence string nat
| S_synth string nat
| S_sentence_end string nat
| S_closed nat
| S_check_stop
| S_stop

record dev_session =
  ds_id :: string
  ds_deviceID :: string
  ds_userID :: string
  controlWrites :: "outbound list"
  mediaWrites :: "outbound list"
  active :: "turn option"
  generation :: nat
  cancelled :: "nat list"
  messageSeq :: nat
  seenInbound :: "string \<Rightarrow> string option"
  seenOrder :: "string list"
  workers :: "(turn \<times> pc) list"

text \<open>
  \<open>generation\<close> is a \<open>uint64\<close>; it counts turns of one connection and does not reach its end. A turn is
  identified by its generation, and \<open>cancelled\<close> holds the generations whose context was cancelled.
\<close>

definition maximumControlQueue :: nat where "maximumControlQueue = 32"
definition maximumMediaQueue :: nat where "maximumMediaQueue = 24"
definition maximumRememberedMessages :: nat where "maximumRememberedMessages = 256"

definition new_session :: "string \<Rightarrow> string \<Rightarrow> string \<Rightarrow> dev_session" where
  "new_session randomID deviceID userID =
     \<lparr>ds_id = randomID, ds_deviceID = (if TrimSpace deviceID = [] then randomID else deviceID),
      ds_userID = (if TrimSpace userID = [] then ''default'' else userID), controlWrites = [], mediaWrites = [],
      active = None, generation = 0, cancelled = [], messageSeq = 0, seenInbound = (\<lambda>_. None), seenOrder = [],
      workers = []\<rparr>"

text \<open>An error with the code that \<open>protocol.ErrorCode\<close> gives it.\<close>

record ctl_error =
  ce_code :: string
  ce_text :: string

definition plain_error :: "string \<Rightarrow> ctl_error" where
  "plain_error msg = \<lparr>ce_code = InvalidEnvelopeCode, ce_text = msg\<rparr>"

definition protocol_error :: "ProtocolError \<Rightarrow> ctl_error" where
  "protocol_error e = \<lparr>ce_code = pe_Code e, ce_text = ProtocolError_Error e\<rparr>"

section \<open>Sending\<close>

text \<open>A payload is the result of its validation and its JSON value.\<close>

type_synonym payload = "string option \<times> json"

definition opt_member :: "string \<Rightarrow> string \<Rightarrow> (string \<times> json) list" where
  "opt_member name v = (if v = [] then [] else [(name, JString v)])"

definition text_payload :: "string \<Rightarrow> payload" where
  "text_payload s = (TextPayload_Validate s, JObj [(''text'', JString s)])"

definition tts_payload :: "string \<Rightarrow> string \<Rightarrow> payload" where
  "tts_payload state s =
     (TTSLifecyclePayload_Validate \<lparr>tts_State = state, tts_Text = s\<rparr>,
      JObj ((''state'', JString state) # opt_member ''text'' s))"

definition turn_state_payload :: "string \<Rightarrow> string \<Rightarrow> payload" where
  "turn_state_payload state reason =
     (TurnStatePayload_Validate \<lparr>ts_State = state, ts_Reason = reason\<rparr>,
      JObj ((''state'', JString state) # opt_member ''reason'' reason))"

definition status_payload :: "string \<Rightarrow> payload" where
  "status_payload state = (AgentStatusPayload_Validate state, JObj [(''state'', JString state)])"

definition card_payload :: "json \<Rightarrow> payload" where
  "card_payload ui = (UICardPayload_Validate ui, JObj [(''ui'', ui)])"

definition ui_payload :: "string \<Rightarrow> string \<Rightarrow> payload" where
  "ui_payload emotion tool =
     (UIStatePayload_Validate \<lparr>Emotion = emotion, ToolName = tool\<rparr>,
      JObj ((''emotion'', JString emotion) # opt_member ''tool_name'' tool))"

definition error_payload :: "string \<Rightarrow> string \<Rightarrow> payload" where
  "error_payload code message =
     (ProtocolErrorPayload_Validate code message, JObj [(''code'', JString code), (''message'', JString message)])"

definition empty_payload :: payload where
  "empty_payload = (None, JObj [])"

definition no_metadata :: Metadata where
  "no_metadata = \<lparr>md_MessageID = [], md_CorrelationID = [], md_SessionID = [], md_TurnID = [], md_GenerationID = 0,
     md_IdempotencyKey = [], md_OccurredAt = []\<rparr>"

definition turn_metadata :: "turn \<Rightarrow> Metadata" where
  "turn_metadata t = no_metadata\<lparr>md_TurnID := tu_id t, md_GenerationID := tu_generation t\<rparr>"

definition nextMessageID :: "dev_session \<Rightarrow> string \<times> dev_session" where
  "nextMessageID s =
     (let n = messageSeq s + 1 in (ds_id s @ ''-'' @ decimal n, s\<lparr>messageSeq := n\<rparr>))"

definition encodeJSON :: "string \<Rightarrow> Metadata \<Rightarrow> payload \<Rightarrow> dev_session \<Rightarrow> (ctl_error + frame) \<times> dev_session" where
  "encodeJSON ty md p s =
     (let (md, s) = (if md_MessageID md = []
                     then let (i, s') = nextMessageID s in (md\<lparr>md_MessageID := i\<rparr>, s') else (md, s));
          md = (if md_SessionID md = [] then md\<lparr>md_SessionID := ds_id s\<rparr> else md)
      in case Encode ty md (fst p) (marshal (snd p)) of
           Inl e \<Rightarrow> (Inl (protocol_error e), s)
         | Inr bytes \<Rightarrow> (Inr (Text_frame ty md bytes), s))"

text \<open>
  \<open>send\<close> never blocks: a cancelled context or a full queue is an error. \<open>gone\<close> tells that the context is
  seen as cancelled; a cancellation between the test and the queueing is not seen.
\<close>

definition send :: "bool \<Rightarrow> outbound \<Rightarrow> dev_session \<Rightarrow> ctl_error option \<times> dev_session" where
  "send gone m s =
     (if gone then (Some (plain_error ''context canceled''), s)
      else case ob_frame m of
        Binary_frame _ \<Rightarrow>
          if length (mediaWrites s) < maximumMediaQueue then (None, s\<lparr>mediaWrites := mediaWrites s @ [m]\<rparr>)
          else (Some (plain_error ''client audio write queue is full''), s)
      | Text_frame _ _ _ \<Rightarrow>
          if length (controlWrites s) < maximumControlQueue then (None, s\<lparr>controlWrites := controlWrites s @ [m]\<rparr>)
          else (Some (plain_error ''client control write queue is full''), s))"

definition sendJSONMeta :: "bool \<Rightarrow> string \<Rightarrow> Metadata \<Rightarrow> payload \<Rightarrow> dev_session \<Rightarrow> ctl_error option \<times> dev_session" where
  "sendJSONMeta gone ty md p s =
     (case encodeJSON ty md p s of
        (Inl e, s) \<Rightarrow> (Some e, s)
      | (Inr f, s) \<Rightarrow> send gone \<lparr>ob_frame = f, ob_generation = 0, turnScoped = False\<rparr> s)"

definition sendTurn :: "bool \<Rightarrow> turn \<Rightarrow> frame \<Rightarrow> dev_session \<Rightarrow> ctl_error option \<times> dev_session" where
  "sendTurn gone t f s = send gone \<lparr>ob_frame = f, ob_generation = tu_generation t, turnScoped = True\<rparr> s"

definition sendTurnJSON :: "bool \<Rightarrow> turn \<Rightarrow> string \<Rightarrow> payload \<Rightarrow> dev_session \<Rightarrow> ctl_error option \<times> dev_session" where
  "sendTurnJSON gone t ty p s =
     (case encodeJSON ty (turn_metadata t) p s of
        (Inl e, s) \<Rightarrow> (Some e, s)
      | (Inr f, s) \<Rightarrow> sendTurn gone t f s)"

text \<open>
  \<open>sendTurnMedia\<close> and \<open>sendTurnMediaJSON\<close> wait for room in the queue of media. They fail when the context
  ends first; with room in the queue and a cancelled context either may win.
\<close>

definition sendTurnMedia :: "bool \<Rightarrow> turn \<Rightarrow> frame \<Rightarrow> dev_session \<Rightarrow> ctl_error option \<times> dev_session" where
  "sendTurnMedia gone t f s =
     (if gone then (Some (plain_error ''context canceled''), s)
      else if length (mediaWrites s) < maximumMediaQueue
      then (None, s\<lparr>mediaWrites := mediaWrites s @
              [\<lparr>ob_frame = f, ob_generation = tu_generation t, turnScoped = True\<rparr>]\<rparr>)
      else (Some (plain_error ''context deadline exceeded''), s))"

definition sendTurnMediaJSON :: "bool \<Rightarrow> turn \<Rightarrow> string \<Rightarrow> payload \<Rightarrow> dev_session \<Rightarrow> ctl_error option \<times> dev_session" where
  "sendTurnMediaJSON gone t ty p s =
     (case encodeJSON ty (turn_metadata t) p s of
        (Inl e, s) \<Rightarrow> (Some e, s)
      | (Inr f, s) \<Rightarrow> sendTurnMedia gone t f s)"

definition sendTurnUIState :: "bool \<Rightarrow> turn \<Rightarrow> string \<Rightarrow> string \<Rightarrow> dev_session \<Rightarrow> ctl_error option \<times> dev_session" where
  "sendTurnUIState gone t emotion toolName s =
     (let p = ui_payload emotion (TrimSpace toolName)
      in case fst p of
           Some e \<Rightarrow> (Some (plain_error (''invalid ui state: '' @ e)), s)
         | None \<Rightarrow> sendTurnJSON gone t ''ui.state'' p s)"

definition sendTurnError :: "bool \<Rightarrow> turn \<Rightarrow> string \<Rightarrow> string \<Rightarrow> dev_session \<Rightarrow> dev_session" where
  "sendTurnError gone t code message s = snd (sendTurnJSON gone t ''protocol.error'' (error_payload code message) s)"

definition sendError :: "string \<Rightarrow> string \<Rightarrow> dev_session \<Rightarrow> dev_session" where
  "sendError code message s = snd (sendJSONMeta False ''protocol.error'' no_metadata (error_payload code message) s)"

section \<open>Turns\<close>

text \<open>What an action of the reader ends in: an error or success at once, or the wait for an interrupted turn.\<close>

datatype act_result = Done "ctl_error option" | Join turn string

definition cancel_turn :: "turn \<Rightarrow> dev_session \<Rightarrow> dev_session" where
  "cancel_turn t s = s\<lparr>cancelled := tu_generation t # cancelled s\<rparr>"

definition startTurn :: "string \<Rightarrow> dev_session \<Rightarrow> act_result \<times> dev_session" where
  "startTurn turnID s =
     (if TrimSpace turnID = [] then (Done (Some (plain_error ''turn_id is required'')), s)
      else let interrupted = active s;
               s = (case interrupted of Some t \<Rightarrow> (cancel_turn t s)\<lparr>active := None\<rparr> | None \<Rightarrow> s);
               g = generation s + 1;
               s = s\<lparr>generation := g,
                     active := Some \<lparr>tu_id = turnID, tu_state = ''listening'', tu_pcm = [], tu_generation = g\<rparr>\<rparr>
           in (case interrupted of Some t \<Rightarrow> Join t ''barge_in'' | None \<Rightarrow> Done None, s))"

definition interruptActive :: "string \<Rightarrow> dev_session \<Rightarrow> act_result \<times> dev_session" where
  "interruptActive reason s =
     (case active s of
        None \<Rightarrow> (Done None, s)
      | Some t \<Rightarrow> (Join t reason, (cancel_turn t s)\<lparr>active := None, generation := generation s + 1\<rparr>))"

text \<open>After the wait, \<open>startTurn\<close> and \<open>interruptActive\<close> tell the device; a failure to queue this is ignored.\<close>

definition notify_interrupted :: "turn \<Rightarrow> string \<Rightarrow> dev_session \<Rightarrow> dev_session" where
  "notify_interrupted t reason s =
     snd (sendJSONMeta False ''turn.state'' (turn_metadata t) (turn_state_payload ''interrupted'' reason) s)"

definition maximum_audio :: nat where
  "maximum_audio = nat (UplinkSampleRate * 2 * MaximumAudioSecs)"

text \<open>\<open>handleAudio\<close> of a packet; \<open>decoded\<close> is what the codec makes of it.\<close>

definition handleAudio :: "string \<Rightarrow> (string + string) \<Rightarrow> dev_session \<Rightarrow> ctl_error option \<times> dev_session" where
  "handleAudio data decoded s =
     (if data = [] \<or> length data > MaximumOpusPacketBytes
      then (Some (plain_error (''Opus packet has invalid size '' @ decimal (length data))), s)
      else case decoded of
        Inl e \<Rightarrow> (Some (plain_error e), s)
      | Inr pcm \<Rightarrow>
        (case active s of
           None \<Rightarrow> (Some (plain_error ''audio received outside a listening turn''), s)
         | Some t \<Rightarrow>
           if tu_state t \<noteq> ''listening'' then (Some (plain_error ''audio received outside a listening turn''), s)
           else if length (tu_pcm t) + length pcm > maximum_audio
           then (Some (plain_error ''turn exceeds 8 seconds''), s)
           else (None, s\<lparr>active := Some (t\<lparr>tu_pcm := tu_pcm t @ pcm\<rparr>)\<rparr>)))"

definition stopTurn :: "string \<Rightarrow> dev_session \<Rightarrow> act_result \<times> dev_session" where
  "stopTurn turnID s =
     (case active s of
        None \<Rightarrow> (Done (Some (plain_error ''no matching listening turn'')), s)
      | Some t \<Rightarrow>
        if tu_id t \<noteq> turnID \<or> tu_state t \<noteq> ''listening''
        then (Done (Some (plain_error ''no matching listening turn'')), s)
        else if tu_pcm t = [] then (Done (Some (plain_error ''turn contains no audio'')), s)
        else let t = t\<lparr>tu_state := ''processing''\<rparr>
             in (Done None, s\<lparr>active := Some t, workers := workers s @ [(t, P_asr)]\<rparr>))"

definition isCurrent :: "turn \<Rightarrow> dev_session \<Rightarrow> bool" where
  "isCurrent t s \<longleftrightarrow>
     (case active s of None \<Rightarrow> False | Some a \<Rightarrow> tu_generation a = tu_generation t)
     \<and> tu_generation t \<notin> set (cancelled s)"

definition setTurnState :: "turn \<Rightarrow> string \<Rightarrow> dev_session \<Rightarrow> dev_session" where
  "setTurnState t state s =
     (case active s of
        None \<Rightarrow> s
      | Some a \<Rightarrow> if tu_generation a = tu_generation t then s\<lparr>active := Some (a\<lparr>tu_state := state\<rparr>)\<rparr> else s)"

text \<open>\<open>if s.active == current { s.active = nil }\<close>\<close>

definition clear_active :: "turn \<Rightarrow> dev_session \<Rightarrow> dev_session" where
  "clear_active t s =
     (case active s of
        None \<Rightarrow> s
      | Some a \<Rightarrow> if tu_generation a = tu_generation t then s\<lparr>active := None\<rparr> else s)"

definition cancelActive :: "dev_session \<Rightarrow> dev_session" where
  "cancelActive s =
     (case active s of
        None \<Rightarrow> s
      | Some t \<Rightarrow> (cancel_turn t s)\<lparr>active := None, generation := generation s + 1\<rparr>)"

definition generationCurrent :: "nat \<Rightarrow> dev_session \<Rightarrow> bool" where
  "generationCurrent g s \<longleftrightarrow> generation s = g"

definition outboundCurrent :: "outbound \<Rightarrow> dev_session \<Rightarrow> bool" where
  "outboundCurrent m s \<longleftrightarrow> \<not> turnScoped m \<or> generationCurrent (ob_generation m) s"

section \<open>The goroutine of a turn\<close>

text \<open>What the services called by a turn deliver at a step; \<open>O_go\<close> is a step that waits for none.\<close>

datatype outcome =
  O_go
| O_text string
| O_reply string "json option"
| O_failed string
| O_canceled
| O_packet string
| O_done
| O_segment string
| O_card json
| O_status string string

definition stream_failed :: "ctl_error \<Rightarrow> pc option" where
  "stream_failed e = (if ce_text e = ''context canceled'' then None else Some (F_check ''agent_stream_failed'' (ce_text e)))"

definition or_fail :: "(ctl_error \<Rightarrow> pc option) \<Rightarrow> pc \<Rightarrow> ctl_error option \<times> dev_session \<Rightarrow> dev_session \<times> pc option" where
  "or_fail failed next = (\<lambda>(e, s). (s, case e of None \<Rightarrow> Some next | Some e \<Rightarrow> failed e))"

definition fail_with :: "string \<Rightarrow> ctl_error \<Rightarrow> pc option" where
  "fail_with code e = Some (F_check code (ce_text e))"

definition on_go :: "outcome \<Rightarrow> dev_session \<times> pc option \<Rightarrow> (dev_session \<times> pc option) option" where
  "on_go x r = (if x = O_go then Some r else None)"

text \<open>\<open>processTurn\<close> and \<open>failTurn\<close>.\<close>

definition turn_work :: "bool \<Rightarrow> bool \<Rightarrow> turn \<Rightarrow> dev_session \<Rightarrow> pc \<Rightarrow> outcome \<Rightarrow> (dev_session \<times> pc option) option" where
  "turn_work streams gone t s p ev =
     (case p of
        P_asr \<Rightarrow>
          (case ev of
             O_text x \<Rightarrow> Some (s, Some (P_check x))
           | O_failed e \<Rightarrow> Some (s, Some (F_check ''asr_failed'' e))
           | _ \<Rightarrow> None)
      | P_check x \<Rightarrow> on_go ev (s, if isCurrent t s then Some (P_transcript x) else None)
      | P_transcript x \<Rightarrow> on_go ev (snd (sendTurnJSON gone t ''transcript.final'' (text_payload x) s),
           Some (if streams then S_thinking else P_agent x False))
      | P_agent x early \<Rightarrow>
          (case ev of
             O_card ui \<Rightarrow> Some (case sendTurnJSON gone t ''ui.card'' (card_payload ui) s of (e, s) \<Rightarrow> (s, Some (P_agent x (early \<or> e = None))))
           | O_reply reply ui \<Rightarrow> Some (s, Some (P_check_reply reply ui early))
           | O_failed e \<Rightarrow> Some (s, Some (F_check ''agent_failed'' e))
           | _ \<Rightarrow> None)
      | P_check_reply reply ui early \<Rightarrow> on_go ev (s, if isCurrent t s then Some (P_speaking reply ui early) else None)
      | P_speaking reply ui early \<Rightarrow> on_go ev (setTurnState t ''speaking'' s,
           Some (case ui of Some u \<Rightarrow> if early then P_tts_start reply else P_ui reply u | None \<Rightarrow> P_tts_start reply))
      | P_ui reply ui \<Rightarrow> on_go ev (or_fail (fail_with ''control_write_failed'') (P_tts_start reply)
             (sendTurnJSON gone t ''ui.card'' (card_payload ui) s))
      | P_tts_start reply \<Rightarrow> on_go ev (or_fail (fail_with ''media_write_failed'') (P_sentence reply)
             (sendTurnMediaJSON gone t ''tts.lifecycle'' (tts_payload ''start'' []) s))
      | P_sentence reply \<Rightarrow> on_go ev (or_fail (fail_with ''media_write_failed'') P_synth
             (sendTurnMediaJSON gone t ''tts.lifecycle'' (tts_payload ''sentence_start'' reply) s))
      | P_synth \<Rightarrow>
          (case ev of
             O_packet p \<Rightarrow> Some (snd (sendTurn gone t (Binary_frame p) s), Some P_synth)
           | O_failed e \<Rightarrow> Some (s, Some (F_check ''tts_failed'' e))
           | O_canceled \<Rightarrow> Some (s, None)
           | O_done \<Rightarrow> Some (s, Some P_check_stop)
           | _ \<Rightarrow> None)
      | P_check_stop \<Rightarrow> on_go ev (s, if isCurrent t s then Some P_stop else None)
      | P_stop \<Rightarrow> on_go ev (or_fail (fail_with ''media_write_failed'') P_finish
             (sendTurnMediaJSON gone t ''tts.lifecycle'' (tts_payload ''stop'' []) s))
      | P_finish \<Rightarrow> on_go ev (clear_active t s, None)
      | F_check code msg \<Rightarrow> on_go ev (s, if isCurrent t s then Some (F_send code msg) else None)
      | F_send code msg \<Rightarrow> on_go ev (sendTurnError gone t code msg s, Some F_clear)
      | F_clear \<Rightarrow> on_go ev (clear_active t s, None)
      | _ \<Rightarrow> None)"

text \<open>\<open>processStreamingReply\<close>: the loop over the segments, with the number of segments seen.\<close>

definition stream_work :: "bool \<Rightarrow> turn \<Rightarrow> dev_session \<Rightarrow> pc \<Rightarrow> outcome \<Rightarrow> (dev_session \<times> pc option) option" where
  "stream_work gone t s p ev =
     (case p of
        S_thinking \<Rightarrow> on_go ev (or_fail stream_failed (S_wait 0) (sendTurnUIState gone t ''thinking'' [] s))
      | S_wait n \<Rightarrow>
          (case ev of
             O_segment seg \<Rightarrow> Some (s, Some (S_check seg n))
           | O_canceled \<Rightarrow> Some (s, None)
           | O_failed e \<Rightarrow> Some (s, stream_failed (plain_error e))
           | O_done \<Rightarrow> Some (s, Some (S_closed n))
           | _ \<Rightarrow> None)
      | S_check seg n \<Rightarrow> on_go ev (s, if \<not> isCurrent t s then None else if n = 0 then Some (S_first seg) else Some (S_sentence seg n))
      | S_first seg \<Rightarrow> on_go ev (setTurnState t ''speaking'' s, Some (S_first_ui seg))
      | S_first_ui seg \<Rightarrow> on_go ev (or_fail stream_failed (S_first_start seg) (sendTurnUIState gone t ''speaking'' [] s))
      | S_first_start seg \<Rightarrow> on_go ev (or_fail stream_failed (S_sentence seg 0)
             (sendTurnMediaJSON gone t ''tts.lifecycle'' (tts_payload ''start'' []) s))
      | S_sentence seg n \<Rightarrow> on_go ev (or_fail stream_failed (S_synth seg (n + 1))
             (sendTurnMediaJSON gone t ''tts.lifecycle'' (tts_payload ''sentence_start'' seg) s))
      | S_synth seg n \<Rightarrow>
          (case ev of
             O_packet p \<Rightarrow> Some (snd (sendTurnMedia gone t (Binary_frame p) s), Some (S_synth seg n))
           | O_failed e \<Rightarrow> Some (s, stream_failed (plain_error e))
           | O_done \<Rightarrow> Some (s, Some (S_sentence_end seg n))
           | _ \<Rightarrow> None)
      | S_sentence_end seg n \<Rightarrow> on_go ev (or_fail stream_failed (S_wait n)
             (sendTurnMediaJSON gone t ''tts.lifecycle'' (tts_payload ''sentence_end'' seg) s))
      | S_closed n \<Rightarrow>
          (case ev of
             O_failed e \<Rightarrow> Some (s, stream_failed (plain_error e))
           | O_done \<Rightarrow> Some (s, if n = 0 then stream_failed (plain_error ''streaming agent returned no speakable text'')
              else Some S_check_stop)
           | _ \<Rightarrow> None)
      | S_check_stop \<Rightarrow> on_go ev (s, if isCurrent t s then Some S_stop else None)
      | S_stop \<Rightarrow> on_go ev (or_fail stream_failed P_finish
             (sendTurnMediaJSON gone t ''tts.lifecycle'' (tts_payload ''stop'' []) s))
      | _ \<Rightarrow> None)"

text \<open>
  The goroutine of the agent, which runs beside the loop, sends cards and the status. One that does not stop
  within two seconds of its cancellation may outlive the loop; this is not modelled.
\<close>

definition streaming :: "pc \<Rightarrow> bool" where
  "streaming p \<longleftrightarrow> (case p of
     S_wait _ \<Rightarrow> True | S_check _ _ \<Rightarrow> True | S_first _ \<Rightarrow> True | S_first_ui _ \<Rightarrow> True | S_first_start _ \<Rightarrow> True
   | S_sentence _ _ \<Rightarrow> True | S_synth _ _ \<Rightarrow> True | S_sentence_end _ _ \<Rightarrow> True | _ \<Rightarrow> False)"

fun agent_event :: "bool \<Rightarrow> turn \<Rightarrow> dev_session \<Rightarrow> outcome \<Rightarrow> dev_session option" where
  "agent_event gone t s (O_card ui) = Some (snd (sendTurnJSON gone t ''ui.card'' (card_payload ui) s))"
| "agent_event gone t s (O_status state tool) =
     (if TrimSpace state = [] then Some s
      else case sendTurnJSON gone t ''agent.status'' (status_payload state) s of
             (Some e, s) \<Rightarrow> Some s
           | (None, s) \<Rightarrow>
               if state = ''tool_running'' \<and> TrimSpace tool \<noteq> []
               then Some (snd (sendTurnUIState gone t ''tool_executing'' tool s)) else Some s)"
| "agent_event gone t s x = None"

definition work :: "bool \<Rightarrow> bool \<Rightarrow> turn \<Rightarrow> dev_session \<Rightarrow> pc \<Rightarrow> outcome \<Rightarrow> (dev_session \<times> pc option) option" where
  "work streams gone t s p x =
     (case (if streaming p then agent_event gone t s x else None) of
        Some s' \<Rightarrow> Some (s', Some p)
      | None \<Rightarrow>
        (case turn_work streams gone t s p x of
           Some r \<Rightarrow> Some r
         | None \<Rightarrow> stream_work gone t s p x))"

section \<open>Inbound messages\<close>

text \<open>
  \<open>processInbound\<close>: \<open>digest\<close> is the hash of the canonical form of the message, if it is JSON. A message
  that succeeded is remembered under its identifier, at most 256 of them, the oldest forgotten first.
\<close>

definition remember :: "string \<Rightarrow> string \<Rightarrow> dev_session \<Rightarrow> dev_session" where
  "remember messageID digest s =
     (let s = (if length (seenOrder s) = maximumRememberedMessages
               then s\<lparr>seenInbound := (seenInbound s)(hd (seenOrder s) := None), seenOrder := tl (seenOrder s)\<rparr> else s)
      in s\<lparr>seenInbound := (seenInbound s)(messageID := Some digest), seenOrder := seenOrder s @ [messageID]\<rparr>)"

definition processInbound ::
    "string \<Rightarrow> string option \<Rightarrow> (dev_session \<times> 'w \<Rightarrow> act_result \<times> dev_session \<times> 'w)
      \<Rightarrow> dev_session \<times> 'w \<Rightarrow> act_result \<times> dev_session \<times> 'w" where
  "processInbound messageID digest action sw =
     (case digest of
        None \<Rightarrow> (Done (Some (plain_error ''canonicalize message'')), sw)
      | Some d \<Rightarrow>
        (case seenInbound (fst sw) messageID of
           Some d' \<Rightarrow>
             if d' \<noteq> d then (Done (Some \<lparr>ce_code = InvalidEnvelopeCode,
               ce_text = InvalidEnvelopeCode @ '': message_id was reused with different content''\<rparr>), sw)
             else (Done None, sw)
         | None \<Rightarrow>
           (case action sw of
              (Done None, s, w) \<Rightarrow> (Done None, remember messageID d s, w)
            | r \<Rightarrow> r)))"

text \<open>The payloads that a device may send.\<close>

fun decode_into ::
    "(string \<times> (string \<Rightarrow> 'p \<Rightarrow> 'p option)) list \<Rightarrow> (string \<times> string) list \<Rightarrow> 'p \<Rightarrow> 'p option" where
  "decode_into fs [] p = Some p"
| "decode_into fs ((key, raw) # ms) p =
     (case find (\<lambda>(name, _). field_is name key) fs of
        None \<Rightarrow> None
      | Some (_, f) \<Rightarrow> Option.bind (f raw p) (decode_into fs ms))"

definition decode_struct ::
    "(string \<times> (string \<Rightarrow> 'p \<Rightarrow> 'p option)) list \<Rightarrow> 'p \<Rightarrow> string \<Rightarrow> ('p \<times> string) option" where
  "decode_struct fs zero data =
     (case read_top data of
        None \<Rightarrow> None
      | Some (j, r) \<Rightarrow>
        (case j of
           Top_null \<Rightarrow> Some (zero, r)
         | Top_object ms \<Rightarrow> map_option (\<lambda>p. (p, r)) (decode_into fs ms zero)
         | Top_other \<Rightarrow> None))"

definition decode_listen :: "Envelope \<Rightarrow> ProtocolError + ListenPayload" where
  "decode_listen = DecodePayload (decode_struct
     [(''state'', \<lambda>raw p. map_option (\<lambda>x. p\<lparr>lp_State := x\<rparr>) (set_string raw (lp_State p))),
      (''mode'', \<lambda>raw p. map_option (\<lambda>x. p\<lparr>lp_Mode := x\<rparr>) (set_string raw (lp_Mode p)))]
     \<lparr>lp_State = [], lp_Mode = []\<rparr>) ListenPayload_Validate"

definition decode_abort :: "Envelope \<Rightarrow> ProtocolError + string" where
  "decode_abort = DecodePayload (decode_struct [(''reason'', set_string)] []) AbortPayload_Validate"

definition decode_alarm_ack :: "Envelope \<Rightarrow> ProtocolError + string" where
  "decode_alarm_ack = DecodePayload (decode_struct [(''alarm_id'', set_string)] []) AlarmAckPayload_Validate"

definition decode_empty :: "Envelope \<Rightarrow> ProtocolError + unit" where
  "decode_empty = DecodePayload (decode_struct [] ()) (\<lambda>_. None)"

definition decode_vm_claim :: "Envelope \<Rightarrow> ProtocolError + (string \<times> string)" where
  "decode_vm_claim = DecodePayload (decode_struct
     [(''voice_mail_id'', \<lambda>raw (i, p). map_option (\<lambda>x. (x, p)) (set_string raw i)),
      (''playback_id'', \<lambda>raw (i, p). map_option (\<lambda>x. (i, x)) (set_string raw p))] ([], []))
     (\<lambda>(i, p). VoiceMailClaim_Validate i p)"

definition decode_vm_result :: "Envelope \<Rightarrow> ProtocolError + VoiceMailPlaybackResult" where
  "decode_vm_result = DecodePayload (decode_struct
     [(''voice_mail_id'', \<lambda>raw p. map_option (\<lambda>x. p\<lparr>vr_VoiceMailID := x\<rparr>) (set_string raw (vr_VoiceMailID p))),
      (''playback_id'', \<lambda>raw p. map_option (\<lambda>x. p\<lparr>vr_PlaybackID := x\<rparr>) (set_string raw (vr_PlaybackID p))),
      (''result'', \<lambda>raw p. map_option (\<lambda>x. p\<lparr>vr_Result := x\<rparr>) (set_string raw (vr_Result p))),
      (''failure_code'', \<lambda>raw p. map_option (\<lambda>x. p\<lparr>FailureCode := x\<rparr>) (set_string raw (FailureCode p)))]
     \<lparr>vr_VoiceMailID = [], vr_PlaybackID = [], vr_Result = [], FailureCode = []\<rparr>) VoiceMailPlaybackResult_Validate"

text \<open>\<open>parseAlarmID\<close>\<close>

definition parseAlarmID :: "string \<Rightarrow> string + int" where
  "parseAlarmID value =
     (let v = TrimPrefix (TrimPrefix (TrimSpace value) ''reminder-'') ''schedule-''
      in if v = [] then Inl ''alarm id is required''
         else case ParseInt64 v of
                Some i \<Rightarrow> if i \<le> 0 then Inl ''invalid alarm id'' else Inr i
              | None \<Rightarrow> Inl ''invalid alarm id'')"

text \<open>
  The services a session calls; \<open>'w\<close> is their state. \<open>sv_sha256\<close> stands for the hash of requests,
  \<open>sv_digest\<close> for the digest of a message: the hash of the text that \<open>json.Marshal\<close> writes for its value,
  with its numbers as \<open>float64\<close>, or none when the message is not JSON. Only the equality of digests matters here.
\<close>

record 'w services =
  sv_ack :: "(int \<Rightarrow> 'w \<Rightarrow> string option \<times> 'w) option"
  sv_claim :: "(Request \<Rightarrow> string \<Rightarrow> string \<Rightarrow> string \<Rightarrow> string \<Rightarrow> 'w \<Rightarrow> (string + Item) \<times> 'w) option"
  sv_playback :: "(Request \<Rightarrow> string \<Rightarrow> string \<Rightarrow> string \<Rightarrow> string \<Rightarrow> bool \<Rightarrow> 'w \<Rightarrow> (string + Item) \<times> 'w) option"
  sv_sha256 :: "string \<Rightarrow> string"
  sv_digest :: "string \<Rightarrow> string option"

definition voiceMailRequest :: "(string \<Rightarrow> string) \<Rightarrow> string \<Rightarrow> string \<Rightarrow> string \<Rightarrow> json \<Rightarrow> string + Request" where
  "voiceMailRequest sha256 actor operation key value =
     (let r = \<lparr>Actor = TrimSpace actor, Operation = operation, Key = TrimSpace key, RequestHash = HashValue sha256 value\<rparr>
      in case Request_Validate r of Some e \<Rightarrow> Inl e | None \<Rightarrow> Inr r)"

definition reply_metadata :: "time \<Rightarrow> Envelope \<Rightarrow> Metadata" where
  "reply_metadata now message = no_metadata\<lparr>md_CorrelationID := en_MessageID message,
     md_IdempotencyKey := en_IdempotencyKey message, md_OccurredAt := rfc3339 now\<rparr>"

definition policy_text :: "Policy \<Rightarrow> string" where
  "policy_text p = (case p of Disabled \<Rightarrow> ''disabled'' | Ephemeral \<Rightarrow> ''ephemeral'' | Retained \<Rightarrow> ''retained'')"

definition time_value :: "time \<Rightarrow> json" where
  "time_value t = JString (rfc3339 t)"

definition claimed_payload :: "Item \<Rightarrow> time \<Rightarrow> payload" where
  "claimed_payload item lease =
     (let p = \<lparr>vc_VoiceMailID = it_ID item, vc_PlaybackID = PlaybackID item,
               MediaRef = ''/v1/voice-mail/'' @ it_ID item @ ''/media'', vc_LeaseExpiresAt = lease\<rparr>
      in (VoiceMailClaimed_Validate p,
          JObj [(''voice_mail_id'', JString (vc_VoiceMailID p)), (''playback_id'', JString (vc_PlaybackID p)),
                (''media_ref'', JString (MediaRef p)), (''lease_expires_at'', time_value lease)]))"

definition available_payload :: "Item \<Rightarrow> payload" where
  "available_payload item =
     (let p = \<lparr>va_VoiceMailID = it_ID item, FromDeviceID = SenderDeviceID item, va_MediaFormat = MediaFormat item,
               va_DurationMS = DurationMS item, va_SizeBytes = SizeBytes item,
               va_ChecksumSHA256 = ChecksumSHA256 item, va_ExpiresAt = it_ExpiresAt item,
               va_Policy = policy_text (it_Policy item)\<rparr>
      in (VoiceMailAvailable_Validate p,
          JObj [(''voice_mail_id'', JString (va_VoiceMailID p)), (''from_device_id'', JString (FromDeviceID p)),
                (''media_format'', JString (va_MediaFormat p)), (''duration_ms'', JNum (FormatInt (va_DurationMS p))),
                (''size_bytes'', JNum (FormatInt (va_SizeBytes p))),
                (''checksum_sha256'', JString (va_ChecksumSHA256 p)), (''expires_at'', time_value (va_ExpiresAt p)),
                (''policy'', JString (va_Policy p))]))"

definition consumed_payload :: "string \<Rightarrow> string \<Rightarrow> payload" where
  "consumed_payload i p =
     (VoiceMailConsumed_Validate i p, JObj ((''voice_mail_id'', JString i) # opt_member ''playback_id'' p))"

definition done_of :: "ctl_error option \<times> dev_session \<Rightarrow> 'w \<Rightarrow> act_result \<times> dev_session \<times> 'w" where
  "done_of r w = (Done (fst r), snd r, w)"

definition failed :: "string \<Rightarrow> dev_session \<times> 'w \<Rightarrow> act_result \<times> dev_session \<times> 'w" where
  "failed msg sw = (Done (Some (plain_error msg)), sw)"

text \<open>The claim of a voice mail and the report of its playback; a claimed item carries its lease.\<close>

definition claim_action :: "time \<Rightarrow> Envelope \<Rightarrow> string \<times> string
    \<Rightarrow> (Request \<Rightarrow> string \<Rightarrow> string \<Rightarrow> string \<Rightarrow> string \<Rightarrow> 'w \<Rightarrow> (string + Item) \<times> 'w) \<Rightarrow> Request
    \<Rightarrow> dev_session \<times> 'w \<Rightarrow> act_result \<times> dev_session \<times> 'w" where
  "claim_action now message = (\<lambda>(i, p) claim request (s, w).
     case claim request (ds_userID s) (ds_deviceID s) i p w of
       (Inl e, w) \<Rightarrow> failed e (s, w)
     | (Inr item, w) \<Rightarrow>
         (case LeaseExpiresAt item of
            None \<Rightarrow> failed ''invalid memory address or nil pointer dereference'' (s, w)
          | Some lease \<Rightarrow>
              done_of (sendJSONMeta False ''voice_mail.claimed'' (reply_metadata now message) (claimed_payload item lease) s) w))"

definition playback_action :: "time \<Rightarrow> Envelope \<Rightarrow> VoiceMailPlaybackResult
    \<Rightarrow> (Request \<Rightarrow> string \<Rightarrow> string \<Rightarrow> string \<Rightarrow> string \<Rightarrow> bool \<Rightarrow> 'w \<Rightarrow> (string + Item) \<times> 'w) \<Rightarrow> Request
    \<Rightarrow> dev_session \<times> 'w \<Rightarrow> act_result \<times> dev_session \<times> 'w" where
  "playback_action now message p playback request = (\<lambda>(s, w).
     let ok = (vr_Result p = ''succeeded'') in
     case playback request (ds_userID s) (ds_deviceID s) (vr_VoiceMailID p) (vr_PlaybackID p) ok w of
       (Inl e, w) \<Rightarrow> failed e (s, w)
     | (Inr item, w) \<Rightarrow>
         if \<not> ok then (Done None, s, w)
         else if it_State item = Unread
         then done_of (sendJSONMeta False ''voice_mail.available'' (reply_metadata now message) (available_payload item) s) w
         else done_of (sendJSONMeta False ''voice_mail.consumed'' (reply_metadata now message)
                         (consumed_payload (it_ID item) (vr_PlaybackID p)) s) w)"

text \<open>\<open>handleControl\<close>: every message type that a device may send, the checks in the order of the source.\<close>

definition handleControl ::
    "'w services \<Rightarrow> time \<Rightarrow> string \<Rightarrow> dev_session \<times> 'w \<Rightarrow> act_result \<times> dev_session \<times> 'w" where
  "handleControl sv now data sw =
     (case Decode data of
        Inl e \<Rightarrow> (Done (Some \<lparr>ce_code = pe_Code e, ce_text = ''decode control message: '' @ ProtocolError_Error e\<rparr>), sw)
      | Inr message \<Rightarrow>
        let inbound = processInbound (en_MessageID message) (sv_digest sv data);
            rejected = (\<lambda>e. (Done (Some (protocol_error e)), sw)) in
        if en_SessionID message \<noteq> ds_id (fst sw) then failed ''session_id does not match'' sw
        else if en_Type message = ''turn.listen'' then
          (case decode_listen message of
             Inl e \<Rightarrow> rejected e
           | Inr p \<Rightarrow> inbound (\<lambda>(s, w).
               if lp_State p = ''start'' then (case startTurn (en_TurnID message) s of (r, s) \<Rightarrow> (r, s, w))
               else if lp_State p = ''stop'' then (case stopTurn (en_TurnID message) s of (r, s) \<Rightarrow> (r, s, w))
               else failed ''unsupported listen state'' (s, w)) sw)
        else if en_Type message = ''turn.abort'' then
          (case decode_abort message of
             Inl e \<Rightarrow> rejected e
           | Inr reason0 \<Rightarrow>
             let reason = (if TrimSpace reason0 = [] then ''client_abort'' else TrimSpace reason0)
             in inbound (\<lambda>(s, w). case interruptActive reason s of (r, s) \<Rightarrow> (r, s, w)) sw)
        else if en_Type message = ''alarm.ack'' then
          (case sv_ack sv of
             None \<Rightarrow> failed ''alarm acknowledgement is unavailable'' sw
           | Some ack \<Rightarrow>
             (case decode_alarm_ack message of
                Inl e \<Rightarrow> rejected e
              | Inr alarmID \<Rightarrow>
                (case parseAlarmID alarmID of
                   Inl e \<Rightarrow> failed e sw
                 | Inr i \<Rightarrow> inbound (\<lambda>(s, w). case ack i w of
                     (None, w) \<Rightarrow> (Done None, s, w) | (Some e, w) \<Rightarrow> failed e (s, w)) sw)))
        else if en_Type message = ''session.ping'' then
          (case decode_empty message of
             Inl e \<Rightarrow> rejected e
           | Inr _ \<Rightarrow> done_of (sendJSONMeta False ''session.pong''
               (no_metadata\<lparr>md_CorrelationID := en_MessageID message\<rparr>) empty_payload (fst sw)) (snd sw))
        else if en_Type message = ''voice_mail.claim'' then
          (case sv_claim sv of
             None \<Rightarrow> failed ''voice mail is unavailable'' sw
           | Some claim \<Rightarrow>
             (case decode_vm_claim message of
                Inl e \<Rightarrow> rejected e
              | Inr (i, p) \<Rightarrow>
                (case voiceMailRequest (sv_sha256 sv) (ds_userID (fst sw)) ''voice_mail.claim'' (en_IdempotencyKey message)
                        (JObj [(''voice_mail_id'', JString i), (''playback_id'', JString p)]) of
                   Inl e \<Rightarrow> failed e sw
                 | Inr request \<Rightarrow> inbound (claim_action now message (i, p) claim request) sw)))
        else if en_Type message = ''voice_mail.playback_result'' then
          (case sv_playback sv of
             None \<Rightarrow> failed ''voice mail is unavailable'' sw
           | Some playback \<Rightarrow>
             (case decode_vm_result message of
                Inl e \<Rightarrow> rejected e
              | Inr p \<Rightarrow>
                (case voiceMailRequest (sv_sha256 sv) (ds_userID (fst sw)) ''voice_mail.playback'' (en_IdempotencyKey message)
                        (JObj ([(''voice_mail_id'', JString (vr_VoiceMailID p)), (''playback_id'', JString (vr_PlaybackID p)),
                                (''result'', JString (vr_Result p))] @ opt_member ''failure_code'' (FailureCode p))) of
                   Inl e \<Rightarrow> failed e sw
                 | Inr request \<Rightarrow> inbound (playback_action now message p playback request) sw)))
        else (Done (Some \<lparr>ce_code = InvalidEnvelopeCode,
                ce_text = InvalidEnvelopeCode @ '': message type is invalid in this direction''\<rparr>), sw))"

section \<open>The connection\<close>

text \<open>
  The reader waits for a message or, after an interruption, for the goroutine of the interrupted turn (at
  most two seconds); the message that it is handling is remembered then. The writer holds the message it has
  taken from a queue and found current until the socket has accepted it. \<open>sent\<close> is what the device receives.
\<close>

datatype reader = Reading | Joining turn string string string

record 'w conn =
  sess :: dev_session
  world :: 'w
  rd :: reader
  inflight :: "outbound option"
  sent :: "outbound list"

text \<open>Messages that the handlers of pairing and of device capabilities take before \<open>handleControl\<close>.\<close>

definition extension_types :: "string list" where
  "extension_types = [''pairing.session_create'', ''pairing.confirmation'', ''pairing.rejected'',
     ''capability.advertise'', ''capability.result'']"

definition extension_message :: "string \<Rightarrow> bool" where
  "extension_message data \<longleftrightarrow> (case Decode data of Inl _ \<Rightarrow> False | Inr e \<Rightarrow> en_Type e \<in> set extension_types)"

text \<open>\<open>readLoop\<close> on a text message that no extension handles, and on a packet of audio.\<close>

definition read_text :: "'w services \<Rightarrow> time \<Rightarrow> string \<Rightarrow> 'w conn \<Rightarrow> 'w conn" where
  "read_text sv now data c =
     (case handleControl sv now data (sess c, world c) of
        (Done None, s, w) \<Rightarrow> c\<lparr>sess := s, world := w\<rparr>
      | (Done (Some e), s, w) \<Rightarrow> c\<lparr>sess := sendError (ce_code e) (ce_text e) s, world := w\<rparr>
      | (Join t reason, s, w) \<Rightarrow>
          (case (Decode data, sv_digest sv data) of
             (Inr message, Some d) \<Rightarrow> c\<lparr>sess := s, world := w, rd := Joining t reason (en_MessageID message) d\<rparr>
           | _ \<Rightarrow> c\<lparr>sess := s, world := w\<rparr>))"

definition read_audio :: "string \<Rightarrow> (string + string) \<Rightarrow> 'w conn \<Rightarrow> 'w conn" where
  "read_audio data decoded c =
     (case handleAudio data decoded (sess c) of
        (None, s) \<Rightarrow> c\<lparr>sess := s\<rparr>
      | (Some e, s) \<Rightarrow> c\<lparr>sess := sendError ''invalid_audio'' (ce_text e) s\<rparr>)"

definition finish_join :: "turn \<Rightarrow> string \<Rightarrow> string \<Rightarrow> string \<Rightarrow> 'w conn \<Rightarrow> 'w conn" where
  "finish_join t reason messageID digest c =
     c\<lparr>sess := remember messageID digest (notify_interrupted t reason (sess c)), rd := Reading\<rparr>"

text \<open>\<open>writeLoop\<close>: the writer takes a message from a queue and drops it unless it is current, or writes it.\<close>

definition take_message :: "outbound \<Rightarrow> dev_session \<Rightarrow> 'w conn \<Rightarrow> 'w conn" where
  "take_message m s c = c\<lparr>sess := s, inflight := (if outboundCurrent m s then Some m else None)\<rparr>"

text \<open>
  One step of the connection. A push is a message from another part of the server (alarms, voice mail,
  pairing, capabilities), which never has the type of the notice of an interruption. The calls of a device capability
  that the agent of a turn makes are among them: their envelopes name the turn and its generation, but they are sent
  with \<open>turnScoped\<close> false, so the writer does not compare the generation, and what is said of the frames of a turn is not
  said of them.
\<close>

inductive conn_step :: "'w services \<Rightarrow> bool \<Rightarrow> 'w conn \<Rightarrow> 'w conn \<Rightarrow> bool" for sv streams where
  text_step: "rd c = Reading \<Longrightarrow> \<not> extension_message data \<Longrightarrow> conn_step sv streams c (read_text sv now data c)"
| audio_step: "rd c = Reading \<Longrightarrow> conn_step sv streams c (read_audio data decoded c)"
| join_step: "rd c = Joining t reason messageID digest \<Longrightarrow> conn_step sv streams c (finish_join t reason messageID digest c)"
| push_step: "ty \<noteq> ''turn.state'' \<Longrightarrow>
    conn_step sv streams c (c\<lparr>sess := snd (sendJSONMeta gone ty md p (sess c)), world := w\<rparr>)"
| work_step: "workers (sess c) = ws1 @ (t, p) # ws2 \<Longrightarrow>
    work streams (tu_generation t \<in> set (cancelled (sess c)) \<and> \<not> late) t (sess c) p ev = Some (s, p') \<Longrightarrow>
    conn_step sv streams c
      (c\<lparr>sess := s\<lparr>workers := ws1 @ (case p' of None \<Rightarrow> [] | Some q \<Rightarrow> [(t, q)]) @ ws2\<rparr>\<rparr>)"
| take_control: "inflight c = None \<Longrightarrow> controlWrites (sess c) = m # ms \<Longrightarrow>
    conn_step sv streams c (take_message m ((sess c)\<lparr>controlWrites := ms\<rparr>) c)"
| take_media: "inflight c = None \<Longrightarrow> mediaWrites (sess c) = m # ms \<Longrightarrow>
    conn_step sv streams c (take_message m ((sess c)\<lparr>mediaWrites := ms\<rparr>) c)"
| write_step: "inflight c = Some m \<Longrightarrow> conn_step sv streams c (c\<lparr>inflight := None, sent := sent c @ [m]\<rparr>)"

inductive connected :: "'w services \<Rightarrow> bool \<Rightarrow> 'w conn \<Rightarrow> bool" for sv streams where
  connect: "connected sv streams \<lparr>sess = new_session randomID deviceID userID, world = w, rd = Reading,
              inflight = None, sent = []\<rparr>"
| step: "connected sv streams c \<Longrightarrow> conn_step sv streams c c' \<Longrightarrow> connected sv streams c'"

end
