(* ===== verification/Session_Invariant.thy ===== *)
theory Session_Invariant
  imports Device_Session
begin

text \<open>
  The invariant of a connection: what each sender puts into the queues, what a goroutine of a turn may change,
  what the reader does with a message, and that every step of the connection keeps all of it.
\<close>

section \<open>What the sending functions change\<close>

text \<open>
  Sending only appends to the two queues and draws message numbers. \<open>emits P\<close> collects this together with a
  predicate on the appended messages, and is what the invariants below need to know about any sender.
\<close>

definition emits :: "(outbound \<Rightarrow> bool) \<Rightarrow> dev_session \<Rightarrow> dev_session \<Rightarrow> bool" where
  "emits P s s' \<longleftrightarrow>
     (\<exists>n cs ms. s' = s\<lparr>messageSeq := n, controlWrites := controlWrites s @ cs, mediaWrites := mediaWrites s @ ms\<rparr>
        \<and> list_all P cs \<and> list_all P ms)"

named_theorems emit_intros \<open>what the sending functions put into the queues\<close>

lemma emits_refl [simp, emit_intros]: "emits P s s"
  unfolding emits_def by (rule exI[of _ "messageSeq s"]) (auto intro!: exI[of _ "[]"])

lemma emits_seq: "emits P (s\<lparr>messageSeq := n\<rparr>) s' \<Longrightarrow> emits P s s'"
  unfolding emits_def by force

lemma emits_trans:
  assumes "emits P s s1" "emits P s1 s2"
  shows "emits P s s2"
proof -
  obtain n cs ms where 1: "s1 = s\<lparr>messageSeq := n, controlWrites := controlWrites s @ cs, mediaWrites := mediaWrites s @ ms\<rparr>"
      "list_all P cs" "list_all P ms" using assms(1) unfolding emits_def by blast
  obtain n' cs' ms' where 2: "s2 = s1\<lparr>messageSeq := n', controlWrites := controlWrites s1 @ cs', mediaWrites := mediaWrites s1 @ ms'\<rparr>"
      "list_all P cs'" "list_all P ms'" using assms(2) unfolding emits_def by blast
  show ?thesis unfolding emits_def
    by (rule exI[of _ n'], rule exI[of _ "cs @ cs'"], rule exI[of _ "ms @ ms'"]) (simp add: 1 2)
qed

lemma emits_control: "P m \<Longrightarrow> emits P s (s\<lparr>controlWrites := controlWrites s @ [m]\<rparr>)"
  unfolding emits_def by (rule exI[of _ "messageSeq s"], rule exI[of _ "[m]"], rule exI[of _ "[]"]) simp

lemma emits_media: "P m \<Longrightarrow> emits P s (s\<lparr>mediaWrites := mediaWrites s @ [m]\<rparr>)"
  unfolding emits_def by (rule exI[of _ "messageSeq s"], rule exI[of _ "[]"], rule exI[of _ "[m]"]) simp

lemma emits_mono: "emits P s s' \<Longrightarrow> (\<And>m. P m \<Longrightarrow> Q m) \<Longrightarrow> emits Q s s'"
  unfolding emits_def by (metis list.pred_mono_strong)

lemma emits_send: "P m \<Longrightarrow> emits P s (snd (send gone m s))"
  by (auto simp: send_def emits_control emits_media split: frame.splits)

lemma encodeJSON_frame:
  assumes "encodeJSON ty md p s = (Inr f, s')"
  obtains md' bytes where "f = Text_frame ty md' bytes" "md_GenerationID md' = md_GenerationID md"
  using assms by (auto simp: encodeJSON_def nextMessageID_def Let_def split: sum.splits if_splits)

lemma encodeJSON_emits:
  assumes "encodeJSON ty md p s = (r, s')"
  shows "emits P s' s'' \<Longrightarrow> emits P s s''"
  using assms emits_seq[where P = P and s = s]
  by (auto simp: encodeJSON_def nextMessageID_def Let_def split: sum.splits if_splits)

text \<open>What a turn sends is scoped to its generation.\<close>

definition from_turn :: "turn \<Rightarrow> outbound \<Rightarrow> bool" where
  "from_turn t m \<longleftrightarrow> turnScoped m \<and> ob_generation m = tu_generation t"

text \<open>The generation of which a message announces the interruption.\<close>

definition announces :: "outbound \<Rightarrow> nat option" where
  "announces m =
     (if turnScoped m then None
      else case ob_frame m of
        Text_frame ty md _ \<Rightarrow> if ty = ''turn.state'' then Some (md_GenerationID md) else None
      | Binary_frame _ \<Rightarrow> None)"

definition plain_message :: "outbound \<Rightarrow> bool" where
  "plain_message m \<longleftrightarrow> \<not> turnScoped m \<and> announces m = None"

lemma emits_sendTurn [emit_intros]: "emits (from_turn t) s (snd (sendTurn gone t f s))"
  by (simp add: sendTurn_def emits_send from_turn_def)

lemma emits_sendTurnMedia [emit_intros]: "emits (from_turn t) s (snd (sendTurnMedia gone t f s))"
  by (simp add: sendTurnMedia_def emits_media from_turn_def)

lemma emits_sendTurnJSON [emit_intros]: "emits (from_turn t) s (snd (sendTurnJSON gone t ty p s))"
  by (auto simp: sendTurnJSON_def emits_sendTurn intro: encodeJSON_emits split: prod.splits sum.splits)

lemma emits_sendTurnMediaJSON [emit_intros]: "emits (from_turn t) s (snd (sendTurnMediaJSON gone t ty p s))"
  by (auto simp: sendTurnMediaJSON_def emits_sendTurnMedia intro: encodeJSON_emits split: prod.splits sum.splits)

lemma emits_sendTurnUIState [emit_intros]: "emits (from_turn t) s (snd (sendTurnUIState gone t e x s))"
  by (auto simp: sendTurnUIState_def Let_def emits_sendTurnJSON split: option.splits)

lemma emits_sendTurnError [emit_intros]: "emits (from_turn t) s (sendTurnError gone t code msg s)"
  by (simp add: sendTurnError_def emits_sendTurnJSON)

lemma emits_sendJSONMeta_gen:
  assumes "\<And>md' bytes. md_GenerationID md' = md_GenerationID md \<Longrightarrow>
    P \<lparr>ob_frame = Text_frame ty md' bytes, ob_generation = 0, turnScoped = False\<rparr>"
  shows "emits P s (snd (sendJSONMeta gone ty md p s))"
proof (cases "encodeJSON ty md p s")
  case (Pair r s')
  show ?thesis
  proof (cases r)
    case (Inl e)
    then show ?thesis using encodeJSON_emits[OF Pair, of P s'] by (simp add: sendJSONMeta_def Pair)
  next
    case (Inr f)
    then obtain md' bytes where "f = Text_frame ty md' bytes" "md_GenerationID md' = md_GenerationID md"
      using Pair encodeJSON_frame by blast
    then show ?thesis
      using encodeJSON_emits[OF Pair emits_send[of P _ s' gone]] assms by (simp add: sendJSONMeta_def Pair Inr)
  qed
qed

lemma emits_sendJSONMeta [emit_intros]:
  "ty \<noteq> ''turn.state'' \<Longrightarrow> emits plain_message s (snd (sendJSONMeta gone ty md p s))"
  by (rule emits_sendJSONMeta_gen) (simp add: plain_message_def announces_def)

lemma emits_sendError [emit_intros]: "emits plain_message s (sendError code msg s)"
  by (simp add: sendError_def emits_sendJSONMeta)

lemma emits_notify:
  "emits (\<lambda>m. \<not> turnScoped m \<and> announces m = Some (tu_generation t)) s (notify_interrupted t reason s)"
  unfolding notify_interrupted_def
  by (rule emits_sendJSONMeta_gen) (simp add: announces_def turn_metadata_def)

section \<open>The effect of a worker\<close>

text \<open>
  A step of the goroutine of a turn sends messages of its generation, and it may set the state of its turn or
  clear it, when it is still the active one.
\<close>

definition touches :: "turn \<Rightarrow> dev_session \<Rightarrow> dev_session \<Rightarrow> bool" where
  "touches t s s' \<longleftrightarrow>
     (\<exists>s1. emits (from_turn t) s s1 \<and> (s' = s1 \<or> (\<exists>st. s' = setTurnState t st s1) \<or> s' = clear_active t s1))"

lemma touches_emits: "emits (from_turn t) s s' \<Longrightarrow> touches t s s'"
  unfolding touches_def by blast

lemma touches_set: "touches t s (setTurnState t st s)"
  unfolding touches_def using emits_refl by blast

lemma touches_clear: "touches t s (clear_active t s)"
  unfolding touches_def using emits_refl by blast

lemma on_go_Some: "on_go x r = Some q \<longleftrightarrow> x = O_go \<and> q = r"
  by (auto simp: on_go_def)

lemma or_fail_fst: "(s, p) = or_fail f q r \<Longrightarrow> s = snd r"
  by (auto simp: or_fail_def split: prod.splits)

lemma sendTurnJSON_result: "sendTurnJSON gone t ty p s = (e, s') \<Longrightarrow> emits (from_turn t) s s'"
  using emits_sendTurnJSON[of t s gone ty p] by simp

lemma turn_work_touches:
  assumes "turn_work streams gone t s p ev = Some (s', p')"
  shows "touches t s s'"
  using assms
  by (auto simp: turn_work_def on_go_Some touches_set touches_clear dest!: or_fail_fst dest: sendTurnJSON_result
      split: pc.splits outcome.splits prod.splits intro!: touches_emits emit_intros)

lemma stream_work_touches:
  assumes "stream_work gone t s p ev = Some (s', p')"
  shows "touches t s s'"
  using assms
  by (auto simp: stream_work_def on_go_Some touches_set touches_clear dest!: or_fail_fst dest: sendTurnJSON_result
      split: pc.splits outcome.splits prod.splits intro!: touches_emits emit_intros)

lemma agent_event_touches:
  assumes "agent_event gone t s x = Some s'"
  shows "emits (from_turn t) s s'"
proof (cases x)
  case (O_status state tool)
  have 1: "emits (from_turn t) s (snd (sendTurnJSON gone t ''agent.status'' (status_payload state) s))"
    by (rule emit_intros)
  show ?thesis
    using assms O_status 1 emits_trans[OF 1 emits_sendTurnUIState]
    by (auto split: if_splits prod.splits option.splits)
qed (use assms in \<open>auto intro: emit_intros\<close>)

lemma work_touches:
  assumes "work streams gone t s p x = Some (s', p')"
  shows "touches t s s'"
  using assms turn_work_touches stream_work_touches touches_emits[OF agent_event_touches]
  by (auto simp: work_def split: option.splits if_splits)

section \<open>The invariant of a connection\<close>

text \<open>
  A message fits a generation when it is not scoped to a later one and announces only interruptions of
  earlier ones. Messages on the wire are in an order in which nothing scoped follows a notice of the
  interruption of its generation, or of a later one.
\<close>

definition fits :: "nat \<Rightarrow> outbound \<Rightarrow> bool" where
  "fits g m \<longleftrightarrow> (turnScoped m \<longrightarrow> ob_generation m \<le> g) \<and> (\<forall>h. announces m = Some h \<longrightarrow> h < g)"

definition may_precede :: "outbound \<Rightarrow> outbound \<Rightarrow> bool" where
  "may_precede m m' \<longleftrightarrow>
     (turnScoped m' \<longrightarrow> (turnScoped m \<longrightarrow> ob_generation m \<le> ob_generation m')
        \<and> (\<forall>h. announces m = Some h \<longrightarrow> h < ob_generation m'))"

definition dev_ok :: "dev_session \<Rightarrow> bool" where
  "dev_ok s \<longleftrightarrow>
     list_all (fits (generation s)) (controlWrites s) \<and> list_all (fits (generation s)) (mediaWrites s)
     \<and> (\<forall>t. active s = Some t \<longrightarrow> tu_generation t = generation s \<and> length (tu_pcm t) \<le> maximum_audio)
     \<and> list_all (\<lambda>(t, _). tu_generation t \<le> generation s \<and> length (tu_pcm t) \<le> maximum_audio) (workers s)"

definition wire :: "'w conn \<Rightarrow> outbound list" where
  "wire c = sent c @ (case inflight c of None \<Rightarrow> [] | Some m \<Rightarrow> [m])"

definition wire_ok :: "'w conn \<Rightarrow> bool" where
  "wire_ok c \<longleftrightarrow> list_all (fits (generation (sess c))) (wire c) \<and> sorted_wrt may_precede (wire c)"

lemma fits_mono: "fits g m \<Longrightarrow> g \<le> g' \<Longrightarrow> fits g' m"
  unfolding fits_def by fastforce

lemma fits_all_mono: "list_all (fits g) ms \<Longrightarrow> g \<le> g' \<Longrightarrow> list_all (fits g') ms"
  using fits_mono by (metis list.pred_mono_strong)

lemma emits_generation: "emits P s s' \<Longrightarrow> generation s' = generation s \<and> active s' = active s
    \<and> seenInbound s' = seenInbound s \<and> seenOrder s' = seenOrder s \<and> cancelled s' = cancelled s
    \<and> workers s' = workers s"
  unfolding emits_def by auto

lemma emits_dev_ok:
  assumes "emits P s s'" "dev_ok s" "\<And>m. P m \<Longrightarrow> fits (generation s) m"
  shows "dev_ok s'"
proof -
  obtain n cs ms where 1: "s' = s\<lparr>messageSeq := n, controlWrites := controlWrites s @ cs, mediaWrites := mediaWrites s @ ms\<rparr>"
      "list_all P cs" "list_all P ms" using assms(1) unfolding emits_def by blast
  have "list_all (fits (generation s)) cs" "list_all (fits (generation s)) ms"
    using 1(2,3) assms(3) by (auto elim: list.pred_mono_strong)
  then show ?thesis using assms(2) unfolding dev_ok_def 1(1) by simp
qed

lemma plain_fits: "plain_message m \<Longrightarrow> fits g m"
  by (simp add: plain_message_def fits_def)

lemma from_turn_fits: "from_turn t m \<Longrightarrow> tu_generation t \<le> g \<Longrightarrow> fits g m"
  by (simp add: from_turn_def fits_def announces_def)

lemma touches_dev_ok:
  assumes "touches t s s'" "dev_ok s" "tu_generation t \<le> generation s"
  shows "dev_ok s' \<and> generation s' = generation s \<and> workers s' = workers s"
proof -
  obtain s1 where e: "emits (from_turn t) s s1" and
    r: "s' = s1 \<or> (\<exists>st. s' = setTurnState t st s1) \<or> s' = clear_active t s1"
    using assms(1) unfolding touches_def by blast
  have "dev_ok s1" using emits_dev_ok[OF e assms(2)] from_turn_fits assms(3) by blast
  then show ?thesis using r emits_generation[OF e]
    by (auto simp: dev_ok_def setTurnState_def clear_active_def split: option.splits if_splits)
qed

section \<open>The reader\<close>

text \<open>The memory of inbound messages: the map and the order of insertion agree, and there are at most 256.\<close>

definition seen_ok :: "dev_session \<Rightarrow> bool" where
  "seen_ok s \<longleftrightarrow> dom (seenInbound s) = set (seenOrder s) \<and> distinct (seenOrder s)
     \<and> length (seenOrder s) \<le> maximumRememberedMessages"

lemma remember_seen_ok:
  assumes "seen_ok s" "seenInbound s i = None"
  shows "seen_ok (remember i d s)"
proof (cases "length (seenOrder s) = maximumRememberedMessages")
  case True
  then obtain x xs where "seenOrder s = x # xs" by (cases "seenOrder s") (auto simp: maximumRememberedMessages_def)
  with True assms show ?thesis by (auto simp: seen_ok_def remember_def Let_def dom_def)
next
  case False
  then show ?thesis using assms by (auto simp: seen_ok_def remember_def Let_def)
qed

lemma remember_dev_ok [simp]: "dev_ok (remember i d s) = dev_ok s"
  by (simp add: dev_ok_def remember_def Let_def)

lemma remember_generation [simp]: "generation (remember i d s) = generation s"
  by (simp add: remember_def Let_def)

text \<open>What an action of the reader may do to the session before its message is remembered.\<close>

definition acts :: "dev_session \<Rightarrow> act_result \<times> dev_session \<Rightarrow> bool" where
  "acts s = (\<lambda>(r, s'). dev_ok s' \<and> generation s \<le> generation s'
     \<and> (\<forall>t reason. r = Join t reason \<longrightarrow> tu_generation t < generation s')
     \<and> seenInbound s' = seenInbound s \<and> seenOrder s' = seenOrder s)"

lemma acts_same [simp]: "dev_ok s \<Longrightarrow> acts s (Done e, s)"
  by (simp add: acts_def)

lemma emits_acts: "emits plain_message s s' \<Longrightarrow> dev_ok s \<Longrightarrow> acts s (Done e, s')"
  using emits_dev_ok[OF _ _ plain_fits] emits_generation by (fastforce simp: acts_def)

lemma dev_ok_next:
  assumes "dev_ok s" "generation s \<le> generation s'"
    "\<And>t. active s' = Some t \<Longrightarrow> tu_generation t = generation s' \<and> length (tu_pcm t) \<le> maximum_audio"
    "controlWrites s' = controlWrites s" "mediaWrites s' = mediaWrites s" "workers s' = workers s"
  shows "dev_ok s'"
  using assms by (fastforce simp: dev_ok_def intro: fits_all_mono elim: list.pred_mono_strong)

lemma startTurn_acts:
  assumes "dev_ok s"
  shows "acts s (startTurn turnID s)"
proof -
  have "dev_ok (snd (startTurn turnID s))"
    using assms by (rule dev_ok_next)
      (use assms in \<open>auto simp: startTurn_def cancel_turn_def Let_def dev_ok_def split: option.splits if_splits\<close>)
  moreover have "active s = Some t \<Longrightarrow> tu_generation t < Suc (generation s)" for t
    using assms by (simp add: dev_ok_def)
  ultimately show ?thesis
    by (auto simp: startTurn_def acts_def cancel_turn_def Let_def split: option.splits if_splits)
qed

lemma interruptActive_acts:
  assumes "dev_ok s"
  shows "acts s (interruptActive reason s)"
proof -
  have "dev_ok (snd (interruptActive reason s))"
    using assms by (rule dev_ok_next)
      (use assms in \<open>auto simp: interruptActive_def cancel_turn_def split: option.splits\<close>)
  moreover have "active s = Some t \<Longrightarrow> tu_generation t < Suc (generation s)" for t
    using assms by (simp add: dev_ok_def)
  ultimately show ?thesis
    by (auto simp: interruptActive_def acts_def cancel_turn_def split: option.splits)
qed

lemma stopTurn_acts: "dev_ok s \<Longrightarrow> acts s (stopTurn turnID s)"
  by (auto simp: stopTurn_def acts_def dev_ok_def Let_def split: option.splits)

definition keeps :: "(dev_session \<times> 'w \<Rightarrow> act_result \<times> dev_session \<times> 'w) \<Rightarrow> bool" where
  "keeps action \<longleftrightarrow> (\<forall>s w r s' w'. dev_ok s \<longrightarrow> action (s, w) = (r, s', w') \<longrightarrow> acts s (r, s'))"

lemma done_of_acts:
  "done_of (sendJSONMeta gone ty md p s) w = (r, s', w') \<Longrightarrow> dev_ok s \<Longrightarrow> ty \<noteq> ''turn.state'' \<Longrightarrow> acts s (r, s')"
  using emits_acts[OF emits_sendJSONMeta, of ty s _ gone md p] by (auto simp: done_of_def)

lemma claim_keeps: "keeps (claim_action now message (i, p) claim request)"
  unfolding keeps_def
  by (auto simp: claim_action_def failed_def split: prod.splits sum.splits option.splits dest: done_of_acts)

lemma playback_keeps: "keeps (playback_action now message p playback request)"
  unfolding keeps_def
  by (auto simp: playback_action_def failed_def Let_def split: prod.splits sum.splits if_splits dest: done_of_acts)

lemma listen_keeps:
  "keeps (\<lambda>(s, w). if state = ''start'' then (case startTurn i s of (r, s) \<Rightarrow> (r, s, w))
                   else if state = ''stop'' then (case stopTurn i s of (r, s) \<Rightarrow> (r, s, w))
                   else failed msg (s, w))"
  using startTurn_acts[of _ i] stopTurn_acts[of _ i]
  by (fastforce simp: keeps_def failed_def split: prod.splits if_splits)

lemma abort_keeps: "keeps (\<lambda>(s, w). case interruptActive reason s of (r, s) \<Rightarrow> (r, s, w))"
  using interruptActive_acts[of _ reason] by (fastforce simp: keeps_def split: prod.splits)

lemma ack_keeps: "keeps (\<lambda>(s, w). case ack i w of (None, w) \<Rightarrow> (Done None, s, w) | (Some e, w) \<Rightarrow> failed e (s, w))"
  by (auto simp: keeps_def failed_def split: prod.splits option.splits)

text \<open>\<open>processInbound\<close> around an action, and \<open>handleControl\<close> as a whole.\<close>

definition reads :: "string option \<Rightarrow> dev_session \<Rightarrow> act_result \<times> dev_session \<times> 'w \<Rightarrow> bool" where
  "reads messageID s = (\<lambda>(r, s', w). dev_ok s' \<and> generation s \<le> generation s' \<and> (seen_ok s \<longrightarrow> seen_ok s')
     \<and> (\<forall>t reason. r = Join t reason \<longrightarrow> tu_generation t < generation s'
          \<and> (\<exists>i. messageID = Some i \<and> seenInbound s' i = None)))"

lemma reads_same [simp]: "dev_ok s \<Longrightarrow> reads i s (Done e, s, w)"
  by (simp add: reads_def)

lemma reads_failed [simp]: "dev_ok s \<Longrightarrow> reads i s (failed msg (s, w))"
  by (simp add: failed_def)

lemma processInbound_reads:
  assumes "keeps action" "dev_ok s"
  shows "reads (Some i) s (processInbound i digest action (s, w))"
proof -
  obtain r s' w' where a: "action (s, w) = (r, s', w')" by (cases "action (s, w)")
  then have k: "acts s (r, s')" using assms unfolding keeps_def by blast
  then have "seenInbound s i = None \<Longrightarrow> seen_ok s \<Longrightarrow> seen_ok (remember i d s')" for d
    by (intro remember_seen_ok) (auto simp: acts_def seen_ok_def)
  with k a assms(2) show ?thesis
    by (cases r) (auto simp: processInbound_def reads_def acts_def seen_ok_def split: option.splits)
qed

lemma sendError_reads: "reads i s (Done e, s', w) \<Longrightarrow> reads i s (Done e', sendError code msg s', w)"
  using emits_dev_ok[OF emits_sendError _ plain_fits] emits_generation[OF emits_sendError]
  by (auto simp: reads_def seen_ok_def)

lemma done_of_reads: "dev_ok s \<Longrightarrow> ty \<noteq> ''turn.state'' \<Longrightarrow> reads i s (done_of (sendJSONMeta gone ty md p s) w)"
  using emits_acts[OF emits_sendJSONMeta, of ty s _ gone md p] by (auto simp: done_of_def reads_def acts_def seen_ok_def)

lemma handleControl_reads:
  assumes "dev_ok s"
  shows "reads (case Decode data of Inl _ \<Rightarrow> None | Inr m \<Rightarrow> Some (en_MessageID m)) s (handleControl sv now data (s, w))"
proof (cases "Decode data")
  case (Inr m)
  note P = processInbound_reads[OF _ assms, of _ "en_MessageID m" "sv_digest sv data" w]
  show ?thesis
    unfolding handleControl_def Inr Let_def sum.case fst_conv snd_conv
    by (simp add: assms Inr P[OF listen_keeps] P[OF abort_keeps] P[OF ack_keeps] P[OF claim_keeps] P[OF playback_keeps]
        done_of_reads split: sum.split option.split)
qed (use assms in \<open>simp add: handleControl_def\<close>)

section \<open>The invariant of a connection holds at every step\<close>

definition reader_ok :: "'w conn \<Rightarrow> bool" where
  "reader_ok c \<longleftrightarrow> seen_ok (sess c)
     \<and> (\<forall>t reason i d. rd c = Joining t reason i d \<longrightarrow>
          tu_generation t < generation (sess c) \<and> seenInbound (sess c) i = None)"

definition conn_ok :: "'w conn \<Rightarrow> bool" where
  "conn_ok c \<longleftrightarrow> dev_ok (sess c) \<and> wire_ok c \<and> reader_ok c"

lemmas ok_defs = conn_ok_def wire_ok_def wire_def reader_ok_def

lemma conn_ok_sess:
  assumes "conn_ok c" "dev_ok s" "generation (sess c) \<le> generation s" "seen_ok s"
    "\<And>t reason i d. r = Joining t reason i d \<Longrightarrow> tu_generation t < generation s \<and> seenInbound s i = None"
  shows "conn_ok (c\<lparr>sess := s, world := w, rd := r\<rparr>)"
  using assms by (auto simp: ok_defs intro: fits_all_mono)

lemma conn_ok_emits:
  assumes "conn_ok c" "emits P (sess c) s" "\<And>m. P m \<Longrightarrow> fits (generation (sess c)) m"
  shows "conn_ok (c\<lparr>sess := s\<rparr>)" "conn_ok (c\<lparr>sess := s, world := w\<rparr>)"
  using assms emits_generation[OF assms(2)] emits_dev_ok[OF assms(2) _ assms(3)]
  by (auto simp: ok_defs seen_ok_def)

lemma conn_ok_reads:
  assumes "conn_ok c" "rd c = Reading" "reads i (sess c) (Done e, s, w)"
  shows "conn_ok (c\<lparr>sess := s, world := w\<rparr>)"
  using assms by (auto simp: ok_defs reads_def intro: fits_all_mono)

lemma read_text_ok:
  assumes "conn_ok c" "rd c = Reading"
  shows "conn_ok (read_text sv now data c)"
proof -
  obtain r s w where h: "handleControl sv now data (sess c, world c) = (r, s, w)"
    by (cases "handleControl sv now data (sess c, world c)")
  have ok: "dev_ok (sess c)" "seen_ok (sess c)" using assms(1) by (auto simp: ok_defs)
  note R = handleControl_reads[OF ok(1), of data sv now "world c", unfolded h]
  show ?thesis
  proof (cases r)
    case (Done e)
    note R = R[unfolded Done]
    show ?thesis
    proof (cases e)
      case None
      then show ?thesis using conn_ok_reads[OF assms R] by (simp add: read_text_def h Done)
    next
      case (Some x)
      then show ?thesis using conn_ok_reads[OF assms sendError_reads[OF R]] by (simp add: read_text_def h Done)
    qed
  next
    case (Join t reason)
    then have "dev_ok s" "generation (sess c) \<le> generation s" "seen_ok s" "tu_generation t < generation s"
      and i: "Decode data = Inr m \<Longrightarrow> seenInbound s (en_MessageID m) = None" for m
      using R ok(2) by (auto simp: reads_def split: sum.splits)
    moreover from this have "conn_ok (c\<lparr>sess := s, world := w\<rparr>)"
      by (intro conn_ok_reads[OF assms, where e = None]) (simp add: reads_def)
    ultimately show ?thesis
      using conn_ok_sess[OF assms(1), of s _ w] assms(2) Join
      by (auto simp: read_text_def h split: sum.splits option.splits)
  qed
qed

lemma read_audio_ok:
  assumes "conn_ok c"
  shows "conn_ok (read_audio data decoded c)"
proof -
  obtain e s where h: "handleAudio data decoded (sess c) = (e, s)" by (cases "handleAudio data decoded (sess c)")
  have "dev_ok s" "generation s = generation (sess c)" "seenInbound s = seenInbound (sess c)"
      "seenOrder s = seenOrder (sess c)"
    using h assms by (auto simp: handleAudio_def ok_defs dev_ok_def split: if_splits sum.splits option.splits)
  then have 1: "conn_ok (c\<lparr>sess := s\<rparr>)" using assms by (auto simp: ok_defs seen_ok_def)
  have "conn_ok (c\<lparr>sess := sendError code msg s\<rparr>)" for code msg
    using conn_ok_emits(1)[OF 1, of plain_message "sendError code msg s"] emits_sendError plain_fits by simp
  with 1 show ?thesis by (auto simp: read_audio_def h split: option.splits)
qed

lemma finish_join_ok:
  assumes "conn_ok c" "rd c = Joining t reason i d"
  shows "conn_ok (finish_join t reason i d c)"
proof -
  have "dev_ok (notify_interrupted t reason (sess c))"
    using emits_dev_ok[OF emits_notify] assms by (auto simp: ok_defs fits_def)
  then show ?thesis
    using assms emits_generation[OF emits_notify] remember_seen_ok
    by (auto simp: finish_join_def ok_defs seen_ok_def)
qed

lemma take_message_ok:
  assumes "conn_ok c" "inflight c = None" "dev_ok s" "fits (generation (sess c)) m"
    "generation s = generation (sess c)" "seenInbound s = seenInbound (sess c)" "seenOrder s = seenOrder (sess c)"
  shows "conn_ok (take_message m s c)"
proof -
  have "may_precede m' m" if "m' \<in> set (sent c)" "outboundCurrent m s" for m'
    using that assms by (auto simp: may_precede_def ok_defs fits_def outboundCurrent_def generationCurrent_def list_all_iff)
  with assms show ?thesis by (auto simp: take_message_def ok_defs seen_ok_def sorted_wrt_append)
qed

lemma work_step_ok:
  assumes "conn_ok c" "workers (sess c) = ws1 @ (t, p) # ws2" "touches t (sess c) s"
  shows "conn_ok (c\<lparr>sess := s\<lparr>workers := ws1 @ (case p' of None \<Rightarrow> [] | Some q \<Rightarrow> [(t, q)]) @ ws2\<rparr>\<rparr>)"
proof -
  have t: "tu_generation t \<le> generation (sess c)" and d: "dev_ok (sess c)"
    using assms(1,2) by (auto simp: ok_defs dev_ok_def)
  note D = touches_dev_ok[OF assms(3) d t]
  have "seenInbound s = seenInbound (sess c) \<and> seenOrder s = seenOrder (sess c)"
    using assms(3) emits_generation unfolding touches_def
    by (fastforce simp: setTurnState_def clear_active_def split: option.splits if_splits)
  then show ?thesis using D assms(1,2) by (cases p') (auto simp: ok_defs dev_ok_def seen_ok_def)
qed

lemma conn_step_ok:
  assumes "conn_step sv streams c c'" "conn_ok c"
  shows "conn_ok c'"
  using assms
proof (induction rule: conn_step.induct)
  case (text_step c data now)
  then show ?case using read_text_ok by blast
next
  case (audio_step c data decoded)
  then show ?case using read_audio_ok by blast
next
  case (join_step c t reason messageID digest)
  then show ?case using finish_join_ok by blast
next
  case (push_step ty c gone md p w)
  show ?case using push_step.prems emits_sendJSONMeta[OF push_step.hyps] plain_fits by (rule conn_ok_emits(2))
next
  case (work_step c ws1 t p ws2 late ev s p')
  show ?case using work_step.prems work_step.hyps(1) work_touches[OF work_step.hyps(2)] by (rule work_step_ok)
next
  case (take_control c m ms)
  then show ?case by (intro take_message_ok) (auto simp: ok_defs dev_ok_def)
next
  case (take_media c m ms)
  then show ?case by (intro take_message_ok) (auto simp: ok_defs dev_ok_def)
next
  case (write_step c m)
  then show ?case by (auto simp: ok_defs)
qed

lemma connected_ok: "connected sv streams c \<Longrightarrow> conn_ok c"
proof (induction rule: connected.induct)
  case (connect randomID deviceID userID w)
  then show ?case by (simp add: ok_defs dev_ok_def seen_ok_def new_session_def)
qed (use conn_step_ok in blast)

section \<open>Replays\<close>

definition inert :: "dev_session \<Rightarrow> 'w \<Rightarrow> act_result \<times> dev_session \<times> 'w \<Rightarrow> bool" where
  "inert s w = (\<lambda>(r, s', w'). (\<exists>e. r = Done e) \<and> w' = w \<and> emits plain_message s s')"

lemma inert_same [simp]: "inert s w (Done e, s, w)" "inert s w (failed msg (s, w))"
  by (simp_all add: inert_def failed_def)

lemma inert_send: "ty \<noteq> ''turn.state'' \<Longrightarrow> inert s w (done_of (sendJSONMeta gone ty md p s) w)"
  by (simp add: inert_def done_of_def emits_sendJSONMeta)

lemma inert_replay: "seenInbound s i = Some d \<Longrightarrow> inert s w (processInbound i digest action (s, w))"
  by (simp add: processInbound_def inert_def split: option.split)

lemma replayed_control:
  assumes "Decode data = Inr m" "seenInbound s (en_MessageID m) = Some d"
  shows "inert s w (handleControl sv now data (s, w))"
  unfolding handleControl_def assms(1) Let_def sum.case fst_conv snd_conv
  by (simp add: inert_send inert_replay[OF assms(2)] split: sum.split option.split)

lemma replayed_read_text:
  assumes "rd c = Reading" "Decode data = Inr m" "seenInbound (sess c) (en_MessageID m) = Some d"
  shows "world (read_text sv now data c) = world c" "rd (read_text sv now data c) = Reading"
    "emits plain_message (sess c) (sess (read_text sv now data c))"
proof -
  obtain r s w where h: "handleControl sv now data (sess c, world c) = (r, s, w)"
    by (cases "handleControl sv now data (sess c, world c)")
  obtain e where e: "r = Done e" "w = world c" "emits plain_message (sess c) s"
    using replayed_control[OF assms(2,3), of "world c" sv now] by (auto simp: h inert_def)
  have "emits plain_message (sess c) (sendError code msg s)" for code msg
    using e(3) emits_sendError by (rule emits_trans)
  then show "world (read_text sv now data c) = world c" "rd (read_text sv now data c) = Reading"
    "emits plain_message (sess c) (sess (read_text sv now data c))"
    using e assms(1) by (auto simp: read_text_def h split: option.split)
qed

end
