(* ===== verification/Session_Demo.thy ===== *)
theory Session_Demo
  imports Session_Invariant
begin

text \<open>
  A connection in which a device starts a turn, interrupts it by starting another, speaks and gets an answer:
  a run of the model through every kind of step, for the witnesses of the properties.
\<close>

section \<open>Objects of strings\<close>

definition object_text :: "(string \<times> string) list \<Rightarrow> string" where
  "object_text kvs = ''{'' @ join '','' (map (\<lambda>(k, v). member_text (k, quote v)) kvs) @ ''}''"

lemma read_top_strings:
  assumes "kvs \<noteq> []" "list_all (ValidString \<circ> fst) kvs"
  shows "read_top (object_text kvs) = Some (Top_object (map (map_prod id quote) kvs), [])"
  using assms read_top_object[of "map (map_prod id quote) kvs"] value_text_quote
  by (auto simp: object_text_def comp_def list_all_iff case_prod_unfold map_prod_def)

lemma raw_object_strings:
  assumes "kvs \<noteq> []" "list_all (ValidString \<circ> fst) kvs" "graphic (object_text kvs)"
  shows "raw_object (object_text kvs)"
proof -
  have "skip_ws (object_text kvs) = object_text kvs" by (simp add: object_text_def skip_ws_def json_space_def)
  then have "Valid (object_text kvs)"
    using read_top_strings[OF assms(1,2)]
    by (auto simp: read_top_def Valid_def parse_json_def Let_def skip_ws_def[of "[]"] simp del: pvalue.simps
        split: option.splits prod.splits json.splits)
  moreover have "hd (object_text kvs) = CHR ''{''" "last (object_text kvs) = CHR ''}''" "length (object_text kvs) \<ge> 2"
    by (simp_all add: object_text_def)
  ultimately show ?thesis using assms(3) by (simp add: raw_object_def Let_def)
qed

lemma graphic_quote_literals:
  "quote ''state'' = CHR 0x22 # ''state'' @ [CHR 0x22]" "quote ''mode'' = CHR 0x22 # ''mode'' @ [CHR 0x22]"
  "quote ''start'' = CHR 0x22 # ''start'' @ [CHR 0x22]" "quote ''stop'' = CHR 0x22 # ''stop'' @ [CHR 0x22]"
  "quote ''manual'' = CHR 0x22 # ''manual'' @ [CHR 0x22]" "quote ''reason'' = CHR 0x22 # ''reason'' @ [CHR 0x22]"
  "quote ''interrupted'' = CHR 0x22 # ''interrupted'' @ [CHR 0x22]"
  "quote ''barge_in'' = CHR 0x22 # ''barge_in'' @ [CHR 0x22]" "quote ''text'' = CHR 0x22 # ''text'' @ [CHR 0x22]"
  "quote ''hi'' = CHR 0x22 # ''hi'' @ [CHR 0x22]"
  by (simp_all add: quote_def escape_rune_def rune_error_def)

section \<open>The messages\<close>

definition listen_start :: "(string \<times> string) list" where
  "listen_start = [(''state'', ''start''), (''mode'', ''manual'')]"

definition listen_stop :: "(string \<times> string) list" where
  "listen_stop = [(''state'', ''stop'')]"

definition demo_envelope :: "string \<Rightarrow> string \<Rightarrow> (string \<times> string) list \<Rightarrow> Envelope" where
  "demo_envelope i turnID kvs = envelope_of ''turn.listen''
     (no_metadata\<lparr>md_MessageID := i, md_SessionID := ''s'', md_TurnID := turnID\<rparr>) (object_text kvs)"

lemma listen_objects:
  "raw_object (object_text listen_start)" "raw_object (object_text listen_stop)"
  "graphic (object_text listen_start)" "graphic (object_text listen_stop)"
  "length (object_text listen_start) \<le> 50" "length (object_text listen_stop) \<le> 50"
proof -
  show g: "graphic (object_text listen_start)" "graphic (object_text listen_stop)"
    by (simp_all add: object_text_def listen_start_def listen_stop_def member_text_def graphic_quote_literals graphic_def)
  have v: "ValidString ''state''" "ValidString ''mode''" by (simp_all add: ValidString_def rune_error_def)
  show "raw_object (object_text listen_start)" "raw_object (object_text listen_stop)"
    using g v by (intro raw_object_strings; simp add: listen_start_def listen_stop_def)+
  show "length (object_text listen_start) \<le> 50" "length (object_text listen_stop) \<le> 50"
    by (simp_all add: object_text_def listen_start_def listen_stop_def member_text_def graphic_quote_literals)
qed

lemma demo_decodes:
  assumes "i \<in> {''a'', ''b'', ''c''}" "turnID \<in> {''t'', ''u''}" "kvs = listen_start \<or> kvs = listen_stop"
  shows "Decode (marshal_envelope (demo_envelope i turnID kvs)) = Inr (demo_envelope i turnID kvs)"
proof (rule Decode_marshal)
  have raw: "raw_object (object_text kvs)" "TrimSpace (object_text kvs) = object_text kvs"
      "length (object_text kvs) \<le> 50" "object_text kvs \<noteq> []"
    using assms(3) listen_objects by (auto simp: object_text_def)
  have ids: "ValidString ''s''" "ValidString i" "ValidString turnID" "ValidString ''turn.listen''"
    using assms(1,2) by (auto simp: ValidString_def rune_error_def)
  have trim: "TrimSpace ''s'' = ''s''" "TrimSpace i = i" "TrimSpace turnID = turnID" "length i = 1" "length turnID = 1"
    using assms(1,2) by (auto simp: graphic_def)
  show "envelope_text_ok (demo_envelope i turnID kvs)"
    using ids value_text_object[OF raw(1,2)]
    by (simp add: envelope_text_ok_def demo_envelope_def envelope_of_def no_metadata_def Version_def)
  show "Envelope_Validate (demo_envelope i turnID kvs) = None"
    using raw trim by (auto simp: Envelope_Validate_def demo_envelope_def envelope_of_def no_metadata_def Version_def
        MessageType_Valid_def control_types_def invalid_envelope_def validateOpaqueID_def optional_id_def and_then_def
        MaximumPayloadBytes_def)
  show "length (marshal_envelope (demo_envelope i turnID kvs)) \<le> MaximumEnvelopeBytes"
    using raw(3) assms(1,2)
    by (auto simp: marshal_envelope_def demo_envelope_def envelope_of_def no_metadata_def Version_def FormatInt_2
        str_field_def quote_def escape_rune_def MaximumEnvelopeBytes_def rune_error_def)
qed

lemma demo_listens:
  "decode_listen (demo_envelope i turnID listen_start) = Inr \<lparr>lp_State = ''start'', lp_Mode = ''manual''\<rparr>"
  "decode_listen (demo_envelope i turnID listen_stop) = Inr \<lparr>lp_State = ''stop'', lp_Mode = []\<rparr>"
proof -
  have v: "ValidString ''state''" "ValidString ''mode''" "ValidString ''start''" "ValidString ''stop''" "ValidString ''manual''"
    by (simp_all add: ValidString_def rune_error_def)
  have r: "read_top (object_text listen_start) = Some (Top_object [(''state'', quote ''start''), (''mode'', quote ''manual'')], [])"
          "read_top (object_text listen_stop) = Some (Top_object [(''state'', quote ''stop'')], [])"
    using read_top_strings[of listen_start] read_top_strings[of listen_stop] v
    by (simp_all add: listen_start_def listen_stop_def)
  have f: "field_is ''state'' ''state''" "\<not> field_is ''state'' ''mode''" "field_is ''mode'' ''mode''"
    by (simp_all add: field_is_def fold_rune_def)
  show "decode_listen (demo_envelope i turnID listen_start) = Inr \<lparr>lp_State = ''start'', lp_Mode = ''manual''\<rparr>"
    "decode_listen (demo_envelope i turnID listen_stop) = Inr \<lparr>lp_State = ''stop'', lp_Mode = []\<rparr>"
    by (simp_all add: decode_listen_def DecodePayload_def decode_struct_def demo_envelope_def envelope_of_def r f v
        set_string_quote ensureJSONEOF_def skip_ws_def ListenPayload_Validate_def)
qed

section \<open>The run\<close>

definition demo_services :: "unit services" where
  "demo_services = \<lparr>sv_ack = None, sv_claim = None, sv_playback = None, sv_sha256 = id, sv_digest = Some\<rparr>"

definition demo_turn :: "string \<Rightarrow> string \<Rightarrow> string \<Rightarrow> nat \<Rightarrow> turn" where
  "demo_turn i state pcm g = \<lparr>tu_id = i, tu_state = state, tu_pcm = pcm, tu_generation = g\<rparr>"

definition demo_conn :: "dev_session \<Rightarrow> reader \<Rightarrow> unit conn" where
  "demo_conn s r = \<lparr>sess = s, world = (), rd = r, inflight = None, sent = []\<rparr>"

lemma marshal_strings: "marshal (JObj (map (map_prod id JString) kvs)) = object_text kvs"
  by (simp add: object_text_def member_text_def comp_def case_prod_unfold)

lemma demo_text: "graphic ''s''" "graphic ''d''" "graphic ''t''" "graphic ''u''" "graphic ''s-1''" "graphic ''s-2''" "graphic ''hi''"
  "graphic ''barge_in''"
  by (simp_all add: graphic_def)

lemma demo_fields:
  "en_MessageID (demo_envelope i turnID kvs) = i" "sv_digest demo_services x = Some x"
  by (simp_all add: demo_envelope_def envelope_of_def no_metadata_def demo_services_def)

lemma demo_control:
  assumes "i \<in> {''a'', ''b'', ''c''}" "turnID \<in> {''t'', ''u''}" "ds_id s = ''s''" "seenInbound s i = None"
  shows "handleControl demo_services now (marshal_envelope (demo_envelope i turnID listen_start)) (s, ()) =
      (case startTurn turnID s of
         (Done None, s') \<Rightarrow> (Done None, remember i (marshal_envelope (demo_envelope i turnID listen_start)) s', ())
       | (r, s') \<Rightarrow> (r, s', ()))"
    "handleControl demo_services now (marshal_envelope (demo_envelope i turnID listen_stop)) (s, ()) =
      (case stopTurn turnID s of
         (Done None, s') \<Rightarrow> (Done None, remember i (marshal_envelope (demo_envelope i turnID listen_stop)) s', ())
       | (r, s') \<Rightarrow> (r, s', ()))"
proof -
  have e: "en_SessionID (demo_envelope i turnID kvs) = ''s''" "en_Type (demo_envelope i turnID kvs) = ''turn.listen''"
    "en_MessageID (demo_envelope i turnID kvs) = i" "en_TurnID (demo_envelope i turnID kvs) = turnID" for kvs
    by (simp_all add: demo_envelope_def envelope_of_def no_metadata_def)
  note d = demo_decodes[OF assms(1,2)]
  show "handleControl demo_services now (marshal_envelope (demo_envelope i turnID listen_start)) (s, ()) =
      (case startTurn turnID s of
         (Done None, s') \<Rightarrow> (Done None, remember i (marshal_envelope (demo_envelope i turnID listen_start)) s', ())
       | (r, s') \<Rightarrow> (r, s', ()))"
    by (simp add: handleControl_def d e demo_listens assms(3,4) processInbound_def demo_services_def
        split: prod.split act_result.split option.split)
  show "handleControl demo_services now (marshal_envelope (demo_envelope i turnID listen_stop)) (s, ()) =
      (case stopTurn turnID s of
         (Done None, s') \<Rightarrow> (Done None, remember i (marshal_envelope (demo_envelope i turnID listen_stop)) s', ())
       | (r, s') \<Rightarrow> (r, s', ()))"
    by (simp add: handleControl_def d e demo_listens assms(3,4) processInbound_def demo_services_def
        split: prod.split act_result.split option.split)
qed

lemma demo_encodes:
  assumes "ty = ''turn.state'' \<and> kvs = [(''state'', ''interrupted''), (''reason'', ''barge_in'')]
      \<or> ty = ''transcript.final'' \<and> kvs = [(''text'', ''hi'')]"
    "i \<in> {''s-1'', ''s-2''}" "turnID \<in> {''t'', ''u''}" "g < 10"
  shows "\<exists>bytes. Encode ty (no_metadata\<lparr>md_MessageID := i, md_SessionID := ''s'', md_TurnID := turnID, md_GenerationID := g\<rparr>)
     None (object_text kvs) = Inr bytes"
proof -
  have v: "ValidString ''state''" "ValidString ''reason''" "ValidString ''text''"
    by (simp_all add: ValidString_def rune_error_def)
  have g: "graphic (object_text kvs)" "length (object_text kvs) \<le> 60" "object_text kvs \<noteq> []"
    using assms(1) by (auto simp: object_text_def member_text_def graphic_quote_literals graphic_def)
  then have r: "raw_object (object_text kvs)"
    using assms(1) v by (intro raw_object_strings) auto
  have i: "TrimSpace i = i" "i \<noteq> []" "length i = 3" "TrimSpace turnID = turnID" "length turnID = 1"
    using assms(2,3) by (auto simp: graphic_def)
  let ?e = "envelope_of ty (no_metadata\<lparr>md_MessageID := i, md_SessionID := ''s'', md_TurnID := turnID, md_GenerationID := g\<rparr>)
     (object_text kvs)"
  have ty: "MessageType_Valid ty" using assms(1) by (auto simp: MessageType_Valid_def control_types_def)
  have "Envelope_Validate ?e = None"
    using g r i ty demo_text by (auto simp: Envelope_Validate_def envelope_of_def no_metadata_def Version_def
        invalid_envelope_def validateOpaqueID_def optional_id_def and_then_def MaximumPayloadBytes_def)
  moreover have "length (marshal_envelope ?e) \<le> MaximumEnvelopeBytes"
    using g(2) assms
    by (auto simp: marshal_envelope_def envelope_of_def no_metadata_def Version_def FormatInt_2 decimal.simps[of g]
        str_field_def quote_def escape_rune_def MaximumEnvelopeBytes_def rune_error_def)
  ultimately show ?thesis by (simp add: Encode_def Let_def)
qed

lemma demo_encodeJSON:
  assumes "ty = ''turn.state'' \<and> kvs = [(''state'', ''interrupted''), (''reason'', ''barge_in'')]
      \<or> ty = ''transcript.final'' \<and> kvs = [(''text'', ''hi'')]"
    "ds_id s = ''s''" "messageSeq s < 2" "tu_id t \<in> {''t'', ''u''}" "tu_generation t < 10"
  shows "\<exists>md bytes. md_GenerationID md = tu_generation t
     \<and> encodeJSON ty (turn_metadata t) (None, JObj (map (map_prod id JString) kvs)) s =
       (Inr (Text_frame ty md bytes), s\<lparr>messageSeq := Suc (messageSeq s)\<rparr>)"
proof -
  have "decimal 1 = ''1''" "decimal 2 = ''2''" by code_simp+
  moreover have "messageSeq s = 0 \<or> messageSeq s = 1" using assms(3) by auto
  ultimately have d: "''s'' @ ''-'' @ decimal (Suc (messageSeq s)) \<in> {''s-1'', ''s-2''}" by (auto simp: numeral_2_eq_2)
  from demo_encodes[OF assms(1) this assms(4,5)] show ?thesis
    by (auto simp: encodeJSON_def nextMessageID_def turn_metadata_def no_metadata_def assms(2) Let_def marshal_strings
        simp del: marshal.simps list.map)
qed

lemma demo_notice:
  assumes "ds_id s = ''s''" "messageSeq s = 0" "controlWrites s = []"
  shows "\<exists>md bytes. md_GenerationID md = 1
    \<and> notify_interrupted (demo_turn ''t'' ''listening'' [] 1) ''barge_in'' s = s\<lparr>messageSeq := 1,
        controlWrites := [\<lparr>ob_frame = Text_frame ''turn.state'' md bytes, ob_generation = 0, turnScoped = False\<rparr>]\<rparr>"
proof -
  have "turn_state_payload ''interrupted'' ''barge_in'' =
      (None, JObj (map (map_prod id JString) [(''state'', ''interrupted''), (''reason'', ''barge_in'')]))"
    using demo_text by (simp add: turn_state_payload_def TurnStatePayload_Validate_def opt_member_def bounded_text_def)
  moreover obtain md bytes where "md_GenerationID md = 1" "encodeJSON ''turn.state'' (turn_metadata (demo_turn ''t'' ''listening'' [] 1))
      (None, JObj (map (map_prod id JString) [(''state'', ''interrupted''), (''reason'', ''barge_in'')])) s =
       (Inr (Text_frame ''turn.state'' md bytes), s\<lparr>messageSeq := Suc (messageSeq s)\<rparr>)"
    using demo_encodeJSON[of "''turn.state''" "[(''state'', ''interrupted''), (''reason'', ''barge_in'')]" s
        "demo_turn ''t'' ''listening'' [] 1"] assms by (auto simp: demo_turn_def)
  ultimately show ?thesis
    by (intro exI[of _ md] exI[of _ bytes])
       (simp add: notify_interrupted_def sendJSONMeta_def send_def maximumControlQueue_def assms)
qed

lemma demo_transcript:
  assumes "ds_id s = ''s''" "messageSeq s = 1" "controlWrites s = [m]"
  shows "\<exists>md bytes. snd (sendTurnJSON False (demo_turn ''u'' st pcm 2) ''transcript.final'' (text_payload ''hi'') s) =
     s\<lparr>messageSeq := 2, controlWrites := [m, \<lparr>ob_frame = Text_frame ''transcript.final'' md bytes, ob_generation = 2, turnScoped = True\<rparr>]\<rparr>"
proof -
  have "text_payload ''hi'' = (None, JObj (map (map_prod id JString) [(''text'', ''hi'')]))"
    using demo_text by (simp add: text_payload_def TextPayload_Validate_def bounded_text_def MaximumPayloadBytes_def)
  moreover obtain md bytes where "encodeJSON ''transcript.final'' (turn_metadata (demo_turn ''u'' st pcm 2))
      (None, JObj (map (map_prod id JString) [(''text'', ''hi'')])) s =
       (Inr (Text_frame ''transcript.final'' md bytes), s\<lparr>messageSeq := Suc (messageSeq s)\<rparr>)"
    using demo_encodeJSON[of "''transcript.final''" "[(''text'', ''hi'')]" s "demo_turn ''u'' st pcm 2"] assms
    by (auto simp: demo_turn_def)
  moreover have "tu_generation (demo_turn ''u'' st pcm 2) = 2" by (simp add: demo_turn_def)
  ultimately show ?thesis
    by (intro exI[of _ md] exI[of _ bytes])
       (simp add: sendTurnJSON_def sendTurn_def send_def maximumControlQueue_def assms numeral_2_eq_2)
qed

definition demo_message :: "string \<Rightarrow> string \<Rightarrow> (string \<times> string) list \<Rightarrow> string" where
  "demo_message i turnID kvs = marshal_envelope (demo_envelope i turnID kvs)"

lemma demo_not_extension:
  assumes "i \<in> {''a'', ''b'', ''c''}" "turnID \<in> {''t'', ''u''}" "kvs = listen_start \<or> kvs = listen_stop"
  shows "\<not> extension_message (demo_message i turnID kvs)"
  using demo_decodes[OF assms]
  by (simp add: extension_message_def demo_message_def extension_types_def demo_envelope_def envelope_of_def)

lemma demo_text_step:
  assumes "connected demo_services False (demo_conn s Reading)"
    "i \<in> {''a'', ''b'', ''c''}" "turnID \<in> {''t'', ''u''}" "kvs = listen_start \<or> kvs = listen_stop"
    "read_text demo_services 0 (demo_message i turnID kvs) (demo_conn s Reading) = c"
  shows "connected demo_services False c"
proof -
  have "rd (demo_conn s Reading) = Reading" by (simp add: demo_conn_def)
  from connected.step[OF assms(1) text_step[OF this demo_not_extension[OF assms(2-4)], where now = 0]]
  show ?thesis unfolding assms(5) .
qed

definition demo_s1 :: dev_session where
  "demo_s1 = \<lparr>ds_id = ''s'', ds_deviceID = ''d'', ds_userID = ''u'', controlWrites = [], mediaWrites = [],
      active = Some (demo_turn ''t'' ''listening'' [] 1), generation = 1, cancelled = [], messageSeq = 0,
      seenInbound = [''a'' \<mapsto> demo_message ''a'' ''t'' listen_start], seenOrder = [''a''], workers = []\<rparr>"

definition demo_s2 :: dev_session where
  "demo_s2 = demo_s1\<lparr>active := Some (demo_turn ''u'' ''listening'' [] 2), generation := 2, cancelled := [1]\<rparr>"

lemma demo_interrupts:
  "connected demo_services False
     (demo_conn demo_s2 (Joining (demo_turn ''t'' ''listening'' [] 1) ''barge_in'' ''b'' (demo_message ''b'' ''u'' listen_start)))"
proof -
  have "connected demo_services False (demo_conn (new_session ''s'' ''d'' ''u'') Reading)"
    unfolding demo_conn_def by (rule connect)
  then have "connected demo_services False (demo_conn demo_s1 Reading)"
    by (rule demo_text_step[of _ "''a''" "''t''" listen_start])
      (use demo_text in \<open>simp_all add: read_text_def demo_conn_def demo_control demo_message_def new_session_def startTurn_def
        demo_s1_def demo_turn_def Let_def remember_def maximumRememberedMessages_def\<close>)
  then show ?thesis
    by (rule demo_text_step[of _ "''b''" "''u''" listen_start])
      (use demo_text in \<open>simp_all add: read_text_def demo_conn_def demo_control demo_message_def startTurn_def cancel_turn_def
        demo_s1_def demo_s2_def demo_turn_def Let_def demo_decodes demo_fields\<close>)
qed

definition demo_s3 :: "outbound \<Rightarrow> dev_session" where
  "demo_s3 n = remember ''b'' (demo_message ''b'' ''u'' listen_start) (demo_s2\<lparr>messageSeq := 1, controlWrites := [n]\<rparr>)"

definition demo_s4 :: "outbound \<Rightarrow> dev_session" where
  "demo_s4 n = remember ''c'' (demo_message ''c'' ''u'' listen_stop)
     ((demo_s3 n)\<lparr>active := Some (demo_turn ''u'' ''processing'' ''yz'' 2),
        workers := [(demo_turn ''u'' ''processing'' ''yz'' 2, P_asr)]\<rparr>)"

lemmas demo_states = demo_s1_def demo_s2_def demo_s3_def demo_s4_def remember_def maximumRememberedMessages_def

lemma demo_speaks:
  "\<exists>n. announces n = Some 1 \<and> connected demo_services False (demo_conn (demo_s4 n) Reading)"
proof -
  let ?j = "Joining (demo_turn ''t'' ''listening'' [] 1) ''barge_in'' ''b'' (demo_message ''b'' ''u'' listen_start)"
  let ?s = "\<lambda>n. (demo_s3 n)\<lparr>active := Some (demo_turn ''u'' ''listening'' ''yz'' 2)\<rparr>"
  have "ds_id demo_s2 = ''s''" "messageSeq demo_s2 = 0" "controlWrites demo_s2 = []" by (simp_all add: demo_states)
  from demo_notice[OF this] obtain md bytes where md: "md_GenerationID md = 1" and
    notice: "notify_interrupted (demo_turn ''t'' ''listening'' [] 1) ''barge_in'' demo_s2 = demo_s2\<lparr>messageSeq := 1,
        controlWrites := [\<lparr>ob_frame = Text_frame ''turn.state'' md bytes, ob_generation = 0, turnScoped = False\<rparr>]\<rparr>"
    by blast
  define n where "n = \<lparr>ob_frame = Text_frame ''turn.state'' md bytes, ob_generation = 0, turnScoped = False\<rparr>"
  have "rd (demo_conn demo_s2 ?j) = ?j" by (simp add: demo_conn_def)
  from connected.step[OF demo_interrupts join_step[OF this]]
  have "connected demo_services False (demo_conn (demo_s3 n) Reading)"
    unfolding finish_join_def demo_conn_def by (simp only: conn.simps notice n_def[symmetric] demo_s3_def[symmetric])
  then have "connected demo_services False (read_audio ''x'' (Inr ''yz'') (demo_conn (demo_s3 n) Reading))"
    by (rule connected.step) (rule audio_step, simp add: demo_conn_def)
  moreover have "read_audio ''x'' (Inr ''yz'') (demo_conn (demo_s3 n) Reading) = demo_conn (?s n) Reading"
    by (simp add: read_audio_def handleAudio_def demo_conn_def demo_states demo_turn_def MaximumOpusPacketBytes_def
        maximum_audio_def UplinkSampleRate_def MaximumAudioSecs_def Let_def)
  ultimately have c: "connected demo_services False (demo_conn (?s n) Reading)" by (simp only:)
  have s: "ds_id (?s n) = ''s''" "seenInbound (?s n) ''c'' = None" "workers (?s n) = []" by (simp_all add: demo_states)
  have "stopTurn ''u'' (?s n) = (Done None, (?s n)\<lparr>active := Some (demo_turn ''u'' ''processing'' ''yz'' 2),
        workers := [(demo_turn ''u'' ''processing'' ''yz'' 2, P_asr)]\<rparr>)"
    using s(3) by (simp add: stopTurn_def demo_turn_def Let_def)
  then have "read_text demo_services 0 (demo_message ''c'' ''u'' listen_stop) (demo_conn (?s n) Reading) =
      demo_conn (demo_s4 n) Reading"
    using demo_control(2)[of "''c''" "''u''" "?s n" 0] s(1,2)
    by (simp add: read_text_def demo_conn_def demo_message_def demo_s4_def)
  then have "connected demo_services False (demo_conn (demo_s4 n) Reading)"
    by (rule demo_text_step[OF c, rotated -1]) simp_all
  moreover have "announces n = Some 1" by (simp add: n_def announces_def md)
  ultimately show ?thesis by blast
qed

lemma demo_work:
  assumes "connected demo_services False c" "workers (sess c) = [(t, p)]" "tu_generation t \<notin> set (cancelled (sess c))"
    "work False False t (sess c) p ev = Some (s, Some q)"
  shows "connected demo_services False (c\<lparr>sess := s\<lparr>workers := [(t, q)]\<rparr>\<rparr>)"
  using connected.step[OF assms(1) work_step[where ?ws1.0 = "[]" and ?ws2.0 = "[]" and late = True and p' = "Some q" and ev = ev and t = t and p = p and s = s]] assms(2-4)
  by simp

definition demo_s5 :: "outbound \<Rightarrow> outbound \<Rightarrow> dev_session" where
  "demo_s5 n m = (demo_s4 n)\<lparr>messageSeq := 2, controlWrites := [n, m],
     workers := [(demo_turn ''u'' ''processing'' ''yz'' 2, P_agent ''hi'' False)]\<rparr>"

lemma demo_answers:
  "\<exists>n m. announces n = Some 1 \<and> turnScoped m \<and> ob_generation m = 2
     \<and> connected demo_services False (demo_conn (demo_s5 n m) Reading)"
proof -
  obtain n where n: "announces n = Some 1" and c: "connected demo_services False (demo_conn (demo_s4 n) Reading)"
    using demo_speaks by blast
  let ?t = "demo_turn ''u'' ''processing'' ''yz'' 2"
  let ?s = "\<lambda>q. (demo_s4 n)\<lparr>workers := [(?t, q)]\<rparr>"
  have c1: "connected demo_services False (demo_conn (?s (P_check ''hi'')) Reading)"
    using demo_work[OF c, of ?t P_asr "O_text ''hi''" "demo_s4 n" "P_check ''hi''"]
    by (simp add: demo_conn_def demo_states demo_turn_def work_def streaming_def turn_work_def)
  have c2: "connected demo_services False (demo_conn (?s (P_transcript ''hi'')) Reading)"
    using demo_work[OF c1, of ?t "P_check ''hi''" O_go "?s (P_check ''hi'')" "P_transcript ''hi''"]
    by (simp add: demo_conn_def demo_states demo_turn_def work_def streaming_def turn_work_def on_go_def isCurrent_def)
  have "ds_id (?s q) = ''s''" "messageSeq (?s q) = 1" "controlWrites (?s q) = [n]" for q
    by (simp_all add: demo_states)
  from demo_transcript[OF this, of "''processing''" "''yz''" "P_transcript ''hi''"] obtain md bytes where
    m: "snd (sendTurnJSON False ?t ''transcript.final'' (text_payload ''hi'') (?s (P_transcript ''hi''))) =
     (?s (P_transcript ''hi''))\<lparr>messageSeq := 2, controlWrites := [n, \<lparr>ob_frame = Text_frame ''transcript.final'' md bytes, ob_generation = 2, turnScoped = True\<rparr>]\<rparr>"
    by blast
  have "connected demo_services False (demo_conn (demo_s5 n \<lparr>ob_frame = Text_frame ''transcript.final'' md bytes, ob_generation = 2, turnScoped = True\<rparr>) Reading)"
    using demo_work[OF c2, of ?t "P_transcript ''hi''" O_go _ "P_agent ''hi'' False"]
    by (simp add: demo_conn_def work_def streaming_def turn_work_def on_go_def m)
       (simp add: demo_s5_def demo_states demo_turn_def)
  then show ?thesis using n by force
qed

lemma demo_connection_run:
  "\<exists>c. connected demo_services False c \<and> length (sent c) = 2 \<and> announces (sent c ! 0) = Some 1
     \<and> turnScoped (sent c ! 1) \<and> active (sess c) = Some (demo_turn ''u'' ''processing'' ''yz'' 2)
     \<and> rd c = Reading \<and> seenInbound (sess c) ''a'' \<noteq> None"
proof -
  obtain n m where n: "announces n = Some 1" "turnScoped m" "ob_generation m = 2"
    and c: "connected demo_services False (demo_conn (demo_s5 n m) Reading)"
    using demo_answers by blast
  let ?c = "\<lambda>q f w. \<lparr>sess = (demo_s5 n m)\<lparr>controlWrites := q\<rparr>, world = (), rd = Reading, inflight = f, sent = w\<rparr>"
  have "\<not> turnScoped n" using n(1) by (auto simp: announces_def split: if_splits)
  then have "connected demo_services False (?c [m] (Some n) [])"
    using connected.step[OF c take_control[of _ n "[m]"]]
    by (simp add: take_message_def demo_conn_def outboundCurrent_def demo_s5_def)
  from connected.step[OF this write_step[of _ n]] have "connected demo_services False (?c [m] None [n])" by simp
  from connected.step[OF this take_control[of _ m "[]"]] have "connected demo_services False (?c [] (Some m) [n])"
    using n by (simp add: take_message_def outboundCurrent_def generationCurrent_def demo_s5_def demo_states)
  from connected.step[OF this write_step[of _ m]] have "connected demo_services False (?c [] None [n, m])" by simp
  then show ?thesis using n by (intro exI[of _ "?c [] None [n, m]"]) (simp add: demo_s5_def demo_states)
qed

end
