(* ===== verification/Session_Properties.thy ===== *)
theory Session_Properties
  imports Session_Demo
begin

text \<open>
  What a device can rely on during a connection: output of a superseded turn stops with the notice of its
  interruption, captured audio is bounded, a repeated message is not executed again, and the goroutine of a
  superseded turn cannot disturb the turn that replaced it.
\<close>

section \<open>Properties\<close>

text \<open>
  C4: Barge-in is clean on the wire. In every state that a connection reaches, under every interleaving of the
  reader, the writer and the goroutines of the turns, the output of turns arrives in the order of their
  generations; and once the device has received the notice that a turn was interrupted, no message and no
  audio of that turn, or of an earlier one, follows.
\<close>

theorem barge_in_clean:
  assumes "connected sv streams c" "i < j" "j < length (sent c)" "turnScoped (sent c ! j)"
  shows "(turnScoped (sent c ! i) \<longrightarrow> ob_generation (sent c ! i) \<le> ob_generation (sent c ! j))
    \<and> (announces (sent c ! i) = Some g \<longrightarrow> g < ob_generation (sent c ! j))"
proof -
  have "sorted_wrt may_precede (sent c)"
    using connected_ok[OF assms(1)] by (auto simp: ok_defs sorted_wrt_append)
  then show ?thesis using assms(2-4) sorted_wrt_nth_less[of may_precede "sent c" i j] by (auto simp: may_precede_def)
qed

theorem barge_in_clean_witness:
  "\<exists>c. connected demo_services False c \<and> announces (sent c ! 0) = Some 1 \<and> turnScoped (sent c ! 1)
     \<and> 1 < ob_generation (sent c ! 1)"
proof -
  obtain c where "connected demo_services False c" "length (sent c) = 2" "announces (sent c ! 0) = Some 1"
    "turnScoped (sent c ! 1)" using demo_connection_run by blast
  then show ?thesis using barge_in_clean[of demo_services False c 0 1 1] by auto
qed

text \<open>
  C40: A device cannot make the server buffer more than eight seconds of audio: the active turn, and every turn
  whose goroutine still runs, holds at most 256000 bytes of samples, and audio is only ever appended to a turn
  that listens. There is at most one active turn, and it is the one of the current generation.
\<close>

theorem capture_bounded:
  assumes "connected sv streams c"
  shows "(\<forall>t. active (sess c) = Some t \<longrightarrow> length (tu_pcm t) \<le> 256000 \<and> tu_generation t = generation (sess c))
    \<and> (\<forall>(t, p) \<in> set (workers (sess c)). length (tu_pcm t) \<le> 256000)
    \<and> (\<forall>t. active (sess c) = Some t \<longrightarrow> tu_state t \<noteq> ''listening'' \<longrightarrow>
         snd (handleAudio data decoded (sess c)) = sess c)"
proof -
  have "maximum_audio = 256000" by (simp add: maximum_audio_def UplinkSampleRate_def MaximumAudioSecs_def)
  then show ?thesis using connected_ok[OF assms]
    by (auto simp: ok_defs dev_ok_def list_all_iff handleAudio_def split: sum.splits)
qed

theorem capture_bounded_witness:
  "\<exists>c t. connected demo_services False c \<and> active (sess c) = Some t \<and> tu_pcm t = ''yz'' \<and> length (tu_pcm t) \<le> 256000
     \<and> snd (handleAudio ''x'' (Inr ''more'') (sess c)) = sess c"
proof -
  obtain c where c: "connected demo_services False c" "active (sess c) = Some (demo_turn ''u'' ''processing'' ''yz'' 2)"
    using demo_connection_run by blast
  then show ?thesis using capture_bounded[OF c(1), of "''x''" "Inr ''more''"] by (auto simp: demo_turn_def)
qed

text \<open>
  C5: A message is executed at most once while it is remembered: a text message whose identifier is in the
  memory changes nothing that any other part of the server sees, no turn, no generation, no goroutine and no
  table, whatever its content; only a reply may be queued. The memory never holds more than 256 identifiers.
\<close>

theorem replay_inert:
  assumes "connected sv streams c" "rd c = Reading" "Decode data = Inr m"
    "seenInbound (sess c) (en_MessageID m) \<noteq> None"
  shows "(let c' = read_text sv now data c
     in world c' = world c \<and> rd c' = Reading \<and> emits plain_message (sess c) (sess c'))
     \<and> card (dom (seenInbound (sess c))) \<le> 256"
proof -
  obtain d where d: "seenInbound (sess c) (en_MessageID m) = Some d" using assms(4) by blast
  have "card (dom (seenInbound (sess c))) = length (seenOrder (sess c))"
    using connected_ok[OF assms(1)] by (simp add: ok_defs seen_ok_def distinct_card)
  moreover have "length (seenOrder (sess c)) \<le> 256"
    using connected_ok[OF assms(1)] by (simp add: ok_defs seen_ok_def maximumRememberedMessages_def)
  moreover note replayed_read_text[OF assms(2,3) d, of sv now]
  ultimately show ?thesis by (auto simp: Let_def)
qed

theorem replay_inert_witness:
  "\<exists>c. connected demo_services False c \<and> seenInbound (sess c) ''a'' \<noteq> None
     \<and> world (read_text demo_services 0 (demo_message ''a'' ''t'' listen_start) c) = world c"
proof -
  obtain c where c: "connected demo_services False c" "rd c = Reading" "seenInbound (sess c) ''a'' \<noteq> None"
    using demo_connection_run by blast
  have "Decode (demo_message ''a'' ''t'' listen_start) = Inr (demo_envelope ''a'' ''t'' listen_start)"
    unfolding demo_message_def by (rule demo_decodes) simp_all
  from replay_inert[OF c(1,2) this, of 0] c show ?thesis by (auto simp: demo_fields Let_def)
qed

text \<open>
  The goroutine of a turn that was superseded cannot disturb its successor: its steps leave the active turn and
  the generation alone, and the writer drops whatever it still queues.
\<close>

theorem superseded_worker:
  assumes "connected sv streams c" "tu_generation t < generation (sess c)"
    "work streams gone t (sess c) p ev = Some (s, p')"
  shows "active s = active (sess c) \<and> generation s = generation (sess c)
    \<and> (\<exists>cs ms. controlWrites s = controlWrites (sess c) @ cs \<and> mediaWrites s = mediaWrites (sess c) @ ms
         \<and> list_all (\<lambda>m. \<not> outboundCurrent m s) (cs @ ms))"
proof -
  obtain s1 where e: "emits (from_turn t) (sess c) s1" and
    r: "s = s1 \<or> (\<exists>st. s = setTurnState t st s1) \<or> s = clear_active t s1"
    using work_touches[OF assms(3)] unfolding touches_def by blast
  have g: "active (sess c) = Some a \<Longrightarrow> tu_generation a = generation (sess c)" for a
    using connected_ok[OF assms(1)] by (simp add: ok_defs dev_ok_def)
  have s: "s = s1"
    using r g emits_generation[OF e] assms(2) by (auto simp: setTurnState_def clear_active_def split: option.splits)
  obtain n cs ms where s1: "s1 = (sess c)\<lparr>messageSeq := n, controlWrites := controlWrites (sess c) @ cs,
      mediaWrites := mediaWrites (sess c) @ ms\<rparr>" "list_all (from_turn t) cs" "list_all (from_turn t) ms"
    using e unfolding emits_def by blast
  have "list_all (\<lambda>m. \<not> outboundCurrent m s) (cs @ ms)"
    using s1 assms(2) by (auto simp: s list_all_iff from_turn_def outboundCurrent_def generationCurrent_def)
  then show ?thesis using s s1(1) by (intro conjI exI[of _ cs] exI[of _ ms]) simp_all
qed

text \<open>
  An abort reaches only a turn whose goroutine still runs. When the reply is already queued, the turn is no
  longer active: the abort changes nothing, the device gets no notice, and up to 24 queued frames of the reply
  stay current and are still delivered.
\<close>

theorem late_abort_ignored:
  assumes "active s = None" "turnScoped m" "ob_generation m = generation s"
  shows "interruptActive reason s = (Done None, s) \<and> outboundCurrent m (snd (interruptActive reason s))"
  using assms by (simp add: interruptActive_def outboundCurrent_def generationCurrent_def)

end
