(* ===== verification/Firmware.thy ===== *)
theory Firmware
  imports Protocol_Decode Go_Time Store_Tables
begin

text \<open>
  Firmware releases and the feature catalogue (\<open>controlplane/firmware.go\<close>, \<open>controlplane/ota.go\<close>,
  \<open>controlplane/module.go\<close>), their tables in \<open>pgstore/control_auth.go\<close> and their handlers in
  \<open>server/server.go\<close>. The curve \<open>ed25519\<close> and \<open>url.Parse\<close> are parameters; the text that is signed is
  computed.
\<close>

section \<open>Base64 in the alphabet for URLs, without padding\<close>

definition b64_char :: "nat \<Rightarrow> char" where
  "b64_char n = char_of (if n < 26 then 65 + n else if n < 52 then 71 + n else if n < 62 then n - 4
     else if n = 62 then 45 else 95)"

definition b64_value :: "char \<Rightarrow> nat option" where
  "b64_value c =
     (let n = of_char c :: nat
      in if 65 \<le> n \<and> n \<le> 90 then Some (n - 65) else if 97 \<le> n \<and> n \<le> 122 then Some (n - 71)
         else if 48 \<le> n \<and> n \<le> 57 then Some (n + 4) else if n = 45 then Some 62 else if n = 95 then Some 63 else None)"

fun b64_encode :: "string \<Rightarrow> string" where
  "b64_encode [] = []"
| "b64_encode [a] = (let n = of_char a * 16 in [b64_char (n div 64), b64_char (n mod 64)])"
| "b64_encode [a, b] =
     (let n = (of_char a * 256 + of_char b) * 4
      in [b64_char (n div 4096), b64_char (n div 64 mod 64), b64_char (n mod 64)])"
| "b64_encode (a # b # c # s) =
     (let n = (of_char a * 256 + of_char b) * 256 + of_char c
      in [b64_char (n div 262144), b64_char (n div 4096 mod 64), b64_char (n div 64 mod 64), b64_char (n mod 64)]
         @ b64_encode s)"

text \<open>The decoder skips line breaks, and ignores the bits that remain at the end.\<close>

fun b64_groups :: "nat list \<Rightarrow> string option" where
  "b64_groups [] = Some []"
| "b64_groups [w] = None"
| "b64_groups [w, x] = Some [char_of ((w * 64 + x) div 16)]"
| "b64_groups [w, x, y] =
     (let n = (w * 64 + x) * 64 + y in Some [char_of (n div 1024), char_of (n div 4 mod 256)])"
| "b64_groups (w # x # y # z # s) =
     (let n = ((w * 64 + x) * 64 + y) * 64 + z
      in map_option (\<lambda>r. char_of (n div 65536) # char_of (n div 256 mod 256) # char_of (n mod 256) # r) (b64_groups s))"

definition b64_decode :: "string \<Rightarrow> string option" where
  "b64_decode s =
     (let cs = filter (\<lambda>c. c \<noteq> CHR 0x0A \<and> c \<noteq> CHR 0x0D) s
      in if list_all (\<lambda>c. b64_value c \<noteq> None) cs then b64_groups (map (the \<circ> b64_value) cs) else None)"

section \<open>Manifests\<close>

text \<open>\<open>ExpiresAt\<close> is an instant with the offset of its location in nanoseconds.\<close>

record FirmwareManifest =
  fm_Version :: string
  fm_Channel :: string
  fm_Board :: string
  fm_ProtocolMin :: int
  fm_SecurityVersion :: int
  fm_URL :: string
  fm_SHA256 :: string
  fm_Size :: int
  fm_ExpiresAt :: time
  fm_Offset :: int
  fm_MetadataVersion :: int
  fm_Signature :: string

text \<open>\<open>parse_url\<close> gives the scheme and the path of a URL, or an error.\<close>

definition FirmwareManifest_Validate ::
    "(string \<Rightarrow> (string \<times> string) option) \<Rightarrow> FirmwareManifest \<Rightarrow> time \<Rightarrow> string option" where
  "FirmwareManifest_Validate parse_url m now =
     (if TrimSpace (fm_Version m) = [] \<or> TrimSpace (fm_Channel m) = [] \<or> TrimSpace (fm_Board m) = [] \<or> TrimSpace (fm_URL m) = []
        then Some ''version, channel, board and url are required''
      else if fm_ProtocolMin m < 0 \<or> fm_SecurityVersion m < 0
        then Some ''protocol_min and security_version cannot be negative''
      else if \<not> hex_decodes (fm_SHA256 m) \<or> length (fm_SHA256 m) div 2 \<noteq> 32
        then Some ''sha256 must be 64 hex characters''
      else if (case parse_url (fm_URL m) of
                 None \<Rightarrow> True
               | Some (scheme, path) \<Rightarrow>
                   scheme \<noteq> [] \<and> scheme \<noteq> ''https'' \<or> scheme = [] \<and> \<not> (path \<noteq> [] \<and> hd path = CHR ''/''))
        then Some ''url must be HTTPS or an absolute server path''
      else if \<not> After (fm_ExpiresAt m) now then Some ''firmware metadata expired''
      else if fm_MetadataVersion m \<le> 0 then Some ''metadata_version required''
      else if fm_Size m \<le> 0 then Some ''firmware size required''
      else None)"

text \<open>\<open>signingBytes\<close>: a failure of \<open>json.Marshal\<close>, of a year that does not fit, gives no bytes.\<close>

definition json_int :: "string \<Rightarrow> int \<Rightarrow> string \<times> string" where
  "json_int name v = (name, FormatInt v)"

definition json_str :: "string \<Rightarrow> string \<Rightarrow> string \<times> string" where
  "json_str name v = (name, quote v)"

definition signed_members :: "FirmwareManifest \<Rightarrow> string \<Rightarrow> (string \<times> string) list" where
  "signed_members m expires =
     [json_str ''version'' (fm_Version m), json_str ''channel'' (fm_Channel m), json_str ''board'' (fm_Board m),
      json_int ''protocol_min'' (fm_ProtocolMin m), json_int ''security_version'' (fm_SecurityVersion m),
      json_str ''url'' (fm_URL m), json_str ''sha256'' (fm_SHA256 m), json_int ''size'' (fm_Size m),
      (''expires_at'', expires), json_int ''metadata_version'' (fm_MetadataVersion m)]"

definition signingBytes :: "FirmwareManifest \<Rightarrow> string" where
  "signingBytes m =
     (case time_json (fm_ExpiresAt m) of
        None \<Rightarrow> []
      | Some expires \<Rightarrow> ''{'' @ join '','' (map member_text (signed_members m expires)) @ ''}'')"

text \<open>The functions of package \<open>ed25519\<close>: \<open>ed_sign key message\<close>, \<open>ed_verify key message signature\<close>.\<close>

record ed25519 =
  ed_sign :: "string \<Rightarrow> string \<Rightarrow> string"
  ed_verify :: "string \<Rightarrow> string \<Rightarrow> string \<Rightarrow> bool"

definition PrivateKeySize :: nat where "PrivateKeySize = 64"
definition PublicKeySize :: nat where "PublicKeySize = 32"

definition Sign :: "ed25519 \<Rightarrow> string \<Rightarrow> FirmwareManifest \<Rightarrow> string + FirmwareManifest" where
  "Sign ed key m =
     (if length key \<noteq> PrivateKeySize then Inl ''invalid Ed25519 private key''
      else Inr (m\<lparr>fm_Signature := b64_encode (ed_sign ed key (signingBytes m))\<rparr>))"

definition Verify :: "ed25519 \<Rightarrow> string \<Rightarrow> FirmwareManifest \<Rightarrow> bool" where
  "Verify ed key m \<longleftrightarrow>
     \<not> (length key \<noteq> PublicKeySize \<or> fm_Signature m = [])
     \<and> (case b64_decode (fm_Signature m) of None \<Rightarrow> False | Some sig \<Rightarrow> ed_verify ed key (signingBytes m) sig)"

definition DecodeEd25519PublicKey :: "string \<Rightarrow> string + string" where
  "DecodeEd25519PublicKey v =
     (if v = [] then Inr []
      else case b64_decode v of
        None \<Rightarrow> Inl ''illegal base64 data''
      | Some b \<Rightarrow> if length b \<noteq> PublicKeySize then Inl ''OTA public key must be 32 bytes'' else Inr b)"

section \<open>Feature modules\<close>

record FeatureModule =
  fe_ID :: string
  fe_Version :: int
  fe_Lifecycle :: string
  fe_Execution :: string
  fe_MinProtocol :: int
  fe_Capabilities :: "string list"
  fe_Tools :: "string list"
  fe_Resources :: "string list"
  fe_UICards :: "string list"
  fe_Locales :: "string list"
  fe_ConfigKeys :: "string list"
  fe_Entitlement :: string
  fe_Implementation :: string

definition ValidateFeatureModule :: "FeatureModule \<Rightarrow> string option" where
  "ValidateFeatureModule m =
     (if TrimSpace (fe_ID m) = [] \<or> fe_Version m \<le> 0 then Some ''feature id and positive version required''
      else if fe_Lifecycle m \<notin> {''draft'', ''internal'', ''beta'', ''released'', ''deprecated'', ''removed''}
        then Some ''invalid feature lifecycle''
      else if fe_Execution m \<noteq> ''native'' \<and> fe_Execution m \<noteq> ''external''
        then Some ''execution must be native or external''
      else if fe_MinProtocol m < 0 then Some ''min_protocol cannot be negative''
      else None)"

section \<open>Tables\<close>

text \<open>
  A row of \<open>firmware_releases\<close> holds the columns of the manifest, among them the instant of its expiry to the
  microsecond, and the manifest as JSON. Text columns hold UTF-8 without the NUL character.
\<close>

record fw_row =
  fr_manifest :: FirmwareManifest
  fr_expires_at :: time

record entitlement_row =
  et_user :: string
  et_key :: string
  et_enabled :: bool
  et_expires_at :: "time option"

record cat_tables =
  firmware_releases :: "fw_row list"
  feature_modules :: "FeatureModule list"
  entitlements :: "entitlement_row list"

type_synonym 'a cat_tx = "(cat_tables, unit, 'a) tx"

definition pg_text :: "string \<Rightarrow> bool" where
  "pg_text s \<longleftrightarrow> ValidString s \<and> CHR 0x00 \<notin> set s"

definition in_int32 :: "int \<Rightarrow> bool" where
  "in_int32 n \<longleftrightarrow> - 2147483648 \<le> n \<and> n < 2147483648"

definition lower_hex64 :: "string \<Rightarrow> bool" where
  "lower_hex64 s \<longleftrightarrow> length s = 64 \<and> list_all (\<lambda>c. is_digit c \<or> byte_in 97 102 c) s"

definition fw_row_ok :: "FirmwareManifest \<Rightarrow> bool" where
  "fw_row_ok m \<longleftrightarrow> pg_text (fm_Version m) \<and> pg_text (fm_Channel m) \<and> pg_text (fm_Board m) \<and> pg_text (fm_URL m)
     \<and> pg_text (fm_Signature m) \<and> in_int32 (fm_ProtocolMin m) \<and> in_int32 (fm_SecurityVersion m)
     \<and> lower_hex64 (fm_SHA256 m) \<and> 0 \<le> fm_Size m"

definition insert_release :: "FirmwareManifest \<Rightarrow> cat_tables \<Rightarrow> (unit \<times> cat_tables) option" where
  "insert_release m t =
     (if fw_row_ok m \<and> fm_MetadataVersion m \<notin> (fm_MetadataVersion \<circ> fr_manifest) ` set (firmware_releases t)
      then Some ((), t\<lparr>firmware_releases := firmware_releases t @
             [\<lparr>fr_manifest = m, fr_expires_at = pg_ts (fm_ExpiresAt m)\<rparr>]\<rparr>)
      else None)"

definition PutFirmware :: "FirmwareManifest \<Rightarrow> unit cat_tx" where
  "PutFirmware m =
     (if \<not> json_year_ok (fm_ExpiresAt m + fm_Offset m)
      then tx_fail (Invalid ''json: error calling MarshalJSON for type time.Time'')
      else stmt (insert_release m))"

text \<open>\<open>ORDER BY metadata_version DESC LIMIT 1\<close>\<close>

fun newest :: "fw_row list \<Rightarrow> fw_row option" where
  "newest [] = None"
| "newest (r # rs) =
     (case newest rs of
        None \<Rightarrow> Some r
      | Some r' \<Rightarrow> if fm_MetadataVersion (fr_manifest r) < fm_MetadataVersion (fr_manifest r') then Some r' else Some r)"

definition offered :: "string \<Rightarrow> string \<Rightarrow> int \<Rightarrow> int \<Rightarrow> time \<Rightarrow> fw_row \<Rightarrow> bool" where
  "offered channel board protocol currentSecurity now r \<longleftrightarrow>
     (let m = fr_manifest r
      in fm_Channel m = TrimSpace channel \<and> fm_Board m = TrimSpace board \<and> fm_ProtocolMin m \<le> protocol
         \<and> currentSecurity \<le> fm_SecurityVersion m \<and> pg_ts now < fr_expires_at r)"

definition LatestFirmware :: "string \<Rightarrow> string \<Rightarrow> int \<Rightarrow> int \<Rightarrow> time \<Rightarrow> FirmwareManifest option cat_tx" where
  "LatestFirmware channel board protocol currentSecurity now =
     stmt (\<lambda>t. if pg_text (TrimSpace channel) \<and> pg_text (TrimSpace board) \<and> in_int32 protocol \<and> in_int32 currentSecurity
       then Some (map_option (\<lambda>r. (fr_manifest r)\<lparr>fm_Offset := 0\<rparr>)
              (newest (filter (offered channel board protocol currentSecurity now) (firmware_releases t))), t)
       else None)"

text \<open>Invalid UTF-8 is repaired in the JSON of a module, but not in the column of its identifier.\<close>

definition json_module :: "FeatureModule \<Rightarrow> FeatureModule" where
  "json_module m = m\<lparr>fe_Capabilities := map valid_utf8 (fe_Capabilities m), fe_Tools := map valid_utf8 (fe_Tools m),
     fe_Resources := map valid_utf8 (fe_Resources m), fe_UICards := map valid_utf8 (fe_UICards m),
     fe_Locales := map valid_utf8 (fe_Locales m), fe_ConfigKeys := map valid_utf8 (fe_ConfigKeys m),
     fe_Entitlement := valid_utf8 (fe_Entitlement m), fe_Implementation := valid_utf8 (fe_Implementation m)\<rparr>"

definition module_row_ok :: "FeatureModule \<Rightarrow> bool" where
  "module_row_ok m \<longleftrightarrow> pg_text (fe_ID m) \<and> pg_text (fe_Lifecycle m) \<and> pg_text (fe_Execution m)
     \<and> list_all (\<lambda>s. CHR 0x00 \<notin> set s) (fe_Capabilities m @ fe_Tools m @ fe_Resources m @ fe_UICards m @ fe_Locales m
          @ fe_ConfigKeys m @ [fe_Entitlement m, fe_Implementation m])"

fun upsert_module :: "FeatureModule \<Rightarrow> FeatureModule list \<Rightarrow> FeatureModule list" where
  "upsert_module m [] = [m]"
| "upsert_module m (x # xs) =
     (if fe_ID x = fe_ID m then (if fe_Version x \<le> fe_Version m then m else x) # xs else x # upsert_module m xs)"

definition PutFeatureModule :: "FeatureModule \<Rightarrow> unit cat_tx" where
  "PutFeatureModule m = stmt (\<lambda>t. if module_row_ok m
     then Some ((), t\<lparr>feature_modules := upsert_module (json_module m) (feature_modules t)\<rparr>) else None)"

definition FeatureModules :: "FeatureModule list cat_tx" where
  "FeatureModules = query feature_modules"

definition FeatureModule_get :: "string \<Rightarrow> FeatureModule option cat_tx" where
  "FeatureModule_get i = stmt (\<lambda>t. if pg_text (TrimSpace i)
     then Some (find (\<lambda>m. fe_ID m = TrimSpace i) (feature_modules t), t) else None)"

definition SetEntitlement :: "string \<Rightarrow> string \<Rightarrow> bool \<Rightarrow> time option \<Rightarrow> unit cat_tx" where
  "SetEntitlement userID key enabled expiresAt =
     (let u = owner userID; k = TrimSpace key
      in if k = [] then tx_fail (Invalid ''entitlement key required'')
         else stmt (\<lambda>t. if pg_text u \<and> pg_text k
           then Some ((), t\<lparr>entitlements :=
                  \<lparr>et_user = u, et_key = k, et_enabled = enabled, et_expires_at = map_option pg_ts expiresAt\<rparr>
                  # filter (\<lambda>r. \<not> (et_user r = u \<and> et_key r = k)) (entitlements t)\<rparr>)
           else None))"

definition Allowed :: "string \<Rightarrow> string \<Rightarrow> time \<Rightarrow> cat_tables db \<Rightarrow> bool \<times> cat_tables db" where
  "Allowed userID key now d =
     (case stmt (\<lambda>t. if pg_text (owner userID) \<and> pg_text (TrimSpace key)
              then Some (find (\<lambda>r. et_user r = owner userID \<and> et_key r = TrimSpace key) (entitlements t), t) else None) d
        :: (unit failure + entitlement_row option) \<times> cat_tables db of
        (Inr (Some r), d') \<Rightarrow>
          (et_enabled r \<and> (case et_expires_at r of None \<Rightarrow> True | Some e \<Rightarrow> After e now), d')
      | (_, d') \<Rightarrow> (False, d'))"

section \<open>Services\<close>

record FirmwareService =
  fs_publicKey :: string
  fs_requireSignature :: bool
  fs_ed :: ed25519
  fs_parse_url :: "string \<Rightarrow> (string \<times> string) option"

definition Publish :: "FirmwareService \<Rightarrow> time \<Rightarrow> FirmwareManifest \<Rightarrow> unit cat_tx" where
  "Publish s now m =
     (case FirmwareManifest_Validate (fs_parse_url s) m now of
        Some e \<Rightarrow> tx_fail (Invalid e)
      | None \<Rightarrow>
        if fs_requireSignature s \<and> length (fs_publicKey s) \<noteq> PublicKeySize then tx_fail (Invalid ''OTA public key missing'')
        else if fs_requireSignature s \<and> \<not> Verify (fs_ed s) (fs_publicKey s) m
        then tx_fail (Invalid ''firmware manifest signature invalid'')
        else PutFirmware m)"

definition Latest :: "FirmwareService \<Rightarrow> time \<Rightarrow> time \<Rightarrow> string \<Rightarrow> string \<Rightarrow> int \<Rightarrow> int \<Rightarrow> int
    \<Rightarrow> FirmwareManifest option cat_tx" where
  "Latest s now now' channel board protocol currentSecurity currentMetadata =
     tx_bind (LatestFirmware channel board protocol currentSecurity now) (\<lambda>found.
       case found of
         None \<Rightarrow> tx_return None
       | Some m \<Rightarrow>
         if fm_MetadataVersion m \<le> currentMetadata then tx_return None
         else case FirmwareManifest_Validate (fs_parse_url s) m now' of
                Some e \<Rightarrow> tx_fail (Invalid e)
              | None \<Rightarrow>
                if fs_requireSignature s \<and> \<not> Verify (fs_ed s) (fs_publicKey s) m
                then tx_fail (Invalid ''stored firmware signature invalid'') else tx_return (Some m))"

definition Catalog_Put :: "FeatureModule \<Rightarrow> unit cat_tx" where
  "Catalog_Put m =
     (case ValidateFeatureModule m of
        Some e \<Rightarrow> tx_fail (Invalid e)
      | None \<Rightarrow>
        tx_bind (FeatureModule_get (fe_ID m)) (\<lambda>old.
          if (case old of None \<Rightarrow> False | Some o' \<Rightarrow> fe_Version m < fe_Version o')
          then tx_fail (Invalid ''feature version rollback rejected'') else PutFeatureModule m))"

text \<open>\<open>sort.Slice\<close> by identifier; identifiers are unique, so the order is determined.\<close>

fun insert_module :: "FeatureModule \<Rightarrow> FeatureModule list \<Rightarrow> FeatureModule list" where
  "insert_module m [] = [m]"
| "insert_module m (x # xs) = (if string_less (fe_ID x) (fe_ID m) then x # insert_module m xs else m # x # xs)"

definition Catalog_List :: "FeatureModule list cat_tx" where
  "Catalog_List = tx_bind FeatureModules (\<lambda>xs. tx_return (foldr insert_module xs []))"

section \<open>Handlers\<close>

datatype 'a reply = Refused nat | Replied nat "'a option"

definition adminOK :: "string \<Rightarrow> string \<Rightarrow> bool" where
  "adminOK adminToken authorization \<longleftrightarrow> adminToken \<noteq> [] \<and> authorization = ''Bearer '' @ adminToken"

definition handleFirmwarePublish :: "string \<Rightarrow> FirmwareService \<Rightarrow> time \<Rightarrow> string \<Rightarrow> (string + FirmwareManifest)
    \<Rightarrow> cat_tables db \<Rightarrow> unit reply \<times> cat_tables db" where
  "handleFirmwarePublish adminToken s now authorization body d =
     (if \<not> adminOK adminToken authorization then (Refused 401, d)
      else case body of
        Inl _ \<Rightarrow> (Refused 400, d)
      | Inr manifest \<Rightarrow>
        (case Publish s now manifest d of (Inl _, d) \<Rightarrow> (Refused 400, d) | (Inr _, d) \<Rightarrow> (Replied 201 None, d)))"

definition optionalInt :: "string \<Rightarrow> int option" where
  "optionalInt raw = (if TrimSpace raw = [] then Some 0 else ParseInt64 raw)"

text \<open>\<open>authenticated\<close> is the result of \<open>authenticateDeviceRequest\<close>, \<open>q\<close> the parameters of the query.\<close>

definition handleOTAGet :: "FirmwareService \<Rightarrow> time \<Rightarrow> time \<Rightarrow> bool \<Rightarrow> (string \<Rightarrow> string)
    \<Rightarrow> cat_tables db \<Rightarrow> FirmwareManifest reply \<times> cat_tables db" where
  "handleOTAGet s now now' authenticated q d =
     (if \<not> authenticated then (Refused 401, d)
      else let board = TrimSpace (q ''board''); channel0 = TrimSpace (q ''channel'');
               channel = (if channel0 = [] then ''stable'' else channel0)
        in case ParseInt64 (q ''protocol'') of
             None \<Rightarrow> (Refused 400, d)
           | Some protocolVersion \<Rightarrow>
             if protocolVersion \<le> 0 \<or> board = [] then (Refused 400, d)
             else case optionalInt (q ''security_version'') of
               None \<Rightarrow> (Refused 400, d)
             | Some securityVersion \<Rightarrow>
               (case optionalInt (q ''metadata_version'') of
                  None \<Rightarrow> (Refused 400, d)
                | Some metadataVersion \<Rightarrow>
                  (case Latest s now now' channel board protocolVersion securityVersion metadataVersion d of
                     (Inl _, d) \<Rightarrow> (Refused 500, d)
                   | (Inr None, d) \<Rightarrow> (Replied 204 None, d)
                   | (Inr (Some manifest), d) \<Rightarrow> (Replied 200 (Some manifest), d))))"

definition handleModulePut :: "string \<Rightarrow> string \<Rightarrow> string \<Rightarrow> (string + FeatureModule)
    \<Rightarrow> cat_tables db \<Rightarrow> unit reply \<times> cat_tables db" where
  "handleModulePut adminToken authorization path_id body d =
     (if \<not> adminOK adminToken authorization then (Refused 401, d)
      else case body of
        Inl _ \<Rightarrow> (Refused 400, d)
      | Inr m \<Rightarrow>
        (case Catalog_Put (m\<lparr>fe_ID := path_id\<rparr>) d of (Inl _, d) \<Rightarrow> (Refused 400, d) | (Inr _, d) \<Rightarrow> (Replied 204 None, d)))"

definition handleModulesGet :: "string \<Rightarrow> string \<Rightarrow> cat_tables db \<Rightarrow> FeatureModule list reply \<times> cat_tables db" where
  "handleModulesGet adminToken authorization d =
     (if \<not> adminOK adminToken authorization then (Refused 401, d)
      else case Catalog_List d of (Inl _, d) \<Rightarrow> (Refused 500, d) | (Inr xs, d) \<Rightarrow> (Replied 200 (Some xs), d))"

text \<open>\<open>parse_time\<close> is \<open>time.Parse(time.RFC3339, _)\<close>.\<close>

definition handleEntitlementPatch :: "string \<Rightarrow> (string \<Rightarrow> time option) \<Rightarrow> string \<Rightarrow> string \<Rightarrow> string
    \<Rightarrow> (string + bool \<times> string) \<Rightarrow> cat_tables db \<Rightarrow> unit reply \<times> cat_tables db" where
  "handleEntitlementPatch adminToken parse_time authorization userID key body d =
     (if \<not> adminOK adminToken authorization then (Refused 401, d)
      else case body of
        Inl _ \<Rightarrow> (Refused 400, d)
      | Inr (enabled, expires) \<Rightarrow>
        if expires \<noteq> [] \<and> parse_time expires = None then (Refused 400, d)
        else case SetEntitlement userID key enabled (if expires = [] then None else parse_time expires) d of
               (Inl _, d) \<Rightarrow> (Refused 400, d)
             | (Inr _, d) \<Rightarrow> (Replied 204 None, d))"

end
