(* ===== verification/Firmware_Properties.thy ===== *)
theory Firmware_Properties
  imports Firmware
begin

text \<open>
  What the update channel of a device promises: only published, valid, signed and newer firmware is served, a
  signature stands for every field of its manifest, and the versions of features never go back.
\<close>

section \<open>Base64\<close>

lemma b64_value_char: "n < 64 \<Longrightarrow> b64_value (b64_char n) = Some n"
  by (auto simp: b64_value_def b64_char_def Let_def of_char_of)

lemma b64_char_plain: "n < 64 \<Longrightarrow> b64_char n \<noteq> CHR 0x0A \<and> b64_char n \<noteq> CHR 0x0D"
proof -
  have "b64_value (CHR 0x0A) = None" "b64_value (CHR 0x0D) = None" by (simp_all add: b64_value_def)
  then show "n < 64 \<Longrightarrow> ?thesis" using b64_value_char [of n] by auto
qed

fun b64_sextets :: "string \<Rightarrow> nat list" where
  "b64_sextets [] = []"
| "b64_sextets [a] = (let n = of_char a * 16 in [n div 64, n mod 64])"
| "b64_sextets [a, b] = (let n = (of_char a * 256 + of_char b) * 4 in [n div 4096, n div 64 mod 64, n mod 64])"
| "b64_sextets (a # b # c # s) =
     (let n = (of_char a * 256 + of_char b) * 256 + of_char c
      in [n div 262144, n div 4096 mod 64, n div 64 mod 64, n mod 64] @ b64_sextets s)"

lemma b64_encode_sextets: "b64_encode s = map b64_char (b64_sextets s)"
  by (induction s rule: b64_encode.induct) (simp_all add: Let_def)

lemma byte_less: "(of_char (c :: char) :: nat) < 256" "(of_char (c :: char) :: nat) \<le> 255"
proof -
  show "(of_char c :: nat) < 256" using of_char_mod_256 [of c, where ?'a = nat] by (metis mod_less_divisor zero_less_numeral)
  then show "(of_char c :: nat) \<le> 255" by linarith
qed

lemma b64_sextets_less: "list_all (\<lambda>n. n < 64) (b64_sextets s)"
proof (induction s rule: b64_sextets.induct)
  case (2 a)
  then show ?case using byte_less(2) [of a] by (auto simp: Let_def intro!: less_mult_imp_div_less)
next
  case (3 a b)
  then show ?case using byte_less(2) [of a] byte_less(2) [of b] by (auto simp: Let_def intro!: less_mult_imp_div_less)
next
  case (4 a b c s)
  then show ?case using byte_less(2) [of a] byte_less(2) [of b] byte_less(2) [of c] by (auto simp: Let_def intro!: less_mult_imp_div_less)
qed simp

lemma regroup:
  "(n :: nat) div 4096 * 64 + n div 64 mod 64 = n div 64" "n div 262144 * 64 + n div 4096 mod 64 = n div 4096"
proof -
  have "n div 4096 = n div 64 div 64" "n div 262144 = n div 4096 div 64" by (simp_all add: div_mult2_eq [symmetric])
  then show "n div 4096 * 64 + n div 64 mod 64 = n div 64" "n div 262144 * 64 + n div 4096 mod 64 = n div 4096"
    by (simp_all only: div_mult_mod_eq)
qed

lemma b64_groups_sextets: "b64_groups (b64_sextets s) = Some s"
proof (induction s rule: b64_sextets.induct)
  case (2 a)
  define n :: nat where "n = of_char a * 16"
  have "n div 64 * 64 + n mod 64 = n" by simp
  moreover have "n div 16 = of_char a" by (simp add: n_def)
  ultimately show ?case by (simp only: b64_sextets.simps b64_groups.simps Let_def n_def [symmetric] char_of_char)
next
  case (3 a b)
  define n :: nat where "n = (of_char a * 256 + of_char b) * 4"
  have "(n div 4096 * 64 + n div 64 mod 64) * 64 + n mod 64 = n" by (simp only: regroup div_mult_mod_eq)
  moreover have "n div 1024 = of_char a" "n div 4 mod 256 = of_char b"
    using byte_less(1) [of b] by (simp_all add: n_def)
  ultimately show ?case by (simp only: b64_sextets.simps b64_groups.simps Let_def n_def [symmetric] char_of_char)
next
  case (4 a b c s)
  define n :: nat where "n = (of_char a * 256 + of_char b) * 256 + of_char c"
  have "((n div 262144 * 64 + n div 4096 mod 64) * 64 + n div 64 mod 64) * 64 + n mod 64 = n"
    by (simp only: regroup div_mult_mod_eq)
  moreover have s: "(h * 256 + x) div 256 = h \<and> (h * 256 + x) mod 256 = x" if "x < 256" for h x :: nat using that by simp
  moreover have "n div 65536 = n div 256 div 256" by (simp add: div_mult2_eq [symmetric])
  ultimately have "n div 65536 = of_char a" "n div 256 mod 256 = of_char b" "n mod 256 = of_char c"
    "((n div 262144 * 64 + n div 4096 mod 64) * 64 + n div 64 mod 64) * 64 + n mod 64 = n"
    using s [OF byte_less(1) [of c], of "of_char a * 256 + of_char b"] s [OF byte_less(1) [of b], of "of_char a"]
    by (simp_all only: n_def)
  then show ?case using 4
    by (simp only: b64_sextets.simps b64_groups.simps append.simps Let_def n_def [symmetric] char_of_char option.map)
qed simp

lemma b64_decode_encode: "b64_decode (b64_encode s) = Some s"
proof -
  let ?ns = "b64_sextets s"
  have n: "list_all (\<lambda>n. n < 64) ?ns" by (rule b64_sextets_less)
  have "filter (\<lambda>c. c \<noteq> CHR 0x0A \<and> c \<noteq> CHR 0x0D) (map b64_char ?ns) = map b64_char ?ns"
    using n b64_char_plain by (auto simp: filter_id_conv list_all_iff)
  moreover have "list_all (\<lambda>c. b64_value c \<noteq> None) (map b64_char ?ns)"
    using n b64_value_char by (auto simp: list_all_iff)
  moreover have "map (the \<circ> b64_value) (map b64_char ?ns) = ?ns"
    using n b64_value_char by (auto simp: list_all_iff intro!: map_idI)
  ultimately show ?thesis by (simp add: b64_decode_def b64_encode_sextets b64_groups_sextets Let_def)
qed

section \<open>The signed text determines the manifest\<close>

lemma quote_append_inj:
  assumes "quote s @ r = quote t @ u" "ValidString s" "ValidString t"
  shows "s = t \<and> r = u"
proof -
  let ?e = "\<lambda>s. concat (map escape_rune (runes s))"
  have "?e s @ CHR 0x22 # r = ?e t @ CHR 0x22 # u" using assms(1) by (simp add: quote_def)
  then have "Some (?e s, r) = Some (?e t, u)" using str_tok_quote [of s r] str_tok_quote [of t u] by (simp only:)
  then have e: "?e s = ?e t" and r: "r = u" by (simp_all only: option.inject prod.inject)
  have "valid_utf8 s = valid_utf8 t" using unquote_quote [of s] unquote_quote [of t] unfolding e by (simp only:)
  then show ?thesis using r assms(2,3) by (simp add: valid_utf8_valid)
qed

lemma FormatInt_inj: "FormatInt a = FormatInt b \<Longrightarrow> a = b"
proof -
  assume eq: "FormatInt a = FormatInt b"
  have inj: "decimal m = decimal n \<Longrightarrow> m = n" for m n using decimal_digits by metis
  have nd: "decimal m \<noteq> CHR ''-'' # x" for m x
  proof
    assume "decimal m = CHR ''-'' # x"
    then have "is_digit (CHR ''-'')" using decimal_digits [of m] by simp
    then show False by (simp add: is_digit_def byte_in_def)
  qed
  then have nd': "CHR ''-'' # x \<noteq> decimal m" for m x by metis
  show "a = b" using eq nd nd' inj by (fastforce simp: FormatInt_def split: if_splits)
qed

text \<open>What stands before the first occurrence of a delimiter.\<close>

lemma delimited_inj: "x @ c # r = y @ c # u \<Longrightarrow> c \<notin> set x \<Longrightarrow> c \<notin> set y \<Longrightarrow> x = y \<and> r = u"
proof (induction x arbitrary: y)
  case Nil
  then show ?case by (cases y) auto
next
  case (Cons a x)
  then show ?case by (cases y) auto
qed

lemma FormatInt_chars: "c \<in> set (FormatInt n) \<Longrightarrow> is_digit c \<or> c = CHR ''-''"
  using decimal_digits by (auto simp: FormatInt_def list_all_iff split: if_splits)

lemma FormatInt_append_inj:
  assumes "FormatInt a @ c # r = FormatInt b @ c # u" "c = CHR '','' \<or> c = CHR ''}''"
  shows "a = b \<and> r = u"
proof -
  have "c \<notin> set (FormatInt n)" for n
    using FormatInt_chars [of c n] assms(2) by (auto simp: is_digit_def byte_in_def)
  then show ?thesis using delimited_inj [OF assms(1)] FormatInt_inj by blast
qed

definition strings_valid :: "FirmwareManifest \<Rightarrow> bool" where
  "strings_valid m \<longleftrightarrow> ValidString (fm_Version m) \<and> ValidString (fm_Channel m) \<and> ValidString (fm_Board m)
     \<and> ValidString (fm_URL m) \<and> ValidString (fm_SHA256 m)"

lemma ValidString_rfc: "ValidString (rfc3339 t)"
  by (rule ValidString_rfc3339)

lemma signed_fields:
  assumes "join '','' (map member_text (signed_members m (quote (rfc3339 t)))) @ ''}'' =
      join '','' (map member_text (signed_members n (quote (rfc3339 u)))) @ ''}''"
    "strings_valid m" "strings_valid n"
  shows "rfc3339 t = rfc3339 u \<and> fm_Version m = fm_Version n \<and> fm_Channel m = fm_Channel n \<and> fm_Board m = fm_Board n
    \<and> fm_ProtocolMin m = fm_ProtocolMin n \<and> fm_SecurityVersion m = fm_SecurityVersion n \<and> fm_URL m = fm_URL n
    \<and> fm_SHA256 m = fm_SHA256 n \<and> fm_Size m = fm_Size n \<and> fm_MetadataVersion m = fm_MetadataVersion n"
  using assms ValidString_rfc [of t] ValidString_rfc [of u]
  unfolding strings_valid_def signed_members_def json_str_def json_int_def
  by (auto simp: member_text_def dest!: quote_append_inj FormatInt_append_inj FormatInt_inj)

lemma signingBytes_signature [simp]: "signingBytes (m\<lparr>fm_Signature := sig\<rparr>) = signingBytes m"
  by (cases "time_json (fm_ExpiresAt m)") (simp_all add: signingBytes_def signed_members_def)

section \<open>Releases\<close>

lemma newest_None: "newest rs = None \<longleftrightarrow> rs = []"
  by (cases rs) (auto split: option.splits)

lemma newest_in: "newest rs = Some r \<Longrightarrow> r \<in> set rs \<and> (\<forall>x \<in> set rs. fm_MetadataVersion (fr_manifest x) \<le> fm_MetadataVersion (fr_manifest r))"
proof (induction rs arbitrary: r)
  case (Cons a rs)
  then show ?case by (cases "newest rs") (fastforce simp: newest_None split: if_splits)+
qed simp

text \<open>
  One request of an administrator or of a device, with whatever failures of the database, and runs of them.
  The list is the history of the confirmed publications: each manifest with the \<open>Authorization\<close> header of
  the request that published it.
\<close>

inductive catalogue_step ::
    "FirmwareService \<Rightarrow> string \<Rightarrow> (string \<times> FirmwareManifest) list \<Rightarrow> cat_tables db \<Rightarrow> cat_tables db \<Rightarrow> bool" for s token where
  publish: "handleFirmwarePublish token s now auth body d = (r, d') \<Longrightarrow>
    catalogue_step s token (case body of Inl _ \<Rightarrow> [] | Inr m \<Rightarrow> if r = Replied 201 None then [(auth, m)] else []) d d'"
| module: "handleModulePut token auth i body d = (r, d') \<Longrightarrow> catalogue_step s token [] d d'"
| entitle: "handleEntitlementPatch token pt auth u k eb d = (r, d') \<Longrightarrow> catalogue_step s token [] d d'"
| read: "handleOTAGet s now now' a q d = (r', d') \<Longrightarrow> catalogue_step s token [] d d'"

inductive catalogue :: "FirmwareService \<Rightarrow> string \<Rightarrow> (string \<times> FirmwareManifest) list \<Rightarrow> cat_tables db \<Rightarrow> bool" for s token where
  start: "tables d = \<lparr>firmware_releases = [], feature_modules = [], entitlements = []\<rparr> \<Longrightarrow> catalogue s token [] d"
| step: "catalogue s token h d \<Longrightarrow> catalogue_step s token acc d d' \<Longrightarrow> catalogue s token (h @ acc) d'"

lemma stmt_cases:
  assumes "stmt f d = (r, d')"
  obtains (fault) "r = Inl DBFault" "tables d' = tables d"
    | (row) x t where "f (tables d) = Some (x, t)" "r = Inr x" "tables d' = t"
  using assms by (auto simp: stmt_def split: if_splits option.splits)

lemma Publish_releases:
  assumes "Publish s now m d = (r, d')"
  shows "(\<exists>e. r = Inl e) \<and> firmware_releases (tables d') = firmware_releases (tables d)
    \<or> r = Inr () \<and> firmware_releases (tables d') = firmware_releases (tables d) @ [\<lparr>fr_manifest = m, fr_expires_at = pg_ts (fm_ExpiresAt m)\<rparr>]
      \<and> FirmwareManifest_Validate (fs_parse_url s) m now = None
      \<and> fm_MetadataVersion m \<notin> (fm_MetadataVersion \<circ> fr_manifest) ` set (firmware_releases (tables d))
      \<and> (fs_requireSignature s \<longrightarrow> Verify (fs_ed s) (fs_publicKey s) m)"
  using assms
  by (auto simp: Publish_def PutFirmware_def tx_fail_def insert_release_def split: option.splits if_splits elim!: stmt_cases
      dest!: arg_cong [where f = firmware_releases])

lemma handleFirmwarePublish_releases:
  assumes "handleFirmwarePublish token s now auth (Inr m) d = (r, d')"
  shows "r \<noteq> Replied 201 None \<and> firmware_releases (tables d') = firmware_releases (tables d)
    \<or> r = Replied 201 None \<and> adminOK token auth
      \<and> firmware_releases (tables d') = firmware_releases (tables d) @ [\<lparr>fr_manifest = m, fr_expires_at = pg_ts (fm_ExpiresAt m)\<rparr>]
      \<and> fm_MetadataVersion m \<notin> (fm_MetadataVersion \<circ> fr_manifest) ` set (firmware_releases (tables d))"
proof (cases "Publish s now m d")
  case (Pair x y)
  then show ?thesis using assms Publish_releases [OF Pair]
    by (auto simp: handleFirmwarePublish_def split: if_splits sum.splits)
qed

lemma module_releases: "handleModulePut token auth i body d = (r, d') \<Longrightarrow> firmware_releases (tables d') = firmware_releases (tables d)"
  by (auto simp: handleModulePut_def Catalog_Put_def FeatureModule_get_def PutFeatureModule_def tx_fail_def tx_bind_def
      split: if_splits sum.splits option.splits prod.splits elim!: stmt_cases
      dest!: arg_cong [where f = firmware_releases])

lemma entitle_releases: "handleEntitlementPatch token pt auth u k body d = (r, d') \<Longrightarrow>
    firmware_releases (tables d') = firmware_releases (tables d)"
  by (auto simp: handleEntitlementPatch_def SetEntitlement_def tx_fail_def Let_def
      split: if_splits sum.splits option.splits prod.splits elim!: stmt_cases dest!: arg_cong [where f = firmware_releases])

lemma entitle_modules: "handleEntitlementPatch token pt auth u k body d = (r, d') \<Longrightarrow>
    feature_modules (tables d') = feature_modules (tables d)"
  by (auto simp: handleEntitlementPatch_def SetEntitlement_def tx_fail_def Let_def
      split: if_splits sum.splits option.splits prod.splits elim!: stmt_cases dest!: arg_cong [where f = feature_modules])

lemma Latest_tables: "Latest s now now' ch b p cs cm d = (r, d') \<Longrightarrow> tables d' = tables d"
  by (auto simp: Latest_def LatestFirmware_def tx_bind_def tx_fail_def tx_return_def
      split: if_splits sum.splits option.splits prod.splits elim!: stmt_cases)

lemma handleOTAGet_tables: "handleOTAGet s now now' a q d = (r, d') \<Longrightarrow> tables d' = tables d"
  by (auto simp: handleOTAGet_def Let_def split: if_splits sum.splits option.splits prod.splits dest: Latest_tables)

lemma handleFirmwarePublish_bad: "handleFirmwarePublish token s now auth (Inl e) d = (r, d') \<Longrightarrow> d' = d"
  by (auto simp: handleFirmwarePublish_def split: if_splits)

lemma catalogue_step_releases:
  "catalogue_step s token acc d d' \<Longrightarrow> firmware_releases (tables d') = firmware_releases (tables d)
     @ map (\<lambda>m. \<lparr>fr_manifest = m, fr_expires_at = pg_ts (fm_ExpiresAt m)\<rparr>) (map snd acc)
     \<and> (\<forall>(auth, m) \<in> set acc. adminOK token auth)"
proof (induction rule: catalogue_step.induct)
  case (publish now auth body d r d')
  show ?case
  proof (cases body)
    case (Inr m)
    then show ?thesis using handleFirmwarePublish_releases [of token s now auth m d r d'] publish by auto
  next
    case Inl
    then show ?thesis using handleFirmwarePublish_bad publish by fastforce
  qed
qed (simp_all add: module_releases entitle_releases handleOTAGet_tables)

lemma catalogue_releases:
  "catalogue s token h d \<Longrightarrow>
     firmware_releases (tables d) = map (\<lambda>m. \<lparr>fr_manifest = m, fr_expires_at = pg_ts (fm_ExpiresAt m)\<rparr>) (map snd h)
     \<and> (\<forall>(auth, m) \<in> set h. adminOK token auth)"
  by (induction rule: catalogue.induct) (auto dest!: catalogue_step_releases)

lemma Latest_Some:
  assumes "Latest s now now' channel board protocol currentSecurity currentMetadata d = (Inr (Some m), d')"
  shows "\<exists>r. newest (filter (offered channel board protocol currentSecurity now) (firmware_releases (tables d))) = Some r
      \<and> m = (fr_manifest r)\<lparr>fm_Offset := 0\<rparr>"
    "currentMetadata < fm_MetadataVersion m" "FirmwareManifest_Validate (fs_parse_url s) m now' = None"
    "fs_requireSignature s \<longrightarrow> Verify (fs_ed s) (fs_publicKey s) m"
  using assms by (auto simp: Latest_def LatestFirmware_def tx_Inr split: option.splits if_splits)

section \<open>Feature versions\<close>

definition features_grow :: "FeatureModule list \<Rightarrow> FeatureModule list \<Rightarrow> bool" where
  "features_grow xs ys \<longleftrightarrow> (\<forall>x \<in> set xs. \<exists>y \<in> set ys. fe_ID y = fe_ID x \<and> fe_Version x \<le> fe_Version y)"

lemma features_grow_refl [simp]: "features_grow xs xs"
  by (auto simp: features_grow_def)

lemma features_grow_trans: "features_grow xs ys \<Longrightarrow> features_grow ys zs \<Longrightarrow> features_grow xs zs"
  unfolding features_grow_def by (metis order_trans)

lemma upsert_grows: "features_grow xs (upsert_module m xs)"
  by (induction xs) (auto simp: features_grow_def)

lemma upsert_ids: "set (map fe_ID (upsert_module m xs)) = insert (fe_ID m) (set (map fe_ID xs))"
  by (induction xs) auto

lemma upsert_distinct: "distinct (map fe_ID xs) \<Longrightarrow> distinct (map fe_ID (upsert_module m xs))"
  using upsert_ids [of m] by (induction xs) auto

lemma json_module_keys [simp]: "fe_ID (json_module m) = fe_ID m" "fe_Version (json_module m) = fe_Version m"
  by (simp_all add: json_module_def)

lemma handleModulePut_modules:
  assumes "handleModulePut token auth i body d = (r, d')"
  shows "feature_modules (tables d') = feature_modules (tables d)
    \<or> (\<exists>m. body = Inr m \<and> feature_modules (tables d') = upsert_module (json_module (m\<lparr>fe_ID := i\<rparr>)) (feature_modules (tables d)))"
  using assms
  by (auto simp: handleModulePut_def Catalog_Put_def FeatureModule_get_def PutFeatureModule_def tx_fail_def tx_bind_def
      split: if_splits sum.splits option.splits prod.splits elim!: stmt_cases dest!: arg_cong [where f = feature_modules])

lemma Publish_modules: "Publish s now m d = (r, d') \<Longrightarrow> feature_modules (tables d') = feature_modules (tables d)"
  by (auto simp: Publish_def PutFirmware_def tx_fail_def insert_release_def split: option.splits if_splits elim!: stmt_cases
      dest!: arg_cong [where f = feature_modules])

lemma publish_modules:
  "handleFirmwarePublish token s now auth body d = (r, d') \<Longrightarrow> feature_modules (tables d') = feature_modules (tables d)"
  by (auto simp: handleFirmwarePublish_def split: if_splits sum.splits prod.splits dest: Publish_modules)

lemma catalogue_step_features:
  assumes "catalogue_step s token acc d d'"
  shows "features_grow (feature_modules (tables d)) (feature_modules (tables d'))"
    "distinct (map fe_ID (feature_modules (tables d))) \<Longrightarrow> distinct (map fe_ID (feature_modules (tables d')))"
  using assms
proof (induction rule: catalogue_step.induct)
  case (module auth i body d r d')
  case 1
  then show ?case using handleModulePut_modules [OF module] upsert_grows by auto
next
  case (module auth i body d r d')
  case 2
  then show ?case using handleModulePut_modules [OF module] upsert_distinct by auto
qed (simp_all add: publish_modules entitle_modules handleOTAGet_tables)

section \<open>Properties\<close>

text \<open>
  C6: An update is only what was published and still holds. In every run of the catalogue, whatever manifest a
  device is given was published by a request that carried the token of the administrator, which is set;
  it is for the channel and the board that the
  device asked for, fits its protocol, is valid at the time of the answer (so not expired), carries a valid
  signature where signatures are required, and is newer than what the device has; its security version is not
  below that of the device, and no other release for this device is newer.
\<close>

theorem ota_sound:
  assumes "catalogue s token h d" "handleOTAGet s now now' a q d = (Replied 200 (Some m), d')"
    "ParseInt64 (q ''protocol'') = Some protocol" "optionalInt (q ''security_version'') = Some security"
    "optionalInt (q ''metadata_version'') = Some metadata"
  shows "(\<exists>auth m0. (auth, m0) \<in> set h \<and> m = m0\<lparr>fm_Offset := 0\<rparr> \<and> token \<noteq> [] \<and> auth = ''Bearer '' @ token)
    \<and> fm_Channel m = (if TrimSpace (q ''channel'') = [] then ''stable'' else TrimSpace (q ''channel''))
    \<and> fm_Board m = TrimSpace (q ''board'') \<and> fm_ProtocolMin m \<le> protocol
    \<and> FirmwareManifest_Validate (fs_parse_url s) m now' = None \<and> now' < fm_ExpiresAt m
    \<and> (fs_requireSignature s \<longrightarrow> Verify (fs_ed s) (fs_publicKey s) m)
    \<and> metadata < fm_MetadataVersion m \<and> security \<le> fm_SecurityVersion m
    \<and> (\<forall>n \<in> snd ` set h. fm_Channel n = fm_Channel m \<longrightarrow> fm_Board n = fm_Board m \<longrightarrow> fm_ProtocolMin n \<le> protocol
         \<longrightarrow> security \<le> fm_SecurityVersion n \<longrightarrow> pg_ts now < pg_ts (fm_ExpiresAt n)
         \<longrightarrow> fm_MetadataVersion n \<le> fm_MetadataVersion m)"
proof -
  let ?ch = "if TrimSpace (q ''channel'') = [] then ''stable'' else TrimSpace (q ''channel'')"
  have st: "TrimSpace ''stable'' = ''stable''" by (simp add: graphic_def)
  then have ch: "TrimSpace ?ch = ?ch" by simp
  obtain d1 where L: "Latest s now now' ?ch (TrimSpace (q ''board'')) protocol security metadata d = (Inr (Some m), d1)"
    using assms(2-5) by (auto simp: handleOTAGet_def Let_def split: if_splits sum.splits option.splits prod.splits)
  obtain r where r: "newest (filter (offered ?ch (TrimSpace (q ''board'')) protocol security now) (firmware_releases (tables d))) = Some r"
      "m = (fr_manifest r)\<lparr>fm_Offset := 0\<rparr>" using Latest_Some(1) [OF L] by blast
  have rows: "firmware_releases (tables d) = map (\<lambda>m. \<lparr>fr_manifest = m, fr_expires_at = pg_ts (fm_ExpiresAt m)\<rparr>) (map snd h)"
    and admin: "\<And>auth m. (auth, m) \<in> set h \<Longrightarrow> adminOK token auth"
    using catalogue_releases [OF assms(1)] by blast+
  have off: "offered ?ch (TrimSpace (q ''board'')) protocol security now r" "r \<in> set (firmware_releases (tables d))"
    and best: "x \<in> set (firmware_releases (tables d)) \<Longrightarrow> offered ?ch (TrimSpace (q ''board'')) protocol security now x \<Longrightarrow>
      fm_MetadataVersion (fr_manifest x) \<le> fm_MetadataVersion m" for x
    using newest_in [OF r(1)] r(2) by auto
  have "\<exists>auth m0. (auth, m0) \<in> set h \<and> m = m0\<lparr>fm_Offset := 0\<rparr> \<and> token \<noteq> [] \<and> auth = ''Bearer '' @ token"
    using off(2) r(2) admin by (fastforce simp: rows adminOK_def)
  moreover have m: "fm_Channel m = ?ch" "fm_Board m = TrimSpace (q ''board'')" "fm_ProtocolMin m \<le> protocol"
      "security \<le> fm_SecurityVersion m"
    using off(1) by (simp_all add: r(2) offered_def Let_def ch del: if_split)
  moreover have "now' < fm_ExpiresAt m"
    using Latest_Some(3) [OF L] by (auto simp: FirmwareManifest_Validate_def After_def split: if_splits)
  moreover have "fm_MetadataVersion n \<le> fm_MetadataVersion m"
    if "n \<in> snd ` set h" "fm_Channel n = fm_Channel m" "fm_Board n = fm_Board m" "fm_ProtocolMin n \<le> protocol"
      "security \<le> fm_SecurityVersion n" "pg_ts now < pg_ts (fm_ExpiresAt n)" for n
    using best [of "\<lparr>fr_manifest = n, fr_expires_at = pg_ts (fm_ExpiresAt n)\<rparr>"] that m(1,2)
    by (auto simp: rows offered_def Let_def ch image_iff simp del: if_split)
  ultimately show ?thesis using Latest_Some(2-4) [OF L] by blast
qed

definition demo_manifest :: FirmwareManifest where
  "demo_manifest = \<lparr>fm_Version = ''1'', fm_Channel = ''stable'', fm_Board = ''b'', fm_ProtocolMin = 1, fm_SecurityVersion = 0,
     fm_URL = ''/f'', fm_SHA256 = replicate 64 (CHR ''0''), fm_Size = 1, fm_ExpiresAt = 1000000, fm_Offset = 0,
     fm_MetadataVersion = 1, fm_Signature = ''cw''\<rparr>"

definition demo_firmware :: FirmwareService where
  "demo_firmware = \<lparr>fs_publicKey = replicate 32 (CHR ''k''), fs_requireSignature = True,
     fs_ed = \<lparr>ed_sign = \<lambda>_ _. ''s'', ed_verify = \<lambda>_ _ sig. sig = ''s''\<rparr>, fs_parse_url = \<lambda>u. Some ([], u)\<rparr>"

definition demo_query :: "string \<Rightarrow> string" where
  "demo_query k = (if k = ''board'' then ''b'' else if k = ''protocol'' then ''1'' else [])"

lemma demo_fw_text: "TrimSpace ''b'' = ''b''" "TrimSpace ''1'' = ''1''" "TrimSpace ''stable'' = ''stable''" "TrimSpace ''/f'' = ''/f''"
  by (simp_all add: graphic_def)

lemma demo_valid: "pg_text ''1''" "pg_text ''stable''" "pg_text ''b''" "pg_text ''/f''" "pg_text ''cw''"
  by (simp_all add: pg_text_def ValidString_def rune_error_def)

lemma demo_checks:
  "FirmwareManifest_Validate (fs_parse_url demo_firmware) demo_manifest 0 = None"
  "Verify (fs_ed demo_firmware) (fs_publicKey demo_firmware) demo_manifest" "fw_row_ok demo_manifest"
  "json_year_ok (fm_ExpiresAt demo_manifest)"
proof -
  show "FirmwareManifest_Validate (fs_parse_url demo_firmware) demo_manifest 0 = None"
    using demo_fw_text by (simp add: FirmwareManifest_Validate_def demo_manifest_def demo_firmware_def hex_decodes_def hex_digit_def
        byte_in_def After_def list_all_iff)
  have "b64_decode ''cw'' = Some ''s''" by code_simp
  then show "Verify (fs_ed demo_firmware) (fs_publicKey demo_firmware) demo_manifest"
    by (simp add: Verify_def demo_manifest_def demo_firmware_def PublicKeySize_def)
  show "fw_row_ok demo_manifest"
    using demo_valid by (simp add: fw_row_ok_def demo_manifest_def in_int32_def lower_hex64_def is_digit_def byte_in_def list_all_iff)
  show "json_year_ok (fm_ExpiresAt demo_manifest)"
    by (simp add: json_year_ok_def demo_manifest_def ns_per_day_def date_of_def year_of.simps month_lens_def year_len_def leap_def)
qed

lemma demo_catalogue:
  "\<exists>d. catalogue demo_firmware ''t'' [(''Bearer t'', demo_manifest)] d \<and> faults d = []
     \<and> firmware_releases (tables d) = [\<lparr>fr_manifest = demo_manifest, fr_expires_at = 1000000\<rparr>]"
proof -
  let ?d0 = "\<lparr>tables = \<lparr>firmware_releases = [], feature_modules = [], entitlements = []\<rparr>, faults = []\<rparr> :: cat_tables db"
  let ?d1 = "?d0\<lparr>tables := (tables ?d0)\<lparr>firmware_releases := [\<lparr>fr_manifest = demo_manifest, fr_expires_at = 1000000\<rparr>]\<rparr>\<rparr>"
  have "fm_Offset demo_manifest = 0" "pg_ts (fm_ExpiresAt demo_manifest) = 1000000" "length (fs_publicKey demo_firmware) = PublicKeySize"
    by (simp_all add: demo_manifest_def pg_ts_def demo_firmware_def PublicKeySize_def)
  then have "handleFirmwarePublish ''t'' demo_firmware 0 ''Bearer t'' (Inr demo_manifest) ?d0 = (Replied 201 None, ?d1)"
    using demo_checks by (simp add: handleFirmwarePublish_def adminOK_def Publish_def PutFirmware_def stmt_def up_def next_call_def insert_release_def)
  from step [OF start publish [OF this]] show ?thesis by (intro exI [of _ ?d1]) simp
qed

theorem ota_sound_witness:
  "\<exists>d d'. catalogue demo_firmware ''t'' [(''Bearer t'', demo_manifest)] d
     \<and> handleOTAGet demo_firmware 0 0 True demo_query d = (Replied 200 (Some demo_manifest), d')
     \<and> Verify (fs_ed demo_firmware) (fs_publicKey demo_firmware) demo_manifest \<and> 0 < fm_ExpiresAt demo_manifest
     \<and> (\<exists>auth. (auth, demo_manifest) \<in> set [(''Bearer t'', demo_manifest)] \<and> auth = ''Bearer '' @ ''t'')"
proof -
  obtain d where d: "catalogue demo_firmware ''t'' [(''Bearer t'', demo_manifest)] d" "faults d = []"
      "firmware_releases (tables d) = [\<lparr>fr_manifest = demo_manifest, fr_expires_at = 1000000\<rparr>]"
    using demo_catalogue by blast
  have q: "ParseInt64 (demo_query ''protocol'') = Some 1" "optionalInt (demo_query ''security_version'') = Some 0"
      "optionalInt (demo_query ''metadata_version'') = Some 0"
    by (simp_all add: demo_query_def optionalInt_def ParseInt64_def is_digit_def byte_in_def digits_val_def in_int64_def
        int64_min_def int64_max_def)
  have "demo_manifest\<lparr>fm_Offset := 0\<rparr> = demo_manifest" by (simp add: demo_manifest_def)
  moreover have "offered ''stable'' ''b'' 1 0 0 \<lparr>fr_manifest = demo_manifest, fr_expires_at = 1000000\<rparr>"
    using demo_fw_text by (simp add: offered_def demo_manifest_def pg_ts_def)
  ultimately have "LatestFirmware ''stable'' ''b'' 1 0 0 d = (Inr (Some demo_manifest), next_call d)"
    using d(2,3) demo_fw_text demo_valid by (simp add: LatestFirmware_def stmt_def up_def in_int32_def next_call_def)
  then have "handleOTAGet demo_firmware 0 0 True demo_query d = (Replied 200 (Some demo_manifest), next_call d)"
    using demo_checks(1,2) demo_fw_text q
    by (simp add: handleOTAGet_def demo_query_def Latest_def tx_bind_def tx_return_def) (simp add: demo_manifest_def)
  from this ota_sound [OF d(1) this q] d(1) show ?thesis by (auto simp: demo_firmware_def)
qed

text \<open>
  C7: A signature stands for the whole manifest: when two manifests have the same signed bytes, they agree on
  the version, the channel, the board, the protocol, the security version, the address, the checksum, the size,
  the instant of expiry and the metadata version. So a signature cannot be carried over to another release, as
  long as both expire in a year that JSON can hold, and their texts are UTF-8.
\<close>

theorem signature_binds:
  assumes "signingBytes m = signingBytes n" "json_year_ok (fm_ExpiresAt m)" "json_year_ok (fm_ExpiresAt n)"
    "strings_valid m" "strings_valid n"
  shows "n = m\<lparr>fm_Offset := fm_Offset n, fm_Signature := fm_Signature n\<rparr>"
proof -
  have "join '','' (map member_text (signed_members m (quote (rfc3339 (fm_ExpiresAt m))))) @ ''}'' =
      join '','' (map member_text (signed_members n (quote (rfc3339 (fm_ExpiresAt n))))) @ ''}''"
    using assms(1-3) by (simp add: signingBytes_def time_json_def)
  from signed_fields [OF this assms(4,5)] rfc3339_inj [OF _ assms(2,3)] show ?thesis
    by (intro FirmwareManifest.equality) auto
qed

theorem signature_binds_witness:
  "signingBytes demo_manifest = signingBytes (demo_manifest\<lparr>fm_Signature := ''x''\<rparr>)
     \<and> demo_manifest\<lparr>fm_Signature := ''x''\<rparr> = demo_manifest\<lparr>fm_Offset := 0, fm_Signature := ''x''\<rparr>"
proof -
  have "strings_valid demo_manifest"
    using demo_valid by (simp add: strings_valid_def demo_manifest_def pg_text_def ValidString_plain list_all_iff)
  moreover have "signingBytes demo_manifest = signingBytes (demo_manifest\<lparr>fm_Signature := ''x''\<rparr>)"
    by simp
  moreover have "fm_Offset demo_manifest = 0" by (simp add: demo_manifest_def)
  ultimately show ?thesis
    using signature_binds [of demo_manifest "demo_manifest\<lparr>fm_Signature := ''x''\<rparr>"] demo_checks(4)
    by (simp add: strings_valid_def)
qed

text \<open>
  What is signed verifies: a manifest signed with a private key passes the verification with the public key
  that belongs to it, through the encoding of the signature and back, when the curve does what it promises.
\<close>

theorem sign_verify:
  assumes "Sign ed key m = Inr m'" "length pub = PublicKeySize"
    "\<And>msg. ed_verify ed pub msg (ed_sign ed key msg)" "\<And>msg. ed_sign ed key msg \<noteq> []"
  shows "Verify ed pub m' \<and> m' = m\<lparr>fm_Signature := fm_Signature m'\<rparr>"
proof -
  let ?sig = "ed_sign ed key (signingBytes m)"
  have m': "m' = m\<lparr>fm_Signature := b64_encode ?sig\<rparr>" using assms(1) by (simp add: Sign_def split: if_splits)
  have "signingBytes m' = signingBytes m" by (simp add: m')
  moreover have "b64_encode ?sig \<noteq> []" using assms(4) [of "signingBytes m"] b64_decode_encode [of ?sig]
    by (auto simp: b64_decode_def dest: sym)
  ultimately show ?thesis using assms(2,3) by (simp add: m' Verify_def b64_decode_encode)
qed

theorem sign_verify_witness:
  "\<exists>m'. Sign (fs_ed demo_firmware) (replicate 64 (CHR ''p'')) demo_manifest = Inr m'
     \<and> Verify (fs_ed demo_firmware) (fs_publicKey demo_firmware) m'"
proof -
  obtain m' where m': "Sign (fs_ed demo_firmware) (replicate 64 (CHR ''p'')) demo_manifest = Inr m'"
    by (simp add: Sign_def PrivateKeySize_def)
  have "length (fs_publicKey demo_firmware) = PublicKeySize" by (simp add: demo_firmware_def PublicKeySize_def)
  from sign_verify [OF m' this] m' show ?thesis by (auto simp: demo_firmware_def)
qed

text \<open>
  C8: The version of a feature never goes back: between any two moments of a run of the catalogue, every
  feature keeps its entry under the same identifier, with at least the version it had; identifiers stay unique.
\<close>

theorem feature_versions_grow:
  assumes "catalogue s token h d" "(\<lambda>d d'. \<exists>acc. catalogue_step s token acc d d')\<^sup>*\<^sup>* d d'"
  shows "(\<forall>x \<in> set (feature_modules (tables d)). \<exists>y \<in> set (feature_modules (tables d')).
      fe_ID y = fe_ID x \<and> fe_Version x \<le> fe_Version y) \<and> distinct (map fe_ID (feature_modules (tables d')))"
proof -
  have "distinct (map fe_ID (feature_modules (tables d)))"
    using assms(1) by (induction rule: catalogue.induct) (simp_all add: catalogue_step_features(2))
  with assms(2) have "features_grow (feature_modules (tables d)) (feature_modules (tables d'))
      \<and> distinct (map fe_ID (feature_modules (tables d')))"
    by (induction rule: rtranclp_induct) (auto intro: features_grow_trans dest: catalogue_step_features)
  then show ?thesis by (simp add: features_grow_def)
qed

definition demo_module :: "int \<Rightarrow> FeatureModule" where
  "demo_module v = \<lparr>fe_ID = [], fe_Version = v, fe_Lifecycle = ''beta'', fe_Execution = ''native'', fe_MinProtocol = 0,
     fe_Capabilities = [], fe_Tools = [], fe_Resources = [], fe_UICards = [], fe_Locales = [], fe_ConfigKeys = [],
     fe_Entitlement = [], fe_Implementation = []\<rparr>"

lemma demo_module_put:
  assumes "0 < v" "pg_text i" "TrimSpace i \<noteq> []" "pg_text (TrimSpace i)" "faults d = []"
    "\<And>x. find (\<lambda>m. fe_ID m = TrimSpace i) (feature_modules (tables d)) = Some x \<Longrightarrow> fe_Version x \<le> v"
  shows "handleModulePut ''t'' ''Bearer t'' i (Inr (demo_module v)) d =
    (Replied 204 None, d\<lparr>tables := (tables d)\<lparr>feature_modules :=
       upsert_module ((demo_module v)\<lparr>fe_ID := i\<rparr>) (feature_modules (tables d))\<rparr>\<rparr>)"
proof -
  have v: "valid_utf8 [] = []" by (simp add: valid_utf8_def)
  have p: "pg_text ''beta''" "pg_text ''native''" by (simp_all add: pg_text_def ValidString_def rune_error_def)
  have "ValidateFeatureModule ((demo_module v)\<lparr>fe_ID := i\<rparr>) = None"
    using assms(1,3) by (simp add: ValidateFeatureModule_def demo_module_def)
  moreover have "module_row_ok ((demo_module v)\<lparr>fe_ID := i\<rparr>)"
    using assms(2) p by (simp add: module_row_ok_def demo_module_def)
  moreover have "json_module ((demo_module v)\<lparr>fe_ID := i\<rparr>) = (demo_module v)\<lparr>fe_ID := i\<rparr>"
    by (simp add: json_module_def demo_module_def v)
  moreover have "fe_Version (demo_module v) = v" by (simp add: demo_module_def)
  ultimately show ?thesis
    using assms(4-6)
    by (cases "find (\<lambda>m. fe_ID m = TrimSpace i) (feature_modules (tables d))")
       (simp_all add: handleModulePut_def adminOK_def Catalog_Put_def FeatureModule_get_def PutFeatureModule_def tx_bind_def
        stmt_def up_def next_call_def)
qed

theorem feature_versions_grow_witness:
  "\<exists>d d'. catalogue demo_firmware ''t'' [] d \<and> (\<lambda>d d'. \<exists>acc. catalogue_step demo_firmware ''t'' acc d d')\<^sup>*\<^sup>* d d'
     \<and> feature_modules (tables d) = [(demo_module 1)\<lparr>fe_ID := ''x''\<rparr>]
     \<and> feature_modules (tables d') = [(demo_module 2)\<lparr>fe_ID := ''x''\<rparr>]
     \<and> distinct (map fe_ID (feature_modules (tables d')))"
proof -
  define d0 :: "cat_tables db" where
    "d0 = \<lparr>tables = \<lparr>firmware_releases = [], feature_modules = [], entitlements = []\<rparr>, faults = []\<rparr>"
  define f where "f v = d0\<lparr>tables := (tables d0)\<lparr>feature_modules := [(demo_module v)\<lparr>fe_ID := ''x''\<rparr>]\<rparr>\<rparr>" for v
  have x: "pg_text ''x''" "TrimSpace ''x'' = ''x''" by (simp_all add: pg_text_def ValidString_def rune_error_def graphic_def)
  have 1: "handleModulePut ''t'' ''Bearer t'' ''x'' (Inr (demo_module 1)) d0 = (Replied 204 None, f 1)"
    using x by (subst demo_module_put) (simp_all add: d0_def f_def)
  have 2: "handleModulePut ''t'' ''Bearer t'' ''x'' (Inr (demo_module 2)) (f 1) = (Replied 204 None, f 2)"
    using x by (subst demo_module_put) (auto simp: d0_def f_def demo_module_def)
  have "catalogue demo_firmware ''t'' [] d0" by (rule start) (simp add: d0_def)
  from step [OF this module [OF 1]] have c: "catalogue demo_firmware ''t'' [] (f 1)" by simp
  moreover have s: "(\<lambda>d d'. \<exists>acc. catalogue_step demo_firmware ''t'' acc d d')\<^sup>*\<^sup>* (f 1) (f 2)"
    using module [OF 2, of demo_firmware] by blast
  ultimately show ?thesis using feature_versions_grow [OF c s] by (intro exI [of _ "f 1"] exI [of _ "f 2"]) (simp add: f_def)
qed

section \<open>Where the code does less than it says\<close>

text \<open>
  The check against a rollback looks an identifier up without its surrounding blanks, but the table is written
  under the identifier as it came. For an identifier with blanks around it the check finds nothing, the table
  keeps the newer version, and the administrator is told that the older one was stored.
\<close>

theorem rollback_silent:
  assumes "0 < v" "v < w" "pg_text i" "TrimSpace i \<noteq> []" "pg_text (TrimSpace i)" "TrimSpace i \<noteq> i" "faults d = []"
    "feature_modules (tables d) = [(demo_module w)\<lparr>fe_ID := i\<rparr>]"
  shows "\<exists>d'. handleModulePut ''t'' ''Bearer t'' i (Inr (demo_module v)) d = (Replied 204 None, d')
     \<and> feature_modules (tables d') = [(demo_module w)\<lparr>fe_ID := i\<rparr>]"
  using demo_module_put [of v i d] assms by (auto simp: demo_module_def)

text \<open>
  An instant in a year that JSON cannot hold makes \<open>json.Marshal\<close> fail, and the failure is ignored: such a
  manifest is signed over no bytes at all, so one signature serves every manifest with such an expiry. The year
  is checked in UTC here, but in the offset of the publisher when the manifest is stored.
\<close>

theorem signed_empty:
  assumes "\<not> json_year_ok (fm_ExpiresAt m)" "\<not> json_year_ok (fm_ExpiresAt n)"
    "fm_Signature m = fm_Signature n" "Verify ed key m"
  shows "signingBytes m = [] \<and> Verify ed key n"
proof -
  have "signingBytes m = []" "signingBytes n = []" using assms(1,2) by (simp_all add: signingBytes_def time_json_def)
  then show ?thesis using assms(3,4) by (simp add: Verify_def split: option.splits)
qed

text \<open>A release whose channel or board was published with blanks around it is never served.\<close>

theorem untrimmed_release_unreachable:
  assumes "TrimSpace (fm_Channel (fr_manifest r)) \<noteq> fm_Channel (fr_manifest r)
     \<or> TrimSpace (fm_Board (fr_manifest r)) \<noteq> fm_Board (fr_manifest r)"
  shows "\<not> offered channel board protocol currentSecurity now r"
  using assms by (auto simp: offered_def Let_def)

text \<open>A checksum in upper case passes the validation, and the table refuses it.\<close>

theorem uppercase_checksum_refused:
  assumes "fm_SHA256 m = replicate 64 (CHR ''A'')"
  shows "hex_decodes (fm_SHA256 m) \<and> insert_release m t = None"
  using assms by (simp add: hex_decodes_def hex_digit_def byte_in_def list_all_iff insert_release_def fw_row_ok_def lower_hex64_def
      is_digit_def)

section \<open>Entitlements and lists\<close>

lemma entitlement_lookup:
  assumes "SetEntitlement u k e ex d = (Inr (), d')" "up d'"
  shows "fst (Allowed u k now d') \<longleftrightarrow> e \<and> (case ex of None \<Rightarrow> True | Some x \<Rightarrow> now < pg_ts x)"
  using assms
  by (auto simp: SetEntitlement_def Allowed_def Let_def tx_Inr stmt_def tx_fail_def After_def split: if_splits option.splits)

lemma insert_module_mset: "mset (insert_module m xs) = add_mset m (mset xs)"
  by (induction xs) auto

lemma insert_module_sorted:
  assumes "sorted_wrt (\<lambda>a b. string_less (fe_ID a) (fe_ID b)) xs" "fe_ID m \<notin> fe_ID ` set xs"
  shows "sorted_wrt (\<lambda>a b. string_less (fe_ID a) (fe_ID b)) (insert_module m xs)"
proof -
  have s: "set (insert_module m ys) = insert m (set ys)" for ys using insert_module_mset [of m ys] by (metis set_mset_add_mset_insert set_mset_mset)
  show ?thesis using assms
    by (induction xs) (use string_less_total string_less_trans in \<open>fastforce simp: s\<close>)+
qed

lemma catalog_list_sorted:
  assumes "distinct (map fe_ID xs)"
  shows "sorted_wrt (\<lambda>a b. string_less (fe_ID a) (fe_ID b)) (foldr insert_module xs []) \<and> mset (foldr insert_module xs []) = mset xs"
  using assms
proof (induction xs)
  case (Cons x xs)
  then have "set (foldr insert_module xs []) = set xs" by (metis distinct.simps(2) list.simps(9) mset_eq_setD)
  then show ?case using Cons by (auto simp: insert_module_mset intro!: insert_module_sorted)
qed simp

end
