(* ===== verification/Personal_Data.thy ===== *)
theory Personal_Data
  imports Idempotency Store_Tables Go_Time
begin

text \<open>
  The personal data of a user (\<open>pgstore/domain.go\<close>, \<open>pgstore/domain_mutations.go\<close>, \<open>domain/model.go\<close>,
  \<open>domain/saving.go\<close>): notes, expenses, budgets, savings goals, the journal, reminders and timers, and voice
  memos. Every write exists twice, as a plain statement and as a mutation with an idempotency record. An
  identifier of a new row is drawn by the database and is an argument; the primary key refuses a taken one. A
  row is the value the program reads and the column \<open>idempotency_key\<close>, which it never reads back.
  What the driver refuses otherwise (texts that are not UTF-8, for instance) is a fault of the statement. The
  triggers that copy changes into the outbox are part of the database and not modelled.
\<close>

section \<open>Rows\<close>

record Note =
  nt_ID :: int
  nt_UserID :: string
  nt_Content :: string
  nt_CreatedAt :: time

record note_row = Note +
  nt_key :: string

record ExpenseInput =
  ei_AmountVND :: int
  ei_Category :: string
  ei_Description :: string
  ei_OccurredAt :: time

record Expense =
  ex_ID :: int
  ex_UserID :: string
  ex_AmountVND :: int
  ex_Category :: string
  ex_Description :: string
  ex_OccurredAt :: time

record expense_entry = Expense +
  ex_key :: string

record budget_row =
  bg_user_id :: string
  bg_period :: string
  bg_limit_vnd :: int

record SavingsGoal =
  sg_UserID :: string
  sg_Period :: string
  sg_TargetVND :: int
  sg_Description :: string
  sg_EffectiveFrom :: time
  sg_CreatedAt :: time
  sg_UpdatedAt :: time

record JournalEntry =
  jn_ID :: int
  jn_UserID :: string
  jn_Content :: string
  jn_OccurredAt :: time

record journal_entry = JournalEntry +
  jn_key :: string

record ScheduledItem =
  si_ID :: int
  si_UserID :: string
  si_DeviceID :: string
  si_Kind :: string
  si_Title :: string
  si_FireAt :: time
  si_Status :: string
  si_Attempts :: int
  si_NextAttempt :: "time option"
  si_PausedRemainingSeconds :: int

record reminder_row = ScheduledItem +
  si_key :: string

record VoiceMemo =
  vm_ID :: int
  vm_UserID :: string
  vm_DeviceID :: string
  vm_Path :: string
  vm_Transcript :: string
  vm_DurationMS :: int
  vm_CreatedAt :: time

record memo_row = VoiceMemo +
  vm_key :: string

text \<open>What the ledger keeps: the marker \<open>{"committed":true}\<close>, or the row.\<close>

datatype data_outcome = OCommitted | OScheduled ScheduledItem | OMemo VoiceMemo

record data_tables = "data_outcome idem_tables" +
  note_rows :: "note_row list"
  expenses :: "expense_entry list"
  budgets :: "budget_row list"
  savings_goals :: "SavingsGoal list"
  journal_entries :: "journal_entry list"
  reminders :: "reminder_row list"
  voice_memos :: "memo_row list"

type_synonym 'a data_tx = "(data_tables, unit, 'a) tx"

section \<open>Statements\<close>

text \<open>A table is given by its field and the update of the field.\<close>

definition insert_into :: "('t \<Rightarrow> 'r list) \<Rightarrow> (('r list \<Rightarrow> 'r list) \<Rightarrow> 't \<Rightarrow> 't) \<Rightarrow> ('r \<Rightarrow> 'k) \<Rightarrow> 'r \<Rightarrow> ('t, 'e, unit) tx" where
  "insert_into get upd key r =
     stmt (\<lambda>t. if key r \<in> key ` set (get t) then None else Some ((), upd (\<lambda>rows. rows @ [r]) t))"

definition update_rows :: "('t \<Rightarrow> 'r list) \<Rightarrow> (('r list \<Rightarrow> 'r list) \<Rightarrow> 't \<Rightarrow> 't) \<Rightarrow> ('r \<Rightarrow> bool) \<Rightarrow> ('r \<Rightarrow> 'r) \<Rightarrow> ('t, 'e, nat) tx" where
  "update_rows get upd P g = stmt (\<lambda>t. Some (rows_affected P (get t), upd (update_where P g) t))"

definition delete_rows :: "('t \<Rightarrow> 'r list) \<Rightarrow> (('r list \<Rightarrow> 'r list) \<Rightarrow> 't \<Rightarrow> 't) \<Rightarrow> ('r \<Rightarrow> bool) \<Rightarrow> ('t, 'e, nat) tx" where
  "delete_rows get upd P = stmt (\<lambda>t. Some (rows_affected P (get t), upd (filter (\<lambda>r. \<not> P r)) t))"

text \<open>\<open>INSERT ... SELECT ... WHERE NOT EXISTS\<close>\<close>

definition insert_unless :: "('t \<Rightarrow> 'r list) \<Rightarrow> (('r list \<Rightarrow> 'r list) \<Rightarrow> 't \<Rightarrow> 't) \<Rightarrow> ('r \<Rightarrow> 'k) \<Rightarrow> ('r \<Rightarrow> bool) \<Rightarrow> 'r \<Rightarrow> ('t, 'e, unit) tx" where
  "insert_unless get upd key P r =
     stmt (\<lambda>t. if \<exists>x \<in> set (get t). P x then Some ((), t)
       else if key r \<in> key ` set (get t) then None else Some ((), upd (\<lambda>rows. rows @ [r]) t))"

text \<open>\<open>INSERT ... ON CONFLICT(key) DO UPDATE\<close>: the row of the key is replaced by \<open>g\<close> of it.\<close>

definition upsert :: "('t \<Rightarrow> 'r list) \<Rightarrow> (('r list \<Rightarrow> 'r list) \<Rightarrow> 't \<Rightarrow> 't) \<Rightarrow> ('r \<Rightarrow> 'k) \<Rightarrow> ('r \<Rightarrow> 'r) \<Rightarrow> 'r \<Rightarrow> ('t, 'e, unit) tx" where
  "upsert get upd key g r =
     stmt (\<lambda>t. Some ((), if key r \<in> key ` set (get t) then upd (update_where (\<lambda>x. key x = key r) g) t
       else upd (\<lambda>rows. rows @ [r]) t))"

definition requireRowsChanged :: "nat \<Rightarrow> string \<Rightarrow> ('t, 'e, unit) tx" where
  "requireRowsChanged rows label =
     (if rows \<noteq> 1 then tx_fail (Invalid (label @ '' not found or not mutable'')) else tx_return ())"

definition changed :: "string \<Rightarrow> ('t, 'e, nat) tx \<Rightarrow> ('t, 'e, unit) tx" where
  "changed label m = tx_bind m (\<lambda>n. requireRowsChanged n label)"

text \<open>The transactions of the plain creations: the advisory lock, the insertion, the commit.\<close>

definition locked_tx :: "('t, 'e, unit) tx \<Rightarrow> ('t, 'e, unit) tx" where
  "locked_tx m = in_tx (tx_bind (query (\<lambda>_. ())) (\<lambda>_. tx_bind m (\<lambda>_. tx_return (Commit ()))))"

definition invalid :: "string \<Rightarrow> ('t, 'e, 'a) tx" where
  "invalid msg = tx_fail (Invalid msg)"

definition validBudgetPeriod :: "string \<Rightarrow> string option" where
  "validBudgetPeriod period =
     (let p = ToLower (TrimSpace period); p = (if p = [] then ''weekly'' else p)
      in if p = ''daily'' \<or> p = ''weekly'' \<or> p = ''monthly'' then Some p else None)"

section \<open>Mutations with a record\<close>

definition runMutationMarker :: "Request \<Rightarrow> string \<Rightarrow> time \<Rightarrow> unit data_tx \<Rightarrow> unit data_tx" where
  "runMutationMarker request operation now mutate =
     (case requireMutationOperation request operation of
        Some e \<Rightarrow> invalid e
      | None \<Rightarrow> tx_bind (RunIdempotent request (\<lambda>_. OCommitted) now mutate) (\<lambda>_. tx_return ()))"

definition runMutationValueOf ::
    "Request \<Rightarrow> string \<Rightarrow> time \<Rightarrow> ('v \<Rightarrow> data_outcome) \<Rightarrow> (data_outcome \<Rightarrow> 'v option) \<Rightarrow> 'v data_tx \<Rightarrow> 'v data_tx" where
  "runMutationValueOf request operation now enc dec mutate =
     (case requireMutationOperation request operation of
        Some e \<Rightarrow> invalid e
      | None \<Rightarrow>
        tx_bind (RunIdempotent request enc now mutate) (\<lambda>out.
          case dec (outcome out) of
            None \<Rightarrow> invalid (''decode committed '' @ operation @ '' outcome'')
          | Some v \<Rightarrow> tx_return v))"

definition as_scheduled :: "data_outcome \<Rightarrow> ScheduledItem option" where
  "as_scheduled o' = (case o' of OScheduled i \<Rightarrow> Some i | _ \<Rightarrow> None)"

definition as_memo :: "data_outcome \<Rightarrow> VoiceMemo option" where
  "as_memo o' = (case o' of OMemo m \<Rightarrow> Some m | _ \<Rightarrow> None)"

section \<open>Notes\<close>

definition CreateNote :: "int \<Rightarrow> time \<Rightarrow> string \<Rightarrow> string \<Rightarrow> string \<Rightarrow> unit data_tx" where
  "CreateNote new now userID key content =
     (let content = TrimSpace content
      in if content = [] then invalid ''note content is required''
         else locked_tx (insert_unless note_rows note_rows_update nt_ID (\<lambda>n. nt_UserID n = owner userID \<and> nt_key n = key)
           \<lparr>nt_ID = new, nt_UserID = owner userID, nt_Content = content, nt_CreatedAt = pg_ts now, nt_key = key\<rparr>))"

definition CreateNoteMutation :: "int \<Rightarrow> time \<Rightarrow> Request \<Rightarrow> string \<Rightarrow> string \<Rightarrow> unit data_tx" where
  "CreateNoteMutation new now request userID content =
     (let content = TrimSpace content
      in if content = [] then invalid ''note content is required''
         else runMutationMarker request ''note.create'' now (insert_into note_rows note_rows_update nt_ID
           \<lparr>nt_ID = new, nt_UserID = owner userID, nt_Content = content, nt_CreatedAt = pg_ts now, nt_key = Key request\<rparr>))"

record NoteQuery =
  nq_From :: time
  nq_To :: time
  nq_Search :: string
  nq_Limit :: int

definition newest_first :: "('r \<Rightarrow> int) \<Rightarrow> int \<Rightarrow> 'r list \<Rightarrow> 'r list" where
  "newest_first k limit rows = take (nat limit) (sort_key (\<lambda>r. - k r) rows)"

text \<open>\<open>ilike s p\<close>: the operator \<open>ILIKE\<close> of the database.\<close>

definition QueryNotes :: "(string \<Rightarrow> string \<Rightarrow> bool) \<Rightarrow> string \<Rightarrow> NoteQuery \<Rightarrow> Note list data_tx" where
  "QueryNotes ilike userID q =
     query (\<lambda>t. map Note.truncate (newest_first nt_ID (boundedLimit (nq_Limit q)) (filter (\<lambda>n. nt_UserID n = owner userID
       \<and> (IsZero (nq_From q) \<or> pg_ts (nq_From q) \<le> nt_CreatedAt n) \<and> (IsZero (nq_To q) \<or> nt_CreatedAt n < pg_ts (nq_To q))
       \<and> (TrimSpace (nq_Search q) = [] \<or> ilike (nt_Content n) (''%'' @ TrimSpace (nq_Search q) @ ''%''))) (note_rows t))))"

definition ListNotes :: "(string \<Rightarrow> string \<Rightarrow> bool) \<Rightarrow> string \<Rightarrow> int \<Rightarrow> Note list data_tx" where
  "ListNotes ilike userID limit = QueryNotes ilike userID \<lparr>nq_From = 0, nq_To = 0, nq_Search = [], nq_Limit = limit\<rparr>"

definition update_note :: "string \<Rightarrow> int \<Rightarrow> string \<Rightarrow> unit data_tx" where
  "update_note userID i content = changed ''note''
     (update_rows note_rows note_rows_update (\<lambda>n. nt_ID n = i \<and> nt_UserID n = owner userID) (\<lambda>n. n\<lparr>nt_Content := content\<rparr>))"

definition UpdateNote :: "string \<Rightarrow> int \<Rightarrow> string \<Rightarrow> unit data_tx" where
  "UpdateNote userID i content =
     (let content = TrimSpace content
      in if content = [] then invalid ''note content is required'' else update_note userID i content)"

definition UpdateNoteMutation :: "time \<Rightarrow> Request \<Rightarrow> string \<Rightarrow> int \<Rightarrow> string \<Rightarrow> unit data_tx" where
  "UpdateNoteMutation now request userID i content =
     (let content = TrimSpace content
      in if content = [] then invalid ''note content is required''
         else runMutationMarker request ''note.update'' now (update_note userID i content))"

definition DeleteNote :: "string \<Rightarrow> int \<Rightarrow> unit data_tx" where
  "DeleteNote userID i = changed ''note'' (delete_rows note_rows note_rows_update (\<lambda>n. nt_ID n = i \<and> nt_UserID n = owner userID))"

definition DeleteNoteMutation :: "time \<Rightarrow> Request \<Rightarrow> string \<Rightarrow> int \<Rightarrow> unit data_tx" where
  "DeleteNoteMutation now request userID i = runMutationMarker request ''note.delete'' now (DeleteNote userID i)"

section \<open>Expenses\<close>

definition max_amount :: int where "max_amount = 1000000000"

definition amount_ok :: "int \<Rightarrow> bool" where
  "amount_ok amount \<longleftrightarrow> 0 < amount \<and> amount \<le> max_amount"

definition expense_category :: "string \<Rightarrow> string" where
  "expense_category category = (if TrimSpace category = [] then ''other'' else TrimSpace category)"

definition validated_items :: "ExpenseInput list \<Rightarrow> ExpenseInput list" where
  "validated_items = map (\<lambda>x. x\<lparr>ei_Category := expense_category (ei_Category x), ei_Description := TrimSpace (ei_Description x)\<rparr>)"

fun check_items :: "nat \<Rightarrow> ExpenseInput list \<Rightarrow> string option" where
  "check_items i [] = None"
| "check_items i (x # xs) =
     (if \<not> amount_ok (ei_AmountVND x) then Some (''item '' @ decimal i @ '' amount_vnd is outside the accepted range'')
      else if IsZero (ei_OccurredAt x) then Some (''item '' @ decimal i @ '' occurred_at is required'')
      else check_items (i + 1) xs)"

definition check_expenses :: "ExpenseInput list \<Rightarrow> string option" where
  "check_expenses items =
     (if length items < 1 \<or> length items > 20 then Some ''expenses must contain between 1 and 20 items'' else check_items 0 items)"

definition item_key :: "string \<Rightarrow> nat \<Rightarrow> nat \<Rightarrow> string" where
  "item_key key n i = (if n > 1 then key @ '':'' @ decimal i else key)"

definition expense_row :: "int \<Rightarrow> string \<Rightarrow> string \<Rightarrow> ExpenseInput \<Rightarrow> expense_entry" where
  "expense_row new userID key x = \<lparr>ex_ID = new, ex_UserID = owner userID, ex_AmountVND = ei_AmountVND x,
     ex_Category = ei_Category x, ex_Description = ei_Description x, ex_OccurredAt = pg_ts (ei_OccurredAt x), ex_key = key\<rparr>"

text \<open>The loop over the items; \<open>ids\<close> supplies the identifiers, \<open>n\<close> is the number of all items.\<close>

fun insert_items :: "(expense_entry \<Rightarrow> unit data_tx) \<Rightarrow> (nat \<Rightarrow> int) \<Rightarrow> string \<Rightarrow> string \<Rightarrow> nat \<Rightarrow> nat \<Rightarrow> ExpenseInput list \<Rightarrow> unit data_tx" where
  "insert_items ins ids userID key n i [] = tx_return ()"
| "insert_items ins ids userID key n i (x # xs) =
     tx_bind (ins (expense_row (ids i) userID (item_key key n i) x)) (\<lambda>_. insert_items ins ids userID key n (i + 1) xs)"

definition CreateExpenses :: "(nat \<Rightarrow> int) \<Rightarrow> string \<Rightarrow> string \<Rightarrow> ExpenseInput list \<Rightarrow> unit data_tx" where
  "CreateExpenses ids userID key items =
     (case check_expenses items of
        Some e \<Rightarrow> invalid e
      | None \<Rightarrow> locked_tx (insert_items
          (\<lambda>r. insert_unless expenses expenses_update ex_ID (\<lambda>x. ex_UserID x = ex_UserID r \<and> ex_key x = ex_key r) r)
          ids userID key (length items) 0 (validated_items items)))"

definition CreateExpense :: "(nat \<Rightarrow> int) \<Rightarrow> string \<Rightarrow> string \<Rightarrow> int \<Rightarrow> string \<Rightarrow> string \<Rightarrow> time \<Rightarrow> unit data_tx" where
  "CreateExpense ids userID key amount category description occurredAt = CreateExpenses ids userID key
     [\<lparr>ei_AmountVND = amount, ei_Category = category, ei_Description = description, ei_OccurredAt = occurredAt\<rparr>]"

definition CreateExpensesMutation :: "(nat \<Rightarrow> int) \<Rightarrow> time \<Rightarrow> Request \<Rightarrow> string \<Rightarrow> ExpenseInput list \<Rightarrow> unit data_tx" where
  "CreateExpensesMutation ids now request userID items =
     (case check_expenses items of
        Some e \<Rightarrow> invalid e
      | None \<Rightarrow> runMutationMarker request ''expense.log'' now (insert_items (insert_into expenses expenses_update ex_ID)
          ids userID (Key request) (length items) 0 (validated_items items)))"

definition CreateExpenseMutation :: "int \<Rightarrow> time \<Rightarrow> Request \<Rightarrow> string \<Rightarrow> int \<Rightarrow> string \<Rightarrow> string \<Rightarrow> time \<Rightarrow> unit data_tx" where
  "CreateExpenseMutation new now request userID amount category description occurredAt =
     (if \<not> amount_ok amount then invalid ''amount_vnd is outside the accepted range''
      else if IsZero occurredAt then invalid ''occurred_at is required''
      else runMutationMarker request ''expense.create'' now (insert_into expenses expenses_update ex_ID
        (expense_row new userID (Key request) \<lparr>ei_AmountVND = amount, ei_Category = expense_category category,
           ei_Description = TrimSpace description, ei_OccurredAt = occurredAt\<rparr>)))"

text \<open>The sum is a \<open>numeric\<close> of the database, which must fit an \<open>int64\<close>.\<close>

definition ExpenseTotal :: "string \<Rightarrow> time \<Rightarrow> time \<Rightarrow> int data_tx" where
  "ExpenseTotal userID from to = stmt (\<lambda>t.
     let total = sum_list (map ex_AmountVND (filter (\<lambda>x. ex_UserID x = owner userID
                   \<and> pg_ts from \<le> ex_OccurredAt x \<and> ex_OccurredAt x < pg_ts to) (expenses t)))
     in if in_int64 total then Some (total, t) else None)"

definition ListExpenses :: "string \<Rightarrow> time \<Rightarrow> time \<Rightarrow> string \<Rightarrow> int \<Rightarrow> Expense list data_tx" where
  "ListExpenses userID from to category limit =
     (if \<not> After to from then invalid ''invalid expense range''
      else query (\<lambda>t. map Expense.truncate (take (nat (boundedLimit limit)) (sort_key (\<lambda>x. - ex_OccurredAt x) (sort_key (\<lambda>x. - ex_ID x)
        (filter (\<lambda>x. ex_UserID x = owner userID \<and> pg_ts from \<le> ex_OccurredAt x \<and> ex_OccurredAt x < pg_ts to
           \<and> (TrimSpace category = [] \<or> ex_Category x = TrimSpace category)) (expenses t)))))))"

definition update_expense :: "string \<Rightarrow> int \<Rightarrow> int \<Rightarrow> string \<Rightarrow> string \<Rightarrow> time \<Rightarrow> unit data_tx" where
  "update_expense userID i amount category description occurredAt = changed ''expense''
     (update_rows expenses expenses_update (\<lambda>x. ex_ID x = i \<and> ex_UserID x = owner userID)
       (\<lambda>x. x\<lparr>ex_AmountVND := amount, ex_Category := TrimSpace category, ex_Description := TrimSpace description,
           ex_OccurredAt := pg_ts occurredAt\<rparr>))"

definition check_expense :: "int \<Rightarrow> time \<Rightarrow> string option" where
  "check_expense amount occurredAt =
     (if \<not> amount_ok amount then Some ''amount_vnd is outside the accepted range''
      else if IsZero occurredAt then Some ''occurred_at is required'' else None)"

definition UpdateExpense :: "string \<Rightarrow> int \<Rightarrow> int \<Rightarrow> string \<Rightarrow> string \<Rightarrow> time \<Rightarrow> unit data_tx" where
  "UpdateExpense userID i amount category description occurredAt =
     (case check_expense amount occurredAt of
        Some e \<Rightarrow> invalid e
      | None \<Rightarrow> update_expense userID i amount category description occurredAt)"

definition UpdateExpenseMutation :: "time \<Rightarrow> Request \<Rightarrow> string \<Rightarrow> int \<Rightarrow> int \<Rightarrow> string \<Rightarrow> string \<Rightarrow> time \<Rightarrow> unit data_tx" where
  "UpdateExpenseMutation now request userID i amount category description occurredAt =
     (case check_expense amount occurredAt of
        Some e \<Rightarrow> invalid e
      | None \<Rightarrow> runMutationMarker request ''expense.update'' now
          (update_expense userID i amount category description occurredAt))"

definition DeleteExpense :: "string \<Rightarrow> int \<Rightarrow> unit data_tx" where
  "DeleteExpense userID i =
     changed ''expense'' (delete_rows expenses expenses_update (\<lambda>x. ex_ID x = i \<and> ex_UserID x = owner userID))"

definition DeleteExpenseMutation :: "time \<Rightarrow> Request \<Rightarrow> string \<Rightarrow> int \<Rightarrow> unit data_tx" where
  "DeleteExpenseMutation now request userID i = runMutationMarker request ''expense.delete'' now (DeleteExpense userID i)"

section \<open>Budgets and savings goals\<close>

definition put_budget :: "string \<Rightarrow> string \<Rightarrow> int \<Rightarrow> unit data_tx" where
  "put_budget userID period limit = upsert budgets budgets_update (\<lambda>b. (bg_user_id b, bg_period b))
     (\<lambda>b. b\<lparr>bg_limit_vnd := limit\<rparr>) \<lparr>bg_user_id = owner userID, bg_period = period, bg_limit_vnd = limit\<rparr>"

definition with_period :: "string \<Rightarrow> (string \<Rightarrow> 'a data_tx) \<Rightarrow> 'a data_tx" where
  "with_period period f =
     (case validBudgetPeriod period of None \<Rightarrow> invalid ''unsupported budget period'' | Some p \<Rightarrow> f p)"

definition SetBudget :: "string \<Rightarrow> string \<Rightarrow> int \<Rightarrow> unit data_tx" where
  "SetBudget userID period limit =
     (if limit < 0 then invalid ''budget must be >= 0'' else with_period period (\<lambda>p. put_budget userID p limit))"

definition SetBudgetMutation :: "time \<Rightarrow> Request \<Rightarrow> string \<Rightarrow> string \<Rightarrow> int \<Rightarrow> unit data_tx" where
  "SetBudgetMutation now request userID period limit =
     (if limit < 0 then invalid ''budget must be >= 0''
      else with_period period (\<lambda>p. runMutationMarker request ''budget.set'' now (put_budget userID p limit)))"

definition BudgetLimit :: "string \<Rightarrow> string \<Rightarrow> int option data_tx" where
  "BudgetLimit userID period = with_period period (\<lambda>p. query (\<lambda>t.
     map_option bg_limit_vnd (find (\<lambda>b. bg_user_id b = owner userID \<and> bg_period b = p) (budgets t))))"

definition delete_budget :: "string \<Rightarrow> string \<Rightarrow> unit data_tx" where
  "delete_budget userID p =
     changed ''budget'' (delete_rows budgets budgets_update (\<lambda>b. bg_user_id b = owner userID \<and> bg_period b = p))"

definition DeleteBudget :: "string \<Rightarrow> string \<Rightarrow> unit data_tx" where
  "DeleteBudget userID period = with_period period (delete_budget userID)"

definition DeleteBudgetMutation :: "time \<Rightarrow> Request \<Rightarrow> string \<Rightarrow> string \<Rightarrow> unit data_tx" where
  "DeleteBudgetMutation now request userID period =
     with_period period (\<lambda>p. runMutationMarker request ''budget.delete'' now (delete_budget userID p))"

definition MinSavingsTargetVND :: int where "MinSavingsTargetVND = 1"
definition MaxSavingsTargetVND :: int where "MaxSavingsTargetVND = 1000000000000"

definition ValidateSavingsTarget :: "int \<Rightarrow> string option" where
  "ValidateSavingsTarget targetVND =
     (if targetVND < MinSavingsTargetVND then Some ''savings target must be at least 1 VND''
      else if targetVND > MaxSavingsTargetVND then Some ''savings target exceeds maximum allowable 1000000000000 VND'' else None)"

definition put_goal :: "time \<Rightarrow> string \<Rightarrow> string \<Rightarrow> int \<Rightarrow> string \<Rightarrow> time \<Rightarrow> unit data_tx" where
  "put_goal now userID p targetVND description effectiveFrom =
     (let eff = pg_ts (if IsZero effectiveFrom then now else effectiveFrom)
      in upsert savings_goals savings_goals_update (\<lambda>g. (sg_UserID g, sg_Period g))
        (\<lambda>g. g\<lparr>sg_TargetVND := targetVND, sg_Description := TrimSpace description, sg_EffectiveFrom := eff, sg_UpdatedAt := pg_ts now\<rparr>)
        \<lparr>sg_UserID = owner userID, sg_Period = p, sg_TargetVND = targetVND, sg_Description = TrimSpace description,
         sg_EffectiveFrom = eff, sg_CreatedAt = pg_ts now, sg_UpdatedAt = pg_ts now\<rparr>)"

definition SetSavingsGoal :: "time \<Rightarrow> string \<Rightarrow> string \<Rightarrow> int \<Rightarrow> string \<Rightarrow> time \<Rightarrow> unit data_tx" where
  "SetSavingsGoal now userID period targetVND description effectiveFrom =
     (case ValidateSavingsTarget targetVND of
        Some e \<Rightarrow> invalid e
      | None \<Rightarrow> with_period period (\<lambda>p. put_goal now userID p targetVND description effectiveFrom))"

definition SetSavingsGoalMutation :: "time \<Rightarrow> Request \<Rightarrow> string \<Rightarrow> string \<Rightarrow> int \<Rightarrow> string \<Rightarrow> time \<Rightarrow> unit data_tx" where
  "SetSavingsGoalMutation now request userID period targetVND description effectiveFrom =
     (case ValidateSavingsTarget targetVND of
        Some e \<Rightarrow> invalid e
      | None \<Rightarrow> with_period period (\<lambda>p.
          runMutationMarker request ''saving.goal_set'' now (put_goal now userID p targetVND description effectiveFrom)))"

definition GetSavingsGoal :: "string \<Rightarrow> string \<Rightarrow> SavingsGoal option data_tx" where
  "GetSavingsGoal userID period = with_period period (\<lambda>p. query (\<lambda>t.
     find (\<lambda>g. sg_UserID g = owner userID \<and> sg_Period g = p) (savings_goals t)))"

definition delete_goal :: "string \<Rightarrow> string \<Rightarrow> unit data_tx" where
  "delete_goal userID p = changed ''savings_goal''
     (delete_rows savings_goals savings_goals_update (\<lambda>g. sg_UserID g = owner userID \<and> sg_Period g = p))"

definition DeleteSavingsGoal :: "string \<Rightarrow> string \<Rightarrow> unit data_tx" where
  "DeleteSavingsGoal userID period = with_period period (delete_goal userID)"

definition DeleteSavingsGoalMutation :: "time \<Rightarrow> Request \<Rightarrow> string \<Rightarrow> string \<Rightarrow> unit data_tx" where
  "DeleteSavingsGoalMutation now request userID period =
     with_period period (\<lambda>p. runMutationMarker request ''saving.goal_delete'' now (delete_goal userID p))"

text \<open>\<open>CalculateSavingsProgress\<close>, with the subtractions of \<open>int64\<close>.\<close>

record SavingsProgress =
  sp_Goal :: "SavingsGoal option"
  sp_Period :: string
  sp_PeriodStart :: time
  sp_PeriodEnd :: time
  sp_SpentVND :: int
  sp_BudgetVND :: "int option"
  sp_BudgetRemainingVND :: "int option"
  sp_HeadroomVsTargetVND :: "int option"
  sp_Basis :: string
  sp_Status :: string

definition CalculateSavingsProgress ::
    "SavingsGoal option \<Rightarrow> string \<Rightarrow> time \<Rightarrow> time \<Rightarrow> int \<Rightarrow> int option \<Rightarrow> SavingsProgress" where
  "CalculateSavingsProgress goal period start stop spentVND budgetVND =
     (let p = \<lparr>sp_Goal = goal, sp_Period = period, sp_PeriodStart = start, sp_PeriodEnd = stop, sp_SpentVND = spentVND,
               sp_BudgetVND = budgetVND, sp_BudgetRemainingVND = None, sp_HeadroomVsTargetVND = None, sp_Basis = [], sp_Status = []\<rparr>
      in case budgetVND of
           None \<Rightarrow> p\<lparr>sp_Basis := ''spend_only'', sp_Status := (case goal of None \<Rightarrow> ''no_active_goal'' | Some _ \<Rightarrow> ''insufficient_data'')\<rparr>
         | Some budget \<Rightarrow>
           let remaining = wrap64 (budget - spentVND);
               p = p\<lparr>sp_Basis := ''budget_headroom'', sp_BudgetRemainingVND := Some remaining\<rparr>
           in case goal of
                None \<Rightarrow> p\<lparr>sp_Status := (if remaining < 0 then ''over_budget'' else ''no_active_goal'')\<rparr>
              | Some g \<Rightarrow>
                p\<lparr>sp_HeadroomVsTargetVND := Some (wrap64 (remaining - sg_TargetVND g)),
                  sp_Status := (if remaining < 0 then ''over_budget''
                    else if sg_TargetVND g \<le> remaining then ''budget_headroom_covers_target''
                    else ''budget_headroom_below_target'')\<rparr>)"

section \<open>The journal\<close>

definition check_journal :: "string \<Rightarrow> time \<Rightarrow> string option" where
  "check_journal content occurredAt =
     (if content = [] then Some ''journal content is required''
      else if IsZero occurredAt then Some ''journal occurred_at is required'' else None)"

definition journal_row :: "int \<Rightarrow> string \<Rightarrow> string \<Rightarrow> string \<Rightarrow> time \<Rightarrow> journal_entry" where
  "journal_row new userID key content occurredAt =
     \<lparr>jn_ID = new, jn_UserID = owner userID, jn_Content = content, jn_OccurredAt = pg_ts occurredAt, jn_key = key\<rparr>"

definition CreateJournal :: "int \<Rightarrow> string \<Rightarrow> string \<Rightarrow> string \<Rightarrow> time \<Rightarrow> unit data_tx" where
  "CreateJournal new userID key content occurredAt =
     (case check_journal (TrimSpace content) occurredAt of
        Some e \<Rightarrow> invalid e
      | None \<Rightarrow> locked_tx (insert_unless journal_entries journal_entries_update jn_ID
          (\<lambda>j. jn_UserID j = owner userID \<and> jn_key j = key) (journal_row new userID key (TrimSpace content) occurredAt)))"

definition CreateJournalMutation :: "int \<Rightarrow> time \<Rightarrow> Request \<Rightarrow> string \<Rightarrow> string \<Rightarrow> time \<Rightarrow> unit data_tx" where
  "CreateJournalMutation new now request userID content occurredAt =
     (case check_journal (TrimSpace content) occurredAt of
        Some e \<Rightarrow> invalid e
      | None \<Rightarrow> runMutationMarker request ''journal.create'' now (insert_into journal_entries journal_entries_update jn_ID
          (journal_row new userID (Key request) (TrimSpace content) occurredAt)))"

definition ListJournal :: "string \<Rightarrow> time \<Rightarrow> time \<Rightarrow> int \<Rightarrow> JournalEntry list data_tx" where
  "ListJournal userID from to limit =
     (if \<not> After to from then invalid ''invalid journal range''
      else query (\<lambda>t. map JournalEntry.truncate (take (nat (boundedLimit limit)) (sort_key (\<lambda>j. - jn_OccurredAt j) (sort_key (\<lambda>j. - jn_ID j)
        (filter (\<lambda>j. jn_UserID j = owner userID \<and> pg_ts from \<le> jn_OccurredAt j \<and> jn_OccurredAt j < pg_ts to)
          (journal_entries t)))))))"

definition update_journal :: "string \<Rightarrow> int \<Rightarrow> string \<Rightarrow> time \<Rightarrow> unit data_tx" where
  "update_journal userID i content occurredAt = changed ''journal entry''
     (update_rows journal_entries journal_entries_update (\<lambda>j. jn_ID j = i \<and> jn_UserID j = owner userID)
       (\<lambda>j. j\<lparr>jn_Content := content, jn_OccurredAt := pg_ts occurredAt\<rparr>))"

definition UpdateJournal :: "string \<Rightarrow> int \<Rightarrow> string \<Rightarrow> time \<Rightarrow> unit data_tx" where
  "UpdateJournal userID i content occurredAt =
     (case check_journal (TrimSpace content) occurredAt of
        Some e \<Rightarrow> invalid e
      | None \<Rightarrow> update_journal userID i (TrimSpace content) occurredAt)"

definition UpdateJournalMutation :: "time \<Rightarrow> Request \<Rightarrow> string \<Rightarrow> int \<Rightarrow> string \<Rightarrow> time \<Rightarrow> unit data_tx" where
  "UpdateJournalMutation now request userID i content occurredAt =
     (case check_journal (TrimSpace content) occurredAt of
        Some e \<Rightarrow> invalid e
      | None \<Rightarrow> runMutationMarker request ''journal.update'' now (update_journal userID i (TrimSpace content) occurredAt))"

definition DeleteJournal :: "string \<Rightarrow> int \<Rightarrow> unit data_tx" where
  "DeleteJournal userID i = changed ''journal entry''
     (delete_rows journal_entries journal_entries_update (\<lambda>j. jn_ID j = i \<and> jn_UserID j = owner userID))"

definition DeleteJournalMutation :: "time \<Rightarrow> Request \<Rightarrow> string \<Rightarrow> int \<Rightarrow> unit data_tx" where
  "DeleteJournalMutation now request userID i = runMutationMarker request ''journal.delete'' now (DeleteJournal userID i)"

section \<open>Reminders and timers\<close>

definition scheduled_row :: "int \<Rightarrow> string \<Rightarrow> string \<Rightarrow> string \<Rightarrow> string \<Rightarrow> string \<Rightarrow> time \<Rightarrow> reminder_row" where
  "scheduled_row new userID key deviceID kind title fireAt =
     \<lparr>si_ID = new, si_UserID = owner userID, si_DeviceID = TrimSpace deviceID, si_Kind = kind, si_Title = title,
      si_FireAt = pg_ts fireAt, si_Status = ''pending'', si_Attempts = 0, si_NextAttempt = None,
      si_PausedRemainingSeconds = 0, si_key = key\<rparr>"

definition check_scheduled :: "string \<Rightarrow> time \<Rightarrow> string option" where
  "check_scheduled title fireAt =
     (if title = [] then Some ''scheduled item title is required''
      else if IsZero fireAt then Some ''fire_at is required'' else None)"

definition createScheduled :: "int \<Rightarrow> string \<Rightarrow> string \<Rightarrow> string \<Rightarrow> string \<Rightarrow> string \<Rightarrow> time \<Rightarrow> unit data_tx" where
  "createScheduled new userID key deviceID kind title fireAt =
     (case check_scheduled (TrimSpace title) fireAt of
        Some e \<Rightarrow> invalid e
      | None \<Rightarrow>
        if kind \<noteq> ''reminder'' \<and> kind \<noteq> ''timer'' then invalid ''invalid scheduled kind''
        else locked_tx (insert_unless reminders reminders_update si_ID
          (\<lambda>r. si_UserID r = owner userID \<and> si_key r = key) (scheduled_row new userID key deviceID kind (TrimSpace title) fireAt)))"

definition CreateReminderForDevice :: "int \<Rightarrow> string \<Rightarrow> string \<Rightarrow> string \<Rightarrow> string \<Rightarrow> time \<Rightarrow> unit data_tx" where
  "CreateReminderForDevice new userID key deviceID title fireAt = createScheduled new userID key deviceID ''reminder'' title fireAt"

definition CreateTimerForDevice :: "int \<Rightarrow> string \<Rightarrow> string \<Rightarrow> string \<Rightarrow> string \<Rightarrow> time \<Rightarrow> unit data_tx" where
  "CreateTimerForDevice new userID key deviceID title fireAt = createScheduled new userID key deviceID ''timer'' title fireAt"

text \<open>
  The recorded value has the time as it was given; the encoder refuses years outside 0 to 9999, and the
  transaction is rolled back then.
\<close>

definition encodable :: "time \<Rightarrow> 'v \<Rightarrow> 'v data_tx" where
  "encodable t v = (if json_year_ok t then tx_return v else invalid ''Time.MarshalJSON: year outside of range [0,9999]'')"

definition createScheduledMutation ::
    "int \<Rightarrow> time \<Rightarrow> Request \<Rightarrow> string \<Rightarrow> string \<Rightarrow> string \<Rightarrow> string \<Rightarrow> string \<Rightarrow> time \<Rightarrow> ScheduledItem data_tx" where
  "createScheduledMutation new now request operation userID deviceID kind title fireAt =
     (case check_scheduled (TrimSpace title) fireAt of
        Some e \<Rightarrow> invalid e
      | None \<Rightarrow>
        let row = scheduled_row new userID (Key request) deviceID kind (TrimSpace title) fireAt
        in runMutationValueOf request operation now OScheduled as_scheduled
          (tx_bind (insert_into reminders reminders_update si_ID row) (\<lambda>_.
             encodable fireAt ((ScheduledItem.truncate row)\<lparr>si_FireAt := fireAt\<rparr>))))"

definition CreateReminderMutation :: "int \<Rightarrow> time \<Rightarrow> Request \<Rightarrow> string \<Rightarrow> string \<Rightarrow> string \<Rightarrow> time \<Rightarrow> ScheduledItem data_tx" where
  "CreateReminderMutation new now request userID deviceID title fireAt =
     createScheduledMutation new now request ''reminder.create'' userID deviceID ''reminder'' title fireAt"

definition CreateTimerMutation :: "int \<Rightarrow> time \<Rightarrow> Request \<Rightarrow> string \<Rightarrow> string \<Rightarrow> string \<Rightarrow> time \<Rightarrow> ScheduledItem data_tx" where
  "CreateTimerMutation new now request userID deviceID title fireAt =
     createScheduledMutation new now request ''timer.create'' userID deviceID ''timer'' title fireAt"

definition for_device :: "string \<Rightarrow> string \<Rightarrow> bool" where
  "for_device deviceID d \<longleftrightarrow> TrimSpace deviceID = [] \<or> d = TrimSpace deviceID \<or> d = []"

definition active_status :: "string \<Rightarrow> bool" where
  "active_status s \<longleftrightarrow> s = ''pending'' \<or> s = ''dispatching'' \<or> s = ''sent'' \<or> s = ''paused''"

definition status_wanted :: "string \<Rightarrow> string \<Rightarrow> bool" where
  "status_wanted wanted s \<longleftrightarrow>
     (let w = TrimSpace wanted in if w = ''active'' then active_status s else if w \<noteq> [] \<and> w \<noteq> ''all'' then s = w else True)"

definition listScheduled :: "string \<Rightarrow> string \<Rightarrow> string \<Rightarrow> string \<Rightarrow> int \<Rightarrow> ScheduledItem list data_tx" where
  "listScheduled userID deviceID kind wanted limit =
     query (\<lambda>t. map ScheduledItem.truncate (take (nat (boundedLimit limit)) (sort_key si_FireAt (sort_key si_ID
       (filter (\<lambda>r. si_UserID r = owner userID \<and> si_Kind r = kind \<and> for_device deviceID (si_DeviceID r)
         \<and> status_wanted wanted (si_Status r)) (reminders t))))))"

definition ListReminders :: "string \<Rightarrow> string \<Rightarrow> string \<Rightarrow> int \<Rightarrow> ScheduledItem list data_tx" where
  "ListReminders userID deviceID wanted limit = listScheduled userID deviceID ''reminder'' wanted limit"

definition ListTimers :: "string \<Rightarrow> string \<Rightarrow> string \<Rightarrow> int \<Rightarrow> ScheduledItem list data_tx" where
  "ListTimers userID deviceID wanted limit = listScheduled userID deviceID ''timer'' wanted limit"

definition update_scheduled :: "string \<Rightarrow> int \<Rightarrow> string \<Rightarrow> time \<Rightarrow> unit data_tx" where
  "update_scheduled userID i title fireAt = changed ''scheduled item''
     (update_rows reminders reminders_update (\<lambda>r. si_ID r = i \<and> si_UserID r = owner userID \<and> si_Status r \<noteq> ''fired'')
       (\<lambda>r. r\<lparr>si_Title := title, si_FireAt := pg_ts fireAt, si_Status := ''pending'', si_Attempts := 0,
           si_NextAttempt := None, si_PausedRemainingSeconds := 0\<rparr>))"

definition UpdateScheduledItem :: "string \<Rightarrow> int \<Rightarrow> string \<Rightarrow> time \<Rightarrow> unit data_tx" where
  "UpdateScheduledItem userID i title fireAt =
     (if TrimSpace title = [] \<or> IsZero fireAt then invalid ''title and fire_at are required''
      else update_scheduled userID i (TrimSpace title) fireAt)"

definition UpdateScheduledMutation :: "time \<Rightarrow> Request \<Rightarrow> string \<Rightarrow> int \<Rightarrow> string \<Rightarrow> time \<Rightarrow> unit data_tx" where
  "UpdateScheduledMutation clock request userID i title fireAt =
     (if TrimSpace title = [] \<or> IsZero fireAt then invalid ''title and fire_at are required''
      else runMutationMarker request ''schedule.update'' clock (update_scheduled userID i (TrimSpace title) fireAt))"

text \<open>
  Pausing rounds the time that is left up to whole seconds, in the arithmetic of \<open>int64\<close>; resuming multiplies
  it out again.
\<close>

definition timer_row :: "string \<Rightarrow> int \<Rightarrow> data_tables \<Rightarrow> reminder_row option" where
  "timer_row userID i t = find (\<lambda>r. si_ID r = i \<and> si_UserID r = owner userID) (reminders t)"

definition seconds_left :: "duration \<Rightarrow> int" where
  "seconds_left delta = quot (wrap64 (delta + Second - 1)) Second"

definition pause_timer :: "string \<Rightarrow> int \<Rightarrow> time \<Rightarrow> unit data_tx" where
  "pause_timer userID i now =
     tx_bind (query (timer_row userID i)) (\<lambda>found.
       case found of
         None \<Rightarrow> invalid ''timer not found''
       | Some r \<Rightarrow>
         if si_Kind r \<noteq> ''timer'' then invalid ''scheduled item is not a timer''
         else if si_Status r \<noteq> ''pending'' then invalid (''timer cannot be paused from status '' @ si_Status r)
         else let delta = Sub (si_FireAt r) now
           in if delta \<le> 0 then invalid ''timer is already due''
              else changed ''timer'' (update_rows reminders reminders_update
                (\<lambda>x. si_ID x = i \<and> si_UserID x = owner userID \<and> si_Kind x = ''timer'' \<and> si_Status x = ''pending'')
                (\<lambda>x. x\<lparr>si_Status := ''paused'', si_PausedRemainingSeconds := seconds_left delta, si_Attempts := 0,
                    si_NextAttempt := None\<rparr>)))"

definition resume_timer :: "string \<Rightarrow> int \<Rightarrow> time \<Rightarrow> unit data_tx" where
  "resume_timer userID i now =
     tx_bind (query (timer_row userID i)) (\<lambda>found.
       case found of
         None \<Rightarrow> invalid ''timer not found''
       | Some r \<Rightarrow>
         if si_Kind r \<noteq> ''timer'' then invalid ''scheduled item is not a timer''
         else if si_Status r \<noteq> ''paused'' \<or> si_PausedRemainingSeconds r < 1 then invalid ''timer is not paused''
         else changed ''timer'' (update_rows reminders reminders_update
           (\<lambda>x. si_ID x = i \<and> si_UserID x = owner userID \<and> si_Kind x = ''timer'' \<and> si_Status x = ''paused'')
           (\<lambda>x. x\<lparr>si_Status := ''pending'', si_FireAt := pg_ts (Add now (wrap64 (si_PausedRemainingSeconds r * Second))),
               si_PausedRemainingSeconds := 0, si_Attempts := 0, si_NextAttempt := None\<rparr>)))"

definition committed :: "('t, 'e, unit) tx \<Rightarrow> ('t, 'e, unit) tx" where
  "committed m = in_tx (tx_bind m (\<lambda>_. tx_return (Commit ())))"

definition PauseTimer :: "string \<Rightarrow> int \<Rightarrow> time \<Rightarrow> unit data_tx" where
  "PauseTimer userID i now = committed (pause_timer userID i now)"

definition PauseTimerMutation :: "time \<Rightarrow> Request \<Rightarrow> string \<Rightarrow> int \<Rightarrow> time \<Rightarrow> unit data_tx" where
  "PauseTimerMutation clock request userID i now = runMutationMarker request ''timer.pause'' clock (pause_timer userID i now)"

definition ResumeTimer :: "string \<Rightarrow> int \<Rightarrow> time \<Rightarrow> unit data_tx" where
  "ResumeTimer userID i now = committed (resume_timer userID i now)"

definition ResumeTimerMutation :: "time \<Rightarrow> Request \<Rightarrow> string \<Rightarrow> int \<Rightarrow> time \<Rightarrow> unit data_tx" where
  "ResumeTimerMutation clock request userID i now = runMutationMarker request ''timer.resume'' clock (resume_timer userID i now)"

definition CancelScheduledItem :: "string \<Rightarrow> int \<Rightarrow> unit data_tx" where
  "CancelScheduledItem userID i = changed ''scheduled item''
     (update_rows reminders reminders_update (\<lambda>r. si_ID r = i \<and> si_UserID r = owner userID \<and> active_status (si_Status r))
       (\<lambda>r. r\<lparr>si_Status := ''cancelled''\<rparr>))"

definition CancelScheduledMutation :: "time \<Rightarrow> Request \<Rightarrow> string \<Rightarrow> int \<Rightarrow> unit data_tx" where
  "CancelScheduledMutation clock request userID i =
     runMutationMarker request ''schedule.cancel'' clock (CancelScheduledItem userID i)"

definition DeleteScheduledItem :: "string \<Rightarrow> int \<Rightarrow> unit data_tx" where
  "DeleteScheduledItem userID i = changed ''scheduled item''
     (delete_rows reminders reminders_update (\<lambda>r. si_ID r = i \<and> si_UserID r = owner userID))"

definition DeleteScheduledMutation :: "time \<Rightarrow> Request \<Rightarrow> string \<Rightarrow> int \<Rightarrow> unit data_tx" where
  "DeleteScheduledMutation clock request userID i =
     runMutationMarker request ''schedule.delete'' clock (DeleteScheduledItem userID i)"

section \<open>Voice memos\<close>

definition memo_entry :: "int \<Rightarrow> string \<Rightarrow> string \<Rightarrow> string \<Rightarrow> string \<Rightarrow> string \<Rightarrow> int \<Rightarrow> time \<Rightarrow> memo_row" where
  "memo_entry new userID key deviceID path transcript durationMS now =
     \<lparr>vm_ID = new, vm_UserID = owner userID, vm_DeviceID = TrimSpace deviceID, vm_Path = path,
      vm_Transcript = TrimSpace transcript, vm_DurationMS = durationMS, vm_CreatedAt = pg_ts now, vm_key = key\<rparr>"

definition check_memo :: "string \<Rightarrow> int \<Rightarrow> string option" where
  "check_memo path durationMS =
     (if path = [] then Some ''voice memo path is required''
      else if durationMS < 0 then Some ''voice memo duration must be non-negative'' else None)"

definition CreateVoiceMemo :: "int \<Rightarrow> time \<Rightarrow> string \<Rightarrow> string \<Rightarrow> string \<Rightarrow> string \<Rightarrow> string \<Rightarrow> int \<Rightarrow> unit data_tx" where
  "CreateVoiceMemo new now userID key deviceID path transcript durationMS =
     (case check_memo (TrimSpace path) durationMS of
        Some e \<Rightarrow> invalid e
      | None \<Rightarrow> locked_tx (insert_unless voice_memos voice_memos_update vm_ID
          (\<lambda>m. vm_UserID m = owner userID \<and> vm_key m = key)
          (memo_entry new userID key deviceID (TrimSpace path) transcript durationMS now)))"

definition CreateVoiceMemoMutation ::
    "int \<Rightarrow> time \<Rightarrow> Request \<Rightarrow> string \<Rightarrow> string \<Rightarrow> string \<Rightarrow> string \<Rightarrow> int \<Rightarrow> VoiceMemo data_tx" where
  "CreateVoiceMemoMutation new now request userID deviceID path transcript durationMS =
     (case check_memo (TrimSpace path) durationMS of
        Some e \<Rightarrow> invalid e
      | None \<Rightarrow>
        let row = memo_entry new userID (Key request) deviceID (TrimSpace path) transcript durationMS now
        in runMutationValueOf request ''voice_memo.save'' now OMemo as_memo
          (tx_bind (insert_into voice_memos voice_memos_update vm_ID row) (\<lambda>_.
             encodable now ((VoiceMemo.truncate row)\<lparr>vm_CreatedAt := now\<rparr>))))"

text \<open>The lookup of the committed outcome, on the identity as the request has it.\<close>

definition ReplayVoiceMemoMutation :: "Request \<Rightarrow> VoiceMemo option data_tx" where
  "ReplayVoiceMemoMutation request =
     (case requireMutationOperation request ''voice_memo.save'' of
        Some e \<Rightarrow> invalid e
      | None \<Rightarrow>
        tx_bind (query (find_record (Actor request, Operation request, Key request))) (\<lambda>found.
          case found of
            None \<Rightarrow> tx_return None
          | Some rec \<Rightarrow>
            if \<not> EqualHash (rec_hash rec) (RequestHash request) then tx_fail (Conflict (Operation request) (Key request))
            else case as_memo (rec_outcome rec) of
                   None \<Rightarrow> invalid ''decode committed voice memo outcome''
                 | Some m \<Rightarrow> tx_return (Some m)))"

definition VoiceMemoByKey :: "string \<Rightarrow> string \<Rightarrow> VoiceMemo option data_tx" where
  "VoiceMemoByKey userID key = query (\<lambda>t. map_option VoiceMemo.truncate
     (find (\<lambda>m. vm_UserID m = owner userID \<and> vm_key m = key) (voice_memos t)))"

definition VoiceMemoByID :: "string \<Rightarrow> int \<Rightarrow> VoiceMemo option data_tx" where
  "VoiceMemoByID userID i = query (\<lambda>t. map_option VoiceMemo.truncate
     (find (\<lambda>m. vm_UserID m = owner userID \<and> vm_ID m = i) (voice_memos t)))"

record VoiceMemoQuery =
  mq_DeviceID :: string
  mq_From :: time
  mq_To :: time
  mq_Search :: string
  mq_Limit :: int

definition QueryVoiceMemos :: "(string \<Rightarrow> string \<Rightarrow> bool) \<Rightarrow> string \<Rightarrow> VoiceMemoQuery \<Rightarrow> VoiceMemo list data_tx" where
  "QueryVoiceMemos ilike userID q =
     query (\<lambda>t. map VoiceMemo.truncate (newest_first vm_ID (boundedLimit (mq_Limit q)) (filter (\<lambda>m. vm_UserID m = owner userID
       \<and> for_device (mq_DeviceID q) (vm_DeviceID m)
       \<and> (IsZero (mq_From q) \<or> pg_ts (mq_From q) \<le> vm_CreatedAt m) \<and> (IsZero (mq_To q) \<or> vm_CreatedAt m < pg_ts (mq_To q))
       \<and> (TrimSpace (mq_Search q) = [] \<or> ilike (vm_Transcript m) (''%'' @ TrimSpace (mq_Search q) @ ''%''))) (voice_memos t))))"

definition ListVoiceMemos :: "(string \<Rightarrow> string \<Rightarrow> bool) \<Rightarrow> string \<Rightarrow> string \<Rightarrow> int \<Rightarrow> VoiceMemo list data_tx" where
  "ListVoiceMemos ilike userID deviceID limit =
     QueryVoiceMemos ilike userID \<lparr>mq_DeviceID = deviceID, mq_From = 0, mq_To = 0, mq_Search = [], mq_Limit = limit\<rparr>"

definition DeleteVoiceMemo :: "string \<Rightarrow> int \<Rightarrow> unit data_tx" where
  "DeleteVoiceMemo userID i =
     changed ''voice memo'' (delete_rows voice_memos voice_memos_update (\<lambda>m. vm_ID m = i \<and> vm_UserID m = owner userID))"

definition DeleteVoiceMemoMutation :: "time \<Rightarrow> Request \<Rightarrow> string \<Rightarrow> int \<Rightarrow> VoiceMemo data_tx" where
  "DeleteVoiceMemoMutation now request userID i =
     (if i < 1 then invalid ''voice memo id is required''
      else runMutationValueOf request ''voice_memo.delete'' now OMemo as_memo
        (tx_bind (VoiceMemoByID userID i) (\<lambda>found.
           case found of
             None \<Rightarrow> invalid ''voice memo not found''
           | Some m \<Rightarrow> tx_bind (DeleteVoiceMemo userID i) (\<lambda>_. tx_return m))))"

section \<open>Savings progress\<close>

text \<open>
  The bound on a target keeps the arithmetic of the progress exact, as long as the sum of the expenses stays
  that bound below the range of \<open>int64\<close>; the status then says how the rest of the budget compares with the target.
\<close>

lemma savings_exact:
  assumes "ValidateSavingsTarget (sg_TargetVND g) = None" "0 \<le> budget" "in_int64 budget" "0 \<le> spent"
    and "spent \<le> int64_max - MaxSavingsTargetVND"
    and p_def: "p = CalculateSavingsProgress (Some g) period start stop spent (Some budget)"
  shows "sp_BudgetRemainingVND p = Some (budget - spent)" "sp_HeadroomVsTargetVND p = Some (budget - spent - sg_TargetVND g)"
    "sp_Status p = (if budget < spent then ''over_budget'' else if spent + sg_TargetVND g \<le> budget
       then ''budget_headroom_covers_target'' else ''budget_headroom_below_target'')"
proof -
  have w: "wrap64 (budget - spent) = budget - spent" "wrap64 (budget - spent - sg_TargetVND g) = budget - spent - sg_TargetVND g"
    using assms(1-5) by (auto intro!: wrap64_id simp: in_int64_def int64_min_def int64_max_def ValidateSavingsTarget_def
        MinSavingsTargetVND_def MaxSavingsTargetVND_def split: if_splits)
  show "sp_BudgetRemainingVND p = Some (budget - spent)" "sp_HeadroomVsTargetVND p = Some (budget - spent - sg_TargetVND g)"
    "sp_Status p = (if budget < spent then ''over_budget'' else if spent + sg_TargetVND g \<le> budget
       then ''budget_headroom_covers_target'' else ''budget_headroom_below_target'')"
    unfolding p_def CalculateSavingsProgress_def by (auto simp: Let_def w)
qed

end
