(* ===== verification/Scheduler.thy ===== *)
theory Scheduler
  imports Personal_Data Protocol
begin

text \<open>
  The delivery of reminders: the store calls of \<open>pgstore/background.go\<close> that claim due reminders and move them
  on, the session hub of \<open>server/hub.go\<close> that addresses the connected devices, and the scheduler of
  \<open>server/scheduler.go\<close>. The loops over Go maps run in an order the language leaves open; the model takes the
  order of registration. What the connection of a session does with a frame that has been encoded is an
  argument, \<open>accepts\<close>; a payload that its validation refuses is not sent at all.
\<close>

section \<open>The store\<close>

definition due_at :: "reminder_row \<Rightarrow> time" where
  "due_at r = (case si_NextAttempt r of None \<Rightarrow> si_FireAt r | Some n \<Rightarrow> n)"

definition due :: "time \<Rightarrow> reminder_row \<Rightarrow> bool" where
  "due now r \<longleftrightarrow> si_Status r = ''pending'' \<and> si_FireAt r \<le> pg_ts now
     \<or> si_Status r = ''sent'' \<and> (case si_NextAttempt r of None \<Rightarrow> False | Some n \<Rightarrow> n \<le> pg_ts now)"

text \<open>\<open>locked\<close> holds of the rows that another transaction has locked (\<open>SKIP LOCKED\<close>).\<close>

definition claimable :: "(int \<Rightarrow> bool) \<Rightarrow> time \<Rightarrow> nat \<Rightarrow> data_tables \<Rightarrow> reminder_row list" where
  "claimable locked now limit t =
     take limit (sort_key due_at (sort_key si_ID (filter (\<lambda>r. due now r \<and> \<not> locked (si_ID r)) (reminders t))))"

definition ClaimDueReminders :: "(int \<Rightarrow> bool) \<Rightarrow> time \<Rightarrow> int \<Rightarrow> ScheduledItem list data_tx" where
  "ClaimDueReminders locked now limit =
     (let limit = (if limit \<le> 0 \<or> limit > 100 then 32 else limit)
      in in_tx (tx_bind (query (claimable locked now (nat limit))) (\<lambda>items.
           tx_bind (if items = [] then tx_return 0
                    else update_rows reminders reminders_update (\<lambda>r. si_ID r \<in> si_ID ` set items)
                      (\<lambda>r. r\<lparr>si_Status := ''dispatching''\<rparr>)) (\<lambda>_.
           tx_return (Commit (map ScheduledItem.truncate items))))))"

definition RecoverDispatchingReminders :: "nat data_tx" where
  "RecoverDispatchingReminders =
     update_rows reminders reminders_update (\<lambda>r. si_Status r = ''dispatching'') (\<lambda>r. r\<lparr>si_Status := ''pending''\<rparr>)"

definition MarkReminderSent :: "int \<Rightarrow> time \<Rightarrow> unit data_tx" where
  "MarkReminderSent i next = changed ''reminder''
     (update_rows reminders reminders_update (\<lambda>r. si_ID r = i \<and> si_Status r = ''dispatching'')
       (\<lambda>r. r\<lparr>si_Status := ''sent'', si_Attempts := si_Attempts r + 1, si_NextAttempt := Some (pg_ts next)\<rparr>))"

definition ReleaseReminder :: "int \<Rightarrow> unit data_tx" where
  "ReleaseReminder i = changed ''reminder''
     (update_rows reminders reminders_update (\<lambda>r. si_ID r = i \<and> si_Status r = ''dispatching'')
       (\<lambda>r. r\<lparr>si_Status := ''pending'', si_NextAttempt := None\<rparr>))"

definition AcknowledgeReminder :: "string \<Rightarrow> string \<Rightarrow> int \<Rightarrow> unit data_tx" where
  "AcknowledgeReminder userID deviceID i = changed ''reminder''
     (update_rows reminders reminders_update (\<lambda>r. si_ID r = i \<and> si_UserID r = owner userID
         \<and> (si_DeviceID r = TrimSpace deviceID \<or> si_DeviceID r = []) \<and> (si_Status r = ''dispatching'' \<or> si_Status r = ''sent''))
       (\<lambda>r. r\<lparr>si_Status := ''fired'', si_NextAttempt := None\<rparr>))"

definition NextReminder :: "string \<Rightarrow> string \<Rightarrow> time \<Rightarrow> ScheduledItem option data_tx" where
  "NextReminder userID deviceID now =
     query (\<lambda>t. case sort_key si_FireAt (sort_key si_ID (filter (\<lambda>r. si_UserID r = owner userID
         \<and> (si_DeviceID r = TrimSpace deviceID \<or> si_DeviceID r = [])
         \<and> (si_Status r = ''pending'' \<or> si_Status r = ''sent'') \<and> pg_ts now \<le> si_FireAt r) (reminders t))) of
       [] \<Rightarrow> None | r # _ \<Rightarrow> Some (ScheduledItem.truncate r))"

section \<open>The hub\<close>

record hub_session =
  hs_ref :: nat
  hs_userID :: string
  hs_tenantID :: string
  hs_plan :: string

type_synonym hub = "(string \<times> hub_session list) list"

fun hub_register :: "string \<Rightarrow> hub_session \<Rightarrow> hub \<Rightarrow> hub" where
  "hub_register deviceID s [] = [(deviceID, [s])]"
| "hub_register deviceID s ((d, ss) # h) =
     (if d = deviceID then (d, if s \<in> set ss then ss else ss @ [s]) # h else (d, ss) # hub_register deviceID s h)"

definition hub_unregister :: "string \<Rightarrow> hub_session \<Rightarrow> hub \<Rightarrow> hub" where
  "hub_unregister deviceID s h =
     filter (\<lambda>e. fst e \<noteq> deviceID \<or> snd e \<noteq> []) (map (\<lambda>(d, ss). (d, if d = deviceID then filter (\<lambda>x. x \<noteq> s) ss else ss)) h)"

definition hub_sessions :: "hub \<Rightarrow> (string \<times> hub_session) list" where
  "hub_sessions h = concat (map (\<lambda>(d, ss). map (Pair d) ss) h)"

record hubIdentity =
  hi_UserID :: string
  hi_DeviceID :: string
  hi_TenantID :: string
  hi_Plan :: string

definition identity_of :: "string \<times> hub_session \<Rightarrow> hubIdentity" where
  "identity_of ds = \<lparr>hi_UserID = hs_userID (snd ds), hi_DeviceID = fst ds, hi_TenantID = hs_tenantID (snd ds), hi_Plan = hs_plan (snd ds)\<rparr>"

definition identities :: "hub \<Rightarrow> hubIdentity list" where
  "identities h = fold (\<lambda>i seen. if i \<in> set seen then seen else seen @ [i]) (map identity_of (hub_sessions h)) []"

definition targets :: "hub \<Rightarrow> string \<Rightarrow> string \<Rightarrow> hub_session list" where
  "targets h userID deviceID =
     map snd (filter (\<lambda>(d, s). (userID = [] \<or> hs_userID s = userID) \<and> (deviceID = [] \<or> d = deviceID)) (hub_sessions h))"

text \<open>The letters of Vietnamese that \<open>oledText\<close> replaces, by code point, under the letter they become.\<close>

definition oled_letters :: "(char \<times> nat list) list" where
  "oled_letters =
    [(CHR ''a'', [224, 225, 7841, 7843, 227, 226, 7847, 7845, 7853, 7849, 7851, 259, 7857, 7855, 7863, 7859, 7861]),
     (CHR ''e'', [232, 233, 7865, 7867, 7869, 234, 7873, 7871, 7879, 7875, 7877]),
     (CHR ''i'', [236, 237, 7883, 7881, 297]),
     (CHR ''o'', [242, 243, 7885, 7887, 245, 244, 7891, 7889, 7897, 7893, 7895, 417, 7901, 7899, 7907, 7903, 7905]),
     (CHR ''u'', [249, 250, 7909, 7911, 361, 432, 7915, 7913, 7921, 7917, 7919]),
     (CHR ''y'', [7923, 253, 7925, 7927, 7929]),
     (CHR ''d'', [273]),
     (CHR ''A'', [192, 193, 7840, 7842, 195, 194, 7846, 7844, 7852, 7848, 7850, 258, 7856, 7854, 7862, 7858, 7860]),
     (CHR ''E'', [200, 201, 7864, 7866, 7868, 202, 7872, 7870, 7878, 7874, 7876]),
     (CHR ''I'', [204, 205, 7882, 7880, 296]),
     (CHR ''O'', [210, 211, 7884, 7886, 213, 212, 7890, 7888, 7896, 7892, 7894, 416, 7900, 7898, 7906, 7902, 7904]),
     (CHR ''U'', [217, 218, 7908, 7910, 360, 431, 7914, 7912, 7920, 7916, 7918]),
     (CHR ''Y'', [7922, 221, 7924, 7926, 7928]),
     (CHR ''D'', [272])]"

definition oledText :: "string \<Rightarrow> string" where
  "oledText value = concat (map (\<lambda>(r, bytes).
     case find (\<lambda>(c, rs). r \<in> set rs) oled_letters of Some (c, _) \<Rightarrow> [c] | None \<Rightarrow> bytes) (runes value))"

text \<open>\<open>Format(time.RFC3339)\<close> has no fraction of a second.\<close>

definition rfc3339_seconds :: "time \<Rightarrow> string" where
  "rfc3339_seconds t = rfc3339 (t div Second * Second)"

definition alarm_payload :: "ScheduledItem \<Rightarrow> AlarmFiredPayload" where
  "alarm_payload item = \<lparr>af_AlarmID = ''reminder-'' @ FormatInt (si_ID item), af_Message = oledText (si_Title item),
     af_FireAt = rfc3339_seconds (si_FireAt item)\<rparr>"

definition pushAlarm :: "(hub_session \<Rightarrow> AlarmFiredPayload \<Rightarrow> bool) \<Rightarrow> hub \<Rightarrow> ScheduledItem \<Rightarrow> nat" where
  "pushAlarm accepts h item =
     length (filter (\<lambda>s. AlarmFiredPayload_Validate (alarm_payload item) = None \<and> accepts s (alarm_payload item))
       (targets h (si_UserID item) (si_DeviceID item)))"

text \<open>The sessions a schedule update reaches.\<close>

definition pushSchedule :: "(hub_session \<Rightarrow> string \<times> string \<Rightarrow> bool) \<Rightarrow> hub \<Rightarrow> string \<Rightarrow> string \<Rightarrow> string \<Rightarrow> string \<Rightarrow> hub_session list" where
  "pushSchedule accepts h userID deviceID summary fireAt =
     filter (\<lambda>s. ScheduleUpdatedPayload_Validate (oledText summary) fireAt = None \<and> accepts s (oledText summary, fireAt))
       (targets h userID deviceID)"

section \<open>The scheduler\<close>

definition retryDelay :: "int \<Rightarrow> duration" where
  "retryDelay attempt =
     (let attempt = (if attempt < 1 then 1 else attempt);
          d = wrap64 (5 * Second * 2 ^ nat (min (attempt - 1) 4))
      in if d > Minute then Minute else d)"

text \<open>
  One round of deliveries. \<open>sent\<close> is the number of sessions an alarm reaches, \<open>others\<close> what the other
  connections do to the tables while it is pushed, \<open>clock\<close> the time after the push.
\<close>

definition meanwhile :: "(data_tables \<Rightarrow> data_tables) \<Rightarrow> unit data_tx" where
  "meanwhile f d = (Inr (), d\<lparr>tables := f (tables d)\<rparr>)"

fun dispatch_items ::
    "(ScheduledItem \<Rightarrow> nat) \<Rightarrow> (ScheduledItem \<Rightarrow> data_tables \<Rightarrow> data_tables) \<Rightarrow> (ScheduledItem \<Rightarrow> time) \<Rightarrow> ScheduledItem list \<Rightarrow> unit data_tx" where
  "dispatch_items sent others clock [] = tx_return ()"
| "dispatch_items sent others clock (item # items) =
     tx_bind (meanwhile (others item)) (\<lambda>_.
     tx_bind (if sent item = 0 then ReleaseReminder (si_ID item)
              else MarkReminderSent (si_ID item) (Add (clock item) (retryDelay (si_Attempts item + 1)))) (\<lambda>_.
     dispatch_items sent others clock items))"

definition dispatchDue ::
    "(ScheduledItem \<Rightarrow> nat) \<Rightarrow> (ScheduledItem \<Rightarrow> data_tables \<Rightarrow> data_tables) \<Rightarrow> (ScheduledItem \<Rightarrow> time) \<Rightarrow> (int \<Rightarrow> bool) \<Rightarrow> time \<Rightarrow> unit data_tx" where
  "dispatchDue sent others clock locked now = tx_bind (ClaimDueReminders locked now 32) (dispatch_items sent others clock)"

text \<open>
  The refresh of the schedules. \<open>local\<close> gives the texts of an instant in the location of the server, in the
  formats RFC 3339 and \<open>15:04\<close>; \<open>now\<close> is the clock when an identity is served. The cache is the map \<open>lastNext\<close>.
\<close>

definition cache_key :: "hubIdentity \<Rightarrow> string" where
  "cache_key i = hi_UserID i @ [CHR 0x00] @ hi_DeviceID i"

definition schedule_texts :: "(time \<Rightarrow> string \<times> string) \<Rightarrow> ScheduledItem option \<Rightarrow> string \<times> string \<times> string" where
  "schedule_texts local next =
     (case next of
        None \<Rightarrow> ([], [], [])
      | Some x \<Rightarrow> (fst (local (si_FireAt x)) @ ''|'' @ si_Title x, snd (local (si_FireAt x)) @ '' '' @ si_Title x,
                   rfc3339_seconds (si_FireAt x)))"

type_synonym schedule_push = "string \<times> string \<times> string \<times> string"

fun refresh_all ::
    "(time \<Rightarrow> string \<times> string) \<Rightarrow> (hubIdentity \<Rightarrow> time) \<Rightarrow> hubIdentity list \<Rightarrow> (string \<rightharpoonup> string) \<Rightarrow> data_tables db
      \<Rightarrow> schedule_push list \<times> (string \<rightharpoonup> string) \<times> data_tables db" where
  "refresh_all local now [] cache d = ([], cache, d)"
| "refresh_all local now (i # is) cache d =
     (case NextReminder (hi_UserID i) (hi_DeviceID i) (now i) d of
        (Inl _, d') \<Rightarrow> ([], cache, d')
      | (Inr next, d') \<Rightarrow>
        case schedule_texts local next of
          (key, summary, fireAt) \<Rightarrow>
            if cache (cache_key i) = Some key then refresh_all local now is cache d'
            else case refresh_all local now is (cache(cache_key i \<mapsto> key)) d' of
                   (ps, cache', d'') \<Rightarrow> ((hi_UserID i, hi_DeviceID i, summary, fireAt) # ps, cache', d''))"

definition refreshSchedules where
  "refreshSchedules local now h cache d = refresh_all local now (identities h) cache d"

text \<open>One tick, and the run of the scheduler as the sequence of its ticks after the recovery.\<close>

record tick_env =
  te_hub :: hub
  te_accepts :: "hub_session \<Rightarrow> AlarmFiredPayload \<Rightarrow> bool"
  te_others :: "ScheduledItem \<Rightarrow> data_tables \<Rightarrow> data_tables"
  te_clock :: "ScheduledItem \<Rightarrow> time"
  te_locked :: "int \<Rightarrow> bool"
  te_now :: time
  te_later :: "hubIdentity \<Rightarrow> time"

definition tick :: "(time \<Rightarrow> string \<times> string) \<Rightarrow> tick_env \<Rightarrow> (string \<rightharpoonup> string) \<times> data_tables db \<Rightarrow> (string \<rightharpoonup> string) \<times> data_tables db" where
  "tick local e s =
     (let d = snd (dispatchDue (pushAlarm (te_accepts e) (te_hub e)) (te_others e) (te_clock e) (te_locked e) (te_now e) (snd s))
      in snd (refreshSchedules local (te_later e) (te_hub e) (fst s) d))"

definition run_scheduler :: "(time \<Rightarrow> string \<times> string) \<Rightarrow> tick_env list \<Rightarrow> data_tables db \<Rightarrow> (string \<rightharpoonup> string) \<times> data_tables db" where
  "run_scheduler local es d = fold (tick local) es (\<lambda>_. None, snd (RecoverDispatchingReminders d))"

end
