(* ===== verification/Data_Isolation.thy ===== *)
theory Data_Isolation
  imports Personal_Data
begin

text \<open>
  What the writes to the personal data keep. The first part lifts an invariant of the tables through the
  statements, transactions and recorded mutations of \<open>Personal_Data\<close>. The second part collects the writes a
  user can issue, and shows that none of them touches, or is seen in, the data of another user.
\<close>

section \<open>Invariants through the writes\<close>

lemma RunIdempotent_preserves:
  fixes m :: "(('o, 'z) idem_tables_scheme, 'e, 'v) tx"
  assumes "preserves I m" "\<And>t rec t'. I t \<Longrightarrow> insert_record rec t = Some ((), t') \<Longrightarrow> I t'"
  shows "preserves I (RunIdempotent r enc c m)"
  unfolding preserves_def
proof (intro allI impI)
  fix d :: "('o, 'z) idem_tables_scheme db"
  assume I: "I (tables d)"
  have k: "keeps I (RunIdempotent r enc c m)"
    by (rule RunIdempotent_keeps) (use assms in \<open>auto intro!: keepsI dest: preservesD\<close>)
  obtain res d' where run: "RunIdempotent r enc c m d = (res, d')" by force
  show "I (tables (snd (RunIdempotent r enc c m d)))"
    by (cases res) (use run I k in \<open>auto dest: RunIdempotent_Inl_tables keepsD\<close>)
qed

text \<open>An invariant that does not look at the ledger.\<close>

definition ledger_free :: "(data_tables \<Rightarrow> bool) \<Rightarrow> bool" where
  "ledger_free I \<longleftrightarrow> (\<forall>t rs. I t \<longrightarrow> I (t\<lparr>idempotency_records := rs\<rparr>))"

lemma ledger_freeD: "ledger_free I \<Longrightarrow> I t \<Longrightarrow> insert_record rec t = Some ((), t') \<Longrightarrow> I t'"
  by (auto simp: ledger_free_def insert_record_def split: if_splits)

lemma preserves_invalid: "preserves I (invalid e)"
  by (simp add: invalid_def preserves_fail)

lemma preserves_insert_into:
  "(\<And>t. I t \<Longrightarrow> key r \<notin> key ` set (get t) \<Longrightarrow> I (upd (\<lambda>rows. rows @ [r]) t)) \<Longrightarrow> preserves I (insert_into get upd key r)"
  unfolding insert_into_def by (rule preserves_stmt) (auto split: if_splits)

lemma preserves_insert_unless:
  "(\<And>t. I t \<Longrightarrow> key r \<notin> key ` set (get t) \<Longrightarrow> I (upd (\<lambda>rows. rows @ [r]) t)) \<Longrightarrow> preserves I (insert_unless get upd key P r)"
  unfolding insert_unless_def by (rule preserves_stmt) (auto split: if_splits)

lemma preserves_update_rows:
  "(\<And>t. I t \<Longrightarrow> I (upd (update_where P g) t)) \<Longrightarrow> preserves I (update_rows get upd P g)"
  unfolding update_rows_def by (rule preserves_stmt) auto

lemma preserves_delete_rows:
  "(\<And>t. I t \<Longrightarrow> I (upd (filter (\<lambda>r. \<not> P r)) t)) \<Longrightarrow> preserves I (delete_rows get upd P)"
  unfolding delete_rows_def by (rule preserves_stmt) auto

lemma preserves_upsert:
  "(\<And>t. I t \<Longrightarrow> I (upd (update_where (\<lambda>x. key x = key r) g) t)) \<Longrightarrow> (\<And>t. I t \<Longrightarrow> I (upd (\<lambda>rows. rows @ [r]) t)) \<Longrightarrow>
     preserves I (upsert get upd key g r)"
  unfolding upsert_def by (rule preserves_stmt) auto

lemma preserves_changed: "preserves I m \<Longrightarrow> preserves I (changed label m)"
  by (auto simp: changed_def requireRowsChanged_def)

lemma preserves_committed: "preserves I m \<Longrightarrow> preserves I (committed m)"
  unfolding committed_def by (rule preserves_in_tx) (auto simp: tx_Inr dest: preservesD)

lemma preserves_locked_tx: "preserves I m \<Longrightarrow> preserves I (locked_tx m)"
  unfolding locked_tx_def
  by (rule preserves_in_tx) (auto simp: tx_Inr, metis preservesD tables_next_call)

lemma preserves_marker: "preserves I m \<Longrightarrow> ledger_free I \<Longrightarrow> preserves I (runMutationMarker request operation now m)"
  unfolding runMutationMarker_def
  by (intro preserves_option preserves_bind RunIdempotent_preserves preserves_invalid preserves_return)
     (auto dest: ledger_freeD)

lemma preserves_value: "preserves I m \<Longrightarrow> ledger_free I \<Longrightarrow> preserves I (runMutationValueOf request operation now enc dec m)"
  unfolding runMutationValueOf_def
  by (intro preserves_option preserves_bind RunIdempotent_preserves preserves_invalid preserves_return)
     (auto dest: ledger_freeD)

lemma preserves_with_period: "(\<And>p. preserves I (f p)) \<Longrightarrow> preserves I (with_period period f)"
  unfolding with_period_def by (intro preserves_option preserves_invalid)

lemma preserves_encodable: "preserves I (encodable t v)"
  by (simp add: encodable_def preserves_invalid preserves_return)

lemma preserves_insert_items:
  "(\<And>r. ex_UserID r = owner userID \<Longrightarrow> preserves I (ins r)) \<Longrightarrow> preserves I (insert_items ins ids userID key n i xs)"
  by (induction xs arbitrary: i) (auto simp: expense_row_def)

lemma preserves_guard: "(b \<Longrightarrow> preserves I m) \<Longrightarrow> (\<not> b \<Longrightarrow> preserves I m') \<Longrightarrow> preserves I (if b then m else m')"
  by simp

lemmas preserves_writes = preserves_invalid preserves_insert_into preserves_insert_unless preserves_update_rows
  preserves_delete_rows preserves_upsert preserves_changed preserves_committed preserves_locked_tx preserves_marker
  preserves_value preserves_with_period preserves_encodable preserves_option preserves_guard preserves_return

section \<open>The writes of a user\<close>

definition quietly :: "'a data_tx \<Rightarrow> unit data_tx" where
  "quietly m = tx_bind m (\<lambda>_. tx_return ())"

lemma preserves_quietly: "preserves I m \<Longrightarrow> preserves I (quietly m)"
  by (auto simp: quietly_def)

text \<open>All writes but the deletion of a scheduled item, and that one.\<close>

inductive edits :: "string \<Rightarrow> unit data_tx \<Rightarrow> bool" for u where
  note_create: "edits u (CreateNote new now u key content)"
| note_create_m: "edits u (CreateNoteMutation new now request u content)"
| note_update: "edits u (UpdateNote u i content)"
| note_update_m: "edits u (UpdateNoteMutation now request u i content)"
| note_delete: "edits u (DeleteNote u i)"
| note_delete_m: "edits u (DeleteNoteMutation now request u i)"
| expenses_create: "edits u (CreateExpenses ids u key items)"
| expenses_create_m: "edits u (CreateExpensesMutation ids now request u items)"
| expense_create: "edits u (CreateExpense ids u key amount category description occurredAt)"
| expense_create_m: "edits u (CreateExpenseMutation new now request u amount category description occurredAt)"
| expense_update: "edits u (UpdateExpense u i amount category description occurredAt)"
| expense_update_m: "edits u (UpdateExpenseMutation now request u i amount category description occurredAt)"
| expense_delete: "edits u (DeleteExpense u i)"
| expense_delete_m: "edits u (DeleteExpenseMutation now request u i)"
| budget_set: "edits u (SetBudget u period limit)"
| budget_set_m: "edits u (SetBudgetMutation now request u period limit)"
| budget_delete: "edits u (DeleteBudget u period)"
| budget_delete_m: "edits u (DeleteBudgetMutation now request u period)"
| goal_set: "edits u (SetSavingsGoal now u period target description effectiveFrom)"
| goal_set_m: "edits u (SetSavingsGoalMutation now request u period target description effectiveFrom)"
| goal_delete: "edits u (DeleteSavingsGoal u period)"
| goal_delete_m: "edits u (DeleteSavingsGoalMutation now request u period)"
| journal_create: "edits u (CreateJournal new u key content occurredAt)"
| journal_create_m: "edits u (CreateJournalMutation new now request u content occurredAt)"
| journal_update: "edits u (UpdateJournal u i content occurredAt)"
| journal_update_m: "edits u (UpdateJournalMutation now request u i content occurredAt)"
| journal_delete: "edits u (DeleteJournal u i)"
| journal_delete_m: "edits u (DeleteJournalMutation now request u i)"
| reminder_create: "edits u (CreateReminderForDevice new u key deviceID title fireAt)"
| timer_create: "edits u (CreateTimerForDevice new u key deviceID title fireAt)"
| reminder_create_m: "edits u (quietly (CreateReminderMutation new now request u deviceID title fireAt))"
| timer_create_m: "edits u (quietly (CreateTimerMutation new now request u deviceID title fireAt))"
| scheduled_update: "edits u (UpdateScheduledItem u i title fireAt)"
| scheduled_update_m: "edits u (UpdateScheduledMutation clock request u i title fireAt)"
| timer_pause: "edits u (PauseTimer u i now)"
| timer_pause_m: "edits u (PauseTimerMutation clock request u i now)"
| timer_resume: "edits u (ResumeTimer u i now)"
| timer_resume_m: "edits u (ResumeTimerMutation clock request u i now)"
| scheduled_cancel: "edits u (CancelScheduledItem u i)"
| scheduled_cancel_m: "edits u (CancelScheduledMutation clock request u i)"
| memo_create: "edits u (CreateVoiceMemo new now u key deviceID path transcript durationMS)"
| memo_create_m: "edits u (quietly (CreateVoiceMemoMutation new now request u deviceID path transcript durationMS))"
| memo_delete: "edits u (DeleteVoiceMemo u i)"
| memo_delete_m: "edits u (quietly (DeleteVoiceMemoMutation now request u i))"

inductive removes :: "string \<Rightarrow> unit data_tx \<Rightarrow> bool" for u where
  scheduled_delete: "removes u (DeleteScheduledItem u i)"
| scheduled_delete_m: "removes u (DeleteScheduledMutation clock request u i)"

definition writes :: "string \<Rightarrow> unit data_tx \<Rightarrow> bool" where
  "writes u m \<longleftrightarrow> edits u m \<or> removes u m"

section \<open>Other users\<close>

text \<open>All a user owns.\<close>

definition rows_of :: "string \<Rightarrow> data_tables \<Rightarrow>
    note_row list \<times> expense_entry list \<times> budget_row list \<times> SavingsGoal list \<times> journal_entry list \<times> reminder_row list \<times> memo_row list" where
  "rows_of v t =
     (filter (\<lambda>r. nt_UserID r = v) (note_rows t), filter (\<lambda>r. ex_UserID r = v) (expenses t),
      filter (\<lambda>r. bg_user_id r = v) (budgets t), filter (\<lambda>r. sg_UserID r = v) (savings_goals t),
      filter (\<lambda>r. jn_UserID r = v) (journal_entries t), filter (\<lambda>r. si_UserID r = v) (reminders t),
      filter (\<lambda>r. vm_UserID r = v) (voice_memos t))"

lemma filter_update_where:
  "(\<And>r. P r \<Longrightarrow> \<not> Q r \<and> \<not> Q (g r)) \<Longrightarrow> filter Q (update_where P g rows) = filter Q rows"
  by (induction rows) (auto simp: update_where_def)

lemma ledger_free_rows_of: "ledger_free (\<lambda>t. rows_of v t = R)"
  by (simp add: ledger_free_def rows_of_def)

lemmas write_defs = CreateNote_def CreateNoteMutation_def UpdateNote_def UpdateNoteMutation_def update_note_def
  DeleteNote_def DeleteNoteMutation_def CreateExpenses_def CreateExpensesMutation_def CreateExpense_def
  CreateExpenseMutation_def UpdateExpense_def UpdateExpenseMutation_def update_expense_def DeleteExpense_def
  DeleteExpenseMutation_def SetBudget_def SetBudgetMutation_def put_budget_def DeleteBudget_def DeleteBudgetMutation_def
  delete_budget_def [abs_def] SetSavingsGoal_def SetSavingsGoalMutation_def put_goal_def DeleteSavingsGoal_def
  DeleteSavingsGoalMutation_def delete_goal_def [abs_def] CreateJournal_def CreateJournalMutation_def UpdateJournal_def
  UpdateJournalMutation_def update_journal_def DeleteJournal_def DeleteJournalMutation_def

lemmas scheduled_defs = CreateReminderForDevice_def CreateTimerForDevice_def createScheduled_def CreateReminderMutation_def
  CreateTimerMutation_def createScheduledMutation_def UpdateScheduledItem_def UpdateScheduledMutation_def
  update_scheduled_def PauseTimer_def PauseTimerMutation_def pause_timer_def ResumeTimer_def ResumeTimerMutation_def
  resume_timer_def CancelScheduledItem_def CancelScheduledMutation_def DeleteScheduledItem_def DeleteScheduledMutation_def

lemmas memo_defs = CreateVoiceMemo_def CreateVoiceMemoMutation_def DeleteVoiceMemo_def DeleteVoiceMemoMutation_def
  VoiceMemoByID_def

lemma edits_isolated:
  assumes "edits u m" "owner u \<noteq> v"
  shows "preserves (\<lambda>t. rows_of v t = R) m"
  using assms
  by (cases rule: edits.cases)
     (simp_all only: write_defs scheduled_defs memo_defs Let_def,
      (intro preserves_writes preserves_quietly preserves_insert_items preserves_bind preserves_query ledger_free_rows_of;
        auto simp: rows_of_def expense_row_def journal_row_def scheduled_row_def memo_entry_def
          intro!: filter_update_where filter_cong)+)

lemma removes_isolated:
  assumes "removes u m" "owner u \<noteq> v"
  shows "preserves (\<lambda>t. rows_of v t = R) m"
  using assms
  by (cases rule: removes.cases)
     (simp_all only: scheduled_defs,
      (intro preserves_writes ledger_free_rows_of; auto simp: rows_of_def intro!: filter_cong)+)

lemma writes_isolated: "writes u m \<Longrightarrow> owner u \<noteq> v \<Longrightarrow> preserves (\<lambda>t. rows_of v t = R) m"
  unfolding writes_def by (auto intro: edits_isolated removes_isolated)

text \<open>What a user reads depends on the rows of that user alone.\<close>

lemma filter_of_owner:
  assumes "filter Q xs = filter Q ys"
  shows "filter (\<lambda>r. Q r \<and> P r) xs = filter (\<lambda>r. Q r \<and> P r) ys"
  by (metis (no_types, lifting) assms filter_cong filter_filter)

lemma find_filter: "find P xs = (case filter P xs of [] \<Rightarrow> None | x # _ \<Rightarrow> Some x)"
  by (induction xs) auto

lemma find_own:
  "filter Q xs = filter Q ys \<Longrightarrow> find (\<lambda>r. Q r \<and> P r) xs = find (\<lambda>r. Q r \<and> P r) ys"
  by (simp only: find_filter filter_of_owner [of Q xs ys P])

definition reads_same :: "data_tables db \<Rightarrow> data_tables db \<Rightarrow> 'a data_tx \<Rightarrow> bool" where
  "reads_same d d' m \<longleftrightarrow> fst (m (d'\<lparr>faults := faults d\<rparr>)) = fst (m d)"

lemma reads_same_query: "q (tables d') = q (tables d) \<Longrightarrow> reads_same d d' (query q)"
  by (simp add: reads_same_def query_def stmt_def up_def)

lemma reads_same_stmt: "map_option fst (f (tables d')) = map_option fst (f (tables d)) \<Longrightarrow> reads_same d d' (stmt f)"
  by (auto simp: reads_same_def stmt_def up_def split: option.splits)

lemma reads_same_invalid: "reads_same d d' (invalid e)"
  by (simp add: reads_same_def invalid_def)

lemma reads_same_if: "(\<not> b \<Longrightarrow> reads_same d d' m') \<Longrightarrow> reads_same d d' m \<Longrightarrow> reads_same d d' (if b then m else m')"
  by simp

lemma reads_same_period: "(\<And>p. reads_same d d' (f p)) \<Longrightarrow> reads_same d d' (with_period period f)"
  by (simp add: with_period_def reads_same_invalid split: option.splits)

lemmas reads_intros = reads_same_query reads_same_invalid reads_same_if reads_same_period

lemma own_reads:
  assumes "rows_of (owner w) (tables d') = rows_of (owner w) (tables d)"
  shows "reads_same d d' (QueryNotes ilike w nq)" "reads_same d d' (ExpenseTotal w from to)"
    "reads_same d d' (ListExpenses w from to category limit)" "reads_same d d' (BudgetLimit w period)"
    "reads_same d d' (GetSavingsGoal w period)" "reads_same d d' (ListJournal w from to limit)"
    "reads_same d d' (listScheduled w deviceID kind wanted limit)" "reads_same d d' (QueryVoiceMemos ilike w mq)"
    "reads_same d d' (VoiceMemoByKey w key)" "reads_same d d' (VoiceMemoByID w i)"
proof -
  note own = assms [unfolded rows_of_def prod.inject]
  note nf = own [THEN conjunct1, THEN filter_of_owner]
    and ef = own [THEN conjunct2, THEN conjunct1, THEN filter_of_owner]
    and bf = own [THEN conjunct2, THEN conjunct2, THEN conjunct1, THEN find_own]
    and sf = own [THEN conjunct2, THEN conjunct2, THEN conjunct2, THEN conjunct1, THEN find_own]
    and jf = own [THEN conjunct2, THEN conjunct2, THEN conjunct2, THEN conjunct2, THEN conjunct1, THEN filter_of_owner]
    and rf = own [THEN conjunct2, THEN conjunct2, THEN conjunct2, THEN conjunct2, THEN conjunct2, THEN conjunct1, THEN filter_of_owner]
    and vf = own [THEN conjunct2, THEN conjunct2, THEN conjunct2, THEN conjunct2, THEN conjunct2, THEN conjunct2, THEN filter_of_owner]
      own [THEN conjunct2, THEN conjunct2, THEN conjunct2, THEN conjunct2, THEN conjunct2, THEN conjunct2, THEN find_own]
  show "reads_same d d' (ExpenseTotal w from to)"
    unfolding ExpenseTotal_def by (intro reads_same_stmt) (simp add: ef Let_def)
  show "reads_same d d' (QueryNotes ilike w nq)"
    "reads_same d d' (ListExpenses w from to category limit)" "reads_same d d' (BudgetLimit w period)"
    "reads_same d d' (GetSavingsGoal w period)" "reads_same d d' (ListJournal w from to limit)"
    "reads_same d d' (listScheduled w deviceID kind wanted limit)" "reads_same d d' (QueryVoiceMemos ilike w mq)"
    "reads_same d d' (VoiceMemoByKey w key)" "reads_same d d' (VoiceMemoByID w i)"
    unfolding QueryNotes_def ListExpenses_def BudgetLimit_def GetSavingsGoal_def ListJournal_def
      listScheduled_def QueryVoiceMemos_def VoiceMemoByKey_def VoiceMemoByID_def
    by (intro reads_intros; simp only: nf ef bf sf jf rf vf)+
qed

section \<open>Isolation\<close>

definition run_writes :: "unit data_tx list \<Rightarrow> data_tables db \<Rightarrow> data_tables db" where
  "run_writes ms d = fold (\<lambda>m d. snd (m d)) ms d"

lemma run_writes_isolated:
  "(\<And>m. m \<in> set ms \<Longrightarrow> \<exists>u. writes u m \<and> owner u \<noteq> v) \<Longrightarrow> rows_of v (tables (run_writes ms d)) = rows_of v (tables d)"
proof (induction ms arbitrary: d)
  case (Cons m ms)
  then obtain u where "writes u m" "owner u \<noteq> v" by auto
  then have "rows_of v (tables (snd (m d))) = rows_of v (tables d)"
    using writes_isolated [of u m v "rows_of v (tables d)"] by (auto simp: preserves_def)
  then show ?case using Cons by (simp add: run_writes_def)
qed (simp add: run_writes_def)

text \<open>
  C9: The personal data of a user are out of reach of the others. Whatever sequence of creations, updates and
  deletions other users issue, with any faults of the database, no row of user \<open>w\<close> is added, changed or
  removed, and every question \<open>w\<close> can ask the store is answered as before: notes, expenses and their total,
  budgets, savings goals, journal, reminders and timers, and voice memos.
\<close>

theorem tenant_isolation:
  assumes "\<forall>m \<in> set ms. \<exists>u. writes u m \<and> owner u \<noteq> owner w"
  shows "let d' = run_writes ms d in rows_of (owner w) (tables d') = rows_of (owner w) (tables d)
    \<and> reads_same d d' (QueryNotes ilike w nq) \<and> reads_same d d' (ExpenseTotal w from to)
    \<and> reads_same d d' (ListExpenses w from to category limit) \<and> reads_same d d' (BudgetLimit w period)
    \<and> reads_same d d' (GetSavingsGoal w period) \<and> reads_same d d' (ListJournal w from to limit)
    \<and> reads_same d d' (ListReminders w deviceID wanted limit) \<and> reads_same d d' (ListTimers w deviceID wanted limit)
    \<and> reads_same d d' (QueryVoiceMemos ilike w mq) \<and> reads_same d d' (VoiceMemoByKey w key)
    \<and> reads_same d d' (VoiceMemoByID w i)"
proof -
  have own: "rows_of (owner w) (tables (run_writes ms d)) = rows_of (owner w) (tables d)"
    using assms by (intro run_writes_isolated) auto
  then show ?thesis unfolding ListReminders_def ListTimers_def Let_def by (intro conjI own_reads)
qed

definition no_data :: data_tables where
  "no_data = \<lparr>idempotency_records = [], legacy_idempotency_reservations = [], note_rows = [], expenses = [], budgets = [],
     savings_goals = [], journal_entries = [], reminders = [], voice_memos = []\<rparr>"

theorem tenant_isolation_witness:
  "let d = \<lparr>tables = no_data, faults = []\<rparr>; d' = run_writes [SetBudget ''bob'' ''daily'' 5] d
   in budgets (tables d') = [\<lparr>bg_user_id = ''bob'', bg_period = ''daily'', bg_limit_vnd = 5\<rparr>]
     \<and> rows_of (owner ''alice'') (tables d') = rows_of (owner ''alice'') (tables d)
     \<and> reads_same d d' (BudgetLimit ''alice'' ''daily'')"
proof -
  let ?d = "\<lparr>tables = no_data, faults = []\<rparr>"
  have o: "owner ''bob'' = ''bob''" "owner ''alice'' = ''alice''" by (simp_all add: owner_def Let_def graphic_def)
  have "\<forall>m \<in> set [SetBudget ''bob'' ''daily'' 5]. \<exists>u. writes u m \<and> owner u \<noteq> owner ''alice''"
    using o by (auto simp: writes_def intro!: exI [of _ "''bob''"] edits.budget_set)
  from tenant_isolation [OF this, where d = ?d and period = "''daily''"]
  have iso: "rows_of (owner ''alice'') (tables (run_writes [SetBudget ''bob'' ''daily'' 5] ?d)) = rows_of (owner ''alice'') (tables ?d)"
    "reads_same ?d (run_writes [SetBudget ''bob'' ''daily'' 5] ?d) (BudgetLimit ''alice'' ''daily'')" unfolding Let_def by blast+
  have v: "validBudgetPeriod ''daily'' = Some ''daily''"
    by (simp add: validBudgetPeriod_def Let_def graphic_def) code_simp
  have "budgets (tables (run_writes [SetBudget ''bob'' ''daily'' 5] ?d)) = [\<lparr>bg_user_id = ''bob'', bg_period = ''daily'', bg_limit_vnd = 5\<rparr>]"
    by (simp add: run_writes_def SetBudget_def with_period_def v put_budget_def upsert_def no_data_def o)
  then show ?thesis using iso by (simp only: Let_def)
qed

end
