(* ===== verification/Scheduler_Properties.thy ===== *)
theory Scheduler_Properties
  imports Scheduler Data_Isolation
begin

text \<open>
  What holds of the reminders while users edit them and the scheduler delivers them, in any order and under any
  faults of the database: the rows stay well formed, an acknowledged reminder is final, a round without
  interference moves every claimed reminder on. The last sections prove where a delivery gets lost.
\<close>

section \<open>Well-formed rows\<close>

definition reminder_ok :: "reminder_row \<Rightarrow> bool" where
  "reminder_ok r \<longleftrightarrow> owner (si_UserID r) = si_UserID r \<and> TrimSpace (si_DeviceID r) = si_DeviceID r \<and> si_Title r \<noteq> [] \<and> si_Kind r \<in> {''reminder'', ''timer''}
     \<and> si_Status r \<in> {''pending'', ''dispatching'', ''sent'', ''paused'', ''fired'', ''cancelled''}
     \<and> 0 \<le> si_Attempts r \<and> pg_ts (si_FireAt r) = si_FireAt r
     \<and> (si_Status r = ''paused'' \<longrightarrow> si_Kind r = ''timer'' \<and> si_Attempts r = 0 \<and> si_NextAttempt r = None)
     \<and> (si_Status r = ''sent'' \<longrightarrow> 1 \<le> si_Attempts r \<and> si_NextAttempt r \<noteq> None)
     \<and> (si_Status r = ''fired'' \<longrightarrow> si_NextAttempt r = None)
     \<and> (si_PausedRemainingSeconds r \<noteq> 0 \<longrightarrow> si_Kind r = ''timer'' \<and> si_Status r \<in> {''paused'', ''cancelled''})"

definition reminders_ok :: "data_tables \<Rightarrow> bool" where
  "reminders_ok t \<longleftrightarrow> list_all reminder_ok (reminders t) \<and> unique_key si_ID (reminders t)"

lemma ledger_free_reminders: "(\<And>t rs. I (t\<lparr>idempotency_records := rs\<rparr>) = I t) \<Longrightarrow> ledger_free I"
  by (simp add: ledger_free_def)

lemma reminders_ok_append:
  "reminders_ok t \<Longrightarrow> si_ID r \<notin> si_ID ` set (reminders t) \<Longrightarrow> reminder_ok r \<Longrightarrow>
     reminders_ok (reminders_update (\<lambda>rows. rows @ [r]) t)"
  by (auto simp: reminders_ok_def unique_key_append)

lemma reminders_ok_update:
  "reminders_ok t \<Longrightarrow> (\<And>r. P r \<Longrightarrow> reminder_ok r \<Longrightarrow> reminder_ok (g r)) \<Longrightarrow> (\<And>r. si_ID (g r) = si_ID r) \<Longrightarrow>
     reminders_ok (reminders_update (update_where P g) t)"
  by (auto simp: reminders_ok_def table_simps list_all_iff)

lemma reminders_ok_filter: "reminders_ok t \<Longrightarrow> reminders_ok (reminders_update (filter P) t)"
  by (auto simp: reminders_ok_def list_all_iff unique_key_def distinct_map_filter)

lemma reminder_ok_scheduled_row:
  "title \<noteq> [] \<Longrightarrow> kind \<in> {''reminder'', ''timer''} \<Longrightarrow> reminder_ok (scheduled_row new u key deviceID kind title fireAt)"
  by (auto simp: reminder_ok_def scheduled_row_def)

lemma check_scheduled_title: "check_scheduled title fireAt = None \<Longrightarrow> title \<noteq> []"
  by (auto simp: check_scheduled_def split: if_splits)

lemma preserves_ok_insert:
  "reminder_ok r \<Longrightarrow> preserves reminders_ok (insert_into reminders reminders_update si_ID r)"
  "reminder_ok r \<Longrightarrow> preserves reminders_ok (insert_unless reminders reminders_update si_ID P r)"
  by (intro preserves_insert_into preserves_insert_unless reminders_ok_append; assumption)+

lemma ledger_free_ok: "ledger_free reminders_ok"
  by (rule ledger_free_reminders) (simp add: reminders_ok_def)

lemma preserves_ok_create:
  assumes "kind \<in> {''reminder'', ''timer''}"
  shows "preserves reminders_ok (createScheduled new u key deviceID kind title fireAt)"
    and "preserves reminders_ok (createScheduledMutation new now request operation u deviceID kind title fireAt)"
proof -
  have "preserves reminders_ok (createScheduled new u key deviceID kind title fireAt)
    \<and> preserves reminders_ok (createScheduledMutation new now request operation u deviceID kind title fireAt)"
  proof (cases "check_scheduled (TrimSpace title) fireAt")
    case None
    then have ok: "reminder_ok (scheduled_row new u k deviceID kind (TrimSpace title) fireAt)" for k
      using assms check_scheduled_title reminder_ok_scheduled_row by blast
    show ?thesis
      by (simp add: None createScheduled_def createScheduledMutation_def Let_def preserves_locked_tx preserves_ok_insert ok
          preserves_invalid preserves_value preserves_bind preserves_encodable ledger_free_ok)
  qed (simp add: createScheduled_def createScheduledMutation_def preserves_invalid)
  then show "preserves reminders_ok (createScheduled new u key deviceID kind title fireAt)"
    "preserves reminders_ok (createScheduledMutation new now request operation u deviceID kind title fireAt)" by blast+
qed

lemma preserves_ok_update:
  assumes "\<And>r. P r \<Longrightarrow> reminder_ok r \<Longrightarrow> reminder_ok (g r)" "\<And>r. si_ID (g r) = si_ID r"
  shows "preserves reminders_ok (update_rows reminders reminders_update P g)"
  by (intro preserves_update_rows reminders_ok_update assms; assumption)

lemma preserves_ok_timers:
  "preserves reminders_ok (pause_timer u i now)" "preserves reminders_ok (resume_timer u i now)"
  unfolding pause_timer_def resume_timer_def Let_def
  by (intro preserves_bind preserves_query preserves_option preserves_if preserves_invalid preserves_changed preserves_ok_update;
      auto simp: reminder_ok_def)+

lemma edits_ok:
  assumes "edits u m"
  shows "preserves reminders_ok m"
  using assms
  by (cases rule: edits.cases)
     (simp_all only: write_defs memo_defs Let_def CreateReminderForDevice_def CreateTimerForDevice_def CreateReminderMutation_def
        CreateTimerMutation_def UpdateScheduledItem_def UpdateScheduledMutation_def update_scheduled_def PauseTimer_def
        PauseTimerMutation_def ResumeTimer_def ResumeTimerMutation_def CancelScheduledItem_def CancelScheduledMutation_def,
      (intro preserves_ok_update preserves_ok_create preserves_ok_timers preserves_writes preserves_quietly
         preserves_insert_items preserves_bind preserves_query ledger_free_ok;
        auto simp: reminders_ok_def reminder_ok_def active_status_def)+)

lemma removes_ok: "removes u m \<Longrightarrow> preserves reminders_ok m"
  by (induction rule: removes.induct)
     (auto simp: DeleteScheduledItem_def DeleteScheduledMutation_def
       intro!: preserves_marker preserves_changed preserves_delete_rows reminders_ok_filter ledger_free_ok)

section \<open>The work of the scheduler\<close>

lemma claimable_due: "x \<in> set (claimable locked now n t) \<Longrightarrow> x \<in> set (reminders t) \<and> due now x"
  unfolding claimable_def by (auto dest!: in_set_takeD)

lemma claimable_length: "length (claimable locked now n t) \<le> n"
  by (simp add: claimable_def)

definition claimed :: "reminder_row list \<Rightarrow> data_tables \<Rightarrow> data_tables" where
  "claimed items = reminders_update (update_where (\<lambda>r. si_ID r \<in> si_ID ` set items) (\<lambda>r. r\<lparr>si_Status := ''dispatching''\<rparr>))"

lemma claimed_Nil [simp]: "claimed [] t = t"
  by (simp add: claimed_def update_where_def)

lemma preserves_claim:
  assumes "\<And>t n. I t \<Longrightarrow> I (claimed (claimable locked now n t) t)"
  shows "preserves I (ClaimDueReminders locked now limit)"
  unfolding ClaimDueReminders_def Let_def
proof (rule preserves_in_tx)
  fix d :: "data_tables db" and x d'
  let ?n = "nat (if limit \<le> 0 \<or> 100 < limit then 32 else limit)"
  assume I: "I (tables d)"
  assume "tx_bind (query (claimable locked now ?n)) (\<lambda>items.
      tx_bind (if items = [] then tx_return 0
        else update_rows reminders reminders_update (\<lambda>r. si_ID r \<in> si_ID ` set items) (si_Status_update (\<lambda>_. ''dispatching'')))
        (\<lambda>_. tx_return (Commit (map ScheduledItem.truncate items)))) d = (Inr (Commit x), d')"
  then have "tables d' = claimed (claimable locked now ?n (tables d)) (tables d)"
    by (auto simp: tx_Inr update_rows_def claimed_def [symmetric] split: if_splits)
  then show "I (tables d')" using assms [OF I] by simp
qed

inductive works :: "unit data_tx \<Rightarrow> bool" where
  claim: "works (quietly (ClaimDueReminders locked now limit))"
| mark: "works (MarkReminderSent i next)"
| release: "works (ReleaseReminder i)"
| acknowledge: "works (AcknowledgeReminder userID deviceID i)"
| recover: "works (quietly RecoverDispatchingReminders)"

lemmas work_defs = MarkReminderSent_def ReleaseReminder_def AcknowledgeReminder_def RecoverDispatchingReminders_def

lemma claimed_ok: "reminders_ok t \<Longrightarrow> reminders_ok (claimed (claimable locked now n t) t)"
proof -
  assume ok: "reminders_ok t"
  have "reminder_ok (r\<lparr>si_Status := ''dispatching''\<rparr>)"
    if "r \<in> set (reminders t)" "si_ID r \<in> si_ID ` set (claimable locked now n t)" for r
  proof -
    have "due now r" using that ok claimable_due [of _ locked now n t]
      by (auto simp: reminders_ok_def) (metis unique_keyD)
    moreover have "reminder_ok r" using that ok by (simp add: reminders_ok_def list_all_iff)
    ultimately show ?thesis by (auto simp: reminder_ok_def due_def)
  qed
  then show ?thesis using ok by (auto simp: reminders_ok_def claimed_def table_simps list_all_iff)
qed

lemma works_ok: "works m \<Longrightarrow> preserves reminders_ok m"
proof (induction rule: works.induct)
  case (claim locked now limit)
  then show ?case by (intro preserves_quietly preserves_claim claimed_ok)
qed (unfold work_defs, (intro preserves_quietly preserves_changed preserves_ok_update; auto simp: reminder_ok_def)+)

text \<open>
  What may happen to the tables: any sequence of edits by any user, of steps of the scheduler and of deletions of
  scheduled items by the users of \<open>V\<close>, each with any faults of the database.
\<close>

inductive history :: "string set \<Rightarrow> data_tables \<Rightarrow> data_tables \<Rightarrow> bool" for V t where
  start: "history V t t"
| edit: "history V t t1 \<Longrightarrow> edits u m \<Longrightarrow> history V t (tables (snd (m \<lparr>tables = t1, faults = fs\<rparr>)))"
| remove: "history V t t1 \<Longrightarrow> removes u m \<Longrightarrow> owner u \<in> V \<Longrightarrow> history V t (tables (snd (m \<lparr>tables = t1, faults = fs\<rparr>)))"
| work: "history V t t1 \<Longrightarrow> works m \<Longrightarrow> history V t (tables (snd (m \<lparr>tables = t1, faults = fs\<rparr>)))"

lemma preserves_step: "preserves I m \<Longrightarrow> I t \<Longrightarrow> I (tables (snd (m \<lparr>tables = t, faults = fs\<rparr>)))"
  by (simp add: preserves_def)

text \<open>The contract between the tables and the operations: an invariant that every kind of step keeps holds throughout.\<close>

locale history_invariant =
  fixes V :: "string set" and I :: "data_tables \<Rightarrow> bool"
  assumes edit_keeps: "edits u m \<Longrightarrow> preserves I m"
    and remove_keeps: "removes u m \<Longrightarrow> owner u \<in> V \<Longrightarrow> preserves I m"
    and work_keeps: "works m \<Longrightarrow> preserves I m"
begin

lemma throughout: "history V t t' \<Longrightarrow> I t \<Longrightarrow> I t'"
  by (induction rule: history.induct) (auto intro: preserves_step edit_keeps remove_keeps work_keeps)

end

interpretation well_formed: history_invariant V reminders_ok for V
  by unfold_locales (erule edits_ok, erule removes_ok, erule works_ok)

section \<open>Acknowledged reminders\<close>

lemma preserves_conj: "preserves I m \<Longrightarrow> preserves J m \<Longrightarrow> preserves (\<lambda>t. I t \<and> J t) m"
  by (simp add: preserves_def)

definition keeps_row :: "reminder_row \<Rightarrow> data_tables \<Rightarrow> bool" where
  "keeps_row r t \<longleftrightarrow> r \<in> set (reminders t)"

lemma ledger_free_row: "ledger_free (keeps_row r)"
  by (rule ledger_free_reminders) (simp add: keeps_row_def)

lemma keeps_row_update: "keeps_row r t \<Longrightarrow> \<not> P r \<Longrightarrow> keeps_row r (reminders_update (update_where P g) t)"
  by (auto simp: keeps_row_def update_where_def)

lemma edits_keep_fired:
  assumes "edits u m" "si_Status r = ''fired''"
  shows "preserves (keeps_row r) m"
  using assms
  by (cases rule: edits.cases)
     (simp_all only: write_defs scheduled_defs memo_defs Let_def,
      (intro preserves_writes preserves_quietly preserves_insert_items preserves_bind preserves_query ledger_free_row keeps_row_update;
        auto simp: keeps_row_def active_status_def)+)

lemma removes_keep_others:
  assumes "removes u m" "si_UserID r \<noteq> owner u"
  shows "preserves (keeps_row r) m"
  using assms
  by (cases rule: removes.cases)
     (simp_all only: scheduled_defs, (intro preserves_writes ledger_free_row; auto simp: keeps_row_def)+)

lemma claimed_keeps_fired:
  assumes "reminders_ok t" "keeps_row r t" "si_Status r = ''fired''"
  shows "keeps_row r (claimed (claimable locked now n t) t)"
proof -
  have "si_ID r \<notin> si_ID ` set (claimable locked now n t)"
  proof
    assume "si_ID r \<in> si_ID ` set (claimable locked now n t)"
    then obtain x where x: "x \<in> set (reminders t)" "due now x" "si_ID x = si_ID r"
      by (auto dest: claimable_due)
    then have "x = r" using assms unique_keyD [of si_ID "reminders t" x r] by (auto simp: reminders_ok_def keeps_row_def)
    then show False using x assms by (simp add: due_def)
  qed
  then show ?thesis using assms unfolding claimed_def by (auto intro: keeps_row_update)
qed

lemma works_keep_fired:
  assumes "works m" "si_Status r = ''fired''"
  shows "preserves (\<lambda>t. reminders_ok t \<and> keeps_row r t) m"
proof (cases "\<exists>locked now limit. m = quietly (ClaimDueReminders locked now limit)")
  case True
  then show ?thesis using assms(2)
    by (auto intro!: preserves_quietly preserves_claim claimed_ok claimed_keeps_fired)
next
  case False
  with assms have "preserves (keeps_row r) m"
    by (cases rule: works.cases)
       (auto simp: work_defs intro!: preserves_quietly preserves_changed preserves_update_rows keeps_row_update)
  with works_ok [OF assms(1)] show ?thesis by (rule preserves_conj)
qed

lemma fired_invariant:
  assumes "si_UserID r \<notin> V" "si_Status r = ''fired''"
  shows "history_invariant V (\<lambda>t. reminders_ok t \<and> keeps_row r t)"
proof
  show "preserves (\<lambda>t. reminders_ok t \<and> keeps_row r t) m" if "edits u m" for u m
    using that assms(2) by (intro preserves_conj edits_ok edits_keep_fired)
  show "preserves (\<lambda>t. reminders_ok t \<and> keeps_row r t) m" if "removes u m" "owner u \<in> V" for u m
    using that assms(1) by (intro preserves_conj removes_ok removes_keep_others) auto
  show "preserves (\<lambda>t. reminders_ok t \<and> keeps_row r t) m" if "works m" for m
    using that assms(2) by (rule works_keep_fired)
qed

text \<open>
  C10: The rows of the reminders stay well formed. From well-formed tables, any sequence of edits and deletions by
  any users and of claims, deliveries, releases, acknowledgements and recoveries by the scheduler, interleaved
  in any way and with any faults of the database, leads to well-formed tables: identifiers are unique, every row
  has a normalised owner and device, a title, a known kind and a known status; only timers are paused, and a paused row has no
  attempts and no next attempt; a row that waits for its acknowledgement has the time of the next attempt; a
  fired one has none; a remaining time is kept by paused or cancelled timers only.
\<close>

theorem reminders_well_formed:
  assumes "history V t t'" "reminders_ok t"
  shows "reminders_ok t'"
  using assms by (rule well_formed.throughout)

definition demo_reminder :: reminder_row where
  "demo_reminder = scheduled_row 1 ''ann'' ''k'' ''dev'' ''timer'' ''tea'' 5000"

definition demo_reminders :: data_tables where
  "demo_reminders = no_data\<lparr>reminders := [demo_reminder]\<rparr>"

lemma demo_owner: "owner ''ann'' = ''ann''" "TrimSpace ''dev'' = ''dev''"
  by (simp_all add: owner_def Let_def graphic_def)

lemma demo_reminders_ok: "reminders_ok demo_reminders"
  by (simp add: reminders_ok_def demo_reminders_def demo_reminder_def reminder_ok_scheduled_row no_data_def unique_key_def)

theorem reminders_well_formed_witness:
  "let t' = tables (snd (CancelScheduledItem ''ann'' 1 \<lparr>tables = demo_reminders, faults = []\<rparr>))
   in history {} demo_reminders t' \<and> reminders t' = [demo_reminder\<lparr>si_Status := ''cancelled''\<rparr>] \<and> reminders_ok t'"
proof -
  let ?t = "tables (snd (CancelScheduledItem ''ann'' 1 \<lparr>tables = demo_reminders, faults = []\<rparr>))"
  have h: "history {} demo_reminders ?t" by (rule history.edit [OF history.start edits.scheduled_cancel])
  have "reminders ?t = [demo_reminder\<lparr>si_Status := ''cancelled''\<rparr>]"
    by (simp add: CancelScheduledItem_def changed_def update_rows_def requireRowsChanged_def rows_affected_def update_where_def
        active_status_def demo_reminders_def demo_reminder_def scheduled_row_def demo_owner no_data_def)
  then show ?thesis using h reminders_well_formed [OF h demo_reminders_ok] by (simp only: Let_def)
qed

text \<open>
  C11: An acknowledged reminder is final. Once a row is fired, no edit by any user and no step of the scheduler
  changes it, in any sequence and with any faults: it is not claimed, pushed, re-armed or cancelled again. It
  leaves the table only when its owner deletes it.
\<close>

theorem fired_final:
  assumes "history V t t'" "reminders_ok t" "r \<in> set (reminders t)" "si_Status r = ''fired''" "si_UserID r \<notin> V"
  shows "r \<in> set (reminders t') \<and> (\<forall>locked now n. r \<notin> set (claimable locked now n t'))"
proof -
  have r: "r \<in> set (reminders t')"
    using history_invariant.throughout [OF fired_invariant [OF assms(5,4)] assms(1)] assms(2,3) by (simp add: keeps_row_def)
  have "r \<notin> set (claimable locked now n t')" for locked now n using assms(4) claimable_due [of r] by (auto simp: due_def)
  then show ?thesis using r by blast
qed

definition demo_fired :: reminder_row where
  "demo_fired = demo_reminder\<lparr>si_Status := ''fired''\<rparr>"

theorem fired_final_witness:
  "let t = no_data\<lparr>reminders := [demo_fired]\<rparr>; t' = tables (snd (UpdateScheduledItem ''ann'' 1 ''tea'' 9000 \<lparr>tables = t, faults = []\<rparr>))
   in history {''bob''} t t' \<and> demo_fired \<in> set (reminders t') \<and> (\<forall>locked now n. demo_fired \<notin> set (claimable locked now n t'))"
proof -
  let ?t = "no_data\<lparr>reminders := [demo_fired]\<rparr>"
  let ?t' = "tables (snd (UpdateScheduledItem ''ann'' 1 ''tea'' 9000 \<lparr>tables = ?t, faults = []\<rparr>))"
  have h: "history {''bob''} ?t ?t'" by (rule history.edit [OF history.start edits.scheduled_update])
  have "reminders_ok ?t"
    by (simp add: reminders_ok_def demo_fired_def demo_reminder_def reminder_ok_def scheduled_row_def no_data_def unique_key_def pg_ts_def)
  from fired_final [OF h this, of demo_fired]
  have "demo_fired \<in> set (reminders ?t') \<and> (\<forall>locked now n. demo_fired \<notin> set (claimable locked now n ?t'))"
    by (simp add: demo_fired_def demo_reminder_def scheduled_row_def no_data_def demo_owner)
  with h show ?thesis unfolding Let_def by blast
qed

section \<open>Pausing and resuming\<close>

lemma rows_affected_unique:
  assumes "unique_key k rows" "r \<in> set rows" "P r" "\<And>x. x \<in> set rows \<Longrightarrow> P x \<Longrightarrow> k x = k r"
  shows "rows_affected P rows = 1"
proof -
  have "distinct rows" using assms(1) by (simp add: unique_key_def distinct_map)
  moreover have "set (filter P rows) = {r}" using assms unique_keyD [OF assms(1)] by auto
  ultimately have "length (filter P rows) = card {r}" by (metis distinct_card distinct_filter)
  then show ?thesis by (simp add: rows_affected_def)
qed

lemma find_by_key:
  "unique_key k rows \<Longrightarrow> r \<in> set rows \<Longrightarrow> P r \<Longrightarrow> (\<And>x. x \<in> set rows \<Longrightarrow> P x \<Longrightarrow> k x = k r) \<Longrightarrow> find P rows = Some r"
  by (cases "find P rows") (auto simp: find_None_iff dest!: find_Some_in_set, metis unique_keyD)

definition own_timer :: "string \<Rightarrow> reminder_row \<Rightarrow> data_tables db \<Rightarrow> bool" where
  "own_timer u r d \<longleftrightarrow> faults d = [] \<and> unique_key si_ID (reminders (tables d)) \<and> r \<in> set (reminders (tables d))
     \<and> si_UserID r = owner u \<and> si_Kind r = ''timer''"

definition set_timer :: "reminder_row \<Rightarrow> (reminder_row \<Rightarrow> reminder_row) \<Rightarrow> data_tables db \<Rightarrow> data_tables db" where
  "set_timer r g d = d\<lparr>tables := reminders_update (update_where (\<lambda>x. si_ID x = si_ID r) g) (tables d)\<rparr>"

lemma update_where_found:
  assumes "unique_key k rows" "r \<in> set rows" "P r" "\<And>x. P x \<Longrightarrow> k x = k r"
  shows "update_where P g rows = update_where (\<lambda>x. k x = k r) g rows"
proof -
  have "P x \<longleftrightarrow> k x = k r" if "x \<in> set rows" for x using that assms(2-4) unique_keyD [OF assms(1)] by metis
  then show ?thesis by (simp add: update_where_def)
qed

lemma change_timer:
  assumes "own_timer u r d" "P r" "\<And>x. P x \<Longrightarrow> si_ID x = si_ID r"
  shows "changed label (update_rows reminders reminders_update P g) d = (Inr (), set_timer r g d)"
proof -
  have u: "unique_key si_ID (reminders (tables d))" "r \<in> set (reminders (tables d))" "faults d = []"
    using assms(1) by (simp_all add: own_timer_def)
  have "rows_affected P (reminders (tables d)) = 1" using u(1,2) assms(2,3) by (rule rows_affected_unique)
  moreover have "update_where P g (reminders (tables d)) = update_where (\<lambda>x. si_ID x = si_ID r) g (reminders (tables d))"
    using u(1,2) assms(2,3) by (rule update_where_found)
  then have "reminders_update (update_where P g) (tables d) = reminders_update (update_where (\<lambda>x. si_ID x = si_ID r) g) (tables d)"
    by simp
  ultimately show ?thesis using u(3) by (simp add: changed_def update_rows_def requireRowsChanged_def set_timer_def)
qed

lemma timer_row_found: "own_timer u r d \<Longrightarrow> timer_row u (si_ID r) (tables d) = Some r"
  unfolding timer_row_def own_timer_def by (intro find_by_key [where k = si_ID]) auto

lemma PauseTimer_run:
  assumes "own_timer u r d" "si_Status r = ''pending''" "now < si_FireAt r"
  shows "PauseTimer u (si_ID r) now d = (Inr (), set_timer r (\<lambda>x. x\<lparr>si_Status := ''paused'',
     si_PausedRemainingSeconds := seconds_left (Sub (si_FireAt r) now), si_Attempts := 0, si_NextAttempt := None\<rparr>) d)"
proof -
  have "\<not> Sub (si_FireAt r) now \<le> 0" using assms(3) by (simp add: Sub_def int64_min_def int64_max_def)
  then have "pause_timer u (si_ID r) now d = (Inr (), set_timer r (\<lambda>x. x\<lparr>si_Status := ''paused'',
     si_PausedRemainingSeconds := seconds_left (Sub (si_FireAt r) now), si_Attempts := 0, si_NextAttempt := None\<rparr>) d)"
    using assms by (simp add: pause_timer_def timer_row_found Let_def change_timer own_timer_def)
  then show ?thesis using assms(1) by (simp add: PauseTimer_def committed_def in_tx_ok own_timer_def set_timer_def)
qed

lemma ResumeTimer_run:
  assumes "own_timer u r d" "si_Status r = ''paused''" "1 \<le> si_PausedRemainingSeconds r"
  shows "ResumeTimer u (si_ID r) now d = (Inr (), set_timer r (\<lambda>x. x\<lparr>si_Status := ''pending'',
     si_FireAt := pg_ts (Add now (wrap64 (si_PausedRemainingSeconds r * Second))), si_PausedRemainingSeconds := 0,
     si_Attempts := 0, si_NextAttempt := None\<rparr>) d)"
proof -
  have "resume_timer u (si_ID r) now d = (Inr (), set_timer r (\<lambda>x. x\<lparr>si_Status := ''pending'',
     si_FireAt := pg_ts (Add now (wrap64 (si_PausedRemainingSeconds r * Second))), si_PausedRemainingSeconds := 0,
     si_Attempts := 0, si_NextAttempt := None\<rparr>) d)"
    using assms by (simp add: resume_timer_def timer_row_found change_timer own_timer_def)
  then show ?thesis using assms(1) by (simp add: ResumeTimer_def committed_def in_tx_ok own_timer_def set_timer_def)
qed

lemma set_timer_own:
  assumes "own_timer u r d" "si_ID (g r) = si_ID r" "si_UserID (g r) = si_UserID r" "si_Kind (g r) = si_Kind r"
    "\<And>x. si_ID (g x) = si_ID x"
  shows "own_timer u (g r) (set_timer r g d)"
    and "set (reminders (tables (set_timer r g d))) = insert (g r) (set (reminders (tables d)) - {r})"
  using assms set_update_by_key [of si_ID "reminders (tables d)" r g]
  by (simp_all add: own_timer_def set_timer_def unique_key_update_where)

text \<open>The rounding to seconds.\<close>

lemma seconds_left_bounds:
  assumes "0 < delta" "delta \<le> int64_max - Second"
  shows "1 \<le> seconds_left delta" "delta \<le> seconds_left delta * Second" "seconds_left delta * Second < delta + Second"
    "wrap64 (seconds_left delta * Second) = seconds_left delta * Second"
proof -
  have w: "wrap64 (delta + Second - 1) = delta + Second - 1"
    using assms by (intro wrap64_id) (simp add: in_int64_def int64_min_def int64_max_def Second_def)
  have n: "seconds_left delta = (delta + Second - 1) div Second"
    unfolding seconds_left_def w using assms by (simp add: quot_def Second_def)
  have "(delta + Second - 1) div Second * Second = delta + Second - 1 - (delta + Second - 1) mod Second"
    by (simp add: minus_mod_eq_div_mult)
  moreover have "0 \<le> (delta + Second - 1) mod Second" "(delta + Second - 1) mod Second < Second" by (simp_all add: Second_def)
  ultimately show b: "delta \<le> seconds_left delta * Second" "seconds_left delta * Second < delta + Second" unfolding n by linarith+
  then show "1 \<le> seconds_left delta" using assms(1) by (simp add: Second_def)
  show "wrap64 (seconds_left delta * Second) = seconds_left delta * Second"
    using assms b by (intro wrap64_id) (simp add: in_int64_def int64_min_def int64_max_def Second_def)
qed

text \<open>
  C13: Pausing and resuming keeps the time that was left. A pending timer of the user that is not yet due, and
  due within the range of a duration, can be paused, and a paused timer can be resumed at any later or earlier
  clock; without faults both calls succeed. The timer is pending again, its title and its place are kept, no
  other row changes, and what is left after resuming is what was left when it was paused, rounded up by less
  than a second (and cut to the microseconds of the database).
\<close>

theorem pause_resume:
  assumes "own_timer u r d" "si_Status r = ''pending''" "now1 < si_FireAt r" "si_FireAt r - now1 \<le> int64_max - Second"
  shows "\<exists>d1 d2 r2. PauseTimer u (si_ID r) now1 d = (Inr (), d1) \<and> ResumeTimer u (si_ID r) now2 d1 = (Inr (), d2)
    \<and> set (reminders (tables d2)) = insert r2 (set (reminders (tables d)) - {r})
    \<and> si_ID r2 = si_ID r \<and> si_Title r2 = si_Title r \<and> si_Status r2 = ''pending'' \<and> si_PausedRemainingSeconds r2 = 0
    \<and> si_FireAt r - now1 - 1000 < si_FireAt r2 - now2 \<and> si_FireAt r2 - now2 < si_FireAt r - now1 + Second"
proof -
  let ?delta = "Sub (si_FireAt r) now1"
  let ?n = "seconds_left ?delta"
  let ?p = "\<lambda>x. x\<lparr>si_Status := ''paused'', si_PausedRemainingSeconds := ?n, si_Attempts := 0, si_NextAttempt := None\<rparr>"
  let ?q = "\<lambda>x. x\<lparr>si_Status := ''pending'', si_FireAt := pg_ts (Add now2 (wrap64 (?n * Second))),
      si_PausedRemainingSeconds := 0, si_Attempts := 0, si_NextAttempt := None\<rparr>"
  let ?d1 = "set_timer r ?p d"
  have delta: "?delta = si_FireAt r - now1"
    using assms(3,4) by (simp add: Sub_def int64_min_def int64_max_def Second_def)
  have pos: "0 < ?delta" "?delta \<le> int64_max - Second" using assms(3,4) delta by simp_all
  note n = seconds_left_bounds [OF pos]
  have p: "PauseTimer u (si_ID r) now1 d = (Inr (), ?d1)" by (rule PauseTimer_run [OF assms(1-3)])
  have own: "own_timer u (?p r) ?d1" and s1: "set (reminders (tables ?d1)) = insert (?p r) (set (reminders (tables d)) - {r})"
    by (rule set_timer_own [OF assms(1)]; simp)+
  have q: "ResumeTimer u (si_ID r) now2 ?d1 = (Inr (), set_timer (?p r) ?q ?d1)"
    using ResumeTimer_run [OF own, of now2] n(1) by simp
  have "set (reminders (tables (set_timer (?p r) ?q ?d1))) = insert (?q (?p r)) (set (reminders (tables ?d1)) - {?p r})"
    by (rule set_timer_own(2) [OF own]; simp)
  moreover have "?p r \<notin> set (reminders (tables d)) - {r}"
    using assms(1) unique_keyD [of si_ID "reminders (tables d)" "?p r" r] by (auto simp: own_timer_def)
  ultimately have s2: "set (reminders (tables (set_timer (?p r) ?q ?d1))) = insert (?q (?p r)) (set (reminders (tables d)) - {r})"
    using s1 by auto
  have f: "si_FireAt (?q (?p r)) = pg_ts (now2 + ?n * Second)" by (simp add: n(4) Add_def)
  have "si_FireAt r - now1 - 1000 < si_FireAt (?q (?p r)) - now2" "si_FireAt (?q (?p r)) - now2 < si_FireAt r - now1 + Second"
    unfolding f using n(2,3) delta pg_ts_le [of "now2 + ?n * Second"] pg_ts_gt [of "now2 + ?n * Second"] by linarith+
  with p q s2 show ?thesis
    by (intro exI [of _ ?d1] exI [of _ "set_timer (?p r) ?q ?d1"] exI [of _ "?q (?p r)"] conjI) simp_all
qed

lemma demo_timer: "own_timer ''ann'' demo_reminder \<lparr>tables = demo_reminders, faults = []\<rparr>"
  by (simp add: own_timer_def demo_reminders_def demo_reminder_def scheduled_row_def no_data_def unique_key_def demo_owner)

theorem pause_resume_witness:
  "\<exists>d1 d2 r2. PauseTimer ''ann'' 1 2000 \<lparr>tables = demo_reminders, faults = []\<rparr> = (Inr (), d1)
    \<and> ResumeTimer ''ann'' 1 7000 d1 = (Inr (), d2) \<and> set (reminders (tables d2)) = {r2} \<and> si_Status r2 = ''pending''
    \<and> 9000 < si_FireAt r2 \<and> si_FireAt r2 < 1000010000"
proof -
  have r: "si_ID demo_reminder = 1" "si_FireAt demo_reminder = 5000" "si_Status demo_reminder = ''pending''"
    "reminders demo_reminders = [demo_reminder]"
    by (simp_all add: demo_reminder_def scheduled_row_def pg_ts_def demo_reminders_def no_data_def)
  from pause_resume [OF demo_timer, of 2000 7000] obtain d1 d2 r2 where
    "PauseTimer ''ann'' 1 2000 \<lparr>tables = demo_reminders, faults = []\<rparr> = (Inr (), d1)" "ResumeTimer ''ann'' 1 7000 d1 = (Inr (), d2)"
    "set (reminders (tables d2)) = {r2}" "si_Status r2 = ''pending''" "9000 < si_FireAt r2" "si_FireAt r2 < 1000010000"
    by (auto simp: r int64_max_def Second_def)
  then show ?thesis by blast
qed

lemma wrap64_over: "in_int64 (x - 2 ^ 64) \<Longrightarrow> wrap64 x = x - 2 ^ 64"
proof -
  have "(x - 2 ^ 64 + 2 ^ 63) mod 2 ^ 64 = (x + 2 ^ 63 - 2 ^ 64) mod 2 ^ 64" by (simp add: algebra_simps)
  also have "\<dots> = (x + 2 ^ 63) mod 2 ^ 64" by (rule minus_mod_self2)
  finally have "wrap64 (x - 2 ^ 64) = wrap64 x" by (simp add: wrap64_def)
  then show "in_int64 (x - 2 ^ 64) \<Longrightarrow> wrap64 x = x - 2 ^ 64" using wrap64_id by metis
qed

text \<open>
  A timer more than 292 years ahead (a date that \<open>UpdateScheduledItem\<close> accepts) is paused with a negative
  rest: the sum \<open>delta + time.Second - 1\<close> wraps around. It can then not be resumed.
\<close>

theorem far_timer_stuck:
  assumes "own_timer u r d" "si_Status r = ''pending''" "si_FireAt r - now1 > int64_max - Second + 1"
  shows "\<exists>d1 p. PauseTimer u (si_ID r) now1 d = (Inr (), d1) \<and> p \<in> set (reminders (tables d1)) \<and> si_ID p = si_ID r
    \<and> si_PausedRemainingSeconds p < 0 \<and> (\<forall>now2. fst (ResumeTimer u (si_ID r) now2 d1) = Inl (Invalid ''timer is not paused''))"
proof -
  let ?delta = "Sub (si_FireAt r) now1"
  let ?p = "\<lambda>x. x\<lparr>si_Status := ''paused'', si_PausedRemainingSeconds := seconds_left ?delta, si_Attempts := 0, si_NextAttempt := None\<rparr>"
  let ?d1 = "set_timer r ?p d"
  have "now1 < si_FireAt r" using assms(3) by (simp add: int64_max_def Second_def)
  then have p: "PauseTimer u (si_ID r) now1 d = (Inr (), ?d1)" using assms by (intro PauseTimer_run)
  have delta: "int64_max - Second + 1 < ?delta" "?delta \<le> int64_max"
    using assms(3) by (auto simp: Sub_def int64_max_def int64_min_def Second_def)
  then have w: "wrap64 (?delta + Second - 1) = ?delta + Second - 1 - 2 ^ 64"
    by (intro wrap64_over) (auto simp: in_int64_def int64_max_def int64_min_def Second_def)
  have neg: "seconds_left ?delta < 0"
    unfolding seconds_left_def w using delta by (simp add: quot_def sgn_if int64_max_def Second_def)
  have own: "own_timer u (?p r) ?d1" and s1: "set (reminders (tables ?d1)) = insert (?p r) (set (reminders (tables d)) - {r})"
    by (rule set_timer_own [OF assms(1)]; simp)+
  have "resume_timer u (si_ID r) now2 ?d1 = (Inl (Invalid ''timer is not paused''), ?d1)" for now2
    using timer_row_found [OF own] own neg by (simp add: resume_timer_def own_timer_def invalid_def)
  then have "fst (ResumeTimer u (si_ID r) now2 ?d1) = Inl (Invalid ''timer is not paused'')" for now2
    using own by (simp add: ResumeTimer_def committed_def in_tx_ok own_timer_def)
  then show ?thesis using p s1 neg by (intro exI [of _ ?d1] exI [of _ "?p r"] conjI allI) simp_all
qed

section \<open>A round of deliveries\<close>

definition delivered :: "(ScheduledItem \<Rightarrow> nat) \<Rightarrow> (ScheduledItem \<Rightarrow> time) \<Rightarrow> reminder_row \<Rightarrow> reminder_row" where
  "delivered sent clock r =
     (let item = ScheduledItem.truncate r
      in if sent item = 0 then r\<lparr>si_Status := ''pending'', si_NextAttempt := None\<rparr>
         else r\<lparr>si_Status := ''sent'', si_Attempts := si_Attempts r + 1,
                si_NextAttempt := Some (pg_ts (Add (clock item) (retryDelay (si_Attempts r + 1))))\<rparr>)"

lemma truncate_simps [simp]:
  "si_ID (ScheduledItem.truncate r) = si_ID r" "si_Attempts (ScheduledItem.truncate r) = si_Attempts r"
  "si_UserID (ScheduledItem.truncate r) = si_UserID r" "si_DeviceID (ScheduledItem.truncate r) = si_DeviceID r"
  "si_Title (ScheduledItem.truncate r) = si_Title r"
  by (simp_all add: ScheduledItem.truncate_def)

definition dispatching :: "reminder_row \<Rightarrow> reminder_row" where
  "dispatching r = r\<lparr>si_Status := ''dispatching''\<rparr>"

text \<open>The tables while a round is under way: \<open>wait\<close> are claimed and wait, \<open>done\<close> have been served.\<close>

definition round_tables :: "(reminder_row \<Rightarrow> reminder_row) \<Rightarrow> reminder_row list \<Rightarrow> reminder_row list \<Rightarrow> data_tables \<Rightarrow> data_tables" where
  "round_tables f served wait t =
     t\<lparr>reminders := map (\<lambda>r. if r \<in> set served then f r else if r \<in> set wait then dispatching r else r) (reminders t)\<rparr>"

lemma serve_one:
  assumes "unique_key si_ID (reminders t)" "r \<in> set (reminders t)" "r \<notin> set served" "r \<notin> set wait"
    and "\<And>x. si_ID (f x) = si_ID x" "g (dispatching r) = f r"
  shows "changed label (update_rows reminders reminders_update (\<lambda>x. si_ID x = si_ID r \<and> si_Status x = ''dispatching'') g)
     \<lparr>tables = round_tables f served (r # wait) t, faults = []\<rparr>
   = (Inr (), \<lparr>tables = round_tables f (served @ [r]) wait t, faults = []\<rparr>)"
proof -
  let ?P = "\<lambda>x. si_ID x = si_ID r \<and> si_Status x = ''dispatching''"
  let ?T = "round_tables f served (r # wait) t"
  define m where "m = (\<lambda>x. if x \<in> set served then f x else if x \<in> set (r # wait) then dispatching x else x)"
  define m' where "m' = (\<lambda>x. if x \<in> set (served @ [r]) then f x else if x \<in> set wait then dispatching x else x)"
  have rows: "reminders ?T = map m (reminders t)" by (simp add: round_tables_def m_def)
  have id: "si_ID (m x) = si_ID x" for x by (simp add: m_def assms(5) dispatching_def)
  have mr: "m r = dispatching r" using assms(3) by (simp add: m_def)
  have u: "unique_key si_ID (map m (reminders t))" using assms(1) by (simp add: unique_key_def o_def id)
  have "dispatching r \<in> set (map m (reminders t))" using assms(2) mr by force
  from rows_affected_unique [OF u this, of ?P] have one: "rows_affected ?P (map m (reminders t)) = 1" by (simp add: dispatching_def)
  have step: "(if ?P (m x) then g (m x) else m x) = m' x" if "x \<in> set (reminders t)" for x
  proof (cases "x = r")
    case True
    then show ?thesis using assms(6) mr by (simp add: m'_def dispatching_def)
  next
    case False
    then have "si_ID x \<noteq> si_ID r" using unique_keyD [OF assms(1) that assms(2)] by blast
    then show ?thesis using False by (simp add: id) (simp add: m_def m'_def)
  qed
  have "update_where ?P g (map m (reminders t)) = map m' (reminders t)"
    unfolding update_where_def map_map o_def by (rule map_cong [OF refl]) (rule step)
  moreover have "round_tables f (served @ [r]) wait t = t\<lparr>reminders := map m' (reminders t)\<rparr>"
    by (simp only: round_tables_def m'_def)
  moreover have "?T = t\<lparr>reminders := map m (reminders t)\<rparr>" by (simp only: round_tables_def m_def)
  ultimately show ?thesis using one by (simp add: changed_def update_rows_def requireRowsChanged_def)
qed

lemma dispatch_items_round:
  assumes "unique_key si_ID (reminders t)"
  shows "set wait \<subseteq> set (reminders t) \<Longrightarrow> distinct (served @ wait) \<Longrightarrow>
    dispatch_items sent (\<lambda>_ t. t) clock (map ScheduledItem.truncate wait)
      \<lparr>tables = round_tables (delivered sent clock) served wait t, faults = []\<rparr>
    = (Inr (), \<lparr>tables = round_tables (delivered sent clock) (served @ wait) [] t, faults = []\<rparr>)"
proof (induction wait arbitrary: served)
  case (Cons r wait)
  let ?f = "delivered sent clock"
  let ?d = "\<lparr>tables = round_tables ?f served (r # wait) t, faults = []\<rparr>"
  let ?d' = "\<lparr>tables = round_tables ?f (served @ [r]) wait t, faults = []\<rparr>"
  have id: "si_ID (?f x) = si_ID x" for x by (simp add: delivered_def Let_def)
  have r: "r \<in> set (reminders t)" "r \<notin> set served" "r \<notin> set wait" using Cons.prems by auto
  have "sent (ScheduledItem.truncate r) = 0 \<Longrightarrow> ReleaseReminder (si_ID r) ?d = (Inr (), ?d')"
    unfolding ReleaseReminder_def by (rule serve_one [OF assms r id]) (simp add: delivered_def dispatching_def)
  moreover have "sent (ScheduledItem.truncate r) \<noteq> 0 \<Longrightarrow> MarkReminderSent (si_ID r)
      (Add (clock (ScheduledItem.truncate r)) (retryDelay (si_Attempts r + 1))) ?d = (Inr (), ?d')"
    unfolding MarkReminderSent_def by (rule serve_one [OF assms r id]) (simp add: delivered_def dispatching_def)
  ultimately have "dispatch_items sent (\<lambda>_ t. t) clock (map ScheduledItem.truncate (r # wait)) ?d
      = dispatch_items sent (\<lambda>_ t. t) clock (map ScheduledItem.truncate wait) ?d'"
    by (cases "sent (ScheduledItem.truncate r) = 0") (simp_all add: meanwhile_def)
  also have "\<dots> = (Inr (), \<lparr>tables = round_tables ?f ((served @ [r]) @ wait) [] t, faults = []\<rparr>)"
    by (rule Cons.IH) (use Cons.prems in auto)
  finally show ?case by simp
qed simp

lemma claim_round:
  assumes "unique_key si_ID (reminders t)"
  shows "ClaimDueReminders locked now 32 \<lparr>tables = t, faults = []\<rparr>
    = (Inr (map ScheduledItem.truncate (claimable locked now 32 t)),
       \<lparr>tables = round_tables f [] (claimable locked now 32 t) t, faults = []\<rparr>)"
proof -
  let ?items = "claimable locked now 32 t"
  have "si_ID r \<in> si_ID ` set ?items \<longleftrightarrow> r \<in> set ?items" if "r \<in> set (reminders t)" for r
  proof
    assume "si_ID r \<in> si_ID ` set ?items"
    then obtain x where "x \<in> set ?items" "si_ID r = si_ID x" by auto
    moreover from this(1) have "x \<in> set (reminders t)" by (auto dest: claimable_due)
    ultimately show "r \<in> set ?items" using unique_keyD [OF assms that] by auto
  qed simp
  then have upd: "reminders_update (update_where (\<lambda>r. si_ID r \<in> si_ID ` set ?items) (\<lambda>r. r\<lparr>si_Status := ''dispatching''\<rparr>)) t
      = round_tables f [] ?items t"
    by (simp add: round_tables_def update_where_def dispatching_def)
  show ?thesis
  proof (cases "?items = []")
    case True
    then show ?thesis by (simp add: ClaimDueReminders_def in_tx_ok round_tables_def)
  next
    case False
    then show ?thesis by (simp add: ClaimDueReminders_def in_tx_ok update_rows_def upd)
  qed
qed

lemma dispatchDue_round:
  assumes "unique_key si_ID (reminders t)"
  shows "dispatchDue sent (\<lambda>_ t. t) clock locked now \<lparr>tables = t, faults = []\<rparr>
    = (Inr (), \<lparr>tables = round_tables (delivered sent clock) (claimable locked now 32 t) [] t, faults = []\<rparr>)"
proof -
  let ?items = "claimable locked now 32 t"
  have "distinct (reminders t)" using assms by (simp add: unique_key_def distinct_map)
  then have "distinct ?items" by (simp add: claimable_def distinct_sort)
  moreover have "set ?items \<subseteq> set (reminders t)" by (auto dest: claimable_due)
  ultimately show ?thesis
    using dispatch_items_round [OF assms, of ?items "[]" sent clock]
    by (simp add: dispatchDue_def claim_round [OF assms, where f = "delivered sent clock"])
qed

lemma retryDelay_bounds: "5 * Second \<le> retryDelay n \<and> retryDelay n \<le> 60 * Second"
proof -
  define k where "k = nat (min ((if n < 1 then 1 else n) - 1) 4)"
  have "k \<in> {0, 1, 2, 3, 4}" unfolding k_def by auto
  then show ?thesis unfolding retryDelay_def Let_def k_def [symmetric]
    by (auto simp: Second_def Minute_def wrap64_def)
qed

lemma claimable_all:
  assumes "length (filter (\<lambda>r. due now r \<and> \<not> locked (si_ID r)) (reminders t)) \<le> n"
    "r \<in> set (reminders t)" "due now r" "\<not> locked (si_ID r)"
  shows "r \<in> set (claimable locked now n t)"
  using assms by (simp add: claimable_def)

text \<open>
  C12: A round of deliveries moves every claimed reminder on and nothing else. Without faults and without
  another connection in between, the round succeeds; each of the at most 32 claimed reminders whose alarm
  reaches a session waits for its acknowledgement with one attempt more and the next attempt between 5 and 60
  seconds ahead, each other one is pending as before, every other row is untouched. When at most 32 reminders
  are due, all of them are claimed, so that each due reminder with a reachable session is sent in this round.
\<close>

theorem dispatch_round:
  assumes "reminders_ok t"
  shows "\<exists>t'. dispatchDue sent (\<lambda>_ t. t) clock locked now \<lparr>tables = t, faults = []\<rparr> = (Inr (), \<lparr>tables = t', faults = []\<rparr>)
    \<and> reminders t' = map (\<lambda>r. if r \<in> set (claimable locked now 32 t) then delivered sent clock r else r) (reminders t)
    \<and> length (claimable locked now 32 t) \<le> 32
    \<and> (\<forall>r \<in> set (claimable locked now 32 t). sent (ScheduledItem.truncate r) \<noteq> 0 \<longrightarrow>
         si_Status (delivered sent clock r) = ''sent'' \<and> (\<exists>n. si_NextAttempt (delivered sent clock r) = Some n
         \<and> clock (ScheduledItem.truncate r) + 5 * Second - 1000 < n \<and> n \<le> clock (ScheduledItem.truncate r) + 60 * Second))
    \<and> (length (filter (\<lambda>r. due now r \<and> \<not> locked (si_ID r)) (reminders t)) \<le> 32 \<longrightarrow>
         (\<forall>r \<in> set (reminders t). due now r \<and> \<not> locked (si_ID r) \<longrightarrow> r \<in> set (claimable locked now 32 t)))"
proof -
  have u: "unique_key si_ID (reminders t)" using assms by (simp add: reminders_ok_def)
  have "si_Status (delivered sent clock r) = ''sent'' \<and> (\<exists>n. si_NextAttempt (delivered sent clock r) = Some n
      \<and> clock (ScheduledItem.truncate r) + 5 * Second - 1000 < n \<and> n \<le> clock (ScheduledItem.truncate r) + 60 * Second)"
    if "sent (ScheduledItem.truncate r) \<noteq> 0" for r
    using that retryDelay_bounds [of "si_Attempts r + 1"]
      pg_ts_le [of "clock (ScheduledItem.truncate r) + retryDelay (si_Attempts r + 1)"]
      pg_ts_gt [of "clock (ScheduledItem.truncate r) + retryDelay (si_Attempts r + 1)"]
    by (simp add: delivered_def Let_def Add_def)
  then show ?thesis
    using dispatchDue_round [OF u, of sent clock locked now] claimable_length [of locked now 32 t]
      claimable_all [of now locked t 32]
    by (intro exI [of _ "round_tables (delivered sent clock) (claimable locked now 32 t) [] t"])
       (simp add: round_tables_def)
qed

theorem dispatch_round_witness:
  "\<exists>t'. dispatchDue (\<lambda>_. 1) (\<lambda>_ t. t) (\<lambda>_. 6000) (\<lambda>_. False) 6000 \<lparr>tables = demo_reminders, faults = []\<rparr>
      = (Inr (), \<lparr>tables = t', faults = []\<rparr>)
    \<and> reminders t' = [demo_reminder\<lparr>si_Status := ''sent'', si_Attempts := 1, si_NextAttempt := Some (6000 + 5 * Second)\<rparr>]"
proof -
  have c: "claimable (\<lambda>_. False) 6000 32 demo_reminders = [demo_reminder]"
    by (simp add: claimable_def demo_reminders_def no_data_def demo_reminder_def scheduled_row_def due_def pg_ts_def)
  have d: "delivered (\<lambda>_. Suc 0) (\<lambda>_. 6000) demo_reminder
      = demo_reminder\<lparr>si_Status := ''sent'', si_Attempts := 1, si_NextAttempt := Some (6000 + 5 * Second)\<rparr>"
    by (simp add: delivered_def demo_reminder_def scheduled_row_def retryDelay_def Add_def pg_ts_def Second_def Minute_def wrap64_def)
  have r: "reminders demo_reminders = [demo_reminder]" by (simp add: demo_reminders_def no_data_def)
  from dispatch_round [OF demo_reminders_ok, of "\<lambda>_. 1" "\<lambda>_. 6000" "\<lambda>_. False" 6000] show ?thesis
    by (auto simp: c d r)
qed

section \<open>Where deliveries get lost\<close>

text \<open>
  The claim takes the 32 reminders that have been due longest. While none of those reaches a session, every
  round claims and releases the same ones, and nothing behind them is ever looked at.
\<close>

theorem round_starved:
  assumes "reminders_ok t"
    and "\<forall>r \<in> set (claimable locked now 32 t). si_Status r = ''pending'' \<and> si_NextAttempt r = None \<and> sent (ScheduledItem.truncate r) = 0"
  shows "dispatchDue sent (\<lambda>_ t. t) clock locked now \<lparr>tables = t, faults = []\<rparr> = (Inr (), \<lparr>tables = t, faults = []\<rparr>)"
proof -
  have "delivered sent clock r = r" if "r \<in> set (claimable locked now 32 t)" for r
    using assms(2) that by (auto simp: delivered_def Let_def)
  then have "map (\<lambda>r. if r \<in> set (claimable locked now 32 t) then delivered sent clock r
      else if r \<in> set [] then dispatching r else r) (reminders t) = reminders t"
    by (intro map_idI) simp
  then have "round_tables (delivered sent clock) (claimable locked now 32 t) [] t = t" by (simp only: round_tables_def) simp
  then show ?thesis using dispatchDue_round [of t sent clock locked now] assms(1) by (simp add: reminders_ok_def)
qed

text \<open>A title of more than 512 bytes is stored, but its alarm is refused by the validation of the payload.\<close>

theorem long_title_never_alarms:
  assumes "512 < length (oledText (si_Title item))"
  shows "pushAlarm accepts h item = 0"
  using assms by (auto simp: pushAlarm_def AlarmFiredPayload_Validate_def alarm_payload_def bounded_text_def and_then_def
      split: option.splits)

text \<open>When nothing is scheduled any more, the update that would tell the device is empty and refused, and the cache takes it as sent.\<close>

theorem cleared_schedule_silent:
  assumes "NextReminder (hi_UserID i) (hi_DeviceID i) (now i) d = (Inr None, d')" "cache (cache_key i) \<noteq> Some []"
  shows "refresh_all local now [i] cache d = ([(hi_UserID i, hi_DeviceID i, [], [])], cache(cache_key i \<mapsto> []), d')
    \<and> pushSchedule accepts h (hi_UserID i) (hi_DeviceID i) [] [] = []"
  using assms by (simp add: schedule_texts_def pushSchedule_def ScheduleUpdatedPayload_Validate_def bounded_text_def oledText_def)

text \<open>
  A device may acknowledge an alarm before the scheduler has marked it sent; the store accepts that. But then
  \<open>MarkReminderSent\<close> finds no row and the round ends there: the reminders behind it, already claimed, stay
  in the status \<open>dispatching\<close>, which no later round claims.
\<close>

definition acked :: "reminder_row \<Rightarrow> data_tables \<Rightarrow> data_tables" where
  "acked r t = tables (snd (AcknowledgeReminder (si_UserID r) (si_DeviceID r) (si_ID r) \<lparr>tables = t, faults = []\<rparr>))"

lemma changed_none:
  "(\<And>x. x \<in> set (get t) \<Longrightarrow> \<not> P x) \<Longrightarrow> upd (update_where P g) t = t \<Longrightarrow>
     changed label (update_rows get upd P g) \<lparr>tables = t, faults = []\<rparr>
       = (Inl (Invalid (label @ '' not found or not mutable'')), \<lparr>tables = t, faults = []\<rparr>)"
  by (simp add: changed_def update_rows_def requireRowsChanged_def rows_affected_def filter_False)

lemma changed_tables:
  "tables (snd (changed l (update_rows reminders reminders_update P g) \<lparr>tables = t, faults = []\<rparr>))
     = reminders_update (update_where P g) t"
  by (simp add: changed_def update_rows_def requireRowsChanged_def)

lemma acked_rows:
  assumes "unique_key si_ID (reminders t)" "r \<in> set (reminders t)" "reminder_ok r"
  shows "reminders (acked r (round_tables f [] (r # rs) t)) =
     map (\<lambda>x. if x = r then r\<lparr>si_Status := ''fired'', si_NextAttempt := None\<rparr> else if x \<in> set rs then dispatching x else x) (reminders t)"
proof -
  let ?P = "\<lambda>x. si_ID x = si_ID r \<and> si_UserID x = owner (si_UserID r)
     \<and> (si_DeviceID x = TrimSpace (si_DeviceID r) \<or> si_DeviceID x = []) \<and> (si_Status x = ''dispatching'' \<or> si_Status x = ''sent'')"
  let ?g = "\<lambda>x. x\<lparr>si_Status := ''fired'', si_NextAttempt := None\<rparr>"
  let ?m = "\<lambda>x. if x \<in> set (r # rs) then dispatching x else x"
  have "reminders (acked r (round_tables f [] (r # rs) t)) = update_where ?P ?g (map ?m (reminders t))"
    by (simp add: acked_def AcknowledgeReminder_def round_tables_def changed_tables)
  moreover have "(if ?P (?m x) then ?g (?m x) else ?m x) = (if x = r then ?g r else if x \<in> set rs then dispatching x else x)"
    if "x \<in> set (reminders t)" for x
  proof (cases "x = r")
    case True
    then show ?thesis using assms(3) by (simp add: dispatching_def reminder_ok_def)
  next
    case False
    then have "si_ID x \<noteq> si_ID r" using unique_keyD [OF assms(1) that assms(2)] by blast
    then show ?thesis using False by (simp add: dispatching_def)
  qed
  ultimately show ?thesis unfolding update_where_def map_map o_def by (simp cong: map_cong)
qed

theorem early_ack_strands:
  assumes "reminders_ok t" "claimable locked now 32 t = r # rs" "sent (ScheduledItem.truncate r) \<noteq> 0"
    and others: "others (ScheduledItem.truncate r) = acked r"
  shows "\<exists>t'. dispatchDue sent others clock locked now \<lparr>tables = t, faults = []\<rparr>
      = (Inl (Invalid ''reminder not found or not mutable''), \<lparr>tables = t', faults = []\<rparr>)
    \<and> (\<forall>x \<in> set rs. dispatching x \<in> set (reminders t') \<and> (\<forall>locked' now' n. dispatching x \<notin> set (claimable locked' now' n t')))"
proof -
  have u: "unique_key si_ID (reminders t)" using assms(1) by (simp add: reminders_ok_def)
  have "r \<in> set (claimable locked now 32 t)" using assms(2) by simp
  then have r: "r \<in> set (reminders t)" by (auto dest: claimable_due)
  have ok: "reminder_ok r" using assms(1) r by (simp add: reminders_ok_def list_all_iff)
  have "distinct (claimable locked now 32 t)"
    using u by (simp add: claimable_def distinct_sort unique_key_def distinct_map)
  then have rs: "r \<notin> set rs" using assms(2) by simp
  let ?T = "acked r (round_tables id [] (r # rs) t)"
  note rows = acked_rows [OF u r ok, of id rs]
  have none: "\<not> (si_ID y = si_ID r \<and> si_Status y = ''dispatching'')" if "y \<in> set (reminders ?T)" for y
  proof -
    from that obtain x where x: "x \<in> set (reminders t)"
      "y = (if x = r then r\<lparr>si_Status := ''fired'', si_NextAttempt := None\<rparr> else if x \<in> set rs then dispatching x else x)"
      unfolding rows by auto
    then show ?thesis using unique_keyD [OF u x(1) r] by (auto simp: dispatching_def)
  qed
  then have "MarkReminderSent (si_ID r) n \<lparr>tables = ?T, faults = []\<rparr>
      = (Inl (Invalid ''reminder not found or not mutable''), \<lparr>tables = ?T, faults = []\<rparr>)" for n
    unfolding MarkReminderSent_def by (subst changed_none) (simp_all add: update_where_none)
  then have run: "dispatchDue sent others clock locked now \<lparr>tables = t, faults = []\<rparr>
      = (Inl (Invalid ''reminder not found or not mutable''), \<lparr>tables = ?T, faults = []\<rparr>)"
    using assms(3) by (simp add: dispatchDue_def claim_round [OF u, where f = id] assms(2) meanwhile_def others)
  have "dispatching x \<in> set (reminders ?T)" if "x \<in> set rs" for x
  proof -
    have "x \<in> set (claimable locked now 32 t)" using that assms(2) by simp
    then have "x \<in> set (reminders t)" by (auto dest: claimable_due)
    moreover have "x \<noteq> r" using that rs by blast
    ultimately show ?thesis unfolding rows using that by (auto simp: image_iff intro!: bexI [of _ x])
  qed
  moreover have "dispatching x \<notin> set (claimable locked' now' n ?T)" for x locked' now' n
    using claimable_due [of "dispatching x" locked' now' n ?T] by (auto simp: due_def dispatching_def)
  ultimately show ?thesis using run by blast
qed

section \<open>Who hears an alarm\<close>

text \<open>
  C14: An alarm is heard by devices of its owner only. Whatever the devices that are connected, every session an
  alarm or a schedule update is addressed to belongs to the user of the reminder and, when the reminder names a
  device, to that device; and every registered session of that user and device is addressed.
\<close>

theorem alarms_reach_owner:
  assumes "history V t t'" "reminders_ok t" "r \<in> set (claimable locked now n t')"
  shows "set (targets h (si_UserID r) (si_DeviceID r)) =
    {s. \<exists>d. (d, s) \<in> set (hub_sessions h) \<and> hs_userID s = si_UserID r \<and> (si_DeviceID r = [] \<or> d = si_DeviceID r)}"
proof -
  have "reminders_ok t'" by (rule well_formed.throughout [OF assms(1,2)])
  then have "reminder_ok r" using claimable_due [OF assms(3)] by (simp add: reminders_ok_def list_all_iff)
  then have "si_UserID r \<noteq> []" using owner_nonempty [of "si_UserID r"] by (auto simp: reminder_ok_def simp del: owner_nonempty)
  then show ?thesis by (force simp: targets_def)
qed

definition demo_hub :: hub where
  "demo_hub = [(''dev'', [\<lparr>hs_ref = 1, hs_userID = ''ann'', hs_tenantID = [], hs_plan = []\<rparr>]),
               (''pod'', [\<lparr>hs_ref = 2, hs_userID = ''bob'', hs_tenantID = [], hs_plan = []\<rparr>])]"

theorem alarms_reach_owner_witness:
  "demo_reminder \<in> set (claimable (\<lambda>_. False) 6000 32 demo_reminders)
   \<and> set (targets demo_hub (si_UserID demo_reminder) (si_DeviceID demo_reminder))
       = {\<lparr>hs_ref = 1, hs_userID = ''ann'', hs_tenantID = [], hs_plan = []\<rparr>}"
proof -
  have c: "demo_reminder \<in> set (claimable (\<lambda>_. False) 6000 32 demo_reminders)"
    by (simp add: claimable_def demo_reminders_def no_data_def demo_reminder_def scheduled_row_def due_def pg_ts_def)
  have d: "si_UserID demo_reminder = ''ann''" "si_DeviceID demo_reminder = ''dev''"
    by (simp_all add: demo_reminder_def scheduled_row_def demo_owner)
  have "set (targets demo_hub (si_UserID demo_reminder) (si_DeviceID demo_reminder)) =
      {s. \<exists>d. (d, s) \<in> set (hub_sessions demo_hub) \<and> hs_userID s = ''ann'' \<and> (''dev'' = [] \<or> d = ''dev'')}"
    using alarms_reach_owner [OF history.start demo_reminders_ok c, where h = demo_hub] unfolding d .
  also have "\<dots> = {\<lparr>hs_ref = 1, hs_userID = ''ann'', hs_tenantID = [], hs_plan = []\<rparr>}"
    by (auto simp: demo_hub_def hub_sessions_def)
  finally show ?thesis using c by blast
qed

end
