(* ===== verification/Spec2Isabelle.thy ===== *)
theory Spec2Isabelle
  imports Pairing_Properties Voicemail_Properties Interactions Provisioning Control_Properties Realtime Session_Properties Firmware_Properties
    Scheduler_Properties
begin

text \<open>
  A verification of the Go backend of the AI companion (\<open>src/backend/internal\<close>): the server that talks to
  ESP32 voice companions over a websocket protocol and keeps all product state in PostgreSQL.

  \<^bold>\<open>The parts of the program and how they meet.\<close> A device is provisioned by a claim: it opens a claim session
  and polls it, the owner logs in and approves the session (or types a human claim code), the poll then
  mints a claim authorization, and the onboarding endpoint exchanges it for the long-lived credential. Two
  claimed devices can be paired by a proximity gesture that both confirm; paired devices exchange voice
  mail. The control plane keeps a twin for every device, with desired and reported settings, and the
  server pushes the desired settings to the device. Every mutation runs through the idempotency ledger in
  the same transaction, and every message on the wire is an envelope of the protocol package. A connected
  device holds a websocket session, in which voice turns run and can be interrupted; it asks for firmware,
  which an administrator publishes signed. The user's notes, expenses, goals, journal, reminders and memos
  are rows of the store; a scheduler delivers due reminders to the sessions that the hub knows.

  \<^bold>\<open>Theories.\<close>
  \<^item> \<open>Go_Prelude\<close>: runes, \<open>TrimSpace\<close>, wrapped 64-bit arithmetic, instants, tables of rows, chains of checks.
  \<^item> \<open>Pg_Tx\<close>: statements and transactions with a schedule of failures, \<open>keeps\<close>, \<open>changes\<close>, \<open>readonly\<close>, \<open>preserves\<close>.
  \<^item> \<open>Canonical_Json\<close>, \<open>Json_Parser\<close>: \<open>encoding/json\<close> as the code uses it, canonical hashing, the parser.
  \<^item> \<open>Idempotency\<close>: \<open>idempotency/idempotency.go\<close>, \<open>pgstore/idempotency.go\<close>; locale \<open>idempotent_op\<close>.
  \<^item> \<open>Store_Tables\<close>, \<open>Pairing\<close>, \<open>Pairing_Service\<close>, \<open>Pairing_Properties\<close>: \<open>pairing/service.go\<close>, \<open>pgstore/pairing.go\<close>.
  \<^item> \<open>Voicemail\<close>, \<open>Voicemail_Service\<close>, \<open>Voicemail_Runs\<close>, \<open>Voicemail_Properties\<close>: \<open>voicemail\<close>, its file system store,
    \<open>pgstore/voicemail.go\<close>; the locales \<open>voicemail_op\<close> and \<open>voicemail_offer\<close> state what a mutation may do to the items,
    and \<open>Voicemail_Runs\<close> cuts the calls into the parts that other calls can come between.
  \<^item> \<open>Protocol\<close>, \<open>Interactions\<close>: \<open>protocol/envelope.go\<close>, \<open>capability.go\<close>, \<open>interaction.go\<close>.
  \<^item> \<open>Owner_Auth\<close>, \<open>Owner_Auth_Properties\<close>: logins, sessions, claim authorizations, human codes of \<open>ownerauth\<close>.
  \<^item> \<open>Claim_Session\<close>, \<open>Claim_Contract\<close>, \<open>Claim_Stores\<close>: the store of claim sessions in memory and in PostgreSQL; the
    locale \<open>claim_session_store\<close> states the contract, both stores interpret it.
  \<^item> \<open>Claim_Limiter\<close>, \<open>Claim_Handlers\<close>, \<open>Claim_Demo\<close>, \<open>Claim_Properties\<close>: the limits on attempts (locale \<open>fixed_window\<close>,
    interpreted three times), the HTTP handlers of claim sessions and their properties.
  \<^item> \<open>Control_Plane\<close>, \<open>Twin_Store\<close>, \<open>Settings_Sync\<close>, \<open>Settings_Laws\<close>, \<open>Control_Properties\<close>: \<open>controlplane/controlplane.go\<close>,
    \<open>settings_status.go\<close>, \<open>pgstore/control_auth.go\<close>, \<open>pgstore/settings_state.go\<close>, and the settings paths of \<open>server\<close>;
    merging configurations is an interpretation of the library's \<open>monoid\<close>.
  \<^item> \<open>Onboarding\<close>, \<open>Onboarding_Properties\<close>: \<open>onboarding/claim.go\<close>, \<open>pgstore/device_claim.go\<close>, device credentials.
  \<^item> \<open>Provisioning\<close>: the claim endpoint wired to the authorization service and to the stores of claim sessions.
  \<^item> \<open>Json_Text\<close>, \<open>Protocol_Decode\<close>, \<open>Go_Time\<close>: the encoder's text, the decoder of envelopes, dates and \<open>RFC3339\<close>.
  \<^item> \<open>Realtime\<close>: the turn detector and the sentence segmenter of \<open>realtime\<close>.
  \<^item> \<open>Device_Session\<close>, \<open>Session_Invariant\<close>, \<open>Session_Demo\<close>, \<open>Session_Properties\<close>: the session of a device in
    \<open>server/server.go\<close> and its companions: reader, turns, workers, queues and writer as steps of one state.
  \<^item> \<open>Firmware\<close>, \<open>Firmware_Properties\<close>: \<open>controlplane/firmware.go\<close>, \<open>ota.go\<close>, \<open>module.go\<close>, their tables and handlers.
  \<^item> \<open>Personal_Data\<close>, \<open>Data_Isolation\<close>: \<open>pgstore/domain.go\<close>, \<open>domain_mutations.go\<close>, \<open>domain/saving.go\<close>.
  \<^item> \<open>Scheduler\<close>, \<open>Scheduler_Properties\<close>: \<open>server/scheduler.go\<close>, \<open>server/hub.go\<close>, the reminder calls of
    \<open>pgstore/background.go\<close>; the locale \<open>history_invariant\<close> lifts an invariant over all interleavings.

  \<^bold>\<open>How state and operations correspond.\<close> A struct is a record and a table a list of rows; an operation of the
  PostgreSQL store is a function of type \<open>tx\<close> on the tables, with the constraints, triggers and defaults of
  \<open>src/db/postgres\<close> in its statements; a handler is a function from the decoded request and the state to the
  response and the new state. Errors are values of \<open>failure\<close>. Any call of the database may fail: the field
  \<open>faults\<close> of the state says which of the coming calls do, and the lemmas hold for every schedule unless
  they assume an empty one. Instants are nanoseconds; a column of type \<open>timestamptz\<close> keeps microseconds
  (\<open>pg_ts\<close>). The calls of one transaction are atomic, as the advisory and row locks of the code make them.
  Where an operation is one transaction or one critical section, interleavings are sequences of whole operations (the
  inductive relations \<open>pairing_run\<close>, \<open>claim_move\<close>, \<open>claim_run\<close>, \<open>history\<close>, \<open>catalogue\<close>). Where it is not, the runs
  interleave its parts: \<open>vm_steps\<close> for the voice-mail service, whose uploads and cleanups touch the file system between
  their transactions, \<open>login_run\<close> for logins, which leave the mutex to ask the identity provider, and \<open>conn_step\<close> for a
  session. The settings (\<open>settings_run\<close>) are whole operations too; a read that another operation overtakes between
  it and the write that follows is not followed there. A round of the scheduler takes what other connections do
  between its calls as an argument.

  \<^bold>\<open>What the lemmas show.\<close> Pairing: consent of both sides, one active relationship for a pair, refinement of the
  protocol's state machine, replays. Voice mail: under overlapping calls every stored object is the announced one and every
  offered item has its object, items only move forward, exclusive claims, playback as the protocol says, clean-up that
  completes. Claims: whom an authorization names and where it comes from, single tokens, limits,
  login states that open one session, owners that never change and credentials that only the owner rotates, credentials that authenticate. Control plane: the
  meaning of a twin's status, the layering of configurations, convergence. Protocol: which envelopes are
  encoded and which advertisements accepted, and that decoding inverts encoding. Sessions: no output of an
  interrupted turn after a barge-in, bounded captures, replayed messages without effect. Firmware: what a
  device is offered was published with the administrator's token, signed and newer, and a signature binds its release. Personal data: no
  user's writes touch or show in another user's data. Reminders: rows stay well formed, acknowledged ones are
  final, an undisturbed round serves what it claims, pausing keeps the time that is left, alarms reach their
  owner only. Several theorems state defects: an immediate deletion that deletes nothing, a late upload whose file is
  never removed, durations that overflow, a collation that blocks a pairing, rotated arguments, a session that logout leaves alive,
  reports of settings that are refused, an abort that comes too late, signatures over nothing, releases that
  are never served, and reminders that an early acknowledgement, 32 offline ones before them or a long title
  keep from being delivered.

  \<^bold>\<open>Bounds and fuel.\<close> Recursion is structural or has a measure; the JSON parser takes as fuel the length of its
  input. The clean-up loop of voice mail is bounded by its batch limit, as in the code.

  \<^bold>\<open>Parameters.\<close> SHA-256, authenticated encryption, the identity provider, the time-zone database, the collation
  of the database, random draws, clocks and the replies of a device are arguments. Their laws (length of a
  hash, opening what was sealed) are hypotheses of the theorems that use them, each with an instance.

  \<^bold>\<open>Not modelled.\<close> The websocket library and the handshake, the handlers of pairing and of device capabilities
  inside a session, speech and language-model providers, the agent bridge, external tool servers and data
  services, HTML pages, metrics, evaluation programs and process wiring: input and output or code of third
  parties. The tools offered to the language model decode arguments and call the modelled store. Of the
  PostgreSQL store, the outbox, market watches, memories, privacy and usage tables are left out. The SQLite
  store serves migrations only. The firmware of the device is C++. What could follow: the outbox and its
  dispatcher, the cache of conversations, the registry and the router of capabilities.
\<close>

section \<open>The chain of provisioning\<close>

text \<open>
  C2: A credential rests on the consent of its owner. When the claim endpoint, wired to the service and to the
  store of claim sessions in PostgreSQL, issues a credential that is no replay, the credential of the
  device belongs to a user for whom one of two things holds: the service holds an unexpired authorization
  of that user bound to exactly this bootstrap and device, or that user approved a claim session of
  exactly this bootstrap and device, whose poll minted the token that was presented.
\<close>

theorem credential_needs_consent:
  assumes "no_sessions d0" "\<forall>x \<in> set ops. creates_pending (snd x)"
    and "handleClaim sha box env clock draws (service_authorizer cfg clk cenv) hdr key (Some (device0, boot0))
           ((a, run_ops pg_exec ops d0), d) = (ClaimOK resp, st', d')"
    and "\<not> cl_Replayed resp"
  shows "\<exists>token user r. bearerToken hdr = Some token \<and> find_credential (TrimSpace device0) (tables d') = Some r
    \<and> dc_user_id r = TrimSpace user
    \<and> ((\<exists>c. claims a (tokenKey cfg (TrimSpace token)) = Some c \<and> ca_UserID c = user \<and> clk 0 < ca_ExpiresAt c
          \<and> ca_BootstrapID c = claimBinding cfg (TrimSpace boot0) (TrimSpace device0))
     \<or> (\<exists>i v. approved_in pg_ts (snd ` set ops) i v \<and> minted_in pg_ts (snd ` set ops) v \<and> v_Token v = TrimSpace token
          \<and> v_Bootstrap v = TrimSpace boot0 \<and> v_Device v = TrimSpace device0 \<and> TrimSpace (v_Owner v) = TrimSpace user))"
proof -
  from assms(3,4) obtain token user r where token: "bearerToken hdr = Some token"
    and auth: "service_authorizer cfg clk cenv token (TrimSpace boot0) (TrimSpace device0) (a, run_ops pg_exec ops d0) = (Some user, st')"
    and r: "find_credential (TrimSpace device0) (tables d') = Some r" "dc_user_id r = TrimSpace user"
    by (rule handleClaim_fresh)
  from service_authorizer_Some [OF auth] show ?thesis
  proof
    assume "\<exists>d'. pg_exec cenv (OpAuthorize token (TrimSpace (TrimSpace boot0)) (TrimSpace (TrimSpace device0)) (clk 1)) (run_ops pg_exec ops d0) = (ROwner user, d')"
    then show ?thesis
      using pgc.authorize_provenance [of d0 ops cenv token "TrimSpace boot0" "TrimSpace device0" "clk 1" user] no_sessions_ok [OF assms(1)] assms(2) token r
      by (metis TrimSpace_idem)
  qed (use token r in auto)
qed

definition no_logins :: auth_state where
  "no_logins = \<lparr>logins = Map.empty, owner_sessions = Map.empty, claims = Map.empty, local_redemptions = Map.empty, code_store = None\<rparr>"

theorem credential_needs_consent_witness:
  "\<exists>i v. approved_in pg_ts (snd ` set (demo_ops @ [(demo_env, demo_poll (2 * Second))])) i v
     \<and> v_Token v = ''token-for-alice'' \<and> v_Bootstrap v = ''boot'' \<and> v_Device v = ''dev''"
proof -
  let ?ops = "demo_ops @ [(demo_env, demo_poll (2 * Second))]"
  let ?auth = "service_authorizer demo_config (\<lambda>_. 3 * Second) demo_env" and ?a = "(no_logins, run_ops pg_exec ?ops demo_db)"
  have st: "run_ops pg_exec ?ops demo_db = demo_state demo_consumed"
    by (simp add: run_ops_append demo_runs demo_first del: pg_exec.simps)
  have "store_authorize demo_env (demo_state demo_consumed) ''token-for-alice'' ''boot'' ''dev'' (3 * Second) = Inr ''alice''"
    using demo_authorize by (auto simp: store_authorize_def to_result_def split: sum.splits)
  then have ok: "?auth ''token-for-alice'' ''boot'' ''dev'' ?a = (Some ''alice'', ?a)"
    unfolding st by (simp add: service_authorizer_def AuthorizeDeviceClaim_def AuthorizeClaimAuthorization_def no_logins_def Let_def)
  from onb_claim [of ?auth ?a ?a, OF ok] obtain resp d' where run: "handleClaim onb_sha onb_box onb_env onb_clock onb_draws ?auth
      ''Bearer token-for-alice'' ''key-00001'' (Some (''dev'', ''boot'')) (?a, onb_demo) = (ClaimOK resp, ?a, d')"
    and new: "\<not> cl_Replayed resp" by blast
  have "no_sessions demo_db" "\<forall>x \<in> set ?ops. creates_pending (snd x)"
    using demo_ops_pending by (auto simp: no_sessions_def demo_db_def demo_poll_def)
  from credential_needs_consent [OF this run new] show ?thesis
    by (auto simp: onb_bearer no_logins_def)
qed

end
